(* ===== verification/Prelude.thy ===== *)
theory Prelude
  imports Main "HOL-Library.Word"
begin

text \<open>
  Shared vocabulary of the development: the machine types of the DSP (32-bit addresses and
  counters, 64-bit colours, timestamps and message identifiers), the collections that the
  component theories fill, and the generic facts on words, lists and sets they share.
\<close>

unbundle bit_operations_syntax

section \<open>Machine types\<close>

text \<open>
  \<open>UWORD32\<close> and \<open>UWORD64\<close> of \<^verbatim>\<open>xa_type_def.h\<close>. Pointers of the Xtensa target are 32-bit, and the
  sources convert between pointers and \<open>UWORD32\<close> freely, so a pointer is a 32-bit word with
  0 for \<open>NULL\<close>.
\<close>

type_synonym u32 = "32 word"
type_synonym u64 = "64 word"
type_synonym addr = "32 word"

abbreviation NULL :: addr where
  "NULL \<equiv> 0"

section \<open>Collections\<close>

named_theorems heap_defs \<open>definitions of the elementary stores into the node heap\<close>
named_theorems frame \<open>facts that a store outside a structure leaves it alone\<close>
named_theorems disj \<open>rewriting of disjointness of unions into atomic facts\<close>

declare Int_Un_distrib [disj] Int_Un_distrib2 [disj]

section \<open>Low bits of words\<close>

text \<open>
  The least significant bit of a node's \<open>color\<close> is the red/black colour; the other 63 bits
  belong to the client (a timestamp or a block length).
\<close>

lemma and_one_zero_iff: "(c :: u64) AND 1 = 0 \<longleftrightarrow> even c"
  by (simp add: and_one_eq even_iff_mod_2_eq_zero)

lemma even_clear [simp]: "even ((c :: u64) AND - 2)"
  by (simp add: even_and_iff)

lemma odd_set [simp]: "odd ((c :: u64) OR 1)"
  by (simp add: even_or_iff)

lemma bit_minus_two: "n \<noteq> 0 \<Longrightarrow> n < 64 \<Longrightarrow> bit (- 2 :: u64) n"
  by (simp add: bit_minus_2_iff)

lemma clear_set [simp]: "((c :: u64) OR 1) AND - 2 = c AND - 2"
proof (rule bit_word_eqI)
  fix n
  assume "n < LENGTH(64)"
  show "bit ((c OR 1) AND - 2) n = bit (c AND - 2) n"
    by (cases "n = 0") (simp_all add: bit_0 even_and_iff bit_and_iff bit_or_iff bit_1_iff)
qed

lemma clear_clear [simp]: "((c :: u64) AND - 2) AND - 2 = c AND - 2"
  by (simp add: and.assoc)

lemma clear_even: "even c \<Longrightarrow> (c :: u64) AND - 2 = c"
proof (rule bit_word_eqI)
  fix n
  assume "even c" and "n < LENGTH(64)"
  then show "bit (c AND - 2) n = bit c n"
    by (cases "n = 0") (simp_all add: bit_0 even_and_iff bit_and_iff bit_minus_two)
qed

lemma unat_nonzero: "(c :: 'a :: len word) \<noteq> 0 \<Longrightarrow> 0 < unat c"
  by (simp add: unat_gt_0)

lemma clear_bit_0: "(w :: u64) AND - 2 = w - (w AND 1)"
proof -
  have "(w AND - 2) + (w AND 1) = (w AND - 2) OR (w AND 1)"
    by (rule disjunctive_add_eq_or) (rule bit_eqI, simp add: bit_simps, auto)
  also have "\<dots> = w"
    by (rule bit_eqI) (auto simp: bit_simps)
  finally show ?thesis by (metis add_diff_cancel_right')
qed

lemma clear_le: "unat ((w :: u64) AND - 2) \<le> unat w"
  by (simp add: word_le_nat_alt [symmetric] word_and_le2)

lemma even_unat_iff: "even (unat (w :: u64)) \<longleftrightarrow> even w"
  using bit_unsigned_iff [of w 0] by (simp add: bit_0)

lemma unat_clear: "unat ((w :: u64) AND - 2) = (if even w then unat w else unat w - 1)"
proof (cases "even w")
  case True
  then show ?thesis by (simp add: clear_even)
next
  case False
  then have "w AND 1 = 1" by (simp add: and_one_eq odd_iff_mod_2_eq_one)
  moreover have "w \<noteq> 0" using False by auto
  then have "unat (w - 1) = unat w - 1" by (simp add: unat_minus_one)
  ultimately show ?thesis using False by (simp add: clear_bit_0)
qed

lemma even_diff: "even (a :: u64) \<Longrightarrow> even b \<Longrightarrow> even (a - b)"
  by (metis even_add diff_add_cancel)

lemma even_le_odd: "even (a :: nat) \<Longrightarrow> odd d \<Longrightarrow> a \<le> d \<longleftrightarrow> a \<le> d - 1"
  by presburger

lemma even_ucast_iff: "even (ucast (n :: u32) :: u64) \<longleftrightarrow> even n"
proof -
  have "bit (ucast n :: u64) 0 \<longleftrightarrow> bit n 0" by (simp add: bit_ucast_iff)
  then show ?thesis by (simp add: bit_0)
qed

text \<open>Comparing with an even number does not see the lowest bit.\<close>

lemma less_even_iff:
  assumes "even (n :: u64)"
  shows "c < n \<longleftrightarrow> c AND - 2 < n"
proof -
  have "unat (c AND - 2) = (if even c then unat c else unat c - 1)"
    by (rule unat_clear)
  moreover have "even (unat n)" using assms by (simp add: even_unat_iff)
  moreover have "even (unat c) \<longleftrightarrow> even c" by (rule even_unat_iff)
  ultimately have "unat c < unat n \<longleftrightarrow> unat (c AND - 2) < unat n"
    by (cases "even c"; simp; presburger)
  then show ?thesis by (simp add: word_less_nat_alt)
qed

lemma even_unat_iff32: "even (unat (w :: u32)) \<longleftrightarrow> even w"
  using bit_unsigned_iff [of w 0] by (simp add: bit_0)

lemma even_sub_iff: "even ((a :: u64) - b) \<longleftrightarrow> (even a \<longleftrightarrow> even b)"
  by (metis diff_add_cancel even_add)

lemma clear_mask:
  assumes "k < 32"
  shows "unat ((w :: u32) AND NOT (2 ^ k - 1)) = 2 ^ k * (unat w div 2 ^ k)"
proof -
  have "w AND NOT (mask k) = push_bit k (drop_bit k w)"
    by (rule bit_word_eqI) (auto simp: bit_and_iff bit_not_iff bit_mask_iff bit_push_bit_iff bit_drop_bit_eq)
  then have eq: "w AND NOT (2 ^ k - 1) = w div 2 ^ k * 2 ^ k"
    by (simp add: mask_eq_exp_minus_1 push_bit_eq_mult drop_bit_eq_div)
  have "(2 :: nat) ^ k < 2 ^ 32" using assms by (intro power_strict_increasing) simp_all
  then have k: "unat ((2 :: u32) ^ k) = 2 ^ k"
    using unat_of_nat [of "2 ^ k", where ?'a = 32] by simp
  have "unat w div 2 ^ k * 2 ^ k \<le> unat w" by simp
  also have "unat w < 2 ^ 32" using unsigned_less [of w, where ?'a = nat] by simp
  finally have "unat (w div 2 ^ k) * unat ((2 :: u32) ^ k) < 2 ^ LENGTH(32)" by (simp add: unat_div k)
  then have "unat (w div 2 ^ k * 2 ^ k) = unat (w div 2 ^ k) * unat ((2 :: u32) ^ k)"
    by (simp only: unat_mult_lem)
  then show ?thesis unfolding eq by (simp add: unat_div k mult.commute)
qed

section \<open>Lists\<close>

lemma filter_split:
  "sorted_wrt (\<lambda>x y. P y \<longrightarrow> P x) xs \<Longrightarrow> xs = filter P xs @ filter (\<lambda>x. \<not> P x) xs"
proof (induction xs)
  case (Cons x xs)
  then show ?case
    by (cases "P x") (auto simp: filter_empty_conv filter_id_conv)
qed simp

lemma last_snoc_in: "xs \<noteq> [] \<Longrightarrow> last xs \<in> set xs"
  by simp

end
