(* ===== verification/RB_Heap.thy ===== *)
theory RB_Heap
  imports Prelude
begin

text \<open>
  The red-black tree library, part one: the node type and accessors of \<^verbatim>\<open>lib/rbtree.h\<close>, the field
  setters of \<^verbatim>\<open>rbtree.c\<close>, and the predicates that say which tree the linked nodes of a heap
  represent. The heap is a typed one: it maps the address of an \<open>rb_node\<close> to its contents.
  Every tree has a sentinel node, the member \<open>root\<close> of \<open>rb_tree_t\<close>: its address \<open>z\<close>
  plays the null child, its \<open>left\<close> is the root of the tree and its \<open>right\<close> the client's
  cached index.
\<close>

section \<open>Nodes, accessors and setters\<close>

record rb_node =
  nd_parent :: addr
  nd_left :: addr
  nd_right :: addr
  nd_color :: u64

type_synonym rb_heap = "addr \<Rightarrow> rb_node"

definition rb_left :: "rb_heap \<Rightarrow> addr \<Rightarrow> addr" where
  "rb_left h n = nd_left (h n)"

definition rb_right :: "rb_heap \<Rightarrow> addr \<Rightarrow> addr" where
  "rb_right h n = nd_right (h n)"

definition rb_parent :: "rb_heap \<Rightarrow> addr \<Rightarrow> addr" where
  "rb_parent h n = nd_parent (h n)"

text \<open>The sentinel of the tree at address \<open>z\<close> is its null node.\<close>

definition rb_null :: "addr \<Rightarrow> addr" where
  "rb_null z = z"

definition rb_root :: "addr \<Rightarrow> rb_heap \<Rightarrow> addr" where
  "rb_root z h = rb_left h z"

definition rb_cache :: "addr \<Rightarrow> rb_heap \<Rightarrow> addr" where
  "rb_cache z h = rb_right h z"

definition rb_set_left :: "rb_heap \<Rightarrow> addr \<Rightarrow> addr \<Rightarrow> rb_heap" where
  "rb_set_left h n c = h(n := (h n)\<lparr>nd_left := c\<rparr>)"

definition rb_set_right :: "rb_heap \<Rightarrow> addr \<Rightarrow> addr \<Rightarrow> rb_heap" where
  "rb_set_right h n c = h(n := (h n)\<lparr>nd_right := c\<rparr>)"

definition rb_set_cache :: "addr \<Rightarrow> rb_heap \<Rightarrow> addr \<Rightarrow> rb_heap" where
  "rb_set_cache z h c = h(z := (h z)\<lparr>nd_right := c\<rparr>)"

text \<open>User bits of the colour word; the setter takes a 32-bit value.\<close>

definition rb_node_data :: "rb_heap \<Rightarrow> addr \<Rightarrow> u64" where
  "rb_node_data h n = drop_bit 1 (nd_color (h n))"

definition rb_set_node_data :: "rb_heap \<Rightarrow> addr \<Rightarrow> u32 \<Rightarrow> rb_heap" where
  "rb_set_node_data h n d =
     h(n := (h n)\<lparr>nd_color := (nd_color (h n) AND 1) OR ucast (push_bit 1 d)\<rparr>)"

definition RB_IS_BLACK :: "rb_heap \<Rightarrow> addr \<Rightarrow> bool" where
  "RB_IS_BLACK h n \<longleftrightarrow> nd_color (h n) AND 1 = 0"

text \<open>The field setters used by the balancing code.\<close>

definition RB_SET_P :: "rb_heap \<Rightarrow> addr \<Rightarrow> addr \<Rightarrow> rb_heap" where
  "RB_SET_P h n p = h(n := (h n)\<lparr>nd_parent := p\<rparr>)"

definition RB_SET_L :: "rb_heap \<Rightarrow> addr \<Rightarrow> addr \<Rightarrow> rb_heap" where
  "RB_SET_L h n l = h(n := (h n)\<lparr>nd_left := l\<rparr>)"

definition RB_SET_R :: "rb_heap \<Rightarrow> addr \<Rightarrow> addr \<Rightarrow> rb_heap" where
  "RB_SET_R h n r = h(n := (h n)\<lparr>nd_right := r\<rparr>)"

definition RB_SET_C_BLK :: "rb_heap \<Rightarrow> addr \<Rightarrow> rb_heap" where
  "RB_SET_C_BLK h n = h(n := (h n)\<lparr>nd_color := nd_color (h n) AND NOT 1\<rparr>)"

definition RB_SET_C_RED :: "rb_heap \<Rightarrow> addr \<Rightarrow> rb_heap" where
  "RB_SET_C_RED h n = h(n := (h n)\<lparr>nd_color := nd_color (h n) OR 1\<rparr>)"

datatype clr = Red | Blk

definition RB_SET_C :: "rb_heap \<Rightarrow> addr \<Rightarrow> clr \<Rightarrow> rb_heap" where
  "RB_SET_C h n c = (case c of Red \<Rightarrow> RB_SET_C_RED h n | Blk \<Rightarrow> RB_SET_C_BLK h n)"

definition RB_SET_P_L :: "rb_heap \<Rightarrow> addr \<Rightarrow> addr \<Rightarrow> addr \<Rightarrow> rb_heap" where
  "RB_SET_P_L h n p l = RB_SET_L (RB_SET_P h n p) n l"

definition RB_SET_P_R :: "rb_heap \<Rightarrow> addr \<Rightarrow> addr \<Rightarrow> addr \<Rightarrow> rb_heap" where
  "RB_SET_P_R h n p r = RB_SET_R (RB_SET_P h n p) n r"

definition RB_SET_P_L_C :: "rb_heap \<Rightarrow> addr \<Rightarrow> addr \<Rightarrow> addr \<Rightarrow> clr \<Rightarrow> rb_heap" where
  "RB_SET_P_L_C h n p l c = RB_SET_C (RB_SET_P_L h n p l) n c"

definition RB_SET_P_R_C :: "rb_heap \<Rightarrow> addr \<Rightarrow> addr \<Rightarrow> addr \<Rightarrow> clr \<Rightarrow> rb_heap" where
  "RB_SET_P_R_C h n p r c = RB_SET_C (RB_SET_P_R h n p r) n c"

definition RB_SET_P_L_R :: "rb_heap \<Rightarrow> addr \<Rightarrow> addr \<Rightarrow> addr \<Rightarrow> addr \<Rightarrow> rb_heap" where
  "RB_SET_P_L_R h n p l r = RB_SET_R (RB_SET_P_L h n p l) n r"

definition RB_SET_P_L_R_C ::
    "rb_heap \<Rightarrow> addr \<Rightarrow> addr \<Rightarrow> addr \<Rightarrow> addr \<Rightarrow> clr \<Rightarrow> rb_heap" where
  "RB_SET_P_L_R_C h n p l r c = RB_SET_C (RB_SET_P_L_R h n p l r) n c"

definition RB_SET_ROOT :: "addr \<Rightarrow> rb_heap \<Rightarrow> addr \<Rightarrow> rb_heap" where
  "RB_SET_ROOT z h n = RB_SET_L h z n"

definition rb_init :: "addr \<Rightarrow> rb_heap \<Rightarrow> rb_heap" where
  "rb_init z h = RB_SET_P_L_R_C h z z z z Blk"

lemmas setters [heap_defs] =
  RB_SET_P_def RB_SET_L_def RB_SET_R_def RB_SET_C_def RB_SET_C_BLK_def RB_SET_C_RED_def
  RB_SET_P_L_def RB_SET_P_R_def RB_SET_P_L_C_def RB_SET_P_R_C_def RB_SET_P_L_R_def
  RB_SET_P_L_R_C_def RB_SET_ROOT_def rb_set_left_def rb_set_right_def rb_set_cache_def

lemmas accessors [heap_defs] =
  rb_left_def rb_right_def rb_parent_def rb_null_def rb_root_def rb_cache_def

section \<open>Trees and contexts\<close>

text \<open>
  \<open>ptree\<close> is the shape of a linked tree: colour, left subtree, address of the node, right
  subtree. A context is the path from a position in the tree up to the root, innermost frame
  first: \<open>LeftOf c a r\<close> says that the position is the left child of the node \<open>a\<close>, of
  colour \<open>c\<close> and with right subtree \<open>r\<close>. The loops of the library walk up such a path.
\<close>

datatype ptree = Tip | Bin clr ptree addr ptree

datatype pframe = LeftOf clr addr ptree | RightOf clr ptree addr

type_synonym ctx = "pframe list"

primrec inorder :: "ptree \<Rightarrow> addr list" where
  "inorder Tip = []"
| "inorder (Bin c l a r) = inorder l @ a # inorder r"

fun plug :: "ctx \<Rightarrow> ptree \<Rightarrow> ptree" where
  "plug [] t = t"
| "plug (LeftOf c a r # k) t = plug k (Bin c t a r)"
| "plug (RightOf c l a # k) t = plug k (Bin c l a t)"

text \<open>Keys before and after the hole of a context.\<close>

fun ctx_pre :: "ctx \<Rightarrow> addr list" where
  "ctx_pre [] = []"
| "ctx_pre (LeftOf c a r # k) = ctx_pre k"
| "ctx_pre (RightOf c l a # k) = ctx_pre k @ inorder l @ [a]"

fun ctx_post :: "ctx \<Rightarrow> addr list" where
  "ctx_post [] = []"
| "ctx_post (LeftOf c a r # k) = a # inorder r @ ctx_post k"
| "ctx_post (RightOf c l a # k) = ctx_post k"

lemma inorder_plug: "inorder (plug k t) = ctx_pre k @ inorder t @ ctx_post k"
  by (induction k t rule: plug.induct) auto

lemma plug_append: "plug (k @ k') t = plug k' (plug k t)"
  by (induction k t rule: plug.induct) auto

fun root_of :: "addr \<Rightarrow> ptree \<Rightarrow> addr" where
  "root_of z Tip = z"
| "root_of z (Bin c l a r) = a"

fun col :: "ptree \<Rightarrow> clr" where
  "col Tip = Blk"
| "col (Bin c l a r) = c"

fun paint :: "clr \<Rightarrow> ptree \<Rightarrow> ptree" where
  "paint c Tip = Tip"
| "paint c (Bin c' l a r) = Bin c l a r"

lemma inorder_paint [simp]: "inorder (paint c t) = inorder t"
  by (cases t) auto

lemma clr_not_Red [simp]: "c \<noteq> Red \<longleftrightarrow> c = Blk"
  by (cases c) auto

lemma clr_not_Blk [simp]: "c \<noteq> Blk \<longleftrightarrow> c = Red"
  by (cases c) auto

section \<open>Representation in the heap\<close>

definition clr_of :: "rb_node \<Rightarrow> clr" where
  "clr_of nd = (if odd (nd_color nd) then Red else Blk)"

fun tree_at :: "addr \<Rightarrow> rb_heap \<Rightarrow> addr \<Rightarrow> addr \<Rightarrow> ptree \<Rightarrow> bool" where
  "tree_at z h p x Tip \<longleftrightarrow> x = z"
| "tree_at z h p x (Bin c l a r) \<longleftrightarrow>
     x = a \<and> a \<noteq> z \<and> nd_parent (h a) = p \<and> clr_of (h a) = c \<and>
     tree_at z h a (nd_left (h a)) l \<and> tree_at z h a (nd_right (h a)) r"

fun ctx_at :: "addr \<Rightarrow> rb_heap \<Rightarrow> addr \<Rightarrow> addr \<Rightarrow> ctx \<Rightarrow> bool" where
  "ctx_at z h p x [] \<longleftrightarrow> p = z \<and> nd_left (h z) = x"
| "ctx_at z h p x (LeftOf c a r # k) \<longleftrightarrow>
     p = a \<and> a \<noteq> z \<and> clr_of (h a) = c \<and> nd_left (h a) = x \<and>
     tree_at z h a (nd_right (h a)) r \<and> ctx_at z h (nd_parent (h a)) a k"
| "ctx_at z h p x (RightOf c l a # k) \<longleftrightarrow>
     p = a \<and> a \<noteq> z \<and> clr_of (h a) = c \<and> nd_right (h a) = x \<and>
     tree_at z h a (nd_left (h a)) l \<and> ctx_at z h (nd_parent (h a)) a k"

fun ctx_addrs :: "ctx \<Rightarrow> addr list" where
  "ctx_addrs [] = []"
| "ctx_addrs (LeftOf c a r # k) = a # inorder r @ ctx_addrs k"
| "ctx_addrs (RightOf c l a # k) = inorder l @ a # ctx_addrs k"

text \<open>The tree at \<open>z\<close> is well linked and represents \<open>t\<close>; its sentinel is black.\<close>

definition rb_tree_at :: "addr \<Rightarrow> rb_heap \<Rightarrow> ptree \<Rightarrow> bool" where
  "rb_tree_at z h t \<longleftrightarrow>
     tree_at z h z (nd_left (h z)) t \<and> clr_of (h z) = Blk \<and> distinct (z # inorder t)"

lemma set_ctx_addrs: "set (ctx_addrs k) = set (ctx_pre k) \<union> set (ctx_post k)"
  by (induction k rule: ctx_addrs.induct) auto

lemma distinct_ctx:
  "distinct (ctx_addrs k) \<longleftrightarrow> distinct (ctx_pre k @ ctx_post k)"
  by (induction k rule: ctx_addrs.induct) (auto simp: set_ctx_addrs disj Int_commute)

lemma tree_at_root: "tree_at z h p x t \<Longrightarrow> x = root_of z t"
  by (cases t) auto

lemma tree_at_frame [frame]:
  "y \<notin> set (inorder t) \<Longrightarrow> tree_at z (h(y := v)) p x t = tree_at z h p x t"
  by (induction t arbitrary: p x) auto

lemma ctx_at_frame [frame]:
  "y \<notin> set (ctx_addrs k) \<Longrightarrow> y \<noteq> z \<Longrightarrow> ctx_at z (h(y := v)) p x k = ctx_at z h p x k"
  by (induction z h p x k rule: ctx_at.induct) (auto simp: tree_at_frame)

lemma ctx_at_frame_sentinel [frame]:
  "z \<notin> set (ctx_addrs k) \<Longrightarrow> nd_left v = nd_left (h z) \<Longrightarrow>
   ctx_at z (h(z := v)) p x k = ctx_at z h p x k"
  by (induction z h p x k rule: ctx_at.induct) (auto simp: tree_at_frame)

lemma tree_at_plug:
  "tree_at z h z (nd_left (h z)) (plug k t) \<longleftrightarrow> (\<exists>p x. ctx_at z h p x k \<and> tree_at z h p x t)"
  by (induction k t rule: plug.induct) auto

lemma RB_IS_BLACK_iff: "RB_IS_BLACK h n \<longleftrightarrow> clr_of (h n) = Blk"
  by (simp add: RB_IS_BLACK_def clr_of_def and_one_zero_iff)

lemma clr_of_simps [simp]:
  "clr_of (nd\<lparr>nd_parent := p\<rparr>) = clr_of nd"
  "clr_of (nd\<lparr>nd_left := p\<rparr>) = clr_of nd"
  "clr_of (nd\<lparr>nd_right := p\<rparr>) = clr_of nd"
  "clr_of (nd\<lparr>nd_color := w AND - 2\<rparr>) = Blk"
  "clr_of (nd\<lparr>nd_color := w OR 1\<rparr>) = Red"
  by (simp_all add: clr_of_def)

text \<open>
  A store of the parent field of the root of a subtree re-parents it. When the subtree is
  empty the store goes to the sentinel, whose parent field nobody reads.
\<close>

lemma tree_at_reparent:
  "tree_at z h p x t \<Longrightarrow> distinct (z # inorder t) \<Longrightarrow>
   tree_at z (h(x := (h x)\<lparr>nd_parent := q\<rparr>)) q x t"
  by (cases t) (auto simp: tree_at_frame)

lemma rb_tree_at_init: "rb_tree_at z (rb_init z h) Tip"
  by (simp add: rb_tree_at_def rb_init_def setters clr_of_def)

section \<open>Relinking a child of the parent\<close>

text \<open>
  After a rotation the new root \<open>x\<close> of a subtree takes the place of the old one \<open>g\<close> at its
  parent \<open>q\<close>: the code stores it as the root of the tree when \<open>q\<close> is the null node, and else
  as the left or right child of \<open>q\<close>, according to where \<open>g\<close> was linked. The same fragment
  ends insertion, both deletion rotations, the deletion itself and the replacement.
\<close>

definition rb_relink :: "addr \<Rightarrow> rb_heap \<Rightarrow> addr \<Rightarrow> addr \<Rightarrow> addr \<Rightarrow> rb_heap" where
  "rb_relink z h q g x =
     (if q = rb_null z then RB_SET_ROOT z h x
      else if g = rb_left h q then RB_SET_L h q x
      else RB_SET_R h q x)"

lemma ctx_at_parent: "ctx_at z h q g k \<Longrightarrow> q \<in> insert z (set (ctx_addrs k))"
  by (cases k rule: ctx_addrs.cases) auto

lemma ctx_at_relink:
  assumes "ctx_at z h q g k" and "g \<noteq> z" and "g \<notin> set (ctx_addrs k)"
    and "distinct (z # ctx_addrs k)"
  shows "ctx_at z (rb_relink z h q g x) q x k"
proof (cases k rule: ctx_addrs.cases)
  case 1
  with assms show ?thesis by (simp add: rb_relink_def heap_defs)
next
  case (2 c a r k')
  with assms show ?thesis by (auto simp: rb_relink_def heap_defs frame disj)
next
  case (3 c l a k')
  moreover have "nd_left (h a) \<noteq> g"
    using assms 3 by (cases l) auto
  ultimately show ?thesis
    using assms by (auto simp: rb_relink_def heap_defs frame disj)
qed

lemma tree_at_relink [frame]:
  "q \<notin> set (inorder t) \<Longrightarrow> z \<notin> set (inorder t) \<Longrightarrow>
   tree_at z (rb_relink z h q g x) p y t = tree_at z h p y t"
  by (simp add: rb_relink_def heap_defs frame)

lemma clr_relink [simp]: "clr_of (rb_relink z h q g x y) = clr_of (h y)"
  by (simp add: rb_relink_def heap_defs)

lemma rb_tree_at_plugI:
  "ctx_at z h p x k \<Longrightarrow> tree_at z h p x t \<Longrightarrow> clr_of (h z) = Blk \<Longrightarrow>
   distinct (z # inorder (plug k t)) \<Longrightarrow> rb_tree_at z h (plug k t)"
  by (auto simp: rb_tree_at_def tree_at_plug)

section \<open>What an operation leaves alone\<close>

text \<open>
  \<open>rb_keeps z A h h'\<close>: the step from \<open>h\<close> to \<open>h'\<close> changes only nodes of \<open>A\<close> and
  the sentinel, keeps the user bits of every colour word, and keeps the sentinel's cached index
  and colour word.
\<close>

definition rb_keeps :: "addr \<Rightarrow> addr set \<Rightarrow> rb_heap \<Rightarrow> rb_heap \<Rightarrow> bool" where
  "rb_keeps z A h h' \<longleftrightarrow>
     (\<forall>x. x \<notin> A \<longrightarrow> x \<noteq> z \<longrightarrow> h' x = h x) \<and>
     (\<forall>x. nd_color (h' x) AND - 2 = nd_color (h x) AND - 2) \<and>
     nd_right (h' z) = nd_right (h z) \<and> nd_color (h' z) = nd_color (h z)"

lemma rb_keeps_refl [simp]: "rb_keeps z A h h"
  by (simp add: rb_keeps_def)

lemma rb_keeps_trans [trans]:
  "rb_keeps z A h h' \<Longrightarrow> rb_keeps z A h' h'' \<Longrightarrow> rb_keeps z A h h''"
  by (simp add: rb_keeps_def)

lemma rb_keeps_mono: "rb_keeps z A h h' \<Longrightarrow> A \<subseteq> B \<Longrightarrow> rb_keeps z B h h'"
  by (auto simp: rb_keeps_def)

lemma rb_keeps_P:
  "x \<in> insert z A \<Longrightarrow> rb_keeps z A h (RB_SET_P h x p)"
  by (auto simp: rb_keeps_def heap_defs)

lemma rb_keeps_L: "x \<in> insert z A \<Longrightarrow> rb_keeps z A h (RB_SET_L h x p)"
  by (auto simp: rb_keeps_def heap_defs)

lemma rb_keeps_R: "x \<in> A \<Longrightarrow> x \<noteq> z \<Longrightarrow> rb_keeps z A h (RB_SET_R h x p)"
  by (auto simp: rb_keeps_def heap_defs)

lemma rb_keeps_C: "x \<in> A \<Longrightarrow> x \<noteq> z \<Longrightarrow> rb_keeps z A h (RB_SET_C h x c)"
  by (cases c) (auto simp: rb_keeps_def heap_defs)

lemma rb_keeps_relink:
  "q \<in> insert z A \<Longrightarrow> rb_keeps z A h (rb_relink z h q g x)"
  by (auto simp: rb_keeps_def rb_relink_def heap_defs)

text \<open>
  Chains of stores keep what the single stores keep, when every address stored to is a node of
  \<open>A\<close>. \<open>rb_closed\<close> says that the links of the nodes of \<open>A\<close> stay in \<open>A\<close> and the
  sentinel, which holds for the nodes of a well-linked tree.
\<close>

lemma rb_keeps_chain:
  "rb_keeps z A h h' \<Longrightarrow> x \<in> insert z A \<Longrightarrow> rb_keeps z A h (RB_SET_P h' x p)"
  "rb_keeps z A h h' \<Longrightarrow> x \<in> insert z A \<Longrightarrow> rb_keeps z A h (RB_SET_L h' x p)"
  "rb_keeps z A h h' \<Longrightarrow> x \<in> A \<Longrightarrow> x \<noteq> z \<Longrightarrow> rb_keeps z A h (RB_SET_R h' x p)"
  "rb_keeps z A h h' \<Longrightarrow> x \<in> A \<Longrightarrow> x \<noteq> z \<Longrightarrow> rb_keeps z A h (RB_SET_C h' x c)"
  "rb_keeps z A h h' \<Longrightarrow> q \<in> insert z A \<Longrightarrow> rb_keeps z A h (rb_relink z h' q g x)"
  "rb_keeps z A h h' \<Longrightarrow> rb_keeps z A h (RB_SET_ROOT z h' x)"
  by (erule rb_keeps_trans, (rule rb_keeps_P rb_keeps_L rb_keeps_R rb_keeps_C rb_keeps_relink; simp))+
    (erule rb_keeps_trans, simp add: RB_SET_ROOT_def rb_keeps_L)

lemmas rb_combined =
  RB_SET_P_L_def RB_SET_P_R_def RB_SET_P_L_C_def RB_SET_P_R_C_def RB_SET_P_L_R_def
  RB_SET_P_L_R_C_def

definition rb_closed :: "addr \<Rightarrow> addr set \<Rightarrow> rb_heap \<Rightarrow> bool" where
  "rb_closed z A h \<longleftrightarrow>
     z \<notin> A \<and> (\<forall>x\<in>A. {rb_parent h x, rb_left h x, rb_right h x} \<subseteq> insert z A)"

lemma rb_closedD:
  "rb_closed z A h \<Longrightarrow> x \<in> A \<Longrightarrow> x \<noteq> z"
  "rb_closed z A h \<Longrightarrow> x \<in> A \<Longrightarrow> rb_parent h x \<in> insert z A"
  "rb_closed z A h \<Longrightarrow> x \<in> A \<Longrightarrow> rb_left h x \<in> insert z A"
  "rb_closed z A h \<Longrightarrow> x \<in> A \<Longrightarrow> rb_right h x \<in> insert z A"
  by (auto simp: rb_closed_def)

lemma tree_at_root_in: "tree_at z h p x t \<Longrightarrow> x \<in> insert z (set (inorder t))"
  by (cases t) auto

lemma tree_at_links:
  "tree_at z h p x t \<Longrightarrow> p \<in> insert z A \<Longrightarrow> set (inorder t) \<subseteq> A \<Longrightarrow> y \<in> set (inorder t) \<Longrightarrow>
   {rb_parent h y, rb_left h y, rb_right h y} \<subseteq> insert z A"
proof (induction t arbitrary: p x)
  case (Bin c l a r)
  have "nd_left (h a) \<in> insert z A" "nd_right (h a) \<in> insert z A"
    using Bin.prems tree_at_root_in [of z h a "nd_left (h a)" l]
      tree_at_root_in [of z h a "nd_right (h a)" r] by auto
  with Bin show ?case by (auto simp: accessors)
qed simp

lemma rb_tree_at_closed: "rb_tree_at z h t \<Longrightarrow> rb_closed z (set (inorder t)) h"
  using tree_at_links [of z h z "nd_left (h z)" t "set (inorder t)"]
  by (auto simp: rb_tree_at_def rb_closed_def)

end
