(* ===== verification/RB_Insert.thy ===== *)
theory RB_Insert
  imports RB_Heap
begin

text \<open>
  The red-black tree library, part two: insertion (\<^verbatim>\<open>rb_insert\<close> and its balancing loop). The
  labels of the C function become one definition per case; \<open>rb_ins_step\<close> is one trip of the
  \<^verbatim>\<open>rebalance\<close> loop, with \<open>Inl\<close> the final heap and \<open>Inr\<close> the next pair of node and parent.
\<close>

section \<open>The code\<close>

text \<open>Label \<^verbatim>\<open>case5_xx\<close> (and \<^verbatim>\<open>root\<close>): the new root of the subtree replaces \<open>g\<close> at \<open>t\<close>.\<close>

definition rb_ins_case5_xx :: "addr \<Rightarrow> rb_heap \<Rightarrow> addr \<Rightarrow> addr \<Rightarrow> addr \<Rightarrow> rb_heap" where
  "rb_ins_case5_xx z h n g t =
     (if t = rb_null z then RB_SET_ROOT z h n
      else if g = rb_left h t then RB_SET_L h t n
      else RB_SET_R h t n)"

definition rb_ins_case4_rl ::
    "addr \<Rightarrow> rb_heap \<Rightarrow> addr \<Rightarrow> addr \<Rightarrow> addr \<Rightarrow> addr \<Rightarrow> rb_heap" where
  "rb_ins_case4_rl z h n p g t =
     (let cl = rb_left h n; cr = rb_right h n;
          h = RB_SET_P_L_R_C h n t p g Blk;
          h = RB_SET_P_R h p n cl;
          h = RB_SET_P h cl p;
          h = RB_SET_P_L_C h g n cr Red;
          h = RB_SET_P h cr g
      in rb_ins_case5_xx z h n g t)"

definition rb_ins_case4_lr ::
    "addr \<Rightarrow> rb_heap \<Rightarrow> addr \<Rightarrow> addr \<Rightarrow> addr \<Rightarrow> addr \<Rightarrow> rb_heap" where
  "rb_ins_case4_lr z h n p g t =
     (let cl = rb_left h n; cr = rb_right h n;
          h = RB_SET_P_L_R_C h n t g p Blk;
          h = RB_SET_P_L h p n cr;
          h = RB_SET_P h cr p;
          h = RB_SET_P_R_C h g n cl Red;
          h = RB_SET_P h cl g
      in rb_ins_case5_xx z h n g t)"

definition rb_ins_case5_ll :: "addr \<Rightarrow> rb_heap \<Rightarrow> addr \<Rightarrow> addr \<Rightarrow> addr \<Rightarrow> rb_heap" where
  "rb_ins_case5_ll z h p g t =
     (let cr = rb_right h p;
          h = RB_SET_P_L_C h g p cr Red;
          h = RB_SET_P h cr g;
          h = RB_SET_P_R_C h p t g Blk
      in rb_ins_case5_xx z h p g t)"

definition rb_ins_case5_rr :: "addr \<Rightarrow> rb_heap \<Rightarrow> addr \<Rightarrow> addr \<Rightarrow> addr \<Rightarrow> rb_heap" where
  "rb_ins_case5_rr z h p g t =
     (let cl = rb_left h p;
          h = RB_SET_P_R_C h g p cl Red;
          h = RB_SET_P h cl g;
          h = RB_SET_P_L_C h p t g Blk
      in rb_ins_case5_xx z h p g t)"

definition rb_ins_case3 ::
    "rb_heap \<Rightarrow> addr \<Rightarrow> addr \<Rightarrow> addr \<Rightarrow> rb_heap \<times> addr \<times> addr" where
  "rb_ins_case3 h p u g =
     (let h = RB_SET_C h p Blk;
          h = RB_SET_C h u Blk;
          h = RB_SET_C h g Red
      in (h, g, rb_parent h g))"

definition rb_ins_step ::
    "addr \<Rightarrow> rb_heap \<Rightarrow> addr \<Rightarrow> addr \<Rightarrow> rb_heap + rb_heap \<times> addr \<times> addr" where
  "rb_ins_step z h n p =
     (if p = rb_null z then Inl (RB_SET_ROOT z (RB_SET_C h n Blk) n)
      else if RB_IS_BLACK h p then Inl h
      else
        let g = rb_parent h p in
        if p = rb_left h g then
          let u = rb_right h g in
          if \<not> RB_IS_BLACK h u then Inr (rb_ins_case3 h p u g)
          else
            let t = rb_parent h g in
            if n = rb_left h p then Inl (rb_ins_case5_ll z h p g t)
            else Inl (rb_ins_case4_rl z h n p g t)
        else
          let u = rb_left h g in
          if \<not> RB_IS_BLACK h u then Inr (rb_ins_case3 h p u g)
          else
            let t = rb_parent h g in
            if n = rb_right h p then Inl (rb_ins_case5_rr z h p g t)
            else Inl (rb_ins_case4_lr z h n p g t))"

partial_function (option) rb_insert_balance ::
    "addr \<Rightarrow> rb_heap \<Rightarrow> addr \<Rightarrow> addr \<Rightarrow> rb_heap option" where
  "rb_insert_balance z h n p =
     (case rb_ins_step z h n p of
        Inl h' \<Rightarrow> Some h'
      | Inr (h', n', p') \<Rightarrow> rb_insert_balance z h' n' p')"

definition rb_insert :: "addr \<Rightarrow> rb_heap \<Rightarrow> addr \<Rightarrow> addr \<Rightarrow> rb_heap option" where
  "rb_insert z h n p =
     (if p = rb_null z then
        let h = RB_SET_P_L_R_C h n p p p Blk in Some (RB_SET_ROOT z h n)
      else
        let h = RB_SET_P_L_R_C h n p (rb_null z) (rb_null z) Red in
        rb_insert_balance z h n p)"

section \<open>The balancing loop as a function on contexts\<close>

text \<open>
  \<open>ins_fix k t\<close> is the tree the loop leaves when it starts with the subtree \<open>t\<close> at the
  position \<open>k\<close>. The equations follow the cases of the code.
\<close>

fun ins_fix :: "ctx \<Rightarrow> ptree \<Rightarrow> ptree" where
  "ins_fix [] t = paint Blk t"
| "ins_fix (LeftOf Red p s # LeftOf c g u # k) t =
     (if col u = Red then ins_fix k (Bin Red (Bin Blk t p s) g (paint Blk u))
      else plug k (Bin Blk t p (Bin Red s g u)))"
| "ins_fix (RightOf Red s p # LeftOf c g u # k) t =
     (if col u = Red then ins_fix k (Bin Red (Bin Blk s p t) g (paint Blk u))
      else case t of
        Tip \<Rightarrow> Tip
      | Bin c' l n r \<Rightarrow> plug k (Bin Blk (Bin Red s p l) n (Bin Red r g u)))"
| "ins_fix (RightOf Red s p # RightOf c u g # k) t =
     (if col u = Red then ins_fix k (Bin Red (paint Blk u) g (Bin Blk s p t))
      else plug k (Bin Blk (Bin Red u g s) p t))"
| "ins_fix (LeftOf Red p s # RightOf c u g # k) t =
     (if col u = Red then ins_fix k (Bin Red (paint Blk u) g (Bin Blk t p s))
      else case t of
        Tip \<Rightarrow> Tip
      | Bin c' l n r \<Rightarrow> plug k (Bin Blk (Bin Red u g l) n (Bin Red r p s)))"
| "ins_fix k t = plug k t"

fun frame_col :: "pframe \<Rightarrow> clr" where
  "frame_col (LeftOf c a r) = c"
| "frame_col (RightOf c l a) = c"

definition root_blk :: "ctx \<Rightarrow> bool" where
  "root_blk k \<longleftrightarrow> k \<noteq> [] \<longrightarrow> frame_col (last k) = Blk"

lemma root_blk_simps [simp]:
  "root_blk []"
  "root_blk [f] \<longleftrightarrow> frame_col f = Blk"
  "root_blk (f # g # k) \<longleftrightarrow> root_blk (g # k)"
  by (simp_all add: root_blk_def)

lemma root_blk_tl: "root_blk (f # k) \<Longrightarrow> root_blk k"
  by (cases k) auto

section \<open>The code implements the function\<close>

lemma rb_ins_case5_xx_relink [simp]: "rb_ins_case5_xx z h n g t = rb_relink z h t g n"
  by (simp add: rb_ins_case5_xx_def rb_relink_def)

text \<open>
  The shape the two-rotation cases leave below \<open>k\<close>. \<open>wf_pos\<close> collects what every position
  of the walk has: the context and the subtree are linked in the heap, the sentinel is black and
  no address occurs twice.
\<close>

definition wf_pos :: "addr \<Rightarrow> rb_heap \<Rightarrow> addr \<Rightarrow> addr \<Rightarrow> ctx \<Rightarrow> ptree \<Rightarrow> bool" where
  "wf_pos z h p x k t \<longleftrightarrow>
     ctx_at z h p x k \<and> tree_at z h p x t \<and> clr_of (h z) = Blk \<and>
     distinct (z # inorder (plug k t))"

lemma distinct_plug:
  "distinct (inorder (plug k t)) \<longleftrightarrow>
     distinct (ctx_addrs k) \<and> distinct (inorder t) \<and> set (ctx_addrs k) \<inter> set (inorder t) = {}"
  by (auto simp: inorder_plug distinct_ctx set_ctx_addrs)

lemma set_plug: "set (inorder (plug k t)) = set (ctx_addrs k) \<union> set (inorder t)"
  by (auto simp: inorder_plug set_ctx_addrs)

lemma rb_tree_at_relinkI:
  assumes linked: "ctx_at z h q g k \<and> tree_at z h q x t \<and> clr_of (h z) = Blk"
    and fresh: "g \<noteq> z \<and> g \<notin> set (ctx_addrs k) \<and> distinct (z # inorder (plug k t))"
  shows "rb_tree_at z (rb_relink z h q g x) (plug k t)"
proof (rule rb_tree_at_plugI)
  show "ctx_at z (rb_relink z h q g x) q x k"
    using assms by (intro ctx_at_relink) (auto simp: distinct_plug set_plug)
  have "q \<notin> set (inorder t)"
    using assms ctx_at_parent [of z h q g k] by (auto simp: distinct_plug set_plug)
  then show "tree_at z (rb_relink z h q g x) q x t"
    using assms by (simp add: frame set_plug)
qed (use assms in simp_all)

text \<open>
  The goals below compare a heap after some stores with the heap before. First the disjointness
  facts are made atomic, then every store is resolved against them.
\<close>

lemmas pos_facts = wf_pos_def disj distinct_plug set_plug

lemma rb_ins_case5_ll_ok:
  assumes "wf_pos z h p n (LeftOf Red p s # LeftOf c g u # k) t"
  shows "rb_tree_at z (rb_ins_case5_ll z h p g (rb_parent h g)) (plug k (Bin Blk t p (Bin Red s g u)))"
  unfolding rb_ins_case5_ll_def Let_def rb_ins_case5_xx_relink
  by (rule rb_tree_at_relinkI,
      (use assms in \<open>cases s; simp add: pos_facts\<close>; elim conjE; simp add: heap_defs frame),
      (use assms in \<open>simp add: pos_facts\<close>; auto))

lemma rb_ins_case5_rr_ok:
  assumes "wf_pos z h p n (RightOf Red s p # RightOf c u g # k) t"
  shows "rb_tree_at z (rb_ins_case5_rr z h p g (rb_parent h g)) (plug k (Bin Blk (Bin Red u g s) p t))"
  unfolding rb_ins_case5_rr_def Let_def rb_ins_case5_xx_relink
  by (rule rb_tree_at_relinkI,
      (use assms in \<open>cases s; simp add: pos_facts\<close>; elim conjE; simp add: heap_defs frame),
      (use assms in \<open>simp add: pos_facts\<close>; auto))

lemma rb_ins_case4_rl_ok:
  assumes "wf_pos z h p n (RightOf Red s p # LeftOf c g u # k) (Bin c' l n r)"
  shows "rb_tree_at z (rb_ins_case4_rl z h n p g (rb_parent h g))
           (plug k (Bin Blk (Bin Red s p l) n (Bin Red r g u)))"
  unfolding rb_ins_case4_rl_def Let_def rb_ins_case5_xx_relink
  by (rule rb_tree_at_relinkI,
      (use assms in \<open>cases l; cases r; simp add: pos_facts\<close>; elim conjE; simp add: heap_defs frame),
      (use assms in \<open>simp add: pos_facts\<close>; auto))

lemma rb_ins_case4_lr_ok:
  assumes "wf_pos z h p n (LeftOf Red p s # RightOf c u g # k) (Bin c' l n r)"
  shows "rb_tree_at z (rb_ins_case4_lr z h n p g (rb_parent h g))
           (plug k (Bin Blk (Bin Red u g l) n (Bin Red r p s)))"
  unfolding rb_ins_case4_lr_def Let_def rb_ins_case5_xx_relink
  by (rule rb_tree_at_relinkI,
      (use assms in \<open>cases l; cases r; simp add: pos_facts\<close>; elim conjE; simp add: heap_defs frame),
      (use assms in \<open>simp add: pos_facts\<close>; auto))

text \<open>Case 3 recolours and moves the position two levels up.\<close>

lemma rb_ins_case3_ll:
  assumes "wf_pos z h p n (LeftOf Red p s # LeftOf c g u # k) t" and "col u = Red"
    and "rb_ins_case3 h p (rb_right h g) g = (h', n', p')"
  shows "n' = g \<and> wf_pos z h' p' g k (Bin Red (Bin Blk t p s) g (paint Blk u))"
  using assms by (cases u; simp add: rb_ins_case3_def pos_facts; elim conjE; clarsimp simp: heap_defs frame)

lemma rb_ins_case3_rl:
  assumes "wf_pos z h p n (RightOf Red s p # LeftOf c g u # k) t" and "col u = Red"
    and "rb_ins_case3 h p (rb_right h g) g = (h', n', p')"
  shows "n' = g \<and> wf_pos z h' p' g k (Bin Red (Bin Blk s p t) g (paint Blk u))"
  using assms by (cases u; simp add: rb_ins_case3_def pos_facts; elim conjE; clarsimp simp: heap_defs frame)

lemma rb_ins_case3_rr:
  assumes "wf_pos z h p n (RightOf Red s p # RightOf c u g # k) t" and "col u = Red"
    and "rb_ins_case3 h p (rb_left h g) g = (h', n', p')"
  shows "n' = g \<and> wf_pos z h' p' g k (Bin Red (paint Blk u) g (Bin Blk s p t))"
  using assms by (cases u; simp add: rb_ins_case3_def pos_facts; elim conjE; clarsimp simp: heap_defs frame)

lemma rb_ins_case3_lr:
  assumes "wf_pos z h p n (LeftOf Red p s # RightOf c u g # k) t" and "col u = Red"
    and "rb_ins_case3 h p (rb_left h g) g = (h', n', p')"
  shows "n' = g \<and> wf_pos z h' p' g k (Bin Red (paint Blk u) g (Bin Blk t p s))"
  using assms by (cases u; simp add: rb_ins_case3_def pos_facts; elim conjE; clarsimp simp: heap_defs frame)


text \<open>One trip of the loop, and the whole loop.\<close>

lemma rb_ins_step_root:
  "wf_pos z h p n [] t \<Longrightarrow> t \<noteq> Tip \<Longrightarrow>
   \<exists>h'. rb_ins_step z h n p = Inl h' \<and> rb_tree_at z h' (paint Blk t)"
  by (cases t) (auto simp: rb_ins_step_def pos_facts rb_tree_at_def heap_defs frame)

lemma rb_ins_step_black:
  "wf_pos z h p n k t \<Longrightarrow> k \<noteq> [] \<Longrightarrow> frame_col (hd k) = Blk \<Longrightarrow>
   rb_ins_step z h n p = Inl h \<and> rb_tree_at z h (plug k t)"
  by (cases k rule: ctx_addrs.cases)
    (auto simp: rb_ins_step_def wf_pos_def heap_defs RB_IS_BLACK_iff rb_tree_at_plugI
       simp del: plug.simps)

lemma col_at_child: "tree_at z h p x t \<Longrightarrow> clr_of (h z) = Blk \<Longrightarrow> RB_IS_BLACK h x \<longleftrightarrow> col t = Blk"
  by (cases t) (auto simp: RB_IS_BLACK_iff)

lemma child_ne: "tree_at z h p x t \<Longrightarrow> a \<noteq> z \<Longrightarrow> a \<notin> set (inorder t) \<Longrightarrow> x \<noteq> a"
  by (cases t) auto

text \<open>Which exit a position with a red parent takes.\<close>

lemma rb_ins_step_ll:
  assumes "wf_pos z h p n (LeftOf Red p s # LeftOf c g u # k) t"
  shows "rb_ins_step z h n p =
    (if col u = Red then Inr (rb_ins_case3 h p (rb_right h g) g)
     else Inl (rb_ins_case5_ll z h p g (rb_parent h g)))"
  using assms
  by (auto simp: rb_ins_step_def wf_pos_def heap_defs RB_IS_BLACK_iff [of h p]
      dest: col_at_child)

lemma rb_ins_step_rl:
  assumes "wf_pos z h p n (RightOf Red s p # LeftOf c g u # k) t" and "t \<noteq> Tip"
  shows "rb_ins_step z h n p =
    (if col u = Red then Inr (rb_ins_case3 h p (rb_right h g) g)
     else Inl (rb_ins_case4_rl z h n p g (rb_parent h g)))"
proof -
  have "tree_at z h p (nd_left (h p)) s \<and> n \<noteq> z \<and> n \<notin> set (inorder s)"
    using assms by (cases t; simp add: pos_facts)
  then have "nd_left (h p) \<noteq> n" by (blast dest: child_ne)
  then show ?thesis
    using assms by (auto simp: rb_ins_step_def wf_pos_def heap_defs RB_IS_BLACK_iff [of h p]
      dest: col_at_child)
qed

lemma rb_ins_step_rr:
  assumes "wf_pos z h p n (RightOf Red s p # RightOf c u g # k) t"
  shows "rb_ins_step z h n p =
    (if col u = Red then Inr (rb_ins_case3 h p (rb_left h g) g)
     else Inl (rb_ins_case5_rr z h p g (rb_parent h g)))"
proof -
  have "tree_at z h g (nd_left (h g)) u \<and> p \<noteq> z \<and> p \<notin> set (inorder u)"
    using assms by (simp add: pos_facts)
  then have "nd_left (h g) \<noteq> p" by (blast dest: child_ne)
  then show ?thesis
    using assms by (auto simp: rb_ins_step_def wf_pos_def heap_defs RB_IS_BLACK_iff [of h p]
      dest: col_at_child)
qed

lemma rb_ins_step_lr:
  assumes "wf_pos z h p n (LeftOf Red p s # RightOf c u g # k) t" and "t \<noteq> Tip"
  shows "rb_ins_step z h n p =
    (if col u = Red then Inr (rb_ins_case3 h p (rb_left h g) g)
     else Inl (rb_ins_case4_lr z h n p g (rb_parent h g)))"
proof -
  have "tree_at z h g (nd_left (h g)) u \<and> p \<noteq> z \<and> p \<notin> set (inorder u)"
    using assms by (simp add: pos_facts)
  then have "nd_left (h g) \<noteq> p" by (blast dest: child_ne)
  moreover have "tree_at z h p (nd_right (h p)) s \<and> n \<noteq> z \<and> n \<notin> set (inorder s)"
    using assms by (cases t; simp add: pos_facts)
  then have "nd_right (h p) \<noteq> n" by (blast dest: child_ne)
  ultimately show ?thesis
    using assms by (auto simp: rb_ins_step_def wf_pos_def heap_defs RB_IS_BLACK_iff [of h p]
      dest: col_at_child)
qed

lemma ins_fix_black: "k \<noteq> [] \<Longrightarrow> frame_col (hd k) = Blk \<Longrightarrow> ins_fix k t = plug k t"
  by (induction k t rule: ins_fix.induct) auto

text \<open>
  A position with a red parent that is not the root has two frames; \<open>red_ctx\<close> names the four
  ways they can turn.
\<close>

lemma red_ctx:
  assumes "root_blk k" and "k \<noteq> []" and "frame_col (hd k) \<noteq> Blk"
  obtains (ll) p s c g u k' where "k = LeftOf Red p s # LeftOf c g u # k'"
    | (rl) p s c g u k' where "k = RightOf Red s p # LeftOf c g u # k'"
    | (rr) p s c g u k' where "k = RightOf Red s p # RightOf c u g # k'"
    | (lr) p s c g u k' where "k = LeftOf Red p s # RightOf c u g # k'"
proof -
  obtain f k1 where k: "k = f # k1" using assms(2) by (cases k) auto
  with assms obtain f2 k' where k1: "k1 = f2 # k'" by (cases k1) auto
  with assms k show thesis
    by (cases f; cases f2) (auto intro: that)
qed

text \<open>
  A trip from a good position either ends with the heap that represents \<open>ins_fix k t\<close>, or
  goes on from a good position nearer to the root with the same final result.
\<close>

definition ins_progress :: "addr \<Rightarrow> ctx \<Rightarrow> ptree \<Rightarrow> rb_heap + rb_heap \<times> addr \<times> addr \<Rightarrow> bool" where
  "ins_progress z k t r \<longleftrightarrow>
     (case r of
        Inl h' \<Rightarrow> rb_tree_at z h' (ins_fix k t)
      | Inr (h', n', p') \<Rightarrow>
          \<exists>k' t'. wf_pos z h' p' n' k' t' \<and> t' \<noteq> Tip \<and> root_blk k' \<and>
            length k' < length k \<and> ins_fix k' t' = ins_fix k t)"

lemma ins_progress_InrI:
  "n' = g \<and> wf_pos z h' p' g k' t' \<Longrightarrow> t' \<noteq> Tip \<Longrightarrow> root_blk k' \<Longrightarrow> length k' < length k \<Longrightarrow>
   ins_fix k' t' = ins_fix k t \<Longrightarrow> ins_progress z k t (Inr (h', n', p'))"
  by (auto simp: ins_progress_def)

lemma ins_progress_ll:
  assumes "wf_pos z h p n (LeftOf Red p s # LeftOf c g u # k) t" and "root_blk (LeftOf c g u # k)"
  shows "ins_progress z (LeftOf Red p s # LeftOf c g u # k) t (rb_ins_step z h n p)"
proof (cases "col u = Red")
  case True
  obtain h' n' p' where c3: "rb_ins_case3 h p (rb_right h g) g = (h', n', p')"
    by (rule prod_cases3)
  then show ?thesis
    using assms True
    by (simp add: rb_ins_step_ll ins_progress_InrI [OF rb_ins_case3_ll [OF assms(1) True c3]] root_blk_tl)
qed (use assms in \<open>simp add: rb_ins_step_ll ins_progress_def rb_ins_case5_ll_ok\<close>)

lemma ins_progress_rl:
  assumes "wf_pos z h p n (RightOf Red s p # LeftOf c g u # k) t" and "root_blk (LeftOf c g u # k)"
    and "t \<noteq> Tip"
  shows "ins_progress z (RightOf Red s p # LeftOf c g u # k) t (rb_ins_step z h n p)"
proof (cases "col u = Red")
  case True
  obtain h' n' p' where c3: "rb_ins_case3 h p (rb_right h g) g = (h', n', p')"
    by (rule prod_cases3)
  then show ?thesis
    using assms True
    by (simp add: rb_ins_step_rl ins_progress_InrI [OF rb_ins_case3_rl [OF assms(1) True c3]] root_blk_tl)
next
  case False
  obtain c' l a r where t: "t = Bin c' l a r" using assms(3) by (cases t) auto
  then have "a = n" using assms(1) by (simp add: wf_pos_def)
  with assms t False show ?thesis
    by (simp add: rb_ins_step_rl ins_progress_def rb_ins_case4_rl_ok)
qed

lemma ins_progress_rr:
  assumes "wf_pos z h p n (RightOf Red s p # RightOf c u g # k) t" and "root_blk (RightOf c u g # k)"
  shows "ins_progress z (RightOf Red s p # RightOf c u g # k) t (rb_ins_step z h n p)"
proof (cases "col u = Red")
  case True
  obtain h' n' p' where c3: "rb_ins_case3 h p (rb_left h g) g = (h', n', p')"
    by (rule prod_cases3)
  then show ?thesis
    using assms True
    by (simp add: rb_ins_step_rr ins_progress_InrI [OF rb_ins_case3_rr [OF assms(1) True c3]] root_blk_tl)
qed (use assms in \<open>simp add: rb_ins_step_rr ins_progress_def rb_ins_case5_rr_ok\<close>)

lemma ins_progress_lr:
  assumes "wf_pos z h p n (LeftOf Red p s # RightOf c u g # k) t" and "root_blk (RightOf c u g # k)"
    and "t \<noteq> Tip"
  shows "ins_progress z (LeftOf Red p s # RightOf c u g # k) t (rb_ins_step z h n p)"
proof (cases "col u = Red")
  case True
  obtain h' n' p' where c3: "rb_ins_case3 h p (rb_left h g) g = (h', n', p')"
    by (rule prod_cases3)
  then show ?thesis
    using assms True
    by (simp add: rb_ins_step_lr ins_progress_InrI [OF rb_ins_case3_lr [OF assms(1) True c3]] root_blk_tl)
next
  case False
  obtain c' l a r where t: "t = Bin c' l a r" using assms(3) by (cases t) auto
  then have "a = n" using assms(1) by (simp add: wf_pos_def)
  with assms t False show ?thesis
    by (simp add: rb_ins_step_lr ins_progress_def rb_ins_case4_lr_ok)
qed

lemma ins_progress:
  assumes wf: "wf_pos z h p n k t" and "t \<noteq> Tip" and "root_blk k"
  shows "ins_progress z k t (rb_ins_step z h n p)"
proof -
  consider "k = []" | "k \<noteq> []" "frame_col (hd k) = Blk" | "k \<noteq> []" "frame_col (hd k) \<noteq> Blk"
    by blast
  then show ?thesis
  proof cases
    case 1
    with assms show ?thesis
      by (auto simp: ins_progress_def dest!: rb_ins_step_root)
  next
    case 2
    with assms show ?thesis
      by (simp add: ins_progress_def ins_fix_black rb_ins_step_black)
  next
    case 3
    with assms(3) show ?thesis
    proof (cases rule: red_ctx)
      case (ll q s c g u k')
      with wf have "q = p" by (simp add: wf_pos_def)
      with ll assms show ?thesis by (simp add: ins_progress_ll)
    next
      case (rl q s c g u k')
      with wf have "q = p" by (simp add: wf_pos_def)
      with rl assms show ?thesis by (simp add: ins_progress_rl)
    next
      case (rr q s c g u k')
      with wf have "q = p" by (simp add: wf_pos_def)
      with rr assms show ?thesis by (simp add: ins_progress_rr)
    next
      case (lr q s c g u k')
      with wf have "q = p" by (simp add: wf_pos_def)
      with lr assms show ?thesis by (simp add: ins_progress_lr)
    qed
  qed
qed

text \<open>The loop ends and computes \<open>ins_fix\<close>: induction on the length of the path to the root.\<close>

lemma rb_insert_balance_ok:
  "wf_pos z h p n k t \<Longrightarrow> t \<noteq> Tip \<Longrightarrow> root_blk k \<Longrightarrow>
   \<exists>h'. rb_insert_balance z h n p = Some h' \<and> rb_tree_at z h' (ins_fix k t)"
proof (induction "length k" arbitrary: h n p k t rule: less_induct)
  case less
  have prog: "ins_progress z k t (rb_ins_step z h n p)"
    using less.prems by (rule ins_progress)
  show ?case
  proof (cases "rb_ins_step z h n p")
    case (Inl h')
    with prog show ?thesis
      by (subst rb_insert_balance.simps) (simp add: ins_progress_def)
  next
    case (Inr q)
    obtain h' n' p' where q: "q = (h', n', p')" by (rule prod_cases3)
    from prog Inr q obtain k' t' where
      "wf_pos z h' p' n' k' t'" "t' \<noteq> Tip" "root_blk k'" "length k' < length k"
      and same: "ins_fix k' t' = ins_fix k t"
      by (auto simp: ins_progress_def)
    with less.hyps have "\<exists>h''. rb_insert_balance z h' n' p' = Some h'' \<and> rb_tree_at z h'' (ins_fix k' t')"
      by blast
    with Inr q same show ?thesis
      by (subst rb_insert_balance.simps) simp
  qed
qed


section \<open>What insertion does to the tree\<close>

subsection \<open>The red-black invariant, on trees and on contexts\<close>

fun bh :: "ptree \<Rightarrow> nat" where
  "bh Tip = 0"
| "bh (Bin c l a r) = (if c = Blk then Suc (bh l) else bh l)"

fun red_ok :: "ptree \<Rightarrow> bool" where
  "red_ok Tip \<longleftrightarrow> True"
| "red_ok (Bin c l a r) \<longleftrightarrow> (c = Red \<longrightarrow> col l = Blk \<and> col r = Blk) \<and> red_ok l \<and> red_ok r"

fun bal :: "ptree \<Rightarrow> bool" where
  "bal Tip \<longleftrightarrow> True"
| "bal (Bin c l a r) \<longleftrightarrow> bh l = bh r \<and> bal l \<and> bal r"

definition rbt :: "ptree \<Rightarrow> bool" where
  "rbt t \<longleftrightarrow> red_ok t \<and> bal t \<and> col t = Blk"

text \<open>
  \<open>ctx_bal k n\<close>: the context is balanced once the hole has black height \<open>n\<close>;
  \<open>ctx_red k c\<close>: it has no two red nodes in a row once the hole has colour \<open>c\<close>.
\<close>

fun ctx_bal :: "ctx \<Rightarrow> nat \<Rightarrow> bool" where
  "ctx_bal [] n \<longleftrightarrow> True"
| "ctx_bal (LeftOf c a r # k) n \<longleftrightarrow>
     bal r \<and> bh r = n \<and> ctx_bal k (if c = Blk then Suc n else n)"
| "ctx_bal (RightOf c l a # k) n \<longleftrightarrow>
     bal l \<and> bh l = n \<and> ctx_bal k (if c = Blk then Suc n else n)"

fun ctx_red :: "ctx \<Rightarrow> clr \<Rightarrow> bool" where
  "ctx_red [] c \<longleftrightarrow> True"
| "ctx_red (LeftOf c' a r # k) c \<longleftrightarrow>
     (c' = Red \<longrightarrow> c = Blk \<and> col r = Blk) \<and> red_ok r \<and> ctx_red k c'"
| "ctx_red (RightOf c' l a # k) c \<longleftrightarrow>
     (c' = Red \<longrightarrow> c = Blk \<and> col l = Blk) \<and> red_ok l \<and> ctx_red k c'"

lemma bal_plug: "bal (plug k t) \<longleftrightarrow> bal t \<and> ctx_bal k (bh t)"
  by (induction k t rule: plug.induct) auto

lemma red_ok_plug: "red_ok (plug k t) \<longleftrightarrow> red_ok t \<and> ctx_red k (col t)"
  by (induction k t rule: plug.induct) auto

lemma col_plug: "col (plug k t) = (if k = [] then col t else frame_col (last k))"
  by (induction k t rule: plug.induct) auto

lemma rbt_plug:
  "rbt (plug k t) \<longleftrightarrow> red_ok t \<and> bal t \<and> ctx_red k (col t) \<and> ctx_bal k (bh t) \<and>
     root_blk k \<and> (k = [] \<longrightarrow> col t = Blk)"
  by (auto simp: rbt_def bal_plug red_ok_plug col_plug root_blk_def)

lemma bh_paint_Blk: "bh (paint Blk t) = (if col t = Red then Suc (bh t) else bh t)"
  by (cases t) auto

lemma bal_paint [simp]: "bal (paint c t) = bal t"
  by (cases t) auto

lemma red_ok_paint_Blk: "red_ok t \<Longrightarrow> red_ok (paint Blk t)"
  by (cases t) auto

lemma col_paint_Blk [simp]: "col (paint Blk t) = Blk"
  by (cases t) auto

lemma rbt_Bin_Blk: "rbt (Bin Blk l a r) \<longleftrightarrow> red_ok l \<and> red_ok r \<and> bal l \<and> bal r \<and> bh l = bh r"
  by (auto simp: rbt_def)

lemma ctx_red_frame: "frame_col f = Blk \<Longrightarrow> ctx_red (f # k) c = ctx_red (f # k) Blk"
  by (cases f) auto

lemma ctx_red_Blk: "ctx_red k c \<Longrightarrow> ctx_red k Blk"
  by (cases k rule: ctx_addrs.cases) auto

subsection \<open>Insertion keeps the order and the invariant\<close>

lemma inorder_ins_fix:
  "t \<noteq> Tip \<Longrightarrow> inorder (ins_fix k t) = ctx_pre k @ inorder t @ ctx_post k"
  by (induction k t rule: ins_fix.induct) (auto simp: inorder_plug split: ptree.split)

lemma rbt_paint_Blk: "red_ok t \<Longrightarrow> bal t \<Longrightarrow> rbt (paint Blk t)"
  by (simp add: rbt_def red_ok_paint_Blk)

lemma rbt_ins_fix:
  "red_ok t \<Longrightarrow> bal t \<Longrightarrow> t \<noteq> Tip \<Longrightarrow> col t = Red \<Longrightarrow> ctx_red k Blk \<Longrightarrow> ctx_bal k (bh t) \<Longrightarrow>
   root_blk k \<Longrightarrow> rbt (ins_fix k t)"
  by (induction k t rule: ins_fix.induct)
    (auto simp: rbt_plug rbt_Bin_Blk rbt_paint_Blk bh_paint_Blk red_ok_paint_Blk root_blk_tl
       ctx_red_frame [where c = Red] split: ptree.split)

subsection \<open>The entry point\<close>

text \<open>
  The caller has descended to the empty position \<open>k\<close> and linked \<open>n\<close> there (or the tree is
  empty); \<open>rb_insert\<close> returns, and the tree now holds \<open>n\<close> at that position.
\<close>

definition ins_at :: "ctx \<Rightarrow> addr \<Rightarrow> ptree" where
  "ins_at k n = (if k = [] then Bin Blk Tip n Tip else ins_fix k (Bin Red Tip n Tip))"

lemma inorder_ins_at: "inorder (ins_at k n) = ctx_pre k @ n # ctx_post k"
  by (simp add: ins_at_def inorder_ins_fix)

lemma rbt_ins_at: "rbt (plug k Tip) \<Longrightarrow> rbt (ins_at k n)"
  by (auto simp: ins_at_def rbt_plug intro!: rbt_ins_fix) (simp add: rbt_def)

lemma rb_insert_ok:
  assumes ctx: "ctx_at z h p (if k = [] then z else n) k" and "clr_of (h z) = Blk"
    and "distinct (z # n # ctx_addrs k)" and "root_blk k"
  shows "\<exists>h'. rb_insert z h n p = Some h' \<and> rb_tree_at z h' (ins_at k n)"
proof (cases "k = []")
  case True
  with assms show ?thesis
    by (simp add: rb_insert_def ins_at_def rb_tree_at_def heap_defs)
next
  case False
  let ?h = "RB_SET_P_L_R_C h n p z z Red"
  have "p \<noteq> z"
    using ctx False by (cases k rule: ctx_addrs.cases) auto
  moreover have "wf_pos z ?h p n k (Bin Red Tip n Tip)"
    using assms False by (simp add: pos_facts) (elim conjE, simp add: heap_defs frame)
  then have "\<exists>h'. rb_insert_balance z ?h n p = Some h' \<and> rb_tree_at z h' (ins_fix k (Bin Red Tip n Tip))"
    using \<open>root_blk k\<close> by (intro rb_insert_balance_ok) simp_all
  ultimately show ?thesis
    using False by (simp add: rb_insert_def ins_at_def rb_null_def)
qed


section \<open>What insertion leaves alone\<close>

lemma rb_ins_case5_xx_keeps:
  "rb_keeps z A h h' \<Longrightarrow> t \<in> insert z A \<Longrightarrow> rb_keeps z A h (rb_ins_case5_xx z h' n g t)"
  unfolding rb_ins_case5_xx_relink by (rule rb_keeps_chain)

text \<open>The red nodes of a good heap are no roots: \<open>red_inner\<close>.\<close>

definition red_inner :: "addr \<Rightarrow> rb_heap \<Rightarrow> addr \<Rightarrow> bool" where
  "red_inner z h p \<longleftrightarrow> (p \<noteq> z \<longrightarrow> \<not> RB_IS_BLACK h p \<longrightarrow> rb_parent h p \<noteq> z)"

lemma rb_ins_cases_keep:
  assumes "rb_closed z A h" and "p \<in> A" and "g \<in> A"
  shows "rb_keeps z A h (rb_ins_case5_ll z h p g (rb_parent h g))"
    and "rb_keeps z A h (rb_ins_case5_rr z h p g (rb_parent h g))"
    and "n \<in> A \<Longrightarrow> rb_keeps z A h (rb_ins_case4_rl z h n p g (rb_parent h g))"
    and "n \<in> A \<Longrightarrow> rb_keeps z A h (rb_ins_case4_lr z h n p g (rb_parent h g))"
  unfolding rb_ins_case5_ll_def rb_ins_case5_rr_def rb_ins_case4_rl_def rb_ins_case4_lr_def
    Let_def rb_combined
  by (intro rb_ins_case5_xx_keeps rb_keeps_chain rb_keeps_refl;
      use assms rb_closedD [OF assms(1)] in blast)+

text \<open>The heap after one trip of the loop, final or not.\<close>

definition step_heap :: "rb_heap + rb_heap \<times> addr \<times> addr \<Rightarrow> rb_heap" where
  "step_heap r = (case r of Inl h \<Rightarrow> h | Inr q \<Rightarrow> fst q)"

lemma step_heap_simps [simp]:
  "step_heap (Inl h) = h"
  "step_heap (Inr q) = fst q"
  "step_heap (if b then r else s) = (if b then step_heap r else step_heap s)"
  by (simp_all add: step_heap_def)

lemma rb_ins_step_keeps:
  assumes closed: "rb_closed z A h" and blk: "clr_of (h z) = Blk" and n: "n \<in> A"
    and p: "p \<in> insert z A" and inner: "red_inner z h p"
  shows "rb_keeps z A h (step_heap (rb_ins_step z h n p))"
proof (cases "p = z \<or> RB_IS_BLACK h p")
  case True
  have "n \<noteq> z" using closed n by (blast dest: rb_closedD)
  with True n show ?thesis
    by (auto simp: rb_ins_step_def rb_null_def intro!: rb_keeps_chain)
next
  case False
  then have p: "p \<in> A" "p \<noteq> z" using p by auto
  then have g: "rb_parent h p \<in> A" "rb_parent h p \<noteq> z"
    using inner False rb_closedD [OF closed] by (auto simp: red_inner_def)
  have u: "rb_right h (rb_parent h p) \<in> insert z A" "rb_left h (rb_parent h p) \<in> insert z A"
    using g rb_closedD [OF closed] by blast+
  have "RB_IS_BLACK h z" using blk by (simp add: RB_IS_BLACK_iff)
  then have c3: "rb_keeps z A h (fst (rb_ins_case3 h p u (rb_parent h p)))"
    if "\<not> RB_IS_BLACK h u" "u \<in> insert z A" for u
    using p g that by (auto simp: rb_ins_case3_def Let_def intro!: rb_keeps_chain)
  note cases = rb_ins_cases_keep(1,2) [OF closed p(1) g(1)]
    rb_ins_cases_keep(3,4) [OF closed p(1) g(1) n] c3 [OF _ u(1)] c3 [OF _ u(2)]
  show ?thesis
    using False by (simp add: rb_ins_step_def rb_null_def Let_def cases) (use cases in auto)
qed

lemma wf_pos_closed:
  assumes "wf_pos z h p n k t"
  shows "rb_closed z (set (inorder (plug k t))) h"
    and "p \<in> insert z (set (inorder (plug k t)))"
    and "t \<noteq> Tip \<Longrightarrow> n \<in> set (inorder (plug k t))"
proof -
  show "rb_closed z (set (inorder (plug k t))) h"
    using assms by (intro rb_tree_at_closed rb_tree_at_plugI) (auto simp: wf_pos_def)
  show "p \<in> insert z (set (inorder (plug k t)))"
    using assms ctx_at_parent [of z h p n k] by (auto simp: wf_pos_def set_plug)
  show "t \<noteq> Tip \<Longrightarrow> n \<in> set (inorder (plug k t))"
    using assms by (cases t) (auto simp: wf_pos_def set_plug)
qed

lemma wf_pos_red_inner: "wf_pos z h p n k t \<Longrightarrow> root_blk k \<Longrightarrow> red_inner z h p"
proof (cases k rule: ctx_addrs.cases)
  case (2 c a r k')
  assume "wf_pos z h p n k t" "root_blk k"
  with 2 show ?thesis
    by (cases k' rule: ctx_addrs.cases) (auto simp: wf_pos_def red_inner_def RB_IS_BLACK_iff heap_defs)
next
  case (3 c l a k')
  assume "wf_pos z h p n k t" "root_blk k"
  with 3 show ?thesis
    by (cases k' rule: ctx_addrs.cases) (auto simp: wf_pos_def red_inner_def RB_IS_BLACK_iff heap_defs)
qed (auto simp: wf_pos_def red_inner_def)

lemma rb_insert_balance_keeps:
  "wf_pos z h p n k t \<Longrightarrow> t \<noteq> Tip \<Longrightarrow> root_blk k \<Longrightarrow> rb_insert_balance z h n p = Some h' \<Longrightarrow>
   rb_keeps z (set (inorder (plug k t))) h h'"
proof (induction "length k" arbitrary: h n p k t rule: less_induct)
  case less
  let ?A = "set (inorder (plug k t))"
  have keep: "rb_keeps z ?A h (step_heap (rb_ins_step z h n p))"
    using less.prems wf_pos_closed [OF less.prems(1)] wf_pos_red_inner
    by (intro rb_ins_step_keeps) (auto simp: wf_pos_def)
  have prog: "ins_progress z k t (rb_ins_step z h n p)"
    using less.prems by (intro ins_progress)
  show ?case
  proof (cases "rb_ins_step z h n p")
    case (Inl g)
    with keep less.prems(4) show ?thesis
      by (subst (asm) rb_insert_balance.simps) simp
  next
    case (Inr q)
    obtain g n' p' where q: "q = (g, n', p')" by (rule prod_cases3)
    from prog Inr q obtain k' t' where
      t': "wf_pos z g p' n' k' t'" "t' \<noteq> Tip" "root_blk k'" "length k' < length k"
      and same: "ins_fix k' t' = ins_fix k t"
      by (auto simp: ins_progress_def)
    have "inorder (plug k' t') = inorder (plug k t)"
      using inorder_ins_fix [of t k] inorder_ins_fix [of t' k'] less.prems(2) t'(2) same
      by (simp add: inorder_plug)
    moreover have "rb_insert_balance z g n' p' = Some h'"
      using less.prems(4) Inr q by (subst (asm) rb_insert_balance.simps) simp
    ultimately have "rb_keeps z ?A g h'"
      using less.hyps [OF t'(4) t'(1-3)] by simp
    with keep Inr q show ?thesis by (auto intro: rb_keeps_trans)
  qed
qed

lemma rb_insert_keeps:
  assumes "ctx_at z h p (if k = [] then z else n) k" and "clr_of (h z) = Blk"
    and "distinct (z # n # ctx_addrs k)" and "root_blk k" and "rb_insert z h n p = Some h'"
  shows "rb_keeps z (insert n (set (ctx_addrs k))) h h'"
proof (cases "k = []")
  case True
  with assms show ?thesis
    by (auto simp: rb_insert_def rb_null_def rb_combined intro!: rb_keeps_chain)
next
  case False
  let ?h = "RB_SET_P_L_R_C h n p z z Red"
  let ?A = "insert n (set (ctx_addrs k))"
  have "wf_pos z ?h p n k (Bin Red Tip n Tip)"
    using assms False by (simp add: pos_facts) (elim conjE, simp add: heap_defs frame)
  moreover have "p \<noteq> z"
    using assms False by (cases k rule: ctx_addrs.cases) auto
  ultimately have "rb_keeps z ?A ?h h'"
    using assms rb_insert_balance_keeps [of z ?h p n k "Bin Red Tip n Tip" h']
    by (simp add: rb_insert_def rb_null_def set_plug)
  moreover have "rb_keeps z ?A h ?h"
    using assms by (auto simp: rb_combined intro!: rb_keeps_chain)
  ultimately show ?thesis by (blast intro: rb_keeps_trans)
qed


end
