(* ===== verification/RB_Delete.thy ===== *)
theory RB_Delete
  imports RB_Insert
begin

text \<open>
  The red-black tree library, part three: deletion and replacement (\<^verbatim>\<open>rb_delete\<close>,
  \<^verbatim>\<open>__rb_delete_rebalance\<close>, \<^verbatim>\<open>rb_replace\<close>). As for insertion, every label of the C
  functions is a definition, a trip of the \<^verbatim>\<open>rebalance\<close> loop is \<open>rb_del_step\<close>, and the
  descents to the in-order neighbour are loops of their own.
\<close>

section \<open>Rebalancing: the code\<close>

text \<open>Label \<^verbatim>\<open>case6_x\<close>: the new root \<open>s\<close> of the subtree replaces \<open>p\<close> at \<open>g\<close>.\<close>

definition rb_del_case6_x :: "addr \<Rightarrow> rb_heap \<Rightarrow> addr \<Rightarrow> addr \<Rightarrow> addr \<Rightarrow> rb_heap" where
  "rb_del_case6_x z h p g s =
     (if g = rb_null z then RB_SET_ROOT z h s
      else if p = rb_left h g then RB_SET_L h g s
      else RB_SET_R h g s)"

definition rb_del_case6_l ::
    "addr \<Rightarrow> rb_heap \<Rightarrow> addr \<Rightarrow> addr \<Rightarrow> addr \<Rightarrow> addr \<Rightarrow> addr \<Rightarrow> rb_heap" where
  "rb_del_case6_l z h p g s sl sr =
     (let h = (if RB_IS_BLACK h p then RB_SET_P_L h s g p else RB_SET_P_L_C h s g p Red);
          h = RB_SET_P_R_C h p s sl Blk;
          h = RB_SET_P h sl p;
          h = RB_SET_C h sr Blk
      in rb_del_case6_x z h p g s)"

definition rb_del_case6_r ::
    "addr \<Rightarrow> rb_heap \<Rightarrow> addr \<Rightarrow> addr \<Rightarrow> addr \<Rightarrow> addr \<Rightarrow> addr \<Rightarrow> rb_heap" where
  "rb_del_case6_r z h p g s sl sr =
     (let h = (if RB_IS_BLACK h p then RB_SET_P_R h s g p else RB_SET_P_R_C h s g p Red);
          h = RB_SET_P_L_C h p s sr Blk;
          h = RB_SET_P h sr p;
          h = RB_SET_C h sl Blk
      in rb_del_case6_x z h p g s)"

definition rb_del_case5_l ::
    "addr \<Rightarrow> rb_heap \<Rightarrow> addr \<Rightarrow> addr \<Rightarrow> addr \<Rightarrow> addr \<Rightarrow> rb_heap" where
  "rb_del_case5_l z h p g s sl =
     (let cl = rb_left h sl; cr = rb_right h sl;
          h = (if RB_IS_BLACK h p then RB_SET_P_L_R_C h sl g p s Blk
               else RB_SET_P_L_R_C h sl g p s Red);
          h = RB_SET_P_R_C h p sl cl Blk;
          h = RB_SET_P h cl p;
          h = RB_SET_P_L h s sl cr;
          h = RB_SET_P h cr s
      in rb_del_case6_x z h p g sl)"

definition rb_del_case5_r ::
    "addr \<Rightarrow> rb_heap \<Rightarrow> addr \<Rightarrow> addr \<Rightarrow> addr \<Rightarrow> addr \<Rightarrow> rb_heap" where
  "rb_del_case5_r z h p g s sr =
     (let cl = rb_left h sr; cr = rb_right h sr;
          h = (if RB_IS_BLACK h p then RB_SET_P_L_R_C h sr g s p Blk
               else RB_SET_P_L_R_C h sr g s p Red);
          h = RB_SET_P_L_C h p sr cr Blk;
          h = RB_SET_P h cr p;
          h = RB_SET_P_R h s sr cl;
          h = RB_SET_P h cl s
      in rb_del_case6_x z h p g sr)"

definition rb_del_case4 :: "rb_heap \<Rightarrow> addr \<Rightarrow> addr \<Rightarrow> rb_heap" where
  "rb_del_case4 h p s = RB_SET_C (RB_SET_C h s Red) p Blk"

definition rb_del_case3 ::
    "addr \<Rightarrow> rb_heap \<Rightarrow> addr \<Rightarrow> addr \<Rightarrow> rb_heap + rb_heap \<times> addr \<times> addr" where
  "rb_del_case3 z h p s =
     (let h = RB_SET_C h s Red; n = p; p = rb_parent h p in
      if p = rb_null z then Inl h else Inr (h, n, p))"

definition rb_del_test3_l ::
    "addr \<Rightarrow> rb_heap \<Rightarrow> addr \<Rightarrow> addr \<Rightarrow> addr \<Rightarrow> addr \<Rightarrow> addr \<Rightarrow> rb_heap + rb_heap \<times> addr \<times> addr" where
  "rb_del_test3_l z h p g s sl sr =
     (if \<not> RB_IS_BLACK h sr then Inl (rb_del_case6_l z h p g s sl sr)
      else if \<not> RB_IS_BLACK h sl then Inl (rb_del_case5_l z h p g s sl)
      else if RB_IS_BLACK h p then rb_del_case3 z h p s
      else Inl (rb_del_case4 h p s))"

definition rb_del_test3_r ::
    "addr \<Rightarrow> rb_heap \<Rightarrow> addr \<Rightarrow> addr \<Rightarrow> addr \<Rightarrow> addr \<Rightarrow> addr \<Rightarrow> rb_heap + rb_heap \<times> addr \<times> addr" where
  "rb_del_test3_r z h p g s sl sr =
     (if \<not> RB_IS_BLACK h sl then Inl (rb_del_case6_r z h p g s sl sr)
      else if \<not> RB_IS_BLACK h sr then Inl (rb_del_case5_r z h p g s sr)
      else if RB_IS_BLACK h p then rb_del_case3 z h p s
      else Inl (rb_del_case4 h p s))"

definition rb_del_case2_x ::
    "addr \<Rightarrow> rb_heap \<Rightarrow> addr \<Rightarrow> addr \<Rightarrow> addr \<Rightarrow> addr \<Rightarrow> addr \<Rightarrow> rb_heap + rb_heap \<times> addr \<times> addr" where
  "rb_del_case2_x z h n p g s c =
     (let h = (if g = rb_null z then RB_SET_ROOT z h s
               else if p = rb_left h g then RB_SET_L h g s
               else RB_SET_R h g s);
          g = s; s = c;
          sl = rb_left h s; sr = rb_right h s
      in if n = rb_left h p then rb_del_test3_l z h p g s sl sr
         else rb_del_test3_r z h p g s sl sr)"

definition rb_del_case2_l ::
    "addr \<Rightarrow> rb_heap \<Rightarrow> addr \<Rightarrow> addr \<Rightarrow> addr \<Rightarrow> addr \<Rightarrow> addr \<Rightarrow> rb_heap + rb_heap \<times> addr \<times> addr" where
  "rb_del_case2_l z h n p g s sl =
     (let c = sl;
          h = RB_SET_P_L_C h s g p Blk;
          h = RB_SET_P_R_C h p s c Red;
          h = RB_SET_P h c p
      in rb_del_case2_x z h n p g s c)"

definition rb_del_case2_r ::
    "addr \<Rightarrow> rb_heap \<Rightarrow> addr \<Rightarrow> addr \<Rightarrow> addr \<Rightarrow> addr \<Rightarrow> addr \<Rightarrow> rb_heap + rb_heap \<times> addr \<times> addr" where
  "rb_del_case2_r z h n p g s sr =
     (let c = sr;
          h = RB_SET_P_R_C h s g p Blk;
          h = RB_SET_P_L_C h p s c Red;
          h = RB_SET_P h c p
      in rb_del_case2_x z h n p g s c)"

definition rb_del_step ::
    "addr \<Rightarrow> rb_heap \<Rightarrow> addr \<Rightarrow> addr \<Rightarrow> rb_heap + rb_heap \<times> addr \<times> addr" where
  "rb_del_step z h n p =
     (let g = rb_parent h p in
      if n = rb_left h p then
        let s = rb_right h p; sl = rb_left h s; sr = rb_right h s in
        if RB_IS_BLACK h s then rb_del_test3_l z h p g s sl sr
        else rb_del_case2_l z h n p g s sl
      else
        let s = rb_left h p; sl = rb_left h s; sr = rb_right h s in
        if RB_IS_BLACK h s then rb_del_test3_r z h p g s sl sr
        else rb_del_case2_r z h n p g s sr)"

partial_function (option) rb_del_loop ::
    "addr \<Rightarrow> rb_heap \<Rightarrow> addr \<Rightarrow> addr \<Rightarrow> rb_heap option" where
  "rb_del_loop z h n p =
     (case rb_del_step z h n p of
        Inl h' \<Rightarrow> Some h'
      | Inr (h', n', p') \<Rightarrow> rb_del_loop z h' n' p')"

definition rb_delete_rebalance :: "addr \<Rightarrow> rb_heap \<Rightarrow> addr \<Rightarrow> rb_heap option" where
  "rb_delete_rebalance z h p = rb_del_loop z h (rb_null z) p"

section \<open>Deletion and replacement: the code\<close>

partial_function (option) rb_rightmost :: "addr \<Rightarrow> rb_heap \<Rightarrow> addr \<Rightarrow> addr option" where
  "rb_rightmost z h m =
     (let t = rb_right h m in if t \<noteq> rb_null z then rb_rightmost z h t else Some m)"

partial_function (option) rb_leftmost :: "addr \<Rightarrow> rb_heap \<Rightarrow> addr \<Rightarrow> addr option" where
  "rb_leftmost z h m =
     (let t = rb_left h m in if t \<noteq> rb_null z then rb_leftmost z h t else Some m)"

text \<open>\<^verbatim>\<open>RB_COLOR\<close> of the node, as a colour.\<close>

definition RB_COLOR :: "rb_heap \<Rightarrow> addr \<Rightarrow> clr" where
  "RB_COLOR h n = (if nd_color (h n) AND 1 = 0 then Blk else Red)"

text \<open>The reset of the removed node's neighbours, to the null node of the tree.\<close>

definition rb_del_reset :: "addr \<Rightarrow> rb_heap \<Rightarrow> addr \<Rightarrow> rb_heap" where
  "rb_del_reset z h n =
     h(n := (h n)\<lparr>nd_left := rb_null z, nd_right := rb_null z, nd_parent := rb_null z\<rparr>)"

text \<open>Label \<^verbatim>\<open>adjust_parent\<close>, up to the end of the function.\<close>

definition rb_del_adjust_parent ::
    "addr \<Rightarrow> rb_heap \<Rightarrow> addr \<Rightarrow> addr \<Rightarrow> addr \<Rightarrow> addr \<Rightarrow> addr \<Rightarrow> clr \<Rightarrow> addr \<Rightarrow> (rb_heap \<times> addr) option" where
  "rb_del_adjust_parent z h n p m c t color k =
     (let h = (if p = rb_null z then RB_SET_ROOT z h m
               else if n = rb_left h p then RB_SET_L h p m
               else RB_SET_R h p m)
      in map_option (\<lambda>h. (rb_del_reset z h n, k))
        (if color = Blk then
           if c = rb_null z then rb_delete_rebalance z h t
           else Some (RB_SET_C h c Blk)
         else Some h))"

text \<open>The replacement of \<open>n\<close> by its neighbour \<open>m\<close>, whose only child is \<open>c\<close>.\<close>

definition rb_del_replace ::
    "addr \<Rightarrow> rb_heap \<Rightarrow> addr \<Rightarrow> addr \<Rightarrow> addr \<Rightarrow> addr \<Rightarrow> (rb_heap \<times> addr) option" where
  "rb_del_replace z h n p m c =
     (let k = m;
          color = RB_COLOR h m;
          l = rb_left h n; r = rb_right h n;
          t = rb_parent h m;
          (h, t) =
            (if t \<noteq> n then
               let h = (if c = rb_left h m then RB_SET_R h t c else RB_SET_L h t c);
                   h = RB_SET_P h c t;
                   h = RB_SET_P_L_R h m p l r;
                   h = RB_SET_P h l m;
                   h = RB_SET_P h r m
               in (h, t)
             else if m = l then
               (RB_SET_P (RB_SET_P_R h m p r) r m, m)
             else
               (RB_SET_P (RB_SET_P_L h m p l) l m, m));
          h = (if RB_IS_BLACK h n then RB_SET_C h m Blk else RB_SET_C h m Red)
      in rb_del_adjust_parent z h n p m c t color k)"

definition rb_delete :: "addr \<Rightarrow> rb_heap \<Rightarrow> addr \<Rightarrow> (rb_heap \<times> addr) option" where
  "rb_delete z h n =
     (let p = rb_parent h n in
      if p = NULL then Some (h, p)
      else if rb_left h n \<noteq> rb_null z then
        (case rb_rightmost z h (rb_left h n) of
           None \<Rightarrow> None
         | Some m \<Rightarrow> rb_del_replace z h n p m (rb_left h m))
      else if rb_right h n \<noteq> rb_null z then
        (case rb_leftmost z h (rb_right h n) of
           None \<Rightarrow> None
         | Some m \<Rightarrow> rb_del_replace z h n p m (rb_right h m))
      else if p = rb_null z then
        (let m = rb_right h n; h = RB_SET_ROOT z h m in Some (rb_del_reset z h n, m))
      else
        (let m = rb_right h n; c = m; color = RB_COLOR h n; t = p; k = p in
         rb_del_adjust_parent z h n p m c t color k))"

definition rb_replace :: "addr \<Rightarrow> rb_heap \<Rightarrow> addr \<Rightarrow> addr \<Rightarrow> rb_heap" where
  "rb_replace z h n t =
     (let p = rb_parent h n; l = rb_left h n; r = rb_right h n;
          h = RB_SET_P_L_R h t p l r;
          h = (if RB_IS_BLACK h n then RB_SET_C h t Blk else RB_SET_C h t Red);
          h = (if p = rb_null z then RB_SET_ROOT z h t
               else if n = rb_left h p then RB_SET_L h p t
               else RB_SET_R h p t);
          h = RB_SET_P h l t
      in RB_SET_P h r t)"

section \<open>Rebalancing as a function on contexts\<close>

lemma rb_del_case6_x_relink [simp]: "rb_del_case6_x z h p g s = rb_relink z h g p s"
  by (simp add: rb_del_case6_x_def rb_relink_def)

text \<open>
  \<open>del_l c t p s\<close> is what tests 3 to 6 make of the node \<open>p\<close> of colour \<open>c\<close> whose left
  subtree \<open>t\<close> lost one black node and whose sibling \<open>s\<close> is black; \<open>del_up\<close> is the
  condition of case 3, in which the loop goes on with \<open>p\<close>.
\<close>

definition black_kids :: "ptree \<Rightarrow> bool" where
  "black_kids s \<longleftrightarrow> (case s of Tip \<Rightarrow> True | Bin c l a r \<Rightarrow> col l = Blk \<and> col r = Blk)"

lemma black_kids_simps [simp]:
  "black_kids Tip"
  "black_kids (Bin c l a r) \<longleftrightarrow> col l = Blk \<and> col r = Blk"
  by (simp_all add: black_kids_def)

fun del_l :: "clr \<Rightarrow> ptree \<Rightarrow> addr \<Rightarrow> ptree \<Rightarrow> ptree" where
  "del_l c t p Tip = Bin c t p Tip"
| "del_l c t p (Bin cs sl s sr) =
     (if col sr = Red then Bin c (Bin Blk t p sl) s (paint Blk sr)
      else case sl of
        Bin Red l a r \<Rightarrow> Bin c (Bin Blk t p l) a (Bin cs r s sr)
      | _ \<Rightarrow> Bin Blk t p (Bin Red sl s sr))"

fun del_r :: "clr \<Rightarrow> ptree \<Rightarrow> addr \<Rightarrow> ptree \<Rightarrow> ptree" where
  "del_r c Tip p t = Bin c Tip p t"
| "del_r c (Bin cs sl s sr) p t =
     (if col sl = Red then Bin c (paint Blk sl) s (Bin Blk sr p t)
      else case sr of
        Bin Red l a r \<Rightarrow> Bin c (Bin cs sl s l) a (Bin Blk r p t)
      | _ \<Rightarrow> Bin Blk (Bin Red sl s sr) p t)"

fun del_fix :: "ctx \<Rightarrow> ptree \<Rightarrow> ptree" where
  "del_fix [] t = t"
| "del_fix (LeftOf c p s # k) t =
     (case s of
        Bin Red sl a sr \<Rightarrow> plug k (Bin Blk (del_l Red t p sl) a sr)
      | _ \<Rightarrow> if c = Blk \<and> black_kids s then del_fix k (del_l c t p s) else plug k (del_l c t p s))"
| "del_fix (RightOf c s p # k) t =
     (case s of
        Bin Red sl a sr \<Rightarrow> plug k (Bin Blk sl a (del_r Red sr p t))
      | _ \<Rightarrow> if c = Blk \<and> black_kids s then del_fix k (del_r c s p t) else plug k (del_r c s p t))"

lemma inorder_del_l [simp]: "inorder (del_l c t p s) = inorder t @ p # inorder s"
  by (cases s) (auto split: ptree.split clr.split)

lemma inorder_del_r [simp]: "inorder (del_r c s p t) = inorder s @ p # inorder t"
  by (cases s) (auto split: ptree.split clr.split)

lemma inorder_del_fix: "inorder (del_fix k t) = ctx_pre k @ inorder t @ ctx_post k"
  by (induction k t rule: del_fix.induct) (auto simp: inorder_plug split: ptree.split clr.split)

subsection \<open>The invariant\<close>

text \<open>
  A short position: the hole of \<open>k\<close> needs one black node more than \<open>t\<close> has. The rebalancing
  loop starts from one and keeps one.
\<close>

definition short_pos :: "ctx \<Rightarrow> ptree \<Rightarrow> bool" where
  "short_pos k t \<longleftrightarrow> bal t \<and> ctx_bal k (Suc (bh t)) \<and> ctx_red k Blk"

lemma del_l_props:
  assumes "bal t" "bal s" "red_ok t" "red_ok s" "col t = Blk" "col s = Blk" "bh s = Suc (bh t)"
  shows "bal (del_l c t p s)" and "red_ok (del_l c t p s)"
    and "\<not> (c = Blk \<and> black_kids s) \<Longrightarrow> bh (del_l c t p s) = bh s + (if c = Blk then 1 else 0)"
    and "c = Blk \<Longrightarrow> col (del_l c t p s) = Blk"
    and "c = Blk \<Longrightarrow> black_kids s \<Longrightarrow> bh (del_l c t p s) = bh s"
  using assms
  by (cases s; auto simp: red_ok_paint_Blk bh_paint_Blk split: ptree.splits clr.splits)+

lemma del_r_props:
  assumes "bal t" "bal s" "red_ok t" "red_ok s" "col t = Blk" "col s = Blk" "bh s = Suc (bh t)"
  shows "bal (del_r c s p t)" and "red_ok (del_r c s p t)"
    and "\<not> (c = Blk \<and> black_kids s) \<Longrightarrow> bh (del_r c s p t) = bh s + (if c = Blk then 1 else 0)"
    and "c = Blk \<Longrightarrow> col (del_r c s p t) = Blk"
    and "c = Blk \<Longrightarrow> black_kids s \<Longrightarrow> bh (del_r c s p t) = bh s"
  using assms
  by (cases s; auto simp: red_ok_paint_Blk bh_paint_Blk split: ptree.splits clr.splits)+

text \<open>
  One lemma serves both sides: \<open>d\<close> is \<open>del_l\<close> or \<open>del_r\<close> at the frame \<open>f\<close>, whose other
  subtree is \<open>s\<close>.
\<close>

lemma rbt_del_up:
  assumes "short_pos (f # k) t" and "root_blk (f # k)" and "frame_col f = c"
    and d: "bal d" "red_ok d" "c = Blk \<Longrightarrow> col d = Blk" "bh d = Suc (bh t) + (if c = Blk then 1 else 0)"
  shows "rbt (plug k d)"
proof -
  have bal: "ctx_bal k (bh d)"
    using assms by (cases f) (auto simp: short_pos_def)
  have red: "ctx_red k c"
    using assms by (cases f) (auto simp: short_pos_def)
  have "ctx_red k (col d)"
    using red d(3) ctx_red_Blk [OF red] by (cases c; cases "col d") auto
  moreover have "k = [] \<Longrightarrow> c = Blk"
    using assms(2,3) by simp
  ultimately show ?thesis
    using assms bal by (auto simp: rbt_plug root_blk_tl)
qed

lemma short_pos_up:
  assumes "short_pos (f # k) t" and "frame_col f = Blk" and "bal d" and "bh d = Suc (bh t)"
  shows "short_pos k d"
  using assms by (cases f) (auto simp: short_pos_def)

lemma del_fix_black:
  "col s = Blk \<Longrightarrow> del_fix (LeftOf c p s # k) t =
     (if c = Blk \<and> black_kids s then del_fix k (del_l c t p s) else plug k (del_l c t p s))"
  "col s = Blk \<Longrightarrow> del_fix (RightOf c s p # k) t =
     (if c = Blk \<and> black_kids s then del_fix k (del_r c s p t) else plug k (del_r c s p t))"
  by (cases s; simp del: del_l.simps del_r.simps plug.simps black_kids_simps)+

lemma del_fix_red:
  "del_fix (LeftOf c p (Bin Red sl a sr) # k) t = plug k (Bin Blk (del_l Red t p sl) a sr)"
  "del_fix (RightOf c (Bin Red sl a sr) p # k) t = plug k (Bin Blk sl a (del_r Red sr p t))"
  by (simp_all del: del_l.simps del_r.simps)

declare del_fix.simps(2,3) [simp del]

lemma rbt_del_fix:
  "short_pos k t \<Longrightarrow> red_ok t \<Longrightarrow> col t = Blk \<Longrightarrow> root_blk k \<Longrightarrow> rbt (del_fix k t)"
proof (induction "length k" arbitrary: k t rule: less_induct)
  case less
  show ?case
  proof (cases k rule: ctx_addrs.cases)
    case 1
    with less.prems show ?thesis by (simp add: short_pos_def rbt_def)
  next
    case (2 c p s k')
    with less.prems have s: "bal s" "red_ok s" "bh s = Suc (bh t)" "bal t" and "ctx_red k' c"
      by (auto simp: short_pos_def)
    show ?thesis
    proof (cases "col s = Red")
      case True
      then obtain sl a sr where s_eq: "s = Bin Red sl a sr" by (cases s) auto
      with s have sl: "bal sl" "red_ok sl" "col sl = Blk" "bh sl = Suc (bh t)"
          "bal sr" "red_ok sr" "bh sl = bh sr" by auto
      note props = del_l_props [OF \<open>bal t\<close> \<open>bal sl\<close> less.prems(2) \<open>red_ok sl\<close> less.prems(3) sl(3,4)]
      have "c = Blk" using less.prems 2 s_eq by (auto simp: short_pos_def)
      then show ?thesis
        unfolding 2 s_eq del_fix_red
        using less.prems 2 sl props(1,2) [of Red p] props(3) [of Red p]
        by (intro rbt_del_up [of "LeftOf c p s"]) auto
    next
      case False
      note props = del_l_props [OF \<open>bal t\<close> \<open>bal s\<close> less.prems(2) \<open>red_ok s\<close> less.prems(3) _ s(3)]
      from False show ?thesis
        unfolding 2 using less.prems 2 props [of c p] s(3)
          less.hyps [of k' "del_l c t p s"]
          short_pos_up [of "LeftOf c p s" k' t "del_l c t p s"]
        by (auto simp: del_fix_black root_blk_tl intro!: rbt_del_up [of "LeftOf c p s"])
    qed
  next
    case (3 c s p k')
    with less.prems have s: "bal s" "red_ok s" "bh s = Suc (bh t)" "bal t" and "ctx_red k' c"
      by (auto simp: short_pos_def)
    show ?thesis
    proof (cases "col s = Red")
      case True
      then obtain sl a sr where s_eq: "s = Bin Red sl a sr" by (cases s) auto
      with s have sr: "bal sr" "red_ok sr" "col sr = Blk" "bh sr = Suc (bh t)"
          "bal sl" "red_ok sl" "bh sl = bh sr" by auto
      note props = del_r_props [OF \<open>bal t\<close> \<open>bal sr\<close> less.prems(2) \<open>red_ok sr\<close> less.prems(3) sr(3,4)]
      have "c = Blk" using less.prems 3 s_eq by (auto simp: short_pos_def)
      then show ?thesis
        unfolding 3 s_eq del_fix_red
        using less.prems 3 sr props(1,2) [of Red p] props(3) [of Red p]
        by (intro rbt_del_up [of "RightOf c s p"]) auto
    next
      case False
      note props = del_r_props [OF \<open>bal t\<close> \<open>bal s\<close> less.prems(2) \<open>red_ok s\<close> less.prems(3) _ s(3)]
      from False show ?thesis
        unfolding 3 using less.prems 3 props [of c p] s(3)
          less.hyps [of k' "del_r c s p t"]
          short_pos_up [of "RightOf c s p" k' t "del_r c s p t"]
        by (auto simp: del_fix_black root_blk_tl intro!: rbt_del_up [of "RightOf c s p"])
    qed
  qed
qed

end
