(* ===== verification/RB_Rebalance.thy ===== *)
theory RB_Rebalance
  imports RB_Delete
begin

text \<open>
  The red-black tree library, part four: the rebalancing loop of deletion implements
  \<open>del_fix\<close>, ends, and leaves everything outside the tree alone.
\<close>


section \<open>The code implements the function\<close>

text \<open>
  The final cases. \<open>wf_pos\<close> describes the position of \<open>n\<close>, which is the null node in the
  first trip.
\<close>

lemma rb_del_case6_l_ok:
  assumes "wf_pos z h p n (LeftOf c p (Bin Blk sl s sr) # k) t" and "col sr = Red"
  shows "rb_tree_at z (rb_del_case6_l z h p (rb_parent h p) s (rb_left h s) (rb_right h s))
           (plug k (Bin c (Bin Blk t p sl) s (paint Blk sr)))"
  unfolding rb_del_case6_l_def Let_def rb_del_case6_x_relink
  by (rule rb_tree_at_relinkI,
      (use assms in \<open>cases c; cases sl; cases sr; simp add: pos_facts\<close>; elim conjE;
        simp add: heap_defs frame RB_IS_BLACK_iff),
      (use assms in \<open>simp add: pos_facts\<close>; auto))

lemma rb_del_case6_r_ok:
  assumes "wf_pos z h p n (RightOf c (Bin Blk sl s sr) p # k) t" and "col sl = Red"
  shows "rb_tree_at z (rb_del_case6_r z h p (rb_parent h p) s (rb_left h s) (rb_right h s))
           (plug k (Bin c (paint Blk sl) s (Bin Blk sr p t)))"
  unfolding rb_del_case6_r_def Let_def rb_del_case6_x_relink
  by (rule rb_tree_at_relinkI,
      (use assms in \<open>cases c; cases sl; cases sr; simp add: pos_facts\<close>; elim conjE;
        simp add: heap_defs frame RB_IS_BLACK_iff),
      (use assms in \<open>simp add: pos_facts\<close>; auto))

lemma rb_del_case5_l_ok:
  assumes "wf_pos z h p n (LeftOf c p (Bin Blk (Bin Red l a r) s sr) # k) t"
  shows "rb_tree_at z (rb_del_case5_l z h p (rb_parent h p) s (rb_left h s))
           (plug k (Bin c (Bin Blk t p l) a (Bin Blk r s sr)))"
  unfolding rb_del_case5_l_def Let_def rb_del_case6_x_relink
  by (rule rb_tree_at_relinkI,
      (use assms in \<open>cases c; cases l; cases r; simp add: pos_facts\<close>; elim conjE;
        simp add: heap_defs frame RB_IS_BLACK_iff),
      (use assms in \<open>simp add: pos_facts\<close>; auto))

lemma rb_del_case5_r_ok:
  assumes "wf_pos z h p n (RightOf c (Bin Blk sl s (Bin Red l a r)) p # k) t"
  shows "rb_tree_at z (rb_del_case5_r z h p (rb_parent h p) s (rb_right h s))
           (plug k (Bin c (Bin Blk sl s l) a (Bin Blk r p t)))"
  unfolding rb_del_case5_r_def Let_def rb_del_case6_x_relink
  by (rule rb_tree_at_relinkI,
      (use assms in \<open>cases c; cases l; cases r; simp add: pos_facts\<close>; elim conjE;
        simp add: heap_defs frame RB_IS_BLACK_iff),
      (use assms in \<open>simp add: pos_facts\<close>; auto))

text \<open>Cases 3 and 4 recolour the sibling; in case 4 also the parent, which was red.\<close>

lemma rb_del_recolour_l:
  assumes "wf_pos z h p n (LeftOf c p (Bin Blk sl s sr) # k) t"
  shows "wf_pos z (RB_SET_C h s Red) (rb_parent h p) p k (Bin c t p (Bin Red sl s sr))"
    and "wf_pos z (rb_del_case4 h p s) (rb_parent h p) p k (Bin Blk t p (Bin Red sl s sr))"
  by (use assms in \<open>simp add: pos_facts rb_del_case4_def\<close>; elim conjE; simp add: heap_defs frame)+

lemma rb_del_recolour_r:
  assumes "wf_pos z h p n (RightOf c (Bin Blk sl s sr) p # k) t"
  shows "wf_pos z (RB_SET_C h s Red) (rb_parent h p) p k (Bin c (Bin Red sl s sr) p t)"
    and "wf_pos z (rb_del_case4 h p s) (rb_parent h p) p k (Bin Blk (Bin Red sl s sr) p t)"
  by (use assms in \<open>simp add: pos_facts rb_del_case4_def\<close>; elim conjE; simp add: heap_defs frame)+

lemma wf_pos_tree: "wf_pos z h p n k t \<Longrightarrow> rb_tree_at z h (plug k t)"
  by (auto simp: wf_pos_def intro: rb_tree_at_plugI)


text \<open>Case 2 turns a red sibling into a black one and tests again one level lower.\<close>

lemma rb_del_step_l:
  assumes "wf_pos z h p n (LeftOf c p s # k) t"
  shows "rb_del_step z h n p =
    (let x = rb_right h p in
     if col s = Blk then rb_del_test3_l z h p (rb_parent h p) x (rb_left h x) (rb_right h x)
     else rb_del_case2_l z h n p (rb_parent h p) x (rb_left h x))"
  using assms
  by (auto simp: rb_del_step_def wf_pos_def heap_defs Let_def dest: col_at_child)

lemma rb_del_step_r:
  assumes "wf_pos z h p n (RightOf c s p # k) t" and "s \<noteq> Tip"
  shows "rb_del_step z h n p =
    (let x = rb_left h p in
     if col s = Blk then rb_del_test3_r z h p (rb_parent h p) x (rb_left h x) (rb_right h x)
     else rb_del_case2_r z h n p (rb_parent h p) x (rb_right h x))"
proof -
  have "n \<in> insert z (set (inorder t))"
    using assms by (intro tree_at_root_in [of z h p]) (simp add: wf_pos_def)
  moreover have "nd_left (h p) \<in> set (inorder s)"
    using assms by (cases s) (auto simp: wf_pos_def)
  ultimately have "nd_left (h p) \<noteq> n"
    using assms by (auto simp: pos_facts)
  then show ?thesis
    using assms by (auto simp: rb_del_step_def wf_pos_def heap_defs Let_def dest: col_at_child)
qed

text \<open>
  The rotation of case 2: the sibling replaces \<open>p\<close> below \<open>g\<close>. What follows in the code is a
  trip of the loop at the new position.
\<close>

lemma rb_del_case2_x_relink:
  "rb_del_case2_x z h n p g s c =
     (let h = rb_relink z h g p s; sl = rb_left h c; sr = rb_right h c
      in if n = rb_left h p then rb_del_test3_l z h p s c sl sr
         else rb_del_test3_r z h p s c sl sr)"
  by (simp add: rb_del_case2_x_def rb_relink_def Let_def)

definition rb_rot2_l :: "addr \<Rightarrow> rb_heap \<Rightarrow> addr \<Rightarrow> addr \<Rightarrow> addr \<Rightarrow> addr \<Rightarrow> rb_heap" where
  "rb_rot2_l z h p g s c =
     rb_relink z (RB_SET_P (RB_SET_P_R_C (RB_SET_P_L_C h s g p Blk) p s c Red) c p) g p s"

definition rb_rot2_r :: "addr \<Rightarrow> rb_heap \<Rightarrow> addr \<Rightarrow> addr \<Rightarrow> addr \<Rightarrow> addr \<Rightarrow> rb_heap" where
  "rb_rot2_r z h p g s c =
     rb_relink z (RB_SET_P (RB_SET_P_L_C (RB_SET_P_R_C h s g p Blk) p s c Red) c p) g p s"

lemma rb_rot2_l_tree:
  assumes "wf_pos z h p n (LeftOf c p (Bin Red sl s sr) # k) t"
  shows "rb_tree_at z (rb_rot2_l z h p (rb_parent h p) s (rb_left h s))
    (plug k (Bin Blk (Bin Red t p sl) s sr))"
  unfolding rb_rot2_l_def
  by (rule rb_tree_at_relinkI,
      (use assms in \<open>cases sl; simp add: pos_facts\<close>; elim conjE; simp add: heap_defs frame),
      (use assms in \<open>simp add: pos_facts\<close>; auto))

lemma rb_rot2_r_tree:
  assumes "wf_pos z h p n (RightOf c (Bin Red sl s sr) p # k) t"
  shows "rb_tree_at z (rb_rot2_r z h p (rb_parent h p) s (rb_right h s))
    (plug k (Bin Blk sl s (Bin Red sr p t)))"
  unfolding rb_rot2_r_def
  by (rule rb_tree_at_relinkI,
      (use assms in \<open>cases sr; simp add: pos_facts\<close>; elim conjE; simp add: heap_defs frame),
      (use assms in \<open>simp add: pos_facts\<close>; auto))

lemma wf_posI_tree:
  assumes "rb_tree_at z h (plug k t)" and "root_of z t = n" and "k = f # k'"
    and "p = (case f of LeftOf c a r \<Rightarrow> a | RightOf c l a \<Rightarrow> a)"
  shows "wf_pos z h p n k t"
proof -
  from assms(1) obtain p' x where "ctx_at z h p' x k" "tree_at z h p' x t"
    by (auto simp: rb_tree_at_def tree_at_plug)
  moreover from this assms have "p' = p" "x = n"
    by (auto simp: tree_at_root split: pframe.splits)
  ultimately show ?thesis
    using assms(1) by (simp add: wf_pos_def rb_tree_at_def)
qed

lemma rb_del_case2_l_ok:
  assumes wf: "wf_pos z h p n (LeftOf c p (Bin Red sl s sr) # k) t" and "col sl = Blk"
  shows "wf_pos z (rb_rot2_l z h p (rb_parent h p) s (rb_left h s)) p n
           (LeftOf Red p sl # LeftOf Blk s sr # k) t"
    and "rb_del_case2_l z h n p (rb_parent h p) s (rb_left h s) =
           rb_del_step z (rb_rot2_l z h p (rb_parent h p) s (rb_left h s)) n p"
proof -
  let ?h = "rb_rot2_l z h p (rb_parent h p) s (rb_left h s)"
  have n: "root_of z t = n"
    using wf tree_at_root [of z h p n t] by (simp add: wf_pos_def)
  show wf': "wf_pos z ?h p n (LeftOf Red p sl # LeftOf Blk s sr # k) t"
    by (rule wf_posI_tree) (use rb_rot2_l_tree [OF wf] n in auto)
  have "tree_at z ?h p (rb_right ?h p) sl" "tree_at z h s (rb_left h s) sl"
    using wf' wf by (simp_all add: wf_pos_def heap_defs)
  then have "rb_right ?h p = rb_left h s"
    by (metis tree_at_root)
  moreover have "rb_parent ?h p = s" "n = rb_left ?h p"
    using wf' by (simp_all add: wf_pos_def heap_defs)
  ultimately show "rb_del_case2_l z h n p (rb_parent h p) s (rb_left h s) = rb_del_step z ?h n p"
    unfolding rb_del_step_l [OF wf'] using \<open>col sl = Blk\<close>
    by (simp add: rb_del_case2_l_def rb_del_case2_x_relink Let_def
        rb_rot2_l_def)
qed

lemma rb_del_case2_r_ok:
  assumes wf: "wf_pos z h p n (RightOf c (Bin Red sl s sr) p # k) t" and "col sr = Blk"
    and "sr \<noteq> Tip"
  shows "wf_pos z (rb_rot2_r z h p (rb_parent h p) s (rb_right h s)) p n
           (RightOf Red sr p # RightOf Blk sl s # k) t"
    and "rb_del_case2_r z h n p (rb_parent h p) s (rb_right h s) =
           rb_del_step z (rb_rot2_r z h p (rb_parent h p) s (rb_right h s)) n p"
proof -
  let ?h = "rb_rot2_r z h p (rb_parent h p) s (rb_right h s)"
  have n: "root_of z t = n"
    using wf tree_at_root [of z h p n t] by (simp add: wf_pos_def)
  show wf': "wf_pos z ?h p n (RightOf Red sr p # RightOf Blk sl s # k) t"
    by (rule wf_posI_tree) (use rb_rot2_r_tree [OF wf] n in auto)
  have "tree_at z ?h p (rb_left ?h p) sr" "tree_at z h s (rb_right h s) sr"
    using wf' wf by (simp_all add: wf_pos_def heap_defs)
  then have "rb_left ?h p = rb_right h s"
    by (metis tree_at_root)
  moreover have "rb_parent ?h p = s" "n = rb_right ?h p"
    using wf' by (simp_all add: wf_pos_def heap_defs)
  moreover have "n \<noteq> rb_left ?h p"
  proof -
    have "n \<in> insert z (set (inorder t))"
      using n by (cases t) auto
    moreover have "rb_left ?h p \<in> set (inorder sr)"
      using wf' \<open>sr \<noteq> Tip\<close> by (cases sr) (auto simp: wf_pos_def heap_defs)
    ultimately show ?thesis
      using wf by (auto simp: pos_facts)
  qed
  ultimately show "rb_del_case2_r z h n p (rb_parent h p) s (rb_right h s) = rb_del_step z ?h n p"
    unfolding rb_del_step_r [OF wf' \<open>sr \<noteq> Tip\<close>] using \<open>col sr = Blk\<close>
    by (simp add: rb_del_case2_r_def rb_del_case2_x_relink Let_def
        rb_rot2_r_def)
qed

text \<open>One trip of the loop, and the whole loop.\<close>

definition del_progress :: "addr \<Rightarrow> ctx \<Rightarrow> ptree \<Rightarrow> rb_heap + rb_heap \<times> addr \<times> addr \<Rightarrow> bool" where
  "del_progress z k t r \<longleftrightarrow>
     (case r of
        Inl h' \<Rightarrow> rb_tree_at z h' (del_fix k t)
      | Inr (h', n', p') \<Rightarrow>
          \<exists>k' t'. wf_pos z h' p' n' k' t' \<and> k' \<noteq> [] \<and> short_pos k' t' \<and>
            length k' < length k \<and> del_fix k' t' = del_fix k t)"

lemma ctx_at_Nil_iff: "ctx_at z h p x k \<Longrightarrow> p = z \<longleftrightarrow> k = []"
  by (cases k rule: ctx_addrs.cases) auto

lemma del_progress_case3:
  assumes "wf_pos z (RB_SET_C h s Red) (rb_parent h p) p k d"
    and "rb_parent (RB_SET_C h s Red) p = rb_parent h p"
    and "k \<noteq> [] \<Longrightarrow> short_pos k d" and "del_fix k d = del_fix (f # k) t"
  shows "del_progress z (f # k) t (rb_del_case3 z h p s)"
proof (cases "k = []")
  case True
  with assms show ?thesis
    using wf_pos_tree [OF assms(1)]
    by (auto simp: del_progress_def rb_del_case3_def rb_null_def wf_pos_def dest: ctx_at_Nil_iff)
next
  case False
  then have "rb_parent h p \<noteq> z"
    using assms(1) by (auto simp: wf_pos_def dest: ctx_at_Nil_iff)
  with assms False show ?thesis
    by (auto simp: del_progress_def rb_del_case3_def rb_null_def intro!: exI [of _ k] exI [of _ d])
qed

lemma parent_RB_SET_C [simp]: "rb_parent (RB_SET_C h s c) p = rb_parent h p"
  by (cases c) (auto simp: heap_defs)

lemma del_test3_l:
  assumes wf: "wf_pos z h p n (LeftOf c p (Bin Blk sl s sr) # k) t"
    and short: "short_pos (LeftOf c p (Bin Blk sl s sr) # k) t"
  shows "del_progress z (LeftOf c p (Bin Blk sl s sr) # k) t
    (rb_del_test3_l z h p (rb_parent h p) s (rb_left h s) (rb_right h s))"
proof -
  have b: "RB_IS_BLACK h (rb_left h s) \<longleftrightarrow> col sl = Blk" "RB_IS_BLACK h (rb_right h s) \<longleftrightarrow> col sr = Blk"
      "RB_IS_BLACK h p \<longleftrightarrow> c = Blk"
    using wf by (auto simp: wf_pos_def heap_defs RB_IS_BLACK_iff [of h p] col_at_child)
  consider "col sr = Red" | l a r where "col sr = Blk" "sl = Bin Red l a r"
    | "col sr = Blk" "col sl = Blk" "c = Blk" | "col sr = Blk" "col sl = Blk" "c = Red"
    by (metis clr.exhaust col.elims)
  then show ?thesis
  proof cases
    case 1
    with rb_del_case6_l_ok [OF wf] b show ?thesis
      by (simp add: del_progress_def rb_del_test3_l_def del_fix_black)
  next
    case 2
    with rb_del_case5_l_ok [of z h p n c l a r s sr k t] wf b show ?thesis
      by (simp add: del_progress_def rb_del_test3_l_def del_fix_black)
  next
    case 3
    with short have d: "short_pos k (Bin c t p (Bin Red sl s sr))"
      by (auto simp: short_pos_def)
    from 3 have "del_l c t p (Bin Blk sl s sr) = Bin Blk t p (Bin Red sl s sr)"
      by (auto split: ptree.split clr.split)
    with 3 d b show ?thesis
      by (auto simp: rb_del_test3_l_def del_fix_black simp del: del_l.simps
          intro!: del_progress_case3 [OF rb_del_recolour_l(1) [OF wf]])
  next
    case 4
    then have "del_l c t p (Bin Blk sl s sr) = Bin Blk t p (Bin Red sl s sr)"
      by (auto split: ptree.split clr.split)
    with 4 b wf_pos_tree [OF rb_del_recolour_l(2) [OF wf]] show ?thesis
      by (simp add: rb_del_test3_l_def del_fix_black del_progress_def del: del_l.simps)
  qed
qed

lemma del_test3_r:
  assumes wf: "wf_pos z h p n (RightOf c (Bin Blk sl s sr) p # k) t"
    and short: "short_pos (RightOf c (Bin Blk sl s sr) p # k) t"
  shows "del_progress z (RightOf c (Bin Blk sl s sr) p # k) t
    (rb_del_test3_r z h p (rb_parent h p) s (rb_left h s) (rb_right h s))"
proof -
  have b: "RB_IS_BLACK h (rb_left h s) \<longleftrightarrow> col sl = Blk" "RB_IS_BLACK h (rb_right h s) \<longleftrightarrow> col sr = Blk"
      "RB_IS_BLACK h p \<longleftrightarrow> c = Blk"
    using wf by (auto simp: wf_pos_def heap_defs RB_IS_BLACK_iff [of h p] col_at_child)
  consider "col sl = Red" | l a r where "col sl = Blk" "sr = Bin Red l a r"
    | "col sl = Blk" "col sr = Blk" "c = Blk" | "col sl = Blk" "col sr = Blk" "c = Red"
    by (metis clr.exhaust col.elims)
  then show ?thesis
  proof cases
    case 1
    with rb_del_case6_r_ok [OF wf] b show ?thesis
      by (simp add: del_progress_def rb_del_test3_r_def del_fix_black)
  next
    case 2
    with rb_del_case5_r_ok [of z h p n c sl s l a r k t] wf b show ?thesis
      by (simp add: del_progress_def rb_del_test3_r_def del_fix_black)
  next
    case 3
    with short have d: "short_pos k (Bin c (Bin Red sl s sr) p t)"
      by (auto simp: short_pos_def)
    from 3 have "del_r c (Bin Blk sl s sr) p t = Bin Blk (Bin Red sl s sr) p t"
      by (auto split: ptree.split clr.split)
    with 3 d b show ?thesis
      by (auto simp: rb_del_test3_r_def del_fix_black simp del: del_r.simps
          intro!: del_progress_case3 [OF rb_del_recolour_r(1) [OF wf]])
  next
    case 4
    then have "del_r c (Bin Blk sl s sr) p t = Bin Blk (Bin Red sl s sr) p t"
      by (auto split: ptree.split clr.split)
    with 4 b wf_pos_tree [OF rb_del_recolour_r(2) [OF wf]] show ?thesis
      by (simp add: rb_del_test3_r_def del_fix_black del_progress_def del: del_r.simps)
  qed
qed


text \<open>The sibling of a short position exists, and below a red one there are black nodes.\<close>

lemma short_sibling:
  "short_pos (LeftOf c p s # k) t \<Longrightarrow>
     (\<exists>sl a sr. s = Bin Blk sl a sr) \<or>
     (\<exists>l x r a sr. s = Bin Red (Bin Blk l x r) a sr \<and>
       short_pos (LeftOf Red p (Bin Blk l x r) # LeftOf Blk a sr # k) t)"
  "short_pos (RightOf c s p # k) t \<Longrightarrow>
     (\<exists>sl a sr. s = Bin Blk sl a sr) \<or>
     (\<exists>l x r a sl. s = Bin Red sl a (Bin Blk l x r) \<and>
       short_pos (RightOf Red (Bin Blk l x r) p # RightOf Blk sl a # k) t)"
  by (cases s rule: col.cases; (simp add: short_pos_def);
      (cases "col s"; cases "case s of Bin c l a r \<Rightarrow> l"; cases "case s of Bin c l a r \<Rightarrow> r";
        auto simp: short_pos_def split: if_splits)[])+

lemma del_progress_mono:
  "del_progress z k' t r \<Longrightarrow> length k' \<le> Suc (length k) \<Longrightarrow> del_fix k' t = del_fix k t \<Longrightarrow>
   (\<And>h n p. r \<noteq> Inr (h, n, p)) \<Longrightarrow> del_progress z k t r"
  by (auto simp: del_progress_def split: sum.splits)

text \<open>With a red parent the tests never take case 3.\<close>

lemma test3_red_final:
  "\<not> RB_IS_BLACK h p \<Longrightarrow> rb_del_test3_l z h p g s sl sr \<noteq> Inr q"
  "\<not> RB_IS_BLACK h p \<Longrightarrow> rb_del_test3_r z h p g s sl sr \<noteq> Inr q"
  by (simp_all add: rb_del_test3_l_def rb_del_test3_r_def)

lemma del_progress_l:
  assumes wf: "wf_pos z h p n (LeftOf c p s # k) t" and short: "short_pos (LeftOf c p s # k) t"
  shows "del_progress z (LeftOf c p s # k) t (rb_del_step z h n p)"
  using short_sibling(1) [OF short]
proof (elim disjE exE conjE)
  fix sl a sr
  assume s: "s = Bin Blk sl a sr"
  then have "rb_right h p = a" using wf by (simp add: wf_pos_def heap_defs)
  with wf short s show ?thesis
    by (simp add: rb_del_step_l del_test3_l)
next
  fix l x r a sr
  assume s: "s = Bin Red (Bin Blk l x r) a sr"
    and short': "short_pos (LeftOf Red p (Bin Blk l x r) # LeftOf Blk a sr # k) t"
  have a: "rb_right h p = a" using wf s by (simp add: wf_pos_def heap_defs)
  let ?h = "rb_rot2_l z h p (rb_parent h p) a (rb_left h a)"
  have wf': "wf_pos z ?h p n (LeftOf Red p (Bin Blk l x r) # LeftOf Blk a sr # k) t"
    and step: "rb_del_case2_l z h n p (rb_parent h p) a (rb_left h a) = rb_del_step z ?h n p"
    using rb_del_case2_l_ok [OF wf [unfolded s]] by simp_all
  have x: "rb_right ?h p = x" using wf' by (simp add: wf_pos_def heap_defs)
  have "\<not> RB_IS_BLACK ?h p" using wf' by (simp add: wf_pos_def RB_IS_BLACK_iff)
  have "del_progress z (LeftOf c p s # k) t (rb_del_step z ?h n p)"
  proof (rule del_progress_mono)
    show "del_progress z (LeftOf Red p (Bin Blk l x r) # LeftOf Blk a sr # k) t (rb_del_step z ?h n p)"
      using del_test3_l [OF wf' short'] by (simp add: rb_del_step_l [OF wf'] x Let_def)
    show "del_fix (LeftOf Red p (Bin Blk l x r) # LeftOf Blk a sr # k) t = del_fix (LeftOf c p s # k) t"
      by (simp add: s del_fix_red del_fix_black del: del_l.simps)
    show "rb_del_step z ?h n p \<noteq> Inr (h', n', p')" for h' n' p'
      using \<open>\<not> RB_IS_BLACK ?h p\<close> by (simp add: rb_del_step_l [OF wf'] Let_def test3_red_final)
  qed simp
  with wf s a step show ?thesis
    by (simp add: rb_del_step_l)
qed

lemma del_progress_r:
  assumes wf: "wf_pos z h p n (RightOf c s p # k) t" and short: "short_pos (RightOf c s p # k) t"
  shows "del_progress z (RightOf c s p # k) t (rb_del_step z h n p)"
  using short_sibling(2) [OF short]
proof (elim disjE exE conjE)
  fix sl a sr
  assume s: "s = Bin Blk sl a sr"
  then have "rb_left h p = a" using wf by (simp add: wf_pos_def heap_defs)
  with wf short s show ?thesis
    by (simp add: rb_del_step_r del_test3_r)
next
  fix l x r a sl
  assume s: "s = Bin Red sl a (Bin Blk l x r)"
    and short': "short_pos (RightOf Red (Bin Blk l x r) p # RightOf Blk sl a # k) t"
  have a: "rb_left h p = a" using wf s by (simp add: wf_pos_def heap_defs)
  let ?h = "rb_rot2_r z h p (rb_parent h p) a (rb_right h a)"
  have wf': "wf_pos z ?h p n (RightOf Red (Bin Blk l x r) p # RightOf Blk sl a # k) t"
    and step: "rb_del_case2_r z h n p (rb_parent h p) a (rb_right h a) = rb_del_step z ?h n p"
    using rb_del_case2_r_ok [OF wf [unfolded s]] by simp_all
  have x: "rb_left ?h p = x" using wf' by (simp add: wf_pos_def heap_defs)
  have "\<not> RB_IS_BLACK ?h p" using wf' by (simp add: wf_pos_def RB_IS_BLACK_iff)
  have "del_progress z (RightOf c s p # k) t (rb_del_step z ?h n p)"
  proof (rule del_progress_mono)
    show "del_progress z (RightOf Red (Bin Blk l x r) p # RightOf Blk sl a # k) t (rb_del_step z ?h n p)"
      using del_test3_r [OF wf' short'] by (simp add: rb_del_step_r [OF wf'] x Let_def)
    show "del_fix (RightOf Red (Bin Blk l x r) p # RightOf Blk sl a # k) t = del_fix (RightOf c s p # k) t"
      by (simp add: s del_fix_red del_fix_black del: del_r.simps)
    show "rb_del_step z ?h n p \<noteq> Inr (h', n', p')" for h' n' p'
      using \<open>\<not> RB_IS_BLACK ?h p\<close> by (simp add: rb_del_step_r [OF wf'] Let_def test3_red_final)
  qed simp
  with wf s a step show ?thesis
    by (simp add: rb_del_step_r)
qed

lemma del_progress:
  assumes "wf_pos z h p n k t" and "k \<noteq> []" and "short_pos k t"
  shows "del_progress z k t (rb_del_step z h n p)"
proof (cases k rule: ctx_addrs.cases)
  case (2 c a r k')
  with assms have "a = p" by (simp add: wf_pos_def)
  with 2 assms show ?thesis by (simp add: del_progress_l)
next
  case (3 c l a k')
  with assms have "a = p" by (simp add: wf_pos_def)
  with 3 assms show ?thesis by (simp add: del_progress_r)
qed (use assms in simp)

lemma rb_del_loop_ok:
  "wf_pos z h p n k t \<Longrightarrow> k \<noteq> [] \<Longrightarrow> short_pos k t \<Longrightarrow>
   \<exists>h'. rb_del_loop z h n p = Some h' \<and> rb_tree_at z h' (del_fix k t)"
proof (induction "length k" arbitrary: h n p k t rule: less_induct)
  case less
  have prog: "del_progress z k t (rb_del_step z h n p)"
    using less.prems by (rule del_progress)
  show ?case
  proof (cases "rb_del_step z h n p")
    case (Inl h')
    with prog show ?thesis
      by (subst rb_del_loop.simps) (simp add: del_progress_def)
  next
    case (Inr q)
    obtain h' n' p' where q: "q = (h', n', p')" by (rule prod_cases3)
    from prog Inr q obtain k' t' where
      "wf_pos z h' p' n' k' t'" "k' \<noteq> []" "short_pos k' t'" "length k' < length k"
      and same: "del_fix k' t' = del_fix k t"
      by (auto simp: del_progress_def)
    with less.hyps have "\<exists>h''. rb_del_loop z h' n' p' = Some h'' \<and> rb_tree_at z h'' (del_fix k' t')"
      by blast
    with Inr q same show ?thesis
      by (subst rb_del_loop.simps) simp
  qed
qed


section \<open>What rebalancing leaves alone\<close>

lemma rb_keeps_if:
  "rb_keeps z A h h1 \<Longrightarrow> rb_keeps z A h h2 \<Longrightarrow> rb_keeps z A h (if b then h1 else h2)"
  by simp

lemma rb_del_test3_l_keeps:
  assumes closed: "rb_closed z A h" and blk: "RB_IS_BLACK h z" and A: "p \<in> A" "s \<in> A"
    and sl: "sl \<in> insert z A" and sr: "sr \<in> insert z A" and g: "g \<in> insert z A"
  shows "rb_keeps z A h (step_heap (rb_del_test3_l z h p g s sl sr))"
proof -
  have ne: "p \<noteq> z" "s \<noteq> z" using closed A by (auto dest: rb_closedD)
  have c6: "rb_keeps z A h (rb_del_case6_l z h p g s sl sr)" if "sr \<in> A" "sr \<noteq> z"
    unfolding rb_del_case6_l_def rb_del_case6_x_relink Let_def rb_combined
    by (intro rb_keeps_chain rb_keeps_if rb_keeps_refl; use A ne sl g that in blast)
  have c5: "rb_keeps z A h (rb_del_case5_l z h p g s sl)" if s': "sl \<in> A" "sl \<noteq> z"
    unfolding rb_del_case5_l_def rb_del_case6_x_relink Let_def rb_combined
    by (intro rb_keeps_chain rb_keeps_if rb_keeps_refl;
        use A ne sl g s' rb_closedD [OF closed s'(1)] in blast)
  have c3: "rb_keeps z A h (step_heap (rb_del_case3 z h p s))"
    using A ne by (auto simp: rb_del_case3_def Let_def intro!: rb_keeps_chain)
  have c4: "rb_keeps z A h (rb_del_case4 h p s)"
    unfolding rb_del_case4_def by (intro rb_keeps_chain rb_keeps_refl) (use A ne in auto)
  have "\<not> RB_IS_BLACK h sr \<Longrightarrow> sr \<in> A \<and> sr \<noteq> z" "\<not> RB_IS_BLACK h sl \<Longrightarrow> sl \<in> A \<and> sl \<noteq> z"
    using sl sr blk by auto
  then show ?thesis
    by (simp add: rb_del_test3_l_def c6 c5 c4 c3)
qed

lemma rb_del_test3_r_keeps:
  assumes closed: "rb_closed z A h" and blk: "RB_IS_BLACK h z" and A: "p \<in> A" "s \<in> A"
    and sl: "sl \<in> insert z A" and sr: "sr \<in> insert z A" and g: "g \<in> insert z A"
  shows "rb_keeps z A h (step_heap (rb_del_test3_r z h p g s sl sr))"
proof -
  have ne: "p \<noteq> z" "s \<noteq> z" using closed A by (auto dest: rb_closedD)
  have c6: "rb_keeps z A h (rb_del_case6_r z h p g s sl sr)" if "sl \<in> A" "sl \<noteq> z"
    unfolding rb_del_case6_r_def rb_del_case6_x_relink Let_def rb_combined
    by (intro rb_keeps_chain rb_keeps_if rb_keeps_refl; use A ne sr g that in blast)
  have c5: "rb_keeps z A h (rb_del_case5_r z h p g s sr)" if s': "sr \<in> A" "sr \<noteq> z"
    unfolding rb_del_case5_r_def rb_del_case6_x_relink Let_def rb_combined
    by (intro rb_keeps_chain rb_keeps_if rb_keeps_refl;
        use A ne sr g s' rb_closedD [OF closed s'(1)] in blast)
  have c3: "rb_keeps z A h (step_heap (rb_del_case3 z h p s))"
    using A ne by (auto simp: rb_del_case3_def Let_def intro!: rb_keeps_chain)
  have c4: "rb_keeps z A h (rb_del_case4 h p s)"
    unfolding rb_del_case4_def by (intro rb_keeps_chain rb_keeps_refl) (use A ne in auto)
  have "\<not> RB_IS_BLACK h sr \<Longrightarrow> sr \<in> A \<and> sr \<noteq> z" "\<not> RB_IS_BLACK h sl \<Longrightarrow> sl \<in> A \<and> sl \<noteq> z"
    using sl sr blk by auto
  then show ?thesis
    by (simp add: rb_del_test3_r_def c6 c5 c4 c3)
qed

text \<open>At a good position the nodes the tests touch are nodes of the tree.\<close>

lemma rb_del_step_keeps_black:
  assumes wf: "wf_pos z h p n k t" and "k = LeftOf c p s # k' \<or> k = RightOf c s p # k'"
    and s: "col s = Blk" "s \<noteq> Tip"
  shows "rb_keeps z (set (inorder (plug k t))) h (step_heap (rb_del_step z h n p))"
proof -
  let ?A = "set (inorder (plug k t))"
  have closed: "rb_closed z ?A h" using wf by (rule wf_pos_closed)
  have blk: "RB_IS_BLACK h z" using wf by (simp add: wf_pos_def RB_IS_BLACK_iff)
  obtain l a r where s_eq: "s = Bin Blk l a r" using s by (cases s) auto
  have A: "p \<in> ?A" "a \<in> ?A" using assms(2) s_eq by (auto simp: set_plug)
  note links = rb_closedD [OF closed A(1)] rb_closedD [OF closed A(2)]
  from assms(2) show ?thesis
  proof
    assume k: "k = LeftOf c p s # k'"
    with wf s_eq have "rb_right h p = a" by (simp add: wf_pos_def heap_defs)
    then show ?thesis
      using rb_del_step_l [OF wf [unfolded k]] s_eq rb_del_test3_l_keeps [OF closed blk A] links
      by (simp add: Let_def)
  next
    assume k: "k = RightOf c s p # k'"
    with wf s_eq have "rb_left h p = a" by (simp add: wf_pos_def heap_defs)
    then show ?thesis
      using rb_del_step_r [OF wf [unfolded k] \<open>s \<noteq> Tip\<close>] s_eq rb_del_test3_r_keeps [OF closed blk A] links
      by (simp add: Let_def)
  qed
qed

lemma rb_rot2_keeps:
  assumes closed: "rb_closed z A h" and "p \<in> A" "s \<in> A" "c \<in> insert z A"
  shows "rb_keeps z A h (rb_rot2_l z h p (rb_parent h p) s c)"
    and "rb_keeps z A h (rb_rot2_r z h p (rb_parent h p) s c)"
  unfolding rb_rot2_l_def rb_rot2_r_def rb_combined
  by (intro rb_keeps_chain rb_keeps_refl;
      use assms rb_closedD [OF closed] in blast)+

lemma rb_del_step_keeps_l:
  assumes wf: "wf_pos z h p n (LeftOf c p s # k) t" and short: "short_pos (LeftOf c p s # k) t"
  shows "rb_keeps z (set (inorder (plug (LeftOf c p s # k) t))) h (step_heap (rb_del_step z h n p))"
    (is "rb_keeps z ?A h _")
  using short_sibling(1) [OF short]
proof (elim disjE exE conjE)
  fix sl b sr assume "s = Bin Blk sl b sr"
  with wf show ?thesis by (intro rb_del_step_keeps_black) auto
next
  fix l x r b sr assume s: "s = Bin Red (Bin Blk l x r) b sr"
  let ?h = "rb_rot2_l z h p (rb_parent h p) b (rb_left h b)"
  have closed: "rb_closed z ?A h" using wf by (rule wf_pos_closed)
  have wf': "wf_pos z ?h p n (LeftOf Red p (Bin Blk l x r) # LeftOf Blk b sr # k) t"
    and step: "rb_del_case2_l z h n p (rb_parent h p) b (rb_left h b) = rb_del_step z ?h n p"
    using rb_del_case2_l_ok [OF wf [unfolded s]] by simp_all
  have A: "p \<in> ?A" "b \<in> ?A" using s by (auto simp: set_plug)
  have rot: "rb_keeps z ?A h ?h"
    using rb_closedD(3) [OF closed A(2)] by (intro rb_rot2_keeps closed A)
  have "set (inorder (plug (LeftOf Red p (Bin Blk l x r) # LeftOf Blk b sr # k) t)) = ?A"
    using s by (auto simp: set_plug)
  then have "rb_keeps z ?A ?h (step_heap (rb_del_step z ?h n p))"
    using rb_del_step_keeps_black [OF wf'] by auto
  moreover have "rb_right h p = b" using wf s by (simp add: wf_pos_def heap_defs)
  ultimately show ?thesis
    using rot step rb_del_step_l [OF wf] s by (auto intro: rb_keeps_trans)
qed

lemma rb_del_step_keeps_r:
  assumes wf: "wf_pos z h p n (RightOf c s p # k) t" and short: "short_pos (RightOf c s p # k) t"
  shows "rb_keeps z (set (inorder (plug (RightOf c s p # k) t))) h (step_heap (rb_del_step z h n p))"
    (is "rb_keeps z ?A h _")
  using short_sibling(2) [OF short]
proof (elim disjE exE conjE)
  fix sl b sr assume "s = Bin Blk sl b sr"
  with wf show ?thesis by (intro rb_del_step_keeps_black) auto
next
  fix l x r b sl assume s: "s = Bin Red sl b (Bin Blk l x r)"
  let ?h = "rb_rot2_r z h p (rb_parent h p) b (rb_right h b)"
  have closed: "rb_closed z ?A h" using wf by (rule wf_pos_closed)
  have wf': "wf_pos z ?h p n (RightOf Red (Bin Blk l x r) p # RightOf Blk sl b # k) t"
    and step: "rb_del_case2_r z h n p (rb_parent h p) b (rb_right h b) = rb_del_step z ?h n p"
    using rb_del_case2_r_ok [OF wf [unfolded s]] by simp_all
  have A: "p \<in> ?A" "b \<in> ?A" using s by (auto simp: set_plug)
  have rot: "rb_keeps z ?A h ?h"
    using rb_closedD(4) [OF closed A(2)] by (intro rb_rot2_keeps closed A)
  have "set (inorder (plug (RightOf Red (Bin Blk l x r) p # RightOf Blk sl b # k) t)) = ?A"
    using s by (auto simp: set_plug)
  then have "rb_keeps z ?A ?h (step_heap (rb_del_step z ?h n p))"
    using rb_del_step_keeps_black [OF wf'] by auto
  moreover have "rb_left h p = b" using wf s by (simp add: wf_pos_def heap_defs)
  ultimately show ?thesis
    using rot step rb_del_step_r [OF wf] s by (auto intro: rb_keeps_trans)
qed

lemma rb_del_step_keeps:
  assumes "wf_pos z h p n k t" and "k \<noteq> []" and "short_pos k t"
  shows "rb_keeps z (set (inorder (plug k t))) h (step_heap (rb_del_step z h n p))"
proof (cases k rule: ctx_addrs.cases)
  case (2 c a s k')
  with assms have "a = p" by (simp add: wf_pos_def)
  with 2 assms show ?thesis by (simp only: rb_del_step_keeps_l)
next
  case (3 c s a k')
  with assms have "a = p" by (simp add: wf_pos_def)
  with 3 assms show ?thesis by (simp only: rb_del_step_keeps_r)
qed (use assms in simp)

lemma rb_del_loop_keeps:
  "wf_pos z h p n k t \<Longrightarrow> k \<noteq> [] \<Longrightarrow> short_pos k t \<Longrightarrow> rb_del_loop z h n p = Some h' \<Longrightarrow>
   rb_keeps z (set (inorder (plug k t))) h h'"
proof (induction "length k" arbitrary: h n p k t rule: less_induct)
  case less
  let ?A = "set (inorder (plug k t))"
  have keep: "rb_keeps z ?A h (step_heap (rb_del_step z h n p))"
    using less.prems by (intro rb_del_step_keeps)
  have prog: "del_progress z k t (rb_del_step z h n p)"
    using less.prems by (intro del_progress)
  show ?case
  proof (cases "rb_del_step z h n p")
    case (Inl g)
    with keep less.prems(4) show ?thesis
      by (subst (asm) rb_del_loop.simps) simp
  next
    case (Inr q)
    obtain g n' p' where q: "q = (g, n', p')" by (rule prod_cases3)
    from prog Inr q obtain k' t' where
      t': "wf_pos z g p' n' k' t'" "k' \<noteq> []" "short_pos k' t'" "length k' < length k"
      and same: "del_fix k' t' = del_fix k t"
      by (auto simp: del_progress_def)
    have "inorder (plug k' t') = inorder (plug k t)"
      using inorder_del_fix [of k t] inorder_del_fix [of k' t'] same
      by (simp add: inorder_plug)
    moreover have "rb_del_loop z g n' p' = Some h'"
      using less.prems(4) Inr q by (subst (asm) rb_del_loop.simps) simp
    ultimately have "rb_keeps z ?A g h'"
      using less.hyps [OF t'(4) t'(1-3)] by simp
    with keep Inr q show ?thesis by (auto intro: rb_keeps_trans)
  qed
qed


end
