(* ===== verification/RB_Remove.thy ===== *)
theory RB_Remove
  imports RB_Rebalance
begin

text \<open>
  The red-black tree library, part five: \<^verbatim>\<open>rb_delete\<close> and \<^verbatim>\<open>rb_replace\<close> on well-linked red-black
  trees. \<open>del_at\<close> is deletion as a function on positions; \<open>rb_delete_correct\<close> says that the
  code implements it, returns the neighbour it promises, keeps every other heap cell and every
  user bit, and leaves the removed node pointing at the null node.
\<close>

section \<open>Deletion as a function on positions\<close>

text \<open>
  The node to remove sits at the position \<open>k\<close> with colour \<open>c\<close> and subtrees \<open>l\<close>, \<open>r\<close>.
  \<open>max_pos\<close> is the descent to the in-order predecessor: the path inside \<open>l\<close>, the colour
  and left subtree of the node found, and its address. \<open>del_hole\<close> closes the hole left by a
  node of colour \<open>c\<close> whose only subtree is \<open>t\<close>.
\<close>

fun max_pos :: "ctx \<Rightarrow> ptree \<Rightarrow> ctx \<times> clr \<times> ptree \<times> addr" where
  "max_pos k Tip = (k, Blk, Tip, NULL)"
| "max_pos k (Bin c l a r) =
     (if r = Tip then (k, c, l, a) else max_pos (RightOf c l a # k) r)"

definition del_hole :: "ctx \<Rightarrow> clr \<Rightarrow> ptree \<Rightarrow> ptree" where
  "del_hole k c t =
     (if c = Blk then if t = Tip then del_fix k Tip else plug k (paint Blk t) else plug k t)"

definition del_at :: "ctx \<Rightarrow> ptree \<Rightarrow> ptree" where
  "del_at k t =
     (case t of
        Tip \<Rightarrow> plug k Tip
      | Bin c l n r \<Rightarrow>
          if l \<noteq> Tip then
            (case max_pos [] l of (ks, cm, ml, m) \<Rightarrow> del_hole (ks @ LeftOf c m r # k) cm ml)
          else
            (case r of
               Tip \<Rightarrow> if k = [] then Tip else del_hole k c Tip
             | Bin cm rl m mr \<Rightarrow> del_hole (RightOf c Tip m # k) cm mr))"

text \<open>The parent address of a position, and the neighbour that \<^verbatim>\<open>rb_delete\<close> returns.\<close>

fun ctx_par :: "addr \<Rightarrow> ctx \<Rightarrow> addr" where
  "ctx_par z [] = z"
| "ctx_par z (LeftOf c a r # k) = a"
| "ctx_par z (RightOf c l a # k) = a"

definition del_nb :: "addr \<Rightarrow> ctx \<Rightarrow> ptree \<Rightarrow> addr" where
  "del_nb z k t =
     (case t of
        Tip \<Rightarrow> z
      | Bin c l n r \<Rightarrow>
          if l \<noteq> Tip then last (inorder l) else if r \<noteq> Tip then hd (inorder r) else ctx_par z k)"

lemma ctx_at_par: "ctx_at z h p x k \<Longrightarrow> p = ctx_par z k"
  by (cases k rule: ctx_addrs.cases) auto

lemma wf_pos_iff:
  "wf_pos z h p n k t \<longleftrightarrow> rb_tree_at z h (plug k t) \<and> p = ctx_par z k \<and> n = root_of z t"
  by (auto simp: wf_pos_def rb_tree_at_def tree_at_plug dest: ctx_at_par tree_at_root)

lemma max_pos_plug:
  "t \<noteq> Tip \<Longrightarrow> max_pos k t = (ks, cm, ml, m) \<Longrightarrow> plug ks (Bin cm ml m Tip) = plug k t"
  by (induction k t rule: max_pos.induct) (auto split: if_splits)

lemma inorder_Nil [simp]: "inorder t = [] \<longleftrightarrow> t = Tip"
  by (cases t) auto

lemma max_pos_last:
  "t \<noteq> Tip \<Longrightarrow> max_pos k t = (ks, cm, ml, m) \<Longrightarrow> m = last (inorder t)"
  by (induction k t rule: max_pos.induct) (auto split: if_splits)

lemma max_pos_frames:
  "t \<noteq> Tip \<Longrightarrow> max_pos k t = (ks, cm, ml, m) \<Longrightarrow>
   (case k of [] \<Rightarrow> True | LeftOf c a r # k' \<Rightarrow> False | _ \<Rightarrow> True) \<Longrightarrow>
   ks = [] \<or> (\<exists>c l a k'. ks = RightOf c l a # k')"
  by (induction k t rule: max_pos.induct) (auto split: if_splits list.splits pframe.splits)

text \<open>In a red-black tree a node without left child has at most one red leaf on the right.\<close>

lemma only_right_child:
  assumes "bal (Bin c Tip n r)" and "red_ok (Bin c Tip n r)" and "r \<noteq> Tip"
  shows "\<exists>m. r = Bin Red Tip m Tip"
proof -
  obtain c' l m r' where r: "r = Bin c' l m r'" using assms(3) by (cases r) auto
  moreover from this assms have "c' = Red" "col l = Blk" "col r' = Blk" "bh l = 0" "bh r' = 0"
    by (auto split: if_splits)
  moreover have "t = Tip" if "col t = Blk" "bh t = 0" for t
    using that by (cases t) auto
  ultimately show ?thesis by auto
qed

lemma inorder_del_hole: "inorder (del_hole k c t) = ctx_pre k @ inorder t @ ctx_post k"
  by (simp add: del_hole_def inorder_del_fix inorder_plug)

lemma rbt_del_hole:
  assumes "rbt (plug k (Bin c l m r))" and "l = t \<and> r = Tip \<or> l = Tip \<and> r = t" and "k \<noteq> []"
  shows "rbt (del_hole k c t)"
proof (cases "c = Blk \<and> t = Tip")
  case True
  with assms have "short_pos k Tip"
    by (auto simp: rbt_plug short_pos_def)
  moreover have "root_blk k" using assms(1) by (simp add: rbt_plug)
  ultimately show ?thesis using True by (simp add: del_hole_def rbt_del_fix)
next
  case False
  have "bh t = 0" "red_ok t" "bal t"
    using assms by (auto simp: rbt_plug)
  then have "c = Blk \<Longrightarrow> col t = Red"
    using False by (cases t) (auto split: if_splits)
  with assms False \<open>bh t = 0\<close> show ?thesis
    by (auto simp: del_hole_def rbt_plug bh_paint_Blk red_ok_paint_Blk dest: ctx_red_Blk)
qed

lemma inorder_max_pos:
  assumes "t \<noteq> Tip" and "max_pos [] t = (ks, cm, ml, m)"
  shows "inorder t = ctx_pre ks @ inorder ml @ m # ctx_post ks"
  using max_pos_plug [OF assms] inorder_plug [of ks "Bin cm ml m Tip"] by simp

lemma ctx_pre_append: "ctx_pre (k @ k') = ctx_pre k' @ ctx_pre k"
  by (induction k rule: ctx_pre.induct) auto

lemma ctx_post_append: "ctx_post (k @ k') = ctx_post k @ ctx_post k'"
  by (induction k rule: ctx_post.induct) auto

lemma max_pos_post: "t \<noteq> Tip \<Longrightarrow> max_pos k t = (ks, cm, ml, m) \<Longrightarrow> ctx_post k = [] \<Longrightarrow> ctx_post ks = []"
  by (induction k t rule: max_pos.induct) (auto split: if_splits)

lemma inorder_del_at:
  assumes "rbt (plug k (Bin c l n r))"
  shows "inorder (del_at k (Bin c l n r)) = ctx_pre k @ inorder l @ inorder r @ ctx_post k"
proof (cases "l = Tip")
  case True
  with assms only_right_child [of c n r] show ?thesis
    by (auto simp: del_at_def inorder_del_hole rbt_plug split: ptree.split)
next
  case False
  obtain ks cm ml m where mp: "max_pos [] l = (ks, cm, ml, m)" by (rule prod_cases4)
  with False show ?thesis
    using inorder_max_pos [OF False mp] max_pos_post [OF False mp]
    by (simp add: del_at_def inorder_del_hole ctx_pre_append ctx_post_append)
qed

lemma rbt_del_at:
  assumes "rbt (plug k (Bin c l n r))"
  shows "rbt (del_at k (Bin c l n r))"
proof (cases "l = Tip")
  case True
  show ?thesis
  proof (cases "r = Tip")
    case True
    with assms \<open>l = Tip\<close> show ?thesis
      by (auto simp: del_at_def rbt_def [of Tip] intro: rbt_del_hole)
  next
    case False
    then obtain m where r: "r = Bin Red Tip m Tip"
      using only_right_child [of c n r] assms \<open>l = Tip\<close> by (auto simp: rbt_plug)
    have "rbt (plug (RightOf c Tip m # k) (Bin Red Tip m Tip))"
      using assms \<open>l = Tip\<close> r by (auto simp: rbt_plug split: if_splits)
    then have "rbt (del_hole (RightOf c Tip m # k) Red Tip)"
      by (rule rbt_del_hole) auto
    then show ?thesis using \<open>l = Tip\<close> r by (simp add: del_at_def)
  qed
next
  case False
  obtain ks cm ml m where mp: "max_pos [] l = (ks, cm, ml, m)" by (rule prod_cases4)
  have "rbt (plug (ks @ LeftOf c m r # k) (Bin cm ml m Tip))"
    using assms max_pos_plug [OF False mp] by (simp add: plug_append rbt_plug)
  then have "rbt (del_hole (ks @ LeftOf c m r # k) cm ml)"
    by (rule rbt_del_hole) auto
  with False mp show ?thesis by (simp add: del_at_def)
qed


section \<open>The pieces of the code\<close>

lemma rb_rightmost_ok:
  "tree_at z h p x t \<Longrightarrow> t \<noteq> Tip \<Longrightarrow> max_pos k t = (ks, cm, ml, m) \<Longrightarrow> rb_rightmost z h x = Some m"
proof (induction k t arbitrary: p x rule: max_pos.induct)
  case (2 k c l a r)
  have "rb_right h x = root_of z r" "r \<noteq> Tip \<longrightarrow> root_of z r \<noteq> z"
    using 2 by (auto simp: rb_right_def dest: tree_at_root) (cases r; auto)
  with 2 show ?case
    by (subst rb_rightmost.simps) (auto simp: rb_null_def Let_def rb_right_def split: if_splits)
qed simp

lemma RB_COLOR_clr [simp]: "RB_COLOR h n = clr_of (h n)"
  by (simp add: RB_COLOR_def clr_of_def and_one_zero_iff)

lemma rb_tree_at_reset:
  "rb_tree_at z h t \<Longrightarrow> n \<notin> set (inorder t) \<Longrightarrow> n \<noteq> z \<Longrightarrow> rb_tree_at z (rb_del_reset z h n) t"
  by (simp add: rb_tree_at_def rb_del_reset_def frame)

lemma rb_keeps_reset: "n \<in> A \<Longrightarrow> n \<noteq> z \<Longrightarrow> rb_keeps z A h (rb_del_reset z h n)"
  by (auto simp: rb_keeps_def rb_del_reset_def)

text \<open>The end of the function: repair of the colours around the hole, and the reset.\<close>

lemma rb_del_finish_ok:
  assumes tree: "rb_tree_at z h (plug k t)" and "k \<noteq> []"
    and short: "c = Blk \<Longrightarrow> t = Tip \<Longrightarrow> short_pos k Tip"
  shows "\<exists>h'. (if c = Blk then
                if root_of z t = rb_null z then rb_delete_rebalance z h (ctx_par z k)
                else Some (RB_SET_C h (root_of z t) Blk)
              else Some h) = Some h' \<and>
    rb_tree_at z h' (del_hole k c t) \<and> rb_keeps z (set (inorder (plug k t))) h h'"
proof -
  have wf: "wf_pos z h (ctx_par z k) (root_of z t) k t"
    using tree by (simp add: wf_pos_iff)
  have ne: "root_of z t = z \<longleftrightarrow> t = Tip"
    using tree by (cases t) (auto simp: rb_tree_at_def set_plug)
  consider "c = Red" | "c = Blk" "t \<noteq> Tip" | "c = Blk" "t = Tip" by (cases c) auto
  then show ?thesis
  proof cases
    case 1
    with tree show ?thesis by (simp add: del_hole_def)
  next
    case 2
    then obtain c' l a r where t: "t = Bin c' l a r" by (cases t) auto
    have "rb_tree_at z (RB_SET_C h a Blk) (plug k (Bin Blk l a r))"
      using wf t by (intro rb_tree_at_plugI; simp add: pos_facts; elim conjE; simp add: heap_defs frame)
    moreover have "rb_keeps z (set (inorder (plug k t))) h (RB_SET_C h a Blk)"
      using t ne by (auto simp: set_plug intro!: rb_keeps_chain)
    ultimately show ?thesis using 2 t ne by (simp add: del_hole_def rb_null_def)
  next
    case 3
    with wf have wf': "wf_pos z h (ctx_par z k) z k Tip" by simp
    from rb_del_loop_ok [OF wf' \<open>k \<noteq> []\<close>] short 3 obtain h' where
      h': "rb_del_loop z h z (ctx_par z k) = Some h'" "rb_tree_at z h' (del_fix k Tip)"
      by auto
    with rb_del_loop_keeps [OF wf' \<open>k \<noteq> []\<close>] short 3
    have "rb_keeps z (set (inorder (plug k t))) h h'" by auto
    with h' 3 show ?thesis by (simp add: del_hole_def rb_delete_rebalance_def rb_null_def)
  qed
qed

lemma rb_del_adjust_parent_ok:
  assumes tree: "rb_tree_at z (rb_relink z h p n m) (plug K t)" and "K \<noteq> []"
    and par: "t_idx = ctx_par z K" and c: "c_idx = root_of z t"
    and short: "c = Blk \<Longrightarrow> t = Tip \<Longrightarrow> short_pos K Tip"
    and n: "n \<notin> set (inorder (plug K t))" "n \<noteq> z"
    and keeps: "rb_keeps z A h0 h" "n \<in> A" "p \<in> insert z A" "set (inorder (plug K t)) \<subseteq> A"
  shows "\<exists>h'. rb_del_adjust_parent z h n p m c_idx t_idx c kk = Some (h', kk) \<and>
    rb_tree_at z h' (del_hole K c t) \<and> rb_keeps z A h0 h' \<and>
    rb_parent h' n = z \<and> rb_left h' n = z \<and> rb_right h' n = z"
proof -
  let ?h = "rb_relink z h p n m"
  obtain h' where h': "(if c = Blk then
                if root_of z t = rb_null z then rb_delete_rebalance z ?h (ctx_par z K)
                else Some (RB_SET_C ?h (root_of z t) Blk)
              else Some ?h) = Some h'"
    and t': "rb_tree_at z h' (del_hole K c t)"
    and k': "rb_keeps z (set (inorder (plug K t))) ?h h'"
    using rb_del_finish_ok [OF tree \<open>K \<noteq> []\<close> short] by blast
  have "rb_keeps z A h0 ?h"
    using keeps(1,3) by (rule rb_keeps_chain)
  also have "rb_keeps z A ?h h'"
    using k' keeps(4) by (rule rb_keeps_mono)
  also have "rb_keeps z A h' (rb_del_reset z h' n)"
    using keeps(2) n(2) by (rule rb_keeps_reset)
  finally have "rb_keeps z A h0 (rb_del_reset z h' n)" .
  moreover have "set (inorder (del_hole K c t)) = set (inorder (plug K t))"
    by (auto simp: inorder_del_hole inorder_plug)
  then have "rb_tree_at z (rb_del_reset z h' n) (del_hole K c t)"
    using t' n by (intro rb_tree_at_reset) auto
  moreover have "rb_del_adjust_parent z h n p m c_idx t_idx c kk = Some (rb_del_reset z h' n, kk)"
    unfolding rb_del_adjust_parent_def Let_def rb_relink_def [symmetric] par c h' by simp
  ultimately show ?thesis
    by (simp add: rb_del_reset_def accessors)
qed

text \<open>Replacing a node by another one with the same links, as \<^verbatim>\<open>rb_delete\<close> orders the stores.\<close>

lemma RB_IS_BLACK_col: "(if RB_IS_BLACK h n then RB_SET_C h m Blk else RB_SET_C h m Red) =
    RB_SET_C h m (clr_of (h n))"
  by (cases "clr_of (h n)") (simp_all add: RB_IS_BLACK_iff)

lemma del_move_ok:
  assumes "wf_pos z h p n k (Bin c l n r)" and "m \<notin> set (inorder (plug k (Bin c l n r)))" and "m \<noteq> z"
  shows "rb_tree_at z
    (rb_relink z (RB_SET_C (RB_SET_P (RB_SET_P (RB_SET_P_L_R h m p (rb_left h n) (rb_right h n))
       (rb_left h n) m) (rb_right h n) m) m c) p n m) (plug k (Bin c l m r))"
  by (rule rb_tree_at_relinkI,
      (use assms in \<open>cases c; cases l; cases r; simp add: pos_facts\<close>; elim conjE; simp add: heap_defs frame),
      (use assms in \<open>simp add: pos_facts\<close>; auto))

lemma del_move_left_ok:
  assumes "wf_pos z h p n k (Bin c (Bin cm ml m Tip) n r)"
  shows "rb_tree_at z
    (rb_relink z (RB_SET_C (RB_SET_P (RB_SET_P_R h m p (rb_right h n)) (rb_right h n) m) m c) p n m)
    (plug k (Bin c ml m r))"
  by (rule rb_tree_at_relinkI,
      (use assms in \<open>cases c; cases r; simp add: pos_facts\<close>; elim conjE; simp add: heap_defs frame),
      (use assms in \<open>simp add: pos_facts\<close>; auto))

lemma del_move_right_ok:
  assumes "wf_pos z h p n k (Bin c Tip n (Bin cm Tip m mr))"
  shows "rb_tree_at z
    (rb_relink z (RB_SET_C (RB_SET_P (RB_SET_P_L h m p (rb_left h n)) (rb_left h n) m) m c) p n m)
    (plug k (Bin c Tip m mr))"
  by (rule rb_tree_at_relinkI,
      (use assms in \<open>cases c; simp add: pos_facts\<close>; elim conjE; simp add: heap_defs frame),
      (use assms in \<open>simp add: pos_facts\<close>; auto))

text \<open>Unlinking the predecessor from its own place.\<close>

lemma del_unlink_ok:
  assumes "wf_pos z h t m (RightOf cf lf t # k) (Bin cm ml m Tip)"
  shows "rb_tree_at z (RB_SET_P (RB_SET_R h t (rb_left h m)) (rb_left h m) t)
    (plug (RightOf cf lf t # k) ml)"
  by (rule rb_tree_at_plugI [where p = t and x = "rb_left h m"];
      (use assms in \<open>cases ml; simp add: pos_facts\<close>; (elim conjE)?; simp add: heap_defs frame))


section \<open>Deletion\<close>

text \<open>What \<^verbatim>\<open>rb_delete\<close> promises of the node \<open>n\<close> at the position \<open>k\<close>.\<close>

definition rb_delete_spec ::
    "addr \<Rightarrow> rb_heap \<Rightarrow> ctx \<Rightarrow> ptree \<Rightarrow> addr \<Rightarrow> (rb_heap \<times> addr) option \<Rightarrow> bool" where
  "rb_delete_spec z h k t n res \<longleftrightarrow>
     (\<exists>h'. res = Some (h', del_nb z k t) \<and> rb_tree_at z h' (del_at k t) \<and>
       rb_keeps z (set (inorder (plug k t))) h h' \<and>
       rb_parent h' n = z \<and> rb_left h' n = z \<and> rb_right h' n = z)"

lemma short_pos_removed:
  "rbt (plug k (Bin Blk l m r)) \<Longrightarrow> l = Tip \<Longrightarrow> r = Tip \<Longrightarrow> short_pos k Tip"
  by (simp add: rbt_plug short_pos_def)

lemma rb_delete_leaf:
  assumes wf: "wf_pos z h p n k (Bin c Tip n Tip)" and rbt: "rbt (plug k (Bin c Tip n Tip))"
    and "k \<noteq> []" and "p \<noteq> NULL"
  shows "rb_delete_spec z h k (Bin c Tip n Tip) n (rb_delete z h n)"
proof -
  let ?A = "set (inorder (plug k (Bin c Tip n Tip)))"
  have "rb_tree_at z (rb_relink z h p n z) (plug k Tip)"
    using wf by (intro rb_tree_at_relinkI) (auto simp: pos_facts)
  moreover have "p = ctx_par z k" "p \<noteq> z"
    using wf \<open>k \<noteq> []\<close> by (auto simp: wf_pos_def dest: ctx_at_par ctx_at_Nil_iff)
  moreover have "p \<in> insert z ?A" "n \<noteq> z" "n \<notin> set (inorder (plug k Tip))"
    using wf wf_pos_closed(2) [OF wf] by (auto simp: pos_facts)
  ultimately have "\<exists>h'. rb_del_adjust_parent z h n p z z p c p = Some (h', p) \<and>
      rb_tree_at z h' (del_hole k c Tip) \<and> rb_keeps z ?A h h' \<and>
      rb_parent h' n = z \<and> rb_left h' n = z \<and> rb_right h' n = z"
    using rbt \<open>k \<noteq> []\<close> by (intro rb_del_adjust_parent_ok) (auto simp: set_plug intro: short_pos_removed)
  moreover have "rb_delete z h n = rb_del_adjust_parent z h n p z z p c p"
    using wf \<open>p \<noteq> NULL\<close> \<open>p \<noteq> z\<close>
    by (simp add: rb_delete_def wf_pos_def accessors Let_def)
  ultimately show ?thesis
    using \<open>k \<noteq> []\<close> \<open>p = ctx_par z k\<close>
    by (simp add: rb_delete_spec_def del_at_def del_nb_def)
qed

lemma rb_delete_lone:
  assumes wf: "wf_pos z h p n [] (Bin c Tip n Tip)" and "p \<noteq> NULL"
  shows "rb_delete_spec z h [] (Bin c Tip n Tip) n (rb_delete z h n)"
proof -
  have "rb_tree_at z (rb_del_reset z (RB_SET_ROOT z h z) n) Tip"
    using wf by (simp add: rb_tree_at_def wf_pos_def rb_del_reset_def heap_defs)
  moreover have "rb_keeps z {n} h (rb_del_reset z (RB_SET_ROOT z h z) n)"
    using wf by (intro rb_keeps_trans [OF rb_keeps_chain(6) rb_keeps_reset]) (auto simp: wf_pos_def)
  moreover have "rb_delete z h n = Some (rb_del_reset z (RB_SET_ROOT z h z) n, z)"
    using wf \<open>p \<noteq> NULL\<close> by (simp add: rb_delete_def wf_pos_def accessors Let_def)
  ultimately show ?thesis
    by (simp add: rb_delete_spec_def del_at_def del_nb_def rb_del_reset_def accessors)
qed

lemma rb_delete_right:
  assumes wf: "wf_pos z h p n k (Bin c Tip n (Bin Red Tip m Tip))" and "p \<noteq> NULL"
  shows "rb_delete_spec z h k (Bin c Tip n (Bin Red Tip m Tip)) n (rb_delete z h n)"
proof -
  let ?A = "set (inorder (plug k (Bin c Tip n (Bin Red Tip m Tip))))"
  let ?h = "RB_SET_C (RB_SET_P (RB_SET_P_L h m p (rb_left h n)) (rb_left h n) m) m c"
  have "rb_tree_at z (rb_relink z ?h p n m) (plug (RightOf c Tip m # k) Tip)"
    using del_move_right_ok [OF wf] by simp
  moreover have n: "p \<in> insert z ?A" "n \<noteq> z" "n \<notin> set (inorder (plug (RightOf c Tip m # k) Tip))"
      "m \<in> ?A" "m \<noteq> z" "rb_left h n = z" "n \<in> ?A" "n \<noteq> m"
    using wf wf_pos_closed(2) [OF wf] by (auto simp: pos_facts accessors)
  moreover have "rb_keeps z ?A h ?h"
    unfolding rb_combined using n by (intro rb_keeps_chain rb_keeps_refl) simp_all
  ultimately have "\<exists>h'. rb_del_adjust_parent z ?h n p m z m Red m = Some (h', m) \<and>
      rb_tree_at z h' (del_hole (RightOf c Tip m # k) Red Tip) \<and> rb_keeps z ?A h h' \<and>
      rb_parent h' n = z \<and> rb_left h' n = z \<and> rb_right h' n = z"
    by (intro rb_del_adjust_parent_ok) (auto simp: set_plug)
  moreover have "rb_leftmost z h m = Some m"
    using wf by (subst rb_leftmost.simps) (simp add: wf_pos_def accessors)
  then have "rb_delete z h n = rb_del_adjust_parent z ?h n p m z m Red m"
    using wf \<open>p \<noteq> NULL\<close> n
    by (simp add: rb_delete_def rb_del_replace_def wf_pos_def accessors Let_def RB_IS_BLACK_col)
      (simp add: heap_defs)
  ultimately show ?thesis
    by (simp add: rb_delete_spec_def del_at_def del_nb_def)
qed


text \<open>The predecessor is the left child of \<open>n\<close>.\<close>

lemma rb_delete_left_child:
  assumes wf: "wf_pos z h p n k (Bin c (Bin cm ml m Tip) n r)"
    and rbt: "rbt (plug k (Bin c (Bin cm ml m Tip) n r))" and "p \<noteq> NULL"
  shows "rb_delete_spec z h k (Bin c (Bin cm ml m Tip) n r) n (rb_delete z h n)"
proof -
  let ?A = "set (inorder (plug k (Bin c (Bin cm ml m Tip) n r)))"
  let ?h = "RB_SET_C (RB_SET_P (RB_SET_P_R h m p (rb_right h n)) (rb_right h n) m) m c"
  have "rb_tree_at z (rb_relink z ?h p n m) (plug (LeftOf c m r # k) ml)"
    using del_move_left_ok [OF wf] by simp
  moreover have n: "p \<in> insert z ?A" "n \<noteq> z" "n \<notin> set (inorder (plug (LeftOf c m r # k) ml))"
      "m \<in> ?A" "m \<noteq> z" "n \<in> ?A" "n \<noteq> m"
    using wf wf_pos_closed(2) [OF wf] by (auto simp: pos_facts)
  moreover have "rb_right h n \<in> insert z ?A"
    by (rule rb_closedD(4) [OF wf_pos_closed(1) [OF wf] n(6)])
  then have "rb_keeps z ?A h ?h"
    unfolding rb_combined using n by (intro rb_keeps_chain rb_keeps_refl) simp_all
  moreover have "rbt (plug (LeftOf c m r # k) (Bin cm ml m Tip))"
    using rbt by (simp add: rbt_plug)
  moreover have c: "rb_left h m = root_of z ml"
    using wf by (simp add: wf_pos_def rb_left_def) (blast dest: tree_at_root)
  ultimately have "\<exists>h'. rb_del_adjust_parent z ?h n p m (rb_left h m) m cm m = Some (h', m) \<and>
      rb_tree_at z h' (del_hole (LeftOf c m r # k) cm ml) \<and> rb_keeps z ?A h h' \<and>
      rb_parent h' n = z \<and> rb_left h' n = z \<and> rb_right h' n = z"
    using wf by (intro rb_del_adjust_parent_ok) (auto simp: set_plug intro: short_pos_removed)
  moreover have "rb_rightmost z h m = Some m"
    using wf by (subst rb_rightmost.simps) (simp add: wf_pos_def accessors)
  moreover have "clr_of (RB_SET_P (RB_SET_P_R h m p (rb_right h n)) (rb_right h n) m n) = c"
    using wf n by (simp add: heap_defs wf_pos_def)
  ultimately show ?thesis
    using wf \<open>p \<noteq> NULL\<close> n
    by (simp add: rb_delete_def rb_del_replace_def wf_pos_def accessors Let_def RB_IS_BLACK_col
        rb_delete_spec_def del_at_def del_nb_def)
qed

text \<open>The predecessor is further down: it is unlinked first and then takes the place of \<open>n\<close>.\<close>

lemma ctx_addrs_append [simp]: "ctx_addrs (k @ k') = ctx_addrs k @ ctx_addrs k'"
  by (induction k rule: ctx_addrs.induct) auto

lemma rb_delete_left_deep:
  assumes wf: "wf_pos z h p n k (Bin c l n r)" and rbt: "rbt (plug k (Bin c l n r))"
    and mp: "l \<noteq> Tip" "max_pos [] l = (RightOf ct lt t # ks, cm, ml, m)" and "p \<noteq> NULL"
  shows "rb_delete_spec z h k (Bin c l n r) n (rb_delete z h n)"
proof -
  let ?A = "set (inorder (plug k (Bin c l n r)))"
  let ?K = "\<lambda>n. (RightOf ct lt t # ks) @ LeftOf c n r # k"
  let ?c = "rb_left h m"
  let ?h1 = "RB_SET_P (RB_SET_R h t ?c) ?c t"
  let ?h2 = "RB_SET_C (RB_SET_P (RB_SET_P (RB_SET_P_L_R ?h1 m p (rb_left h n) (rb_right h n))
      (rb_left h n) m) (rb_right h n) m) m c"
  have split: "plug (?K n) (Bin cm ml m Tip) = plug k (Bin c l n r)"
    using max_pos_plug [OF mp] by (simp add: plug_append)
  have wfm: "wf_pos z h t m (?K n) (Bin cm ml m Tip)"
    using wf split by (simp add: wf_pos_iff)
  have addrs: "set (inorder (plug (?K n) (Bin cm ml m Tip))) = ?A" using split by simp
  have "distinct (z # inorder (plug (?K n) (Bin cm ml m Tip)))"
    using wfm by (simp add: wf_pos_def)
  then have n: "n \<noteq> z" "m \<noteq> z" "t \<noteq> z" "n \<noteq> m" "t \<noteq> n" "m \<noteq> t" "n \<notin> set (inorder (plug (?K m) ml))"
    by (simp_all only: distinct.simps distinct_plug set_plug) auto
  have "n \<in> set (inorder (plug (?K n) (Bin cm ml m Tip)))"
       "m \<in> set (inorder (plug (?K n) (Bin cm ml m Tip)))"
       "t \<in> set (inorder (plug (?K n) (Bin cm ml m Tip)))"
    by (simp_all only: set_plug) auto
  then have A: "p \<in> insert z ?A" "n \<in> ?A" "m \<in> ?A" "t \<in> ?A"
    using wf_pos_closed(2) [OF wf] addrs by simp_all
  have c_idx: "?c = root_of z ml"
    using wfm by (simp add: wf_pos_def rb_left_def) (blast dest: tree_at_root)
  have h1: "rb_tree_at z ?h1 (plug (?K n) ml)"
    using del_unlink_ok [of z h t m ct lt "ks @ LeftOf c n r # k" cm ml] wfm by simp
  then have wf1: "wf_pos z ?h1 p n k (Bin c (plug (RightOf ct lt t # ks) ml) n r)"
    using wf by (simp add: plug_append wf_pos_iff)
  have links: "rb_left ?h1 n = rb_left h n" "rb_right ?h1 n = rb_right h n"
    using n by (auto simp: heap_defs)
  have "m \<notin> set (inorder (plug (?K n) ml))"
    using wfm n by (simp add: wf_pos_def distinct_plug set_plug)
  then have "rb_tree_at z (rb_relink z ?h2 p n m) (plug (?K m) ml)"
    using del_move_ok [OF wf1, of m] n links by (simp add: plug_append)
  moreover have "rb_keeps z ?A h ?h2"
    unfolding rb_combined
    by (intro rb_keeps_chain rb_keeps_refl)
      (use n A rb_closedD [OF wf_pos_closed(1) [OF wf]] in blast)+
  moreover have "rbt (plug (?K m) (Bin cm ml m Tip))"
    using rbt max_pos_plug [OF mp] by (simp add: plug_append rbt_plug)
  moreover have "set (inorder (plug (?K m) ml)) \<subseteq> ?A"
    using addrs by (auto simp: set_plug)
  ultimately have "\<exists>h'. rb_del_adjust_parent z ?h2 n p m ?c t cm m = Some (h', m) \<and>
      rb_tree_at z h' (del_hole (?K m) cm ml) \<and> rb_keeps z ?A h h' \<and>
      rb_parent h' n = z \<and> rb_left h' n = z \<and> rb_right h' n = z"
    using n A c_idx by (intro rb_del_adjust_parent_ok) (auto intro: short_pos_removed)
  moreover have "rb_delete z h n = rb_del_adjust_parent z ?h2 n p m ?c t cm m"
  proof -
    have "tree_at z h n (rb_left h n) l" "rb_left h n \<noteq> z" "rb_parent h n = p"
      using wf mp(1) by (cases l; simp add: wf_pos_def accessors)+
    moreover from this have "rb_rightmost z h (rb_left h n) = Some m"
      using mp by (intro rb_rightmost_ok)
    moreover have "rb_parent h m = t" "clr_of (h m) = cm"
      using wfm by (simp_all add: wf_pos_def accessors)
    moreover have "clr_of (RB_SET_P (RB_SET_P (RB_SET_P_L_R ?h1 m p (rb_left h n) (rb_right h n))
      (rb_left h n) m) (rb_right h n) m n) = c"
      using wf n by (auto simp: heap_defs wf_pos_def)
    ultimately show ?thesis
      using n \<open>p \<noteq> NULL\<close>
      by (simp add: rb_delete_def rb_del_replace_def rb_null_def Let_def RB_IS_BLACK_col)
  qed
  moreover have "m = last (inorder l)"
    using mp by (rule max_pos_last)
  ultimately show ?thesis
    using mp by (simp add: rb_delete_spec_def del_at_def del_nb_def)
qed

text \<open>All cases together.\<close>

lemma rb_delete_correct:
  assumes tree: "rb_tree_at z h (plug k (Bin c l n r))" and rbt: "rbt (plug k (Bin c l n r))"
    and null: "NULL \<notin> insert z (set (inorder (plug k (Bin c l n r))))"
  shows "rb_delete_spec z h k (Bin c l n r) n (rb_delete z h n)"
proof -
  let ?p = "ctx_par z k"
  have wf: "wf_pos z h ?p n k (Bin c l n r)"
    using tree by (simp add: wf_pos_iff)
  have p: "?p \<noteq> NULL"
    using null wf_pos_closed(2) [OF wf] by auto
  show ?thesis
  proof (cases l)
    case Tip
    show ?thesis
    proof (cases "r = Tip")
      case True
      with Tip wf rbt p show ?thesis
        by (cases "k = []") (auto intro: rb_delete_lone rb_delete_leaf)
    next
      case False
      then obtain m where "r = Bin Red Tip m Tip"
        using only_right_child [of c n r] rbt Tip by (auto simp: rbt_plug)
      with Tip wf p show ?thesis by (auto intro: rb_delete_right)
    qed
  next
    case (Bin c' l' a r')
    then have "l \<noteq> Tip" by simp
    obtain ks cm ml m where mp: "max_pos [] l = (ks, cm, ml, m)" by (rule prod_cases4)
    with max_pos_frames [OF \<open>l \<noteq> Tip\<close> mp] consider "ks = []"
      | ct lt t ks' where "ks = RightOf ct lt t # ks'" by auto
    then show ?thesis
    proof cases
      case 1
      with max_pos_plug [OF \<open>l \<noteq> Tip\<close> mp] have "l = Bin cm ml m Tip" by simp
      with wf rbt p show ?thesis by (auto intro: rb_delete_left_child)
    next
      case 2
      with mp wf rbt p \<open>l \<noteq> Tip\<close> show ?thesis by (auto intro: rb_delete_left_deep)
    qed
  qed
qed


section \<open>Deleting a node twice\<close>

text \<open>
  Deletion leaves the links of the removed node pointing at the null node, not at \<^verbatim>\<open>NULL\<close>. A
  second deletion of it therefore passes the test for membership, takes the node for the only one
  of the tree, and drops the whole tree.
\<close>

lemma rb_delete_stale:
  assumes "rb_tree_at z h t" and "n \<notin> set (inorder t)" and "n \<noteq> z" and "z \<noteq> NULL"
    and "rb_parent h n = z" and "rb_left h n = z" and "rb_right h n = z"
  shows "\<exists>h'. rb_delete z h n = Some (h', z) \<and> rb_tree_at z h' Tip"
  using assms by (simp add: rb_delete_def rb_null_def Let_def rb_tree_at_def rb_del_reset_def heap_defs)

section \<open>Replacement\<close>

lemma RB_SET_P_relink: "RB_SET_P (rb_relink z h q g x) y v = rb_relink z (RB_SET_P h y v) q g x"
  by (auto simp: rb_relink_def heap_defs fun_eq_iff)

lemma RB_SET_P_C: "RB_SET_P (RB_SET_C h m c) y v = RB_SET_C (RB_SET_P h y v) m c"
  by (cases c) (auto simp: heap_defs fun_eq_iff)

lemma rb_replace_ok:
  assumes tree: "rb_tree_at z h (plug k (Bin c l n r))" and "t \<noteq> z"
    and t: "t \<notin> set (inorder (plug k (Bin c l n r)))"
  shows "rb_tree_at z (rb_replace z h n t) (plug k (Bin c l t r))"
proof -
  let ?p = "ctx_par z k"
  have wf: "wf_pos z h ?p n k (Bin c l n r)"
    using tree by (simp add: wf_pos_iff)
  have "rb_parent h n = ?p" "clr_of (RB_SET_P_L_R h t ?p (rb_left h n) (rb_right h n) n) = c"
    using wf t by (auto simp: wf_pos_def accessors setters set_plug)
  then have "rb_replace z h n t =
    rb_relink z (RB_SET_C (RB_SET_P (RB_SET_P (RB_SET_P_L_R h t ?p (rb_left h n) (rb_right h n))
       (rb_left h n) t) (rb_right h n) t) t c) ?p n t"
    by (simp add: rb_replace_def Let_def RB_IS_BLACK_col rb_relink_def [symmetric] RB_SET_P_relink RB_SET_P_C)
  then show ?thesis
    using del_move_ok [OF wf t \<open>t \<noteq> z\<close>] by simp
qed


end
