(* ===== verification/RB_Ops.thy ===== *)
theory RB_Ops
  imports RB_Remove
begin

text \<open>
  What the clients of the red-black tree library rely on, stated over the in-order list of nodes:
  insertion below the position that a descent finds, deletion of a node with the neighbour it
  returns, and replacement of a node.
\<close>

section \<open>Nodes of a tree\<close>

lemma ctx_par_first: "k \<noteq> [] \<Longrightarrow> ctx_pre k = [] \<Longrightarrow> hd (ctx_post k @ [z]) = ctx_par z k"
  by (cases k rule: ctx_addrs.cases) auto

lemma ctx_par_in: "k \<noteq> [] \<Longrightarrow> ctx_par z k \<in> set (ctx_addrs k)"
  by (cases k rule: ctx_addrs.cases) auto

lemma in_tree_split: "n \<in> set (inorder t) \<Longrightarrow> \<exists>k c l r. t = plug k (Bin c l n r)"
proof (induction t)
  case (Bin c l a r)
  then consider "n = a" | "n \<in> set (inorder l)" | "n \<in> set (inorder r)" by auto
  then show ?case
  proof cases
    case 1
    then show ?thesis by (intro exI [of _ "[]"]) auto
  next
    case 2
    with Bin obtain k c' l' r' where "l = plug k (Bin c' l' n r')" by blast
    then have "Bin c l a r = plug (k @ [LeftOf c a r]) (Bin c' l' n r')" by (simp add: plug_append)
    then show ?thesis by blast
  next
    case 3
    with Bin obtain k c' l' r' where "r = plug k (Bin c' l' n r')" by blast
    then have "Bin c l a r = plug (k @ [RightOf c l a]) (Bin c' l' n r')" by (simp add: plug_append)
    then show ?thesis by blast
  qed
qed simp

lemma filter_ne: "n \<notin> set xs \<Longrightarrow> [x \<leftarrow> xs. x \<noteq> n] = xs"
  by (auto simp: filter_id_conv)

text \<open>
  Deleting a node. When it is the first one, the neighbour that \<^verbatim>\<open>rb_delete\<close> returns is the next
  one.
\<close>

lemma rb_delete_ordered:
  assumes tree: "rb_tree_at z h t" and rbt: "rbt t" and null: "NULL \<notin> set (z # inorder t)"
    and n: "n \<in> set (inorder t)"
  shows "\<exists>h' m t'. rb_delete z h n = Some (h', m) \<and> rb_tree_at z h' t' \<and> rbt t' \<and>
    inorder t' = [x \<leftarrow> inorder t. x \<noteq> n] \<and> rb_keeps z (set (inorder t)) h h' \<and> m \<noteq> NULL \<and>
    (hd (inorder t) = n \<longrightarrow> m = hd (inorder t' @ [z])) \<and>
    rb_parent h' n = z \<and> rb_left h' n = z \<and> rb_right h' n = z"
proof -
  obtain k c l r where t: "t = plug k (Bin c l n r)"
    using in_tree_split [OF n] by blast
  have dist: "distinct (inorder t)" using tree by (simp add: rb_tree_at_def)
  have spec: "rb_delete_spec z h k (Bin c l n r) n (rb_delete z h n)"
    using tree rbt null t by (intro rb_delete_correct) auto
  let ?t = "del_at k (Bin c l n r)" and ?m = "del_nb z k (Bin c l n r)"
  have ord: "inorder ?t = ctx_pre k @ inorder l @ inorder r @ ctx_post k"
    using rbt t by (intro inorder_del_at) simp
  also have "\<dots> = [x \<leftarrow> inorder t. x \<noteq> n]"
    using dist t by (simp add: inorder_plug filter_ne)
  finally have inord: "inorder ?t = [x \<leftarrow> inorder t. x \<noteq> n]" .
  have "?m \<in> insert z (set (inorder t))"
    using t by (auto simp: del_nb_def set_plug inorder_plug intro: last_in_set hd_in_set)
      (metis ctx_par.simps(1) ctx_par_in set_ctx_addrs UnE)
  then have "?m \<noteq> NULL" using null by auto
  moreover have "?m = hd (inorder ?t @ [z])" if "hd (inorder t) = n"
  proof -
    have "ctx_pre k = [] \<and> l = Tip"
      using that dist t by (cases "ctx_pre k"; cases "inorder l") (auto simp: inorder_plug)
    with ord show ?thesis
      by (cases "r = Tip"; cases "k = []") (auto simp: del_nb_def ctx_par_first)
  qed
  moreover from spec obtain h' where "rb_delete z h n = Some (h', ?m)" "rb_tree_at z h' ?t"
      "rb_keeps z (set (inorder t)) h h'" "rb_parent h' n = z \<and> rb_left h' n = z \<and> rb_right h' n = z"
    unfolding rb_delete_spec_def t by blast
  moreover have "rbt ?t" using rbt t by (simp add: rbt_del_at)
  ultimately show ?thesis
    using inord by (intro exI [of _ h'] exI [of _ ?m] exI [of _ ?t]) simp
qed

lemma wf_pos_descend:
  "wf_pos z h p a k (Bin c l a r) \<Longrightarrow> l \<noteq> Tip \<Longrightarrow>
     wf_pos z h a (rb_left h a) (LeftOf c a r # k) l \<and> rb_left h a \<noteq> z"
  "wf_pos z h p a k (Bin c l a r) \<Longrightarrow> r \<noteq> Tip \<Longrightarrow>
     wf_pos z h a (rb_right h a) (RightOf c l a # k) r \<and> rb_right h a \<noteq> z"
  by (cases l; simp add: wf_pos_def accessors) (cases r; simp add: wf_pos_def accessors)

lemma filter_none: "(\<And>x. x \<in> set xs \<Longrightarrow> \<not> P x) \<Longrightarrow> filter P xs = []"
  by (simp add: filter_empty_conv)


section \<open>Ordered insertion\<close>

text \<open>
  The search loops of the clients: from the root, right when \<open>gr\<close> holds of the node and left
  otherwise; the new node is linked below the last node visited, which is returned.
\<close>

partial_function (option) rb_descend ::
    "(addr \<Rightarrow> bool) \<Rightarrow> addr \<Rightarrow> rb_heap \<Rightarrow> addr \<Rightarrow> addr \<Rightarrow> (rb_heap \<times> addr) option" where
  "rb_descend gr z h n p =
     (if p = rb_null z then Some (h, p)
      else if gr p then
        let t = rb_right h p in
        if t = rb_null z then Some (rb_set_right h p n, p) else rb_descend gr z h n t
      else
        let t = rb_left h p in
        if t = rb_null z then Some (rb_set_left h p n, p) else rb_descend gr z h n t)"

definition descend_ok ::
    "(addr \<Rightarrow> bool) \<Rightarrow> addr \<Rightarrow> rb_heap \<Rightarrow> addr \<Rightarrow> ctx \<Rightarrow> ptree \<Rightarrow> (rb_heap \<times> addr) option \<Rightarrow> bool" where
  "descend_ok gr z h n k t res \<longleftrightarrow>
     (\<exists>h' p k'. res = Some (h', p) \<and> ctx_at z h' p n k' \<and> k' \<noteq> [] \<and> plug k' Tip = plug k t \<and>
        ctx_pre k' = ctx_pre k @ [x \<leftarrow> inorder t. gr x] \<and>
        ctx_post k' = [x \<leftarrow> inorder t. \<not> gr x] @ ctx_post k \<and>
        rb_keeps z (set (inorder (plug k t))) h h')"

lemma descend_ok_leftmost:
  assumes wf: "wf_pos z h p a k (Bin c Tip a r)" and "\<not> gr a"
    and later: "\<And>x. x \<in> set (inorder r) \<Longrightarrow> \<not> gr x"
  shows "descend_ok gr z h n k (Bin c Tip a r) (Some (rb_set_left h a n, a))"
proof -
  have "ctx_at z (rb_set_left h a n) a n (LeftOf c a r # k)"
    using wf by (simp add: pos_facts heap_defs frame)
  moreover have "rb_keeps z (set (inorder (plug k (Bin c Tip a r)))) h (rb_set_left h a n)"
    using wf by (auto simp: rb_keeps_def heap_defs set_plug wf_pos_def)
  ultimately show ?thesis
    unfolding descend_ok_def using assms(2) later
    by (intro exI [of _ "rb_set_left h a n"] exI [of _ a] exI [of _ "LeftOf c a r # k"])
      (auto simp: filter_none)
qed

lemma descend_ok_rightmost:
  assumes wf: "wf_pos z h p a k (Bin c l a Tip)" and "gr a"
    and before: "\<And>x. x \<in> set (inorder l) \<Longrightarrow> gr x"
  shows "descend_ok gr z h n k (Bin c l a Tip) (Some (rb_set_right h a n, a))"
proof -
  have "ctx_at z (rb_set_right h a n) a n (RightOf c l a # k)"
    using wf by (simp add: pos_facts heap_defs frame)
  moreover have "rb_keeps z (set (inorder (plug k (Bin c l a Tip)))) h (rb_set_right h a n)"
    using wf by (auto simp: rb_keeps_def heap_defs set_plug wf_pos_def)
  ultimately show ?thesis
    unfolding descend_ok_def using assms(2) before
    by (intro exI [of _ "rb_set_right h a n"] exI [of _ a] exI [of _ "RightOf c l a # k"])
      (auto simp: filter_none)
qed

lemma descend_ok_left:
  "descend_ok gr z h n (LeftOf c a r # k) l res \<Longrightarrow> \<not> gr a \<Longrightarrow>
   (\<And>x. x \<in> set (inorder r) \<Longrightarrow> \<not> gr x) \<Longrightarrow> descend_ok gr z h n k (Bin c l a r) res"
  unfolding descend_ok_def by (elim exE conjE, intro exI conjI, assumption+) (auto simp: filter_none)

lemma descend_ok_right:
  "descend_ok gr z h n (RightOf c l a # k) r res \<Longrightarrow> gr a \<Longrightarrow>
   (\<And>x. x \<in> set (inorder l) \<Longrightarrow> gr x) \<Longrightarrow> descend_ok gr z h n k (Bin c l a r) res"
  unfolding descend_ok_def by (elim exE conjE, intro exI conjI, assumption+) (auto simp: filter_none)

lemma rb_descend_ok:
  "wf_pos z h p x k t \<Longrightarrow> t \<noteq> Tip \<Longrightarrow> sorted_wrt (\<lambda>x y. gr y \<longrightarrow> gr x) (inorder t) \<Longrightarrow>
   descend_ok gr z h n k t (rb_descend gr z h n x)"
proof (induction t arbitrary: p x k)
  case (Bin c l a r)
  have x: "x = a" "a \<noteq> z" using Bin.prems(1) by (simp_all add: wf_pos_def)
  with Bin.prems(1) have wf: "wf_pos z h p a k (Bin c l a r)" by simp
  have srt: "sorted_wrt (\<lambda>x y. gr y \<longrightarrow> gr x) (inorder l)" "sorted_wrt (\<lambda>x y. gr y \<longrightarrow> gr x) (inorder r)"
    using Bin.prems(3) by (simp_all only: inorder.simps sorted_wrt_append sorted_wrt.simps)
  show ?case
  proof (cases "gr a")
    case False
    with Bin.prems(3) have later: "\<And>y. y \<in> set (inorder r) \<Longrightarrow> \<not> gr y"
      by (auto simp: sorted_wrt_append)
    show ?thesis
    proof (cases "l = Tip")
      case Tip: True
      then have "rb_left h a = z" using wf by (simp add: wf_pos_def accessors)
      with False x Tip later wf show ?thesis
        by (subst rb_descend.simps) (simp add: rb_null_def Let_def descend_ok_leftmost)
    next
      case Bin': False
      note desc = wf_pos_descend(1) [OF wf Bin']
      then have "descend_ok gr z h n (LeftOf c a r # k) l (rb_descend gr z h n (rb_left h a))"
        using Bin' srt by (intro Bin.IH(1)) blast+
      with False x later desc show ?thesis
        by (subst rb_descend.simps) (simp add: rb_null_def Let_def descend_ok_left)
    qed
  next
    case True
    with Bin.prems(3) have before: "\<And>y. y \<in> set (inorder l) \<Longrightarrow> gr y"
      by (auto simp: sorted_wrt_append)
    show ?thesis
    proof (cases "r = Tip")
      case Tip: True
      then have "rb_right h a = z" using wf by (simp add: wf_pos_def accessors)
      with True x Tip before wf show ?thesis
        by (subst rb_descend.simps) (simp add: rb_null_def Let_def descend_ok_rightmost)
    next
      case Bin': False
      note desc = wf_pos_descend(2) [OF wf Bin']
      then have "descend_ok gr z h n (RightOf c l a # k) r (rb_descend gr z h n (rb_right h a))"
        using Bin' srt by (intro Bin.IH(2)) blast+
      with True x before desc show ?thesis
        by (subst rb_descend.simps) (simp add: rb_null_def Let_def descend_ok_right)
    qed
  qed
qed simp

definition rb_insert_by :: "(addr \<Rightarrow> bool) \<Rightarrow> addr \<Rightarrow> rb_heap \<Rightarrow> addr \<Rightarrow> rb_heap option" where
  "rb_insert_by gr z h n =
     (case rb_descend gr z h n (rb_root z h) of
        None \<Rightarrow> None
      | Some (h, p) \<Rightarrow> rb_insert z h n p)"

lemma rb_insert_at_ok:
  assumes "ctx_at z h p (if k = [] then z else n) k" and "clr_of (h z) = Blk"
    and "distinct (z # n # ctx_addrs k)" and rbt: "rbt (plug k Tip)"
  shows "\<exists>h' t. rb_insert z h n p = Some h' \<and> rb_tree_at z h' t \<and> rbt t \<and>
    inorder t = ctx_pre k @ n # ctx_post k \<and> rb_keeps z (insert n (set (ctx_addrs k))) h h'"
proof -
  have root: "root_blk k" using rbt by (simp add: rbt_plug)
  obtain h' where "rb_insert z h n p = Some h'" "rb_tree_at z h' (ins_at k n)"
    using rb_insert_ok [OF assms(1-3) root] by blast
  with rb_insert_keeps [OF assms(1-3) root] rbt_ins_at [OF rbt] inorder_ins_at show ?thesis by blast
qed

lemma rb_insert_by_ok:
  assumes tree: "rb_tree_at z h t" and rbt: "rbt t" and n: "n \<notin> set (z # inorder t)"
    and srt: "sorted_wrt (\<lambda>x y. gr y \<longrightarrow> gr x) (inorder t)"
  shows "\<exists>h' t'. rb_insert_by gr z h n = Some h' \<and> rb_tree_at z h' t' \<and> rbt t' \<and>
    inorder t' = [x \<leftarrow> inorder t. gr x] @ n # [x \<leftarrow> inorder t. \<not> gr x] \<and>
    rb_keeps z (insert n (set (inorder t))) h h'"
proof (cases "t = Tip")
  case True
  have "\<exists>h' t. rb_insert z h n z = Some h' \<and> rb_tree_at z h' t \<and> rbt t \<and>
      inorder t = ctx_pre [] @ n # ctx_post [] \<and> rb_keeps z (insert n (set (ctx_addrs []))) h h'"
    using assms True by (intro rb_insert_at_ok) (auto simp: rb_tree_at_def)
  moreover have "rb_root z h = z" using tree True by (simp add: rb_tree_at_def accessors)
  ultimately show ?thesis
    using True by (simp add: rb_insert_by_def rb_descend.simps rb_null_def)
next
  case False
  have "wf_pos z h z (rb_root z h) [] t"
    using tree by (simp add: wf_pos_iff) (auto simp: rb_tree_at_def accessors dest: tree_at_root)
  from rb_descend_ok [OF this False srt, of n] obtain h1 p k where
    k: "rb_descend gr z h n (rb_root z h) = Some (h1, p)" "ctx_at z h1 p n k" "k \<noteq> []" "plug k Tip = t"
    and ord: "ctx_pre k = [x \<leftarrow> inorder t. gr x]" "ctx_post k = [x \<leftarrow> inorder t. \<not> gr x]"
    and keeps: "rb_keeps z (set (inorder t)) h h1"
    by (auto simp: descend_ok_def)
  have addrs: "inorder t = ctx_pre k @ ctx_post k" "set (inorder t) = set (ctx_addrs k)"
    using k(4) inorder_plug [of k Tip] by (auto simp: set_ctx_addrs)
  have "\<exists>h' t. rb_insert z h1 n p = Some h' \<and> rb_tree_at z h' t \<and> rbt t \<and>
      inorder t = ctx_pre k @ n # ctx_post k \<and> rb_keeps z (insert n (set (ctx_addrs k))) h1 h'"
  proof (rule rb_insert_at_ok)
    show "distinct (z # n # ctx_addrs k)"
      using tree n addrs by (auto simp: rb_tree_at_def distinct_ctx)
    show "clr_of (h1 z) = Blk"
      using tree keeps by (simp add: rb_tree_at_def rb_keeps_def clr_of_def)
  qed (use k rbt in simp_all)
  then show ?thesis
    using k ord addrs(2) rb_keeps_mono [OF keeps, of "insert n (set (inorder t))"]
    by (auto simp: rb_insert_by_def intro: rb_keeps_trans)
qed

section \<open>Depth\<close>

text \<open>The length of the longest path, and the bound that balance puts on it.\<close>

fun depth :: "ptree \<Rightarrow> nat" where
  "depth Tip = 0"
| "depth (Bin c l a r) = Suc (max (depth l) (depth r))"

lemma depth_bh: "red_ok t \<Longrightarrow> bal t \<Longrightarrow> depth t \<le> 2 * bh t + (if col t = Red then 1 else 0)"
proof (induction t)
  case (Bin c l a r)
  then show ?case
    by (cases c) (auto split: if_splits)
qed simp

lemma bh_nodes: "bal t \<Longrightarrow> 2 ^ bh t \<le> length (inorder t) + 1"
proof (induction t)
  case (Bin c l a r)
  then have "2 ^ bh l \<le> length (inorder l) + 1" "2 ^ bh l \<le> length (inorder r) + 1" by auto
  then show ?case by auto
qed simp

lemma depth_bound:
  assumes "rbt t"
  shows "2 ^ depth t \<le> (length (inorder t) + 1) ^ 2"
proof -
  have "depth t \<le> 2 * bh t"
    using assms depth_bh [of t] by (simp add: rbt_def)
  then have "(2 :: nat) ^ depth t \<le> 2 ^ (2 * bh t)" by (rule power_increasing) simp
  also have "\<dots> = (2 ^ bh t) ^ 2" by (metis power_mult mult.commute)
  also have "\<dots> \<le> (length (inorder t) + 1) ^ 2"
    using assms bh_nodes [of t] by (intro power_mono) (simp_all add: rbt_def)
  finally show ?thesis .
qed

section \<open>The neighbour that deletion returns\<close>

definition adjacent :: "addr list \<Rightarrow> addr \<Rightarrow> addr \<Rightarrow> bool" where
  "adjacent xs m n \<longleftrightarrow> (\<exists>us vs. xs = us @ m # n # vs \<or> xs = us @ n # m # vs)"

lemma adjacentI:
  "xs = us @ m # n # vs \<Longrightarrow> adjacent xs m n"
  "xs = us @ n # m # vs \<Longrightarrow> adjacent xs m n"
  by (auto simp: adjacent_def)

lemma del_nb_adjacent:
  "inorder (plug k (Bin c l n r)) = [n] \<and> del_nb z k (Bin c l n r) = z \<or>
   adjacent (inorder (plug k (Bin c l n r))) (del_nb z k (Bin c l n r)) n"
proof -
  consider "l \<noteq> Tip" | "l = Tip" "r \<noteq> Tip" | "l = Tip" "r = Tip" "k = []"
    | f k' where "l = Tip" "r = Tip" "k = f # k'" by (cases k) auto
  then show ?thesis
  proof cases
    case 1
    then have e: "inorder (plug k (Bin c l n r)) =
        (ctx_pre k @ butlast (inorder l)) @ last (inorder l) # n # inorder r @ ctx_post k"
      by (simp add: inorder_plug)
    show ?thesis using adjacentI(1) [OF e] 1 by (simp add: del_nb_def)
  next
    case 2
    then have e: "inorder (plug k (Bin c l n r)) =
        ctx_pre k @ n # hd (inorder r) # tl (inorder r) @ ctx_post k"
      by (simp add: inorder_plug)
    show ?thesis using adjacentI(2) [OF e] 2 by (simp add: del_nb_def)
  next
    case 3
    then show ?thesis by (simp add: del_nb_def)
  next
    case 4
    show ?thesis
    proof (cases f)
      case (LeftOf c' a r')
      with 4 have e: "inorder (plug k (Bin c l n r)) = ctx_pre k' @ n # a # inorder r' @ ctx_post k'"
        by (simp add: inorder_plug)
      show ?thesis using adjacentI(2) [OF e] 4 LeftOf by (simp add: del_nb_def)
    next
      case (RightOf c' l' a)
      with 4 have e: "inorder (plug k (Bin c l n r)) = (ctx_pre k' @ inorder l') @ a # n # ctx_post k'"
        by (simp add: inorder_plug)
      show ?thesis using adjacentI(1) [OF e] 4 RightOf by (simp add: del_nb_def)
    qed
  qed
qed

lemma rb_delete_neighbour:
  assumes "rb_tree_at z h t" and "rbt t" and "NULL \<notin> set (z # inorder t)" and "n \<in> set (inorder t)"
    and "rb_delete z h n = Some (h', m)"
  shows "inorder t = [n] \<and> m = z \<or> adjacent (inorder t) m n"
proof -
  obtain k c l r where t: "t = plug k (Bin c l n r)"
    using in_tree_split [OF assms(4)] by blast
  have "rb_delete_spec z h k (Bin c l n r) n (rb_delete z h n)"
    using assms t by (intro rb_delete_correct) auto
  with assms(5) have "m = del_nb z k (Bin c l n r)" by (simp add: rb_delete_spec_def)
  then show ?thesis using del_nb_adjacent t by blast
qed

end
