(* ===== verification/Sched.thy ===== *)
theory Sched
  imports RB_Ops "HOL-Library.Multiset"
begin

text \<open>
  The earliest-deadline-first scheduler of \<^verbatim>\<open>xf-sched.c\<close>. A task is an \<open>rb_node\<close> whose colour
  word holds its timestamp; the colour word of the sentinel holds the scheduler's own timestamp,
  and the sentinel's cached index is the first task. The locks of the code are not modelled: every
  operation is one step.
\<close>

section \<open>The code\<close>

definition xf_task_timestamp :: "rb_heap \<Rightarrow> addr \<Rightarrow> u64" where
  "xf_task_timestamp h t = nd_color (h t) AND NOT 1"

definition xf_task_timestamp_set :: "rb_heap \<Rightarrow> addr \<Rightarrow> u64 \<Rightarrow> rb_heap" where
  "xf_task_timestamp_set h t ts = h(t := (h t)\<lparr>nd_color := ts\<rparr>)"

text \<open>Comparison with respect to wrap-around: the sign of the 64-bit difference.\<close>

definition xf_timestamp_before :: "u64 \<Rightarrow> u64 \<Rightarrow> bool" where
  "xf_timestamp_before t0 t1 \<longleftrightarrow> sint (t0 - t1) < 0"

definition xf_sched_timestamp :: "addr \<Rightarrow> rb_heap \<Rightarrow> u64" where
  "xf_sched_timestamp z h = nd_color (h z)"

definition xf_sched_timestamp_set :: "addr \<Rightarrow> rb_heap \<Rightarrow> u64 \<Rightarrow> rb_heap" where
  "xf_sched_timestamp_set z h ts = h(z := (h z)\<lparr>nd_color := ts AND NOT 1\<rparr>)"

text \<open>
  The descent of \<^verbatim>\<open>xf_sched_put\<close>: it links the new node below its direct neighbour and
  returns that neighbour, with a flag for the exits that adjust the head.
\<close>

partial_function (option) sched_place ::
    "addr \<Rightarrow> rb_heap \<Rightarrow> addr \<Rightarrow> u64 \<Rightarrow> addr \<Rightarrow> (rb_heap \<times> addr \<times> bool) option" where
  "sched_place z h n ts p =
     (if p = rb_null z then Some (h, p, True)
      else if xf_timestamp_before ts (xf_task_timestamp h p) then
        let t = rb_left h p in
        if t = rb_null z then Some (rb_set_left h p n, p, p = rb_cache z (rb_set_left h p n))
        else sched_place z h n ts t
      else
        let t = rb_right h p in
        if t = rb_null z then Some (rb_set_right h p n, p, False)
        else sched_place z h n ts t)"

definition xf_sched_put :: "addr \<Rightarrow> rb_heap \<Rightarrow> addr \<Rightarrow> u64 \<Rightarrow> rb_heap option" where
  "xf_sched_put z h n dts =
     (let ts = xf_sched_timestamp z h + dts;
          h = xf_task_timestamp_set h n ts
      in case sched_place z h n ts (rb_root z h) of
           None \<Rightarrow> None
         | Some (h, p, head) \<Rightarrow>
             (let h = (if head then rb_set_cache z h n else h) in rb_insert z h n p))"

definition xf_sched_get :: "addr \<Rightarrow> rb_heap \<Rightarrow> (rb_heap \<times> addr) option" where
  "xf_sched_get z h =
     (let n = rb_cache z h in
      if n \<noteq> rb_null z then
        (case rb_delete z h n of
           None \<Rightarrow> None
         | Some (h, t) \<Rightarrow>
             (let h = rb_set_cache z h t;
                  ts = xf_task_timestamp h n;
                  h = xf_sched_timestamp_set z h ts
              in Some (h, n)))
      else Some (h, NULL))"

text \<open>The result is the error flag: 1 when the node is not found.\<close>

definition xf_sched_cancel :: "addr \<Rightarrow> rb_heap \<Rightarrow> addr \<Rightarrow> (rb_heap \<times> u32) option" where
  "xf_sched_cancel z h n =
     (case rb_delete z h n of
        None \<Rightarrow> None
      | Some (h, t) \<Rightarrow>
          if t = NULL then Some (h, 1)
          else Some (if n = rb_cache z h then rb_set_cache z h t else h, 0))"

definition xf_sched_init :: "addr \<Rightarrow> rb_heap \<Rightarrow> rb_heap" where
  "xf_sched_init z h = rb_init z h"

section \<open>Timestamps\<close>

text \<open>
  Distances from the scheduler's timestamp. The code relies on the distance between active items
  being small; \<open>in_window\<close> is the bound under which the comparison is the order of the
  distances.
\<close>

definition ts_off :: "u64 \<Rightarrow> u64 \<Rightarrow> nat" where
  "ts_off now ts = unat (ts - now)"

definition in_window :: "u64 \<Rightarrow> u64 \<Rightarrow> bool" where
  "in_window now ts \<longleftrightarrow> ts_off now ts < 2 ^ 63"

lemma sint_neg_iff: "sint (w :: u64) < 0 \<longleftrightarrow> 2 ^ 63 \<le> uint w"
proof -
  have "take_bit 64 (uint w) = uint w"
    using uint_lt2p [of w] by (simp add: take_bit_int_eq_self)
  then have "sint w = uint w - (if bit w 63 then 2 ^ 64 else 0)"
    by (simp add: sint_uint signed_take_bit_eq_take_bit_minus bit_uint_iff)
  moreover have "- (2 ^ 63) \<le> sint w" "sint w < 2 ^ 63"
    using sint_ge [of w] sint_lt [of w] by simp_all
  moreover have "0 \<le> uint w" "uint w < 2 ^ 64"
    using uint_lt2p [of w] by simp_all
  ultimately show ?thesis
    by (cases "bit w 63") simp_all
qed

lemma sub_wrap_iff:
  "(a :: nat) < k \<Longrightarrow> b < k \<Longrightarrow> m = 2 * k \<Longrightarrow>
   k \<le> (if b \<le> a then a - b else a + m - b) \<longleftrightarrow> a < b"
  by auto

lemma sub_high_iff:
  assumes "unat (a :: u64) < 2 ^ 63" and "unat b < 2 ^ 63"
  shows "2 ^ 63 \<le> unat (a - b) \<longleftrightarrow> unat a < unat b"
proof -
  have "size a = 64" by (simp add: word_size)
  moreover have "(2 :: nat) ^ 64 = 2 * 2 ^ 63" by simp
  note sub_wrap_iff [OF assms this]
  ultimately show ?thesis
    by (simp only: unat_sub_if_size)
qed

lemma uint_unat_le: "(2 :: int) ^ n \<le> uint w \<longleftrightarrow> 2 ^ n \<le> unat w"
  unfolding uint_nat by (metis of_nat_le_iff of_nat_numeral of_nat_power)

lemma before_iff_off:
  assumes "in_window now t0" and "in_window now t1"
  shows "xf_timestamp_before t0 t1 \<longleftrightarrow> ts_off now t0 < ts_off now t1"
proof -
  have "t0 - t1 = (t0 - now) - (t1 - now)" by simp
  then have "2 ^ 63 \<le> unat (t0 - t1) \<longleftrightarrow> ts_off now t0 < ts_off now t1"
    using assms sub_high_iff [of "t0 - now" "t1 - now"] by (simp only: in_window_def ts_off_def)
  moreover have "(2 :: int) ^ 63 \<le> uint (t0 - t1) \<longleftrightarrow> 2 ^ 63 \<le> unat (t0 - t1)"
    by (rule uint_unat_le)
  ultimately show ?thesis
    by (simp only: xf_timestamp_before_def sint_neg_iff)
qed

lemma add_even_clear: "even (now :: u64) \<Longrightarrow> (now + d) AND - 2 = now + (d AND - 2)"
  by (simp add: clear_bit_0 and_one_eq mod_2_eq_odd)

section \<open>The specification: a list of tasks in the order of execution\<close>

text \<open>
  The abstract scheduler is its timestamp with the list of the waiting tasks and their deadlines.
  A new task goes behind every task that is not later; taking a task advances the timestamp to its
  deadline.
\<close>

type_synonym task_list = "(addr \<times> u64) list"

definition spec_put :: "addr \<Rightarrow> u64 \<Rightarrow> u64 \<times> task_list \<Rightarrow> u64 \<times> task_list" where
  "spec_put n dts s =
     (case s of (now, q) \<Rightarrow>
       (now, [x \<leftarrow> q. \<not> xf_timestamp_before (now + dts) (snd x)] @ (n, (now + dts) AND NOT 1) #
             [x \<leftarrow> q. xf_timestamp_before (now + dts) (snd x)]))"

definition spec_get :: "u64 \<times> task_list \<Rightarrow> (u64 \<times> task_list) \<times> addr" where
  "spec_get s =
     (case s of (now, []) \<Rightarrow> (s, NULL) | (now, (n, ts) # q) \<Rightarrow> ((ts, q), n))"

definition spec_cancel :: "addr \<Rightarrow> u64 \<times> task_list \<Rightarrow> u64 \<times> task_list" where
  "spec_cancel n s = (case s of (now, q) \<Rightarrow> (now, [x \<leftarrow> q. fst x \<noteq> n]))"

text \<open>
  The invariant of the abstract scheduler: timestamps are even, every deadline is in the window,
  and the tasks stand in the order of their deadlines.
\<close>

definition spec_inv :: "u64 \<times> task_list \<Rightarrow> bool" where
  "spec_inv s \<longleftrightarrow>
     (case s of (now, q) \<Rightarrow>
       even now \<and> (\<forall>x \<in> set q. even (snd x) \<and> in_window now (snd x)) \<and>
       sorted (map (ts_off now \<circ> snd) q) \<and> distinct (map fst q))"

lemma ts_off_put:
  assumes "even now"
  shows "ts_off now ((now + dts) AND - 2) = unat (dts AND - 2)" and "ts_off now (now + dts) = unat dts"
  using assms by (simp_all add: ts_off_def add_even_clear)

lemma in_window_put:
  "even now \<Longrightarrow> unat dts < 2 ^ 63 \<Longrightarrow> in_window now (now + dts)"
  "even now \<Longrightarrow> unat dts < 2 ^ 63 \<Longrightarrow> in_window now ((now + dts) AND - 2)"
  using clear_le [of dts] by (simp_all add: in_window_def ts_off_put)

lemma even_off: "even now \<Longrightarrow> even ts \<Longrightarrow> even (ts_off now ts)"
  by (simp add: ts_off_def even_unat_iff even_diff)

text \<open>Among even deadlines, comparing with the exact or with the stored deadline is the same.\<close>

lemma le_clear_iff:
  "even now \<Longrightarrow> even ts \<Longrightarrow>
   ts_off now ts \<le> unat (dts :: u64) \<longleftrightarrow> ts_off now ts \<le> unat (dts AND - 2)"
  using even_off [of now ts] even_unat_iff [of dts] even_le_odd [of "ts_off now ts" "unat dts"]
  by (simp add: unat_clear)

lemma sorted_insert:
  fixes f :: "'a \<Rightarrow> nat"
  shows "sorted (map f l) \<Longrightarrow> sorted (map f r) \<Longrightarrow> (\<And>x. x \<in> set l \<Longrightarrow> f x \<le> c) \<Longrightarrow>
    (\<And>x. x \<in> set r \<Longrightarrow> c \<le> f x) \<Longrightarrow> f a = c \<Longrightarrow> sorted (map f (l @ a # r))"
  by (auto simp: sorted_append intro: order_trans)

lemma spec_inv_put:
  assumes inv: "spec_inv (now, q)" and dts: "unat dts < 2 ^ 63" and n: "n \<notin> fst ` set q"
  shows "spec_inv (spec_put n dts (now, q))"
proof -
  have now: "even now" and q: "\<And>x. x \<in> set q \<Longrightarrow> even (snd x) \<and> in_window now (snd x)"
    and srt: "sorted (map (ts_off now \<circ> snd) q)"
    using inv by (auto simp: spec_inv_def)
  have bef: "xf_timestamp_before (now + dts) (snd x) \<longleftrightarrow> unat (dts AND - 2) < ts_off now (snd x)"
    if "x \<in> set q" for x
    using q [OF that] now dts le_clear_iff [of now "snd x" dts]
      before_iff_off [of now "now + dts" "snd x"]
    by (auto simp: in_window_put ts_off_put not_le)
  let ?l = "[x \<leftarrow> q. \<not> xf_timestamp_before (now + dts) (snd x)]"
  let ?r = "[x \<leftarrow> q. xf_timestamp_before (now + dts) (snd x)]"
  let ?q = "?l @ (n, (now + dts) AND - 2) # ?r"
  have "sorted (map (ts_off now \<circ> snd) ?l)" "sorted (map (ts_off now \<circ> snd) ?r)"
    using srt by (rule sorted_filter)+
  moreover have l: "ts_off now (snd x) \<le> unat (dts AND - 2)" if "x \<in> set ?l" for x
    using that bef [of x] by auto
  moreover have r: "unat (dts AND - 2) \<le> ts_off now (snd x)" if "x \<in> set ?r" for x
    using that bef [of x] by auto
  ultimately have srt': "sorted (map (ts_off now \<circ> snd) ?q)"
    using now by (intro sorted_insert [where c = "unat (dts AND - 2)"]) (simp_all only: comp_def, simp add: ts_off_put)
  have "fst ` set ?l \<inter> fst ` set ?r = {}"
    using inv by (auto simp: spec_inv_def dest: eq_key_imp_eq_value)
  then have dist: "distinct (map fst ?q)"
    using n inv by (auto simp: spec_inv_def distinct_map_filter)
  have "even (snd x) \<and> in_window now (snd x)" if "x \<in> set ?q" for x
    using that q [of x] now dts by (auto simp: in_window_put)
  with srt' dist now show ?thesis
    by (simp add: spec_put_def spec_inv_def)
qed

lemma ts_off_shift:
  assumes "ts_off now t0 \<le> ts_off now t1"
  shows "ts_off t0 t1 = ts_off now t1 - ts_off now t0"
proof -
  have "t1 - t0 = (t1 - now) - (t0 - now)" by simp
  then show ?thesis
    using assms unat_sub [of "t0 - now" "t1 - now"]
    by (simp only: ts_off_def word_le_nat_alt)
qed

lemma sorted_map_diff: "sorted (map f q) \<Longrightarrow> sorted (map (\<lambda>y. f y - (c :: nat)) q)"
  by (induction q) (auto simp: diff_le_mono)

lemma spec_inv_get:
  assumes "spec_inv s"
  shows "spec_inv (fst (spec_get s))"
proof (cases s)
  case (Pair now q)
  show ?thesis
  proof (cases q)
    case Nil
    with Pair assms show ?thesis by (simp add: spec_get_def)
  next
    case (Cons x q')
    obtain n ts where x: "x = (n, ts)" by (cases x)
    have le: "ts_off now ts \<le> ts_off now (snd y)" if "y \<in> set q'" for y
      using assms Pair Cons x that by (auto simp: spec_inv_def)
    have "map (ts_off ts \<circ> snd) q' = map (\<lambda>y. (ts_off now \<circ> snd) y - ts_off now ts) q'"
      using le by (auto simp: ts_off_shift [of now ts])
    moreover have "sorted (map (ts_off now \<circ> snd) q')"
      using assms Pair Cons by (simp add: spec_inv_def)
    ultimately have "sorted (map (ts_off ts \<circ> snd) q')"
      by (simp only: sorted_map_diff)
    moreover have "in_window ts (snd y)" if "y \<in> set q'" for y
      using le [OF that] assms Pair Cons that
      by (auto simp: spec_inv_def in_window_def ts_off_shift [of now ts] intro: le_less_trans [OF diff_le_self])
    ultimately show ?thesis
      using assms Pair Cons x by (auto simp: spec_get_def spec_inv_def)
  qed
qed

lemma spec_inv_cancel: "spec_inv s \<Longrightarrow> spec_inv (spec_cancel n s)"
  by (cases s) (auto simp: spec_inv_def spec_cancel_def distinct_map_filter intro: sorted_filter)

section \<open>The code refines the specification\<close>

definition task_node :: "rb_heap \<Rightarrow> addr \<Rightarrow> addr \<times> u64" where
  "task_node h n = (n, xf_task_timestamp h n)"

definition sched_rel :: "addr \<Rightarrow> rb_heap \<Rightarrow> u64 \<times> task_list \<Rightarrow> bool" where
  "sched_rel z h s \<longleftrightarrow>
     (\<exists>t. rb_tree_at z h t \<and> rbt t \<and> NULL \<notin> set (z # inorder t) \<and>
       s = (xf_sched_timestamp z h, map (task_node h) (inorder t)) \<and>
       rb_cache z h = hd (inorder t @ [z]))"

lemma task_node_frame [simp]:
  "fst (task_node h n) = n"
  "snd (task_node h n) = xf_task_timestamp h n"
  by (simp_all add: task_node_def)

lemma xf_task_timestamp_keeps:
  "rb_keeps z A h h' \<Longrightarrow> xf_task_timestamp h' n = xf_task_timestamp h n"
  by (simp add: rb_keeps_def xf_task_timestamp_def)

lemma task_node_keeps: "rb_keeps z A h h' \<Longrightarrow> task_node h' = task_node h"
  by (rule ext) (simp add: task_node_def xf_task_timestamp_keeps)

subsection \<open>The descent\<close>

text \<open>
  The descent finds the position between the tasks that are not later than the new one and those
  that are. Later tasks form a suffix of the queue, so \<open>bef\<close> is monotone along the tree.
\<close>

definition place_ok ::
    "addr \<Rightarrow> rb_heap \<Rightarrow> addr \<Rightarrow> u64 \<Rightarrow> ctx \<Rightarrow> ptree \<Rightarrow> (rb_heap \<times> addr \<times> bool) option \<Rightarrow> bool" where
  "place_ok z h n ts k t res \<longleftrightarrow>
     (\<exists>h' p head k'. res = Some (h', p, head) \<and> ctx_at z h' p n k' \<and> k' \<noteq> [] \<and>
        plug k' Tip = plug k t \<and>
        ctx_pre k' = ctx_pre k @ [x \<leftarrow> inorder t. \<not> xf_timestamp_before ts (xf_task_timestamp h x)] \<and>
        ctx_post k' = [x \<leftarrow> inorder t. xf_timestamp_before ts (xf_task_timestamp h x)] @ ctx_post k \<and>
        rb_keeps z (set (inorder (plug k t))) h h' \<and>
        (head \<longleftrightarrow> p = rb_cache z h \<and> hd (ctx_post k' @ [z]) = p))"

lemma place_ok_leftmost:
  assumes wf: "wf_pos z h p a k (Bin c Tip a r)"
    and "xf_timestamp_before ts (xf_task_timestamp h a)"
    and later: "\<And>x. x \<in> set (inorder r) \<Longrightarrow> xf_timestamp_before ts (xf_task_timestamp h x)"
  shows "place_ok z h n ts k (Bin c Tip a r)
    (Some (rb_set_left h a n, a, a = rb_cache z (rb_set_left h a n)))"
proof -
  have "ctx_at z (rb_set_left h a n) a n (LeftOf c a r # k)"
    using wf by (simp add: pos_facts heap_defs frame)
  moreover have "rb_keeps z (set (inorder (plug k (Bin c Tip a r)))) h (rb_set_left h a n)"
    using wf by (auto simp: rb_keeps_def heap_defs set_plug wf_pos_def)
  moreover have "rb_cache z (rb_set_left h a n) = rb_cache z h"
    using wf by (auto simp: heap_defs wf_pos_def)
  ultimately show ?thesis
    unfolding place_ok_def using assms(2) later
    by (intro exI [of _ "rb_set_left h a n"] exI [of _ a] exI [of _ "LeftOf c a r # k"]
        exI [of _ "a = rb_cache z (rb_set_left h a n)"]) (auto simp: filter_none)
qed

lemma place_ok_rightmost:
  assumes wf: "wf_pos z h p a k (Bin c l a Tip)"
    and "\<not> xf_timestamp_before ts (xf_task_timestamp h a)"
    and before: "\<And>x. x \<in> set (inorder l) \<Longrightarrow> \<not> xf_timestamp_before ts (xf_task_timestamp h x)"
  shows "place_ok z h n ts k (Bin c l a Tip) (Some (rb_set_right h a n, a, False))"
proof -
  have "ctx_at z (rb_set_right h a n) a n (RightOf c l a # k)"
    using wf by (simp add: pos_facts heap_defs frame)
  moreover have "rb_keeps z (set (inorder (plug k (Bin c l a Tip)))) h (rb_set_right h a n)"
    using wf by (auto simp: rb_keeps_def heap_defs set_plug wf_pos_def)
  moreover have "hd (ctx_post k @ [z]) \<noteq> a"
    using wf by (cases "ctx_post k") (auto simp: wf_pos_def inorder_plug)
  ultimately show ?thesis
    unfolding place_ok_def using assms(2) before
    by (intro exI [of _ "rb_set_right h a n"] exI [of _ a] exI [of _ "RightOf c l a # k"]
        exI [of _ False]) (auto simp: filter_none)
qed


lemma place_ok_left:
  "place_ok z h n ts (LeftOf c a r # k) l res \<Longrightarrow> xf_timestamp_before ts (xf_task_timestamp h a) \<Longrightarrow>
   (\<And>x. x \<in> set (inorder r) \<Longrightarrow> xf_timestamp_before ts (xf_task_timestamp h x)) \<Longrightarrow>
   place_ok z h n ts k (Bin c l a r) res"
  unfolding place_ok_def by (elim exE conjE, intro exI conjI, assumption+) (auto simp: filter_none)

lemma place_ok_right:
  "place_ok z h n ts (RightOf c l a # k) r res \<Longrightarrow> \<not> xf_timestamp_before ts (xf_task_timestamp h a) \<Longrightarrow>
   (\<And>x. x \<in> set (inorder l) \<Longrightarrow> \<not> xf_timestamp_before ts (xf_task_timestamp h x)) \<Longrightarrow>
   place_ok z h n ts k (Bin c l a r) res"
  unfolding place_ok_def by (elim exE conjE, intro exI conjI, assumption+) (auto simp: filter_none)

lemma sched_place_ok:
  "wf_pos z h p x k t \<Longrightarrow> t \<noteq> Tip \<Longrightarrow>
   sorted_wrt (\<lambda>x y. xf_timestamp_before ts (xf_task_timestamp h x) \<longrightarrow>
     xf_timestamp_before ts (xf_task_timestamp h y)) (inorder t) \<Longrightarrow>
   place_ok z h n ts k t (sched_place z h n ts x)"
proof (induction t arbitrary: p x k)
  case (Bin c l a r)
  have x: "x = a" "a \<noteq> z" using Bin.prems(1) by (simp_all add: wf_pos_def)
  with Bin.prems(1) have wf: "wf_pos z h p a k (Bin c l a r)" by simp
  let ?bef = "\<lambda>x. xf_timestamp_before ts (xf_task_timestamp h x)"
  have srt: "sorted_wrt (\<lambda>x y. ?bef x \<longrightarrow> ?bef y) (inorder l)"
    "sorted_wrt (\<lambda>x y. ?bef x \<longrightarrow> ?bef y) (inorder r)"
    using Bin.prems(3) by (simp_all only: inorder.simps sorted_wrt_append sorted_wrt.simps)
  show ?case
  proof (cases "?bef a")
    case True
    with Bin.prems(3) have later: "\<And>y. y \<in> set (inorder r) \<Longrightarrow> ?bef y"
      by (auto simp: sorted_wrt_append)
    show ?thesis
    proof (cases "l = Tip")
      case Tip: True
      then have "rb_left h a = z" using wf by (simp add: wf_pos_def accessors)
      with True x Tip later wf show ?thesis
        by (subst sched_place.simps) (simp add: rb_null_def Let_def place_ok_leftmost)
    next
      case False
      note desc = wf_pos_descend(1) [OF wf False]
      then have "place_ok z h n ts (LeftOf c a r # k) l (sched_place z h n ts (rb_left h a))"
        using False srt by (intro Bin.IH(1)) blast+
      with True x later desc show ?thesis
        by (subst sched_place.simps) (simp add: rb_null_def Let_def place_ok_left)
    qed
  next
    case False
    with Bin.prems(3) have before: "\<And>y. y \<in> set (inorder l) \<Longrightarrow> \<not> ?bef y"
      by (auto simp: sorted_wrt_append)
    show ?thesis
    proof (cases "r = Tip")
      case Tip: True
      then have "rb_right h a = z" using wf by (simp add: wf_pos_def accessors)
      with False x Tip before wf show ?thesis
        by (subst sched_place.simps) (simp add: rb_null_def Let_def place_ok_rightmost)
    next
      case Bin': False
      note desc = wf_pos_descend(2) [OF wf Bin']
      then have "place_ok z h n ts (RightOf c l a # k) r (sched_place z h n ts (rb_right h a))"
        using Bin' srt by (intro Bin.IH(2)) blast+
      with False x before desc show ?thesis
        by (subst sched_place.simps) (simp add: rb_null_def Let_def place_ok_right)
    qed
  qed
qed simp


subsection \<open>The operations\<close>

lemma rb_tree_at_sentinel:
  "rb_tree_at z h t \<Longrightarrow> nd_left v = nd_left (h z) \<Longrightarrow> clr_of v = Blk \<Longrightarrow> rb_tree_at z (h(z := v)) t"
  by (simp add: rb_tree_at_def frame)

lemma rb_tree_at_set_cache: "rb_tree_at z h t \<Longrightarrow> rb_tree_at z (rb_set_cache z h c) t"
  unfolding rb_set_cache_def by (rule rb_tree_at_sentinel) (auto simp: rb_tree_at_def)

lemma rb_tree_at_other: "rb_tree_at z h t \<Longrightarrow> n \<notin> set (z # inorder t) \<Longrightarrow> rb_tree_at z (h(n := v)) t"
  by (auto simp: rb_tree_at_def frame)

lemma task_node_map_cong:
  "(\<And>x. x \<in> set xs \<Longrightarrow> xf_task_timestamp h' x = xf_task_timestamp h x) \<Longrightarrow>
   map (task_node h') xs = map (task_node h) xs"
  by (simp add: task_node_def)

lemma timestamp_cache [simp]: "xf_task_timestamp (rb_set_cache z h c) x = xf_task_timestamp h x"
  by (simp add: xf_task_timestamp_def heap_defs)

lemma sched_relI:
  "rb_tree_at z h t \<Longrightarrow> rbt t \<Longrightarrow> NULL \<notin> set (z # inorder t) \<Longrightarrow> now = xf_sched_timestamp z h \<Longrightarrow>
   q = map (task_node h) (inorder t) \<Longrightarrow> rb_cache z h = hd (inorder t @ [z]) \<Longrightarrow> sched_rel z h (now, q)"
  unfolding sched_rel_def by blast

lemma sched_relE:
  assumes "sched_rel z h (now, q)"
  obtains t where "rb_tree_at z h t" "rbt t" "NULL \<notin> set (z # inorder t)" "now = xf_sched_timestamp z h"
    "q = map (task_node h) (inorder t)" "rb_cache z h = hd (inorder t @ [z])"
  using assms by (auto simp: sched_rel_def)

text \<open>The insertion at the position found, with the cache adjusted when the position is the first.\<close>

lemma sched_insert_ok:
  assumes ctx: "ctx_at z h p (if k = [] then z else n) k" and blk: "clr_of (h z) = Blk"
    and dist: "distinct (z # n # ctx_addrs k)" and rbt: "rbt (plug k Tip)"
    and null: "NULL \<notin> set (z # n # ctx_addrs k)"
    and cache: "rb_cache z h = hd (ctx_pre k @ ctx_post k @ [z])"
    and head: "head \<longleftrightarrow> ctx_pre k = []"
  shows "\<exists>h'. rb_insert z (if head then rb_set_cache z h n else h) n p = Some h' \<and>
    sched_rel z h' (xf_sched_timestamp z h, map (task_node h) (ctx_pre k @ n # ctx_post k)) \<and>
    (\<forall>x. x \<notin> set (z # n # ctx_addrs k) \<longrightarrow> h' x = h x)"
proof -
  let ?h = "if head then rb_set_cache z h n else h"
  have ctx': "ctx_at z ?h p (if k = [] then z else n) k"
    using ctx dist by (cases "k = []") (simp_all add: heap_defs frame)
  have blk': "clr_of (?h z) = Blk" using blk by (simp add: heap_defs)
  have root: "root_blk k" using rbt by (simp add: rbt_plug)
  obtain h' where h': "rb_insert z ?h n p = Some h'" "rb_tree_at z h' (ins_at k n)"
    using rb_insert_ok [OF ctx' blk' dist root] by blast
  have keeps: "rb_keeps z (insert n (set (ctx_addrs k))) ?h h'"
    by (rule rb_insert_keeps [OF ctx' blk' dist root h'(1)])
  have ts: "task_node h' = task_node h"
    using task_node_keeps [OF keeps] by (simp add: task_node_def fun_eq_iff)
  have cache': "rb_cache z h' = hd (inorder (ins_at k n) @ [z])"
    using keeps head cache dist
    by (cases "ctx_pre k") (simp_all add: rb_keeps_def inorder_ins_at heap_defs)
  have "xf_sched_timestamp z h' = xf_sched_timestamp z h"
    using keeps by (simp add: rb_keeps_def xf_sched_timestamp_def heap_defs)
  moreover have "set (inorder (ins_at k n)) = insert n (set (ctx_addrs k))"
    by (auto simp: inorder_ins_at set_ctx_addrs)
  ultimately have "sched_rel z h' (xf_sched_timestamp z h, map (task_node h) (ctx_pre k @ n # ctx_post k))"
    using h'(2) rbt_ins_at [OF rbt] null ts cache'
    by (intro sched_relI [of z h' "ins_at k n"]) (simp_all add: inorder_ins_at)
  moreover have "h' x = h x" if "x \<notin> set (z # n # ctx_addrs k)" for x
    using keeps that by (simp add: rb_keeps_def heap_defs)
  ultimately show ?thesis using h'(1) by blast
qed

lemma filter_task_node:
  "[x \<leftarrow> map (task_node h) xs. P (snd x)] = map (task_node h) [x \<leftarrow> xs. P (xf_task_timestamp h x)]"
  by (simp add: filter_map comp_def)

lemma before_mono:
  assumes inv: "spec_inv (now, q)" and dts: "unat dts < 2 ^ 63"
  shows "sorted_wrt (\<lambda>x y. xf_timestamp_before (now + dts) (snd x) \<longrightarrow>
    xf_timestamp_before (now + dts) (snd y)) q"
proof -
  have "xf_timestamp_before (now + dts) (snd x) \<longleftrightarrow> unat dts < ts_off now (snd x)" if "x \<in> set q" for x
    using inv that dts before_iff_off [of now "now + dts" "snd x"]
    by (auto simp: spec_inv_def in_window_put ts_off_put)
  moreover have "sorted_wrt (\<lambda>x y. ts_off now (snd x) \<le> ts_off now (snd y)) q"
    using inv by (simp add: spec_inv_def sorted_map comp_def)
  ultimately show ?thesis
    by (auto elim: sorted_wrt_mono_rel [rotated])
qed



lemma xf_sched_put_empty:
  assumes rel: "sched_rel z h (now, [])" and n: "n \<noteq> z" "n \<noteq> NULL"
  shows "\<exists>h'. xf_sched_put z h n dts = Some h' \<and> sched_rel z h' (spec_put n dts (now, [])) \<and>
    (\<forall>x. x \<noteq> n \<longrightarrow> x \<noteq> z \<longrightarrow> h' x = h x)"
proof -
  from rel obtain t where t: "rb_tree_at z h t" "now = xf_sched_timestamp z h" "[] = map (task_node h) (inorder t)"
    "NULL \<notin> set (z # inorder t)" "rb_cache z h = hd (inorder t @ [z])"
    by (rule sched_relE)
  then have Tip: "t = Tip" by simp
  let ?h = "xf_task_timestamp_set h n (now + dts)"
  have z: "nd_left (h z) = z" "clr_of (h z) = Blk"
    using t(1) Tip by (simp_all add: rb_tree_at_def)
  have "\<exists>h'. rb_insert z (if True then rb_set_cache z ?h n else ?h) n z = Some h' \<and>
    sched_rel z h' (xf_sched_timestamp z ?h, map (task_node ?h) (ctx_pre [] @ n # ctx_post [])) \<and>
    (\<forall>x. x \<notin> set (z # n # ctx_addrs []) \<longrightarrow> h' x = ?h x)"
    using t Tip n z by (intro sched_insert_ok) (auto simp: xf_task_timestamp_set_def heap_defs rbt_def)
  moreover have "xf_sched_put z h n dts = rb_insert z (rb_set_cache z ?h n) n z"
    using z n t(2) by (simp add: xf_sched_put_def Let_def sched_place.simps rb_root_def rb_left_def
        rb_null_def xf_task_timestamp_set_def)
  moreover have "task_node ?h n = (n, (now + dts) AND - 2)" "xf_sched_timestamp z ?h = now"
    using n t(2) by (simp_all add: task_node_def xf_task_timestamp_def xf_task_timestamp_set_def xf_sched_timestamp_def)
  ultimately show ?thesis
    by (auto simp: spec_put_def xf_task_timestamp_set_def)
qed

lemma task_node_set:
  "n \<notin> set xs \<Longrightarrow> map (task_node (xf_task_timestamp_set h n ts)) xs = map (task_node h) xs"
  by (rule task_node_map_cong) (auto simp: xf_task_timestamp_def xf_task_timestamp_set_def)

lemma task_nodes: "fst ` set (map (task_node h) (inorder t)) = set (inorder t)"
  by (simp add: image_image)

lemma xf_sched_put_nonempty:
  assumes rel: "sched_rel z h (now, q)" and inv: "spec_inv (now, q)" and "q \<noteq> []"
    and dts: "unat dts < 2 ^ 63" and n: "n \<notin> fst ` set q" "n \<noteq> z" "n \<noteq> NULL"
  shows "\<exists>h'. xf_sched_put z h n dts = Some h' \<and> sched_rel z h' (spec_put n dts (now, q)) \<and>
    (\<forall>x. x \<notin> insert n (insert z (fst ` set q)) \<longrightarrow> h' x = h x)"
proof -
  from rel obtain t where t: "rb_tree_at z h t" "rbt t" "NULL \<notin> set (z # inorder t)"
    "now = xf_sched_timestamp z h" and q: "q = map (task_node h) (inorder t)"
    and cache: "rb_cache z h = hd (inorder t @ [z])"
    by (rule sched_relE)
  have nt: "n \<notin> set (inorder t)" using n(1) q by (auto simp: image_image)
  have "t \<noteq> Tip" using q \<open>q \<noteq> []\<close> by auto
  let ?ts = "now + dts"
  let ?h = "xf_task_timestamp_set h n ?ts"
  have tree: "rb_tree_at z ?h t" "q = map (task_node ?h) (inorder t)"
    using t nt n q by (simp_all add: task_node_set rb_tree_at_other xf_task_timestamp_set_def del: map_eq_conv)
      (simp add: task_node_set xf_task_timestamp_set_def [symmetric] del: map_eq_conv)
  have wf: "wf_pos z ?h z (rb_root z ?h) [] t"
    using tree by (simp add: wf_pos_iff) (auto simp: rb_tree_at_def accessors dest: tree_at_root)
  have mono: "sorted_wrt (\<lambda>x y. xf_timestamp_before ?ts (xf_task_timestamp ?h x) \<longrightarrow>
      xf_timestamp_before ?ts (xf_task_timestamp ?h y)) (inorder t)"
    using before_mono [OF inv dts] tree(2) by (simp add: sorted_wrt_map)
  have z: "xf_sched_timestamp z ?h = now" "rb_cache z ?h = rb_cache z h"
    using n t(4) by (simp_all add: xf_task_timestamp_set_def xf_sched_timestamp_def rb_cache_def rb_right_def)
  obtain h2 p head k where pl: "sched_place z ?h n ?ts (rb_root z ?h) = Some (h2, p, head)"
    and k: "ctx_at z h2 p n k" "k \<noteq> []" "plug k Tip = t"
    and pre: "ctx_pre k = [x \<leftarrow> inorder t. \<not> xf_timestamp_before ?ts (xf_task_timestamp ?h x)]"
    and post: "ctx_post k = [x \<leftarrow> inorder t. xf_timestamp_before ?ts (xf_task_timestamp ?h x)]"
    and keeps: "rb_keeps z (set (inorder t)) ?h h2"
    and head: "head \<longleftrightarrow> p = rb_cache z ?h \<and> hd (ctx_post k @ [z]) = p"
    using sched_place_ok [OF wf \<open>t \<noteq> Tip\<close> mono, of n] by (auto simp: place_ok_def)
  have addrs: "inorder t = ctx_pre k @ ctx_post k" "set (inorder t) = set (ctx_addrs k)"
    using k(3) inorder_plug [of k Tip] by (auto simp: set_ctx_addrs)
  have dist: "distinct (z # n # ctx_addrs k)"
    using t(1) nt n addrs by (auto simp: rb_tree_at_def distinct_ctx)
  have z2: "clr_of (h2 z) = Blk" "rb_cache z h2 = hd (inorder t @ [z])" "xf_sched_timestamp z h2 = now"
    using keeps z cache tree(1)
    by (simp_all add: rb_keeps_def rb_cache_def rb_right_def xf_sched_timestamp_def clr_of_def rb_tree_at_def)
  have par: "p = ctx_par z k" using k(1) by (rule ctx_at_par)
  have head': "head \<longleftrightarrow> ctx_pre k = []"
  proof (cases "ctx_pre k")
    case Nil
    with head z cache addrs ctx_par_first [OF k(2), of z] par show ?thesis by (simp add: hd_append)
  next
    case (Cons x xs)
    then have "hd (ctx_post k @ [z]) \<noteq> x"
      using dist addrs by (cases "ctx_post k") (auto simp: distinct_ctx set_ctx_addrs)
    with head z cache addrs Cons show ?thesis by simp
  qed
  obtain h3 where h3: "rb_insert z (if head then rb_set_cache z h2 n else h2) n p = Some h3"
    "sched_rel z h3 (xf_sched_timestamp z h2, map (task_node h2) (ctx_pre k @ n # ctx_post k))"
    "\<forall>x. x \<notin> set (z # n # ctx_addrs k) \<longrightarrow> h3 x = h2 x"
    using sched_insert_ok [of z h2 p k n head] k z2 dist t n addrs head' by auto
  have "task_node h2 = task_node ?h" using keeps by (rule task_node_keeps)
  moreover have "task_node ?h n = (n, ?ts AND - 2)"
    by (simp add: task_node_def xf_task_timestamp_def xf_task_timestamp_set_def)
  ultimately have "map (task_node h2) (ctx_pre k @ n # ctx_post k) = snd (spec_put n dts (now, q))"
    unfolding tree(2) spec_put_def by (simp add: pre post filter_map comp_def)
  then have "sched_rel z h3 (spec_put n dts (now, q))"
    using h3(2) z2(3) by (simp add: spec_put_def)
  moreover have "xf_sched_put z h n dts = Some h3"
    using pl h3(1) t(4) by (simp add: xf_sched_put_def Let_def)
  moreover have "h3 x = h x" if "x \<notin> insert n (insert z (fst ` set q))" for x
    using that h3(3) keeps addrs(2) task_nodes [of h t] q
    by (simp add: rb_keeps_def xf_task_timestamp_set_def)
  ultimately show ?thesis by blast
qed


subsection \<open>Taking and cancelling tasks\<close>

lemma sched_rel_after:
  assumes tree: "rb_tree_at z h' t'" "rbt t'" "NULL \<notin> set (z # inorder t')"
    and keeps: "rb_keeps z A h h'" and c: "c = hd (inorder t' @ [z])"
    and ts: "now = xf_sched_timestamp z h"
  shows "sched_rel z (rb_set_cache z h' c) (now, map (task_node h) (inorder t'))"
proof (rule sched_relI)
  show "rb_tree_at z (rb_set_cache z h' c) t'" using tree(1) by (rule rb_tree_at_set_cache)
  show "now = xf_sched_timestamp z (rb_set_cache z h' c)"
    using keeps ts by (simp add: rb_keeps_def xf_sched_timestamp_def rb_set_cache_def)
  show "map (task_node h) (inorder t') = map (task_node (rb_set_cache z h' c)) (inorder t')"
    using xf_task_timestamp_keeps [OF keeps] by (simp add: task_node_def)
  show "rb_cache z (rb_set_cache z h' c) = hd (inorder t' @ [z])"
    using c by (simp add: rb_cache_def rb_right_def rb_set_cache_def)
qed (use tree in simp_all)

lemma xf_sched_get_refines:
  assumes rel: "sched_rel z h s"
  shows "\<exists>h'. xf_sched_get z h = Some (h', snd (spec_get s)) \<and> sched_rel z h' (fst (spec_get s)) \<and>
    (\<forall>x. x \<notin> insert z (fst ` set (snd s)) \<longrightarrow> h' x = h x)"
proof -
  obtain now q where s: "s = (now, q)" by (cases s)
  from rel [unfolded s] obtain t where t: "rb_tree_at z h t" "rbt t" "NULL \<notin> set (z # inorder t)"
    "now = xf_sched_timestamp z h" and q: "q = map (task_node h) (inorder t)"
    and cache: "rb_cache z h = hd (inorder t @ [z])"
    by (rule sched_relE)
  show ?thesis
  proof (cases "inorder t")
    case Nil
    with rel s q cache show ?thesis
      by (simp add: xf_sched_get_def spec_get_def rb_null_def)
  next
    case (Cons n ns)
    have dist: "distinct (z # n # ns)" using t(1) Cons by (simp add: rb_tree_at_def)
    obtain h' m t' where del: "rb_delete z h n = Some (h', m)" and t': "rb_tree_at z h' t'" "rbt t'"
      and ord: "inorder t' = ns" and keeps: "rb_keeps z (set (inorder t)) h h'"
      and m: "m = hd (inorder t' @ [z])"
      using rb_delete_ordered [OF t(1,2,3), of n] Cons dist filter_ne [of n ns] by auto
    let ?ts = "xf_task_timestamp h n"
    let ?h1 = "rb_set_cache z h' m"
    let ?h2 = "xf_sched_timestamp_set z ?h1 ?ts"
    have "rb_tree_at z ?h2 t'"
      using t'(1) unfolding xf_sched_timestamp_set_def
      by (intro rb_tree_at_sentinel rb_tree_at_set_cache) simp_all
    moreover have "task_node ?h2 x = task_node h x" if "x \<in> set ns" for x
      using that dist task_node_keeps [OF keeps]
      by (auto simp: task_node_def xf_task_timestamp_def xf_sched_timestamp_set_def heap_defs fun_eq_iff)
    moreover have "rb_cache z ?h2 = m" "xf_sched_timestamp z ?h2 = ?ts"
      by (simp_all add: xf_sched_timestamp_set_def xf_sched_timestamp_def xf_task_timestamp_def heap_defs)
    ultimately have "sched_rel z ?h2 (?ts, map (task_node h) ns)"
      using t' t(3) ord m Cons by (intro sched_relI [of z _ t']) auto
    moreover have "xf_sched_get z h = Some (?h2, n)"
      using cache Cons dist del xf_task_timestamp_keeps [OF keeps]
      by (auto simp add: xf_sched_get_def rb_null_def Let_def)
    moreover have "?h2 x = h x" if "x \<notin> insert z (fst ` set (snd s))" for x
      using that keeps s q
      by (simp add: rb_keeps_def image_image xf_sched_timestamp_set_def heap_defs)
    ultimately show ?thesis
      using s q Cons by (simp add: spec_get_def task_node_def [of h n])
  qed
qed

lemma xf_sched_cancel_refines:
  assumes rel: "sched_rel z h s" and n: "n \<in> fst ` set (snd s)"
  shows "\<exists>h'. xf_sched_cancel z h n = Some (h', 0) \<and> sched_rel z h' (spec_cancel n s) \<and>
    rb_parent h' n = z \<and> rb_left h' n = z \<and> rb_right h' n = z \<and>
    (\<forall>x. x \<notin> insert z (fst ` set (snd s)) \<longrightarrow> h' x = h x)"
proof -
  obtain now q where s: "s = (now, q)" by (cases s)
  from rel [unfolded s] obtain t where t: "rb_tree_at z h t" "rbt t" "NULL \<notin> set (z # inorder t)"
    "now = xf_sched_timestamp z h" and q: "q = map (task_node h) (inorder t)"
    and cache: "rb_cache z h = hd (inorder t @ [z])"
    by (rule sched_relE)
  have nt: "n \<in> set (inorder t)" using n s q by (auto simp: image_image)
  obtain h' m t' where del: "rb_delete z h n = Some (h', m)" and t': "rb_tree_at z h' t'" "rbt t'"
    and ord: "inorder t' = [x \<leftarrow> inorder t. x \<noteq> n]" and keeps: "rb_keeps z (set (inorder t)) h h'"
    and m: "m \<noteq> NULL" "hd (inorder t) = n \<longrightarrow> m = hd (inorder t' @ [z])"
    and reset: "rb_parent h' n = z" "rb_left h' n = z" "rb_right h' n = z"
    using rb_delete_ordered [OF t(1,2,3) nt] by blast
  have nz: "n \<noteq> z" using t(1) nt by (auto simp: rb_tree_at_def)
  have c': "rb_cache z h' = rb_cache z h" using keeps by (simp add: rb_keeps_def rb_cache_def rb_right_def)
  let ?c = "if n = rb_cache z h then m else rb_cache z h"
  have hd: "hd (inorder t) = n \<longleftrightarrow> n = rb_cache z h"
    using cache nt by (cases "inorder t") auto
  have "?c = hd (inorder t' @ [z])"
    using m hd cache ord nt by (cases "inorder t") auto
  then have "sched_rel z (rb_set_cache z h' ?c) (now, map (task_node h) (inorder t'))"
    using t' t(3,4) ord keeps by (intro sched_rel_after) auto
  moreover have "map (task_node h) (inorder t') = snd (spec_cancel n s)"
    using ord s q by (simp add: spec_cancel_def filter_map comp_def)
  moreover have "xf_sched_cancel z h n = Some (rb_set_cache z h' ?c, 0)"
    using del m(1) c' by (auto simp: xf_sched_cancel_def heap_defs)
  moreover have "rb_set_cache z h' ?c x = h x" if "x \<notin> insert z (fst ` set (snd s))" for x
    using that keeps s q by (simp add: rb_keeps_def image_image heap_defs)
  ultimately show ?thesis
    using s reset nz by (simp add: spec_cancel_def heap_defs)
qed

lemma sched_rel_init: "z \<noteq> NULL \<Longrightarrow> sched_rel z (xf_sched_init z h) (nd_color (h z) AND - 2, [])"
  unfolding xf_sched_init_def using rb_tree_at_init [of z h]
  by (intro sched_relI [of z _ Tip])
    (simp_all add: rbt_def, simp_all add: rb_init_def xf_sched_timestamp_def heap_defs)


section \<open>The interface to the rest of the framework\<close>

text \<open>
  The clients of the scheduler only need that \<open>put\<close> and \<open>get\<close> follow the specification, on the
  task handles that are \<open>valid\<close>. \<open>put_all\<close> schedules a list of tasks and \<open>drain\<close> takes
  tasks until the scheduler is empty or \<open>m\<close> of them are taken.
\<close>

primrec put_all :: "('h \<Rightarrow> addr \<Rightarrow> u64 \<Rightarrow> 'h option) \<Rightarrow> (addr \<times> u64) list \<Rightarrow> 'h \<Rightarrow> 'h option" where
  "put_all put [] h = Some h"
| "put_all put (x # xs) h =
     (case put h (fst x) (snd x) of None \<Rightarrow> None | Some h' \<Rightarrow> put_all put xs h')"

primrec drain :: "('h \<Rightarrow> ('h \<times> addr) option) \<Rightarrow> nat \<Rightarrow> 'h \<Rightarrow> ('h \<times> addr list) option" where
  "drain get 0 h = Some (h, [])"
| "drain get (Suc m) h =
     (case get h of None \<Rightarrow> None
      | Some (h', n) \<Rightarrow>
          if n = NULL then Some (h', [])
          else map_option (\<lambda>(h'', ns). (h'', n # ns)) (drain get m h'))"

text \<open>Scheduling in turn, on the specification: a stable sort by deadline.\<close>

lemma spec_put_sort:
  assumes "even now" and "unat dts < 2 ^ 63" and "\<forall>x \<in> set xs. unat (snd x) < 2 ^ 63"
  shows "spec_put n dts (now, map (\<lambda>x. (fst x, now + (snd x AND - 2))) (sort_key (\<lambda>x. unat (snd x AND - 2)) xs)) =
    (now, map (\<lambda>x. (fst x, now + (snd x AND - 2))) (sort_key (\<lambda>x. unat (snd x AND - 2)) (xs @ [(n, dts)])))"
proof -
  let ?f = "\<lambda>x :: addr \<times> u64. unat (snd x AND - 2)" and ?g = "\<lambda>x. (fst x, now + (snd x AND - 2))"
  let ?ys = "sort_key ?f xs"
  let ?l = "[x \<leftarrow> ?ys. ?f x \<le> unat (dts AND - 2)]" and ?r = "[x \<leftarrow> ?ys. \<not> ?f x \<le> unat (dts AND - 2)]"
  have bef: "xf_timestamp_before (now + dts) (now + (snd x AND - 2)) \<longleftrightarrow> \<not> ?f x \<le> unat (dts AND - 2)"
    if "x \<in> set xs" for x
  proof -
    have "in_window now (now + (snd x AND - 2))"
      using assms that clear_le [of "snd x"] by (auto simp: in_window_def ts_off_def)
    then show ?thesis
      using assms before_iff_off [of now "now + dts" "now + (snd x AND - 2)"]
        le_clear_iff [of now "now + (snd x AND - 2)" dts]
      by (auto simp: in_window_put ts_off_put) (simp_all add: ts_off_def)?
  qed
  have "[x \<leftarrow> map ?g ?ys. \<not> xf_timestamp_before (now + dts) (snd x)] = map ?g ?l"
    "[x \<leftarrow> map ?g ?ys. xf_timestamp_before (now + dts) (snd x)] = map ?g ?r"
    using bef by (auto simp: filter_map comp_def intro!: arg_cong [of _ _ "map ?g"] filter_cong)
  moreover have "sort_key ?f (xs @ [(n, dts)]) = ?l @ (n, dts) # ?r"
  proof (rule properties_for_sort_key)
    show "mset (?l @ (n, dts) # ?r) = mset (xs @ [(n, dts)])"
      by (simp add: multiset_partition [symmetric] mset_filter)
    show "sorted (map ?f (?l @ (n, dts) # ?r))"
      by (rule sorted_insert [where c = "unat (dts AND - 2)"]) (auto intro: sorted_filter)
    show "[x \<leftarrow> ?l @ (n, dts) # ?r. ?f k = ?f x] = [x \<leftarrow> xs @ [(n, dts)]. ?f k = ?f x]" for k
    proof -
      have st: "[x \<leftarrow> ?ys. ?f k = ?f x] = [x \<leftarrow> xs. ?f k = ?f x]"
        using sort_key_stable [of ?f "?f k" xs] by (simp only: eq_commute)
      show ?thesis
      proof (cases "?f k \<le> unat (dts AND - 2)")
        case True
        then have "[x \<leftarrow> ?r. ?f k = ?f x] = []" "[x \<leftarrow> ?l. ?f k = ?f x] = [x \<leftarrow> xs. ?f k = ?f x]"
          unfolding st [symmetric] by (auto simp: filter_empty_conv intro: filter_cong)
        then show ?thesis by (simp del: filter_filter)
      next
        case False
        then have "[x \<leftarrow> ?l. ?f k = ?f x] = []" "[x \<leftarrow> ?r. ?f k = ?f x] = [x \<leftarrow> xs. ?f k = ?f x]"
          unfolding st [symmetric] by (auto simp: filter_empty_conv intro: filter_cong)
        with False show ?thesis by (simp del: filter_filter)
      qed
    qed
  qed
  ultimately show ?thesis
    using assms(1) by (simp add: spec_put_def add_even_clear)
qed

locale edf_queue =
  fixes put :: "'h \<Rightarrow> addr \<Rightarrow> u64 \<Rightarrow> 'h option"
    and get :: "'h \<Rightarrow> ('h \<times> addr) option"
    and rel :: "'h \<Rightarrow> u64 \<times> task_list \<Rightarrow> bool"
    and valid :: "addr \<Rightarrow> bool"
  assumes put_refines: "rel h s \<Longrightarrow> spec_inv s \<Longrightarrow> n \<notin> fst ` set (snd s) \<Longrightarrow> valid n \<Longrightarrow>
      unat dts < 2 ^ 63 \<Longrightarrow> \<exists>h'. put h n dts = Some h' \<and> rel h' (spec_put n dts s)"
    and get_refines: "rel h s \<Longrightarrow>
      \<exists>h'. get h = Some (h', snd (spec_get s)) \<and> rel h' (fst (spec_get s))"
    and not_null: "rel h s \<Longrightarrow> NULL \<notin> fst ` set (snd s)"
begin

lemma put_all_refines:
  "rel h (now, map (\<lambda>x. (fst x, now + (snd x AND - 2))) (sort_key (\<lambda>x. unat (snd x AND - 2)) ys)) \<Longrightarrow>
   spec_inv (now, map (\<lambda>x. (fst x, now + (snd x AND - 2))) (sort_key (\<lambda>x. unat (snd x AND - 2)) ys)) \<Longrightarrow>
   distinct (map fst (ys @ xs)) \<Longrightarrow> (\<And>x. x \<in> set (ys @ xs) \<Longrightarrow> valid (fst x) \<and> unat (snd x) < 2 ^ 63) \<Longrightarrow>
   \<exists>h'. put_all put xs h = Some h' \<and>
     rel h' (now, map (\<lambda>x. (fst x, now + (snd x AND - 2)))
       (sort_key (\<lambda>x. unat (snd x AND - 2)) (ys @ xs)))"
proof (induction xs arbitrary: ys h)
  case Nil
  then show ?case by simp
next
  case (Cons x xs)
  obtain n dts where x: "x = (n, dts)" by (cases x)
  let ?q = "\<lambda>ys. (now, map (\<lambda>x. (fst x, now + (snd x AND - 2))) (sort_key (\<lambda>x. unat (snd x AND - 2)) ys))"
  have dts: "unat dts < 2 ^ 63" "valid n" "\<forall>x \<in> set ys. unat (snd x) < 2 ^ 63"
    using Cons.prems(4) x by fastforce+
  have even: "even now" using Cons.prems(2) by (simp add: spec_inv_def)
  have n: "n \<notin> fst ` set (snd (?q ys))"
    using Cons.prems(3) x by (auto simp: image_image)
  obtain h1 where h1: "put h n dts = Some h1" "rel h1 (spec_put n dts (?q ys))"
    using put_refines [OF Cons.prems(1,2) n dts(2,1)] by blast
  have "spec_put n dts (?q ys) = ?q (ys @ [(n, dts)])"
    by (rule spec_put_sort [OF even dts(1,3)])
  moreover have "spec_inv (spec_put n dts (?q ys))"
    using spec_inv_put [OF Cons.prems(2) dts(1)] n by simp
  ultimately have "rel h1 (?q (ys @ [x]))" "spec_inv (?q (ys @ [x]))"
    using h1(2) x by simp_all
  then have "\<exists>h'. put_all put xs h1 = Some h' \<and> rel h' (?q ((ys @ [x]) @ xs))"
    using Cons.prems(3,4) by (intro Cons.IH) auto
  with h1(1) x show ?case by simp
qed

lemma drain_refines:
  "rel h (now, q) \<Longrightarrow> length q < m \<Longrightarrow> \<exists>h'. drain get m h = Some (h', map fst q)"
proof (induction m arbitrary: h now q)
  case (Suc m)
  obtain h' where h': "get h = Some (h', snd (spec_get (now, q)))" "rel h' (fst (spec_get (now, q)))"
    using get_refines [OF Suc.prems(1)] by blast
  show ?case
  proof (cases q)
    case Nil
    with h' show ?thesis by (simp add: spec_get_def)
  next
    case (Cons x q')
    obtain n ts where x: "x = (n, ts)" by (cases x)
    with Cons not_null [OF Suc.prems(1)] have "n \<noteq> NULL" by auto
    moreover from Suc.IH [of h' ts q'] h' Cons x Suc.prems(2)
    obtain h'' where "drain get m h' = Some (h'', map fst q')" by (auto simp: spec_get_def)
    ultimately show ?thesis
      using h' Cons x by (simp add: spec_get_def)
  qed
qed simp

text \<open>Tasks scheduled together run in the order of their deadlines, and in turn for equal ones.\<close>

lemma edf_order:
  assumes "rel h (now, [])" and "even now" and "distinct (map fst xs)"
    and "\<And>x. x \<in> set xs \<Longrightarrow> valid (fst x) \<and> unat (snd x) < 2 ^ 63" and "length xs < m"
  shows "\<exists>h1 h2. put_all put xs h = Some h1 \<and>
    drain get m h1 = Some (h2, map fst (sort_key (\<lambda>x. unat (snd x AND - 2)) xs))"
proof -
  have "spec_inv (now, [])" using assms(2) by (simp add: spec_inv_def)
  with assms put_all_refines [of h now "[]" xs] obtain h1 where
    h1: "put_all put xs h = Some h1" "rel h1 (now, map (\<lambda>x. (fst x, now + (snd x AND - 2)))
       (sort_key (\<lambda>x. unat (snd x AND - 2)) xs))" by auto
  with drain_refines [OF h1(2), of m] assms(5) show ?thesis
    by (auto simp: comp_def)
qed

end

text \<open>The scheduler at \<open>z\<close> is such a queue.\<close>

lemma xf_sched_put_refines:
  assumes "sched_rel z h s" and "spec_inv s" and "n \<notin> fst ` set (snd s)" and "n \<noteq> z \<and> n \<noteq> NULL"
    and "unat dts < 2 ^ 63"
  shows "\<exists>h'. xf_sched_put z h n dts = Some h' \<and> sched_rel z h' (spec_put n dts s)"
proof (cases s)
  case (Pair now q)
  with assms show ?thesis
    using xf_sched_put_empty [of z h now n dts] xf_sched_put_nonempty [of z h now q dts n]
    by (cases "q = []") auto
qed

lemma rb_delete_stale_keeps:
  "rb_parent h n = z \<Longrightarrow> rb_left h n = z \<Longrightarrow> rb_right h n = z \<Longrightarrow> n \<noteq> z \<Longrightarrow> z \<noteq> NULL \<Longrightarrow> rb_delete z h n = Some (h', m) \<Longrightarrow>
    xf_sched_timestamp z h' = xf_sched_timestamp z h"
  by (auto simp: rb_delete_def rb_null_def Let_def rb_del_reset_def heap_defs xf_sched_timestamp_def)

text \<open>On a tree without nodes the new task becomes the head, whatever the head was.\<close>

lemma xf_sched_put_lone:
  assumes "rb_tree_at z h Tip" and "n \<noteq> z" "n \<noteq> NULL" and "z \<noteq> NULL"
  shows "\<exists>h'. xf_sched_put z h n dts = Some h' \<and> sched_rel z h' (spec_put n dts (xf_sched_timestamp z h, []))"
proof -
  let ?h = "rb_set_cache z h z"
  have "rb_tree_at z ?h Tip" using assms(1) by (rule rb_tree_at_set_cache)
  moreover have "rb_cache z ?h = z" "xf_sched_timestamp z ?h = xf_sched_timestamp z h"
    by (simp_all add: rb_set_cache_def rb_cache_def rb_set_right_def rb_right_def xf_sched_timestamp_def)
  ultimately have "sched_rel z ?h (xf_sched_timestamp z h, [])"
    using assms(4) unfolding sched_rel_def by (intro exI [of _ Tip]) (simp add: rbt_def)
  from xf_sched_put_empty [OF this assms(2,3), of dts] obtain h' where
    "xf_sched_put z ?h n dts = Some h'" "sched_rel z h' (spec_put n dts (xf_sched_timestamp z h, []))" by blast
  moreover have "xf_sched_put z ?h n dts = xf_sched_put z h n dts"
    using assms by (simp add: xf_sched_put_def sched_place.simps rb_root_def rb_left_def rb_null_def xf_task_timestamp_set_def
        xf_sched_timestamp_def rb_tree_at_def Let_def heap_defs rb_set_cache_def rb_set_right_def fun_upd_twist)
  ultimately show ?thesis by auto
qed

interpretation sched: edf_queue "xf_sched_put z" "xf_sched_get z" "sched_rel z" "\<lambda>n. n \<noteq> z \<and> n \<noteq> NULL" for z
proof
  show "\<exists>h'. xf_sched_put z h n dts = Some h' \<and> sched_rel z h' (spec_put n dts s)"
    if "sched_rel z h s" "spec_inv s" "n \<notin> fst ` set (snd s)" "n \<noteq> z \<and> n \<noteq> NULL" "unat dts < 2 ^ 63"
    for h s n dts using that by (rule xf_sched_put_refines)
  show "\<exists>h'. xf_sched_get z h = Some (h', snd (spec_get s)) \<and> sched_rel z h' (fst (spec_get s))"
    if "sched_rel z h s" for h s using xf_sched_get_refines [OF that] by blast
  show "NULL \<notin> fst ` set (snd s)" if "sched_rel z h s" for h s
    using that by (auto simp: sched_rel_def task_node_def)
qed


end
