(* ===== verification/MM.thy ===== *)
theory MM
  imports RB_Ops
begin

text \<open>
  The dynamic memory allocator of \<^verbatim>\<open>xf-mem.c\<close> and \<^verbatim>\<open>xf-mm.h\<close>: best fit over free blocks, with
  coalescing of neighbours. A free block starts with its descriptor, whose \<open>l_node\<close> belongs to
  the tree of the blocks by length and whose \<open>a_node\<close>, 24 bytes further on, to the tree by
  address. The two kinds of nodes are kept in two typed heaps, both inside the pool record: an
  \<open>l_node\<close> is found at the address of its block, an \<open>a_node\<close> at that address plus 24.
\<close>

section \<open>The code\<close>

record mm_pool =
  l_map :: addr
  a_map :: addr
  mm_addr :: addr
  mm_size :: u32
  l_heap :: rb_heap
  a_heap :: rb_heap

text \<open>\<^verbatim>\<open>container_of\<close> and its inverse for the second node of a block descriptor.\<close>

definition a_node_of :: "addr \<Rightarrow> addr" where
  "a_node_of b = b + 24"

definition block_of_a_node :: "addr \<Rightarrow> addr" where
  "block_of_a_node p = p - 24"

text \<open>\<^verbatim>\<open>sizeof(xf_mm_block_t)\<close>, the granule \<^verbatim>\<open>sizeof(xf_mm_item)\<close> and the rounding of sizes to it.\<close>

definition xf_next_power_of_two :: "u32 \<Rightarrow> u32" where
  "xf_next_power_of_two v =
     (let v = v - 1;
          v = v OR drop_bit 1 v; v = v OR drop_bit 2 v; v = v OR drop_bit 4 v;
          v = v OR drop_bit 8 v; v = v OR drop_bit 16 v
      in v + 1)"

definition sizeof_block :: u32 where
  "sizeof_block = 48"

definition sizeof_item :: u32 where
  "sizeof_item = xf_next_power_of_two sizeof_block"

definition XF_MM :: "u32 \<Rightarrow> u32" where
  "XF_MM sz = (sz + sizeof_item - 1) AND NOT (sizeof_item - 1)"

definition XF_MM_ALIGNED :: "u32 \<Rightarrow> bool" where
  "XF_MM_ALIGNED sz \<longleftrightarrow> sz AND (sizeof_item - 1) = 0"

definition xf_mm_block_init :: "mm_pool \<Rightarrow> addr \<Rightarrow> u32 \<Rightarrow> mm_pool" where
  "xf_mm_block_init p b sz =
     p\<lparr>l_heap := (l_heap p)(b := (l_heap p b)\<lparr>nd_color := ucast sz\<rparr>)\<rparr>"

definition xf_mm_block_length_less :: "rb_heap \<Rightarrow> addr \<Rightarrow> u32 \<Rightarrow> bool" where
  "xf_mm_block_length_less h b sz \<longleftrightarrow> nd_color (h b) < ucast sz"

definition xf_mm_block_length :: "rb_heap \<Rightarrow> addr \<Rightarrow> u32" where
  "xf_mm_block_length h b = ucast (nd_color (h b) AND NOT 1)"

definition xf_mm_block_length_add :: "mm_pool \<Rightarrow> addr \<Rightarrow> u32 \<Rightarrow> mm_pool \<times> u32" where
  "xf_mm_block_length_add p b sz =
     (let c = nd_color (l_heap p b) + ucast sz
      in (p\<lparr>l_heap := (l_heap p)(b := (l_heap p b)\<lparr>nd_color := c\<rparr>)\<rparr>, ucast (c AND NOT 1)))"

definition xf_mm_block_length_sub :: "mm_pool \<Rightarrow> addr \<Rightarrow> u32 \<Rightarrow> mm_pool \<times> u32" where
  "xf_mm_block_length_sub p b sz =
     (let c = nd_color (l_heap p b) - ucast sz
      in (p\<lparr>l_heap := (l_heap p)(b := (l_heap p b)\<lparr>nd_color := c\<rparr>)\<rparr>, ucast (c AND NOT 1)))"

text \<open>The two loops of the search by size.\<close>

partial_function (option) mm_first_fit :: "addr \<Rightarrow> rb_heap \<Rightarrow> u32 \<Rightarrow> addr \<Rightarrow> addr option" where
  "mm_first_fit z h sz p =
     (if p = rb_null z then Some p
      else if \<not> xf_mm_block_length_less h p sz then Some p
      else mm_first_fit z h sz (rb_right h p))"

partial_function (option) mm_better_fit ::
    "addr \<Rightarrow> rb_heap \<Rightarrow> u32 \<Rightarrow> addr \<Rightarrow> addr \<Rightarrow> addr option" where
  "mm_better_fit z h sz p t =
     (if t = rb_null z then Some p
      else if \<not> xf_mm_block_length_less h t sz then mm_better_fit z h sz t (rb_left h t)
      else mm_better_fit z h sz p (rb_right h t))"

definition xf_mm_find_by_size :: "mm_pool \<Rightarrow> u32 \<Rightarrow> addr option" where
  "xf_mm_find_by_size pool sz =
     (let z = l_map pool; h = l_heap pool in
      case mm_first_fit z h sz (rb_root z h) of
        None \<Rightarrow> None
      | Some p \<Rightarrow> if p = rb_null z then Some NULL else mm_better_fit z h sz p (rb_left h p))"

partial_function (option) mm_addr_search ::
    "addr \<Rightarrow> rb_heap \<Rightarrow> addr \<Rightarrow> addr \<Rightarrow> addr \<Rightarrow> addr \<Rightarrow> (addr \<times> addr) option" where
  "mm_addr_search z h adr p l r =
     (if p = rb_null z then Some (l, r)
      else if p < adr then mm_addr_search z h adr (rb_right h p) p r
      else mm_addr_search z h adr (rb_left h p) l p)"

definition xf_mm_find_by_addr :: "mm_pool \<Rightarrow> addr \<Rightarrow> (addr \<times> addr) option" where
  "xf_mm_find_by_addr pool adr =
     (let z = a_map pool; h = a_heap pool in
      map_option (\<lambda>(l, r). (if l \<noteq> NULL then block_of_a_node l else NULL,
                            if r \<noteq> NULL then block_of_a_node r else NULL))
        (mm_addr_search z h adr (rb_root z h) NULL NULL))"

definition xf_mm_insert_size :: "mm_pool \<Rightarrow> addr \<Rightarrow> u32 \<Rightarrow> mm_pool option" where
  "xf_mm_insert_size pool b sz =
     map_option (\<lambda>h. pool\<lparr>l_heap := h\<rparr>)
       (rb_insert_by (\<lambda>p. xf_mm_block_length_less (l_heap pool) p sz) (l_map pool) (l_heap pool) b)"

definition xf_mm_insert_addr :: "mm_pool \<Rightarrow> addr \<Rightarrow> mm_pool option" where
  "xf_mm_insert_addr pool b =
     map_option (\<lambda>h. pool\<lparr>a_heap := h\<rparr>)
       (rb_insert_by (\<lambda>p. p < b) (a_map pool) (a_heap pool) (a_node_of b))"

text \<open>Deletion from the maps; the returned neighbour is not used by the allocator.\<close>

definition l_delete :: "mm_pool \<Rightarrow> addr \<Rightarrow> mm_pool option" where
  "l_delete pool b =
     map_option (\<lambda>(h, _). pool\<lparr>l_heap := h\<rparr>) (rb_delete (l_map pool) (l_heap pool) b)"

definition a_delete :: "mm_pool \<Rightarrow> addr \<Rightarrow> mm_pool option" where
  "a_delete pool b =
     map_option (\<lambda>(h, _). pool\<lparr>a_heap := h\<rparr>) (rb_delete (a_map pool) (a_heap pool) (a_node_of b))"

definition xf_mm_alloc :: "mm_pool \<Rightarrow> u32 \<Rightarrow> (mm_pool \<times> addr) option" where
  "xf_mm_alloc pool sz =
     (case xf_mm_find_by_size pool sz of
        None \<Rightarrow> None
      | Some b \<Rightarrow>
          if b = NULL then Some (pool, b)
          else case l_delete pool b of
            None \<Rightarrow> None
          | Some pool \<Rightarrow>
              (let (pool, sz) = xf_mm_block_length_sub pool b sz in
               if sz = 0 then map_option (\<lambda>pool. (pool, b)) (a_delete pool b)
               else map_option (\<lambda>pool. (pool, b + sz)) (xf_mm_insert_size pool b sz)))"

text \<open>
  Deallocation. The first step yields the block to insert, its address and size and whether the
  left neighbour was merged; the second the same for the right neighbour.
\<close>

definition mm_merge_left ::
    "mm_pool \<Rightarrow> addr \<Rightarrow> u32 \<Rightarrow> addr \<Rightarrow> (mm_pool \<times> addr \<times> addr \<times> u32 \<times> addr) option" where
  "mm_merge_left pool adr sz n0 =
     (if n0 \<noteq> NULL then
        if n0 + xf_mm_block_length (l_heap pool) n0 = adr then
          (case l_delete pool n0 of
             None \<Rightarrow> None
           | Some pool \<Rightarrow>
               (let (pool, sz) = xf_mm_block_length_add pool n0 sz
                in Some (pool, n0, n0, sz, n0)))
        else Some (pool, adr, adr, sz, NULL)
      else Some (pool, adr, adr, sz, NULL))"

definition mm_merge_right ::
    "mm_pool \<Rightarrow> addr \<Rightarrow> addr \<Rightarrow> u32 \<Rightarrow> addr \<Rightarrow> addr \<Rightarrow> (mm_pool \<times> u32 \<times> addr) option" where
  "mm_merge_right pool b adr sz n0 n1 =
     (if n1 \<noteq> NULL then
        if n1 = adr + sz then
          (case l_delete pool n1 of
             None \<Rightarrow> None
           | Some pool \<Rightarrow>
               (let (pool, sz) = xf_mm_block_length_add pool b (xf_mm_block_length (l_heap pool) n1) in
                if n0 \<noteq> NULL then map_option (\<lambda>pool. (pool, sz, n1)) (a_delete pool n1)
                else Some (pool\<lparr>a_heap := rb_replace (a_map pool) (a_heap pool) (a_node_of n1) (a_node_of b)\<rparr>,
                           sz, n1)))
        else Some (pool, sz, NULL)
      else Some (pool, sz, NULL))"

definition xf_mm_free :: "mm_pool \<Rightarrow> addr \<Rightarrow> u32 \<Rightarrow> mm_pool option" where
  "xf_mm_free pool adr sz =
     (let pool = xf_mm_block_init pool adr sz in
      case xf_mm_find_by_addr pool adr of
        None \<Rightarrow> None
      | Some (n0, n1) \<Rightarrow>
          case mm_merge_left pool adr sz n0 of
            None \<Rightarrow> None
          | Some (pool, b, adr, sz, n0) \<Rightarrow>
              case mm_merge_right pool b adr sz n0 n1 of
                None \<Rightarrow> None
              | Some (pool, sz, n1) \<Rightarrow>
                  case (if n0 = NULL \<and> n1 = NULL then xf_mm_insert_addr pool b else Some pool) of
                    None \<Rightarrow> None
                  | Some pool \<Rightarrow> xf_mm_insert_size pool b sz)"

text \<open>
  Initialisation: \<open>Inl\<close> is the error code \<^verbatim>\<open>XAF_INVALIDVAL_ERR\<close>. The masks are the code's
  \<^verbatim>\<open>sizeof(xf_mm_block_t) - 1\<close>. The statistics of the host's shared buffer are not part of the
  pool.
\<close>

definition xf_mm_init :: "mm_pool \<Rightarrow> addr \<Rightarrow> u32 \<Rightarrow> int + mm_pool option" where
  "xf_mm_init pool adr sz =
     (if adr AND (sizeof_block - 1) \<noteq> 0 then Inl (- 2)
      else if sz AND (sizeof_block - 1) \<noteq> 0 then Inl (- 2)
      else
        let pool = pool\<lparr>mm_addr := adr, mm_size := sz\<rparr>;
            pool = pool\<lparr>l_heap := rb_init (l_map pool) (l_heap pool),
                        a_heap := rb_init (a_map pool) (a_heap pool)\<rparr>
        in Inr (xf_mm_free pool adr sz))"

section \<open>The map by length\<close>

text \<open>
  \<open>lrel z h F\<close>: the tree at \<open>z\<close> holds the blocks of \<open>F\<close>, pairs of an address and an even
  length, in the order of their lengths, and their colour words carry the lengths.
\<close>

definition blen :: "rb_heap \<Rightarrow> addr \<Rightarrow> u64" where
  "blen h b = nd_color (h b) AND - 2"

definition lrel :: "addr \<Rightarrow> rb_heap \<Rightarrow> (addr \<times> u32) set \<Rightarrow> bool" where
  "lrel z h F \<longleftrightarrow>
     (\<exists>t. rb_tree_at z h t \<and> rbt t \<and> NULL \<notin> set (z # inorder t) \<and>
       set (inorder t) = fst ` F \<and> (\<forall>x \<in> F. blen h (fst x) = ucast (snd x) \<and> even (snd x)) \<and>
       sorted (map (blen h) (inorder t)))"

lemma lrelI:
  "rb_tree_at z h t \<Longrightarrow> rbt t \<Longrightarrow> NULL \<notin> set (z # inorder t) \<Longrightarrow> set (inorder t) = fst ` F \<Longrightarrow>
   \<forall>x \<in> F. blen h (fst x) = ucast (snd x) \<and> even (snd x) \<Longrightarrow> sorted (map (blen h) (inorder t)) \<Longrightarrow>
   lrel z h F"
  unfolding lrel_def by blast

lemma lrelE:
  assumes "lrel z h F"
  obtains t where "rb_tree_at z h t" "rbt t" "NULL \<notin> set (z # inorder t)" "set (inorder t) = fst ` F"
    "\<forall>x \<in> F. blen h (fst x) = ucast (snd x) \<and> even (snd x)" "sorted (map (blen h) (inorder t))"
  using assms unfolding lrel_def by blast

lemma blen_keeps: "rb_keeps z A h h' \<Longrightarrow> blen h' = blen h"
  by (rule ext) (simp add: rb_keeps_def blen_def)

text \<open>The comparison of the code looks at the whole colour word, which is harmless for even lengths.\<close>

lemma length_less_iff: "even n \<Longrightarrow> xf_mm_block_length_less h b n \<longleftrightarrow> blen h b < ucast n"
  unfolding xf_mm_block_length_less_def blen_def by (rule less_even_iff) (simp add: even_ucast_iff)

lemma xf_mm_block_length_blen: "xf_mm_block_length h b = ucast (blen h b)"
  by (simp add: xf_mm_block_length_def blen_def)

lemma block_length_eq: "blen h b = ucast n \<Longrightarrow> xf_mm_block_length h b = n"
  by (simp add: xf_mm_block_length_blen ucast_down_ucast_id is_down)

lemma lrel_distinct_len: "lrel z h F \<Longrightarrow> (b, n) \<in> F \<Longrightarrow> (b, m) \<in> F \<Longrightarrow> n = m"
  by (elim lrelE) (metis block_length_eq fst_conv snd_conv)

lemma l_delete_ok:
  assumes rel: "lrel (l_map p) (l_heap p) F" and b: "(b, n) \<in> F"
  shows "\<exists>h. l_delete p b = Some (p\<lparr>l_heap := h\<rparr>) \<and> lrel (l_map p) h {x \<in> F. fst x \<noteq> b} \<and>
    blen h = blen (l_heap p)"
proof -
  let ?z = "l_map p"
  from rel obtain t where t: "rb_tree_at ?z (l_heap p) t" "rbt t" "NULL \<notin> set (?z # inorder t)"
    "set (inorder t) = fst ` F" "\<forall>x \<in> F. blen (l_heap p) (fst x) = ucast (snd x) \<and> even (snd x)"
    "sorted (map (blen (l_heap p)) (inorder t))"
    by (rule lrelE)
  have "b \<in> set (inorder t)" using t(4) b by force
  from rb_delete_ordered [OF t(1-3) this] obtain h m t' where
    del: "rb_delete ?z (l_heap p) b = Some (h, m)" and t': "rb_tree_at ?z h t'" "rbt t'"
    "inorder t' = [x \<leftarrow> inorder t. x \<noteq> b]" and keeps: "rb_keeps ?z (set (inorder t)) (l_heap p) h"
    by blast
  have "lrel ?z h {x \<in> F. fst x \<noteq> b}"
    using t t' blen_keeps [OF keeps] by (intro lrelI [of ?z h t']) (auto intro: sorted_filter)
  with del blen_keeps [OF keeps] show ?thesis by (auto simp: l_delete_def)
qed

lemma l_insert_ok:
  assumes rel: "lrel (l_map p) (l_heap p) F" and b: "b \<notin> fst ` F" "b \<noteq> l_map p" "b \<noteq> NULL"
    and n: "blen (l_heap p) b = ucast n" "even n"
  shows "\<exists>h. xf_mm_insert_size p b n = Some (p\<lparr>l_heap := h\<rparr>) \<and> lrel (l_map p) h (insert (b, n) F) \<and>
    blen h = blen (l_heap p)"
proof -
  let ?z = "l_map p" and ?gr = "\<lambda>q. xf_mm_block_length_less (l_heap p) q n"
  from rel obtain t where t: "rb_tree_at ?z (l_heap p) t" "rbt t" "NULL \<notin> set (?z # inorder t)"
    "set (inorder t) = fst ` F" "\<forall>x \<in> F. blen (l_heap p) (fst x) = ucast (snd x) \<and> even (snd x)"
    "sorted (map (blen (l_heap p)) (inorder t))"
    by (rule lrelE)
  have "sorted_wrt (\<lambda>x y. ?gr y \<longrightarrow> ?gr x) (inorder t)"
    using t(6) n(2) unfolding sorted_map by (auto simp: length_less_iff elim!: sorted_wrt_mono_rel [rotated])
  with rb_insert_by_ok [OF t(1,2)] b t(4) obtain h t' where
    ins: "rb_insert_by ?gr ?z (l_heap p) b = Some h" and t': "rb_tree_at ?z h t'" "rbt t'"
    "inorder t' = [x \<leftarrow> inorder t. ?gr x] @ b # [x \<leftarrow> inorder t. \<not> ?gr x]"
    and keeps: "rb_keeps ?z (insert b (set (inorder t))) (l_heap p) h"
    by (metis insert_iff list.simps(15))
  have "sorted (map (blen h) (inorder t'))"
    unfolding t'(3) blen_keeps [OF keeps] using t(6) n
    by (auto simp: sorted_append length_less_iff intro: sorted_filter order_trans)
  then have "lrel ?z h (insert (b, n) F)"
    using t t' b n blen_keeps [OF keeps] by (intro lrelI [of ?z h t']) auto
  with ins blen_keeps [OF keeps] show ?thesis by (auto simp: xf_mm_insert_size_def)
qed


section \<open>Best fit\<close>

text \<open>
  Blocks that are long enough form a suffix of the map; the two loops find its first element.
\<close>

definition fits :: "rb_heap \<Rightarrow> u32 \<Rightarrow> addr \<Rightarrow> bool" where
  "fits h n b \<longleftrightarrow> \<not> xf_mm_block_length_less h b n"

lemma mm_better_fit_ok:
  "tree_at z h q x t \<Longrightarrow> sorted_wrt (\<lambda>x y. fits h n x \<longrightarrow> fits h n y) (inorder t) \<Longrightarrow>
   mm_better_fit z h n p x = Some (hd ([y \<leftarrow> inorder t. fits h n y] @ [p]))"
proof (induction t arbitrary: p q x)
  case Tip
  then show ?case by (simp add: mm_better_fit.simps rb_null_def)
next
  case (Bin c l a r)
  have x: "x = a" "a \<noteq> z" "tree_at z h a (rb_left h a) l" "tree_at z h a (rb_right h a) r"
    using Bin.prems(1) by (simp_all add: accessors)
  have srt: "sorted_wrt (\<lambda>x y. fits h n x \<longrightarrow> fits h n y) (inorder l)"
    "sorted_wrt (\<lambda>x y. fits h n x \<longrightarrow> fits h n y) (inorder r)"
    using Bin.prems(2) by (simp_all only: inorder.simps sorted_wrt_append sorted_wrt.simps)
  show ?case
  proof (cases "fits h n a")
    case True
    with x Bin.IH(1) [OF x(3) srt(1), of a] show ?thesis
      by (subst mm_better_fit.simps) (simp add: fits_def [symmetric] rb_null_def hd_append)
  next
    case False
    then have "\<not> fits h n y" if "y \<in> set (inorder l)" for y
      using Bin.prems(2) that by (auto simp: sorted_wrt_append)
    with False x Bin.IH(2) [OF x(4) srt(2), of p] show ?thesis
      by (subst mm_better_fit.simps) (simp add: fits_def [symmetric] rb_null_def filter_none)
  qed
qed

lemma mm_first_fit_ok:
  "tree_at z h q x t \<Longrightarrow> sorted_wrt (\<lambda>x y. fits h n x \<longrightarrow> fits h n y) (inorder t) \<Longrightarrow>
   (mm_first_fit z h n x = Some z \<and> [y \<leftarrow> inorder t. fits h n y] = []) \<or>
   (\<exists>q' c l a r. mm_first_fit z h n x = Some a \<and> tree_at z h q' a (Bin c l a r) \<and>
      sorted_wrt (\<lambda>x y. fits h n x \<longrightarrow> fits h n y) (inorder l) \<and>
      [y \<leftarrow> inorder t. fits h n y] = [y \<leftarrow> inorder l. fits h n y] @ a # [y \<leftarrow> inorder r. fits h n y])"
proof (induction t arbitrary: q x)
  case Tip
  then show ?case by (simp add: mm_first_fit.simps rb_null_def)
next
  case (Bin c l a r)
  have x: "x = a" "a \<noteq> z" "tree_at z h a (rb_right h a) r"
    using Bin.prems(1) by (simp_all add: accessors)
  have srt: "sorted_wrt (\<lambda>x y. fits h n x \<longrightarrow> fits h n y) (inorder l)"
    "sorted_wrt (\<lambda>x y. fits h n x \<longrightarrow> fits h n y) (inorder r)"
    using Bin.prems(2) by (simp_all only: inorder.simps sorted_wrt_append sorted_wrt.simps)
  show ?case
  proof (cases "fits h n a")
    case True
    then have "mm_first_fit z h n x = Some a"
      using x by (subst mm_first_fit.simps) (simp add: fits_def [symmetric] rb_null_def)
    moreover have "tree_at z h q a (Bin c l a r)" using Bin.prems(1) x by simp
    ultimately show ?thesis
      using True srt(1) by (intro disjI2 exI conjI) simp_all
  next
    case False
    then have "\<not> fits h n y" if "y \<in> set (inorder l)" for y
      using Bin.prems(2) that by (auto simp: sorted_wrt_append)
    then have "[y \<leftarrow> inorder (Bin c l a r). fits h n y] = [y \<leftarrow> inorder r. fits h n y]"
      using False by (simp add: filter_none)
    moreover have "mm_first_fit z h n x = mm_first_fit z h n (rb_right h a)"
      using x False by (subst mm_first_fit.simps) (simp add: fits_def [symmetric] rb_null_def)
    ultimately show ?thesis using Bin.IH(2) [OF x(3) srt(2)] by simp
  qed
qed

lemma fits_iff: "even n \<Longrightarrow> fits h n b \<longleftrightarrow> ucast n \<le> blen h b"
  by (simp add: fits_def length_less_iff not_less)

lemma find_by_size_hd:
  assumes "rb_tree_at (l_map p) (l_heap p) t" and "sorted (map (blen (l_heap p)) (inorder t))"
    and n: "even n"
  shows "xf_mm_find_by_size p n = Some (hd ([y \<leftarrow> inorder t. fits (l_heap p) n y] @ [NULL]))"
proof -
  let ?z = "l_map p" and ?h = "l_heap p"
  have tree: "tree_at ?z ?h ?z (rb_root ?z ?h) t" "?z \<notin> set (inorder t)"
    using assms(1) by (simp_all add: rb_tree_at_def accessors)
  have srt: "sorted_wrt (\<lambda>x y. fits ?h n x \<longrightarrow> fits ?h n y) (inorder t)"
    using assms(2) n unfolding sorted_map by (auto simp: fits_iff elim!: sorted_wrt_mono_rel [rotated])
  from mm_first_fit_ok [OF tree(1) srt] show ?thesis
  proof (elim disjE exE conjE)
    fix q' c l a r
    assume a: "mm_first_fit ?z ?h n (rb_root ?z ?h) = Some a" "tree_at ?z ?h q' a (Bin c l a r)"
      "sorted_wrt (\<lambda>x y. fits ?h n x \<longrightarrow> fits ?h n y) (inorder l)"
      "[y \<leftarrow> inorder t. fits ?h n y] = [y \<leftarrow> inorder l. fits ?h n y] @ a # [y \<leftarrow> inorder r. fits ?h n y]"
    then have "mm_better_fit ?z ?h n a (rb_left ?h a) = Some (hd ([y \<leftarrow> inorder l. fits ?h n y] @ [a]))"
      by (intro mm_better_fit_ok [of _ _ a]) (simp_all add: accessors)
    with a show ?thesis
      by (simp add: xf_mm_find_by_size_def rb_null_def hd_append)
  qed (simp add: xf_mm_find_by_size_def rb_null_def)
qed

lemma unat_ucast_64: "unat (ucast (a :: u32) :: u64) = unat a"
proof -
  have "unat a < 2 ^ 64" using unsigned_less [of a, where ?'a = nat] by simp
  then show ?thesis by (simp add: unsigned_ucast_eq take_bit_nat_eq_self)
qed

lemma ucast_le: "(ucast (a :: u32) :: u64) \<le> ucast b \<longleftrightarrow> a \<le> b"
  by (simp add: word_le_nat_alt unat_ucast_64)

lemma ucast_inj: "(ucast (a :: u32) :: u64) = ucast b \<longleftrightarrow> a = b"
  using ucast_le [of a b] ucast_le [of b a] by (auto intro: antisym)

lemma find_by_size_ok:
  assumes rel: "lrel (l_map p) (l_heap p) F" and n: "even n"
  shows "(xf_mm_find_by_size p n = Some NULL \<and> (\<forall>x \<in> F. snd x < n)) \<or>
    (\<exists>b m. xf_mm_find_by_size p n = Some b \<and> b \<noteq> NULL \<and> (b, m) \<in> F \<and> n \<le> m \<and>
       (\<forall>x \<in> F. n \<le> snd x \<longrightarrow> m \<le> snd x))"
proof -
  let ?h = "l_heap p"
  from rel obtain t where t: "rb_tree_at (l_map p) ?h t" "NULL \<notin> set (l_map p # inorder t)"
    "set (inorder t) = fst ` F" and len: "\<forall>x \<in> F. blen ?h (fst x) = ucast (snd x) \<and> even (snd x)"
    and srt: "sorted (map (blen ?h) (inorder t))"
    by (rule lrelE)
  have find: "xf_mm_find_by_size p n = Some (hd ([y \<leftarrow> inorder t. fits ?h n y] @ [NULL]))"
    using t(1) srt n by (rule find_by_size_hd)
  have fits: "fits ?h n (fst x) \<longleftrightarrow> n \<le> snd x" if "x \<in> F" for x
    using that len n by (simp add: fits_iff ucast_le)
  show ?thesis
  proof (cases "[y \<leftarrow> inorder t. fits ?h n y]")
    case Nil
    then have "\<forall>x \<in> F. \<not> fits ?h n (fst x)" using t(3) by (auto simp: filter_empty_conv)
    with Nil find fits show ?thesis by (auto simp: not_le)
  next
    case (Cons b bs)
    then have "b \<in> set [y \<leftarrow> inorder t. fits ?h n y]" by simp
    then have b: "b \<in> set (inorder t)" "fits ?h n b" by auto
    then obtain m where m: "(b, m) \<in> F" using t(3) by force
    have "sorted (map (blen ?h) (b # bs))"
      unfolding Cons [symmetric] using srt by (rule sorted_filter)
    then have "\<forall>y \<in> set (b # bs). blen ?h b \<le> blen ?h y" by simp
    then have least: "\<forall>y \<in> set (inorder t). fits ?h n y \<longrightarrow> blen ?h b \<le> blen ?h y"
      unfolding Cons [symmetric] by simp
    have "m \<le> snd x" if "x \<in> F" "n \<le> snd x" for x
    proof -
      have "blen ?h b \<le> blen ?h (fst x)" using least that fits [OF that(1)] t(3) by simp
      with len m that show ?thesis using ucast_le [of m "snd x"] by fastforce
    qed
    then show ?thesis
      using find Cons b t(2) m fits [OF m] by (intro disjI2 exI [of _ b] exI [of _ m]) auto
  qed
qed


section \<open>The map by address\<close>

text \<open>
  \<open>arel z h bs\<close>: the tree at \<open>z\<close> holds the second nodes of the blocks \<open>bs\<close>, in this order.
  The code compares the address of a node with the address of a block, which gives the order of
  the blocks as long as every block is longer than the offset of the node in it (\<open>apart\<close>).
\<close>

definition arel :: "addr \<Rightarrow> rb_heap \<Rightarrow> addr list \<Rightarrow> bool" where
  "arel z h bs \<longleftrightarrow>
     (\<exists>t. rb_tree_at z h t \<and> rbt t \<and> NULL \<notin> set (z # inorder t) \<and> inorder t = map a_node_of bs)"

lemma arelI:
  "rb_tree_at z h t \<Longrightarrow> rbt t \<Longrightarrow> NULL \<notin> set (z # inorder t) \<Longrightarrow> inorder t = map a_node_of bs \<Longrightarrow> arel z h bs"
  unfolding arel_def by blast

lemma arelE:
  assumes "arel z h bs"
  obtains t where "rb_tree_at z h t" "rbt t" "NULL \<notin> set (z # inorder t)" "inorder t = map a_node_of bs"
  using assms unfolding arel_def by blast

definition apart :: "addr \<Rightarrow> addr \<Rightarrow> bool" where
  "apart c b \<longleftrightarrow> unat c + 24 < 2 ^ 32 \<and> (c < b \<longrightarrow> unat c + 24 < unat b)"

lemma unat_a_node: "unat c + 24 < 2 ^ 32 \<Longrightarrow> unat (a_node_of c) = unat c + 24"
  unfolding a_node_of_def using unat_add_lem [of c 24] by simp

lemma a_node_less: "apart c b \<Longrightarrow> a_node_of c < b \<longleftrightarrow> c < b"
  using unat_a_node [of c] by (auto simp: apart_def word_less_nat_alt)

lemma a_node_inj: "a_node_of b = a_node_of c \<longleftrightarrow> b = c"
  by (simp add: a_node_of_def)

lemma block_of_a_node [simp]: "block_of_a_node (a_node_of b) = b"
  by (simp add: block_of_a_node_def a_node_of_def)

lemma filter_a_node:
  "\<forall>c \<in> set bs. apart c b \<Longrightarrow> [p \<leftarrow> map a_node_of bs. p < b] = map a_node_of [c \<leftarrow> bs. c < b]"
  "\<forall>c \<in> set bs. apart c b \<Longrightarrow> [p \<leftarrow> map a_node_of bs. \<not> p < b] = map a_node_of [c \<leftarrow> bs. \<not> c < b]"
  by (induction bs) (auto simp: a_node_less)

lemma mm_addr_search_ok:
  "tree_at z h q x t \<Longrightarrow> sorted_wrt (\<lambda>x y. y < b \<longrightarrow> x < b) (inorder t) \<Longrightarrow>
   mm_addr_search z h b x l r =
     Some (last (l # [p \<leftarrow> inorder t. p < b]), hd ([p \<leftarrow> inorder t. \<not> p < b] @ [r]))"
proof (induction t arbitrary: q x l r)
  case Tip
  then show ?case by (simp add: mm_addr_search.simps rb_null_def)
next
  case (Bin c tl a tr)
  have x: "x = a" "a \<noteq> z" "tree_at z h a (rb_left h a) tl" "tree_at z h a (rb_right h a) tr"
    using Bin.prems(1) by (simp_all add: accessors)
  have srt: "sorted_wrt (\<lambda>x y. y < b \<longrightarrow> x < b) (inorder tl)"
    "sorted_wrt (\<lambda>x y. y < b \<longrightarrow> x < b) (inorder tr)"
    using Bin.prems(2) by (simp_all only: inorder.simps sorted_wrt_append sorted_wrt.simps)
  show ?case
  proof (cases "a < b")
    case True
    then have "y < b" if "y \<in> set (inorder tl)" for y
      using Bin.prems(2) that by (auto simp: sorted_wrt_append)
    with True x Bin.IH(2) [OF x(4) srt(2), of a r] show ?thesis
      by (subst mm_addr_search.simps) (simp add: rb_null_def filter_none)
  next
    case False
    then have "\<not> y < b" if "y \<in> set (inorder tr)" for y
      using Bin.prems(2) that by (auto simp: sorted_wrt_append)
    with False x Bin.IH(1) [OF x(3) srt(1), of l a] show ?thesis
      by (subst mm_addr_search.simps) (simp add: rb_null_def filter_none hd_append)
  qed
qed

lemma find_by_addr_ok:
  assumes rel: "arel (a_map p) (a_heap p) bs" and ap: "\<forall>c \<in> set bs. apart c b"
    and srt: "sorted_wrt (<) bs" and null: "NULL \<notin> set bs"
  shows "xf_mm_find_by_addr p b =
    Some (last (NULL # [c \<leftarrow> bs. c < b]), hd ([c \<leftarrow> bs. \<not> c < b] @ [NULL]))"
proof -
  let ?z = "a_map p" and ?h = "a_heap p"
  from rel obtain t where t: "rb_tree_at ?z ?h t" "NULL \<notin> set (?z # inorder t)"
    "inorder t = map a_node_of bs"
    by (rule arelE)
  have "sorted_wrt (\<lambda>x y. y < b \<longrightarrow> x < b) (inorder t)"
    unfolding t(3) sorted_wrt_map using ap srt
    by (auto simp: a_node_less elim!: sorted_wrt_mono_rel [rotated])
  moreover have "tree_at ?z ?h ?z (rb_root ?z ?h) t" using t(1) by (simp add: rb_tree_at_def accessors)
  ultimately have "mm_addr_search ?z ?h b (rb_root ?z ?h) NULL NULL =
      Some (last (NULL # map a_node_of [c \<leftarrow> bs. c < b]), hd (map a_node_of [c \<leftarrow> bs. \<not> c < b] @ [NULL]))"
    using mm_addr_search_ok [of ?z ?h ?z "rb_root ?z ?h" t b NULL NULL] ap
    unfolding t(3) by (simp only: filter_a_node)
  moreover have nz: "a_node_of c \<noteq> NULL" if "c \<in> set bs" for c
    using t(2,3) that by (metis image_eqI list.set_map set_subset_Cons subsetD)
  moreover have "last [c \<leftarrow> bs. c < b] \<in> set bs" if "[c \<leftarrow> bs. c < b] \<noteq> []"
    using last_in_set [OF that] by simp
  moreover have "hd [c \<leftarrow> bs. \<not> c < b] \<in> set bs" if "[c \<leftarrow> bs. \<not> c < b] \<noteq> []"
    using hd_in_set [OF that] by simp
  ultimately show ?thesis
    using null by (simp add: xf_mm_find_by_addr_def last_map hd_append hd_map)
qed

lemma a_delete_ok:
  assumes rel: "arel (a_map p) (a_heap p) bs" and b: "b \<in> set bs"
  shows "\<exists>h. a_delete p b = Some (p\<lparr>a_heap := h\<rparr>) \<and> arel (a_map p) h [c \<leftarrow> bs. c \<noteq> b]"
proof -
  from rel obtain t where t: "rb_tree_at (a_map p) (a_heap p) t" "rbt t" "NULL \<notin> set (a_map p # inorder t)"
    "inorder t = map a_node_of bs"
    by (rule arelE)
  have "a_node_of b \<in> set (inorder t)" using t(4) b by simp
  from rb_delete_ordered [OF t(1-3) this] obtain h m t' where
    del: "rb_delete (a_map p) (a_heap p) (a_node_of b) = Some (h, m)" and t': "rb_tree_at (a_map p) h t'" "rbt t'"
    "inorder t' = [x \<leftarrow> inorder t. x \<noteq> a_node_of b]"
    by blast
  have "inorder t' = map a_node_of [c \<leftarrow> bs. c \<noteq> b]"
    unfolding t'(3) t(4) by (simp add: filter_map comp_def a_node_inj)
  with t(3,4) t' have "arel (a_map p) h [c \<leftarrow> bs. c \<noteq> b]"
    by (intro arelI [of _ _ t']) auto
  with del show ?thesis by (auto simp: a_delete_def)
qed

lemma a_insert_ok:
  assumes rel: "arel (a_map p) (a_heap p) bs" and ap: "\<forall>c \<in> set bs. apart c b"
    and srt: "sorted_wrt (<) bs" and b: "b \<notin> set bs" "a_node_of b \<noteq> a_map p" "a_node_of b \<noteq> NULL"
  shows "\<exists>h. xf_mm_insert_addr p b = Some (p\<lparr>a_heap := h\<rparr>) \<and>
    arel (a_map p) h ([c \<leftarrow> bs. c < b] @ b # [c \<leftarrow> bs. \<not> c < b])"
proof -
  from rel obtain t where t: "rb_tree_at (a_map p) (a_heap p) t" "rbt t" "NULL \<notin> set (a_map p # inorder t)"
    "inorder t = map a_node_of bs"
    by (rule arelE)
  have mono: "sorted_wrt (\<lambda>x y. y < b \<longrightarrow> x < b) (inorder t)"
    unfolding t(4) sorted_wrt_map using ap srt
    by (auto simp: a_node_less elim!: sorted_wrt_mono_rel [rotated])
  have new: "a_node_of b \<notin> set (a_map p # inorder t)"
    using t(4) b by (auto simp: a_node_inj)
  from rb_insert_by_ok [OF t(1,2) new mono] obtain h t' where
    ins: "rb_insert_by (\<lambda>x. x < b) (a_map p) (a_heap p) (a_node_of b) = Some h"
    and t': "rb_tree_at (a_map p) h t'" "rbt t'"
    "inorder t' = [x \<leftarrow> inorder t. x < b] @ a_node_of b # [x \<leftarrow> inorder t. \<not> x < b]"
    by blast
  have "arel (a_map p) h ([c \<leftarrow> bs. c < b] @ b # [c \<leftarrow> bs. \<not> c < b])"
    using t(3,4) t' ap b(3) by (intro arelI [of _ _ t']) (auto simp: filter_a_node)
  with ins show ?thesis by (auto simp: xf_mm_insert_addr_def)
qed

lemma inorder_plug_at:
  "inorder t = xs @ n # ys \<Longrightarrow> distinct (inorder t) \<Longrightarrow>
   \<exists>k c l r. t = plug k (Bin c l n r) \<and> ctx_pre k @ inorder l = xs \<and> inorder r @ ctx_post k = ys"
proof -
  assume t: "inorder t = xs @ n # ys" "distinct (inorder t)"
  then obtain k c l r where k: "t = plug k (Bin c l n r)"
    using in_tree_split [of n t] by auto
  then have "(ctx_pre k @ inorder l) @ n # inorder r @ ctx_post k = xs @ n # ys"
    using t(1) by (simp add: inorder_plug)
  moreover have "n \<notin> set (ctx_pre k @ inorder l)" "n \<notin> set (inorder r @ ctx_post k)"
    using t(2) k by (auto simp: inorder_plug)
  ultimately have "ctx_pre k @ inorder l = xs \<and> inorder r @ ctx_post k = ys"
    using t by (metis append_Cons_eq_iff distinct.simps(2) distinct_append not_distinct_conv_prefix)
  with k show ?thesis by blast
qed

lemma a_replace_ok:
  assumes rel: "arel z h (xs @ c # ys)" and b: "b \<notin> set (xs @ c # ys)" "a_node_of b \<noteq> z" "a_node_of b \<noteq> NULL"
  shows "arel z (rb_replace z h (a_node_of c) (a_node_of b)) (xs @ b # ys)"
proof -
  from rel obtain t where t: "rb_tree_at z h t" "rbt t" "NULL \<notin> set (z # inorder t)"
    "inorder t = map a_node_of (xs @ c # ys)"
    by (rule arelE)
  then obtain k cc l r where k: "t = plug k (Bin cc l (a_node_of c) r)"
    "ctx_pre k @ inorder l = map a_node_of xs" "inorder r @ ctx_post k = map a_node_of ys"
    using inorder_plug_at [of t "map a_node_of xs" "a_node_of c" "map a_node_of ys"]
    by (auto simp: rb_tree_at_def)
  have "a_node_of b \<notin> set (inorder t)" using t(4) b(1) by (auto simp: a_node_inj)
  then have "rb_tree_at z (rb_replace z h (a_node_of c) (a_node_of b)) (plug k (Bin cc l (a_node_of b) r))"
    using t(1) k(1) b(2) by (intro rb_replace_ok) auto
  moreover have "rbt (plug k (Bin cc l (a_node_of b) r))"
    using t(2) k(1) by (simp add: rbt_plug)
  moreover have "inorder (plug k (Bin cc l (a_node_of b) r)) = map a_node_of (xs @ b # ys)"
    using k(2,3) by (simp add: inorder_plug)
  moreover have "NULL \<notin> set (map a_node_of (xs @ b # ys))" "z \<noteq> NULL"
    using t(3,4) b(3) by auto
  ultimately show ?thesis by (intro arelI) auto
qed


section \<open>Free lists\<close>

text \<open>
  A block is its address with its length. A free list is sorted by address, and between two blocks
  there is at least one byte that is not free: neighbours have been merged.
\<close>

type_synonym blk = "addr \<times> u32"

definition bend :: "blk \<Rightarrow> nat" where
  "bend x = unat (fst x) + unat (snd x)"

definition fl_ok :: "blk list \<Rightarrow> bool" where
  "fl_ok fl \<longleftrightarrow> sorted_wrt (\<lambda>x y. bend x < unat (fst y)) fl"

definition blk_ok :: "mm_pool \<Rightarrow> blk \<Rightarrow> bool" where
  "blk_ok p x \<longleftrightarrow> fst x \<noteq> NULL \<and> 64 dvd unat (fst x) \<and> 64 dvd unat (snd x) \<and> 0 < unat (snd x) \<and>
     bend x < 2 ^ 32 \<and> fst x \<noteq> l_map p \<and> a_node_of (fst x) \<noteq> a_map p \<and> a_node_of (fst x) \<noteq> NULL"

definition mm_inv :: "mm_pool \<Rightarrow> blk list \<Rightarrow> bool" where
  "mm_inv p fl \<longleftrightarrow> (\<forall>x \<in> set fl. blk_ok p x) \<and> fl_ok fl \<and>
     lrel (l_map p) (l_heap p) (set fl) \<and> arel (a_map p) (a_heap p) (map fst fl)"

lemma blk_ok_heaps [simp]:
  "blk_ok (p\<lparr>l_heap := h\<rparr>) x = blk_ok p x" "blk_ok (p\<lparr>a_heap := h\<rparr>) x = blk_ok p x"
  by (simp_all add: blk_ok_def)

lemma blk_ok_len: "blk_ok p x \<Longrightarrow> 64 \<le> unat (snd x)"
  by (auto simp: blk_ok_def intro: dvd_imp_le)

lemma blk_ok_even: "blk_ok p x \<Longrightarrow> even (snd x)"
  using even_unat_iff32 [of "snd x"] by (auto simp: blk_ok_def elim!: dvdE)

lemma fl_ok_starts: "fl_ok fl \<Longrightarrow> sorted_wrt (<) (map fst fl)"
  unfolding fl_ok_def sorted_wrt_map
  by (erule sorted_wrt_mono_rel [rotated]) (simp add: bend_def word_less_nat_alt)

lemma fl_ok_distinct: "fl_ok fl \<Longrightarrow> distinct (map fst fl)"
  by (drule fl_ok_starts) (simp add: strict_sorted_iff)

subsection \<open>Lengths in the colour words\<close>

lemma clear_sub_even: "even (n :: u64) \<Longrightarrow> (c - n) AND - 2 = (c AND - 2) - n"
  by (simp add: clear_bit_0 and_one_eq mod_2_eq_odd even_sub_iff)

lemma clear_add_even: "even (n :: u64) \<Longrightarrow> (c + n) AND - 2 = (c AND - 2) + n"
  by (simp add: clear_bit_0 and_one_eq mod_2_eq_odd)

lemma ucast_sub_len: "n \<le> m \<Longrightarrow> (ucast (m :: u32) - ucast n :: u64) = ucast (m - n)"
  by (simp add: word_unat_eq_iff unat_sub ucast_le unat_ucast_64)

lemma unat_add_len: "unat (m :: u32) + unat n < 2 ^ 32 \<Longrightarrow> unat (m + n) = unat m + unat n"
  using unat_add_lem [of m n] by simp

lemma ucast_add_len:
  assumes "unat (m :: u32) + unat n < 2 ^ 32"
  shows "(ucast m + ucast n :: u64) = ucast (m + n)"
proof -
  have "unat (ucast m :: u64) + unat (ucast n :: u64) < 2 ^ 64"
    using assms by (simp add: unat_ucast_64)
  then have "unat (ucast m + ucast n :: u64) = unat m + unat n"
    using unat_add_lem [of "ucast m :: u64" "ucast n"] by (simp add: unat_ucast_64)
  then show ?thesis
    using unat_add_len [OF assms] by (simp add: word_unat_eq_iff unat_ucast_64)
qed

definition set_len :: "mm_pool \<Rightarrow> addr \<Rightarrow> u64 \<Rightarrow> mm_pool" where
  "set_len p b c = p\<lparr>l_heap := (l_heap p)(b := (l_heap p b)\<lparr>nd_color := c\<rparr>)\<rparr>"

lemma set_len_simps [simp]:
  "l_map (set_len p b c) = l_map p" "a_map (set_len p b c) = a_map p"
  "a_heap (set_len p b c) = a_heap p" "blk_ok (set_len p b c) x = blk_ok p x"
  "blen (l_heap (set_len p b c)) b = c AND - 2"
  by (simp_all add: set_len_def blk_ok_def blen_def)

lemma length_sub_ok:
  assumes "blen (l_heap p) b = ucast m" and "n \<le> m" and "even n"
  shows "\<exists>c. xf_mm_block_length_sub p b n = (set_len p b c, m - n) \<and> c AND - 2 = ucast (m - n)"
proof -
  have "(nd_color (l_heap p b) - ucast n) AND - 2 = ucast (m - n)"
    using assms by (simp add: clear_sub_even even_ucast_iff blen_def [symmetric] ucast_sub_len)
  then show ?thesis
    by (intro exI [of _ "nd_color (l_heap p b) - ucast n"])
      (simp add: xf_mm_block_length_sub_def Let_def set_len_def ucast_down_ucast_id is_down)
qed

lemma length_add_ok:
  assumes "blen (l_heap p) b = ucast m" and "unat m + unat n < 2 ^ 32" and "even n"
  shows "\<exists>c. xf_mm_block_length_add p b n = (set_len p b c, m + n) \<and> c AND - 2 = ucast (m + n)"
proof -
  have "(nd_color (l_heap p b) + ucast n) AND - 2 = ucast (m + n)"
    using assms by (simp add: clear_add_even even_ucast_iff blen_def [symmetric] ucast_add_len)
  then show ?thesis
    by (intro exI [of _ "nd_color (l_heap p b) + ucast n"])
      (simp add: xf_mm_block_length_add_def Let_def set_len_def ucast_down_ucast_id is_down)
qed

lemma lrel_frame:
  assumes "lrel z h F" and "b \<notin> fst ` F" and "b \<noteq> z"
  shows "lrel z (h(b := v)) F"
proof -
  from assms(1) obtain t where t: "rb_tree_at z h t" "rbt t" "NULL \<notin> set (z # inorder t)" "set (inorder t) = fst ` F"
    "\<forall>x \<in> F. blen h (fst x) = ucast (snd x) \<and> even (snd x)" "sorted (map (blen h) (inorder t))"
    by (rule lrelE)
  have "map (blen (h(b := v))) (inorder t) = map (blen h) (inorder t)"
    using t(4) assms(2) by (auto simp: blen_def)
  moreover have "blen (h(b := v)) (fst x) = blen h (fst x)" if "x \<in> F" for x
    using that assms(2) by (force simp: blen_def)
  moreover have "rb_tree_at z (h(b := v)) t"
    using t(1,4) assms(2,3) by (auto simp: rb_tree_at_def frame)
  ultimately show ?thesis using t by (intro lrelI [of z _ t]) (simp_all del: map_eq_conv)
qed

lemma lrel_set_len:
  "lrel (l_map p) (l_heap p) F \<Longrightarrow> b \<notin> fst ` F \<Longrightarrow> b \<noteq> l_map p \<Longrightarrow>
   lrel (l_map p) (l_heap (set_len p b c)) F"
  by (simp add: set_len_def lrel_frame)

section \<open>Allocation\<close>

text \<open>
  The tail of a shortest block that is long enough goes to the caller; a block of exactly the
  requested length leaves both maps.
\<close>

definition fl_take :: "blk list \<Rightarrow> blk \<Rightarrow> u32 \<Rightarrow> blk list" where
  "fl_take fl x n =
     (if snd x = n then [y \<leftarrow> fl. y \<noteq> x]
      else map (\<lambda>y. if y = x then (fst x, snd x - n) else y) fl)"

lemma fl_key: "fl_ok fl \<Longrightarrow> x \<in> set fl \<Longrightarrow> y \<in> set fl \<Longrightarrow> fst x = fst y \<Longrightarrow> x = y"
  using eq_key_imp_eq_value [OF fl_ok_distinct] by (metis prod.collapse)

lemma fl_take_starts:
  assumes "fl_ok fl" and "x \<in> set fl"
  shows "map fst (fl_take fl x n) = (if snd x = n then [b \<leftarrow> map fst fl. b \<noteq> fst x] else map fst fl)"
  using fl_key [OF assms(1)] assms(2)
  by (cases x) (auto simp: fl_take_def filter_map comp_def intro!: arg_cong [of _ _ "map fst"] filter_cong)

lemma fl_take_set:
  assumes "fl_ok fl" and "x \<in> set fl"
  shows "set (fl_take fl x n) =
    (if snd x = n then {y \<in> set fl. fst y \<noteq> fst x}
     else insert (fst x, snd x - n) {y \<in> set fl. fst y \<noteq> fst x})"
  using fl_key [OF assms(1)] assms(2) by (cases x) (auto simp: fl_take_def)

lemma fl_ok_map_shrink:
  "fl_ok fl \<Longrightarrow> (\<And>y. y \<in> set fl \<Longrightarrow> fst (f y) = fst y \<and> bend (f y) \<le> bend y) \<Longrightarrow> fl_ok (map f fl)"
  unfolding fl_ok_def sorted_wrt_map
  by (erule sorted_wrt_mono_rel [rotated]) (auto intro: le_less_trans)

lemma fl_ok_filter: "fl_ok fl \<Longrightarrow> fl_ok (filter P fl)"
  unfolding fl_ok_def by (rule sorted_wrt_filter)

lemma fl_take_ok: "fl_ok fl \<Longrightarrow> x \<in> set fl \<Longrightarrow> n \<le> snd x \<Longrightarrow> fl_ok (fl_take fl x n)"
  by (auto simp: fl_take_def bend_def word_le_nat_alt unat_sub intro!: fl_ok_filter fl_ok_map_shrink)

lemma blk_ok_shrink:
  assumes "blk_ok p (b, m)" and "64 dvd unat n" and "n \<le> m" and "m \<noteq> n"
  shows "blk_ok p (b, m - n)"
proof -
  have "unat (m - n) = unat m - unat n" "unat n < unat m"
    using assms(3,4) by (simp_all add: unat_sub word_le_nat_alt le_neq_implies_less word_unat_eq_iff)
  with assms show ?thesis by (auto simp: blk_ok_def bend_def intro: dvd_diff_nat)
qed

lemma xf_mm_alloc_ok:
  assumes inv: "mm_inv p fl" and n: "64 dvd unat n"
  shows "(xf_mm_alloc p n = Some (p, NULL) \<and> (\<forall>x \<in> set fl. snd x < n)) \<or>
    (\<exists>x p'. x \<in> set fl \<and> n \<le> snd x \<and> (\<forall>y \<in> set fl. n \<le> snd y \<longrightarrow> snd x \<le> snd y) \<and>
       xf_mm_alloc p n = Some (p', fst x + (snd x - n)) \<and> mm_inv p' (fl_take fl x n) \<and>
       l_map p' = l_map p \<and> a_map p' = a_map p)"
proof -
  have ok: "\<forall>x \<in> set fl. blk_ok p x" "fl_ok fl" and l: "lrel (l_map p) (l_heap p) (set fl)"
    and a: "arel (a_map p) (a_heap p) (map fst fl)"
    using inv by (simp_all add: mm_inv_def)
  have ev: "even n" using n even_unat_iff32 [of n] by (auto elim!: dvdE)
  from find_by_size_ok [OF l ev] show ?thesis
  proof (elim disjE exE conjE)
    fix b m
    assume find: "xf_mm_find_by_size p n = Some b" and b: "b \<noteq> NULL" "(b, m) \<in> set fl" "n \<le> m"
      and least: "\<forall>x \<in> set fl. n \<le> snd x \<longrightarrow> m \<le> snd x"
    let ?F = "{y \<in> set fl. fst y \<noteq> b}"
    obtain h where del: "l_delete p b = Some (p\<lparr>l_heap := h\<rparr>)" "lrel (l_map p) h ?F" "blen h = blen (l_heap p)"
      using l_delete_ok [OF l b(2)] by blast
    have len: "blen (l_heap p) b = ucast m" using l b(2) by (auto simp: lrel_def)
    obtain c where sub: "xf_mm_block_length_sub (p\<lparr>l_heap := h\<rparr>) b n = (set_len (p\<lparr>l_heap := h\<rparr>) b c, m - n)"
      and c: "c AND - 2 = ucast (m - n)"
      using length_sub_ok [of "p\<lparr>l_heap := h\<rparr>" b m n] len del(3) b(3) ev by auto
    let ?p = "set_len (p\<lparr>l_heap := h\<rparr>) b c"
    have bp: "blk_ok p (b, m)" using ok(1) b(2) by blast
    then have bz: "b \<noteq> l_map p" by (simp add: blk_ok_def)
    have l': "lrel (l_map ?p) (l_heap ?p) ?F"
      using lrel_set_len [of "p\<lparr>l_heap := h\<rparr>" ?F b c] del(2) bz by auto
    have a': "arel (a_map ?p) (a_heap ?p) (map fst fl)" using a by simp
    have ok': "fl_ok (fl_take fl (b, m) n)" using ok(2) b(2,3) by (simp add: fl_take_ok)
    show ?thesis
    proof (cases "m = n")
      case True
      obtain h2 where adel: "a_delete ?p b = Some (?p\<lparr>a_heap := h2\<rparr>)"
        "arel (a_map ?p) h2 [x \<leftarrow> map fst fl. x \<noteq> b]"
        using a_delete_ok [OF a', of b] b(2) by force
      have "mm_inv (?p\<lparr>a_heap := h2\<rparr>) (fl_take fl (b, m) n)"
        using True ok ok' l' adel(2) fl_take_starts [OF ok(2) b(2), of n] fl_take_set [OF ok(2) b(2), of n]
        by (simp add: mm_inv_def)
      moreover have "xf_mm_alloc p n = Some (?p\<lparr>a_heap := h2\<rparr>, b + (m - n))"
        using True find b(1) del(1) sub adel(1) by (simp add: xf_mm_alloc_def)
      ultimately show ?thesis
        using b least True by (intro disjI2 exI [of _ "(b, m)"] exI [of _ "?p\<lparr>a_heap := h2\<rparr>"]) auto
    next
      case False
      have ev': "even (m - n)" using blk_ok_even [OF blk_ok_shrink [OF bp n b(3) False]] by simp
      obtain h2 where lins: "xf_mm_insert_size ?p b (m - n) = Some (?p\<lparr>l_heap := h2\<rparr>)"
        "lrel (l_map ?p) h2 (insert (b, m - n) ?F)"
        using l_insert_ok [OF l', of b "m - n"] bz b(1) c ev' by auto
      have "mm_inv (?p\<lparr>l_heap := h2\<rparr>) (fl_take fl (b, m) n)"
        using False ok ok' a lins(2) blk_ok_shrink [OF bp n b(3) False]
          fl_take_starts [OF ok(2) b(2), of n] fl_take_set [OF ok(2) b(2), of n]
        by (simp add: mm_inv_def)
      moreover have "xf_mm_alloc p n = Some (?p\<lparr>l_heap := h2\<rparr>, b + (m - n))"
        using False find b(1) del(1) sub lins(1) by (simp add: xf_mm_alloc_def)
      ultimately show ?thesis
        using b least by (intro disjI2 exI [of _ "(b, m)"] exI [of _ "?p\<lparr>l_heap := h2\<rparr>"]) auto
    qed
  qed (simp add: xf_mm_alloc_def)
qed


section \<open>Deallocation\<close>

text \<open>
  The specification: the block joins the free list between its neighbours, merged with the ones it
  touches.
\<close>

definition touches_left :: "blk list \<Rightarrow> blk \<Rightarrow> bool" where
  "touches_left xs x \<longleftrightarrow> xs \<noteq> [] \<and> bend (last xs) = unat (fst x)"

definition touches_right :: "blk \<Rightarrow> blk list \<Rightarrow> bool" where
  "touches_right x ys \<longleftrightarrow> ys \<noteq> [] \<and> bend x = unat (fst (hd ys))"

definition join :: "blk \<Rightarrow> blk \<Rightarrow> blk" where
  "join x y = (fst x, snd x + snd y)"

definition fl_put :: "blk list \<Rightarrow> blk \<Rightarrow> blk list \<Rightarrow> blk list" where
  "fl_put xs x ys =
     (if touches_left xs x then
        if touches_right x ys then butlast xs @ join (join (last xs) x) (hd ys) # tl ys
        else butlast xs @ join (last xs) x # ys
      else
        if touches_right x ys then xs @ join x (hd ys) # tl ys
        else xs @ x # ys)"

definition fl_free :: "blk \<Rightarrow> blk list \<Rightarrow> blk list" where
  "fl_free x fl = fl_put [y \<leftarrow> fl. fst y < fst x] x [y \<leftarrow> fl. \<not> fst y < fst x]"

definition disjoint_from :: "blk \<Rightarrow> blk list \<Rightarrow> bool" where
  "disjoint_from x fl \<longleftrightarrow> (\<forall>y \<in> set fl. bend y \<le> unat (fst x) \<or> bend x \<le> unat (fst y))"

lemma join_simps [simp]: "fst (join x y) = fst x" "snd (join x y) = snd x + snd y"
  by (simp_all add: join_def)

lemma join_ok:
  assumes "blk_ok p x" and "blk_ok p y" and "bend x = unat (fst y)"
  shows "blk_ok p (join x y)" and "bend (join x y) = bend y" and "unat (snd x) + unat (snd y) < 2 ^ 32"
proof -
  show sum: "unat (snd x) + unat (snd y) < 2 ^ 32"
    using assms by (simp add: blk_ok_def bend_def)
  then show "bend (join x y) = bend y"
    using assms(3) by (simp add: bend_def unat_add_len)
  with assms sum show "blk_ok p (join x y)"
    by (auto simp: blk_ok_def unat_add_len)
qed

subsection \<open>The steps of the code\<close>

lemma start_after:
  assumes "blk_ok p x" and "bend x < 2 ^ 32"
  shows "fst x + snd x = b \<longleftrightarrow> bend x = unat b"
  using assms unat_add_len [of "fst x" "snd x"] by (auto simp: bend_def word_unat_eq_iff)

lemma fst_not_in: "b \<notin> fst ` {z \<in> F. fst z \<noteq> b}"
  by auto

lemma merge_left_no:
  assumes "xs = [] \<and> n0 = NULL \<or> (\<exists>x. n0 = fst x \<and> blk_ok p x \<and> blen (l_heap p) (fst x) = ucast (snd x) \<and>
      bend x \<noteq> unat b)"
  shows "mm_merge_left p b n n0 = Some (p, b, b, n, NULL)"
proof -
  consider "n0 = NULL" | x where "n0 = fst x" "blk_ok p x" "blen (l_heap p) (fst x) = ucast (snd x)" "bend x \<noteq> unat b"
    using assms by auto
  then show ?thesis
  proof cases
    case 2
    then have "fst x + xf_mm_block_length (l_heap p) (fst x) \<noteq> b"
      using start_after [of p x b] by (simp add: block_length_eq blk_ok_def)
    with 2 show ?thesis by (simp add: mm_merge_left_def)
  qed (simp add: mm_merge_left_def)
qed

lemma merge_left_yes:
  assumes rel: "lrel (l_map p) (l_heap p) F" and x: "x \<in> F" "blk_ok p x" and y: "blk_ok p y"
    and touch: "bend x = unat (fst y)" and new: "fst y \<notin> fst ` F"
  shows "\<exists>h. mm_merge_left p (fst y) (snd y) (fst x) = Some (p\<lparr>l_heap := h\<rparr>, fst x, fst x, snd x + snd y, fst x) \<and>
    lrel (l_map p) h {z \<in> F. fst z \<noteq> fst x} \<and> blen h (fst x) = ucast (snd x + snd y)"
proof -
  obtain h where del: "l_delete p (fst x) = Some (p\<lparr>l_heap := h\<rparr>)"
    "lrel (l_map p) h {z \<in> F. fst z \<noteq> fst x}" "blen h = blen (l_heap p)"
    using l_delete_ok [OF rel, of "fst x" "snd x"] x(1) by auto
  have len: "blen (l_heap p) (fst x) = ucast (snd x)" using rel x(1) by (auto simp: lrel_def)
  obtain c where c: "xf_mm_block_length_add (p\<lparr>l_heap := h\<rparr>) (fst x) (snd y) =
      (set_len (p\<lparr>l_heap := h\<rparr>) (fst x) c, snd x + snd y)" "c AND - 2 = ucast (snd x + snd y)"
    using length_add_ok [of "p\<lparr>l_heap := h\<rparr>" "fst x" "snd x" "snd y"] len del(3)
      join_ok(3) [OF x(2) y touch] blk_ok_even [OF y] by auto
  have "lrel (l_map p) (l_heap (set_len (p\<lparr>l_heap := h\<rparr>) (fst x) c)) {z \<in> F. fst z \<noteq> fst x}"
    using lrel_set_len [of "p\<lparr>l_heap := h\<rparr>" "{z \<in> F. fst z \<noteq> fst x}" "fst x" c] del(2) x(2)
      fst_not_in [of "fst x" F]
    by (simp add: blk_ok_def)
  moreover have "fst x + xf_mm_block_length (l_heap p) (fst x) = fst y" "fst x \<noteq> NULL"
    using start_after [OF x(2), of "fst y"] touch len x(2) by (simp_all add: block_length_eq blk_ok_def)
  moreover have "blen (l_heap (set_len (p\<lparr>l_heap := h\<rparr>) (fst x) c)) (fst x) = ucast (snd x + snd y)"
    using c(2) by simp
  ultimately show ?thesis
    using del(1) c(1) by (intro exI [of _ "l_heap (set_len (p\<lparr>l_heap := h\<rparr>) (fst x) c)"])
      (simp add: mm_merge_left_def set_len_def)
qed

lemma merge_right_no:
  assumes "n1 = NULL \<or> (\<exists>y. n1 = fst y \<and> bend (b, n) \<noteq> unat (fst y))" and "bend (b, n) < 2 ^ 32"
  shows "mm_merge_right p b' b n n0 n1 = Some (p, n, NULL)"
proof -
  have "unat (b + n) = bend (b, n)" using assms(2) by (simp add: bend_def unat_add_len)
  with assms show ?thesis by (auto simp: mm_merge_right_def)
qed

lemma merge_right_yes:
  assumes rel: "lrel (l_map p) (l_heap p) F" and y: "y \<in> F" "blk_ok p y"
    and x: "blk_ok p x" "fst x \<notin> fst ` F" "blen (l_heap p) (fst x) = ucast (snd x)"
    and touch: "bend x = unat (fst y)"
  shows "\<exists>h. lrel (l_map p) h {z \<in> F. fst z \<noteq> fst y} \<and> blen h (fst x) = ucast (snd x + snd y) \<and>
    mm_merge_right p (fst x) (fst x) (snd x) n0 (fst y) =
      (if n0 \<noteq> NULL then map_option (\<lambda>p. (p, snd x + snd y, fst y)) (a_delete (p\<lparr>l_heap := h\<rparr>) (fst y))
       else Some (p\<lparr>l_heap := h,
           a_heap := rb_replace (a_map p) (a_heap p) (a_node_of (fst y)) (a_node_of (fst x))\<rparr>,
           snd x + snd y, fst y))"
proof -
  obtain h where del: "l_delete p (fst y) = Some (p\<lparr>l_heap := h\<rparr>)"
    "lrel (l_map p) h {z \<in> F. fst z \<noteq> fst y}" "blen h = blen (l_heap p)"
    using l_delete_ok [OF rel, of "fst y" "snd y"] y(1) by auto
  have len: "blen h (fst y) = ucast (snd y)" using rel y(1) del(3) by (auto simp: lrel_def)
  obtain c where c: "xf_mm_block_length_add (p\<lparr>l_heap := h\<rparr>) (fst x) (snd y) =
      (set_len (p\<lparr>l_heap := h\<rparr>) (fst x) c, snd x + snd y)" "c AND - 2 = ucast (snd x + snd y)"
    using length_add_ok [of "p\<lparr>l_heap := h\<rparr>" "fst x" "snd x" "snd y"] x(3) del(3)
      join_ok(3) [OF x(1) y(2) touch] blk_ok_even [OF y(2)] by auto
  let ?h = "l_heap (set_len (p\<lparr>l_heap := h\<rparr>) (fst x) c)"
  have "lrel (l_map p) ?h {z \<in> F. fst z \<noteq> fst y}"
    using lrel_set_len [of "p\<lparr>l_heap := h\<rparr>" "{z \<in> F. fst z \<noteq> fst y}" "fst x" c] del(2) x(1,2)
    by (auto simp: blk_ok_def)
  moreover have "fst y = fst x + snd x" "fst y \<noteq> NULL"
    using start_after [OF x(1), of "fst y"] touch x(1) y(2) by (simp_all add: blk_ok_def)
  moreover have "blen ?h (fst x) = ucast (snd x + snd y)" using c(2) by simp
  ultimately show ?thesis
    using del(1) c(1) len
    by (intro exI [of _ ?h]) (auto simp: mm_merge_right_def set_len_def block_length_eq)
qed


subsection \<open>The free list\<close>

lemma fl_split:
  assumes "fl_ok fl" and "disjoint_from x fl" and "0 < unat (snd x)"
    and "\<forall>y \<in> set fl. 0 < unat (snd y)"
  shows "fl = [y \<leftarrow> fl. fst y < fst x] @ [y \<leftarrow> fl. \<not> fst y < fst x]"
    and "\<forall>y \<in> set [y \<leftarrow> fl. fst y < fst x]. bend y \<le> unat (fst x)"
    and "\<forall>y \<in> set [y \<leftarrow> fl. \<not> fst y < fst x]. bend x \<le> unat (fst y)"
    and "fst x \<notin> fst ` set fl"
proof -
  have "sorted_wrt (\<lambda>y z. fst z < fst x \<longrightarrow> fst y < fst x) fl"
    using fl_ok_starts [OF assms(1)] unfolding sorted_wrt_map
    by (rule sorted_wrt_mono_rel [rotated]) auto
  then show "fl = [y \<leftarrow> fl. fst y < fst x] @ [y \<leftarrow> fl. \<not> fst y < fst x]"
    by (rule filter_split)
  have pos: "bend y \<le> unat (fst x) \<and> fst y < fst x \<or> bend x \<le> unat (fst y) \<and> fst x < fst y"
    if "y \<in> set fl" for y
    using that assms(2-4) by (fastforce simp: disjoint_from_def bend_def word_less_nat_alt)
  then show "\<forall>y \<in> set [y \<leftarrow> fl. fst y < fst x]. bend y \<le> unat (fst x)"
    "\<forall>y \<in> set [y \<leftarrow> fl. \<not> fst y < fst x]. bend x \<le> unat (fst y)"
    by fastforce+
  show "fst x \<notin> fst ` set fl" using pos by fastforce
qed

lemma fl_ok_append:
  "fl_ok (xs @ ys) \<longleftrightarrow> fl_ok xs \<and> fl_ok ys \<and> (\<forall>x \<in> set xs. \<forall>y \<in> set ys. bend x < unat (fst y))"
  by (auto simp: fl_ok_def sorted_wrt_append)

lemma fl_ok_Cons: "fl_ok (x # xs) \<longleftrightarrow> (\<forall>y \<in> set xs. bend x < unat (fst y)) \<and> fl_ok xs"
  by (auto simp: fl_ok_def)

lemma fl_put_cases:
  assumes "fl_ok (xs @ ys)" and "\<forall>y \<in> set xs. bend y \<le> unat (fst x)" and "\<forall>y \<in> set ys. bend x \<le> unat (fst y)"
  obtains (both) xs' u v ys' where "xs = xs' @ [u]" "ys = v # ys'" "bend u = unat (fst x)" "bend x = unat (fst v)"
      "fl_put xs x ys = xs' @ join (join u x) v # ys'"
    | (left) xs' u where "xs = xs' @ [u]" "bend u = unat (fst x)" "\<forall>y \<in> set ys. bend x < unat (fst y)"
      "fl_put xs x ys = xs' @ join u x # ys"
    | (right) v ys' where "ys = v # ys'" "bend x = unat (fst v)" "\<forall>y \<in> set xs. bend y < unat (fst x)"
      "fl_put xs x ys = xs @ join x v # ys'"
    | (none) "\<forall>y \<in> set xs. bend y < unat (fst x)" "\<forall>y \<in> set ys. bend x < unat (fst y)"
      "fl_put xs x ys = xs @ x # ys"
proof -
  have l: "\<forall>y \<in> set xs. bend y < unat (fst x)" if "\<not> touches_left xs x"
  proof (cases xs rule: rev_cases)
    case (snoc xs' u)
    then have "bend u < unat (fst x)" using assms(2) that by (fastforce simp: touches_left_def)
    moreover have "bend y < unat (fst u)" if "y \<in> set xs'" for y
      using assms(1) snoc that by (auto simp: fl_ok_append)
    moreover have "unat (fst u) \<le> bend u" by (simp add: bend_def)
    ultimately show ?thesis using snoc by fastforce
  qed simp
  have r: "\<forall>y \<in> set ys. bend x < unat (fst y)" if "\<not> touches_right x ys"
  proof (cases ys)
    case (Cons v ys')
    then have "bend x < unat (fst v)" using assms(3) that by (fastforce simp: touches_right_def)
    moreover have "bend v < unat (fst y)" if "y \<in> set ys'" for y
      using assms(1) Cons that by (auto simp: fl_ok_append fl_ok_Cons)
    moreover have "unat (fst v) \<le> bend v" by (simp add: bend_def)
    ultimately show ?thesis using Cons by fastforce
  qed simp
  show thesis
  proof (cases "touches_left xs x"; cases "touches_right x ys")
    assume "touches_left xs x" "touches_right x ys"
    then show thesis
      by (intro both [of "butlast xs" "last xs" "hd ys" "tl ys"])
        (simp_all add: touches_left_def touches_right_def fl_put_def)
  next
    assume "touches_left xs x" "\<not> touches_right x ys"
    then show thesis
      using r by (intro left [of "butlast xs" "last xs"])
        (simp_all add: touches_left_def fl_put_def)
  next
    assume "\<not> touches_left xs x" "touches_right x ys"
    then show thesis
      using l by (intro right [of "hd ys" "tl ys"]) (simp_all add: touches_right_def fl_put_def)
  next
    assume "\<not> touches_left xs x" "\<not> touches_right x ys"
    then show thesis using l r none by (simp add: fl_put_def)
  qed
qed

lemma fl_put_ok:
  assumes fl: "fl_ok (xs @ ys)" and xs: "\<forall>y \<in> set xs. bend y \<le> unat (fst x)"
    and ys: "\<forall>y \<in> set ys. bend x \<le> unat (fst y)"
    and ok: "blk_ok p x" "\<forall>y \<in> set (xs @ ys). blk_ok p y"
  shows "fl_ok (fl_put xs x ys)" and "\<forall>y \<in> set (fl_put xs x ys). blk_ok p y"
proof -
  have *: "fl_ok (fl_put xs x ys) \<and> (\<forall>y \<in> set (fl_put xs x ys). blk_ok p y)"
  using fl xs ys
  proof (cases rule: fl_put_cases)
    case (both xs' u v ys')
    have "blk_ok p (join u x)" "bend (join u x) = bend x"
      using join_ok [of p u x] both ok by auto
    then have "blk_ok p (join (join u x) v)" "bend (join (join u x) v) = bend v"
      using join_ok [of p "join u x" v] both ok by auto
    with both fl ok show ?thesis by (auto simp: fl_ok_append fl_ok_Cons)
  next
    case (left xs' u)
    have "blk_ok p (join u x)" "bend (join u x) = bend x"
      using join_ok [of p u x] left ok by auto
    with left fl ok show ?thesis by (auto simp: fl_ok_append fl_ok_Cons)
  next
    case (right v ys')
    have "blk_ok p (join x v)" "bend (join x v) = bend v"
      using join_ok [of p x v] right ok by auto
    with right fl ok show ?thesis by (auto simp: fl_ok_append fl_ok_Cons)
  next
    case none
    with fl ok show ?thesis by (auto simp: fl_ok_append fl_ok_Cons)
  qed
  then show "fl_ok (fl_put xs x ys)" and "\<forall>y \<in> set (fl_put xs x ys). blk_ok p y" by simp_all
qed


subsection \<open>The code implements it\<close>

text \<open>The end of the function: the block joins the map by length.\<close>

lemma free_finish:
  assumes "lrel (l_map p) (l_heap p) F" and "arel (a_map p) (a_heap p) (map fst fl)"
    and "set fl = insert w F" and "fst w \<notin> fst ` F" and "blen (l_heap p) (fst w) = ucast (snd w)"
    and "\<forall>x \<in> set fl. blk_ok p x" and "fl_ok fl"
  shows "\<exists>p'. xf_mm_insert_size p (fst w) (snd w) = Some p' \<and> mm_inv p' fl \<and>
    l_map p' = l_map p \<and> a_map p' = a_map p"
proof -
  have w: "blk_ok p w" using assms(3,6) by simp
  obtain h where h: "xf_mm_insert_size p (fst w) (snd w) = Some (p\<lparr>l_heap := h\<rparr>)"
    "lrel (l_map p) h (insert w F)"
    using l_insert_ok [OF assms(1,4) _ _ assms(5) blk_ok_even [OF w]] w by (auto simp: blk_ok_def)
  with assms have "mm_inv (p\<lparr>l_heap := h\<rparr>) fl" by (simp add: mm_inv_def)
  with h(1) show ?thesis by auto
qed

lemma xf_mm_block_init_set_len: "xf_mm_block_init p b n = set_len p b (ucast n)"
  by (simp add: xf_mm_block_init_def set_len_def)

lemma free_starts:
  assumes "\<forall>y \<in> set fl. blk_ok p y" and "blk_ok p x" and "fl_ok fl" and "disjoint_from x fl"
  shows "\<forall>c \<in> set (map fst fl). apart c (fst x)"
proof
  fix c assume "c \<in> set (map fst fl)"
  then obtain y where y: "y \<in> set fl" "c = fst y" by auto
  then have "64 \<le> unat (snd y)" "bend y < 2 ^ 32" "64 \<le> unat (snd x)"
    using assms(1,2) blk_ok_len [of p] by (auto simp: blk_ok_def)
  moreover have "bend y \<le> unat (fst x) \<or> bend x \<le> unat (fst y)"
    using assms(4) y by (auto simp: disjoint_from_def)
  ultimately show "apart c (fst x)"
    using y by (auto simp: apart_def bend_def word_less_nat_alt)
qed

text \<open>
  The state before the merges: the block has its length, the maps are as before, and the search
  has found its neighbours.
\<close>

lemma free_search:
  assumes inv: "mm_inv p fl" and x: "blk_ok p x" and dis: "disjoint_from x fl"
  defines "p0 \<equiv> xf_mm_block_init p (fst x) (snd x)"
    and "xs \<equiv> [y \<leftarrow> fl. fst y < fst x]" and "ys \<equiv> [y \<leftarrow> fl. \<not> fst y < fst x]"
  shows "xf_mm_find_by_addr p0 (fst x) = Some (last (NULL # map fst xs), hd (map fst ys @ [NULL]))"
    and "lrel (l_map p) (l_heap p0) (set fl)" and "arel (a_map p) (a_heap p0) (map fst fl)"
    and "blen (l_heap p0) (fst x) = ucast (snd x)" and "l_map p0 = l_map p" "a_map p0 = a_map p"
proof -
  have ok: "\<forall>y \<in> set fl. blk_ok p y" "fl_ok fl" using inv by (simp_all add: mm_inv_def)
  have "fst x \<notin> fst ` set fl"
    using fl_split(4) [OF ok(2) dis] ok(1) x by (simp add: blk_ok_def)
  then show "lrel (l_map p) (l_heap p0) (set fl)"
    using lrel_set_len [of p "set fl" "fst x" "ucast (snd x)"] inv x
    by (simp add: p0_def xf_mm_block_init_set_len mm_inv_def blk_ok_def)
  show a: "arel (a_map p) (a_heap p0) (map fst fl)"
    using inv by (simp add: p0_def xf_mm_block_init_set_len mm_inv_def)
  show "blen (l_heap p0) (fst x) = ucast (snd x)"
    using blk_ok_even [OF x] by (simp add: p0_def xf_mm_block_init_set_len clear_even even_ucast_iff)
  show "l_map p0 = l_map p" "a_map p0 = a_map p"
    by (simp_all add: p0_def xf_mm_block_init_set_len)
  have "xf_mm_find_by_addr p0 (fst x) =
      Some (last (NULL # [c \<leftarrow> map fst fl. c < fst x]), hd ([c \<leftarrow> map fst fl. \<not> c < fst x] @ [NULL]))"
    using a free_starts [OF ok(1) x ok(2) dis] fl_ok_starts [OF ok(2)] ok(1)
    by (intro find_by_addr_ok) (auto simp: p0_def xf_mm_block_init_set_len blk_ok_def)
  then show "xf_mm_find_by_addr p0 (fst x) = Some (last (NULL # map fst xs), hd (map fst ys @ [NULL]))"
    by (simp add: xs_def ys_def filter_map comp_def)
qed

text \<open>
  What the merges leave, as one predicate: the block \<open>w\<close> to insert, the other blocks \<open>F\<close> of
  the map by length, the starts in the map by address.
\<close>

definition merged :: "mm_pool \<Rightarrow> mm_pool \<Rightarrow> blk set \<Rightarrow> blk \<Rightarrow> addr list \<Rightarrow> bool" where
  "merged p p' F w bs \<longleftrightarrow> l_map p' = l_map p \<and> a_map p' = a_map p \<and>
     lrel (l_map p') (l_heap p') F \<and> fst w \<notin> fst ` F \<and> blen (l_heap p') (fst w) = ucast (snd w) \<and>
     arel (a_map p') (a_heap p') bs"

lemma merged_blk_ok: "merged p p' F w bs \<Longrightarrow> blk_ok p' = blk_ok p"
  by (rule ext) (simp add: merged_def blk_ok_def)

lemma merged_left_no:
  assumes m: "merged p p0 (set fl) x bs" and xs: "set xs \<subseteq> set fl" "\<forall>y \<in> set xs. blk_ok p y \<and> bend y < unat (fst x)"
  shows "mm_merge_left p0 (fst x) (snd x) (last (NULL # map fst xs)) = Some (p0, fst x, fst x, snd x, NULL)"
proof (cases xs rule: rev_cases)
  case Nil
  then show ?thesis by (simp add: mm_merge_left_def)
next
  case (snoc xs' u)
  then have "blen (l_heap p0) (fst u) = ucast (snd u)"
    using m xs by (auto simp: merged_def lrel_def)
  with snoc xs merged_blk_ok [OF m] show ?thesis
    by (intro merge_left_no) (auto intro!: exI [of _ "snd u"])
qed

lemma merged_left_yes:
  assumes m: "merged p p0 (set fl) x bs" and u: "u \<in> set fl" "blk_ok p u" and x: "blk_ok p x"
    and touch: "bend u = unat (fst x)"
  shows "\<exists>p1. mm_merge_left p0 (fst x) (snd x) (fst u) =
      Some (p1, fst u, fst u, snd (join u x), fst u) \<and>
    merged p p1 {z \<in> set fl. fst z \<noteq> fst u} (join u x) bs"
  using merge_left_yes [of p0 "set fl" u x] m u x touch merged_blk_ok [OF m]
  by (auto simp: merged_def)

lemma merged_right_no:
  assumes "\<forall>y \<in> set ys. bend w < unat (fst y)" and "blk_ok p w"
  shows "mm_merge_right p1 (fst w) (fst w) (snd w) n0 (hd (map fst ys @ [NULL])) = Some (p1, snd w, NULL)"
  using assms by (intro merge_right_no; cases ys) (auto simp: blk_ok_def)

lemma merged_right_drop:
  assumes m: "merged p p1 F w bs" and v: "v \<in> F" "blk_ok p v" "fst v \<in> set bs" and w: "blk_ok p w"
    and touch: "bend w = unat (fst v)" and "n0 \<noteq> NULL"
  shows "\<exists>p2. mm_merge_right p1 (fst w) (fst w) (snd w) n0 (fst v) = Some (p2, snd (join w v), fst v) \<and>
    merged p p2 {z \<in> F. fst z \<noteq> fst v} (join w v) [b \<leftarrow> bs. b \<noteq> fst v]"
proof -
  obtain h where h: "lrel (l_map p1) h {z \<in> F. fst z \<noteq> fst v}" "blen h (fst w) = ucast (snd w + snd v)"
    and eq: "mm_merge_right p1 (fst w) (fst w) (snd w) n0 (fst v) =
      map_option (\<lambda>p. (p, snd w + snd v, fst v)) (a_delete (p1\<lparr>l_heap := h\<rparr>) (fst v))"
    using merge_right_yes [of p1 F v w n0] m v w touch merged_blk_ok [OF m] \<open>n0 \<noteq> NULL\<close>
    by (auto simp: merged_def)
  obtain h2 where "a_delete (p1\<lparr>l_heap := h\<rparr>) (fst v) = Some (p1\<lparr>l_heap := h, a_heap := h2\<rparr>)"
    "arel (a_map p1) h2 [b \<leftarrow> bs. b \<noteq> fst v]"
    using a_delete_ok [of "p1\<lparr>l_heap := h\<rparr>" bs "fst v"] m v(3) by (auto simp: merged_def)
  with h eq m show ?thesis by (auto simp: merged_def)
qed

lemma merged_right_replace:
  assumes m: "merged p p1 F w (bs @ fst v # cs)" and v: "v \<in> F" "blk_ok p v" and w: "blk_ok p w"
    and touch: "bend w = unat (fst v)" and new: "fst w \<notin> set (bs @ fst v # cs)"
  shows "\<exists>p2. mm_merge_right p1 (fst w) (fst w) (snd w) NULL (fst v) = Some (p2, snd (join w v), fst v) \<and>
    merged p p2 {z \<in> F. fst z \<noteq> fst v} (join w v) (bs @ fst w # cs)"
proof -
  obtain h where h: "lrel (l_map p1) h {z \<in> F. fst z \<noteq> fst v}" "blen h (fst w) = ucast (snd w + snd v)"
    and eq: "mm_merge_right p1 (fst w) (fst w) (snd w) NULL (fst v) =
      Some (p1\<lparr>l_heap := h,
           a_heap := rb_replace (a_map p1) (a_heap p1) (a_node_of (fst v)) (a_node_of (fst w))\<rparr>,
           snd w + snd v, fst v)"
    using merge_right_yes [of p1 F v w NULL] m v w touch merged_blk_ok [OF m]
    by (auto simp: merged_def)
  have "arel (a_map p1) (rb_replace (a_map p1) (a_heap p1) (a_node_of (fst v)) (a_node_of (fst w)))
      (bs @ fst w # cs)"
    using m new w by (intro a_replace_ok) (auto simp: merged_def blk_ok_def)
  with h eq m show ?thesis by (auto simp: merged_def)
qed

lemma merged_finish:
  assumes m: "merged p p' F w (map fst fl)" and "set fl = insert w F"
    and "\<forall>x \<in> set fl. blk_ok p x" and "fl_ok fl"
  shows "\<exists>q. xf_mm_insert_size p' (fst w) (snd w) = Some q \<and> mm_inv q fl \<and>
    l_map q = l_map p \<and> a_map q = a_map p"
  using free_finish [of p' F fl w] assms merged_blk_ok [OF m] by (auto simp: merged_def)



lemma xf_mm_free_eq:
  assumes "xf_mm_find_by_addr (xf_mm_block_init p b n) b = Some (n0, n1)"
    and "mm_merge_left (xf_mm_block_init p b n) b n n0 = Some (p1, b1, a1, s1, m0)"
    and "mm_merge_right p1 b1 a1 s1 m0 n1 = Some (p2, s2, m1)"
  shows "xf_mm_free p b n =
    (case (if m0 = NULL \<and> m1 = NULL then xf_mm_insert_addr p2 b1 else Some p2) of
       None \<Rightarrow> None | Some p3 \<Rightarrow> xf_mm_insert_size p3 b1 s2)"
  using assms by (simp add: xf_mm_free_def)

definition free_start :: "mm_pool \<Rightarrow> blk list \<Rightarrow> blk \<Rightarrow> mm_pool \<Rightarrow> blk list \<Rightarrow> blk list \<Rightarrow> bool" where
  "free_start p fl x p0 xs ys \<longleftrightarrow>
     mm_inv p fl \<and> blk_ok p x \<and> disjoint_from x fl \<and> p0 = xf_mm_block_init p (fst x) (snd x) \<and>
     fl = xs @ ys \<and> xs = [y \<leftarrow> fl. fst y < fst x] \<and> ys = [y \<leftarrow> fl. \<not> fst y < fst x]"

definition free_done :: "mm_pool \<Rightarrow> blk \<Rightarrow> blk list \<Rightarrow> bool" where
  "free_done p x fl \<longleftrightarrow> (\<exists>p'. xf_mm_free p (fst x) (snd x) = Some p' \<and> mm_inv p' fl \<and>
     l_map p' = l_map p \<and> a_map p' = a_map p)"

lemma free_startI:
  assumes "mm_inv p fl" and "blk_ok p x" and "disjoint_from x fl"
  shows "free_start p fl x (xf_mm_block_init p (fst x) (snd x))
    [y \<leftarrow> fl. fst y < fst x] [y \<leftarrow> fl. \<not> fst y < fst x]"
  using assms fl_split(1) [of fl x] by (auto simp: free_start_def mm_inv_def blk_ok_def)

lemma free_startD:
  assumes "free_start p fl x p0 xs ys"
  shows "blk_ok p x" and "fl = xs @ ys" and "fl_ok (xs @ ys)" and "\<forall>y \<in> set xs. blk_ok p y"
    and "\<forall>y \<in> set ys. blk_ok p y" and "\<forall>y \<in> set xs. bend y \<le> unat (fst x)"
    and "\<forall>y \<in> set ys. bend x \<le> unat (fst y)" and "fst x \<notin> fst ` set fl"
    and "merged p p0 (set fl) x (map fst fl)"
    and "xf_mm_find_by_addr p0 (fst x) = Some (last (NULL # map fst xs), hd (map fst ys @ [NULL]))"
    and "p0 = xf_mm_block_init p (fst x) (snd x)" and "disjoint_from x fl" and "mm_inv p fl"
    and "fl_put xs x ys = fl_free x fl"
proof -
  have inv: "mm_inv p fl" and x: "blk_ok p x" and dis: "disjoint_from x fl"
    and p0: "p0 = xf_mm_block_init p (fst x) (snd x)" and sp: "fl = xs @ ys"
    and xs: "xs = [y \<leftarrow> fl. fst y < fst x]" and ys: "ys = [y \<leftarrow> fl. \<not> fst y < fst x]"
    using assms unfolding free_start_def by blast+
  have ok: "\<forall>y \<in> set fl. blk_ok p y" "fl_ok fl" using inv by (simp_all add: mm_inv_def)
  have pos: "0 < unat (snd x)" "\<forall>y \<in> set fl. 0 < unat (snd y)"
    using x ok(1) by (simp_all add: blk_ok_def)
  note fs = fl_split [OF ok(2) dis pos, folded xs ys]
  note search = free_search [OF inv x dis, folded p0 xs ys]
  show "merged p p0 (set fl) x (map fst fl)" using search fs(4) by (simp add: merged_def)
  show "fl_put xs x ys = fl_free x fl" by (simp add: fl_free_def xs ys)
  show "fl_ok (xs @ ys)" using ok(2) sp by simp
  show "\<forall>y \<in> set xs. blk_ok p y" "\<forall>y \<in> set ys. blk_ok p y" using ok(1) sp by simp_all
  show "blk_ok p x" "fl = xs @ ys" "disjoint_from x fl" "mm_inv p fl" "p0 = xf_mm_block_init p (fst x) (snd x)"
    by (fact x sp dis inv p0)+
  show "\<forall>y \<in> set xs. bend y \<le> unat (fst x)" "\<forall>y \<in> set ys. bend x \<le> unat (fst y)"
    "fst x \<notin> fst ` set fl" by (fact fs)+
  show "xf_mm_find_by_addr p0 (fst x) = Some (last (NULL # map fst xs), hd (map fst ys @ [NULL]))"
    by (fact search)
qed

text \<open>The end of the function, given what the two merges return.\<close>

lemma free_endI:
  assumes st: "free_start p fl x p0 xs ys"
    and l: "mm_merge_left p0 (fst x) (snd x) (last (NULL # map fst xs)) = Some (p1, fst w, a1, s1, m0)"
    and r: "mm_merge_right p1 (fst w) a1 s1 m0 (hd (map fst ys @ [NULL])) = Some (p2, snd w, m1)"
    and i: "(if m0 = NULL \<and> m1 = NULL then xf_mm_insert_addr p2 (fst w) else Some p2) = Some p3"
    and m: "merged p p3 F w (map fst (fl_put xs x ys))" and f: "set (fl_put xs x ys) = insert w F"
  shows "free_done p x (fl_put xs x ys)"
proof -
  note D = free_startD [OF st]
  have ok: "fl_ok (fl_put xs x ys)" "\<forall>y \<in> set (fl_put xs x ys). blk_ok p y"
    using fl_put_ok [OF D(3,6,7,1)] D(4,5) by auto
  have "xf_mm_free p (fst x) (snd x) = xf_mm_insert_size p3 (fst w) (snd w)"
    using xf_mm_free_eq [OF D(10) [unfolded D(11)] l [unfolded D(11)] r] i by simp
  with merged_finish [OF m f ok(2,1)] show ?thesis by (simp add: free_done_def)
qed

lemma drop_fst:
  assumes "distinct (map fst (as @ u # bs))"
  shows "{z \<in> set (as @ u # bs). fst z \<noteq> fst u} = set (as @ bs)"
proof -
  have "fst u \<notin> fst ` (set as \<union> set bs)" using assms by (simp add: image_Un)
  then have "\<forall>z \<in> set as \<union> set bs. fst z \<noteq> fst u" by (metis image_eqI)
  then show ?thesis by auto
qed

lemma free_both:
  assumes st: "free_start p fl x p0 (xs' @ [u]) (v # ys')"
    and touch: "bend u = unat (fst x)" "bend x = unat (fst v)"
    and put: "fl_put (xs' @ [u]) x (v # ys') = xs' @ join (join u x) v # ys'"
  shows "free_done p x (fl_put (xs' @ [u]) x (v # ys'))"
proof -
  note D = free_startD [OF st]
  have u: "u \<in> set fl" "blk_ok p u" and v: "v \<in> set fl" "blk_ok p v" using D(2,4,5) by auto
  have dist: "distinct (map fst xs' @ fst u # fst v # map fst ys')" using fl_ok_distinct [OF D(3)] by simp
  note jo = join_ok [OF u(2) D(1) touch(1)]
  obtain p1 where p1: "mm_merge_left p0 (fst x) (snd x) (fst u) = Some (p1, fst u, fst u, snd (join u x), fst u)"
    "merged p p1 {z \<in> set fl. fst z \<noteq> fst u} (join u x) (map fst fl)"
    using merged_left_yes [OF D(9) u D(1) touch(1)] by blast
  have "v \<in> {z \<in> set fl. fst z \<noteq> fst u}" "fst u \<noteq> NULL" "fst v \<in> set (map fst fl)"
    using dist v u by (auto simp: blk_ok_def)
  then obtain p2 where p2: "mm_merge_right p1 (fst u) (fst u) (snd (join u x)) (fst u) (fst v) =
      Some (p2, snd (join (join u x) v), fst v)"
    "merged p p2 {z \<in> {z \<in> set fl. fst z \<noteq> fst u}. fst z \<noteq> fst v} (join (join u x) v)
       [b \<leftarrow> map fst fl. b \<noteq> fst v]"
    using merged_right_drop [OF p1(2), of v "fst u"] v jo touch by auto
  have starts: "[b \<leftarrow> map fst fl. b \<noteq> fst v] = map fst (fl_put (xs' @ [u]) x (v # ys'))"
    using dist filter_ne [of "fst v" "map fst xs'"] filter_ne [of "fst v" "map fst ys'"]
    by (simp add: D(2) put)
  have fset: "set (fl_put (xs' @ [u]) x (v # ys')) =
      insert (join (join u x) v) {z \<in> {z \<in> set fl. fst z \<noteq> fst u}. fst z \<noteq> fst v}"
    using drop_fst [of xs' u "v # ys'"] drop_fst [of xs' v ys'] dist
    by (simp only: D(2) put append_assoc append_Cons append_Nil) simp
  have l: "mm_merge_left p0 (fst x) (snd x) (last (NULL # map fst (xs' @ [u]))) =
      Some (p1, fst (join (join u x) v), fst u, snd (join u x), fst u)"
    by (simp add: p1(1))
  have r: "mm_merge_right p1 (fst (join (join u x) v)) (fst u) (snd (join u x)) (fst u)
      (hd (map fst (v # ys') @ [NULL])) = Some (p2, snd (join (join u x) v), fst v)"
    using p2(1) by (simp only: join_simps list.map append_Cons list.sel)
  show ?thesis
    by (rule free_endI [OF st l r _ p2(2) [unfolded starts] fset]) (simp add: \<open>fst u \<noteq> NULL\<close>)
qed

lemma free_left:
  assumes st: "free_start p fl x p0 (xs' @ [u]) ys"
    and touch: "bend u = unat (fst x)" "\<forall>y \<in> set ys. bend x < unat (fst y)"
    and put: "fl_put (xs' @ [u]) x ys = xs' @ join u x # ys"
  shows "free_done p x (fl_put (xs' @ [u]) x ys)"
proof -
  note D = free_startD [OF st]
  have u: "u \<in> set fl" "blk_ok p u" "fst u \<noteq> NULL" using D(2,4) by (auto simp: blk_ok_def)
  have dist: "distinct (map fst xs' @ fst u # map fst ys)" using fl_ok_distinct [OF D(3)] by simp
  note jo = join_ok [OF u(2) D(1) touch(1)]
  obtain p1 where p1: "mm_merge_left p0 (fst x) (snd x) (fst u) = Some (p1, fst u, fst u, snd (join u x), fst u)"
    "merged p p1 {z \<in> set fl. fst z \<noteq> fst u} (join u x) (map fst fl)"
    using merged_left_yes [OF D(9) u(1,2) D(1) touch(1)] by blast
  have r: "mm_merge_right p1 (fst (join u x)) (fst u) (snd (join u x)) (fst u) (hd (map fst ys @ [NULL])) =
      Some (p1, snd (join u x), NULL)"
    using merged_right_no [of ys "join u x" p p1 "fst u"] touch(2) jo by simp
  have starts: "map fst fl = map fst (fl_put (xs' @ [u]) x ys)" by (simp add: D(2) put)
  have fset: "set (fl_put (xs' @ [u]) x ys) = insert (join u x) {z \<in> set fl. fst z \<noteq> fst u}"
    using drop_fst [of xs' u ys] dist
    by (simp only: D(2) put append_assoc append_Cons append_Nil) simp
  have l: "mm_merge_left p0 (fst x) (snd x) (last (NULL # map fst (xs' @ [u]))) =
      Some (p1, fst (join u x), fst u, snd (join u x), fst u)"
    by (simp add: p1(1))
  show ?thesis
    by (rule free_endI [OF st l r _ p1(2) [unfolded starts] fset])
      (simp add: u(3))
qed

lemma free_right:
  assumes st: "free_start p fl x p0 xs (v # ys')"
    and touch: "bend x = unat (fst v)" "\<forall>y \<in> set xs. bend y < unat (fst x)"
    and put: "fl_put xs x (v # ys') = xs @ join x v # ys'"
  shows "free_done p x (fl_put xs x (v # ys'))"
proof -
  note D = free_startD [OF st]
  have v: "v \<in> set fl" "blk_ok p v" "fst v \<noteq> NULL" using D(2,5) by (auto simp: blk_ok_def)
  have dist: "distinct (map fst xs @ fst v # map fst ys')" using fl_ok_distinct [OF D(3)] by simp
  have l: "mm_merge_left p0 (fst x) (snd x) (last (NULL # map fst xs)) = Some (p0, fst x, fst x, snd x, NULL)"
    using touch(2) D(2,4) by (intro merged_left_no [OF D(9)]) auto
  have fl: "map fst fl = map fst xs @ fst v # map fst ys'" by (simp add: D(2))
  have "fst x \<notin> set (map fst xs @ fst v # map fst ys')" using D(8) unfolding fl [symmetric] by simp
  then obtain p2 where p2: "mm_merge_right p0 (fst x) (fst x) (snd x) NULL (fst v) = Some (p2, snd (join x v), fst v)"
    "merged p p2 {z \<in> set fl. fst z \<noteq> fst v} (join x v) (map fst xs @ fst x # map fst ys')"
    using merged_right_replace [OF D(9) [unfolded fl] v(1,2) D(1) touch(1)] by auto
  have starts: "map fst xs @ fst x # map fst ys' = map fst (fl_put xs x (v # ys'))" by (simp add: put)
  have fset: "set (fl_put xs x (v # ys')) = insert (join x v) {z \<in> set fl. fst z \<noteq> fst v}"
    using drop_fst [of xs v ys'] dist
    by (simp only: D(2) put) simp
  have l': "mm_merge_left p0 (fst x) (snd x) (last (NULL # map fst xs)) = Some (p0, fst (join x v), fst x, snd x, NULL)"
    by (simp only: l join_simps)
  have r: "mm_merge_right p0 (fst (join x v)) (fst x) (snd x) NULL (hd (map fst (v # ys') @ [NULL])) =
      Some (p2, snd (join x v), fst v)"
    using p2(1) by (simp only: join_simps list.map append_Cons list.sel)
  show ?thesis
    by (rule free_endI [OF st l' r _ p2(2) [unfolded starts] fset]) (simp add: v(3))
qed

lemma free_none:
  assumes st: "free_start p fl x p0 xs ys"
    and touch: "\<forall>y \<in> set xs. bend y < unat (fst x)" "\<forall>y \<in> set ys. bend x < unat (fst y)"
    and put: "fl_put xs x ys = xs @ x # ys"
  shows "free_done p x (fl_put xs x ys)"
proof -
  note D = free_startD [OF st]
  have l: "mm_merge_left p0 (fst x) (snd x) (last (NULL # map fst xs)) = Some (p0, fst x, fst x, snd x, NULL)"
    using touch(1) D(2,4) by (intro merged_left_no [OF D(9)]) auto
  have r: "mm_merge_right p0 (fst x) (fst x) (snd x) NULL (hd (map fst ys @ [NULL])) = Some (p0, snd x, NULL)"
    using touch(2) D(1) by (rule merged_right_no)
  have ok: "\<forall>y \<in> set fl. blk_ok p y" "fl_ok fl" using D(2-5) by auto
  have new: "fst x \<notin> set (map fst fl)" using D(8) by simp
  obtain h where h: "xf_mm_insert_addr p0 (fst x) = Some (p0\<lparr>a_heap := h\<rparr>)"
    "arel (a_map p) h ([c \<leftarrow> map fst fl. c < fst x] @ fst x # [c \<leftarrow> map fst fl. \<not> c < fst x])"
    using a_insert_ok [of p0 "map fst fl" "fst x"] D(9) free_starts [OF ok(1) D(1) ok(2) D(12)]
      fl_ok_starts [OF ok(2)] new D(1) by (auto simp: merged_def blk_ok_def)
  have split: "xs = [y \<leftarrow> fl. fst y < fst x]" "ys = [y \<leftarrow> fl. \<not> fst y < fst x]"
    using st unfolding free_start_def by blast+
  have "[c \<leftarrow> map fst fl. c < fst x] @ fst x # [c \<leftarrow> map fst fl. \<not> c < fst x] = map fst (xs @ x # ys)"
    unfolding split by (simp add: filter_map comp_def)
  then have "[c \<leftarrow> map fst fl. c < fst x] @ fst x # [c \<leftarrow> map fst fl. \<not> c < fst x] = map fst (fl_put xs x ys)"
    by (simp only: put)
  with h(2) D(9) have m: "l_map p0 = l_map p \<Longrightarrow> merged p (p0\<lparr>a_heap := h\<rparr>) (set fl) x (map fst (fl_put xs x ys))"
    unfolding merged_def by (elim conjE) simp
  have lm: "l_map p0 = l_map p" using D(9) unfolding merged_def by blast
  have fset: "set (fl_put xs x ys) = insert x (set fl)" unfolding put D(2) by auto
  show ?thesis by (rule free_endI [OF st l r _ m [OF lm] fset]) (simp add: h(1))
qed

lemma xf_mm_free_ok:
  assumes "mm_inv p fl" and "blk_ok p x" and "disjoint_from x fl"
  shows "free_done p x (fl_free x fl)"
proof -
  define xs ys where "xs = [y \<leftarrow> fl. fst y < fst x]" and "ys = [y \<leftarrow> fl. \<not> fst y < fst x]"
  have st: "free_start p fl x (xf_mm_block_init p (fst x) (snd x)) xs ys"
    using free_startI [OF assms] by (simp add: xs_def ys_def)
  from free_startD(3,6,7) [OF st] have "free_done p x (fl_put xs x ys)"
  proof (cases rule: fl_put_cases)
    case (both xs' u v ys')
    with st free_both show ?thesis by metis
  next
    case (left xs' u)
    with st free_left show ?thesis by metis
  next
    case (right v ys')
    with st free_right show ?thesis by metis
  next
    case none
    with st free_none show ?thesis by metis
  qed
  then show ?thesis using free_startD(14) [OF st] by simp
qed

end
