(* ===== verification/MM_Bytes.thy ===== *)
theory MM_Bytes
  imports MM
begin

text \<open>
  The allocator as its clients see it: the bytes of the free list, the contract of allocation and
  deallocation in terms of them, a client that makes any sequence of requests, and the
  initialisation of a pool.
\<close>

section \<open>The free bytes\<close>

text \<open>
  What a client sees of the free list is the set of its bytes. Since neighbours are merged, a free
  list is determined by its bytes, so the order in which blocks come back does not matter.
\<close>

definition span :: "addr \<Rightarrow> u32 \<Rightarrow> nat set" where
  "span a n = {unat a ..< unat a + unat n}"

definition fl_bytes :: "blk list \<Rightarrow> nat set" where
  "fl_bytes fl = (\<Union>x \<in> set fl. span (fst x) (snd x))"

definition fl_pos :: "blk list \<Rightarrow> bool" where
  "fl_pos fl \<longleftrightarrow> (\<forall>x \<in> set fl. 0 < unat (snd x))"

lemma span_bend: "span (fst x) (snd x) = {unat (fst x) ..< bend x}"
  by (simp add: span_def bend_def)

lemma fl_bytes_simps [simp]:
  "fl_bytes [] = {}" "fl_bytes (x # xs) = {unat (fst x) ..< bend x} \<union> fl_bytes xs"
  "fl_bytes (xs @ ys) = fl_bytes xs \<union> fl_bytes ys"
  by (simp_all add: fl_bytes_def span_bend UN_Un)

lemma fl_bytesE:
  assumes "m \<in> fl_bytes fl"
  obtains y where "y \<in> set fl" "unat (fst y) \<le> m" "m < bend y"
proof -
  obtain y where "y \<in> set fl" "m \<in> span (fst y) (snd y)"
    using assms unfolding fl_bytes_def by blast
  then show thesis using that by (simp add: span_bend)
qed

lemma fl_bytes_above: "\<forall>y \<in> set fl. n < unat (fst y) \<Longrightarrow> m \<in> fl_bytes fl \<Longrightarrow> n < m"
  by (erule fl_bytesE) (drule (1) bspec, erule (1) less_le_trans)

lemma ivl_tail: "{a ..< b :: nat} \<inter> {b ..} = {}"
  by (intro equals0I, elim IntE) simp

lemma fl_bytes_Cons_split:
  assumes "fl_ok (x # xs)"
  shows "fl_bytes (x # xs) \<inter> {..< bend x} = {unat (fst x) ..< bend x}" and "bend x \<notin> fl_bytes (x # xs)"
    and "fl_bytes (x # xs) \<inter> {bend x ..} = fl_bytes xs"
proof -
  have "\<forall>y \<in> set xs. bend x < unat (fst y)" using assms by (simp add: fl_ok_Cons)
  note above = fl_bytes_above [OF this]
  have sub: "fl_bytes xs \<subseteq> {bend x <..}" using above by (intro subsetI) simp
  then have disj: "fl_bytes xs \<inter> {..< bend x} = {}" by (intro equals0I) (fastforce dest: subsetD)
  show "fl_bytes (x # xs) \<inter> {..< bend x} = {unat (fst x) ..< bend x}"
    unfolding fl_bytes_simps Int_Un_distrib2 disj by (auto simp: lessThan_def)
  show "bend x \<notin> fl_bytes (x # xs)" using subsetD [OF sub, of "bend x"] by simp blast
  have "fl_bytes xs \<inter> {bend x ..} = fl_bytes xs"
    using sub by (intro Int_absorb2 subsetI) (drule (1) subsetD, simp)
  then show "fl_bytes (x # xs) \<inter> {bend x ..} = fl_bytes xs"
    unfolding fl_bytes_simps Int_Un_distrib2 ivl_tail by simp
qed

lemma interval_eq:
  assumes "(a :: nat) < b" and "b \<notin> S" and "S \<inter> {..< b} = {a ..< b}"
    and "a' < b'" and "b' \<notin> S" and "S \<inter> {..< b'} = {a' ..< b'}"
  shows "a = a' \<and> b = b'"
proof -
  have "a \<in> S \<inter> {..< b}" unfolding assms(3) using assms(1) by simp
  then have "a \<in> S" ..
  have "a' \<in> S \<inter> {..< b'}" unfolding assms(6) using assms(4) by simp
  then have "a' \<in> S" ..
  have "a = a'"
  proof (rule ccontr)
    assume "a \<noteq> a'"
    then consider "a < a'" | "a' < a" by linarith
    then show False
    proof cases
      case 1
      then have "a \<in> S \<inter> {..< b'}" using \<open>a \<in> S\<close> 1 assms(4) by simp
      then show False using 1 unfolding assms(6) by simp
    next
      case 2
      then have "a' \<in> S \<inter> {..< b}" using \<open>a' \<in> S\<close> 2 assms(1) by simp
      then show False using 2 unfolding assms(3) by simp
    qed
  qed
  moreover have "b = b'"
  proof (rule ccontr)
    assume "b \<noteq> b'"
    then consider "b < b'" | "b' < b" by linarith
    then show False
    proof cases
      case 1
      then have "b \<in> S \<inter> {..< b'}" unfolding assms(6) using \<open>a = a'\<close> assms(1) by simp
      then show False using assms(2) by simp
    next
      case 2
      then have "b' \<in> S \<inter> {..< b}" unfolding assms(3) using \<open>a = a'\<close> assms(4) by simp
      then show False using assms(5) by simp
    qed
  qed
  ultimately show ?thesis ..
qed

lemma fl_unique:
  "fl_ok xs \<Longrightarrow> fl_ok ys \<Longrightarrow> fl_pos xs \<Longrightarrow> fl_pos ys \<Longrightarrow> fl_bytes xs = fl_bytes ys \<Longrightarrow> xs = ys"
proof (induction xs arbitrary: ys)
  case Nil
  then show ?case by (cases ys) (auto simp: fl_pos_def bend_def)
next
  case (Cons x xs)
  then obtain y ys' where ys: "ys = y # ys'"
    by (cases ys) (auto simp: fl_pos_def bend_def)
  have pos: "unat (fst x) < bend x" "unat (fst y) < bend y"
    using Cons.prems(3,4) by (simp_all add: fl_pos_def bend_def ys)
  note cx = fl_bytes_Cons_split [OF Cons.prems(1)]
  note cy = fl_bytes_Cons_split [OF Cons.prems(2) [unfolded ys], folded ys Cons.prems(5)]
  have "unat (fst x) = unat (fst y) \<and> bend x = bend y"
    by (rule interval_eq [OF pos(1) cx(2,1) pos(2) cy(2,1)])
  then have "x = y" "bend x = bend y" by (simp_all add: bend_def prod_eq_iff word_unat_eq_iff)
  moreover have "fl_bytes xs = fl_bytes ys'" using cx(3) cy(3) \<open>bend x = bend y\<close> by simp
  then have "xs = ys'"
    using Cons by (intro Cons.IH) (simp_all add: ys fl_ok_Cons fl_pos_def)
  ultimately show ?case by (simp add: ys)
qed

lemma fl_take_bytes:
  assumes fl: "fl_ok fl" and x: "x \<in> set fl" and n: "n \<le> snd x"
  shows "fl_bytes (fl_take fl x n) = fl_bytes fl - {bend x - unat n ..< bend x}"
    and "{bend x - unat n ..< bend x} \<subseteq> fl_bytes fl"
proof -
  have le: "unat n \<le> unat (snd x)" using n by (simp add: word_le_nat_alt)
  obtain as bs where sp: "fl = as @ x # bs" using split_list [OF x] by blast
  have dist: "x \<notin> set as" "x \<notin> set bs"
    using fl_ok_distinct [OF fl] by (auto simp: sp)
  have ends: "\<forall>y \<in> set as. bend y < unat (fst x)" "\<forall>y \<in> set bs. bend x < unat (fst y)"
    using fl by (simp_all add: sp fl_ok_append fl_ok_Cons)
  have as: "m < unat (fst x)" if "m \<in> fl_bytes as" for m
    using that by (rule fl_bytesE) (metis ends(1) order.strict_trans)
  have bs: "bend x < m" if "m \<in> fl_bytes bs" for m
    using fl_bytes_above [OF ends(2) that] .
  have low: "unat (fst x) \<le> bend x - unat n" using le by (simp add: bend_def)
  show "{bend x - unat n ..< bend x} \<subseteq> fl_bytes fl" using low by (auto simp: sp)
  have "fl_bytes (fl_take fl x n) = fl_bytes as \<union> {unat (fst x) ..< bend x - unat n} \<union> fl_bytes bs"
  proof (cases "snd x = n")
    case True
    have "[y \<leftarrow> fl. y \<noteq> x] = as @ bs" using dist filter_ne [of x as] filter_ne [of x bs] by (simp add: sp)
    with True show ?thesis by (simp add: fl_take_def bend_def)
  next
    case False
    have "unat (snd x - n) = unat (snd x) - unat n" using n by (simp add: unat_sub)
    then have "bend (fst x, snd x - n) = bend x - unat n" using le by (simp add: bend_def)
    moreover have "fl_take fl x n = as @ (fst x, snd x - n) # bs"
      using False dist by (auto simp: fl_take_def sp intro!: map_idI)
    ultimately show ?thesis by auto
  qed
  then show "fl_bytes (fl_take fl x n) = fl_bytes fl - {bend x - unat n ..< bend x}"
    using as bs low by (fastforce simp: sp)
qed
lemma fl_put_bytes:
  assumes fl: "fl_ok (xs @ ys)" and xs: "\<forall>y \<in> set xs. bend y \<le> unat (fst x)"
    and ys: "\<forall>y \<in> set ys. bend x \<le> unat (fst y)"
    and ok: "blk_ok p x" "\<forall>y \<in> set (xs @ ys). blk_ok p y"
  shows "fl_bytes (fl_put xs x ys) = fl_bytes (xs @ ys) \<union> {unat (fst x) ..< bend x}"
  using fl xs ys
proof (cases rule: fl_put_cases)
  case (both xs' u v ys')
  have u: "blk_ok p (join u x)" "bend (join u x) = bend x" using join_ok [of p u x] both ok by auto
  have v: "bend (join (join u x) v) = bend v" using join_ok [of p "join u x" v] both ok u by auto
  have "{unat (fst u) ..< bend v} = {unat (fst u) ..< bend u} \<union> {unat (fst x) ..< bend x} \<union> {unat (fst v) ..< bend v}"
    unfolding both(3) [symmetric] both(4) [symmetric]
    using both(3,4) by (simp add: ivl_disj_un_two(3) bend_def)
  with both v show ?thesis by (simp add: ac_simps)
next
  case (left xs' u)
  have u: "bend (join u x) = bend x" using join_ok [of p u x] left ok by auto
  have "{unat (fst u) ..< bend x} = {unat (fst u) ..< bend u} \<union> {unat (fst x) ..< bend x}"
    using left(2) ivl_disj_un_two(3) [of "unat (fst u)" "bend u" "bend x"] by (simp add: bend_def)
  with left u show ?thesis by (simp add: ac_simps)
next
  case (right v ys')
  have v: "bend (join x v) = bend v" using join_ok [of p x v] right ok by auto
  have "{unat (fst x) ..< bend v} = {unat (fst x) ..< bend x} \<union> {unat (fst v) ..< bend v}"
    using right(2) ivl_disj_un_two(3) [of "unat (fst x)" "bend x" "bend v"] by (simp add: bend_def)
  with right v show ?thesis by (simp add: ac_simps)
next
  case none
  then show ?thesis by (simp add: ac_simps)
qed

text \<open>
  The contract of the allocator towards its clients: \<open>mm_rel p0 p F\<close> says that \<open>p\<close>, with the
  sentinels and the region of \<open>p0\<close>, is a well-formed pool whose free bytes are \<open>F\<close>.
\<close>

definition granule :: "u32 \<Rightarrow> bool" where
  "granule n \<longleftrightarrow> 64 dvd unat n \<and> n \<noteq> 0"

definition mm_region :: "mm_pool \<Rightarrow> nat set" where
  "mm_region p = span (mm_addr p) (mm_size p)"

definition mm_valid :: "mm_pool \<Rightarrow> addr \<Rightarrow> u32 \<Rightarrow> bool" where
  "mm_valid p a n \<longleftrightarrow> granule n \<and> 64 dvd unat a \<and> span a n \<subseteq> mm_region p"

definition pool_ok :: "mm_pool \<Rightarrow> bool" where
  "pool_ok p \<longleftrightarrow> mm_addr p \<noteq> NULL \<and> bend (mm_addr p, mm_size p) < 2 ^ 32 \<and>
     unat (l_map p) \<notin> mm_region p \<and> unat (a_map p) \<notin> mm_region p \<and> l_map p \<noteq> NULL \<and> a_map p \<noteq> NULL"

definition mm_rel :: "mm_pool \<Rightarrow> mm_pool \<Rightarrow> nat set \<Rightarrow> bool" where
  "mm_rel p0 p F \<longleftrightarrow> l_map p = l_map p0 \<and> a_map p = a_map p0 \<and> F \<subseteq> mm_region p0 \<and>
     (\<exists>fl. mm_inv p fl \<and> fl_bytes fl = F)"

lemma blk_ok_maps: "l_map p = l_map p0 \<Longrightarrow> a_map p = a_map p0 \<Longrightarrow> blk_ok p = blk_ok p0"
  by (rule ext) (simp add: blk_ok_def)

lemma mm_inv_pos: "mm_inv p fl \<Longrightarrow> fl_pos fl"
  by (auto simp: mm_inv_def fl_pos_def blk_ok_def)

lemma span_blk: "span a n = {unat a ..< bend (a, n)}"
  by (simp add: span_def bend_def)

lemma granule_len: "granule n \<Longrightarrow> 64 \<le> unat n"
  by (auto simp: granule_def unat_gt_0 intro!: dvd_imp_le)

lemma span_sub_region:
  assumes "span a n \<subseteq> mm_region p" and "0 < unat n"
  shows "unat (mm_addr p) \<le> unat a" and "bend (a, n) \<le> bend (mm_addr p, mm_size p)"
proof -
  have "{unat a ..< bend (a, n)} \<subseteq> {unat (mm_addr p) ..< bend (mm_addr p, mm_size p)}"
    using assms(1) by (simp add: mm_region_def span_blk)
  moreover have "unat a < bend (a, n)" using assms(2) by (simp add: bend_def)
  ultimately show "unat (mm_addr p) \<le> unat a" "bend (a, n) \<le> bend (mm_addr p, mm_size p)"
    by (simp_all add: ivl_subset)
qed

lemma mm_valid_blk_ok:
  assumes p: "pool_ok p" and v: "mm_valid p a n"
  shows "blk_ok p (a, n)"
proof -
  have n: "64 \<le> unat n" using v granule_len by (simp add: mm_valid_def)
  note r = span_sub_region [of a n p]
  have le: "unat (mm_addr p) \<le> unat a" "bend (a, n) \<le> bend (mm_addr p, mm_size p)"
    using r v n by (simp_all add: mm_valid_def)
  have pos: "0 < unat (mm_addr p)" "bend (a, n) < 2 ^ 32"
    using p le by (auto simp: pool_ok_def unat_gt_0)
  then have node: "unat (a_node_of a) = unat a + 24" using n by (intro unat_a_node) (simp add: bend_def)
  have "unat a \<in> mm_region p" "unat (a_node_of a) \<in> mm_region p"
    using le n node by (auto simp: mm_region_def span_blk bend_def)
  then have "a \<noteq> l_map p" "a_node_of a \<noteq> a_map p" using p by (auto simp: pool_ok_def)
  moreover have "a \<noteq> NULL" using pos le by auto
  moreover have "a_node_of a \<noteq> NULL" using node by (metis add_is_0 unat_0 zero_neq_numeral)
  ultimately show ?thesis
    using v pos n by (simp add: blk_ok_def mm_valid_def granule_def)
qed

lemma ivl_disj_iff:
  "(a :: nat) < b \<Longrightarrow> c < d \<Longrightarrow> (d \<le> a \<or> b \<le> c) \<longleftrightarrow> {a ..< b} \<inter> {c ..< d} = {}"
  by (auto simp: disjoint_iff not_le)

lemma disjoint_from_iff:
  assumes "blk_ok p (a, n)" and "\<forall>y \<in> set fl. blk_ok p y"
  shows "disjoint_from (a, n) fl \<longleftrightarrow> span a n \<inter> fl_bytes fl = {}"
proof -
  have "(bend y \<le> unat a \<or> bend (a, n) \<le> unat (fst y)) \<longleftrightarrow> span a n \<inter> span (fst y) (snd y) = {}"
    if "y \<in> set fl" for y
    unfolding span_bend span_def [of a n]
    using assms that ivl_disj_iff [of "unat a" "bend (a, n)" "unat (fst y)" "bend y"]
    by (auto simp: blk_ok_def bend_def)
  then show ?thesis by (auto simp: disjoint_from_def fl_bytes_def)
qed

text \<open>A run of free bytes lies in one block, since the blocks of the list do not touch.\<close>

lemma run_in_block:
  assumes "fl_ok fl" and "{a ..< b :: nat} \<subseteq> fl_bytes fl" and "a < b"
  shows "\<exists>x \<in> set fl. {a ..< b} \<subseteq> {unat (fst x) ..< bend x}"
  using assms
proof (induction fl)
  case (Cons x xs)
  note sp = fl_bytes_Cons_split [OF Cons.prems(1)]
  have gap: "\<not> (a \<le> bend x \<and> bend x < b)" using sp(2) Cons.prems(2) by auto
  show ?case
  proof (cases "a < bend x")
    case True
    then have "{a ..< b} \<subseteq> fl_bytes (x # xs) \<inter> {..< bend x}" using gap Cons.prems(2) by auto
    then show ?thesis unfolding sp(1) by (intro bexI [of _ x]) simp_all
  next
    case False
    then have "{a ..< b} \<subseteq> fl_bytes (x # xs) \<inter> {bend x ..}" using Cons.prems(2) by auto
    then show ?thesis using Cons.IH Cons.prems(1,3) unfolding sp(3) by (auto simp: fl_ok_Cons)
  qed
qed simp

lemma taken_bend:
  assumes "blk_ok p x" and "n \<le> snd x"
  shows "unat (fst x + (snd x - n)) = bend x - unat n" and "bend (fst x + (snd x - n), n) = bend x"
proof -
  have sub: "unat (snd x - n) = unat (snd x) - unat n" "unat n \<le> unat (snd x)"
    using assms(2) by (simp_all add: unat_sub word_le_nat_alt)
  then have "unat (fst x) + unat (snd x - n) < 2 ^ 32" using assms(1) by (auto simp: blk_ok_def bend_def)
  with sub show "unat (fst x + (snd x - n)) = bend x - unat n"
    by (simp add: unat_add_len bend_def)
  with sub show "bend (fst x + (snd x - n), n) = bend x" by (simp add: bend_def)
qed

lemma mm_alloc_bytes:
  assumes p0: "pool_ok p0" and rel: "mm_rel p0 p F" and n: "granule n"
  shows "(xf_mm_alloc p n = Some (p, NULL) \<and> (\<forall>a. \<not> span a n \<subseteq> F)) \<or>
    (\<exists>p' a. xf_mm_alloc p n = Some (p', a) \<and> mm_valid p0 a n \<and> span a n \<subseteq> F \<and> mm_rel p0 p' (F - span a n))"
proof -
  obtain fl where fl: "mm_inv p fl" "fl_bytes fl = F" and maps: "l_map p = l_map p0" "a_map p = a_map p0"
    and reg: "F \<subseteq> mm_region p0"
    using rel by (auto simp: mm_rel_def)
  have ok: "fl_ok fl" "\<forall>x \<in> set fl. blk_ok p x" using fl(1) by (simp_all add: mm_inv_def)
  have n64: "64 dvd unat n" "0 < unat n" using n granule_len [OF n] by (simp_all add: granule_def)
  from xf_mm_alloc_ok [OF fl(1) n64(1)] show ?thesis
  proof (elim disjE exE conjE)
    assume none: "xf_mm_alloc p n = Some (p, NULL)" "\<forall>x \<in> set fl. snd x < n"
    have "\<not> span a n \<subseteq> F" for a
    proof
      assume "span a n \<subseteq> F"
      then obtain x where x: "x \<in> set fl" "{unat a ..< bend (a, n)} \<subseteq> {unat (fst x) ..< bend x}"
        using run_in_block [OF ok(1), of "unat a" "bend (a, n)"] n64 fl(2) by (auto simp: span_blk bend_def)
      then have "unat n \<le> unat (snd x)" using n64(2) by (simp add: ivl_subset bend_def)
      with none(2) x(1) show False by (auto simp: word_less_nat_alt)
    qed
    with none(1) show ?thesis by blast
  next
    fix x p'
    assume x: "x \<in> set fl" "n \<le> snd x" and al: "xf_mm_alloc p n = Some (p', fst x + (snd x - n))"
      and inv: "mm_inv p' (fl_take fl x n)" and m: "l_map p' = l_map p" "a_map p' = a_map p"
    define a where "a = fst x + (snd x - n)"
    have bx: "blk_ok p x" using ok(2) x(1) by blast
    note tb = taken_bend [OF bx x(2), folded a_def]
    have sp: "span a n = {bend x - unat n ..< bend x}" unfolding span_blk tb ..
    note take = fl_take_bytes [OF ok(1) x, folded sp, unfolded fl(2)]
    have "64 dvd unat a" unfolding tb(1) using bx n64(1) by (intro dvd_diff_nat) (auto simp: blk_ok_def bend_def)
    then have "mm_valid p0 a n" using take(2) reg n by (auto simp: mm_valid_def)
    moreover have "mm_rel p0 p' (F - span a n)"
      using inv take(1) m maps reg unfolding mm_rel_def by auto
    ultimately show ?thesis using al take(2) unfolding a_def [symmetric] by blast
  qed
qed

lemma mm_free_bytes:
  assumes p0: "pool_ok p0" and rel: "mm_rel p0 p F" and v: "mm_valid p0 a n" and dis: "span a n \<inter> F = {}"
  shows "\<exists>p'. xf_mm_free p a n = Some p' \<and> mm_rel p0 p' (F \<union> span a n)"
proof -
  obtain fl where fl: "mm_inv p fl" "fl_bytes fl = F" and maps: "l_map p = l_map p0" "a_map p = a_map p0"
    and reg: "F \<subseteq> mm_region p0"
    using rel by (auto simp: mm_rel_def)
  have ok: "fl_ok fl" "\<forall>x \<in> set fl. blk_ok p x" using fl(1) by (simp_all add: mm_inv_def)
  have x: "blk_ok p (a, n)" using mm_valid_blk_ok [OF p0 v] blk_ok_maps [OF maps] by simp
  have d: "disjoint_from (a, n) fl" using disjoint_from_iff [OF x ok(2)] dis fl(2) by simp
  obtain p' where p': "xf_mm_free p a n = Some p'" "mm_inv p' (fl_free (a, n) fl)"
    "l_map p' = l_map p" "a_map p' = a_map p"
    using xf_mm_free_ok [OF fl(1) x d] by (auto simp: free_done_def)
  note D = free_startD [OF free_startI [OF fl(1) x d]]
  have "\<forall>y \<in> set ([y \<leftarrow> fl. fst y < fst (a, n)] @ [y \<leftarrow> fl. \<not> fst y < fst (a, n)]). blk_ok p y"
    using ok(2) by auto
  from fl_put_bytes [OF D(3,6,7,1) this] have "fl_bytes (fl_free (a, n) fl) = F \<union> span a n"
    unfolding D(14) D(2) [symmetric] fl(2) by (simp add: span_blk)
  moreover have "F \<union> span a n \<subseteq> mm_region p0" using reg v by (simp add: mm_valid_def)
  ultimately show ?thesis using p' maps unfolding mm_rel_def by auto
qed

section \<open>The contract, and a client\<close>

text \<open>
  Requests of a client of an allocator: allocate a block, or free the \<open>i\<close>-th of the blocks it
  holds. A failed allocation is skipped.
\<close>

datatype mm_request = Take u32 | Give nat

fun mm_run :: "('s \<Rightarrow> u32 \<Rightarrow> ('s \<times> addr) option) \<Rightarrow> ('s \<Rightarrow> addr \<Rightarrow> u32 \<Rightarrow> 's option) \<Rightarrow>
    mm_request list \<Rightarrow> 's \<Rightarrow> blk list \<Rightarrow> ('s \<times> blk list) option" where
  "mm_run al fr [] s live = Some (s, live)"
| "mm_run al fr (Take n # rs) s live =
     (case al s n of
        None \<Rightarrow> None
      | Some (s', a) \<Rightarrow> mm_run al fr rs s' (if a = NULL then live else (a, n) # live))"
| "mm_run al fr (Give i # rs) s live =
     (if i < length live then
        (case fr s (fst (live ! i)) (snd (live ! i)) of
           None \<Rightarrow> None
         | Some s' \<Rightarrow> mm_run al fr rs s' (take i live @ drop (Suc i) live))
      else mm_run al fr rs s live)"

text \<open>The blocks of the client share no byte with each other.\<close>

fun apart_blks :: "blk list \<Rightarrow> bool" where
  "apart_blks [] \<longleftrightarrow> True"
| "apart_blks (x # xs) \<longleftrightarrow> span (fst x) (snd x) \<inter> fl_bytes xs = {} \<and> apart_blks xs"

lemma apart_blks_remove:
  assumes "apart_blks live" and "i < length live"
  shows "apart_blks (take i live @ drop (Suc i) live)"
    and "span (fst (live ! i)) (snd (live ! i)) \<inter> fl_bytes (take i live @ drop (Suc i) live) = {}"
    and "fl_bytes live = span (fst (live ! i)) (snd (live ! i)) \<union> fl_bytes (take i live @ drop (Suc i) live)"
proof -
  have "apart_blks (as @ x # bs) \<Longrightarrow> apart_blks (as @ bs) \<and> span (fst x) (snd x) \<inter> fl_bytes (as @ bs) = {}"
    for as x bs
    by (induction as) (auto simp: span_bend)
  moreover have sp: "live = take i live @ live ! i # drop (Suc i) live" using assms(2) by (rule id_take_nth_drop)
  ultimately show "apart_blks (take i live @ drop (Suc i) live)"
    "span (fst (live ! i)) (snd (live ! i)) \<inter> fl_bytes (take i live @ drop (Suc i) live) = {}"
    using assms(1) by metis+
  show "fl_bytes live = span (fst (live ! i)) (snd (live ! i)) \<union> fl_bytes (take i live @ drop (Suc i) live)"
    by (subst sp) (simp add: span_bend Un_left_commute)
qed

locale byte_allocator =
  fixes al :: "'s \<Rightarrow> u32 \<Rightarrow> ('s \<times> addr) option"
    and fr :: "'s \<Rightarrow> addr \<Rightarrow> u32 \<Rightarrow> 's option"
    and rel :: "'s \<Rightarrow> nat set \<Rightarrow> bool"
    and valid :: "addr \<Rightarrow> u32 \<Rightarrow> bool"
  assumes alloc_bytes: "rel s F \<Longrightarrow> granule n \<Longrightarrow> (al s n = Some (s, NULL) \<and> (\<forall>a. \<not> span a n \<subseteq> F)) \<or>
      (\<exists>s' a. al s n = Some (s', a) \<and> valid a n \<and> span a n \<subseteq> F \<and> rel s' (F - span a n))"
    and free_bytes: "rel s F \<Longrightarrow> valid a n \<Longrightarrow> span a n \<inter> F = {} \<Longrightarrow>
      \<exists>s'. fr s a n = Some s' \<and> rel s' (F \<union> span a n)"
    and valid_not_null: "valid a n \<Longrightarrow> a \<noteq> NULL"
begin

text \<open>What a client may rely on: its blocks are disjoint, and no byte is lost.\<close>

definition client_inv :: "nat set \<Rightarrow> 's \<Rightarrow> blk list \<Rightarrow> bool" where
  "client_inv U s live \<longleftrightarrow> (\<exists>F. rel s F \<and> F \<inter> fl_bytes live = {} \<and> F \<union> fl_bytes live = U \<and>
     apart_blks live \<and> (\<forall>x \<in> set live. valid (fst x) (snd x)))"

lemma client_alloc:
  assumes inv: "client_inv U s live" and n: "granule n"
  shows "\<exists>s' a. al s n = Some (s', a) \<and> client_inv U s' (if a = NULL then live else (a, n) # live)"
proof -
  obtain F where F: "rel s F" "F \<inter> fl_bytes live = {}" "F \<union> fl_bytes live = U"
    "apart_blks live" "\<forall>x \<in> set live. valid (fst x) (snd x)"
    using inv by (auto simp: client_inv_def)
  from alloc_bytes [OF F(1) n] show ?thesis
  proof (elim disjE exE conjE)
    fix s' a
    assume a: "al s n = Some (s', a)" "valid a n" "span a n \<subseteq> F" "rel s' (F - span a n)"
    have "client_inv U s' ((a, n) # live)"
      unfolding client_inv_def
      using F a by (intro exI [of _ "F - span a n"]) (auto simp: span_blk)
    with a valid_not_null show ?thesis by auto
  qed (use inv in simp)
qed

lemma client_free:
  assumes inv: "client_inv U s live" and i: "i < length live"
  shows "\<exists>s'. fr s (fst (live ! i)) (snd (live ! i)) = Some s' \<and>
    client_inv U s' (take i live @ drop (Suc i) live)"
proof -
  let ?x = "live ! i" and ?ls = "take i live @ drop (Suc i) live"
  obtain F where F: "rel s F" "F \<inter> fl_bytes live = {}" "F \<union> fl_bytes live = U"
    "apart_blks live" "\<forall>x \<in> set live. valid (fst x) (snd x)"
    using inv by (auto simp: client_inv_def)
  note rm = apart_blks_remove [OF F(4) i]
  have "span (fst ?x) (snd ?x) \<inter> F = {}" using F(2) rm(3) by blast
  then obtain s' where s': "fr s (fst ?x) (snd ?x) = Some s'" "rel s' (F \<union> span (fst ?x) (snd ?x))"
    using free_bytes [OF F(1)] F(5) i by (metis nth_mem)
  have "\<forall>x \<in> set ?ls. valid (fst x) (snd x)" using F(5) by (auto dest: in_set_takeD in_set_dropD)
  then have "client_inv U s' ?ls"
    unfolding client_inv_def
    using s'(2) F rm by (intro exI [of _ "F \<union> span (fst ?x) (snd ?x)"]) (intro conjI, assumption, blast+)
  with s'(1) show ?thesis by blast
qed

lemma client_run:
  "client_inv U s live \<Longrightarrow> (\<forall>n. Take n \<in> set rs \<longrightarrow> granule n) \<Longrightarrow>
   \<exists>s' live'. mm_run al fr rs s live = Some (s', live') \<and> client_inv U s' live'"
proof (induction rs arbitrary: s live)
  case (Cons r rs)
  show ?case
  proof (cases r)
    case (Take n)
    then show ?thesis using client_alloc [OF Cons.prems(1), of n] Cons.IH Cons.prems(2) by fastforce
  next
    case (Give i)
    then show ?thesis using client_free [OF Cons.prems(1), of i] Cons.IH Cons.prems by fastforce
  qed
qed simp

end

interpretation mm: byte_allocator xf_mm_alloc xf_mm_free "\<lambda>p F. pool_ok p0 \<and> mm_rel p0 p F"
    "\<lambda>a n. pool_ok p0 \<and> mm_valid p0 a n" for p0
proof
  show "(xf_mm_alloc s n = Some (s, NULL) \<and> (\<forall>a. \<not> span a n \<subseteq> F)) \<or>
      (\<exists>s' a. xf_mm_alloc s n = Some (s', a) \<and> (pool_ok p0 \<and> mm_valid p0 a n) \<and> span a n \<subseteq> F \<and>
         pool_ok p0 \<and> mm_rel p0 s' (F - span a n))"
    if "pool_ok p0 \<and> mm_rel p0 s F" "granule n" for s F n
    using mm_alloc_bytes [of p0 s F n] that by blast
  show "\<exists>s'. xf_mm_free s a n = Some s' \<and> pool_ok p0 \<and> mm_rel p0 s' (F \<union> span a n)"
    if "pool_ok p0 \<and> mm_rel p0 s F" "pool_ok p0 \<and> mm_valid p0 a n" "span a n \<inter> F = {}" for s F a n
    using mm_free_bytes [of p0 s F a n] that by blast
  show "a \<noteq> NULL" if "pool_ok p0 \<and> mm_valid p0 a n" for a n
    using mm_valid_blk_ok [of p0 a n] that by (auto simp: blk_ok_def)
qed

section \<open>Initialisation\<close>

lemma low_bits_zero:
  assumes "64 dvd unat (w :: u32)" and "take_bit 6 m = m"
  shows "w AND m = 0"
proof -
  have "unat (take_bit 6 w) = 0"
    unfolding unsigned_take_bit_eq using assms(1) by (simp add: take_bit_eq_mod)
  then have "take_bit 6 w = 0" by (simp only: unat_eq_zero)
  moreover have "w AND m = take_bit 6 (w AND m)"
    using assms(2) by (metis and.assoc take_bit_eq_mask)
  ultimately show ?thesis by (simp add: take_bit_and)
qed

lemma sizeof_block_mask: "take_bit 6 (sizeof_block - 1) = sizeof_block - 1"
  by (simp add: sizeof_block_def take_bit_eq_mod)

lemma lrel_init: "z \<noteq> NULL \<Longrightarrow> lrel z (rb_init z h) {}"
  using rb_tree_at_init [of z h] by (intro lrelI [of z _ Tip]) (simp_all add: rbt_def)

lemma arel_init: "z \<noteq> NULL \<Longrightarrow> arel z (rb_init z h) []"
  using rb_tree_at_init [of z h] by (intro arelI [of z _ Tip]) (simp_all add: rbt_def)

definition mm_reset :: "mm_pool \<Rightarrow> addr \<Rightarrow> u32 \<Rightarrow> mm_pool" where
  "mm_reset p b n = p\<lparr>mm_addr := b, mm_size := n, l_heap := rb_init (l_map p) (l_heap p),
     a_heap := rb_init (a_map p) (a_heap p)\<rparr>"

lemma xf_mm_init_ok:
  assumes p: "pool_ok (p\<lparr>mm_addr := b, mm_size := n\<rparr>)" and b: "64 dvd unat b" and n: "granule n"
  shows "\<exists>p'. xf_mm_init p b n = Inr (Some p') \<and> mm_inv p' [(b, n)] \<and>
    l_map p' = l_map p \<and> a_map p' = a_map p"
proof -
  let ?q = "mm_reset p b n"
  have q: "mm_inv ?q []" 
    using p by (simp add: mm_inv_def fl_ok_def mm_reset_def pool_ok_def lrel_init arel_init)
  have "mm_valid (p\<lparr>mm_addr := b, mm_size := n\<rparr>) b n" using b n by (simp add: mm_valid_def mm_region_def)
  from mm_valid_blk_ok [OF p this] have "blk_ok ?q (b, n)" by (simp add: blk_ok_def mm_reset_def)
  from xf_mm_free_ok [OF q this] have "free_done ?q (b, n) [(b, n)]"
    by (simp add: disjoint_from_def fl_free_def fl_put_def touches_left_def touches_right_def)
  moreover have "xf_mm_init p b n = Inr (xf_mm_free ?q b n)"
    using b n low_bits_zero [OF b sizeof_block_mask] low_bits_zero [OF _ sizeof_block_mask, of n]
    by (simp add: xf_mm_init_def mm_reset_def granule_def)
  ultimately show ?thesis by (auto simp: free_done_def mm_reset_def)
qed

lemma mm_rel_init:
  assumes "pool_ok (p\<lparr>mm_addr := b, mm_size := n\<rparr>)" and "64 dvd unat b" and "granule n"
  shows "\<exists>p'. xf_mm_init p b n = Inr (Some p') \<and> mm_rel (p\<lparr>mm_addr := b, mm_size := n\<rparr>) p' (span b n)"
  using xf_mm_init_ok [OF assms] by (auto simp: mm_rel_def mm_region_def span_blk intro!: exI [of _ "[(b, n)]"])

text \<open>A pool is back in its first state when all its bytes are free.\<close>

lemma mm_rel_all_free:
  assumes "mm_rel p0 p (span b n)" and "granule n" and "bend (b, n) < 2 ^ 32"
  shows "mm_inv p [(b, n)]"
proof -
  obtain fl where fl: "mm_inv p fl" "fl_bytes fl = span b n" using assms(1) by (auto simp: mm_rel_def)
  have "fl = [(b, n)]"
    using fl granule_len [OF assms(2)] mm_inv_pos [OF fl(1)]
    by (intro fl_unique) (auto simp: mm_inv_def fl_ok_def fl_pos_def span_blk)
  with fl(1) show ?thesis by simp
qed
section \<open>Rounding\<close>

lemma sizeof_item_64: "sizeof_item = 64"
  by (simp add: sizeof_item_def sizeof_block_def xf_next_power_of_two_def Let_def)

lemma unat_XF_MM:
  assumes "unat n + 63 < 2 ^ 32"
  shows "unat (XF_MM n) = 64 * ((unat n + 63) div 64)"
proof -
  have "unat (n + 63) = unat n + 63" using unat_add_lem [of n 63] assms by simp
  moreover have "XF_MM n = (n + 63) AND NOT (2 ^ 6 - 1)"
    by (simp add: XF_MM_def sizeof_item_64 add.commute)
  ultimately show ?thesis using clear_mask [of 6 "n + 63"] by simp
qed

section \<open>Properties of the allocator\<close>

text \<open>A pool of 256 bytes at address 4096, whose sentinels lie below it.\<close>

definition demo_pool :: mm_pool where
  "demo_pool = \<lparr>l_map = 64, a_map = 96, mm_addr = 4096, mm_size = 256,
     l_heap = (\<lambda>_. \<lparr>nd_parent = 0, nd_left = 0, nd_right = 0, nd_color = 0\<rparr>),
     a_heap = (\<lambda>_. \<lparr>nd_parent = 0, nd_left = 0, nd_right = 0, nd_color = 0\<rparr>)\<rparr>"

lemma demo_pool_ok: "pool_ok (demo_pool\<lparr>mm_addr := 4096, mm_size := 256\<rparr>)"
  by (simp add: pool_ok_def demo_pool_def mm_region_def span_def bend_def)

lemma demo_pool_eq: "demo_pool\<lparr>mm_addr := 4096, mm_size := 256\<rparr> = demo_pool"
  by (simp add: demo_pool_def)

lemma demo_granule: "granule 64" "granule 128" "granule 256"
  by (simp_all add: granule_def)

lemma demo_pool_init:
  obtains p where "xf_mm_init demo_pool 4096 256 = Inr (Some p)" "mm_inv p [(4096, 256)]"
    "l_map p = 64" "a_map p = 96" "mm_rel demo_pool p (span 4096 256)"
proof -
  obtain p where p: "xf_mm_init demo_pool 4096 256 = Inr (Some p)" "mm_inv p [(4096, 256)]"
    "l_map p = l_map demo_pool" "a_map p = a_map demo_pool"
    using xf_mm_init_ok [OF demo_pool_ok] demo_granule by auto
  moreover have "mm_rel demo_pool p (span 4096 256)"
    using p by (auto simp: mm_rel_def span_blk mm_region_def demo_pool_def intro!: exI [of _ "[(4096, 256)]"])
  ultimately show thesis using that by (simp add: demo_pool_def)
qed

text \<open>
  C8. Allocation is best fit: on a pool with the free blocks \<open>fl\<close>, \<^verbatim>\<open>xf_mm_alloc\<close> returns \<^verbatim>\<open>NULL\<close>
  and changes nothing when every block is too short; otherwise it takes the end of a shortest block
  that is long enough, which shrinks or, when it fits exactly, leaves the free list. The two
  trees of the pool stay a well-formed representation of the free list.
\<close>

theorem mm_alloc_best_fit:
  assumes "mm_inv p fl" and "64 dvd unat n"
  shows "(xf_mm_alloc p n = Some (p, NULL) \<and> (\<forall>x \<in> set fl. snd x < n)) \<or>
    (\<exists>x p'. x \<in> set fl \<and> n \<le> snd x \<and> (\<forall>y \<in> set fl. n \<le> snd y \<longrightarrow> snd x \<le> snd y) \<and>
       xf_mm_alloc p n = Some (p', fst x + (snd x - n)) \<and> mm_inv p' (fl_take fl x n))"
  using xf_mm_alloc_ok [OF assms] by blast

theorem mm_alloc_best_fit_witness:
  "\<exists>p p'. xf_mm_init demo_pool 4096 256 = Inr (Some p) \<and>
     xf_mm_alloc p 64 = Some (p', 4288) \<and> mm_inv p' [(4096, 192)]"
proof -
  obtain p where p: "xf_mm_init demo_pool 4096 256 = Inr (Some p)" "mm_inv p [(4096, 256)]"
    by (rule demo_pool_init)
  have "64 dvd unat (64 :: u32)" by simp
  from mm_alloc_best_fit [OF p(2) this] p(1) show ?thesis by (simp add: fl_take_def)
qed

text \<open>
  C9. Deallocation coalesces: \<^verbatim>\<open>xf_mm_free\<close> of a block that shares no byte with the free ones
  returns, and the free list becomes \<open>fl_free x fl\<close>: the block stands between its neighbours,
  merged with the one that ends where it starts and with the one that starts where it ends.
\<close>

theorem mm_free_coalesces:
  assumes "mm_inv p fl" and "blk_ok p x" and "disjoint_from x fl"
  shows "\<exists>p'. xf_mm_free p (fst x) (snd x) = Some p' \<and> mm_inv p' (fl_free x fl)"
  using xf_mm_free_ok [OF assms] by (auto simp: free_done_def)

theorem mm_free_coalesces_witness:
  "\<exists>p p'. mm_inv p [(4096, 64)] \<and> xf_mm_free p 4160 64 = Some p' \<and> mm_inv p' [(4096, 128)]"
proof -
  obtain p where p: "mm_inv p [(4096, 256)]" "l_map p = 64" "a_map p = 96"
    by (rule demo_pool_init)
  have "64 dvd unat (192 :: u32)" by simp
  from xf_mm_alloc_ok [OF p(1) this] obtain q where
    q: "mm_inv q [(4096, 64)]" "l_map q = l_map p" "a_map q = a_map p"
    by (auto simp: fl_take_def)
  have "blk_ok q (4160, 64)" "disjoint_from (4160, 64) [(4096, 64)]"
    using p(2,3) q(2,3) by (simp_all add: blk_ok_def bend_def a_node_of_def disjoint_from_def)
  from mm_free_coalesces [OF q(1) this] q(1) show ?thesis
    by (simp add: fl_free_def fl_put_def touches_left_def touches_right_def bend_def join_def) blast
qed

text \<open>
  C10. No client of the allocator can be handed a byte twice: whatever it allocates and frees, in
  any order, every call returns, its blocks are disjoint from each other and from the free bytes,
  and together they are the bytes it started with.
\<close>

theorem mm_clients_safe:
  assumes "pool_ok p0" and "mm_rel p0 p F" and "\<forall>n. Take n \<in> set rs \<longrightarrow> granule n"
  shows "\<exists>p' live F'. mm_run xf_mm_alloc xf_mm_free rs p [] = Some (p', live) \<and> apart_blks live \<and>
    mm_rel p0 p' F' \<and> F' \<inter> fl_bytes live = {} \<and> F' \<union> fl_bytes live = F"
proof -
  have "mm.client_inv p0 F p []" unfolding mm.client_inv_def using assms by auto
  from mm.client_run [OF this assms(3)] show ?thesis by (auto simp: mm.client_inv_def)
qed

theorem mm_clients_safe_witness:
  "\<exists>p p' live F'. xf_mm_init demo_pool 4096 256 = Inr (Some p) \<and>
     mm_run xf_mm_alloc xf_mm_free [Take 128, Take 64, Give 1, Take 64] p [] = Some (p', live) \<and>
     apart_blks live \<and> mm_rel demo_pool p' F' \<and> F' \<inter> fl_bytes live = {} \<and> F' \<union> fl_bytes live = span 4096 256"
proof -
  obtain p where p: "xf_mm_init demo_pool 4096 256 = Inr (Some p)" "mm_rel demo_pool p (span 4096 256)"
    by (rule demo_pool_init)
  have "\<forall>n. Take n \<in> set [Take 128, Take 64, Give 1, Take 64] \<longrightarrow> granule n"
    using demo_granule by simp
  from mm_clients_safe [OF demo_pool_ok [unfolded demo_pool_eq] p(2) this] p(1) show ?thesis by blast
qed

text \<open>
  C11. Freeing what was just allocated restores the free list, and not only its bytes: the pieces
  are merged again.
\<close>

theorem mm_alloc_free_roundtrip:
  assumes p0: "pool_ok p0" and p: "mm_rel p0 p (fl_bytes fl)" "mm_inv p fl" and n: "granule n"
    and al: "xf_mm_alloc p n = Some (p', a)" and a: "a \<noteq> NULL"
  shows "\<exists>p''. xf_mm_free p' a n = Some p'' \<and> mm_inv p'' fl"
proof -
  from mm_alloc_bytes [OF p0 p(1) n] al a
  have b: "mm_valid p0 a n" "span a n \<subseteq> fl_bytes fl" "mm_rel p0 p' (fl_bytes fl - span a n)" by auto
  from mm_free_bytes [OF p0 b(3,1)] obtain p'' fl' where
    p'': "xf_mm_free p' a n = Some p''" "mm_inv p'' fl'" "fl_bytes fl' = fl_bytes fl"
    using b(2) by (auto simp: mm_rel_def Un_absorb2)
  have "fl' = fl"
    using p'' p(2) mm_inv_pos [OF p(2)] mm_inv_pos [OF p''(2)] by (intro fl_unique) (auto simp: mm_inv_def)
  with p'' show ?thesis by blast
qed

theorem mm_alloc_free_roundtrip_witness:
  "\<exists>p p' p''. xf_mm_init demo_pool 4096 256 = Inr (Some p) \<and> xf_mm_alloc p 64 = Some (p', 4288) \<and>
     xf_mm_free p' 4288 64 = Some p'' \<and> mm_inv p'' [(4096, 256)]"
proof -
  obtain p where p: "xf_mm_init demo_pool 4096 256 = Inr (Some p)" "mm_inv p [(4096, 256)]"
    "mm_rel demo_pool p (span 4096 256)"
    by (rule demo_pool_init)
  then have rel: "mm_rel demo_pool p (fl_bytes [(4096, 256)])" by (simp add: span_blk)
  have "64 dvd unat (64 :: u32)" by simp
  from xf_mm_alloc_ok [OF p(2) this] obtain p' where al: "xf_mm_alloc p 64 = Some (p', 4288)" by auto
  from mm_alloc_free_roundtrip [OF demo_pool_ok [unfolded demo_pool_eq] rel p(2) demo_granule(1) al] p(1) al
  show ?thesis by auto
qed

text \<open>
  Initialisation of an aligned pool frees all of it: one free block, the whole pool.
\<close>

theorem mm_init_frees_pool:
  assumes "pool_ok (p\<lparr>mm_addr := b, mm_size := n\<rparr>)" and "64 dvd unat b" and "granule n"
  shows "\<exists>p'. xf_mm_init p b n = Inr (Some p') \<and> mm_inv p' [(b, n)]"
  using xf_mm_init_ok [OF assms] by blast

theorem mm_init_frees_pool_witness:
  "\<exists>p'. xf_mm_init demo_pool 4096 256 = Inr (Some p') \<and> mm_inv p' [(4096, 256)]"
  by (rule mm_init_frees_pool [OF demo_pool_ok]) (simp_all add: granule_def)

text \<open>
  The validity test of \<^verbatim>\<open>xf_mm_init\<close> masks with the size of a block descriptor less one,
  which is not a mask, since the size is not a power of two: a pool that is shorter than
  one descriptor and not a multiple of the granule is accepted and put on the free list.
\<close>

theorem mm_init_accepts_short_pool:
  "sizeof_block = 48 \<and> sizeof_item = 64 \<and> (\<forall>p. \<exists>r. xf_mm_init p 16 16 = Inr r) \<and> \<not> XF_MM_ALIGNED 16"
  by (simp add: xf_mm_init_def sizeof_block_def sizeof_item_def XF_MM_ALIGNED_def
      xf_next_power_of_two_def Let_def)

text \<open>
  The rounding of sizes: \<^verbatim>\<open>XF_MM\<close> yields the least multiple of 64 that is not below the
  size, as long as the addition does not wrap.
\<close>

theorem mm_rounds_up:
  assumes "unat n + 63 < 2 ^ 32"
  shows "unat (XF_MM n) = 64 * ((unat n + 63) div 64) \<and> XF_MM_ALIGNED (XF_MM n)"
  using unat_XF_MM [OF assms] by (simp add: XF_MM_ALIGNED_def XF_MM_def sizeof_item_64 and.assoc)

theorem mm_rounds_up_witness: "unat (XF_MM 100) = 128 \<and> XF_MM_ALIGNED (XF_MM 100)"
  using mm_rounds_up [of 100] by simp

end
