(* ===== verification/Mem.thy ===== *)
theory Mem
  imports MM_Bytes
begin

text \<open>
  The allocation functions of \<^verbatim>\<open>sys/xos-msgq/xf-mem.h\<close>, for the build with one core
  (\<^verbatim>\<open>XF_CFG_CORES_NUM\<close> 1), where the branches for memory shared between cores are not compiled and
  \<^verbatim>\<open>XF_CORE_DATA\<close> ignores the core number; the two arguments \<^verbatim>\<open>core\<close> and \<^verbatim>\<open>shared\<close> are left out.
  An allocation is aligned inside a larger block of the pool, and the address and size of that block
  are kept right behind the bytes of the caller, where deallocation looks for them.
\<close>

section \<open>The code\<close>

record xf_mem_info =
  buf_ptr :: addr
  alloc_size :: u32

text \<open>
  The memory of the core: the local and the shared pools by type, the records behind the
  allocated buffers by their address, the addresses of the pools' buffers, and the utilisation
  counters (signed in the code). \<open>after_free\<close> is what a size stored in a block reads as once the
  block is free, which the code does to adjust a counter.
\<close>

record dsp_mem =
  local_pool :: "u32 \<Rightarrow> mm_pool"
  shared_pool :: "u32 \<Rightarrow> mm_pool"
  mem_info :: "addr \<Rightarrow> xf_mem_info"
  local_buffer :: "u32 \<Rightarrow> addr"
  shmem_buffer :: "u32 \<Rightarrow> addr"
  comp_curr :: "u32 \<Rightarrow> u32"
  comp_peak :: "u32 \<Rightarrow> u32"
  frmwk_curr :: "u32 \<Rightarrow> u32"
  frmwk_peak :: "u32 \<Rightarrow> u32"
  after_free :: "addr \<Rightarrow> u32 \<Rightarrow> u32"

definition XF_MIN_ALIGNMENT :: u32 where
  "XF_MIN_ALIGNMENT = 1"

definition XF_MAX_ALIGNMENT :: u32 where
  "XF_MAX_ALIGNMENT = 4096"

definition mem_count_alloc :: "dsp_mem \<Rightarrow> u32 \<Rightarrow> u32 \<Rightarrow> dsp_mem" where
  "mem_count_alloc M t n =
     (if mm_addr (local_pool M t) = local_buffer M t then
        let c = comp_curr M t + n in
        M\<lparr>comp_curr := (comp_curr M)(t := c),
          comp_peak := (if sint (comp_peak M t) < sint c then (comp_peak M)(t := c) else comp_peak M)\<rparr>
      else M)"

definition xf_mem_alloc :: "dsp_mem \<Rightarrow> u32 \<Rightarrow> u32 \<Rightarrow> u32 \<Rightarrow> (dsp_mem \<times> addr) option" where
  "xf_mem_alloc M sz align t =
     (if \<not> align \<le> XF_MAX_ALIGNMENT then Some (M, NULL)
      else
        let align = max align XF_MIN_ALIGNMENT;
            aligned_size = XF_MM (sz + 8 + align - 1)
        in case xf_mm_alloc (local_pool M t) aligned_size of
             None \<Rightarrow> None
           | Some (pool, ptr) \<Rightarrow>
               let M = mem_count_alloc (M\<lparr>local_pool := (local_pool M)(t := pool)\<rparr>) t aligned_size in
               if ptr = NULL then Some (M, ptr)
               else
                 let aligned_ptr = (ptr + align - 1) AND NOT (align - 1) in
                 Some (M\<lparr>mem_info := (mem_info M)
                          (aligned_ptr + sz := \<lparr>buf_ptr = ptr, alloc_size = aligned_size\<rparr>)\<rparr>,
                       aligned_ptr))"

definition xf_mem_free :: "dsp_mem \<Rightarrow> addr \<Rightarrow> u32 \<Rightarrow> u32 \<Rightarrow> dsp_mem option" where
  "xf_mem_free M p sz t =
     (let i = mem_info M (p + sz) in
      case xf_mm_free (local_pool M t) (buf_ptr i) (alloc_size i) of
        None \<Rightarrow> None
      | Some pool \<Rightarrow>
          let M = M\<lparr>local_pool := (local_pool M)(t := pool)\<rparr> in
          Some (if mm_addr pool = local_buffer M t
                then M\<lparr>comp_curr := (comp_curr M)(t := comp_curr M t - after_free M (p + sz) (alloc_size i))\<rparr>
                else M))"

text \<open>Buffers with their size (\<^verbatim>\<open>xf_mm_buffer_t\<close>); \<open>Inl\<close> is the error \<^verbatim>\<open>XAF_MEMORY_ERR\<close>.\<close>

record mm_buffer =
  mb_addr :: addr
  mb_size :: u32

definition xf_mm_alloc_buffer :: "dsp_mem \<Rightarrow> u32 \<Rightarrow> u32 \<Rightarrow> mm_buffer \<Rightarrow> u32 \<Rightarrow>
    (dsp_mem \<times> mm_buffer \<times> int) option" where
  "xf_mm_alloc_buffer M sz align b t =
     (let sz = XF_MM sz in
      if sz \<noteq> 0 then
        case xf_mem_alloc M sz align t of
          None \<Rightarrow> None
        | Some (M, a) \<Rightarrow>
            if a = NULL then Some (M, b\<lparr>mb_addr := a\<rparr>, - 7)
            else Some (M, b\<lparr>mb_addr := a, mb_size := sz\<rparr>, 0)
      else Some (M, b\<lparr>mb_addr := NULL, mb_size := sz\<rparr>, 0))"

definition xf_mm_free_buffer :: "dsp_mem \<Rightarrow> mm_buffer \<Rightarrow> u32 \<Rightarrow> dsp_mem option" where
  "xf_mm_free_buffer M b t =
     (if mb_addr b \<noteq> NULL then xf_mem_free M (mb_addr b) (mb_size b) t else Some M)"

section \<open>Live buffers\<close>

text \<open>
  The buffers \<open>L\<close> a client holds, pairs of an address and a size: each lies with its record inside
  a block of the pool, and these blocks are disjoint from each other and from the free bytes.
\<close>

definition info_at :: "dsp_mem \<Rightarrow> addr \<times> u32 \<Rightarrow> blk" where
  "info_at M x = (buf_ptr (mem_info M (fst x + snd x)), alloc_size (mem_info M (fst x + snd x)))"

definition inside :: "addr \<times> u32 \<Rightarrow> blk \<Rightarrow> bool" where
  "inside x b \<longleftrightarrow> unat (fst b) \<le> unat (fst x) \<and> unat (fst x) + unat (snd x) + 8 \<le> bend b"

definition mm_client :: "mm_pool \<Rightarrow> nat set \<Rightarrow> mm_pool \<Rightarrow> blk list \<Rightarrow> bool" where
  "mm_client p0 = mm.client_inv p0"

lemmas mm_client_alloc = mm.client_alloc [folded mm_client_def]
  and mm_client_free = mm.client_free [folded mm_client_def]

lemma mm_client_head:
  "mm_client p0 U p ((a, n) # live) \<Longrightarrow> mm_valid p0 a n \<and> span a n \<inter> fl_bytes live = {}"
  unfolding mm_client_def mm.client_inv_def by auto

definition mem_live :: "mm_pool \<Rightarrow> u32 \<Rightarrow> nat set \<Rightarrow> dsp_mem \<Rightarrow> (addr \<times> u32) list \<Rightarrow> bool" where
  "mem_live p0 t U M L \<longleftrightarrow> pool_ok p0 \<and>
     (\<forall>x \<in> set L. inside x (info_at M x) \<and> mm_valid p0 (fst (info_at M x)) (snd (info_at M x))) \<and>
     mm_client p0 U (local_pool M t) (map (info_at M) L)"

lemma power_align:
  assumes "k \<le> 12" and "unat w + 4096 < 2 ^ 32"
  shows "unat ((w + 2 ^ k - 1) AND NOT (2 ^ k - 1) :: u32) = 2 ^ k * ((unat w + 2 ^ k - 1) div 2 ^ k)"
proof -
  have "(2 :: nat) ^ k \<le> 2 ^ 12" using assms(1) by (intro power_increasing) simp_all
  then have le: "(2 :: nat) ^ k \<le> 4096" by simp
  then have k: "unat ((2 :: u32) ^ k) = 2 ^ k" using unat_of_nat [of "2 ^ k", where ?'a = 32] by simp
  have "unat (w + 2 ^ k) = unat w + 2 ^ k"
    using unat_add_lem [of w "2 ^ k"] k le assms(2) by simp
  moreover have "w + 2 ^ k \<noteq> 0" using calculation by (metis add_is_0 power_not_zero unat_0 zero_neq_numeral)
  ultimately have "unat (w + 2 ^ k - 1) = unat w + 2 ^ k - 1" by (simp add: unat_minus_one)
  with clear_mask [of k "w + 2 ^ k - 1"] assms(1) show ?thesis by simp
qed

lemma round_up_bounds:
  assumes "0 < (d :: nat)"
  shows "n \<le> d * ((n + d - 1) div d) \<and> d * ((n + d - 1) div d) \<le> n + d - 1"
proof -
  define q r where "q = d * ((n + d - 1) div d)" and "r = (n + d - 1) mod d"
  have "q + r = n + d - 1" unfolding q_def r_def by simp
  moreover have "r < d" using assms unfolding r_def by simp
  ultimately have "n \<le> q \<and> q \<le> n + d - 1" using assms by linarith
  then show ?thesis unfolding q_def .
qed

lemma rounded_size:
  assumes k: "k \<le> 12" and sz: "unat sz + 2 ^ k + 71 < 2 ^ 32" and n: "n = XF_MM (sz + 8 + 2 ^ k - 1)"
  shows "unat sz + 8 + 2 ^ k - 1 \<le> unat n" and "granule n"
proof -
  have k2: "unat ((2 :: u32) ^ k) = 2 ^ k"
  proof -
    have "(2 :: nat) ^ k \<le> 2 ^ 12" using k by (intro power_increasing) simp_all
    then show ?thesis using unat_of_nat [of "2 ^ k", where ?'a = 32] by simp
  qed
  have "unat (sz + 8) = unat sz + 8" using unat_add_lem [of sz 8] sz by simp
  then have "unat (sz + 8 + 2 ^ k) = unat sz + 8 + 2 ^ k"
    using unat_add_lem [of "sz + 8" "2 ^ k"] sz k2 by simp
  moreover have "sz + 8 + 2 ^ k \<noteq> 0" using calculation by (metis add_is_0 unat_0 zero_neq_numeral)
  ultimately have s: "unat (sz + 8 + 2 ^ k - 1) = unat sz + 8 + 2 ^ k - 1" by (metis unat_minus_one)
  have pos: "1 \<le> (2 :: nat) ^ k" by simp
  have n': "unat n = 64 * ((unat sz + 8 + 2 ^ k - 1 + 63) div 64)"
    unfolding n using unat_XF_MM [of "sz + 8 + 2 ^ k - 1"] s sz by simp
  show big: "unat sz + 8 + 2 ^ k - 1 \<le> unat n"
    unfolding n' using round_up_bounds [of 64 "unat sz + 8 + 2 ^ k - 1"] by simp
  then have "0 < unat n" using pos by linarith
  then have "n \<noteq> 0" by auto
  then show "granule n" by (simp add: granule_def n')
qed

lemma aligned_inside:
  assumes k: "k \<le> 12" and sz: "unat sz + 2 ^ k + 71 < 2 ^ 32" and n: "n = XF_MM (sz + 8 + 2 ^ k - 1)"
    and v: "bend (ptr, n) + 4096 < 2 ^ 32"
  shows "2 ^ k dvd unat ((ptr + 2 ^ k - 1) AND NOT (2 ^ k - 1))"
    and "inside ((ptr + 2 ^ k - 1) AND NOT (2 ^ k - 1), sz) (ptr, n)"
    and "granule n" and "unat ptr \<le> unat ((ptr + 2 ^ k - 1) AND NOT (2 ^ k - 1))"
proof -
  have pos: "1 \<le> (2 :: nat) ^ k" by simp
  note big = rounded_size(1) [OF k sz n]
  show "granule n" by (rule rounded_size(2) [OF k sz n])
  have v': "unat ptr + 4096 < 2 ^ 32" using v by (simp add: bend_def)
  note al = power_align [OF k v']
  show "2 ^ k dvd unat ((ptr + 2 ^ k - 1) AND NOT (2 ^ k - 1))" unfolding al by simp
  have rb: "unat ptr \<le> 2 ^ k * ((unat ptr + 2 ^ k - 1) div 2 ^ k)"
    "2 ^ k * ((unat ptr + 2 ^ k - 1) div 2 ^ k) \<le> unat ptr + 2 ^ k - 1"
    using round_up_bounds [of "2 ^ k" "unat ptr"] by simp_all
  show "unat ptr \<le> unat ((ptr + 2 ^ k - 1) AND NOT (2 ^ k - 1))" unfolding al by (rule rb(1))
  show "inside ((ptr + 2 ^ k - 1) AND NOT (2 ^ k - 1), sz) (ptr, n)"
    unfolding inside_def al bend_def fst_conv snd_conv using rb big pos by linarith
qed

lemma inside_key:
  assumes "inside (p, sz) b" and "bend b < 2 ^ 32"
  shows "unat (p + sz) = unat p + unat sz" and "unat (p + sz) \<in> span (fst b) (snd b)"
proof -
  show "unat (p + sz) = unat p + unat sz"
    using assms unat_add_lem [of p sz] by (simp add: inside_def)
  with assms show "unat (p + sz) \<in> span (fst b) (snd b)" by (simp add: span_bend inside_def)
qed

lemma mem_live_bend:
  assumes "mem_live p0 t U M L" and "x \<in> set L"
  shows "bend (info_at M x) < 2 ^ 32"
  using assms mm_valid_blk_ok [of p0 "fst (info_at M x)" "snd (info_at M x)"]
  by (auto simp: mem_live_def blk_ok_def)

lemma mem_count_alloc_simps [simp]:
  "local_pool (mem_count_alloc M t n) = local_pool M" "mem_info (mem_count_alloc M t n) = mem_info M"
  by (simp_all add: mem_count_alloc_def Let_def)

lemma max_align: "k \<le> 12 \<Longrightarrow> (2 :: u32) ^ k \<le> XF_MAX_ALIGNMENT \<and> max (2 ^ k) XF_MIN_ALIGNMENT = (2 :: u32) ^ k"
proof -
  assume "k \<le> 12"
  then have le: "(2 :: nat) ^ k \<le> 2 ^ 12" by (intro power_increasing) simp_all
  then have "unat ((2 :: u32) ^ k) = 2 ^ k" using unat_of_nat [of "2 ^ k", where ?'a = 32] by simp
  with le have "(2 :: u32) ^ k \<le> XF_MAX_ALIGNMENT" "XF_MIN_ALIGNMENT \<le> (2 :: u32) ^ k"
    by (simp_all add: XF_MAX_ALIGNMENT_def XF_MIN_ALIGNMENT_def word_le_nat_alt)
  then show ?thesis by (simp add: max_absorb1)
qed

text \<open>
  Allocation: a null pointer, or a buffer of the given size that is aligned and disjoint from all
  the others.
\<close>

text \<open>Allocation with the block \<open>a\<close> that the pool gives; without one only the counters change.\<close>

definition alloc_done :: "mm_pool \<Rightarrow> u32 \<Rightarrow> nat set \<Rightarrow> dsp_mem \<Rightarrow> (addr \<times> u32) list \<Rightarrow> u32 \<Rightarrow> nat \<Rightarrow> mm_pool \<Rightarrow> addr \<Rightarrow> dsp_mem \<Rightarrow> addr \<Rightarrow> bool" where
  "alloc_done p0 t U M L sz k pool a M' p \<longleftrightarrow>
     a = NULL \<and> p = NULL \<and> mem_live p0 t U M' L \<and>
       M' = mem_count_alloc (M\<lparr>local_pool := (local_pool M)(t := pool)\<rparr>) t (XF_MM (sz + 8 + 2 ^ k - 1)) \<or>
     a \<noteq> NULL \<and> p \<noteq> NULL \<and> 2 ^ k dvd unat p \<and> mem_live p0 t U M' ((p, sz) # L)"

lemma xf_mem_alloc_done:
  assumes inv: "mem_live p0 t U M L" and k: "k \<le> 12" and sz: "unat sz + 2 ^ k + 71 < 2 ^ 32"
    and top: "bend (mm_addr p0, mm_size p0) + 4096 < 2 ^ 32"
  shows "\<exists>M' p pool a. xf_mem_alloc M sz (2 ^ k) t = Some (M', p) \<and>
    xf_mm_alloc (local_pool M t) (XF_MM (sz + 8 + 2 ^ k - 1)) = Some (pool, a) \<and> alloc_done p0 t U M L sz k pool a M' p"
proof -
  define n where "n = XF_MM (sz + 8 + 2 ^ k - 1)"
  have gr: "granule n" by (rule rounded_size(2) [OF k sz n_def])
  have c: "mm_client p0 U (local_pool M t) (map (info_at M) L)" and p0: "pool_ok p0"
    and ins: "\<forall>x \<in> set L. inside x (info_at M x) \<and> mm_valid p0 (fst (info_at M x)) (snd (info_at M x))"
    using inv unfolding mem_live_def by blast+
  from mm_client_alloc [OF c gr] obtain pool a where
    al: "xf_mm_alloc (local_pool M t) n = Some (pool, a)"
    and c': "mm_client p0 U pool (if a = NULL then map (info_at M) L else (a, n) # map (info_at M) L)"
    by blast
  define M1 where "M1 = mem_count_alloc (M\<lparr>local_pool := (local_pool M)(t := pool)\<rparr>) t n"
  have M1: "local_pool M1 t = pool" "mem_info M1 = mem_info M" by (simp_all add: M1_def)
  show ?thesis
  proof (cases "a = NULL")
    case True
    have "info_at M1 = info_at M" by (rule ext) (simp add: info_at_def M1)
    then have "mem_live p0 t U M1 L" using p0 ins c' True M1(1) by (simp add: mem_live_def)
    moreover have "xf_mem_alloc M sz (2 ^ k) t = Some (M1, NULL)"
      using True al max_align [OF k] by (simp add: xf_mem_alloc_def n_def M1_def Let_def)
    ultimately have "alloc_done p0 t U M L sz k pool a M1 NULL" using True by (simp add: alloc_done_def M1_def n_def)
    with al \<open>xf_mem_alloc M sz (2 ^ k) t = Some (M1, NULL)\<close> show ?thesis unfolding n_def by blast
  next
    case False
    define p where "p = (a + 2 ^ k - 1) AND NOT (2 ^ k - 1)"
    define M2 where "M2 = M1\<lparr>mem_info := (mem_info M1)(p + sz := \<lparr>buf_ptr = a, alloc_size = n\<rparr>)\<rparr>"
    have c2: "mm_client p0 U pool ((a, n) # map (info_at M) L)" using c' False by simp
    have v: "mm_valid p0 a n" and ap: "span a n \<inter> fl_bytes (map (info_at M) L) = {}"
      using mm_client_head [OF c2] by blast+
    have top': "bend (a, n) + 4096 < 2 ^ 32"
      using span_sub_region(2) [of a n p0] v granule_len [OF gr] top by (simp add: mm_valid_def)
    note ai = aligned_inside [OF k sz n_def top', folded p_def]
    have "unat (p + sz) \<in> span a n" using inside_key(2) [OF ai(2)] top' by simp
    moreover have "unat (fst x + snd x) \<in> fl_bytes (map (info_at M) L)" if "x \<in> set L" for x
      using inside_key(2) [of "fst x" "snd x" "info_at M x"] ins mem_live_bend [OF inv that] that
      by (auto simp: fl_bytes_def)
    ultimately have keys: "fst x + snd x \<noteq> p + sz" if "x \<in> set L" for x
      using ap that by (metis IntI empty_iff)
    then have L: "info_at M2 x = info_at M x" if "x \<in> set L" for x
      using that by (simp add: info_at_def M2_def M1)
    have new: "info_at M2 (p, sz) = (a, n)" by (simp add: info_at_def M2_def)
    have "map (info_at M2) ((p, sz) # L) = (a, n) # map (info_at M) L" using L new by simp
    moreover have "local_pool M2 t = pool" by (simp add: M2_def M1)
    ultimately have "mm_client p0 U (local_pool M2 t) (map (info_at M2) ((p, sz) # L))"
      using c2 by (simp only:)
    moreover have "\<forall>x \<in> set ((p, sz) # L). inside x (info_at M2 x) \<and>
        mm_valid p0 (fst (info_at M2 x)) (snd (info_at M2 x))"
      using ins L new ai(2) v by simp
    ultimately have "mem_live p0 t U M2 ((p, sz) # L)"
      using p0 unfolding mem_live_def by blast
    moreover have "xf_mem_alloc M sz (2 ^ k) t = Some (M2, p)"
      using False al max_align [OF k] by (simp add: xf_mem_alloc_def n_def M1_def M2_def p_def Let_def)
    moreover have "p \<noteq> NULL" using ai(4) False by (metis le_zero_eq unat_0 unat_eq_zero)
    ultimately have "alloc_done p0 t U M L sz k pool a M2 p" using ai(1) False by (simp add: alloc_done_def)
    with al \<open>xf_mem_alloc M sz (2 ^ k) t = Some (M2, p)\<close> show ?thesis unfolding n_def by blast
  qed
qed

lemma xf_mem_alloc_ok:
  assumes "mem_live p0 t U M L" and "k \<le> 12" and "unat sz + 2 ^ k + 71 < 2 ^ 32"
    and "bend (mm_addr p0, mm_size p0) + 4096 < 2 ^ 32"
  shows "\<exists>M' p. xf_mem_alloc M sz (2 ^ k) t = Some (M', p) \<and>
    (p = NULL \<and> mem_live p0 t U M' L \<or>
     p \<noteq> NULL \<and> 2 ^ k dvd unat p \<and> mem_live p0 t U M' ((p, sz) # L))"
  using xf_mem_alloc_done [OF assms] unfolding alloc_done_def by blast

text \<open>The pool has no block exactly when all its free ones are too short.\<close>

lemma mm_alloc_null_iff:
  assumes "mm_inv p fl" and "64 dvd unat n" and "xf_mm_alloc p n = Some (p', a)"
  shows "a = NULL \<longleftrightarrow> (\<forall>x \<in> set fl. snd x < n)" and "a = NULL \<Longrightarrow> p' = p"
proof -
  have nn: "fst x + (snd x - n) \<noteq> NULL" if x: "x \<in> set fl" "n \<le> snd x" for x
  proof -
    have "blk_ok p x" using assms(1) x(1) by (simp add: mm_inv_def)
    then have b: "fst x \<noteq> NULL" "unat (fst x) + unat (snd x) < 2 ^ 32" by (simp_all add: blk_ok_def bend_def)
    have "unat (snd x - n) \<le> unat (snd x)" using x(2) by (simp add: unat_sub)
    then have "unat (fst x + (snd x - n)) = unat (fst x) + unat (snd x - n)"
      using b(2) by (simp add: unat_word_ariths(1))
    with b(1) show ?thesis by (metis add_is_0 unat_0 unat_eq_zero)
  qed
  from xf_mm_alloc_ok [OF assms(1,2)] show "a = NULL \<longleftrightarrow> (\<forall>x \<in> set fl. snd x < n)" and "a = NULL \<Longrightarrow> p' = p"
    using assms(3) nn by (auto simp: not_less [symmetric])
qed

lemma xf_mem_free_ok:
  assumes inv: "mem_live p0 t U M L" and i: "i < length L"
  shows "\<exists>M'. xf_mem_free M (fst (L ! i)) (snd (L ! i)) t = Some M' \<and>
    mem_live p0 t U M' (take i L @ drop (Suc i) L)"
proof -
  let ?x = "L ! i" and ?L = "take i L @ drop (Suc i) L"
  have c: "mm_client p0 U (local_pool M t) (map (info_at M) L)" and p0: "pool_ok p0"
    and ins: "\<forall>x \<in> set L. inside x (info_at M x) \<and> mm_valid p0 (fst (info_at M x)) (snd (info_at M x))"
    using inv unfolding mem_live_def by blast+
  obtain pool where fr: "xf_mm_free (local_pool M t) (fst (info_at M ?x)) (snd (info_at M ?x)) = Some pool"
    and c': "mm_client p0 U pool (map (info_at M) ?L)"
    using mm_client_free [OF c, of i] i by (auto simp: take_map drop_map)
  obtain M' where M': "xf_mem_free M (fst ?x) (snd ?x) t = Some M'" "local_pool M' t = pool"
    "mem_info M' = mem_info M"
    using fr by (simp add: xf_mem_free_def info_at_def Let_def)
  have "info_at M' = info_at M" by (rule ext) (simp add: info_at_def M'(3))
  then have "mem_live p0 t U M' ?L"
    using p0 ins c' M'(2) by (auto simp: mem_live_def dest: in_set_takeD in_set_dropD)
  with M'(1) show ?thesis by blast
qed

lemma mem_live_disjoint:
  assumes "mem_live p0 t U M (x # L)" and "y \<in> set L"
  shows "unat (fst x) + unat (snd x) \<le> unat (fst y) \<or> unat (fst y) + unat (snd y) \<le> unat (fst x)"
proof -
  let ?a = "info_at M x" and ?b = "info_at M y"
  have ins: "inside x ?a" "inside y ?b" using assms unfolding mem_live_def by auto
  have c: "mm_client p0 U (local_pool M t) ((fst ?a, snd ?a) # map (info_at M) L)"
    using assms(1) unfolding mem_live_def by simp
  have "span (fst ?b) (snd ?b) \<subseteq> fl_bytes (map (info_at M) L)" using assms(2) by (auto simp: fl_bytes_def)
  then have "{unat (fst ?a) ..< bend ?a} \<inter> {unat (fst ?b) ..< bend ?b} = {}"
    using mm_client_head [OF c] unfolding span_bend by blast
  moreover have "unat (fst ?a) < bend ?a" "unat (fst ?b) < bend ?b" using ins by (simp_all add: inside_def)
  ultimately have "bend ?b \<le> unat (fst ?a) \<or> bend ?a \<le> unat (fst ?b)" by (simp add: ivl_disj_iff)
  with ins show ?thesis by (auto simp: inside_def)
qed

section \<open>The contract for the framework\<close>

text \<open>
  What the message pools and the ports rely on: buffers they allocate stay live until they free
  them, with the size they were allocated with.
\<close>

locale buffer_allocator =
  fixes al :: "'s \<Rightarrow> u32 \<Rightarrow> u32 \<Rightarrow> ('s \<times> addr) option"
    and fr :: "'s \<Rightarrow> addr \<Rightarrow> u32 \<Rightarrow> 's option"
    and live :: "'s \<Rightarrow> (addr \<times> u32) list \<Rightarrow> bool"
    and request :: "u32 \<Rightarrow> u32 \<Rightarrow> bool"
  assumes alloc_live: "live s L \<Longrightarrow> request sz align \<Longrightarrow>
      \<exists>s' p. al s sz align = Some (s', p) \<and> (p = NULL \<and> live s' L \<or> p \<noteq> NULL \<and> live s' ((p, sz) # L))"
    and free_live: "live s (L @ x # L') \<Longrightarrow> \<exists>s'. fr s (fst x) (snd x) = Some s' \<and> live s' (L @ L')"
begin

text \<open>Freeing a list of buffers of one size, in order.\<close>

fun free_all :: "addr list \<Rightarrow> u32 \<Rightarrow> 's \<Rightarrow> 's option" where
  "free_all [] n s = Some s"
| "free_all (p # ps) n s = (case fr s p n of None \<Rightarrow> None | Some s \<Rightarrow> free_all ps n s)"

lemma free_all_live:
  "live s (L @ map (\<lambda>p. (p, n)) ps @ L') \<Longrightarrow> \<exists>s'. free_all ps n s = Some s' \<and> live s' (L @ L')"
proof (induction ps arbitrary: s)
  case (Cons p ps)
  then show ?case using free_live [of s L "(p, n)" "map (\<lambda>p. (p, n)) ps @ L'"] by auto
qed simp

lemma free_all_rev_live:
  "live s (L @ rev (map (\<lambda>p. (p, n)) ps) @ L') \<Longrightarrow> \<exists>s'. free_all ps n s = Some s' \<and> live s' (L @ L')"
proof (induction ps arbitrary: s L')
  case (Cons p ps)
  then obtain s1 where "fr s p n = Some s1" "live s1 (L @ rev (map (\<lambda>p. (p, n)) ps) @ L')"
    using free_live [of s "L @ rev (map (\<lambda>p. (p, n)) ps)" "(p, n)" L'] by auto
  with Cons.IH show ?case by simp
qed simp

end

definition mem_request :: "u32 \<Rightarrow> u32 \<Rightarrow> bool" where
  "mem_request sz align \<longleftrightarrow> (\<exists>k \<le> 12. align = 2 ^ k \<and> unat sz + 2 ^ k + 71 < 2 ^ 32)"

definition region_top :: "mm_pool \<Rightarrow> bool" where
  "region_top p \<longleftrightarrow> bend (mm_addr p, mm_size p) + 4096 < 2 ^ 32"

interpretation mem: buffer_allocator "\<lambda>M sz align. xf_mem_alloc M sz align t" "\<lambda>M p sz. xf_mem_free M p sz t"
    "\<lambda>M L. region_top p0 \<and> mem_live p0 t U M L" mem_request for p0 t U
proof
  show "\<exists>s' p. xf_mem_alloc s sz align t = Some (s', p) \<and>
      (p = NULL \<and> region_top p0 \<and> mem_live p0 t U s' L \<or>
       p \<noteq> NULL \<and> region_top p0 \<and> mem_live p0 t U s' ((p, sz) # L))"
    if "region_top p0 \<and> mem_live p0 t U s L" "mem_request sz align" for s L sz align
  proof -
    obtain k where "k \<le> 12" "align = 2 ^ k" "unat sz + 2 ^ k + 71 < 2 ^ 32"
      using \<open>mem_request sz align\<close> unfolding mem_request_def by blast
    then show ?thesis using xf_mem_alloc_ok [of p0 t U s L k sz] that(1) unfolding region_top_def by blast
  qed
  show "\<exists>s'. xf_mem_free s (fst x) (snd x) t = Some s' \<and> region_top p0 \<and> mem_live p0 t U s' (L @ L')"
    if "region_top p0 \<and> mem_live p0 t U s (L @ x # L')" for s L x L'
    using xf_mem_free_ok [of p0 t U s "L @ x # L'" "length L"] that by (simp add: nth_append)
qed

section \<open>Properties of the allocation functions\<close>

definition demo_mem :: "mm_pool \<Rightarrow> dsp_mem" where
  "demo_mem p = \<lparr>local_pool = (\<lambda>_. p), shared_pool = (\<lambda>_. p),
     mem_info = (\<lambda>_. \<lparr>buf_ptr = 0, alloc_size = 0\<rparr>), local_buffer = (\<lambda>_. mm_addr p), shmem_buffer = (\<lambda>_. 0),
     comp_curr = (\<lambda>_. 0), comp_peak = (\<lambda>_. 0), frmwk_curr = (\<lambda>_. 0), frmwk_peak = (\<lambda>_. 0),
     after_free = (\<lambda>_ n. n)\<rparr>"

lemma mm_client_start: "pool_ok p0 \<Longrightarrow> mm_rel p0 p U \<Longrightarrow> mm_client p0 U p []"
  unfolding mm_client_def mm.client_inv_def by auto

lemma demo_mem_live:
  obtains p where "xf_mm_init demo_pool 4096 256 = Inr (Some p)"
    "mem_live demo_pool 0 (span 4096 256) (demo_mem p) []"
    "mm_inv p [(4096, 256)]"
proof -
  obtain p where p: "xf_mm_init demo_pool 4096 256 = Inr (Some p)" "mm_rel demo_pool p (span 4096 256)"
    "mm_inv p [(4096, 256)]"
    by (rule demo_pool_init)
  moreover have "pool_ok demo_pool" using demo_pool_ok unfolding demo_pool_eq .
  ultimately have "mem_live demo_pool 0 (span 4096 256) (demo_mem p) []"
    using mm_client_start [of demo_pool p] by (simp add: mem_live_def demo_mem_def)
  with p that show thesis by blast
qed

lemma demo_mem_alloc:
  obtains M where "mem_live demo_pool 0 (span 4096 256) M [(4288, 20)]"
proof -
  obtain p where p: "mem_live demo_pool 0 (span 4096 256) (demo_mem p) []" "mm_inv p [(4096, 256)]"
    by (rule demo_mem_live)
  have "64 dvd unat (64 :: u32)" by simp
  from xf_mm_alloc_ok [OF p(2) this] obtain p' where al: "xf_mm_alloc p 64 = Some (p', 4288)" by auto
  have "\<exists>M. xf_mem_alloc (demo_mem p) 20 (2 ^ 4) 0 = Some (M, 4288)"
    using al by (simp add: xf_mem_alloc_def demo_mem_def XF_MM_def sizeof_item_64 XF_MAX_ALIGNMENT_def
        XF_MIN_ALIGNMENT_def Let_def)
  moreover have "\<exists>M q. xf_mem_alloc (demo_mem p) 20 (2 ^ 4) 0 = Some (M, q) \<and>
      (q = NULL \<and> mem_live demo_pool 0 (span 4096 256) M [] \<or>
       q \<noteq> NULL \<and> 2 ^ 4 dvd unat q \<and> mem_live demo_pool 0 (span 4096 256) M [(q, 20)])"
    by (rule xf_mem_alloc_ok [OF p(1)]) (simp_all add: demo_pool_def bend_def)
  ultimately show thesis using that by auto
qed

lemma demo_region_top: "region_top demo_pool"
  by (simp add: region_top_def demo_pool_def bend_def)

text \<open>
  C15. \<^verbatim>\<open>xf_mem_alloc\<close> on a pool with the free blocks \<open>fl\<close> returns. It returns \<^verbatim>\<open>NULL\<close> exactly when every
  free block is shorter than the rounded sum of the size, the record and the alignment; then pools, records and
  live buffers stay what they were, only the counters grow. Otherwise the buffer is
  aligned, lies with the record behind it inside its own block of the pool, and shares no byte
  with any other live buffer, and the live buffers stay what they were.
\<close>

theorem mem_alloc_safe:
  assumes "mem_live p0 t U M L" and "region_top p0" and "k \<le> 12" and "unat sz + 2 ^ k + 71 < 2 ^ 32"
    and "mm_inv (local_pool M t) fl"
  shows "\<exists>M' p. xf_mem_alloc M sz (2 ^ k) t = Some (M', p) \<and>
    (p = NULL \<longleftrightarrow> (\<forall>x \<in> set fl. snd x < XF_MM (sz + 8 + 2 ^ k - 1))) \<and>
    (p = NULL \<and> mem_live p0 t U M' L \<and> M' = M\<lparr>comp_curr := comp_curr M', comp_peak := comp_peak M'\<rparr> \<or>
     p \<noteq> NULL \<and> 2 ^ k dvd unat p \<and> mem_live p0 t U M' ((p, sz) # L) \<and>
       (\<forall>x \<in> set L. unat p + unat sz \<le> unat (fst x) \<or> unat (fst x) + unat (snd x) \<le> unat p))"
proof -
  obtain M' p pool a where al: "xf_mem_alloc M sz (2 ^ k) t = Some (M', p)"
    and pool: "xf_mm_alloc (local_pool M t) (XF_MM (sz + 8 + 2 ^ k - 1)) = Some (pool, a)"
    and or: "alloc_done p0 t U M L sz k pool a M' p"
    using xf_mem_alloc_done [OF assms(1,3,4)] assms(2) by (auto simp: region_top_def)
  have "64 dvd unat (XF_MM (sz + 8 + 2 ^ k - 1))"
    using rounded_size(2) [OF assms(3,4) refl] by (simp add: granule_def)
  note null = mm_alloc_null_iff [OF assms(5) this pool]
  have "a = NULL \<longleftrightarrow> p = NULL" using or by (auto simp: alloc_done_def)
  moreover have "M' = M\<lparr>comp_curr := comp_curr M', comp_peak := comp_peak M'\<rparr>" if "a = NULL"
    using or that null(2) [OF that] by (auto simp: alloc_done_def mem_count_alloc_def Let_def)
  moreover have "unat p + unat sz \<le> unat (fst x) \<or> unat (fst x) + unat (snd x) \<le> unat p"
    if "mem_live p0 t U M' ((p, sz) # L)" "x \<in> set L" for x
    using mem_live_disjoint [OF that] by simp
  ultimately show ?thesis using al null(1) or unfolding alloc_done_def by blast
qed

theorem mem_alloc_safe_witness:
  "\<exists>pool M' p. mm_inv pool [(4096, 256)] \<and> xf_mem_alloc (demo_mem pool) 20 (2 ^ 4) 0 = Some (M', p) \<and>
    p \<noteq> NULL \<and> 2 ^ 4 dvd unat p \<and> mem_live demo_pool 0 (span 4096 256) M' [(p, 20)]"
proof -
  obtain pool where pool: "mem_live demo_pool 0 (span 4096 256) (demo_mem pool) []" "mm_inv pool [(4096, 256)]"
    by (rule demo_mem_live)
  have "(4 :: nat) \<le> 12" "unat (20 :: u32) + 2 ^ 4 + 71 < 2 ^ 32" by simp_all
  moreover have "mm_inv (local_pool (demo_mem pool) 0) [(4096, 256)]" using pool(2) by (simp add: demo_mem_def)
  moreover have "\<not> (256 :: u32) < XF_MM (20 + 8 + 2 ^ 4 - 1)" by (simp add: XF_MM_def sizeof_item_64)
  ultimately show ?thesis using mem_alloc_safe [OF pool(1) demo_region_top, of 4 20 "[(4096, 256)]"] pool(2) by auto
qed

text \<open>
  \<^verbatim>\<open>xf_mem_free\<close> with the size of the allocation finds the record behind the buffer and gives
  the whole block back; all other buffers stay live.
\<close>

theorem mem_free_returns_block:
  assumes "mem_live p0 t U M (L @ x # L')"
  shows "\<exists>M'. xf_mem_free M (fst x) (snd x) t = Some M' \<and> mem_live p0 t U M' (L @ L')"
  using xf_mem_free_ok [OF assms, of "length L"] by (simp add: nth_append)

theorem mem_free_returns_block_witness:
  "\<exists>M M'. mem_live demo_pool 0 (span 4096 256) M [(4288, 20)] \<and>
     xf_mem_free M 4288 20 0 = Some M' \<and> mem_live demo_pool 0 (span 4096 256) M' []"
proof -
  obtain M where M: "mem_live demo_pool 0 (span 4096 256) M ([] @ (4288, 20) # [])"
    using demo_mem_alloc by auto
  from mem_free_returns_block [OF M] M show ?thesis by auto
qed

text \<open>
  The utilisation counter grows although the allocation failed: the code adds the size before
  it looks at the result.
\<close>

theorem mem_failed_alloc_counted:
  assumes "align \<le> XF_MAX_ALIGNMENT" and "XF_MIN_ALIGNMENT \<le> align"
    and "xf_mm_alloc (local_pool M t) (XF_MM (sz + 8 + align - 1)) = Some (pool, NULL)"
    and "mm_addr pool = local_buffer M t"
  shows "\<exists>M'. xf_mem_alloc M sz align t = Some (M', NULL) \<and>
    comp_curr M' t = comp_curr M t + XF_MM (sz + 8 + align - 1)"
  using assms by (simp add: xf_mem_alloc_def mem_count_alloc_def Let_def max_absorb1)

theorem mem_failed_alloc_counted_witness:
  "\<exists>p M'. mm_inv p [(4096, 256)] \<and>
     xf_mem_alloc (demo_mem p) 1000 4 0 = Some (M', NULL) \<and> comp_curr M' 0 = 1024"
proof -
  obtain p where p: "mm_inv p [(4096, 256)]" by (rule demo_mem_live)
  have size: "XF_MM (1000 + 8 + 4 - 1) = 1024" by (simp add: XF_MM_def sizeof_item_64)
  have "64 dvd unat (1024 :: u32)" by simp
  from xf_mm_alloc_ok [OF p this] have "xf_mm_alloc p 1024 = Some (p, NULL)" by auto
  then have al: "xf_mm_alloc (local_pool (demo_mem p) 0) (XF_MM (1000 + 8 + 4 - 1)) = Some (p, NULL)"
    unfolding size by (simp add: demo_mem_def)
  have "mm_addr p = local_buffer (demo_mem p) 0" by (simp add: demo_mem_def)
  from mem_failed_alloc_counted [OF _ _ al this] obtain M' where
    "xf_mem_alloc (demo_mem p) 1000 4 0 = Some (M', NULL)" "comp_curr M' 0 = comp_curr (demo_mem p) 0 + 1024"
    unfolding size by (auto simp: XF_MAX_ALIGNMENT_def XF_MIN_ALIGNMENT_def)
  with p show ?thesis by (auto simp: demo_mem_def)
qed

end
