(* ===== verification/Opcode.thy ===== *)
theory Opcode
  imports Prelude
begin

text \<open>
  Message identifiers, opcodes and ring-buffer indices: the macros of \<^verbatim>\<open>xf-dp_opcode.h\<close> and
  \<^verbatim>\<open>xf-dp_proxy.h\<close>. An identifier is a 64-bit word with the source port specification in its low
  half and the destination in its high half; a specification holds core (8 bits), client (6 bits),
  port (4 bits) and, in its last bit, whether it names a proxy.
\<close>

section \<open>Identifiers\<close>

definition XF_PORT_SPEC :: "u32 \<Rightarrow> u32 \<Rightarrow> u32 \<Rightarrow> u64" where
  "XF_PORT_SPEC core client port = ucast core OR ucast (push_bit 8 client) OR push_bit 14 (ucast port)"

definition XF_PORT_CORE :: "u64 \<Rightarrow> u32" where
  "XF_PORT_CORE spec = ucast (spec AND (push_bit 8 1 - 1))"

definition XF_PORT_CLIENT :: "u64 \<Rightarrow> u32" where
  "XF_PORT_CLIENT spec = ucast (drop_bit 8 spec AND (push_bit 6 1 - 1))"

definition XF_PORT_ID :: "u64 \<Rightarrow> u32" where
  "XF_PORT_ID spec = ucast (drop_bit 14 spec AND (push_bit 4 1 - 1))"

definition XF_MSG_ID :: "u64 \<Rightarrow> u64 \<Rightarrow> u64" where
  "XF_MSG_ID src dst = (src AND (push_bit 32 1 - 1)) OR push_bit 32 (dst AND (push_bit 32 1 - 1))"

definition XF_MSG_SRC :: "u64 \<Rightarrow> u32" where
  "XF_MSG_SRC i = ucast (i AND (push_bit 32 1 - 1))"

definition XF_MSG_SRC_CORE :: "u64 \<Rightarrow> u32" where
  "XF_MSG_SRC_CORE i = ucast (i AND (push_bit 8 1 - 1))"

definition XF_MSG_SRC_CLIENT :: "u64 \<Rightarrow> u32" where
  "XF_MSG_SRC_CLIENT i = ucast (drop_bit 8 i AND (push_bit 6 1 - 1))"

definition XF_MSG_SRC_PORT :: "u64 \<Rightarrow> u32" where
  "XF_MSG_SRC_PORT i = ucast (drop_bit 14 i AND (push_bit 4 1 - 1))"

definition XF_MSG_SRC_PROXY :: "u64 \<Rightarrow> bool" where
  "XF_MSG_SRC_PROXY i \<longleftrightarrow> drop_bit (32 - 1) i AND 1 \<noteq> 0"

definition XF_MSG_DST :: "u64 \<Rightarrow> u32" where
  "XF_MSG_DST i = ucast (drop_bit 32 i AND (push_bit 32 1 - 1))"

definition XF_MSG_DST_CORE :: "u64 \<Rightarrow> u32" where
  "XF_MSG_DST_CORE i = ucast (drop_bit 32 i AND (push_bit 8 1 - 1))"

definition XF_MSG_DST_CLIENT :: "u64 \<Rightarrow> u32" where
  "XF_MSG_DST_CLIENT i = ucast (drop_bit (32 + 8) i AND (push_bit 6 1 - 1))"

definition XF_MSG_DST_PORT :: "u64 \<Rightarrow> u32" where
  "XF_MSG_DST_PORT i = ucast (drop_bit (32 + 14) i AND (push_bit 4 1 - 1))"

definition XF_MSG_DST_PROXY :: "u64 \<Rightarrow> bool" where
  "XF_MSG_DST_PROXY i \<longleftrightarrow> drop_bit (2 * 32 - 1) i AND 1 \<noteq> 0"

section \<open>Opcodes\<close>

definition XF_OPCODE :: "u32 \<Rightarrow> u32 \<Rightarrow> u32 \<Rightarrow> u32" where
  "XF_OPCODE c r op = push_bit 31 c OR push_bit 30 r OR (op AND 0x3F)"

definition XF_OPCODE_CDATA :: "u32 \<Rightarrow> bool" where
  "XF_OPCODE_CDATA opcode \<longleftrightarrow> opcode AND push_bit 31 1 \<noteq> 0"

definition XF_OPCODE_RDATA :: "u32 \<Rightarrow> bool" where
  "XF_OPCODE_RDATA opcode \<longleftrightarrow> opcode AND push_bit 30 1 \<noteq> 0"

definition XF_OPCODE_TYPE :: "u32 \<Rightarrow> u32" where
  "XF_OPCODE_TYPE opcode = opcode AND 0x3F"

definition XF_UNREGISTER :: u32 where "XF_UNREGISTER = XF_OPCODE 0 0 0"
definition XF_REGISTER :: u32 where "XF_REGISTER = XF_OPCODE 1 0 1"
definition XF_ROUTE :: u32 where "XF_ROUTE = XF_OPCODE 1 0 2"
definition XF_UNROUTE :: u32 where "XF_UNROUTE = XF_OPCODE 1 0 3"
definition XF_ALLOC :: u32 where "XF_ALLOC = XF_OPCODE 0 0 4"
definition XF_FREE :: u32 where "XF_FREE = XF_OPCODE 0 0 5"
definition XF_SET_PARAM :: u32 where "XF_SET_PARAM = XF_OPCODE 1 0 6"
definition XF_GET_PARAM :: u32 where "XF_GET_PARAM = XF_OPCODE 1 1 7"
definition XF_EMPTY_THIS_BUFFER :: u32 where "XF_EMPTY_THIS_BUFFER = XF_OPCODE 1 0 8"
definition XF_FILL_THIS_BUFFER :: u32 where "XF_FILL_THIS_BUFFER = XF_OPCODE 0 1 9"
definition XF_FLUSH :: u32 where "XF_FLUSH = XF_OPCODE 0 0 10"
definition XF_START :: u32 where "XF_START = XF_OPCODE 0 0 11"
definition XF_STOP :: u32 where "XF_STOP = XF_OPCODE 0 0 12"
definition XF_PAUSE :: u32 where "XF_PAUSE = XF_OPCODE 0 0 13"
definition XF_RESUME :: u32 where "XF_RESUME = XF_OPCODE 0 0 14"
definition XF_SET_PARAM_EXT :: u32 where "XF_SET_PARAM_EXT = XF_OPCODE 1 0 15"
definition XF_GET_PARAM_EXT :: u32 where "XF_GET_PARAM_EXT = XF_OPCODE 1 1 16"
definition XF_SET_PRIORITIES :: u32 where "XF_SET_PRIORITIES = XF_OPCODE 1 0 17"
definition XF_EVENT_CHANNEL_CREATE :: u32 where "XF_EVENT_CHANNEL_CREATE = XF_OPCODE 1 0 18"
definition XF_EVENT_CHANNEL_DELETE :: u32 where "XF_EVENT_CHANNEL_DELETE = XF_OPCODE 1 0 19"
definition XF_EVENT :: u32 where "XF_EVENT = XF_OPCODE 1 1 20"
definition XF_STATS :: u32 where "XF_STATS = XF_OPCODE 0 1 21"

section \<open>Ring-buffer indices\<close>

text \<open>
  An index of the shared rings holds the position in its low byte and a 16-bit count of the
  messages in its high half, by which a full ring is told from an empty one.
\<close>

definition XF_PROXY_MESSAGE_QUEUE_LENGTH :: u32 where
  "XF_PROXY_MESSAGE_QUEUE_LENGTH = push_bit 8 1"

definition XF_PROXY_MESSAGE_QUEUE_MASK :: u32 where
  "XF_PROXY_MESSAGE_QUEUE_MASK = 0xFF"

definition XF_QUEUE_IDX :: "u32 \<Rightarrow> u32" where
  "XF_QUEUE_IDX idx = idx AND XF_PROXY_MESSAGE_QUEUE_MASK"

definition XF_QUEUE_ADVANCE_IDX :: "u32 \<Rightarrow> u32" where
  "XF_QUEUE_ADVANCE_IDX idx = (idx + 0x10001) AND (0xFFFF0000 OR XF_PROXY_MESSAGE_QUEUE_MASK)"

definition XF_QUEUE_EMPTY :: "u32 \<Rightarrow> u32 \<Rightarrow> bool" where
  "XF_QUEUE_EMPTY rd wr \<longleftrightarrow> rd = wr"

definition XF_QUEUE_FULL :: "u32 \<Rightarrow> u32 \<Rightarrow> bool" where
  "XF_QUEUE_FULL rd wr \<longleftrightarrow> wr = rd + push_bit 16 XF_PROXY_MESSAGE_QUEUE_LENGTH"

section \<open>Facts on identifiers\<close>

lemmas id_defs = XF_PORT_SPEC_def XF_PORT_CORE_def XF_PORT_CLIENT_def XF_PORT_ID_def XF_MSG_ID_def
  XF_MSG_SRC_def XF_MSG_SRC_CORE_def XF_MSG_SRC_CLIENT_def XF_MSG_SRC_PORT_def XF_MSG_SRC_PROXY_def
  XF_MSG_DST_def XF_MSG_DST_CORE_def XF_MSG_DST_CLIENT_def XF_MSG_DST_PORT_def XF_MSG_DST_PROXY_def

lemma low_field: "(w :: u64) AND (push_bit n 1 - 1) = take_bit n w"
  by (simp add: take_bit_eq_mask mask_eq_exp_minus_1 push_bit_eq_mult)

lemma proxy_bit: "drop_bit n (i :: u64) AND 1 \<noteq> 0 \<longleftrightarrow> bit i n"
  by (simp add: and_one_eq odd_iff_mod_2_eq_one [symmetric] bit_iff_odd_drop_bit)

lemma msg_id_fields:
  "XF_MSG_SRC (XF_MSG_ID (ucast s) (ucast d)) = s" "XF_MSG_DST (XF_MSG_ID (ucast s) (ucast d)) = d"
  unfolding id_defs low_field by (rule bit_word_eqI, auto simp: bit_simps)+

lemma msg_id_split: "XF_MSG_ID (ucast (XF_MSG_SRC i)) (ucast (XF_MSG_DST i)) = i"
  unfolding id_defs low_field by (rule bit_word_eqI) (auto simp: bit_simps)

text \<open>The fields of the swapped identifier.\<close>

definition swap_id :: "u64 \<Rightarrow> u64" where
  "swap_id i = XF_MSG_ID (ucast (XF_MSG_DST i)) (ucast (XF_MSG_SRC i))"

lemma swap_id_fields [simp]:
  "XF_MSG_SRC (swap_id i) = XF_MSG_DST i" "XF_MSG_DST (swap_id i) = XF_MSG_SRC i"
  "XF_MSG_SRC_CORE (swap_id i) = XF_MSG_DST_CORE i" "XF_MSG_DST_CORE (swap_id i) = XF_MSG_SRC_CORE i"
  "XF_MSG_SRC_CLIENT (swap_id i) = XF_MSG_DST_CLIENT i" "XF_MSG_DST_CLIENT (swap_id i) = XF_MSG_SRC_CLIENT i"
  "XF_MSG_SRC_PORT (swap_id i) = XF_MSG_DST_PORT i" "XF_MSG_DST_PORT (swap_id i) = XF_MSG_SRC_PORT i"
  unfolding swap_id_def id_defs low_field by (rule bit_word_eqI, auto simp: bit_simps)+

lemma swap_id_proxy [simp]:
  "XF_MSG_SRC_PROXY (swap_id i) = XF_MSG_DST_PROXY i" "XF_MSG_DST_PROXY (swap_id i) = XF_MSG_SRC_PROXY i"
  unfolding swap_id_def id_defs low_field proxy_bit by (simp_all add: bit_simps)

lemma swap_swap_id [simp]: "swap_id (swap_id i) = i"
  unfolding swap_id_def msg_id_fields by (rule msg_id_split)

lemma small_bits:
  assumes "unat (w :: u32) < 2 ^ k" and "bit w n"
  shows "n < k"
proof -
  have "take_bit k w = w"
    using assms(1) by (simp add: word_unat_eq_iff unsigned_take_bit_eq take_bit_nat_eq_self)
  then show ?thesis using assms(2) bit_take_bit_iff [of k w n] by simp
qed

lemma port_spec_fields:
  assumes "unat core < 2 ^ 8" and "unat client < 2 ^ 6" and "unat port < 2 ^ 4"
  shows "XF_PORT_CORE (XF_PORT_SPEC core client port) = core"
    and "XF_PORT_CLIENT (XF_PORT_SPEC core client port) = client"
    and "XF_PORT_ID (XF_PORT_SPEC core client port) = port"
  unfolding id_defs low_field
  by (rule bit_word_eqI; use small_bits [OF assms(1)] small_bits [OF assms(2)] small_bits [OF assms(3)]
      in \<open>fastforce simp: bit_simps\<close>)+

section \<open>Facts on ring indices\<close>

text \<open>The index after \<open>n\<close> messages.\<close>

definition ring_idx :: "nat \<Rightarrow> u32" where
  "ring_idx n = word_of_nat (n mod 2 ^ 16 * 2 ^ 16 + n mod 2 ^ 8)"

lemma unat_ring_idx: "unat (ring_idx n) = n mod 2 ^ 16 * 2 ^ 16 + n mod 2 ^ 8"
proof -
  have "n mod 2 ^ 16 * 2 ^ 16 + n mod 2 ^ 8 < 2 ^ 32"
    using mod_less_divisor [of "2 ^ 16" n] mod_less_divisor [of "2 ^ 8" n] by simp
  then show ?thesis unfolding ring_idx_def unat_of_nat by simp
qed

lemma high_eq: "(a :: nat) * 65536 + b = c * 65536 + d \<Longrightarrow> b < 65536 \<Longrightarrow> d < 65536 \<Longrightarrow> a = c"
  using div_mult_self3 [of 65536 b a] div_mult_self3 [of 65536 d c] by simp

lemma ring_parts:
  "c < 65536 \<Longrightarrow> 2 ^ 16 * ((a * 65536 + c) div 2 ^ 16) + (a * 65536 + c) mod 2 ^ 8 = (a :: nat) * 65536 + c mod 256"
  using div_mult_self3 [of 65536 c a] mod_mult_self3 [of "a * 256" 256 c] by (simp add: mult.assoc)

lemma ring_idx_eq: "ring_idx m = ring_idx n \<longleftrightarrow> m mod 2 ^ 16 = n mod 2 ^ 16"
proof
  assume "ring_idx m = ring_idx n"
  then have "m mod 2 ^ 16 * 2 ^ 16 + m mod 2 ^ 8 = n mod 2 ^ 16 * 2 ^ 16 + n mod 2 ^ 8"
    by (simp only: unat_ring_idx [symmetric])
  moreover have "m mod 2 ^ 8 < 2 ^ 16" "n mod 2 ^ 8 < (2 :: nat) ^ 16"
    using mod_less_divisor [of "2 ^ 8" m] mod_less_divisor [of "2 ^ 8" n] by simp_all
  ultimately show "m mod 2 ^ 16 = n mod 2 ^ 16"
    using high_eq [of "m mod 2 ^ 16" "m mod 2 ^ 8" "n mod 2 ^ 16" "n mod 2 ^ 8"] by simp
next
  assume eq: "m mod 2 ^ 16 = n mod 2 ^ 16"
  have "(m :: nat) mod 2 ^ 8 = m mod 2 ^ 16 mod 2 ^ 8" for m by (simp add: mod_mod_cancel)
  then have "m mod 2 ^ 8 = n mod 2 ^ 8" using eq by metis
  with eq show "ring_idx m = ring_idx n" by (simp add: ring_idx_def)
qed

lemma ring_mask: "unat ((w :: u32) AND 0xFFFF00FF) = 2 ^ 16 * (unat w div 2 ^ 16) + unat w mod 2 ^ 8"
proof -
  let ?hi = "w AND NOT (2 ^ 16 - 1)" and ?lo = "take_bit 8 w"
  have m: "(0xFFFF00FF :: u32) = NOT (mask 16) OR mask 8" "(2 :: u32) ^ 16 - 1 = mask 16"
    by (simp_all add: mask_eq_exp_minus_1)
  have "w AND (NOT (mask 16) OR mask 8) = (w AND NOT (mask 16)) OR take_bit 8 w"
    by (rule bit_word_eqI) (auto simp: bit_simps)
  then have or: "w AND 0xFFFF00FF = ?hi OR ?lo" unfolding m .
  have "?hi + ?lo = ?hi OR ?lo"
    unfolding m(2) by (rule disjunctive_add_eq_or) (rule bit_word_eqI, auto simp: bit_simps)
  moreover have lo: "unat ?lo = unat w mod 2 ^ 8" unfolding unsigned_take_bit_eq by (simp add: take_bit_eq_mod)
  have hi: "unat ?hi = 2 ^ 16 * (unat w div 2 ^ 16)" by (rule clear_mask) simp
  have "unat w mod 2 ^ 8 \<le> unat w mod 2 ^ 16"
    using mod_less_eq_dividend [of "unat w mod 2 ^ 16" "2 ^ 8"] by (simp add: mod_mod_cancel)
  then have "unat ?hi + unat ?lo \<le> unat w"
    unfolding lo hi using mult_div_mod_eq [of "2 ^ 16" "unat w"] by linarith
  then have "unat (?hi + ?lo) = unat ?hi + unat ?lo"
    using unsigned_less [of w, where ?'a = nat] by (intro unat_add_lem [THEN iffD1]) simp
  ultimately show ?thesis unfolding or lo hi by simp
qed

lemma ring_advance: "XF_QUEUE_ADVANCE_IDX (ring_idx n) = ring_idx (Suc n)"
proof -
  define h l where "h = n mod 2 ^ 16" and "l = n mod 2 ^ 8"
  have b: "h < 65536" "l < 256" by (simp_all add: h_def l_def)
  have y: "unat (ring_idx n + 0x10001) = (h * 65536 + l + 65537) mod 2 ^ 32"
    unfolding unat_word_ariths unat_ring_idx by (simp add: h_def l_def)
  have h': "Suc n mod 2 ^ 16 = (if h = 65535 then 0 else Suc h)" by (simp add: h_def mod_Suc)
  have l': "Suc n mod 2 ^ 8 = (if l = 255 then 0 else Suc l)" by (simp add: l_def mod_Suc)
  have v: "unat (ring_idx n + 0x10001) = (if h = 65535 then 0 else Suc h) * 65536 + Suc l"
  proof (cases "h = 65535")
    case True
    then have "h * 65536 + l + 65537 = Suc l + 2 ^ 32" by simp
    then show ?thesis unfolding y using True b by (simp only: mod_add_self2 if_True) simp
  next
    case False
    then have "h * 65536 + l + 65537 < 2 ^ 32" using b by simp
    then show ?thesis unfolding y using False by simp
  qed
  have "Suc l < 65536" using b by simp
  from ring_parts [OF this, of "if h = 65535 then 0 else Suc h"]
  have "2 ^ 16 * (unat (ring_idx n + 0x10001) div 2 ^ 16) + unat (ring_idx n + 0x10001) mod 2 ^ 8 =
      Suc n mod 2 ^ 16 * 2 ^ 16 + Suc n mod 2 ^ 8"
    unfolding v h' l' using b by (cases "l = 255") simp_all
  then have "unat (XF_QUEUE_ADVANCE_IDX (ring_idx n)) = unat (ring_idx (Suc n))"
    unfolding XF_QUEUE_ADVANCE_IDX_def unat_ring_idx
    using ring_mask [of "ring_idx n + 0x10001"] by (simp add: XF_PROXY_MESSAGE_QUEUE_MASK_def)
  then show ?thesis by (simp only: word_unat_eq_iff)
qed

text \<open>Between two indices of a ring with at most 256 messages, empty and full are what they say.\<close>

lemma near_mod_eq: "r \<le> w \<Longrightarrow> w \<le> r + 256 \<Longrightarrow> (w :: nat) mod 2 ^ 16 = r mod 2 ^ 16 \<longleftrightarrow> w = r"
proof -
  assume "r \<le> w" "w \<le> r + 256"
  then have "w - r < 2 ^ 16" by simp
  then have "2 ^ 16 dvd w - r \<longleftrightarrow> w - r = 0"
    using nat_dvd_not_less [of "w - r" "2 ^ 16"] by (cases "w - r = 0") auto
  with \<open>r \<le> w\<close> show ?thesis by (simp add: mod_eq_dvd_iff_nat)
qed

lemma ring_empty: "r \<le> w \<Longrightarrow> w \<le> r + 256 \<Longrightarrow> XF_QUEUE_EMPTY (ring_idx r) (ring_idx w) \<longleftrightarrow> w = r"
  using near_mod_eq [of r w] by (auto simp: XF_QUEUE_EMPTY_def ring_idx_eq)

lemma ring_idx_add: "ring_idx r + push_bit 16 XF_PROXY_MESSAGE_QUEUE_LENGTH = ring_idx (r + 256)"
proof -
  define h l where "h = r mod 2 ^ 16" and "l = r mod 2 ^ 8"
  have b: "h < 65536" "l < 256" by (simp_all add: h_def l_def)
  have len: "push_bit 16 XF_PROXY_MESSAGE_QUEUE_LENGTH = 0x1000000"
    by (simp add: XF_PROXY_MESSAGE_QUEUE_LENGTH_def push_bit_eq_mult)
  have "(r + 256) mod 2 ^ 16 = (h + 256) mod 2 ^ 16" "(r + 256) mod 2 ^ 8 = l"
    by (simp_all add: h_def l_def mod_add_left_eq)
  moreover have "(h * 65536 + l + 16777216) mod 2 ^ 32 = (h + 256) mod 2 ^ 16 * 65536 + l"
  proof (cases "h + 256 < 65536")
    case True
    then show ?thesis using b by simp
  next
    case False
    define g where "g = h + 256 - 65536"
    have g: "h * 65536 + l + 16777216 = (g * 65536 + l) + 2 ^ 32" "h + 256 = g + 2 ^ 16" "g < 256"
      using False b by (simp_all add: g_def)
    have "g * 65536 + l < 2 ^ 32" using g(3) b by simp
    then show ?thesis unfolding g(1,2) mod_add_self2 using g(3) by simp
  qed
  ultimately have "unat (ring_idx r + 0x1000000) = unat (ring_idx (r + 256))"
    unfolding unat_word_ariths unat_ring_idx h_def [symmetric] l_def [symmetric] by simp
  then show ?thesis unfolding len by (simp only: word_unat_eq_iff)
qed

lemma ring_full: "r \<le> w \<Longrightarrow> w \<le> r + 256 \<Longrightarrow> XF_QUEUE_FULL (ring_idx r) (ring_idx w) \<longleftrightarrow> w = r + 256"
  using near_mod_eq [of w "r + 256"] unfolding XF_QUEUE_FULL_def ring_idx_add ring_idx_eq by auto

lemma ring_slot: "unat (XF_QUEUE_IDX (ring_idx n)) = n mod 256"
proof -
  have "(0xFF :: u32) = mask 8" by (simp add: mask_eq_exp_minus_1)
  then have "XF_QUEUE_IDX (ring_idx n) = take_bit 8 (ring_idx n)"
    by (simp add: XF_QUEUE_IDX_def XF_PROXY_MESSAGE_QUEUE_MASK_def take_bit_eq_mask)
  then have "unat (XF_QUEUE_IDX (ring_idx n)) = take_bit 8 (unat (ring_idx n))"
    by (simp only: unsigned_take_bit_eq)
  also have "\<dots> = (n mod 2 ^ 16 * 256 * 256 + n mod 256) mod 256"
    unfolding unat_ring_idx take_bit_eq_mod by (simp add: mult.assoc mult.commute)
  finally show ?thesis by (simp only: mod_mult_self3) simp
qed

end
