(* ===== verification/Msg.thy ===== *)
theory Msg
  imports Mem Opcode "HOL-Library.Signed_Division"
begin

text \<open>
  Messages, message pools and message queues (\<^verbatim>\<open>xf-msg.h\<close>, \<^verbatim>\<open>xf-msg.c\<close>). Messages live in a heap
  from addresses to records; a queue and the free list of a pool are singly linked lists through
  the field \<open>m_next\<close>. The locks of the synchronised queues are left out: one operation is one step.
\<close>

section \<open>The code\<close>

record xf_message =
  m_next :: addr
  m_id :: u64
  m_opcode :: u32
  m_length :: u32
  m_buffer :: addr
  m_error :: u32

type_synonym msg_heap = "addr \<Rightarrow> xf_message"

definition XF_MSG_LENGTH_INVALID :: u32 where
  "XF_MSG_LENGTH_INVALID = 0xFFFFFFFF"

text \<open>The size of a message aligned to the cache line of 64 bytes (\<^verbatim>\<open>__xf_message_t\<close>).\<close>

definition sizeof_msg :: u32 where
  "sizeof_msg = 64"

record msg_pool =
  pl_p :: addr
  pl_head :: addr
  pl_n :: u32

definition xf_msg_pool_item :: "msg_pool \<Rightarrow> u32 \<Rightarrow> addr" where
  "xf_msg_pool_item pool i = pl_p pool + i * sizeof_msg"

record msg_queue =
  q_head :: addr
  q_tail :: addr

definition xf_msg_queue_init :: msg_queue where
  "xf_msg_queue_init = \<lparr>q_head = NULL, q_tail = NULL\<rparr>"

definition xf_msg_enqueue :: "msg_heap \<Rightarrow> msg_queue \<Rightarrow> addr \<Rightarrow> msg_heap \<times> msg_queue \<times> bool" where
  "xf_msg_enqueue h queue m =
     (let empty = (q_head queue = NULL);
          h = h(m := (h m)\<lparr>m_next := NULL\<rparr>);
          (h, queue) =
            (if empty then (h, queue\<lparr>q_head := m\<rparr>)
             else (h(q_tail queue := (h (q_tail queue))\<lparr>m_next := m\<rparr>), queue))
      in (h, queue\<lparr>q_tail := m\<rparr>, empty))"

definition xf_msg_dequeue :: "msg_heap \<Rightarrow> msg_queue \<Rightarrow> msg_heap \<times> msg_queue \<times> addr" where
  "xf_msg_dequeue h queue =
     (let m = q_head queue in
      if m \<noteq> NULL then
        let queue = queue\<lparr>q_head := m_next (h m)\<rparr>;
            queue = (if q_head queue = NULL then queue\<lparr>q_tail := NULL\<rparr> else queue)
        in (h(m := (h m)\<lparr>m_next := NULL\<rparr>), queue, m)
      else (h, queue, m))"

definition xf_msg_queue_empty :: "msg_queue \<Rightarrow> bool" where
  "xf_msg_queue_empty queue \<longleftrightarrow> q_head queue = NULL"

definition xf_msg_queue_head :: "msg_queue \<Rightarrow> addr" where
  "xf_msg_queue_head queue = q_head queue"

text \<open>The difference of two message pointers counts messages.\<close>

definition xf_msg_from_pool :: "msg_pool \<Rightarrow> addr \<Rightarrow> bool" where
  "xf_msg_from_pool pool m \<longleftrightarrow> word_of_int (sint (m - pl_p pool) sdiv 64) < pl_n pool"

text \<open>
  Pools. The loop that links the messages runs over the indices below \<open>n - 1\<close>; \<open>Inl\<close> is the
  error \<^verbatim>\<open>XAF_MEMORY_ERR\<close>.
\<close>

definition pool_link :: "msg_pool \<Rightarrow> nat \<Rightarrow> msg_heap \<Rightarrow> msg_heap" where
  "pool_link pool i h =
     (let m = xf_msg_pool_item pool (word_of_nat i)
      in h(m := (h m)\<lparr>m_next := xf_msg_pool_item pool (word_of_nat i + 1)\<rparr>))"

definition xf_msg_pool_init :: "dsp_mem \<Rightarrow> msg_heap \<Rightarrow> msg_pool \<Rightarrow> u32 \<Rightarrow> u32 \<Rightarrow>
    (dsp_mem \<times> msg_heap \<times> msg_pool \<times> int) option" where
  "xf_msg_pool_init M h pool n t =
     (case xf_mem_alloc M (XF_MM (sizeof_msg * n)) 64 t of
        None \<Rightarrow> None
      | Some (M, p) \<Rightarrow>
          let pool = pool\<lparr>pl_p := p\<rparr> in
          if p = NULL then Some (M, h, pool, - 7)
          else
            let pool = pool\<lparr>pl_head := xf_msg_pool_item pool 0\<rparr>;
                h = fold (pool_link pool) [0 ..< unat (n - 1)] h;
                m = xf_msg_pool_item pool (n - 1);
                h = h(m := (h m)\<lparr>m_next := NULL\<rparr>)
            in Some (M, h, pool\<lparr>pl_n := n\<rparr>, 0))"

definition xf_msg_pool_destroy :: "dsp_mem \<Rightarrow> msg_pool \<Rightarrow> u32 \<Rightarrow> dsp_mem option" where
  "xf_msg_pool_destroy M pool t = xf_mem_free M (pl_p pool) (XF_MM (sizeof_msg * pl_n pool)) t"

definition xf_msg_pool_get :: "msg_heap \<Rightarrow> msg_pool \<Rightarrow> msg_heap \<times> msg_pool \<times> addr" where
  "xf_msg_pool_get h pool =
     (let m = pl_head pool in
      if m = NULL then (h, pool, NULL)
      else (h(m := (h m)\<lparr>m_next := NULL\<rparr>), pool\<lparr>pl_head := m_next (h m)\<rparr>, m))"

definition xf_msg_pool_put :: "msg_heap \<Rightarrow> msg_pool \<Rightarrow> addr \<Rightarrow> msg_heap \<times> msg_pool" where
  "xf_msg_pool_put h pool m = (h(m := (h m)\<lparr>m_next := pl_head pool\<rparr>), pool\<lparr>pl_head := m\<rparr>)"

section \<open>Linked lists of messages\<close>

fun msg_list :: "msg_heap \<Rightarrow> addr \<Rightarrow> addr list \<Rightarrow> bool" where
  "msg_list h a [] \<longleftrightarrow> a = NULL"
| "msg_list h a (m # ms) \<longleftrightarrow> a = m \<and> m \<noteq> NULL \<and> msg_list h (m_next (h m)) ms"

lemma msg_list_frame [frame]: "x \<notin> set ms \<Longrightarrow> msg_list (h(x := v)) a ms = msg_list h a ms"
  by (induction ms arbitrary: a) auto

lemma msg_list_unique: "msg_list h a ms \<Longrightarrow> msg_list h a ns \<Longrightarrow> ms = ns"
proof (induction ms arbitrary: a ns)
  case Nil
  then show ?case by (cases ns) auto
next
  case (Cons m ms)
  then show ?case by (cases ns) auto
qed

lemma msg_list_null: "msg_list h a ms \<Longrightarrow> a = NULL \<longleftrightarrow> ms = []"
  by (cases ms) auto

lemma msg_list_not_null: "msg_list h a ms \<Longrightarrow> NULL \<notin> set ms"
  by (induction ms arbitrary: a) auto

lemma msg_list_append_last:
  "msg_list h a ms \<Longrightarrow> distinct (m # ms) \<Longrightarrow> m \<noteq> NULL \<Longrightarrow> ms \<noteq> [] \<Longrightarrow> m_next (h m) = NULL \<Longrightarrow>
   msg_list (h(last ms := (h (last ms))\<lparr>m_next := m\<rparr>)) a (ms @ [m])"
proof (induction ms arbitrary: a)
  case (Cons x xs)
  show ?case
  proof (cases "xs = []")
    case True
    with Cons.prems show ?thesis by simp
  next
    case False
    then have "last xs \<in> set xs" "last xs \<noteq> x" using Cons.prems(2) by (auto dest: last_in_set)
    with Cons False show ?thesis by simp
  qed
qed simp

text \<open>A queue holding the messages \<open>ms\<close>, oldest first.\<close>

definition msg_queue_rel :: "msg_heap \<Rightarrow> msg_queue \<Rightarrow> addr list \<Rightarrow> bool" where
  "msg_queue_rel h q ms \<longleftrightarrow> msg_list h (q_head q) ms \<and> distinct ms \<and> (ms \<noteq> [] \<longrightarrow> q_tail q = last ms)"

text \<open>What an operation may change in the heap: the link fields of the messages in \<open>A\<close>.\<close>

definition links_only :: "addr set \<Rightarrow> msg_heap \<Rightarrow> msg_heap \<Rightarrow> bool" where
  "links_only A h h' \<longleftrightarrow> (\<forall>x. (h' x)\<lparr>m_next := NULL\<rparr> = (h x)\<lparr>m_next := NULL\<rparr>) \<and> (\<forall>x. x \<notin> A \<longrightarrow> h' x = h x)"

lemma links_only_refl [intro, simp]: "links_only A h h"
  by (simp add: links_only_def)

lemma links_only_trans: "links_only A h h' \<Longrightarrow> links_only B h' h'' \<Longrightarrow> links_only (A \<union> B) h h''"
  by (simp add: links_only_def)

lemma links_only_fields:
  assumes "links_only A h h'"
  shows "m_id (h' x) = m_id (h x)" "m_opcode (h' x) = m_opcode (h x)" "m_length (h' x) = m_length (h x)"
    "m_buffer (h' x) = m_buffer (h x)" "m_error (h' x) = m_error (h x)"
proof -
  have "(h' x)\<lparr>m_next := NULL\<rparr> = (h x)\<lparr>m_next := NULL\<rparr>" using assms by (simp add: links_only_def)
  then show "m_id (h' x) = m_id (h x)" "m_opcode (h' x) = m_opcode (h x)" "m_length (h' x) = m_length (h x)"
    "m_buffer (h' x) = m_buffer (h x)" "m_error (h' x) = m_error (h x)"
    by (cases "h x"; cases "h' x"; simp)+
qed

lemma queue_init_rel [simp]: "msg_queue_rel h xf_msg_queue_init []"
  by (simp add: msg_queue_rel_def xf_msg_queue_init_def)

lemma enqueue_rel:
  assumes "msg_queue_rel h q ms" and "m \<notin> set ms" and "m \<noteq> NULL"
  shows "\<exists>h' q'. xf_msg_enqueue h q m = (h', q', ms = []) \<and> msg_queue_rel h' q' (ms @ [m]) \<and>
    links_only (insert m (set ms)) h h'"
proof (cases "ms = []")
  case True
  then show ?thesis
    using assms by (simp add: xf_msg_enqueue_def msg_queue_rel_def links_only_def)
next
  case False
  let ?h = "h(m := (h m)\<lparr>m_next := NULL\<rparr>)"
  have q: "msg_list ?h (q_head q) ms" "distinct ms" "q_tail q = last ms" "q_head q \<noteq> NULL"
    using assms False msg_list_null [of h "q_head q" ms] by (simp_all add: msg_queue_rel_def frame)
  have "last ms \<in> set ms" using False by simp
  with q msg_list_append_last [OF q(1), of m] assms False show ?thesis
    by (auto simp: xf_msg_enqueue_def msg_queue_rel_def links_only_def Let_def)
qed

lemma dequeue_rel:
  assumes "msg_queue_rel h q ms"
  shows "ms = [] \<Longrightarrow> xf_msg_dequeue h q = (h, q, NULL)"
    and "ms = m # ms' \<Longrightarrow> \<exists>h' q'. xf_msg_dequeue h q = (h', q', m) \<and> msg_queue_rel h' q' ms' \<and>
      links_only {m} h h' \<and> m_next (h' m) = NULL"
proof -
  show "ms = [] \<Longrightarrow> xf_msg_dequeue h q = (h, q, NULL)"
    using assms by (simp add: xf_msg_dequeue_def msg_queue_rel_def)
  assume ms: "ms = m # ms'"
  then have "m_next (h m) = NULL \<longleftrightarrow> ms' = []"
    using assms msg_list_null [of h "m_next (h m)" ms'] by (simp add: msg_queue_rel_def)
  with ms assms show "\<exists>h' q'. xf_msg_dequeue h q = (h', q', m) \<and> msg_queue_rel h' q' ms' \<and>
      links_only {m} h h' \<and> m_next (h' m) = NULL"
    by (auto simp: xf_msg_dequeue_def msg_queue_rel_def links_only_def Let_def frame)
qed

lemma queue_head_rel: "msg_queue_rel h q ms \<Longrightarrow> xf_msg_queue_head q = (case ms of [] \<Rightarrow> NULL | m # _ \<Rightarrow> m)"
  by (cases ms) (simp_all add: msg_queue_rel_def xf_msg_queue_head_def)

lemma queue_empty_rel: "msg_queue_rel h q ms \<Longrightarrow> xf_msg_queue_empty q \<longleftrightarrow> ms = []"
  by (cases ms) (auto simp: msg_queue_rel_def xf_msg_queue_empty_def)

text \<open>A queue is not affected by a store outside of it.\<close>

lemma queue_rel_frame:
  "msg_queue_rel h q ms \<Longrightarrow> \<forall>x \<in> set ms. m_next (h' x) = m_next (h x) \<Longrightarrow> msg_queue_rel h' q ms"
proof -
  have "msg_list h a ms \<Longrightarrow> \<forall>x \<in> set ms. m_next (h' x) = m_next (h x) \<Longrightarrow> msg_list h' a ms" for a
    by (induction ms arbitrary: a) auto
  then show "msg_queue_rel h q ms \<Longrightarrow> \<forall>x \<in> set ms. m_next (h' x) = m_next (h x) \<Longrightarrow> msg_queue_rel h' q ms"
    by (simp add: msg_queue_rel_def)
qed

section \<open>Pools\<close>

definition pool_rel :: "msg_heap \<Rightarrow> msg_pool \<Rightarrow> addr list \<Rightarrow> bool" where
  "pool_rel h pool ms \<longleftrightarrow> msg_list h (pl_head pool) ms \<and> distinct ms"

lemma pool_get_rel:
  assumes "pool_rel h pool ms"
  shows "ms = [] \<Longrightarrow> xf_msg_pool_get h pool = (h, pool, NULL)"
    and "ms = m # ms' \<Longrightarrow> \<exists>h' pool'. xf_msg_pool_get h pool = (h', pool', m) \<and> pool_rel h' pool' ms' \<and>
      links_only {m} h h' \<and> pl_p pool' = pl_p pool \<and> pl_n pool' = pl_n pool"
  using assms by (auto simp: xf_msg_pool_get_def pool_rel_def links_only_def Let_def frame)

lemma pool_put_rel:
  assumes "pool_rel h pool ms" and "m \<notin> set ms" and "m \<noteq> NULL"
  shows "\<exists>h' pool'. xf_msg_pool_put h pool m = (h', pool') \<and> pool_rel h' pool' (m # ms) \<and>
    links_only {m} h h' \<and> pl_p pool' = pl_p pool \<and> pl_n pool' = pl_n pool"
  using assms by (auto simp: xf_msg_pool_put_def pool_rel_def links_only_def frame)

subsection \<open>Initialisation of a pool\<close>

definition pool_items :: "msg_pool \<Rightarrow> nat \<Rightarrow> addr list" where
  "pool_items pool n = map (\<lambda>i. xf_msg_pool_item pool (word_of_nat i)) [0 ..< n]"

lemma unat_item:
  assumes "unat (pl_p pool) + 64 * n < 2 ^ 32" and "i \<le> n"
  shows "unat (xf_msg_pool_item pool (word_of_nat i)) = unat (pl_p pool) + 64 * i"
proof -
  have i: "unat (word_of_nat i :: u32) = i" using assms by (simp add: unat_of_nat)
  then have "unat (word_of_nat i * sizeof_msg :: u32) = i * 64"
    using unat_mult_lem [of "word_of_nat i :: u32" sizeof_msg] assms by (simp add: sizeof_msg_def)
  then show ?thesis
    using unat_add_lem [of "pl_p pool" "word_of_nat i * sizeof_msg"] assms
    by (simp add: xf_msg_pool_item_def)
qed

lemma item_inj:
  assumes "unat (pl_p pool) + 64 * n < 2 ^ 32" and "i \<le> n" and "j \<le> n"
  shows "xf_msg_pool_item pool (word_of_nat i) = xf_msg_pool_item pool (word_of_nat j) \<longleftrightarrow> i = j"
proof
  assume "xf_msg_pool_item pool (word_of_nat i) = xf_msg_pool_item pool (word_of_nat j)"
  then have "unat (pl_p pool) + 64 * i = unat (pl_p pool) + 64 * j"
    unfolding unat_item [OF assms(1,2), symmetric] unat_item [OF assms(1,3), symmetric] by (rule arg_cong)
  then show "i = j" by simp
qed simp

lemma pool_links:
  assumes "unat (pl_p pool) + 64 * n < 2 ^ 32" and "k \<le> n"
  shows "(\<forall>i < k. m_next (fold (pool_link pool) [0 ..< k] h (xf_msg_pool_item pool (word_of_nat i))) =
      xf_msg_pool_item pool (word_of_nat i + 1)) \<and>
    links_only (set (pool_items pool k)) h (fold (pool_link pool) [0 ..< k] h)"
  using assms(2)
proof (induction k)
  case 0
  show ?case by (simp add: links_only_def)
next
  case (Suc k)
  let ?f = "\<lambda>i. xf_msg_pool_item pool (word_of_nat i)" and ?g = "fold (pool_link pool) [0 ..< k] h"
  have IH: "\<forall>i < k. m_next (?g (?f i)) = xf_msg_pool_item pool (word_of_nat i + 1)"
    "links_only (set (pool_items pool k)) h ?g"
    using Suc by simp_all
  have step: "fold (pool_link pool) [0 ..< Suc k] h =
      ?g(?f k := (?g (?f k))\<lparr>m_next := xf_msg_pool_item pool (word_of_nat k + 1)\<rparr>)"
    by (simp add: pool_link_def Let_def)
  have "?f i \<noteq> ?f k" if "i < k" for i
    using item_inj [OF assms(1), of i k] that Suc.prems by simp
  then have "\<forall>i < Suc k. m_next (fold (pool_link pool) [0 ..< Suc k] h (?f i)) =
      xf_msg_pool_item pool (word_of_nat i + 1)"
    unfolding step using IH(1) by (simp add: less_Suc_eq)
  moreover have "set (pool_items pool (Suc k)) = insert (?f k) (set (pool_items pool k))"
    by (simp add: pool_items_def)
  then have "links_only (set (pool_items pool (Suc k))) h (fold (pool_link pool) [0 ..< Suc k] h)"
    unfolding step using IH(2) by (simp add: links_only_def)
  ultimately show ?case by blast
qed

lemma msg_list_chain:
  assumes "\<And>i. i < k \<Longrightarrow> m_next (h (f i)) = f (Suc i)" and "m_next (h (f k)) = NULL"
    and "\<And>i. i \<le> k \<Longrightarrow> f i \<noteq> NULL"
  shows "msg_list h (f 0) (map f [0 ..< Suc k])"
  using assms
proof (induction k arbitrary: f)
  case (Suc k)
  have "msg_list h (f (Suc 0)) (map (\<lambda>i. f (Suc i)) [0 ..< Suc k])"
    by (rule Suc.IH) (use Suc.prems in auto)
  moreover have "map f [0 ..< Suc (Suc k)] = f 0 # map (\<lambda>i. f (Suc i)) [0 ..< Suc k]"
    by (simp only: upt_conv_Cons zero_less_Suc list.map map_Suc_upt [symmetric] map_map comp_def)
  moreover have "m_next (h (f 0)) = f (Suc 0)" "f 0 \<noteq> NULL" using Suc.prems by auto
  ultimately show ?case by (simp only: msg_list.simps simp_thms)
qed simp

lemma pool_init_rel:
  fixes h :: msg_heap
  assumes p: "unat (pl_p pool) + 64 * unat n < 2 ^ 32" "pl_p pool \<noteq> NULL" and n: "n \<noteq> 0"
  defines "h1 \<equiv> fold (pool_link pool) [0 ..< unat (n - 1)] h"
    and "m \<equiv> xf_msg_pool_item pool (n - 1)"
  shows "pool_rel (h1(m := (h1 m)\<lparr>m_next := NULL\<rparr>)) (pool\<lparr>pl_head := xf_msg_pool_item pool 0, pl_n := n\<rparr>)
    (pool_items pool (unat n))"
proof -
  define k where "k = unat (n - 1)"
  have k: "unat n = Suc k" using n unat_minus_one [of n] unat_gt_0 [of n] by (simp add: k_def)
  let ?f = "\<lambda>i. xf_msg_pool_item pool (word_of_nat i)" and ?h = "h1(m := (h1 m)\<lparr>m_next := NULL\<rparr>)"
  have m: "m = ?f k" by (simp add: m_def k_def)
  have inj: "?f i = ?f j \<longleftrightarrow> i = j" if "i \<le> k" "j \<le> k" for i j
    using item_inj [OF p(1), of i j] that k by simp
  have "m_next (?h (?f i)) = ?f (Suc i)" if "i < k" for i
    using pool_links [OF p(1), of k h] that k inj [of i k] by (simp add: h1_def k_def [symmetric] m add.commute)
  moreover have "m_next (?h (?f k)) = NULL" by (simp add: m)
  moreover have "?f i \<noteq> NULL" if "i \<le> k" for i
    using unat_item [OF p(1), of i] that k p(2) unat_gt_0 [of "pl_p pool"] by auto
  ultimately have "msg_list ?h (?f 0) (map ?f [0 ..< Suc k])" by (rule msg_list_chain)
  moreover have "distinct (map ?f [0 ..< Suc k])"
    unfolding distinct_map by (rule conjI, simp, rule inj_onI) (use inj in auto)
  ultimately show ?thesis by (simp add: pool_rel_def pool_items_def k del: upt_Suc)
qed

section \<open>The contract of a queue\<close>

text \<open>
  Clients of a queue see a list: \<open>put\<close> appends and reports whether the list was empty, \<open>get\<close> takes
  the head, or \<open>None\<close> of it. \<open>queue_run\<close> is any sequence of the two, with what the gets return.
\<close>

datatype queue_op = Put addr | Get

fun queue_run :: "('s \<Rightarrow> addr \<Rightarrow> 's \<times> bool) \<Rightarrow> ('s \<Rightarrow> 's \<times> addr) \<Rightarrow> queue_op list \<Rightarrow> 's \<Rightarrow> 's \<times> addr list" where
  "queue_run put get [] s = (s, [])"
| "queue_run put get (Put m # ops) s = queue_run put get ops (fst (put s m))"
| "queue_run put get (Get # ops) s =
     (let (s, m) = get s; (s, ms) = queue_run put get ops s in (s, if m = NULL then ms else m # ms))"

fun spec_run :: "queue_op list \<Rightarrow> addr list \<Rightarrow> addr list \<times> addr list" where
  "spec_run [] q = (q, [])"
| "spec_run (Put m # ops) q = spec_run ops (q @ [m])"
| "spec_run (Get # ops) [] = spec_run ops []"
| "spec_run (Get # ops) (m # q) = (let (q, ms) = spec_run ops q in (q, m # ms))"

text \<open>No message is put while it is still waiting.\<close>

fun puts_fresh :: "queue_op list \<Rightarrow> addr list \<Rightarrow> bool" where
  "puts_fresh [] q \<longleftrightarrow> True"
| "puts_fresh (Put m # ops) q \<longleftrightarrow> m \<noteq> NULL \<and> m \<notin> set q \<and> puts_fresh ops (q @ [m])"
| "puts_fresh (Get # ops) q \<longleftrightarrow> puts_fresh ops (tl q)"

lemma spec_run_fifo: "q @ [m. Put m \<leftarrow> ops] = snd (spec_run ops q) @ fst (spec_run ops q)"
  by (induction ops q rule: spec_run.induct) (auto split: prod.splits)

locale message_queue =
  fixes put :: "'s \<Rightarrow> addr \<Rightarrow> 's \<times> bool"
    and get :: "'s \<Rightarrow> 's \<times> addr"
    and rel :: "'s \<Rightarrow> addr list \<Rightarrow> bool"
  assumes put_rel: "rel s q \<Longrightarrow> m \<notin> set q \<Longrightarrow> m \<noteq> NULL \<Longrightarrow> rel (fst (put s m)) (q @ [m]) \<and> (snd (put s m) \<longleftrightarrow> q = [])"
    and get_empty: "rel s [] \<Longrightarrow> rel (fst (get s)) [] \<and> snd (get s) = NULL"
    and get_rel: "rel s (m # q) \<Longrightarrow> rel (fst (get s)) q \<and> snd (get s) = m \<and> m \<noteq> NULL"
begin

lemma run_rel:
  "rel s q \<Longrightarrow> puts_fresh ops q \<Longrightarrow>
   snd (queue_run put get ops s) = snd (spec_run ops q) \<and>
   rel (fst (queue_run put get ops s)) (fst (spec_run ops q))"
proof (induction ops q arbitrary: s rule: spec_run.induct)
  case (2 m ops q)
  then show ?case using put_rel [of s q m] by simp
next
  case (3 ops)
  obtain s' where "get s = (s', NULL)" "rel s' []" using get_empty [OF 3(2)] by (cases "get s") auto
  with 3 show ?case by (simp add: split_beta)
next
  case (4 ops m q)
  obtain s' where "get s = (s', m)" "rel s' q" "m \<noteq> NULL" using get_rel [OF 4(2)] by (cases "get s") auto
  with 4 show ?case by (simp add: split_beta)
qed simp

lemma run_fifo:
  "rel s [] \<Longrightarrow> puts_fresh ops [] \<Longrightarrow>
   \<exists>waiting. rel (fst (queue_run put get ops s)) waiting \<and>
     [m. Put m \<leftarrow> ops] = snd (queue_run put get ops s) @ waiting"
  using run_rel [of s "[]" ops] spec_run_fifo [of "[]" ops] by auto

end

definition queue_put :: "msg_heap \<times> msg_queue \<Rightarrow> addr \<Rightarrow> (msg_heap \<times> msg_queue) \<times> bool" where
  "queue_put s m = (let (h, q, e) = xf_msg_enqueue (fst s) (snd s) m in ((h, q), e))"

definition queue_get :: "msg_heap \<times> msg_queue \<Rightarrow> (msg_heap \<times> msg_queue) \<times> addr" where
  "queue_get s = (let (h, q, m) = xf_msg_dequeue (fst s) (snd s) in ((h, q), m))"

interpretation mq: message_queue queue_put queue_get "\<lambda>s. msg_queue_rel (fst s) (snd s)"
proof
  show "msg_queue_rel (fst (fst (queue_put s m))) (snd (fst (queue_put s m))) (q @ [m]) \<and>
      (snd (queue_put s m) \<longleftrightarrow> q = [])"
    if "msg_queue_rel (fst s) (snd s) q" "m \<notin> set q" "m \<noteq> NULL" for s q m
    using enqueue_rel [OF that] by (auto simp: queue_put_def)
  show "msg_queue_rel (fst (fst (queue_get s))) (snd (fst (queue_get s))) [] \<and> snd (queue_get s) = NULL"
    if "msg_queue_rel (fst s) (snd s) []" for s
    using dequeue_rel(1) [OF that] that by (simp add: queue_get_def)
  show "msg_queue_rel (fst (fst (queue_get s))) (snd (fst (queue_get s))) q \<and> snd (queue_get s) = m \<and> m \<noteq> NULL"
    if "msg_queue_rel (fst s) (snd s) (m # q)" for s m q
    using dequeue_rel(2) [OF that refl] that by (auto simp: queue_get_def msg_queue_rel_def)
qed

section \<open>Creation of a pool\<close>

lemma xf_msg_pool_init_ok:
  assumes live: "mem_live p0 t U M L" and top: "region_top p0" and n: "n \<noteq> 0" "unat n < 2 ^ 24"
  shows "\<exists>M' h' pool' r. xf_msg_pool_init M h pool n t = Some (M', h', pool', r) \<and>
    (r = - 7 \<and> pl_p pool' = NULL \<and> mem_live p0 t U M' L \<or>
     r = 0 \<and> pl_n pool' = n \<and> pool_rel h' pool' (pool_items pool' (unat n)) \<and>
       pl_p pool' \<noteq> NULL \<and> unat (pl_p pool') + 64 * unat n < 2 ^ 32 \<and>
       mem_live p0 t U M' ((pl_p pool', XF_MM (sizeof_msg * n)) # L))"
proof -
  have len: "unat (sizeof_msg * n) = 64 * unat n"
    using unat_mult_lem [of sizeof_msg n] n(2) by (simp add: sizeof_msg_def)
  then have mm: "unat (XF_MM (sizeof_msg * n)) = 64 * unat n" using unat_XF_MM [of "sizeof_msg * n"] n(2) by simp
  have al: "(6 :: nat) \<le> 12" "unat (XF_MM (sizeof_msg * n)) + 2 ^ 6 + 71 < 2 ^ 32" using n(2) mm by simp_all
  from xf_mem_alloc_ok [OF live al] top obtain M' p where
    a: "xf_mem_alloc M (XF_MM (sizeof_msg * n)) (2 ^ 6) t = Some (M', p)" and
    or: "p = NULL \<and> mem_live p0 t U M' L \<or> p \<noteq> NULL \<and> mem_live p0 t U M' ((p, XF_MM (sizeof_msg * n)) # L)"
    unfolding region_top_def by blast
  show ?thesis
  proof (cases "p = NULL")
    case True
    with a or show ?thesis by (simp add: xf_msg_pool_init_def)
  next
    case False
    with or have lv: "mem_live p0 t U M' ((p, XF_MM (sizeof_msg * n)) # L)" by blast
    have "inside (p, XF_MM (sizeof_msg * n)) (info_at M' (p, XF_MM (sizeof_msg * n)))"
      using lv by (simp add: mem_live_def)
    then have "unat p + 64 * unat n < 2 ^ 32"
      using mem_live_bend [OF lv, of "(p, XF_MM (sizeof_msg * n))"] mm by (simp add: inside_def)
    with pool_init_rel [of "pool\<lparr>pl_p := p, pl_head := p\<rparr>" n h] False n(1) a lv show ?thesis
      by (simp add: xf_msg_pool_init_def Let_def pool_items_def xf_msg_pool_item_def)
  qed
qed

section \<open>Properties of messages\<close>

text \<open>
  Swapping source and destination of an identifier, as a response does, exchanges all fields
  of the two port specifications; done twice it is the identity.
\<close>

theorem response_id_involution:
  "swap_id (swap_id i) = i \<and> XF_MSG_DST_CORE (swap_id i) = XF_MSG_SRC_CORE i \<and>
   XF_MSG_DST_CLIENT (swap_id i) = XF_MSG_SRC_CLIENT i \<and> XF_MSG_DST_PORT (swap_id i) = XF_MSG_SRC_PORT i \<and>
   XF_MSG_DST_PROXY (swap_id i) = XF_MSG_SRC_PROXY i"
  by simp

text \<open>
  A port specification gives back its core, client and port when they are within their
  fields of 8, 6 and 4 bits.
\<close>

theorem port_spec_roundtrip:
  assumes "unat core < 2 ^ 8" and "unat client < 2 ^ 6" and "unat port < 2 ^ 4"
  shows "XF_PORT_CORE (XF_PORT_SPEC core client port) = core \<and>
    XF_PORT_CLIENT (XF_PORT_SPEC core client port) = client \<and>
    XF_PORT_ID (XF_PORT_SPEC core client port) = port"
  using port_spec_fields [OF assms] by blast

theorem port_spec_roundtrip_witness:
  "XF_PORT_CORE (XF_PORT_SPEC 1 63 15) = 1 \<and> XF_PORT_CLIENT (XF_PORT_SPEC 1 63 15) = 63 \<and>
   XF_PORT_ID (XF_PORT_SPEC 1 63 15) = 15"
  by (rule port_spec_roundtrip) simp_all

text \<open>
  C20. The message queue is a queue: whatever sequence of puts and gets starts from the empty
  queue, the messages come out in the order they went in, and those that did not come out are
  still waiting; none is lost or doubled.
\<close>

theorem msg_queue_fifo:
  assumes "puts_fresh ops []"
  shows "\<exists>waiting. msg_queue_rel (fst (fst (queue_run queue_put queue_get ops (h, xf_msg_queue_init))))
      (snd (fst (queue_run queue_put queue_get ops (h, xf_msg_queue_init)))) waiting \<and>
    [m. Put m \<leftarrow> ops] = snd (queue_run queue_put queue_get ops (h, xf_msg_queue_init)) @ waiting"
  by (rule mq.run_fifo) (simp_all add: assms)

theorem msg_queue_fifo_witness:
  "\<exists>waiting. [8, 16, 24] =
     snd (queue_run queue_put queue_get [Put 8, Put 16, Get, Put 24, Get]
       (\<lambda>_. \<lparr>m_next = 0, m_id = 0, m_opcode = 0, m_length = 0, m_buffer = 0, m_error = 0\<rparr>, xf_msg_queue_init)) @ waiting"
proof -
  have "puts_fresh [Put 8, Put 16, Get, Put 24, Get] []" by simp
  from msg_queue_fifo [OF this] show ?thesis by auto
qed

text \<open>
  Initialisation of a pool of \<open>n > 0\<close> messages: the allocation returns; when it fails the error
  is reported, otherwise the free list of the pool holds its \<open>n\<close> messages, each once, in order of
  their addresses, and the memory of the pool is a live buffer.
\<close>

theorem pool_init_lists_messages:
  assumes live: "mem_live p0 t U M L" and top: "region_top p0" and n: "n \<noteq> 0" "unat n < 2 ^ 24"
  shows "\<exists>M' h' pool' r. xf_msg_pool_init M h pool n t = Some (M', h', pool', r) \<and>
    (r = - 7 \<and> pl_p pool' = NULL \<and> mem_live p0 t U M' L \<or>
     r = 0 \<and> pl_n pool' = n \<and> pool_rel h' pool' (pool_items pool' (unat n)) \<and>
       mem_live p0 t U M' ((pl_p pool', XF_MM (sizeof_msg * n)) # L))"
  using xf_msg_pool_init_ok [OF assms, of h pool] by blast

theorem pool_init_lists_messages_witness:
  "\<exists>M M' h' pool' r.
     xf_msg_pool_init M (\<lambda>_. \<lparr>m_next = 0, m_id = 0, m_opcode = 0, m_length = 0, m_buffer = 0, m_error = 0\<rparr>)
       \<lparr>pl_p = 0, pl_head = 0, pl_n = 0\<rparr> 2 0 = Some (M', h', pool', r) \<and>
    (r = - 7 \<and> pl_p pool' = NULL \<and> mem_live demo_pool 0 (span 4096 256) M' [] \<or>
     r = 0 \<and> pl_n pool' = 2 \<and> pool_rel h' pool' (pool_items pool' 2) \<and>
       mem_live demo_pool 0 (span 4096 256) M' [(pl_p pool', XF_MM (sizeof_msg * 2))])"
proof -
  obtain pool where pool: "mem_live demo_pool 0 (span 4096 256) (demo_mem pool) []" by (rule demo_mem_live)
  have "(2 :: u32) \<noteq> 0" "unat (2 :: u32) < 2 ^ 24" by simp_all
  from pool_init_lists_messages [OF pool demo_region_top this] show ?thesis by simp blast
qed

end
