(* ===== verification/Io.thy ===== *)
theory Io
  imports Msg
begin

text \<open>
  Input and output ports (\<^verbatim>\<open>xf-io.h\<close>, \<^verbatim>\<open>xf-io.c\<close>). The state of the operations holds the message
  heap, the bytes of the buffers and the memory pools. A response is a message handed to
  \<^verbatim>\<open>xf_msg_complete\<close>; the ports never look at it again, so it is recorded in \<open>io_done\<close> with its
  contents at that moment.
\<close>

section \<open>State and responses\<close>

record io =
  io_msg :: msg_heap
  io_bytes :: "addr \<Rightarrow> 8 word"
  io_done :: "(addr \<times> xf_message) list"
  io_mem :: dsp_mem

definition xf_response :: "addr \<Rightarrow> io \<Rightarrow> io" where
  "xf_response m s = s\<lparr>io_done := io_done s @ [(m, io_msg s m)]\<rparr>"

definition xf_response_data :: "addr \<Rightarrow> u32 \<Rightarrow> io \<Rightarrow> io" where
  "xf_response_data m n s = xf_response m (s\<lparr>io_msg := (io_msg s)(m := (io_msg s m)\<lparr>m_length := n\<rparr>)\<rparr>)"

definition xf_response_ok :: "addr \<Rightarrow> io \<Rightarrow> io" where
  "xf_response_ok m s = xf_response m (s\<lparr>io_msg := (io_msg s)(m := (io_msg s m)\<lparr>m_length := 0\<rparr>)\<rparr>)"

definition xf_response_err :: "addr \<Rightarrow> io \<Rightarrow> io" where
  "xf_response_err m s = xf_response m
     (s\<lparr>io_msg := (io_msg s)(m := (io_msg s m)\<lparr>m_opcode := XF_UNREGISTER, m_length := 0\<rparr>)\<rparr>)"

definition xf_response_failure :: "addr \<Rightarrow> io \<Rightarrow> io" where
  "xf_response_failure m s = xf_response m
     (s\<lparr>io_msg := (io_msg s)(m := (io_msg s m)\<lparr>m_length := XF_MSG_LENGTH_INVALID\<rparr>)\<rparr>)"

text \<open>The copy of bytes; the code calls it on regions that do not overlap, or towards lower addresses.\<close>

definition xf_memcpy :: "addr \<Rightarrow> addr \<Rightarrow> u32 \<Rightarrow> io \<Rightarrow> io" where
  "xf_memcpy d a n s =
     s\<lparr>io_bytes := (\<lambda>x. if unat (x - d) < unat n then io_bytes s (a + (x - d)) else io_bytes s x)\<rparr>"

section \<open>Input ports\<close>

record in_port =
  ip_queue :: msg_queue
  ip_buffer :: addr
  ip_length :: u32
  ip_filled :: u32
  ip_access :: addr
  ip_remaining :: u32
  ip_flags :: u32

definition XF_INPUT_FLAG_CREATED :: u32 where "XF_INPUT_FLAG_CREATED = push_bit 0 1"
definition XF_INPUT_FLAG_ENABLED :: u32 where "XF_INPUT_FLAG_ENABLED = push_bit 1 1"
definition XF_INPUT_FLAG_EOS :: u32 where "XF_INPUT_FLAG_EOS = push_bit 2 1"
definition XF_INPUT_FLAG_DONE :: u32 where "XF_INPUT_FLAG_DONE = push_bit 3 1"
definition XF_INPUT_FLAG_PURGING :: u32 where "XF_INPUT_FLAG_PURGING = push_bit 4 1"

definition XF_INPUT_FLAGS :: "u32 \<Rightarrow> u32" where
  "XF_INPUT_FLAGS flags = flags AND (push_bit 5 1 - 1)"

definition xf_input_port_created :: "in_port \<Rightarrow> bool" where
  "xf_input_port_created port \<longleftrightarrow> ip_flags port AND XF_INPUT_FLAG_CREATED \<noteq> 0"

definition xf_input_port_ready :: "in_port \<Rightarrow> bool" where
  "xf_input_port_ready port \<longleftrightarrow>
     xf_msg_queue_head (ip_queue port) \<noteq> NULL \<and> ip_flags port AND XF_INPUT_FLAG_PURGING = 0"

definition xf_input_port_done :: "in_port \<Rightarrow> bool" where
  "xf_input_port_done port \<longleftrightarrow> ip_flags port AND XF_INPUT_FLAG_DONE \<noteq> 0"

definition xf_input_port_bypass :: "in_port \<Rightarrow> bool" where
  "xf_input_port_bypass port \<longleftrightarrow> ip_buffer port = NULL"

definition xf_input_port_data :: "in_port \<Rightarrow> addr" where
  "xf_input_port_data port = ip_access port"

definition xf_input_port_length :: "in_port \<Rightarrow> u32" where
  "xf_input_port_length port = ip_remaining port"

definition xf_input_port_level :: "in_port \<Rightarrow> u32" where
  "xf_input_port_level port = ip_filled port"

definition xf_input_port_init :: "io \<Rightarrow> in_port \<Rightarrow> u32 \<Rightarrow> u32 \<Rightarrow> u32 \<Rightarrow> (io \<times> in_port \<times> int) option" where
  "xf_input_port_init s port sz align t =
     (case (if sz \<noteq> 0 then xf_mem_alloc (io_mem s) sz align t else Some (io_mem s, NULL)) of
        None \<Rightarrow> None
      | Some (M, b) \<Rightarrow>
          let s = s\<lparr>io_mem := M\<rparr>; port = port\<lparr>ip_buffer := b\<rparr> in
          if sz \<noteq> 0 \<and> b = NULL then Some (s, port, - 7)
          else Some (s, port\<lparr>ip_queue := xf_msg_queue_init, ip_length := sz,
                             ip_flags := XF_INPUT_FLAG_ENABLED OR XF_INPUT_FLAG_CREATED,
                             ip_filled := 0, ip_access := NULL\<rparr>, 0))"

definition xf_input_port_put :: "io \<Rightarrow> in_port \<Rightarrow> addr \<Rightarrow> io \<times> in_port \<times> bool" where
  "xf_input_port_put s port m =
     (if ip_flags port AND XF_INPUT_FLAG_ENABLED = 0 then (xf_response_ok m s, port, False)
      else
        let port = (if m_length (io_msg s m) = 0
                    then port\<lparr>ip_flags := ip_flags port XOR (XF_INPUT_FLAG_ENABLED OR XF_INPUT_FLAG_EOS)\<rparr>
                    else port);
            (h, q, first) = xf_msg_enqueue (io_msg s) (ip_queue port) m;
            s = s\<lparr>io_msg := h\<rparr>; port = port\<lparr>ip_queue := q\<rparr>
        in if first then
             let port = port\<lparr>ip_access := m_buffer (io_msg s m), ip_remaining := m_length (io_msg s m)\<rparr>;
                 port = (if xf_input_port_bypass port \<and> ip_access port = NULL
                         then port\<lparr>ip_flags := ip_flags port XOR (XF_INPUT_FLAG_EOS OR XF_INPUT_FLAG_DONE)\<rparr>
                         else port)
             in (s, port, True)
           else (s, port, False))"

definition xf_input_port_complete :: "io \<Rightarrow> in_port \<Rightarrow> io \<times> in_port \<times> bool" where
  "xf_input_port_complete s port =
     (let (h, q, m) = xf_msg_dequeue (io_msg s) (ip_queue port);
          s = xf_response m (s\<lparr>io_msg := h\<rparr>); port = port\<lparr>ip_queue := q\<rparr>;
          m = xf_msg_queue_head (ip_queue port)
      in if m \<noteq> NULL
         then (s, port\<lparr>ip_access := m_buffer (io_msg s m), ip_remaining := m_length (io_msg s m)\<rparr>, True)
         else (s, port\<lparr>ip_access := NULL\<rparr>, False))"

lemma sub_decreases: "k \<noteq> 0 \<Longrightarrow> k = (if n < r then n else r) \<Longrightarrow> unat (n - k) < unat (n :: u32)"
proof -
  assume "k \<noteq> 0" "k = (if n < r then n else r)"
  then have "0 < unat k" "unat k \<le> unat n" by (auto simp: unat_gt_0 word_le_nat_alt not_less split: if_splits)
  then show ?thesis by (simp add: unat_sub word_le_nat_alt)
qed

lemma sub_measure:
  "k \<noteq> 0 \<Longrightarrow> k = (if n < r then n else r) \<Longrightarrow> m = n - k \<Longrightarrow>
   ((s', p', f', r', m), s, p, f, r, n) \<in> measure (\<lambda>(s, p, f, r, n :: u32). unat n)"
  using sub_decreases [of k n r] by simp

text \<open>The copying loop: the level of the buffer, the rest of the current message and of the space.\<close>

function input_fill_loop :: "io \<Rightarrow> in_port \<Rightarrow> u32 \<Rightarrow> u32 \<Rightarrow> u32 \<Rightarrow> io \<times> in_port \<times> u32 \<times> u32 \<times> u32" where
  "input_fill_loop s port filled remaining n =
     (if \<not> 0 < sint n then (s, port, filled, remaining, n)
      else
        let k = (if n < remaining then n else remaining) in
        if k = 0
        then (s, port\<lparr>ip_flags := ip_flags port XOR (XF_INPUT_FLAG_EOS OR XF_INPUT_FLAG_DONE)\<rparr>, filled, remaining, 0)
        else
          let s = xf_memcpy (ip_buffer port + filled) (ip_access port) k s;
              port = port\<lparr>ip_access := ip_access port + k\<rparr>;
              filled = filled + k; n = n - k; remaining = remaining - k
          in if remaining = 0 then
               let (s, port, more) = xf_input_port_complete s port in
               if \<not> more then (s, port, filled, remaining, n)
               else input_fill_loop s port filled (ip_remaining port) n
             else input_fill_loop s port filled remaining n)"
  by pat_completeness auto

termination input_fill_loop
  by (relation "measure (\<lambda>(s, port, filled, remaining, n). unat n)")
    (simp only: wf_measure, (erule (2) sub_measure)+)

declare input_fill_loop.simps [simp del]

definition xf_input_port_fill :: "io \<Rightarrow> in_port \<Rightarrow> io \<times> in_port \<times> bool" where
  "xf_input_port_fill s port =
     (if xf_input_port_bypass port then
        if ip_remaining port = 0 then
          if xf_msg_queue_head (ip_queue port) = NULL then (s, port, False)
          else
            let (s, port, _) = xf_input_port_complete s port in
            if xf_msg_queue_head (ip_queue port) \<noteq> NULL \<and> ip_access port = NULL
            then (s, port\<lparr>ip_flags := ip_flags port XOR (XF_INPUT_FLAG_EOS OR XF_INPUT_FLAG_DONE)\<rparr>, False)
            else (s, port, ip_remaining port \<noteq> 0)
        else (s, port, ip_remaining port \<noteq> 0)
      else if xf_msg_queue_head (ip_queue port) = NULL then (s, port, False)
      else
        let (s, port, filled, remaining, n) =
              input_fill_loop s port (ip_filled port) (ip_remaining port) (ip_length port - ip_filled port)
        in (s, port\<lparr>ip_filled := filled, ip_remaining := remaining\<rparr>, n = 0))"

definition xf_input_port_consume :: "io \<Rightarrow> in_port \<Rightarrow> u32 \<Rightarrow> io \<times> in_port" where
  "xf_input_port_consume s port n =
     (if xf_input_port_bypass port then
        if n \<le> ip_remaining port
        then (s, port\<lparr>ip_remaining := ip_remaining port - n, ip_access := ip_access port + n\<rparr>)
        else (s, port\<lparr>ip_access := ip_access port + ip_remaining port, ip_remaining := 0\<rparr>)
      else if n < ip_filled port then
        let k = ip_filled port - n
        in (xf_memcpy (ip_buffer port) (ip_buffer port + n) k s, port\<lparr>ip_filled := k\<rparr>)
      else (s, port\<lparr>ip_filled := 0\<rparr>))"

partial_function (option) answer_all :: "io \<Rightarrow> msg_queue \<Rightarrow> (io \<times> msg_queue) option" where
  "answer_all s q =
     (case xf_msg_dequeue (io_msg s) q of
        (h, q, m) \<Rightarrow>
          if m \<noteq> NULL then answer_all (xf_response_ok m (s\<lparr>io_msg := h\<rparr>)) q
          else Some (s\<lparr>io_msg := h\<rparr>, q))"

definition xf_input_port_purge :: "io \<Rightarrow> in_port \<Rightarrow> (io \<times> in_port) option" where
  "xf_input_port_purge s port =
     (if \<not> xf_input_port_created port then Some (s, port)
      else case answer_all s (ip_queue port) of
        None \<Rightarrow> None
      | Some (s, q) \<Rightarrow>
          Some (s, port\<lparr>ip_queue := q, ip_filled := 0, ip_access := NULL,
                        ip_flags := (ip_flags port AND NOT (XF_INPUT_FLAGS (NOT 0)))
                          OR XF_INPUT_FLAG_ENABLED OR XF_INPUT_FLAG_CREATED\<rparr>))"

definition xf_input_port_control_save :: "io \<Rightarrow> in_port \<Rightarrow> addr \<Rightarrow> io \<times> in_port" where
  "xf_input_port_control_save s port m =
     (let (h, q, _) = xf_msg_enqueue (io_msg s) (ip_queue port) m
      in (s\<lparr>io_msg := h\<rparr>, port\<lparr>ip_queue := q, ip_flags := ip_flags port XOR XF_INPUT_FLAG_PURGING\<rparr>))"

definition xf_input_port_purge_done :: "io \<Rightarrow> in_port \<Rightarrow> io \<times> in_port" where
  "xf_input_port_purge_done s port =
     (let (h, q, m) = xf_msg_dequeue (io_msg s) (ip_queue port)
      in (xf_response_ok m (s\<lparr>io_msg := h\<rparr>),
          port\<lparr>ip_queue := q, ip_flags := ip_flags port XOR XF_INPUT_FLAG_PURGING\<rparr>))"

definition xf_input_port_destroy :: "io \<Rightarrow> in_port \<Rightarrow> u32 \<Rightarrow> (io \<times> in_port) option" where
  "xf_input_port_destroy s port t =
     (if \<not> xf_input_port_created port then Some (s, port)
      else case (if ip_buffer port \<noteq> NULL then xf_mem_free (io_mem s) (ip_buffer port) (ip_length port) t
                 else Some (io_mem s)) of
        None \<Rightarrow> None
      | Some M \<Rightarrow> Some (s\<lparr>io_mem := M\<rparr>, port\<lparr>ip_buffer := NULL, ip_flags := 0\<rparr>))"

section \<open>Output ports\<close>

record out_port =
  op_queue :: msg_queue
  op_pool :: msg_pool
  op_unroute :: addr
  op_length :: u32
  op_flags :: u32
  op_align :: u32

definition XF_OUTPUT_FLAG_CREATED :: u32 where "XF_OUTPUT_FLAG_CREATED = push_bit 0 1"
definition XF_OUTPUT_FLAG_ROUTED :: u32 where "XF_OUTPUT_FLAG_ROUTED = push_bit 1 1"
definition XF_OUTPUT_FLAG_FLUSHING :: u32 where "XF_OUTPUT_FLAG_FLUSHING = push_bit 4 1"
definition XF_OUTPUT_FLAG_IDLE :: u32 where "XF_OUTPUT_FLAG_IDLE = push_bit 5 1"
definition XF_OUTPUT_FLAG_UNROUTING :: u32 where "XF_OUTPUT_FLAG_UNROUTING = push_bit 6 1"
definition XF_OUTPUT_FLAG_ROUTING :: u32 where "XF_OUTPUT_FLAG_ROUTING = push_bit 7 1"

definition xf_output_port_created :: "out_port \<Rightarrow> bool" where
  "xf_output_port_created port \<longleftrightarrow> op_flags port AND XF_OUTPUT_FLAG_CREATED \<noteq> 0"

definition xf_output_port_routed :: "out_port \<Rightarrow> bool" where
  "xf_output_port_routed port \<longleftrightarrow> op_flags port AND XF_OUTPUT_FLAG_ROUTED \<noteq> 0"

definition xf_output_port_unrouting :: "out_port \<Rightarrow> bool" where
  "xf_output_port_unrouting port \<longleftrightarrow> op_flags port AND XF_OUTPUT_FLAG_UNROUTING \<noteq> 0"

definition xf_output_port_idle :: "out_port \<Rightarrow> bool" where
  "xf_output_port_idle port \<longleftrightarrow> op_flags port AND XF_OUTPUT_FLAG_IDLE \<noteq> 0"

definition xf_output_port_flushing :: "out_port \<Rightarrow> bool" where
  "xf_output_port_flushing port \<longleftrightarrow> op_flags port AND XF_OUTPUT_FLAG_FLUSHING \<noteq> 0"

definition xf_output_port_ready :: "out_port \<Rightarrow> bool" where
  "xf_output_port_ready port \<longleftrightarrow> xf_msg_queue_head (op_queue port) \<noteq> NULL \<and>
     \<not> xf_output_port_unrouting port \<and> op_flags port AND XF_OUTPUT_FLAG_FLUSHING = 0"

definition xf_output_port_control_msg :: "out_port \<Rightarrow> addr" where
  "xf_output_port_control_msg port = xf_msg_pool_item (op_pool port) 0"

definition xf_output_port_init :: "out_port \<Rightarrow> u32 \<Rightarrow> out_port" where
  "xf_output_port_init port sz =
     port\<lparr>op_queue := xf_msg_queue_init, op_length := sz,
          op_flags := XF_OUTPUT_FLAG_CREATED OR XF_OUTPUT_FLAG_IDLE\<rparr>"

text \<open>
  Routing: the messages with the indices in the list get a buffer each; the index of the first one
  whose allocation fails is returned.
\<close>

fun route_buffers :: "u32 list \<Rightarrow> u64 \<Rightarrow> u32 \<Rightarrow> u32 \<Rightarrow> io \<Rightarrow> out_port \<Rightarrow> (io \<times> out_port \<times> u32 option) option" where
  "route_buffers [] i len t s port = Some (s, port, None)"
| "route_buffers (x # xs) i len t s port =
     (case xf_mem_alloc (io_mem s) len (op_align port) t of
        None \<Rightarrow> None
      | Some (M, b) \<Rightarrow>
          let m = xf_msg_pool_item (op_pool port) x;
              s = s\<lparr>io_mem := M, io_msg := (io_msg s)
                     (m := \<lparr>m_next = NULL, m_id = i, m_opcode = XF_FILL_THIS_BUFFER, m_length = len,
                            m_buffer = b, m_error = 0\<rparr>)\<rparr>
          in if b = NULL then Some (s, port, Some x)
             else
               let (h, q, _) = xf_msg_enqueue (io_msg s) (op_queue port) m
               in route_buffers xs i len t (s\<lparr>io_msg := h\<rparr>) (port\<lparr>op_queue := q\<rparr>))"

fun free_buffers :: "u32 list \<Rightarrow> u32 \<Rightarrow> u32 \<Rightarrow> out_port \<Rightarrow> io \<Rightarrow> io option" where
  "free_buffers [] len t port s = Some s"
| "free_buffers (x # xs) len t port s =
     (case xf_mem_free (io_mem s) (m_buffer (io_msg s (xf_msg_pool_item (op_pool port) x))) len t of
        None \<Rightarrow> None
      | Some M \<Rightarrow> free_buffers xs len t port (s\<lparr>io_mem := M\<rparr>))"

definition indices :: "u32 \<Rightarrow> u32 list" where
  "indices n = map word_of_nat [1 ..< Suc (unat n)]"

definition xf_output_port_route_alloc :: "io \<Rightarrow> out_port \<Rightarrow> u32 \<Rightarrow> u32 \<Rightarrow> (io \<times> out_port \<times> int) option" where
  "xf_output_port_route_alloc s port len t =
     (if op_flags port AND XF_OUTPUT_FLAG_ROUTING = 0 \<or> op_length port \<noteq> 0 then Some (s, port, 1)
      else
        let i = m_id (io_msg s (xf_output_port_control_msg port)); n = pl_n (op_pool port) - 1 in
        case route_buffers (indices n) i len t s port of
          None \<Rightarrow> None
        | Some (s, port, None) \<Rightarrow>
            Some (s, port\<lparr>op_length := len,
                          op_flags := op_flags port XOR (XF_OUTPUT_FLAG_ROUTING OR XF_OUTPUT_FLAG_ROUTED)\<rparr>, 0)
        | Some (s, port, Some x) \<Rightarrow>
            (case free_buffers (rev (indices (x - 1))) (op_length port) t port s of
               None \<Rightarrow> None
             | Some s \<Rightarrow>
                 (case xf_msg_pool_destroy (io_mem s) (op_pool port) t of
                    None \<Rightarrow> None
                  | Some M \<Rightarrow> Some (s\<lparr>io_mem := M\<rparr>, port\<lparr>op_queue := xf_msg_queue_init\<rparr>, - 7))))"

definition xf_output_port_route :: "io \<Rightarrow> out_port \<Rightarrow> u64 \<Rightarrow> u32 \<Rightarrow> u32 \<Rightarrow> u32 \<Rightarrow> u32 \<Rightarrow>
    (io \<times> out_port \<times> int) option" where
  "xf_output_port_route s port i n len align t =
     (case xf_msg_pool_init (io_mem s) (io_msg s) (op_pool port) (n + 1) t of
        None \<Rightarrow> None
      | Some (M, h, pool, r) \<Rightarrow>
          let s = s\<lparr>io_mem := M, io_msg := h\<rparr>; port = port\<lparr>op_pool := pool\<rparr> in
          if r < 0 then Some (s, port, r)
          else
            let m = xf_output_port_control_msg port;
                s = s\<lparr>io_msg := (io_msg s)(m := (io_msg s m)\<lparr>m_id := i, m_length := 0, m_buffer := NULL,
                                                              m_error := 0, m_next := NULL\<rparr>)\<rparr>;
                port = port\<lparr>op_length := 0, op_flags := op_flags port OR XF_OUTPUT_FLAG_ROUTING,
                            op_align := align\<rparr>;
                port = port\<lparr>op_flags := op_flags port AND NOT XF_OUTPUT_FLAG_IDLE\<rparr>
            in if len \<noteq> 0 then xf_output_port_route_alloc s port len t else Some (s, port, 0))"

definition xf_output_port_unroute :: "io \<Rightarrow> out_port \<Rightarrow> u32 \<Rightarrow> (io \<times> out_port) option" where
  "xf_output_port_unroute s port t =
     (let n = pl_n (op_pool port) - 1 in
      case free_buffers (indices n) (op_length port) t port s of
        None \<Rightarrow> None
      | Some s \<Rightarrow>
          (case xf_msg_pool_destroy (io_mem s) (op_pool port) t of
             None \<Rightarrow> None
           | Some M \<Rightarrow> Some (s\<lparr>io_mem := M\<rparr>,
               port\<lparr>op_flags := XF_OUTPUT_FLAG_CREATED OR XF_OUTPUT_FLAG_IDLE, op_queue := xf_msg_queue_init\<rparr>)))"

definition xf_output_port_unroute_start :: "out_port \<Rightarrow> addr \<Rightarrow> out_port" where
  "xf_output_port_unroute_start port m =
     port\<lparr>op_unroute := m, op_flags := op_flags port OR XF_OUTPUT_FLAG_UNROUTING\<rparr>"

definition xf_output_port_unroute_done :: "io \<Rightarrow> out_port \<Rightarrow> u32 \<Rightarrow> (io \<times> out_port) option" where
  "xf_output_port_unroute_done s port t =
     (let m = op_unroute port; port = port\<lparr>op_unroute := NULL\<rparr> in
      case xf_output_port_unroute s port t of
        None \<Rightarrow> None
      | Some (s, port) \<Rightarrow> Some (xf_response_ok m s, port))"

definition xf_output_port_put :: "io \<Rightarrow> out_port \<Rightarrow> addr \<Rightarrow> io \<times> out_port \<times> bool" where
  "xf_output_port_put s port m =
     (let (h, q, first) = xf_msg_enqueue (io_msg s) (op_queue port) m
      in (s\<lparr>io_msg := h\<rparr>, port\<lparr>op_queue := q\<rparr>, first))"

definition xf_output_port_data :: "io \<Rightarrow> out_port \<Rightarrow> addr" where
  "xf_output_port_data s port =
     (let m = xf_msg_queue_head (op_queue port) in if m = NULL then NULL else m_buffer (io_msg s m))"

definition xf_output_port_produce :: "io \<Rightarrow> out_port \<Rightarrow> u32 \<Rightarrow> io \<times> out_port \<times> bool" where
  "xf_output_port_produce s port n =
     (let (h, q, m) = xf_msg_dequeue (io_msg s) (op_queue port);
          s = xf_response_data m n (s\<lparr>io_msg := h\<rparr>);
          port = port\<lparr>op_queue := q, op_flags := op_flags port AND NOT XF_OUTPUT_FLAG_IDLE\<rparr>
      in (s, port, xf_msg_queue_head (op_queue port) \<noteq> NULL))"

definition xf_output_port_flush :: "io \<Rightarrow> out_port \<Rightarrow> u32 \<Rightarrow> (io \<times> out_port \<times> bool) option" where
  "xf_output_port_flush s port opcode =
     (if xf_output_port_routed port then
        if op_flags port AND XF_OUTPUT_FLAG_IDLE \<noteq> 0 \<and> opcode \<noteq> XF_FILL_THIS_BUFFER then Some (s, port, True)
        else if op_flags port AND XF_OUTPUT_FLAG_FLUSHING = 0 then
          let port = port\<lparr>op_flags := op_flags port XOR XF_OUTPUT_FLAG_FLUSHING\<rparr>;
              m = xf_output_port_control_msg port;
              s = s\<lparr>io_msg := (io_msg s)(m := (io_msg s m)\<lparr>m_opcode := opcode\<rparr>)\<rparr>
          in Some (xf_response m s, port, False)
        else Some (s, port, False)
      else case answer_all s (op_queue port) of
        None \<Rightarrow> None
      | Some (s, q) \<Rightarrow> Some (s, port\<lparr>op_queue := q\<rparr>, True))"

definition xf_output_port_flush_done :: "out_port \<Rightarrow> out_port" where
  "xf_output_port_flush_done port =
     port\<lparr>op_flags := op_flags port XOR (XF_OUTPUT_FLAG_IDLE OR XF_OUTPUT_FLAG_FLUSHING)\<rparr>"

definition xf_output_port_destroy :: "io \<Rightarrow> out_port \<Rightarrow> u32 \<Rightarrow> (io \<times> out_port) option" where
  "xf_output_port_destroy s port t =
     map_option (\<lambda>(s, port). (s, port\<lparr>op_flags := 0\<rparr>))
       (if xf_output_port_routed port then xf_output_port_unroute s port t else Some (s, port))"

end
