(* ===== verification/Io_Ports.thy ===== *)
theory Io_Ports
  imports Io
begin

text \<open>
  What the operations of \<^verbatim>\<open>xf-io.c\<close> guarantee. An input port holds a byte stream: \<open>in_ok\<close> is its
  invariant, \<open>in_data\<close> its contents; filling keeps the contents, consuming drops a prefix, purging
  answers every message. An output port that is routed owns its pool and its buffers (\<open>out_routed\<close>);
  the memory of routing and unrouting is accounted for with the contract of the allocator
  (\<open>mem\<close>, theory Mem).
\<close>

section \<open>Bytes\<close>

definition bytes_at :: "io \<Rightarrow> addr \<Rightarrow> nat \<Rightarrow> 8 word list" where
  "bytes_at s a n = map (\<lambda>i. io_bytes s (a + word_of_nat i)) [0 ..< n]"

definition msg_bytes :: "io \<Rightarrow> addr \<Rightarrow> 8 word list" where
  "msg_bytes s m = bytes_at s (m_buffer (io_msg s m)) (unat (m_length (io_msg s m)))"

text \<open>A range of addresses that does not wrap around.\<close>

definition no_wrap :: "addr \<Rightarrow> u32 \<Rightarrow> bool" where
  "no_wrap a n \<longleftrightarrow> unat a + unat n \<le> 2 ^ 32"

lemma bytes_at_length [simp]: "length (bytes_at s a n) = n"
  by (simp add: bytes_at_def)

lemma bytes_at_0 [simp]: "bytes_at s a 0 = []"
  by (simp add: bytes_at_def)

lemma bytes_at_cong: "io_bytes s' = io_bytes s \<Longrightarrow> bytes_at s' a n = bytes_at s a n"
  by (simp add: bytes_at_def)

lemma bytes_at_split: "bytes_at s a (k + n) = bytes_at s a k @ bytes_at s (a + word_of_nat k) n"
proof -
  have "[0 ..< k + n] = [0 ..< k] @ map (\<lambda>i. i + k) [0 ..< n]"
    using upt_add_eq_append [of 0 k n] map_add_upt [of k n] by (simp add: add.commute)
  then show ?thesis by (simp add: bytes_at_def comp_def ac_simps)
qed

lemma unat_offset: "unat a + n \<le> 2 ^ 32 \<Longrightarrow> i < n \<Longrightarrow> unat (a + word_of_nat i :: u32) = unat a + i"
proof -
  assume "unat a + n \<le> 2 ^ 32" "i < n"
  then have "unat (word_of_nat i :: u32) = i" by (simp add: unat_of_nat)
  then show ?thesis using unat_add_lem [of a "word_of_nat i"] \<open>unat a + n \<le> 2 ^ 32\<close> \<open>i < n\<close> by simp
qed

lemma in_range_iff:
  assumes "no_wrap d k"
  shows "unat (x - d) < unat k \<longleftrightarrow> unat d \<le> unat x \<and> unat x < unat d + unat k"
proof (cases "d \<le> x")
  case True
  then show ?thesis by (auto simp: unat_sub word_le_nat_alt)
next
  case False
  then have lt: "unat x < unat d" by (simp add: not_le word_less_nat_alt)
  have "unat (x - d) = unat x + 2 ^ 32 - unat d"
    unfolding unat_sub_if' using lt by simp
  with assms lt show ?thesis by (simp add: no_wrap_def)
qed

lemma io_bytes_memcpy:
  assumes "no_wrap d k"
  shows "io_bytes (xf_memcpy d a k s) x =
    (if unat d \<le> unat x \<and> unat x < unat d + unat k then io_bytes s (a + (x - d)) else io_bytes s x)"
  using in_range_iff [OF assms] by (simp add: xf_memcpy_def)

lemma memcpy_frame:
  assumes "no_wrap d k" and "unat b + n \<le> 2 ^ 32" and "{unat b ..< unat b + n} \<inter> {unat d ..< unat d + unat k} = {}"
  shows "bytes_at (xf_memcpy d a k s) b n = bytes_at s b n"
proof -
  have "\<not> (unat d \<le> unat (b + word_of_nat i) \<and> unat (b + word_of_nat i) < unat d + unat k)" if "i < n" for i
    using assms(3) that unat_offset [OF assms(2) that] by fastforce
  then show ?thesis unfolding bytes_at_def by (intro map_cong refl) (auto simp: io_bytes_memcpy [OF assms(1)])
qed

lemma memcpy_copies:
  assumes "no_wrap d k" and "n = unat k"
  shows "bytes_at (xf_memcpy d a k s) d n = bytes_at s a n"
proof -
  have d: "unat d + n \<le> 2 ^ 32" using assms by (simp add: no_wrap_def)
  show ?thesis
    using unat_offset [OF d] assms(2) by (simp add: bytes_at_def io_bytes_memcpy [OF assms(1)])
qed

lemma memcpy_fields [simp]:
  "io_msg (xf_memcpy d a k s) = io_msg s" "io_done (xf_memcpy d a k s) = io_done s"
  "io_mem (xf_memcpy d a k s) = io_mem s"
  by (simp_all add: xf_memcpy_def)

section \<open>The stream of an input port\<close>

text \<open>
  The bytes an input port holds, in order: those in its buffer, the rest of the current message,
  and the contents of the messages that wait behind it.
\<close>

definition in_stream :: "io \<Rightarrow> in_port \<Rightarrow> addr list \<Rightarrow> u32 \<Rightarrow> u32 \<Rightarrow> 8 word list" where
  "in_stream s port ms filled remaining = bytes_at s (ip_buffer port) (unat filled) @
     (if ms = [] then [] else bytes_at s (ip_access port) (unat remaining) @ concat (map (msg_bytes s) (tl ms)))"

definition separate :: "in_port \<Rightarrow> addr \<Rightarrow> u32 \<Rightarrow> bool" where
  "separate port a n \<longleftrightarrow> no_wrap a n \<and> span a n \<inter> span (ip_buffer port) (ip_length port) = {}"

definition in_ok :: "io \<Rightarrow> in_port \<Rightarrow> addr list \<Rightarrow> u32 \<Rightarrow> u32 \<Rightarrow> bool" where
  "in_ok s port ms filled remaining \<longleftrightarrow> msg_queue_rel (io_msg s) (ip_queue port) ms \<and>
     no_wrap (ip_buffer port) (ip_length port) \<and> unat filled \<le> unat (ip_length port) \<and>
     (ms \<noteq> [] \<longrightarrow> separate port (ip_access port) remaining) \<and>
     (\<forall>m \<in> set (tl ms). separate port (m_buffer (io_msg s m)) (m_length (io_msg s m)))"

lemma copy_step:
  fixes s port filled k
  defines "s' \<equiv> xf_memcpy (ip_buffer port + filled) (ip_access port) k s"
    and "port' \<equiv> port\<lparr>ip_access := ip_access port + k\<rparr>"
  assumes ok: "in_ok s port ms filled remaining" and ne: "ms \<noteq> []"
    and k: "unat k \<le> unat remaining" "unat filled + unat k \<le> unat (ip_length port)"
  shows "in_ok s' port' ms (filled + k) (remaining - k)"
    and "in_stream s' port' ms (filled + k) (remaining - k) = in_stream s port ms filled remaining"
    and "unat (filled + k) = unat filled + unat k"
proof -
  let ?b = "ip_buffer port" and ?d = "ip_buffer port + filled" and ?a = "ip_access port"
  have len: "unat ?b + unat (ip_length port) \<le> 2 ^ 32" using ok by (simp add: in_ok_def no_wrap_def)
  show fk: "unat (filled + k) = unat filled + unat k"
    using k(2) unsigned_less [of "ip_length port", where ?'a = nat] unat_add_lem [of filled k] by simp
  have sep: "separate port ?a remaining" using ok ne by (simp add: in_ok_def)
  then have a: "unat ?a + unat remaining \<le> 2 ^ 32" by (simp add: separate_def no_wrap_def)
  have rk: "unat (remaining - k) = unat remaining - unat k" using k(1) by (simp add: unat_sub word_le_nat_alt)
  have filled: "unat ?d = unat ?b + unat filled" if "k \<noteq> 0"
    using that k(2) len unat_add_lem [of ?b filled] unat_gt_0 [of k] by simp
  have dst: "no_wrap ?d k"
    by (cases "k = 0") (use filled k(2) len unsigned_less [of ?d, where ?'a = nat] in \<open>auto simp: no_wrap_def\<close>)
  have away: "bytes_at s' c n = bytes_at s c n"
    if "unat c + n \<le> 2 ^ 32" "{unat c ..< unat c + n} \<inter> {unat ?b + unat filled ..< unat ?b + unat (ip_length port)} = {}"
    for c n
  proof (cases "k = 0")
    case True
    then show ?thesis by (simp add: s'_def bytes_at_def xf_memcpy_def)
  next
    case False
    have "{unat ?d ..< unat ?d + unat k} \<subseteq> {unat ?b + unat filled ..< unat ?b + unat (ip_length port)}"
      unfolding filled [OF False] using k(2) by auto
    then show ?thesis
      unfolding s'_def using that by (intro memcpy_frame [OF dst]) blast+
  qed
  have far: "bytes_at s' c (unat n) = bytes_at s c (unat n)" if "separate port c n" for c n
    using that by (intro away) (auto simp: separate_def no_wrap_def span_def)
  have sep': "separate port' (ip_access port') (remaining - k)"
  proof (cases "remaining = k")
    case True
    then show ?thesis
      using unsigned_less [of "?a + k", where ?'a = nat] by (simp add: separate_def no_wrap_def span_def port'_def)
  next
    case False
    then have "unat k < unat remaining" using k(1) by (simp add: le_neq_implies_less word_unat_eq_iff)
    then have "unat (?a + k) = unat ?a + unat k" using a unat_add_lem [of ?a k] by simp
    then have "no_wrap (?a + k) (remaining - k)" "span (?a + k) (remaining - k) \<subseteq> span ?a remaining"
      using a rk k(1) by (auto simp: no_wrap_def span_def)
    with sep show ?thesis by (auto simp: separate_def port'_def)
  qed
  show "in_ok s' port' ms (filled + k) (remaining - k)"
    using ok k(2) fk sep' by (simp add: in_ok_def s'_def port'_def separate_def)
  have "bytes_at s' ?b (unat (filled + k)) = bytes_at s ?b (unat filled) @ bytes_at s ?a (unat k)"
  proof -
    have "bytes_at s' ?b (unat filled) = bytes_at s ?b (unat filled)"
      using len k(2) by (intro away) auto
    moreover have "bytes_at s' ?d (unat k) = bytes_at s ?a (unat k)"
      unfolding s'_def by (rule memcpy_copies [OF dst refl])
    ultimately show ?thesis unfolding fk bytes_at_split by simp
  qed
  moreover have "bytes_at s ?a (unat remaining) = bytes_at s ?a (unat k) @ bytes_at s (?a + k) (unat (remaining - k))"
    using bytes_at_split [of s ?a "unat k" "unat (remaining - k)"] k(1) rk by simp
  moreover have "bytes_at s' (?a + k) (unat (remaining - k)) = bytes_at s (?a + k) (unat (remaining - k))"
    using far sep' by (simp add: port'_def separate_def)
  moreover have "msg_bytes s' m = msg_bytes s m" if "m \<in> set (tl ms)" for m
    using ok that far by (simp add: in_ok_def msg_bytes_def s'_def)
  ultimately show "in_stream s' port' ms (filled + k) (remaining - k) = in_stream s port ms filled remaining"
    using ne by (simp add: in_stream_def port'_def cong: map_cong)
qed
lemma sint_pos_small: "unat n < 2 ^ 31 \<Longrightarrow> 0 < sint n \<longleftrightarrow> n \<noteq> (0 :: u32)"
proof -
  assume "unat n < 2 ^ 31"
  then have "int (unat n) < int (2 ^ 31)" by (simp only: of_nat_less_iff)
  then have lt: "uint n < 2 ^ 31" by simp
  have ge: "0 \<le> uint n" by (rule unsigned_greater_eq)
  have "sint n = uint n"
  proof -
    have "- (2 ^ 31) \<le> uint n" using ge by (rule order_trans [rotated]) simp
    with lt signed_take_bit_int_eq_self [of 31 "uint n"] show ?thesis by (simp add: sint_uint)
  qed
  then show ?thesis using ge uint_0_iff [of n] by (simp add: less_le)
qed

lemma links_only_done: "links_only A h h' \<Longrightarrow> (h' m)\<lparr>m_next := NULL\<rparr> = (h m)\<lparr>m_next := NULL\<rparr>"
  by (simp add: links_only_def)

text \<open>What the caller of a message gets back: the message without its link.\<close>

definition answered :: "io \<Rightarrow> addr \<Rightarrow> addr \<times> xf_message" where
  "answered s m = (m, (io_msg s m)\<lparr>m_next := NULL\<rparr>)"

lemma complete_step:
  assumes ok: "in_ok s port (m # ms) filled 0"
  shows "\<exists>s' port'. xf_input_port_complete s port = (s', port', ms \<noteq> []) \<and>
    in_ok s' port' ms filled (if ms = [] then 0 else ip_remaining port') \<and>
    in_stream s' port' ms filled (if ms = [] then 0 else ip_remaining port') = in_stream s port (m # ms) filled 0 \<and>
    io_done s' = io_done s @ [answered s m] \<and> links_only {m} (io_msg s) (io_msg s') \<and>
    ip_buffer port' = ip_buffer port \<and> ip_length port' = ip_length port \<and> ip_flags port' = ip_flags port"
proof -
  have q: "msg_queue_rel (io_msg s) (ip_queue port) (m # ms)" using ok by (simp add: in_ok_def)
  obtain h q' where dq: "xf_msg_dequeue (io_msg s) (ip_queue port) = (h, q', m)"
    and q': "msg_queue_rel h q' ms" and lk: "links_only {m} (io_msg s) h" and nx: "m_next (h m) = NULL"
    using dequeue_rel(2) [OF q refl] by blast
  have hm: "h m = (io_msg s m)\<lparr>m_next := NULL\<rparr>"
    using links_only_done [OF lk, of m] nx by (metis xf_message.surjective xf_message.update_convs(1))
  note f = links_only_fields [OF lk]
  have head: "xf_msg_queue_head q' = (case ms of [] \<Rightarrow> NULL | m # _ \<Rightarrow> m)" by (rule queue_head_rel [OF q'])
  have nn: "NULL \<notin> set ms" using q' msg_list_not_null by (auto simp: msg_queue_rel_def)
  have sep: "\<forall>x \<in> set ms. separate port (m_buffer (io_msg s x)) (m_length (io_msg s x))"
    using ok by (simp add: in_ok_def)
  define s1 where "s1 = xf_response m (s\<lparr>io_msg := h\<rparr>)"
  have s1: "io_msg s1 = h" "io_bytes s1 = io_bytes s" "io_done s1 = io_done s @ [answered s m]"
    using hm by (simp_all add: s1_def xf_response_def answered_def)
  have mb: "bytes_at s1 a n = bytes_at s a n" for a n using s1 by (simp add: bytes_at_def)
  then have mm: "msg_bytes s1 = msg_bytes s" using f s1 by (simp add: msg_bytes_def fun_eq_iff)
  show ?thesis
  proof (cases ms)
    case Nil
    then show ?thesis
      using ok dq q' lk head s1 mb
      by (simp add: xf_input_port_complete_def s1_def [symmetric] in_ok_def in_stream_def)
  next
    case (Cons x xs)
    then have "x \<noteq> NULL" using nn by auto
    then show ?thesis
      using Cons ok dq q' lk head sep f s1 mb mm
      by (simp add: xf_input_port_complete_def s1_def [symmetric] in_ok_def in_stream_def separate_def)
        (simp add: msg_bytes_def)
  qed
qed

text \<open>
  The loop: it answers the messages \<open>fin\<close> it has used up and keeps the stream; it ends with the
  buffer full, at a message without bytes, or with no message left.
\<close>

definition fill_post :: "io \<Rightarrow> in_port \<Rightarrow> addr list \<Rightarrow> u32 \<Rightarrow> u32 \<Rightarrow> io \<times> in_port \<times> u32 \<times> u32 \<times> u32 \<Rightarrow> bool" where
  "fill_post s port ms filled remaining res \<longleftrightarrow>
     (case res of (s', port', f, r, n) \<Rightarrow> \<exists>fin ms'. ms = fin @ ms' \<and> in_ok s' port' ms' f r \<and>
        in_stream s' port' ms' f r = in_stream s port ms filled remaining \<and>
        io_done s' = io_done s @ map (answered s) fin \<and>
        links_only (set fin) (io_msg s) (io_msg s') \<and>
        ip_buffer port' = ip_buffer port \<and> ip_length port' = ip_length port \<and>
        (n = 0 \<and> f = ip_length port \<and> ip_flags port' = ip_flags port \<or>
         n = 0 \<and> ms' \<noteq> [] \<and> r = 0 \<and> ip_flags port' = ip_flags port XOR (XF_INPUT_FLAG_EOS OR XF_INPUT_FLAG_DONE) \<or>
         n \<noteq> 0 \<and> ms' = [] \<and> ip_flags port' = ip_flags port))"

lemma fill_post_step:
  assumes post: "fill_post s1 port1 ms1 f1 r1 res" and ms: "ms = fin1 @ ms1"
    and st: "in_stream s1 port1 ms1 f1 r1 = in_stream s port ms f r"
    and dn: "io_done s1 = io_done s @ map (answered s) fin1" and lk: "links_only (set fin1) (io_msg s) (io_msg s1)"
    and p: "ip_buffer port1 = ip_buffer port" "ip_length port1 = ip_length port" "ip_flags port1 = ip_flags port"
  shows "fill_post s port ms f r res"
proof -
  have "answered s1 = answered s" using links_only_done [OF lk] by (simp add: answered_def fun_eq_iff)
  then show ?thesis
    using post st dn p links_only_trans [OF lk] unfolding fill_post_def ms
    by (fastforce split: prod.splits intro: exI [of _ "fin1 @ _"])
qed

lemma fill_post_here:
  assumes "in_ok s port ms f r" and len: "unat f + unat n = unat (ip_length port)" and "n = 0 \<or> ms = []"
  shows "fill_post s port ms f r (s, port, f, r, n)"
proof -
  have "n = 0 \<Longrightarrow> f = ip_length port" using len by (simp add: word_unat_eq_iff)
  then show ?thesis using assms by (auto simp: fill_post_def)
qed

lemma fill_post_eos:
  assumes "in_ok s port ms f 0" and "ms \<noteq> []"
  shows "fill_post s port ms f 0
    (s, port\<lparr>ip_flags := ip_flags port XOR (XF_INPUT_FLAG_EOS OR XF_INPUT_FLAG_DONE)\<rparr>, f, 0, 0)"
  using assms by (auto simp: fill_post_def in_ok_def separate_def in_stream_def)

lemma fill_loop_ok:
  "in_ok s port ms filled remaining \<Longrightarrow> ms \<noteq> [] \<Longrightarrow> unat filled + unat n = unat (ip_length port) \<Longrightarrow>
   unat n < 2 ^ 31 \<Longrightarrow> fill_post s port ms filled remaining (input_fill_loop s port filled remaining n)"
proof (induction s port filled remaining n arbitrary: ms rule: input_fill_loop.induct)
  case (1 s port filled remaining n)
  note ok = 1(3) and ne = 1(4) and len = 1(5) and small = 1(6)
  define k where "k = (if n < remaining then n else remaining)"
  define s1 where "s1 = xf_memcpy (ip_buffer port + filled) (ip_access port) k s"
  define port1 where "port1 = port\<lparr>ip_access := ip_access port + k\<rparr>"
  have pos: "0 < sint n \<longleftrightarrow> n \<noteq> 0" by (rule sint_pos_small [OF small])
  have unf: "input_fill_loop s port filled remaining n =
     (if n = 0 then (s, port, filled, remaining, n)
      else if k = 0
        then (s, port\<lparr>ip_flags := ip_flags port XOR (XF_INPUT_FLAG_EOS OR XF_INPUT_FLAG_DONE)\<rparr>, filled, remaining, 0)
        else if remaining - k = 0 then
               (case xf_input_port_complete s1 port1 of (s, port, again) \<Rightarrow>
                  if \<not> again then (s, port, filled + k, remaining - k, n - k)
                  else input_fill_loop s port (filled + k) (ip_remaining port) (n - k))
             else input_fill_loop s1 port1 (filled + k) (remaining - k) (n - k))"
    by (subst input_fill_loop.simps) (simp add: pos k_def s1_def port1_def Let_def split_beta)
  show ?case
  proof (cases "n = 0 \<or> k = 0")
    case True
    show ?thesis
    proof (cases "n = 0")
      case True
      then show ?thesis unfolding unf using fill_post_here [OF ok len] by simp
    next
      case False
      with True have "k = 0" "remaining = 0" by (auto simp: k_def split: if_splits)
      then have "fill_post s port ms filled remaining (s, port\<lparr>ip_flags := ip_flags port XOR (XF_INPUT_FLAG_EOS OR XF_INPUT_FLAG_DONE)\<rparr>, filled, remaining, 0)"
        using ok ne fill_post_eos by simp
      with False \<open>k = 0\<close> show ?thesis by (simp add: unf)
    qed
  next
    case False
    then have n: "n \<noteq> 0" and k: "k \<noteq> 0" by simp_all
    have kr: "unat k \<le> unat remaining" "unat k \<le> unat n"
      by (auto simp: k_def word_less_nat_alt not_less)
    then have kf: "unat filled + unat k \<le> unat (ip_length port)" using len by linarith
    note cp = copy_step [OF ok ne kr(1) kf, folded s1_def port1_def]
    have nk: "unat (n - k) = unat n - unat k" using kr(2) by (simp add: unat_sub word_le_nat_alt)
    have len1: "unat (filled + k) + unat (n - k) = unat (ip_length port)" and small1: "unat (n - k) < 2 ^ 31"
      using cp(3) nk kr(2) len small by linarith+
    have s1: "io_done s1 = io_done s" "io_msg s1 = io_msg s"
      and p1: "ip_buffer port1 = ip_buffer port" "ip_length port1 = ip_length port" "ip_flags port1 = ip_flags port"
      by (simp_all add: s1_def port1_def)
    show ?thesis
    proof (cases "remaining - k = 0")
      case False
      have "fill_post s1 port1 ms (filled + k) (remaining - k) (input_fill_loop s1 port1 (filled + k) (remaining - k) (n - k))"
        using pos n k False cp(1) ne len1 small1 p1(2)
        by (intro 1(2)) (simp_all add: k_def s1_def port1_def)
      from fill_post_step [OF this _ cp(2), of "[]"] s1 p1 have
        "fill_post s port ms filled remaining (input_fill_loop s1 port1 (filled + k) (remaining - k) (n - k))" by simp
      with n k False show ?thesis by (simp add: unf)
    next
      case True
      obtain m ms2 where ms: "ms = m # ms2" using ne by (cases ms) auto
      obtain s2 port2 where c: "xf_input_port_complete s1 port1 = (s2, port2, ms2 \<noteq> [])"
        and ok2: "in_ok s2 port2 ms2 (filled + k) (if ms2 = [] then 0 else ip_remaining port2)"
        and st2: "in_stream s2 port2 ms2 (filled + k) (if ms2 = [] then 0 else ip_remaining port2) =
          in_stream s1 port1 ms (filled + k) 0"
        and d2: "io_done s2 = io_done s1 @ [answered s1 m]" and l2: "links_only {m} (io_msg s1) (io_msg s2)"
        and p2: "ip_buffer port2 = ip_buffer port1" "ip_length port2 = ip_length port1" "ip_flags port2 = ip_flags port1"
        using complete_step [of s1 port1 m ms2 "filled + k"] cp(1) unfolding ms True by blast
      let ?res = "if ms2 = [] then (s2, port2, filled + k, 0, n - k)
        else input_fill_loop s2 port2 (filled + k) (ip_remaining port2) (n - k)"
      have "fill_post s2 port2 ms2 (filled + k) (if ms2 = [] then 0 else ip_remaining port2) ?res"
      proof (cases "ms2 = []")
        case m2: True
        with fill_post_here [of s2 port2 ms2 "filled + k" 0 "n - k"] ok2 len1 p1 p2 show ?thesis by simp
      next
        case m2: False
        have "fill_post s2 port2 ms2 (filled + k) (ip_remaining port2)
            (input_fill_loop s2 port2 (filled + k) (ip_remaining port2) (n - k))"
          using pos n k True ok2 len1 small1 p1(2) p2(2) c m2
          by (intro 1(1) [of k s1 port1 "filled + k" "n - k" "remaining - k"]) (simp_all add: k_def s1_def port1_def)
        with m2 show ?thesis by simp
      qed
      moreover have "answered s1 = answered s" using s1 by (simp add: answered_def fun_eq_iff)
      ultimately have "fill_post s port ms filled remaining ?res"
        using fill_post_step [of s2 port2 ms2 "filled + k" "if ms2 = [] then 0 else ip_remaining port2" ?res ms "[m]"
          s port filled remaining] ms st2 cp(2) True s1 d2 l2 p1 p2 by simp
      then show ?thesis using n k True c unfolding unf by (cases "ms2 = []") simp_all
    qed
  qed
qed

section \<open>Filling, consuming, purging\<close>

text \<open>The state of an input port that buffers its data.\<close>

definition in_port_ok :: "io \<Rightarrow> in_port \<Rightarrow> addr list \<Rightarrow> bool" where
  "in_port_ok s port ms \<longleftrightarrow> in_ok s port ms (ip_filled port) (ip_remaining port) \<and> ip_buffer port \<noteq> NULL \<and>
     unat (ip_length port) < 2 ^ 31"

definition in_data :: "io \<Rightarrow> in_port \<Rightarrow> addr list \<Rightarrow> 8 word list" where
  "in_data s port ms = in_stream s port ms (ip_filled port) (ip_remaining port)"

lemma in_ok_set [simp]:
  "in_ok s (port\<lparr>ip_filled := f, ip_remaining := r\<rparr>) = in_ok s port"
  "in_stream s (port\<lparr>ip_filled := f, ip_remaining := r\<rparr>) = in_stream s port"
  by (simp_all add: fun_eq_iff in_ok_def in_stream_def separate_def)

lemma fill_ok:
  assumes ok: "in_port_ok s port ms"
  shows "\<exists>s' port' full fin ms'. xf_input_port_fill s port = (s', port', full) \<and>
    ms = fin @ ms' \<and> in_port_ok s' port' ms' \<and> in_data s' port' ms' = in_data s port ms \<and>
    io_done s' = io_done s @ map (answered s) fin \<and> links_only (set fin) (io_msg s) (io_msg s') \<and>
    (full \<longrightarrow> ip_filled port' = ip_length port \<and> ip_flags port' = ip_flags port \<or>
       ms' \<noteq> [] \<and> ip_remaining port' = 0 \<and>
       ip_flags port' = ip_flags port XOR (XF_INPUT_FLAG_EOS OR XF_INPUT_FLAG_DONE)) \<and>
    (\<not> full \<longrightarrow> ms' = [] \<and> ip_flags port' = ip_flags port)"
proof (cases "ms = []")
  case True
  have "xf_msg_queue_head (ip_queue port) = NULL"
    using ok True by (auto simp: in_port_ok_def in_ok_def dest: queue_head_rel)
  with True ok show ?thesis
    by (simp add: xf_input_port_fill_def xf_input_port_bypass_def in_port_ok_def) (rule exI [of _ False], simp)
next
  case False
  have i: "in_ok s port ms (ip_filled port) (ip_remaining port)" "ip_buffer port \<noteq> NULL"
    "unat (ip_length port) < 2 ^ 31" using ok by (simp_all add: in_port_ok_def)
  have nn: "NULL \<notin> set ms" "msg_queue_rel (io_msg s) (ip_queue port) ms"
    using i(1) msg_list_not_null by (auto simp: in_ok_def msg_queue_rel_def)
  have hd: "xf_msg_queue_head (ip_queue port) \<noteq> NULL"
    using queue_head_rel [OF nn(2)] nn(1) False by (cases ms) auto
  have le: "unat (ip_filled port) \<le> unat (ip_length port)" using i(1) by (simp add: in_ok_def)
  then have n: "unat (ip_length port - ip_filled port) = unat (ip_length port) - unat (ip_filled port)"
    by (simp add: unat_sub word_le_nat_alt)
  have len: "unat (ip_filled port) + unat (ip_length port - ip_filled port) = unat (ip_length port)"
    "unat (ip_length port - ip_filled port) < 2 ^ 31"
    using le i(3) by (simp_all add: n)
  obtain s' port' f r k where l: "input_fill_loop s port (ip_filled port) (ip_remaining port)
      (ip_length port - ip_filled port) = (s', port', f, r, k)" by (metis prod_cases5)
  from fill_loop_ok [OF i(1) False len] l have
    post: "fill_post s port ms (ip_filled port) (ip_remaining port) (s', port', f, r, k)" by simp
  have eq: "xf_input_port_fill s port = (s', port'\<lparr>ip_filled := f, ip_remaining := r\<rparr>, k = 0)"
    using i(2) hd l by (simp add: xf_input_port_fill_def xf_input_port_bypass_def)
  from post i(2,3) show ?thesis
    unfolding fill_post_def eq in_port_ok_def in_data_def
    by (elim case_prodE exE conjE, simp) blast
qed

lemma in_stream_consume:
  assumes ok: "in_ok s port ms f r" and n: "unat n < unat f"
  shows "in_ok (xf_memcpy (ip_buffer port) (ip_buffer port + n) (f - n) s) port ms (f - n) r \<and>
    in_stream (xf_memcpy (ip_buffer port) (ip_buffer port + n) (f - n) s) port ms (f - n) r =
      drop (unat n) (in_stream s port ms f r)"
proof -
  let ?b = "ip_buffer port" and ?k = "f - n"
  let ?s = "xf_memcpy ?b (?b + n) ?k s"
  have k: "unat ?k = unat f - unat n" using n by (simp add: unat_sub word_le_nat_alt)
  have le: "unat f \<le> unat (ip_length port)" "no_wrap ?b (ip_length port)" using ok by (simp_all add: in_ok_def)
  then have w: "no_wrap ?b ?k" using k by (simp add: no_wrap_def)
  have sub: "{unat ?b ..< unat ?b + unat ?k} \<subseteq> span ?b (ip_length port)"
    using le k by (auto simp: span_def)
  have far: "bytes_at ?s c (unat q) = bytes_at s c (unat q)" if "separate port c q" for c q
  proof (rule memcpy_frame [OF w])
    show "unat c + unat q \<le> 2 ^ 32" using that by (simp add: separate_def no_wrap_def)
    have "span c q \<inter> span ?b (ip_length port) = {}" using that by (simp add: separate_def)
    with sub show "{unat c ..< unat c + unat q} \<inter> {unat ?b ..< unat ?b + unat ?k} = {}"
      unfolding span_def [of c] by blast
  qed
  have "bytes_at ?s ?b (unat ?k) = bytes_at s (?b + n) (unat ?k)" by (rule memcpy_copies [OF w refl])
  moreover have "bytes_at s ?b (unat f) = bytes_at s ?b (unat n) @ bytes_at s (?b + n) (unat ?k)"
    using bytes_at_split [of s ?b "unat n" "unat ?k"] n k by simp
  ultimately have hd: "bytes_at ?s ?b (unat ?k) = drop (unat n) (bytes_at s ?b (unat f))" by simp
  have "msg_bytes ?s m = msg_bytes s m" if "m \<in> set (tl ms)" for m
    using ok that far by (simp add: in_ok_def msg_bytes_def)
  then have "concat (map (msg_bytes ?s) (tl ms)) = concat (map (msg_bytes s) (tl ms))" by (simp cong: map_cong)
  moreover have "ms \<noteq> [] \<Longrightarrow> bytes_at ?s (ip_access port) (unat r) = bytes_at s (ip_access port) (unat r)"
    using ok far by (simp add: in_ok_def)
  moreover have "unat ?k \<le> unat (ip_length port)" using k le(1) by linarith
  then have "in_ok ?s port ms ?k r" using ok by (simp add: in_ok_def)
  ultimately show ?thesis using hd n by (simp add: in_stream_def)
qed

lemma in_ok_filled [simp]:
  "in_ok s (port\<lparr>ip_filled := f\<rparr>) = in_ok s port"
  "in_stream s (port\<lparr>ip_filled := f\<rparr>) = in_stream s port"
  by (simp_all add: fun_eq_iff in_ok_def in_stream_def separate_def)

lemma consume_ok:
  assumes ok: "in_port_ok s port ms" and n: "unat n \<le> unat (ip_filled port)"
  shows "\<exists>s' port'. xf_input_port_consume s port n = (s', port') \<and> in_port_ok s' port' ms \<and>
    in_data s' port' ms = drop (unat n) (in_data s port ms) \<and>
    unat (ip_filled port') = unat (ip_filled port) - unat n \<and> io_msg s' = io_msg s \<and> io_done s' = io_done s"
proof (cases "unat n < unat (ip_filled port)")
  case True
  then have "unat (ip_filled port - n) = unat (ip_filled port) - unat n"
    by (simp add: unat_sub word_le_nat_alt)
  with True in_stream_consume [of s port ms "ip_filled port" "ip_remaining port" n] ok show ?thesis
    by (simp add: xf_input_port_consume_def xf_input_port_bypass_def in_port_ok_def in_data_def word_less_nat_alt
        Let_def)
next
  case False
  with n have "unat n = unat (ip_filled port)" by simp
  with ok False show ?thesis
    by (simp add: xf_input_port_consume_def xf_input_port_bypass_def in_port_ok_def in_data_def word_less_nat_alt
        in_ok_def in_stream_def separate_def)
qed

text \<open>Answering every message of a queue with length 0.\<close>

definition answered_ok :: "io \<Rightarrow> addr \<Rightarrow> addr \<times> xf_message" where
  "answered_ok s m = (m, (io_msg s m)\<lparr>m_next := NULL, m_length := 0\<rparr>)"

lemma answer_all_ok:
  "msg_queue_rel (io_msg s) q ms \<Longrightarrow>
   \<exists>s' q'. answer_all s q = Some (s', q') \<and> msg_queue_rel (io_msg s') q' [] \<and>
     io_done s' = io_done s @ map (answered_ok s) ms \<and> (\<forall>x. x \<notin> set ms \<longrightarrow> io_msg s' x = io_msg s x) \<and>
     io_bytes s' = io_bytes s \<and> io_mem s' = io_mem s"
proof (induction ms arbitrary: s q)
  case Nil
  then show ?case using dequeue_rel(1) [OF Nil] by (subst answer_all.simps) simp
next
  case (Cons m ms)
  obtain h q1 where dq: "xf_msg_dequeue (io_msg s) q = (h, q1, m)" and q1: "msg_queue_rel h q1 ms"
    and lk: "links_only {m} (io_msg s) h" and nx: "m_next (h m) = NULL"
    using dequeue_rel(2) [OF Cons.prems refl] by blast
  have "NULL \<notin> set (m # ms)" "distinct (m # ms)"
    using Cons.prems msg_list_not_null by (auto simp only: msg_queue_rel_def)
  then have m: "m \<noteq> NULL" "m \<notin> set ms" by auto
  define s1 where "s1 = xf_response_ok m (s\<lparr>io_msg := h\<rparr>)"
  have hm: "h m = (io_msg s m)\<lparr>m_next := NULL\<rparr>"
    using links_only_done [OF lk, of m] nx by (metis xf_message.surjective xf_message.update_convs(1))
  have s1: "io_msg s1 = h(m := (h m)\<lparr>m_length := 0\<rparr>)" "io_done s1 = io_done s @ [answered_ok s m]"
    "io_bytes s1 = io_bytes s" "io_mem s1 = io_mem s"
    using hm by (simp_all add: s1_def xf_response_ok_def xf_response_def answered_ok_def)
  have away: "\<forall>x. x \<noteq> m \<longrightarrow> io_msg s1 x = io_msg s x" using lk s1 by (simp add: links_only_def)
  have "msg_queue_rel (io_msg s1) q1 ms" using queue_rel_frame [OF q1] s1 by simp
  from Cons.IH [OF this] obtain s' q' where r: "answer_all s1 q1 = Some (s', q')" "msg_queue_rel (io_msg s') q' []"
    "io_done s' = io_done s1 @ map (answered_ok s1) ms" "\<forall>x. x \<notin> set ms \<longrightarrow> io_msg s' x = io_msg s1 x"
    "io_bytes s' = io_bytes s1" "io_mem s' = io_mem s1" by blast
  have "map (answered_ok s1) ms = map (answered_ok s) ms"
    using away m(2) by (auto simp: answered_ok_def)
  then have "io_done s' = io_done s @ map (answered_ok s) (m # ms)" using r(3) s1(2) by simp
  moreover have "answer_all s q = answer_all s1 q1"
    using dq m(1) by (subst answer_all.simps) (simp add: s1_def)
  ultimately show ?case using r away s1(3,4) by simp
qed

section \<open>Routing\<close>

text \<open>The buffers of the messages with the indices \<open>xs\<close>, all of length \<open>len\<close>.\<close>

definition bufs :: "io \<Rightarrow> msg_pool \<Rightarrow> u32 \<Rightarrow> u32 list \<Rightarrow> (addr \<times> u32) list" where
  "bufs s pool len xs = map (\<lambda>p. (p, len)) (map (\<lambda>x. m_buffer (io_msg s (xf_msg_pool_item pool x))) xs)"

lemma bufs_cong:
  "\<forall>x \<in> set xs. m_buffer (io_msg s' (xf_msg_pool_item pool x)) = m_buffer (io_msg s (xf_msg_pool_item pool x)) \<Longrightarrow>
   bufs s' pool len xs = bufs s pool len xs"
  by (simp add: bufs_def)

lemma free_buffers_eq:
  "free_buffers xs len t port s = map_option (\<lambda>M. s\<lparr>io_mem := M\<rparr>)
     (mem.free_all t (map (\<lambda>x. m_buffer (io_msg s (xf_msg_pool_item (op_pool port) x))) xs) len (io_mem s))"
  by (induction xs arbitrary: s) (auto split: option.splits)

lemma free_buffers_ok:
  assumes "region_top p0" and "mem_live p0 t U (io_mem s) (rev (bufs s (op_pool port) len xs) @ L)"
  shows "\<exists>M. free_buffers xs len t port s = Some (s\<lparr>io_mem := M\<rparr>) \<and> mem_live p0 t U M L"
proof -
  let ?ps = "map (\<lambda>x. m_buffer (io_msg s (xf_msg_pool_item (op_pool port) x))) xs"
  obtain M where "mem.free_all t ?ps len (io_mem s) = Some M" "mem_live p0 t U M L"
    using mem.free_all_rev_live [of p0 t U "io_mem s" "[]" len ?ps L] assms by (auto simp: bufs_def)
  then show ?thesis by (intro exI [of _ M]) (simp add: free_buffers_eq)
qed

text \<open>What a message that carries an output buffer looks like.\<close>

definition routed_msg :: "u64 \<Rightarrow> u32 \<Rightarrow> xf_message \<Rightarrow> bool" where
  "routed_msg i len m \<longleftrightarrow> m_id m = i \<and> m_opcode m = XF_FILL_THIS_BUFFER \<and> m_length m = len \<and>
     m_buffer m \<noteq> NULL \<and> m_error m = 0"

definition route_post :: "io \<Rightarrow> out_port \<Rightarrow> mm_pool \<Rightarrow> u32 \<Rightarrow> nat set \<Rightarrow> u64 \<Rightarrow> u32 \<Rightarrow> addr list \<Rightarrow> (addr \<times> u32) list \<Rightarrow>
    u32 list \<Rightarrow> io \<times> out_port \<times> u32 option \<Rightarrow> bool" where
  "route_post s port p0 t U i len qs L xs res \<longleftrightarrow> (case res of (s', port', e) \<Rightarrow>
     op_pool port' = op_pool port \<and> op_length port' = op_length port \<and> op_flags port' = op_flags port \<and>
     op_align port' = op_align port \<and> op_unroute port' = op_unroute port \<and>
     (\<forall>y. y \<notin> xf_msg_pool_item (op_pool port) ` set xs \<longrightarrow>
        (io_msg s' y)\<lparr>m_next := NULL\<rparr> = (io_msg s y)\<lparr>m_next := NULL\<rparr>) \<and>
     (case e of
        None \<Rightarrow> mem_live p0 t U (io_mem s') (rev (bufs s' (op_pool port) len xs) @ L) \<and>
          msg_queue_rel (io_msg s') (op_queue port') (qs @ map (xf_msg_pool_item (op_pool port)) xs) \<and>
          (\<forall>x \<in> set xs. routed_msg i len (io_msg s' (xf_msg_pool_item (op_pool port) x)))
      | Some x \<Rightarrow> \<exists>ys zs. xs = ys @ x # zs \<and>
          mem_live p0 t U (io_mem s') (rev (bufs s' (op_pool port) len ys) @ L)))"

lemma same_but_link:
  assumes "a\<lparr>m_next := NULL\<rparr> = b\<lparr>m_next := NULL\<rparr>"
  shows "routed_msg i len a = routed_msg i len b" and "m_buffer a = m_buffer b" and "m_id a = m_id b"
proof -
  have "m_id a = m_id b" "m_opcode a = m_opcode b" "m_length a = m_length b" "m_buffer a = m_buffer b"
    "m_error a = m_error b"
    using assms by (cases a; cases b; simp)+
  then show "routed_msg i len a = routed_msg i len b" and "m_buffer a = m_buffer b" and "m_id a = m_id b"
    by (simp_all add: routed_msg_def)
qed

lemma route_buffers_ok:
  assumes top: "region_top p0" and rq: "mem_request len (op_align port)"
  shows "mem_live p0 t U (io_mem s) L \<Longrightarrow> msg_queue_rel (io_msg s) (op_queue port) qs \<Longrightarrow>
    distinct (qs @ map (xf_msg_pool_item (op_pool port)) xs) \<Longrightarrow>
    NULL \<notin> set (map (xf_msg_pool_item (op_pool port)) xs) \<Longrightarrow>
    \<exists>res. route_buffers xs i len t s port = Some res \<and> route_post s port p0 t U i len qs L xs res"
  using rq
proof (induction xs arbitrary: s port L qs)
  case Nil
  then show ?case by (simp add: route_post_def bufs_def)
next
  case (Cons x xs)
  let ?item = "xf_msg_pool_item (op_pool port)"
  let ?m = "?item x"
  obtain M b where al: "xf_mem_alloc (io_mem s) len (op_align port) t = Some (M, b)" and
    or: "b = NULL \<and> mem_live p0 t U M L \<or> b \<noteq> NULL \<and> mem_live p0 t U M ((b, len) # L)"
    using mem.alloc_live [of p0 t U "io_mem s" L len "op_align port"] Cons.prems(1,5) top by blast
  define c where "c = \<lparr>m_next = NULL, m_id = i, m_opcode = XF_FILL_THIS_BUFFER, m_length = len,
                       m_buffer = b, m_error = 0\<rparr>"
  define s1 where "s1 = s\<lparr>io_mem := M, io_msg := (io_msg s)(?m := c)\<rparr>"
  show ?case
  proof (cases "b = NULL")
    case True
    with al have "route_buffers (x # xs) i len t s port = Some (s1, port, Some x)"
      by (simp add: s1_def c_def)
    moreover have "mem_live p0 t U M L" using or True by blast
    then have "route_post s port p0 t U i len qs L (x # xs) (s1, port, Some x)"
      by (simp add: route_post_def s1_def) (rule exI [of _ "[]"], simp add: bufs_def)
    ultimately show ?thesis by blast
  next
    case False
    have new: "?m \<notin> set qs" "?m \<noteq> NULL" "?m \<notin> ?item ` set xs" using Cons.prems(3,4) by auto
    have "msg_queue_rel (io_msg s1) (op_queue port) qs"
      using queue_rel_frame [OF Cons.prems(2), of "io_msg s1"] new(1) by (auto simp: s1_def)
    from enqueue_rel [OF this new(1,2)] obtain h q where
      eq: "xf_msg_enqueue (io_msg s1) (op_queue port) ?m = (h, q, qs = [])" and
      q: "msg_queue_rel h q (qs @ [?m])" and lk: "links_only (insert ?m (set qs)) (io_msg s1) h" by blast
    define s2 where "s2 = s1\<lparr>io_msg := h\<rparr>"
    define port2 where "port2 = port\<lparr>op_queue := q\<rparr>"
    have p2: "op_pool port2 = op_pool port" "op_length port2 = op_length port" "op_flags port2 = op_flags port"
      "op_align port2 = op_align port" "op_unroute port2 = op_unroute port" "op_queue port2 = q"
      by (simp_all add: port2_def)
    have s2: "io_mem s2 = M" "io_msg s2 = h" by (simp_all add: s2_def s1_def)
    have l2: "(h y)\<lparr>m_next := NULL\<rparr> = (if y = ?m then c else io_msg s y)\<lparr>m_next := NULL\<rparr>" for y
      using lk by (simp add: links_only_def s1_def)
    have "mem_live p0 t U (io_mem s2) ((b, len) # L)" using or False s2 by simp
    from Cons.IH [of s2 "(b, len) # L" port2 "qs @ [?m]", OF this] q Cons.prems(3-5) p2 s2 obtain s3 port3 e where
      r: "route_buffers xs i len t s2 port2 = Some (s3, port3, e)" and
      post: "route_post s2 port2 p0 t U i len (qs @ [?m]) ((b, len) # L) xs (s3, port3, e)"
      by auto
    have "route_buffers (x # xs) i len t s port = Some (s3, port3, e)"
      using al False eq r by (simp add: s1_def s2_def port2_def c_def)
    moreover have "route_post s port p0 t U i len qs L (x # xs) (s3, port3, e)"
    proof -
      have old: "(io_msg s3 y)\<lparr>m_next := NULL\<rparr> = (if y = ?m then c else io_msg s y)\<lparr>m_next := NULL\<rparr>"
        if "y \<notin> ?item ` set xs" for y
        using post that l2 [of y] p2 s2 by (simp add: route_post_def)
      have fr: "\<forall>y. y \<notin> ?item ` set (x # xs) \<longrightarrow> (io_msg s3 y)\<lparr>m_next := NULL\<rparr> = (io_msg s y)\<lparr>m_next := NULL\<rparr>"
        using old by simp
      have m: "routed_msg i len (io_msg s3 ?m)" "m_buffer (io_msg s3 ?m) = b"
        using same_but_link(1) [OF old [OF new(3)], of i len] same_but_link(2) [OF old [OF new(3)]] False
        by (simp_all add: routed_msg_def c_def)
      have bs: "bufs s3 (op_pool port) len (x # ys) = (b, len) # bufs s3 (op_pool port) len ys" for ys
        using m(2) by (simp add: bufs_def)
      show ?thesis
      proof (cases e)
        case None
        with post p2 s2 m(1) bs fr show ?thesis unfolding route_post_def by simp
      next
        case (Some z)
        with post p2 obtain ys zs where "xs = ys @ z # zs"
          "mem_live p0 t U (io_mem s3) (rev (bufs s3 (op_pool port) len ys) @ (b, len) # L)"
          by (auto simp: route_post_def)
        then have "x # xs = (x # ys) @ z # zs \<and>
            mem_live p0 t U (io_mem s3) (rev (bufs s3 (op_pool port) len (x # ys)) @ L)"
          using bs by simp
        then have ex: "\<exists>ys zs. x # xs = ys @ z # zs \<and>
            mem_live p0 t U (io_mem s3) (rev (bufs s3 (op_pool port) len ys) @ L)" by blast
        have "op_pool port3 = op_pool port" "op_length port3 = op_length port" "op_flags port3 = op_flags port"
          "op_align port3 = op_align port" "op_unroute port3 = op_unroute port"
          using post p2 by (simp_all add: route_post_def)
        with ex fr Some show ?thesis unfolding route_post_def by simp
      qed
    qed
    ultimately show ?thesis by blast
  qed
qed

text \<open>The state of a routed port: what its pool and its memory are.\<close>

definition out_routed :: "io \<Rightarrow> out_port \<Rightarrow> mm_pool \<Rightarrow> u32 \<Rightarrow> nat set \<Rightarrow> (addr \<times> u32) list \<Rightarrow> bool" where
  "out_routed s port p0 t U L \<longleftrightarrow> mem_live p0 t U (io_mem s)
     (rev (bufs s (op_pool port) (op_length port) (indices (pl_n (op_pool port) - 1))) @
      (pl_p (op_pool port), XF_MM (sizeof_msg * pl_n (op_pool port))) # L)"

lemma unroute_ok:
  assumes top: "region_top p0" and r: "out_routed s port p0 t U L"
  shows "\<exists>M. xf_output_port_unroute s port t =
      Some (s\<lparr>io_mem := M\<rparr>, port\<lparr>op_flags := XF_OUTPUT_FLAG_CREATED OR XF_OUTPUT_FLAG_IDLE, op_queue := xf_msg_queue_init\<rparr>) \<and>
    mem_live p0 t U M L"
proof -
  let ?pl = "op_pool port"
  obtain M1 where f: "free_buffers (indices (pl_n ?pl - 1)) (op_length port) t port s = Some (s\<lparr>io_mem := M1\<rparr>)"
    and l: "mem_live p0 t U M1 ((pl_p ?pl, XF_MM (sizeof_msg * pl_n ?pl)) # L)"
    using free_buffers_ok [OF top r [unfolded out_routed_def]] by blast
  obtain M2 where "xf_msg_pool_destroy M1 ?pl t = Some M2" "mem_live p0 t U M2 L"
    using mem.free_live [of p0 t U M1 "[]" "(pl_p ?pl, XF_MM (sizeof_msg * pl_n ?pl))" L] l top
    by (auto simp: xf_msg_pool_destroy_def)
  with f show ?thesis by (intro exI [of _ M2]) (simp add: xf_output_port_unroute_def)
qed

text \<open>The indices of the messages that carry buffers.\<close>

lemma indices_items:
  assumes p: "pl_p pool \<noteq> NULL" "unat (pl_p pool) + 64 * unat n < 2 ^ 32" and n: "n \<noteq> 0"
  shows "distinct (map (xf_msg_pool_item pool) (indices (n - 1)))"
    and "NULL \<notin> set (map (xf_msg_pool_item pool) (indices (n - 1)))"
    and "xf_msg_pool_item pool 0 \<notin> set (map (xf_msg_pool_item pool) (indices (n - 1)))"
proof -
  have k: "Suc (unat (n - 1)) = unat n" using n unat_minus_one [of n] unat_gt_0 [of n] by simp
  have m: "map (xf_msg_pool_item pool) (indices (n - 1)) =
      map (\<lambda>i. xf_msg_pool_item pool (word_of_nat i)) [1 ..< unat n]"
    unfolding indices_def k by (simp add: comp_def)
  note inj = item_inj [OF p(2)]
  show "distinct (map (xf_msg_pool_item pool) (indices (n - 1)))"
    unfolding m distinct_map by (rule conjI, simp, rule inj_onI) (use inj in auto)
  have "NULL \<noteq> xf_msg_pool_item pool (word_of_nat i)" if "i < unat n" for i
    using unat_item [OF p(2), of i] that p(1) unat_gt_0 [of "pl_p pool"] by auto
  then show "NULL \<notin> set (map (xf_msg_pool_item pool) (indices (n - 1)))"
    unfolding m set_map by (intro notI, elim imageE) simp
  have "xf_msg_pool_item pool NULL \<noteq> xf_msg_pool_item pool (word_of_nat i)" if "i \<in> {1 ..< unat n}" for i
    using inj [of 0 i] that by simp
  then show "xf_msg_pool_item pool 0 \<notin> set (map (xf_msg_pool_item pool) (indices (n - 1)))"
    unfolding m set_map set_upt by blast
qed

definition flags_unrouted :: "u32 \<Rightarrow> bool" where
  "flags_unrouted f \<longleftrightarrow> f = XF_OUTPUT_FLAG_CREATED \<or> f = XF_OUTPUT_FLAG_CREATED OR XF_OUTPUT_FLAG_IDLE"

lemmas out_flags = XF_OUTPUT_FLAG_CREATED_def XF_OUTPUT_FLAG_ROUTED_def XF_OUTPUT_FLAG_FLUSHING_def
  XF_OUTPUT_FLAG_IDLE_def XF_OUTPUT_FLAG_UNROUTING_def XF_OUTPUT_FLAG_ROUTING_def

lemma route_flags:
  assumes "flags_unrouted f"
  shows "((f OR XF_OUTPUT_FLAG_ROUTING) AND NOT XF_OUTPUT_FLAG_IDLE) =
    XF_OUTPUT_FLAG_CREATED OR XF_OUTPUT_FLAG_ROUTING"
  using assms by (auto simp: flags_unrouted_def out_flags)

lemma route_flags2:
  "(XF_OUTPUT_FLAG_CREATED OR XF_OUTPUT_FLAG_ROUTING) XOR (XF_OUTPUT_FLAG_ROUTING OR XF_OUTPUT_FLAG_ROUTED) =
    XF_OUTPUT_FLAG_CREATED OR XF_OUTPUT_FLAG_ROUTED"
  "(XF_OUTPUT_FLAG_CREATED OR XF_OUTPUT_FLAG_ROUTING) AND XF_OUTPUT_FLAG_ROUTING \<noteq> 0"
  by (simp_all add: out_flags)

text \<open>
  The end of a routing: the buffers are there and their messages wait in order; or nothing is
  allocated; or the cleanup starts with \<open>k\<close> of the \<open>n\<close> buffers allocated, and frees them as if
  their length were 0.
\<close>

definition route_cleanup :: "io \<Rightarrow> out_port \<Rightarrow> u32 \<Rightarrow> u32 \<Rightarrow> (io \<times> out_port \<times> int) option" where
  "route_cleanup s port k t =
     (case free_buffers (rev (indices k)) 0 t port s of
        None \<Rightarrow> None
      | Some s \<Rightarrow>
          (case xf_msg_pool_destroy (io_mem s) (op_pool port) t of
             None \<Rightarrow> None
           | Some M \<Rightarrow> Some (s\<lparr>io_mem := M\<rparr>, port\<lparr>op_queue := xf_msg_queue_init\<rparr>, - 7)))"

definition route_result :: "mm_pool \<Rightarrow> u32 \<Rightarrow> nat set \<Rightarrow> (addr \<times> u32) list \<Rightarrow> u64 \<Rightarrow> u32 \<Rightarrow> u32 \<Rightarrow>
    (io \<times> out_port \<times> int) option \<Rightarrow> bool" where
  "route_result p0 t U L i n len res \<longleftrightarrow>
     (\<exists>s' port'. res = Some (s', port', 0) \<and> out_routed s' port' p0 t U L \<and> pl_n (op_pool port') = n + 1 \<and>
        op_length port' = len \<and> op_flags port' = XF_OUTPUT_FLAG_CREATED OR XF_OUTPUT_FLAG_ROUTED \<and>
        msg_queue_rel (io_msg s') (op_queue port') (map (xf_msg_pool_item (op_pool port')) (indices n)) \<and>
        (\<forall>x \<in> set (indices n). routed_msg i len (io_msg s' (xf_msg_pool_item (op_pool port') x)))) \<or>
     (\<exists>s' port'. res = Some (s', port', - 7) \<and> mem_live p0 t U (io_mem s') L) \<or>
     (\<exists>s' port' k. res = route_cleanup s' port' k t \<and> 0 < k \<and> k < n \<and>
        mem_live p0 t U (io_mem s') (rev (bufs s' (op_pool port') len (indices k)) @
          (pl_p (op_pool port'), XF_MM (sizeof_msg * (n + 1))) # L))"

lemma indices_split:
  assumes "indices n = ys @ x # zs"
  shows "ys = indices (x - 1) \<and> 0 < x \<and> x \<le> n"
proof -
  define k where "k = length ys"
  have len: "length (indices n) = unat n" by (simp add: indices_def)
  then have k: "k < unat n" using assms by (simp add: k_def)
  have "indices n ! k = x" using assms by (simp add: k_def)
  moreover have "indices n ! k = word_of_nat (Suc k)" using k by (simp add: indices_def del: upt_Suc of_nat_Suc)
  ultimately have x: "x = word_of_nat (Suc k)" by simp
  have ys: "ys = take k (indices n)" using assms by (simp add: k_def)
  have sk: "Suc k \<le> unat n" "Suc k < 2 ^ 32" using k unsigned_less [of n, where ?'a = nat] by simp_all
  then have ux: "unat x = Suc k" unfolding x by (simp add: unat_of_nat del: of_nat_Suc)
  then have "unat (x - 1) = k" using unat_minus_one [of x] by (metis diff_Suc_1 nat.distinct(1) unat_0)
  then have "indices (x - 1) = take k (indices n)"
    using k by (simp add: indices_def take_map take_upt del: upt_Suc)
  with ys ux sk show ?thesis by (auto simp: word_less_nat_alt word_le_nat_alt)
qed

lemma route_alloc_ok:
  assumes live: "mem_live p0 t U (io_mem s) ((pl_p (op_pool port), XF_MM (sizeof_msg * (n + 1))) # L)"
    and top: "region_top p0" and pl: "pl_p (op_pool port) \<noteq> NULL" "pl_n (op_pool port) = n + 1"
    and sz: "unat (pl_p (op_pool port)) + 64 * unat (n + 1) < 2 ^ 32" "n + 1 \<noteq> 0"
    and rq: "mem_request len (op_align port)"
    and q: "msg_queue_rel (io_msg s) (op_queue port) []"
    and p: "op_length port = 0" "op_flags port = XF_OUTPUT_FLAG_CREATED OR XF_OUTPUT_FLAG_ROUTING"
      "m_id (io_msg s (xf_output_port_control_msg port)) = i"
  shows "route_result p0 t U L i n len (xf_output_port_route_alloc s port len t)"
proof -
  let ?pool = "(pl_p (op_pool port), XF_MM (sizeof_msg * (n + 1)))" and ?item = "xf_msg_pool_item (op_pool port)"
  have n: "n + 1 - 1 = n" by simp
  have "distinct ([] @ map ?item (indices n))" "NULL \<notin> set (map ?item (indices n))"
    using indices_items [OF pl(1) sz] unfolding n by simp_all
  from route_buffers_ok [OF top rq live q this] obtain s2 port2 e where
    r: "route_buffers (indices n) i len t s port = Some (s2, port2, e)" and
    post: "route_post s port p0 t U i len [] (?pool # L) (indices n) (s2, port2, e)"
    by (metis prod_cases3)
  have eq: "xf_output_port_route_alloc s port len t = (case e of
      None \<Rightarrow> Some (s2, port2\<lparr>op_length := len, op_flags := XF_OUTPUT_FLAG_CREATED OR XF_OUTPUT_FLAG_ROUTED\<rparr>, 0)
    | Some x \<Rightarrow> route_cleanup s2 port2 (x - 1) t)"
    using r p post route_flags2 pl(2)
    by (simp add: xf_output_port_route_alloc_def route_cleanup_def route_post_def split: option.splits)
  show ?thesis
  proof (cases e)
    case None
    then show ?thesis
      using post pl(2) n unfolding route_result_def eq
      by (intro disjI1) (simp add: route_post_def out_routed_def)
  next
    case (Some x)
    then obtain ys zs where "indices n = ys @ x # zs" and
      lv: "mem_live p0 t U (io_mem s2) (rev (bufs s2 (op_pool port) len ys) @ ?pool # L)" and
      pe: "op_pool port2 = op_pool port" "op_length port2 = 0"
      using post p(1) by (auto simp: route_post_def)
    then have x: "ys = indices (x - 1)" "0 < x" "x \<le> n" using indices_split by blast+
    show ?thesis
    proof (cases "x - 1 = 0")
      case True
      then have "ys = []" using x(1) by (simp add: indices_def)
      with lv obtain M where M: "xf_msg_pool_destroy (io_mem s2) (op_pool port) t = Some M" "mem_live p0 t U M L"
        using mem.free_live [of p0 t U "io_mem s2" "[]" ?pool L] top pl(2)
        by (auto simp: bufs_def xf_msg_pool_destroy_def)
      have "route_cleanup s2 port2 0 t = Some (s2\<lparr>io_mem := M\<rparr>, port2\<lparr>op_queue := xf_msg_queue_init\<rparr>, - 7)"
        using M(1) pe(1) by (simp add: route_cleanup_def indices_def)
      then show ?thesis
        using M(2) unfolding route_result_def eq Some option.case True by (intro disjI2 disjI1) simp
    next
      case False
      have "x - 1 < n" using x(2,3) unat_minus_one [of x] unat_gt_0 [of x]
        by (simp add: word_less_nat_alt word_le_nat_alt)
      moreover have "0 < x - 1" using False by (simp only: word_neq_0_conv)
      moreover have "mem_live p0 t U (io_mem s2) (rev (bufs s2 (op_pool port2) len (indices (x - 1))) @
          (pl_p (op_pool port2), XF_MM (sizeof_msg * (n + 1))) # L)"
        using lv pe(1) x(1) by simp
      ultimately show ?thesis unfolding route_result_def eq Some option.case by blast
    qed
  qed
qed

lemma route_ok:
  assumes live: "mem_live p0 t U (io_mem s) L" and top: "region_top p0"
    and n: "unat n + 1 < 2 ^ 24" and rq: "mem_request len align" "len \<noteq> 0"
    and q: "op_queue port = xf_msg_queue_init" and fl: "flags_unrouted (op_flags port)"
  shows "route_result p0 t U L i n len (xf_output_port_route s port i n len align t)"
proof -
  have n1: "unat (n + 1) = unat n + 1" using n unat_add_lem [of n 1] by simp
  then have "n + 1 \<noteq> 0" "unat (n + 1) < 2 ^ 24" using n by (metis add_eq_0_iff_both_eq_0 unat_0 zero_neq_one, simp)
  from xf_msg_pool_init_ok [OF live top this, of "io_msg s" "op_pool port"] obtain M h pool r where
    i: "xf_msg_pool_init (io_mem s) (io_msg s) (op_pool port) (n + 1) t = Some (M, h, pool, r)" and
    or: "r = - 7 \<and> mem_live p0 t U M L \<or>
      r = 0 \<and> pl_n pool = n + 1 \<and> pl_p pool \<noteq> NULL \<and> unat (pl_p pool) + 64 * unat (n + 1) < 2 ^ 32 \<and>
       mem_live p0 t U M ((pl_p pool, XF_MM (sizeof_msg * (n + 1))) # L)" by blast
  show ?thesis
  proof (cases "r = 0")
    case False
    with or i show ?thesis
      unfolding route_result_def by (intro disjI2 disjI1) (simp add: xf_output_port_route_def)
  next
    case True
    let ?m = "xf_msg_pool_item pool 0"
    define s1 where "s1 = s\<lparr>io_mem := M, io_msg := h(?m := (h ?m)\<lparr>m_id := i, m_length := 0, m_buffer := NULL,
      m_error := 0, m_next := NULL\<rparr>)\<rparr>"
    define port1 where "port1 = port\<lparr>op_pool := pool, op_length := 0,
      op_align := align, op_flags := XF_OUTPUT_FLAG_CREATED OR XF_OUTPUT_FLAG_ROUTING\<rparr>"
    have "xf_output_port_route s port i n len align t = xf_output_port_route_alloc s1 port1 len t"
      using i True rq(2) route_flags [OF fl]
      by (simp add: xf_output_port_route_def xf_output_port_control_msg_def s1_def port1_def Let_def)
    moreover have "route_result p0 t U L i n len (xf_output_port_route_alloc s1 port1 len t)"
      by (rule route_alloc_ok [OF _ top])
        (use or True rq q \<open>n + 1 \<noteq> 0\<close> in \<open>simp_all add: s1_def port1_def xf_output_port_control_msg_def\<close>)
    ultimately show ?thesis by simp
  qed
qed

text \<open>What is live depends on the pool and the records only.\<close>

lemma mem_live_cong:
  "local_pool M' t = local_pool M t \<Longrightarrow> mem_info M' = mem_info M \<Longrightarrow> mem_live p0 t U M' L = mem_live p0 t U M L"
  by (simp add: mem_live_def info_at_def cong: map_cong)

lemma failed_alloc_live:
  assumes "mem_live p0 t U M L" and "mem_request len align" and "region_top p0"
    and "xf_mem_alloc M len align t = Some (M', NULL)"
  shows "mem_live p0 t U M' L" and "mem_info M' = mem_info M"
proof -
  obtain k where k: "k \<le> 12" "align = 2 ^ k" "unat len + 2 ^ k + 71 < 2 ^ 32"
    using assms(2) unfolding mem_request_def by blast
  from xf_mem_alloc_done [OF assms(1) k(1,3)] assms(3,4) k(2) obtain pool a where
    "alloc_done p0 t U M L len k pool a M' NULL" by (auto simp: region_top_def)
  then show "mem_live p0 t U M' L" and "mem_info M' = mem_info M" by (auto simp: alloc_done_def)
qed

text \<open>Freeing at an address whose bytes name the block of another buffer frees that one.\<close>

lemma free_by_stale_record:
  assumes "mem_live p0 t U M (L @ x # L')" and "mem_info M b = mem_info M (fst x + snd x)"
  shows "\<exists>M'. xf_mem_free M b 0 t = Some M' \<and> mem_live p0 t U M' (L @ L')"
proof -
  obtain M1 where M1: "xf_mem_free M (fst x) (snd x) t = Some M1" "mem_live p0 t U M1 (L @ L')"
    using xf_mem_free_ok [OF assms(1), of "length L"] by (auto simp: nth_append)
  then obtain M2 where "xf_mem_free M b 0 t = Some M2" "local_pool M2 t = local_pool M1 t" "mem_info M2 = mem_info M1"
    using assms(2) by (auto simp: xf_mem_free_def Let_def split: option.splits)
  with M1(2) mem_live_cong show ?thesis by blast
qed

text \<open>A routing whose second allocation fails starts the cleanup with one buffer.\<close>

lemma indices_2: "2 \<le> n \<Longrightarrow> \<exists>xs. indices n = 1 # 2 # xs"
proof -
  assume "2 \<le> n"
  then have "2 \<le> unat n" by (simp add: word_le_nat_alt)
  then obtain k where "unat n = Suc (Suc k)" by (metis Suc_le_D numeral_2_eq_2 Suc_le_mono)
  then show ?thesis by (auto simp: indices_def upt_conv_Cons simp del: upt_Suc)
qed

lemma route_second_fails:
  assumes i: "xf_msg_pool_init (io_mem s) (io_msg s) (op_pool port) (n + 1) t = Some (M1, h, pool, 0)"
    and pl: "pl_n pool = n + 1" "pl_p pool \<noteq> NULL" "unat (pl_p pool) + 64 * unat (n + 1) < 2 ^ 32"
    and n: "2 \<le> n" "n + 1 \<noteq> 0" and al: "xf_mem_alloc M1 len align t = Some (M2, b)" "b \<noteq> NULL"
      "xf_mem_alloc M2 len align t = Some (M3, NULL)"
    and len: "len \<noteq> 0" and q: "op_queue port = xf_msg_queue_init" and fl: "flags_unrouted (op_flags port)"
  shows "\<exists>s2 port2. xf_output_port_route s port i n len align t = route_cleanup s2 port2 1 t \<and>
    io_mem s2 = M3 \<and> op_pool port2 = pool \<and> m_buffer (io_msg s2 (xf_msg_pool_item pool 1)) = b"
proof -
  obtain xs where xs: "indices n = 1 # 2 # xs" using indices_2 [OF n(1)] by blast
  have "distinct (map (xf_msg_pool_item pool) (indices n))"
    using indices_items(1) [OF pl(2,3) n(2)] by simp
  then have d: "xf_msg_pool_item pool 1 \<noteq> xf_msg_pool_item pool 2" by (simp add: xs)
  define c where "c = (\<lambda>b. \<lparr>m_next = NULL, m_id = i, m_opcode = XF_FILL_THIS_BUFFER, m_length = len,
    m_buffer = b, m_error = 0\<rparr>)"
  let ?m0 = "xf_msg_pool_item pool 0" and ?m1 = "xf_msg_pool_item pool 1" and ?m2 = "xf_msg_pool_item pool 2"
  let ?s = "s\<lparr>io_mem := M3, io_msg := h(?m0 := (h ?m0)\<lparr>m_id := i, m_length := NULL, m_buffer := NULL,
    m_error := NULL, m_next := NULL\<rparr>, ?m1 := c b, ?m2 := c NULL)\<rparr>"
  let ?port = "port\<lparr>op_pool := pool, op_length := NULL, op_align := align,
    op_flags := XF_OUTPUT_FLAG_CREATED OR XF_OUTPUT_FLAG_ROUTING, op_queue := \<lparr>q_head = ?m1, q_tail = ?m1\<rparr>\<rparr>"
  have "xf_output_port_route s port i n len align t = route_cleanup ?s ?port 1 t"
    using i pl(1) al len q route_flags [OF fl] route_flags2 d d [symmetric]
    by (simp add: xf_output_port_route_def xf_output_port_control_msg_def xf_output_port_route_alloc_def
        route_cleanup_def xs xf_msg_enqueue_def xf_msg_queue_init_def Let_def c_def)
  moreover have "m_buffer (io_msg ?s ?m1) = b" using d by (simp add: c_def)
  ultimately show ?thesis by fastforce
qed

lemma purge_flags:
  defines "g f \<equiv> (f AND NOT (XF_INPUT_FLAGS (NOT 0))) OR XF_INPUT_FLAG_ENABLED OR XF_INPUT_FLAG_CREATED"
  shows "g f AND (XF_INPUT_FLAG_ENABLED OR XF_INPUT_FLAG_CREATED) = XF_INPUT_FLAG_ENABLED OR XF_INPUT_FLAG_CREATED"
    and "g f AND (XF_INPUT_FLAG_EOS OR XF_INPUT_FLAG_DONE OR XF_INPUT_FLAG_PURGING) = 0"
proof -
  have m: "XF_INPUT_FLAGS (NOT 0) = mask 5" by (simp add: XF_INPUT_FLAGS_def mask_eq_decr_exp)
  note d = XF_INPUT_FLAG_CREATED_def XF_INPUT_FLAG_ENABLED_def XF_INPUT_FLAG_EOS_def XF_INPUT_FLAG_DONE_def
    XF_INPUT_FLAG_PURGING_def
  show "g f AND (XF_INPUT_FLAG_ENABLED OR XF_INPUT_FLAG_CREATED) = XF_INPUT_FLAG_ENABLED OR XF_INPUT_FLAG_CREATED"
    unfolding g_def m d by (rule bit_word_eqI) (auto simp: bit_simps)
  show "g f AND (XF_INPUT_FLAG_EOS OR XF_INPUT_FLAG_DONE OR XF_INPUT_FLAG_PURGING) = 0"
    unfolding g_def m d by (rule bit_word_eqI) (simp only: bit_simps, auto)
qed

lemma route_cleanup_error: "Some (s, port, r) = route_cleanup s' port' k t \<Longrightarrow> r = - 7"
  by (auto simp: route_cleanup_def split: option.splits)

lemma and_pow2_bit: "w AND push_bit k 1 = 0 \<longleftrightarrow> \<not> bit w k" if "k < 32" for w :: u32
  using that by (metis and_exp_eq_0_iff_not_bit push_bit_of_1)

lemma and_flags:
  "w AND push_bit 1 1 = 0 \<longleftrightarrow> \<not> bit w 1" "w AND push_bit 4 1 = 0 \<longleftrightarrow> \<not> bit w 4"
  "w AND push_bit 5 1 = 0 \<longleftrightarrow> \<not> bit w 5" for w :: u32
  by (rule and_pow2_bit, simp)+

lemma flush_flags:
  assumes "f AND XF_OUTPUT_FLAG_ROUTED \<noteq> 0" "f AND XF_OUTPUT_FLAG_IDLE = 0" "f AND XF_OUTPUT_FLAG_FLUSHING = 0"
  defines "g \<equiv> f XOR XF_OUTPUT_FLAG_FLUSHING"
    and "d \<equiv> (f XOR XF_OUTPUT_FLAG_FLUSHING) XOR (XF_OUTPUT_FLAG_IDLE OR XF_OUTPUT_FLAG_FLUSHING)"
  shows "g AND XF_OUTPUT_FLAG_ROUTED \<noteq> 0" "g AND XF_OUTPUT_FLAG_IDLE = 0" "g AND XF_OUTPUT_FLAG_FLUSHING \<noteq> 0"
    "d AND XF_OUTPUT_FLAG_ROUTED \<noteq> 0" "d AND XF_OUTPUT_FLAG_IDLE \<noteq> 0" "d AND XF_OUTPUT_FLAG_FLUSHING = 0"
    "(d XOR XF_OUTPUT_FLAG_FLUSHING) AND XF_OUTPUT_FLAG_FLUSHING \<noteq> 0"
proof -
  have f: "bit f 1" "\<not> bit f 5" "\<not> bit f 4"
    using assms(1-3) unfolding out_flags and_flags by blast+
  have g: "bit g k \<longleftrightarrow> (bit f k \<noteq> (k = 4))" and d: "bit d k \<longleftrightarrow> (bit f k \<noteq> (k = 5))" if "k < 32" for k
    using that unfolding g_def d_def out_flags by (simp_all only: bit_simps, auto)
  show "g AND XF_OUTPUT_FLAG_ROUTED \<noteq> 0" "g AND XF_OUTPUT_FLAG_IDLE = 0" "g AND XF_OUTPUT_FLAG_FLUSHING \<noteq> 0"
    "d AND XF_OUTPUT_FLAG_ROUTED \<noteq> 0" "d AND XF_OUTPUT_FLAG_IDLE \<noteq> 0" "d AND XF_OUTPUT_FLAG_FLUSHING = 0"
    using f g d unfolding out_flags and_flags by simp_all
  have "bit (d XOR XF_OUTPUT_FLAG_FLUSHING) 4"
    using f d [of 4] unfolding out_flags by (simp only: bit_simps, auto)
  then show "(d XOR XF_OUTPUT_FLAG_FLUSHING) AND XF_OUTPUT_FLAG_FLUSHING \<noteq> 0"
    unfolding out_flags and_flags by blast
qed

section \<open>Properties of ports\<close>

text \<open>
  C22. Filling a buffered input port neither loses nor reorders a byte: what the port holds (its
  buffer, the rest of the current message, the messages behind it) stays the same byte stream. The
  messages used up are answered in the order of the queue, each once, with their contents; the
  call reports success exactly when the buffer is full or the message at the head of the queue has
  no bytes, which then marks the end of the stream; otherwise no message is left.
\<close>

theorem input_fill_keeps_stream:
  assumes "in_port_ok s port ms"
  shows "\<exists>s' port' full fin ms'. xf_input_port_fill s port = (s', port', full) \<and>
    ms = fin @ ms' \<and> in_port_ok s' port' ms' \<and> in_data s' port' ms' = in_data s port ms \<and>
    io_done s' = io_done s @ map (answered s) fin \<and> links_only (set fin) (io_msg s) (io_msg s') \<and>
    (full \<longrightarrow> ip_filled port' = ip_length port \<and> ip_flags port' = ip_flags port \<or>
       ms' \<noteq> [] \<and> ip_remaining port' = 0 \<and>
       ip_flags port' = ip_flags port XOR (XF_INPUT_FLAG_EOS OR XF_INPUT_FLAG_DONE)) \<and>
    (\<not> full \<longrightarrow> ms' = [] \<and> ip_flags port' = ip_flags port)"
  by (rule fill_ok [OF assms])

text \<open>A port with a buffer of 8 bytes at 4096, 3 of them filled, and two messages of 4 bytes.\<close>

definition demo_msgs :: msg_heap where
  "demo_msgs = (\<lambda>_. \<lparr>m_next = 0, m_id = 0, m_opcode = 0, m_length = 0, m_buffer = 0, m_error = 0\<rparr>)
     (64 := \<lparr>m_next = 128, m_id = 0, m_opcode = 0, m_length = 4, m_buffer = 8192, m_error = 0\<rparr>,
      128 := \<lparr>m_next = 0, m_id = 0, m_opcode = 0, m_length = 4, m_buffer = 8448, m_error = 0\<rparr>)"

definition demo_io :: "dsp_mem \<Rightarrow> io" where
  "demo_io M = \<lparr>io_msg = demo_msgs, io_bytes = ucast, io_done = [], io_mem = M\<rparr>"

definition demo_in :: in_port where
  "demo_in = \<lparr>ip_queue = \<lparr>q_head = 64, q_tail = 128\<rparr>, ip_buffer = 4096, ip_length = 8, ip_filled = 3,
     ip_access = 8192, ip_remaining = 4, ip_flags = 3\<rparr>"

lemma demo_in_ok: "in_port_ok (demo_io M) demo_in [64, 128]"
  by (simp add: in_port_ok_def in_ok_def demo_io_def demo_in_def demo_msgs_def msg_queue_rel_def separate_def
      no_wrap_def span_def)

theorem input_fill_keeps_stream_witness:
  "\<exists>M s' port' full fin ms'. xf_input_port_fill (demo_io M) demo_in = (s', port', full) \<and>
    [64, 128] = fin @ ms' \<and> in_data s' port' ms' = in_data (demo_io M) demo_in [64, 128]"
  using input_fill_keeps_stream [OF demo_in_ok [of undefined]] by blast

text \<open>
  Consuming at most the buffered bytes drops exactly that many bytes from the front of the
  stream of the port, and touches no message.
\<close>

theorem input_consume_drops:
  assumes "in_port_ok s port ms" and "unat n \<le> unat (ip_filled port)"
  shows "\<exists>s' port'. xf_input_port_consume s port n = (s', port') \<and> in_port_ok s' port' ms \<and>
    in_data s' port' ms = drop (unat n) (in_data s port ms) \<and>
    unat (ip_filled port') = unat (ip_filled port) - unat n \<and> io_msg s' = io_msg s \<and> io_done s' = io_done s"
  by (rule consume_ok [OF assms])

theorem input_consume_drops_witness:
  "\<exists>M s' port'. xf_input_port_consume (demo_io M) demo_in 1 = (s', port') \<and> unat (ip_filled port') = 2 \<and>
    in_data s' port' [64, 128] = drop 1 (in_data (demo_io M) demo_in [64, 128])"
proof -
  have "unat (1 :: u32) \<le> unat (ip_filled demo_in)" by (simp add: demo_in_def)
  from input_consume_drops [OF demo_in_ok this] show ?thesis by (fastforce simp: demo_in_def)
qed

text \<open>
  Purging an input port returns: every queued message is answered once, in order, with
  length 0; the queue and the buffer are empty, and the port is enabled again.
\<close>

theorem input_purge_answers_all:
  assumes "msg_queue_rel (io_msg s) (ip_queue port) ms" and "xf_input_port_created port"
  shows "\<exists>s' port'. xf_input_port_purge s port = Some (s', port') \<and>
    msg_queue_rel (io_msg s') (ip_queue port') [] \<and> io_done s' = io_done s @ map (answered_ok s) ms \<and>
    (\<forall>x. x \<notin> set ms \<longrightarrow> io_msg s' x = io_msg s x) \<and> io_mem s' = io_mem s \<and>
    ip_filled port' = 0 \<and> ip_access port' = NULL \<and> ip_remaining port' = ip_remaining port \<and>
    ip_flags port' AND (XF_INPUT_FLAG_ENABLED OR XF_INPUT_FLAG_CREATED) =
      XF_INPUT_FLAG_ENABLED OR XF_INPUT_FLAG_CREATED \<and>
    ip_flags port' AND (XF_INPUT_FLAG_EOS OR XF_INPUT_FLAG_DONE OR XF_INPUT_FLAG_PURGING) = 0"
proof -
  obtain s' q' where r: "answer_all s (ip_queue port) = Some (s', q')" "msg_queue_rel (io_msg s') q' []"
    "io_done s' = io_done s @ map (answered_ok s) ms" "\<forall>x. x \<notin> set ms \<longrightarrow> io_msg s' x = io_msg s x"
    "io_mem s' = io_mem s"
    using answer_all_ok [OF assms(1)] by blast
  note fl = purge_flags [of "ip_flags port"]
  show ?thesis
    using r assms(2) fl by (simp add: xf_input_port_purge_def)
qed

theorem input_purge_answers_all_witness:
  "\<exists>M s' port'. xf_input_port_purge (demo_io M) demo_in = Some (s', port') \<and> ip_filled port' = 0 \<and>
    io_done s' = map (answered_ok (demo_io M)) [64, 128]"
proof -
  have "msg_queue_rel (io_msg (demo_io M)) (ip_queue demo_in) [64, 128]"
    using demo_in_ok by (simp add: in_port_ok_def in_ok_def)
  moreover have "xf_input_port_created demo_in"
    by (simp add: xf_input_port_created_def demo_in_def XF_INPUT_FLAG_CREATED_def)
  ultimately show ?thesis using input_purge_answers_all [of "demo_io M" demo_in "[64, 128]"]
    by (auto simp: demo_io_def)
qed

text \<open>
  Purging does not reset the count of unread bytes of the current message. A port without a
  buffer of its own whose current message was read in part then reports data at its next fill,
  although no message is left and the access pointer is null.
\<close>

theorem purged_bypass_port_claims_data:
  assumes "msg_queue_rel (io_msg s) (ip_queue port) ms" and "xf_input_port_created port"
    and "xf_input_port_bypass port" and "ip_remaining port \<noteq> 0"
  shows "\<exists>s' port'. xf_input_port_purge s port = Some (s', port') \<and>
    xf_input_port_fill s' port' = (s', port', True) \<and> ip_access port' = NULL \<and>
    msg_queue_rel (io_msg s') (ip_queue port') []"
proof -
  obtain s' q' where "answer_all s (ip_queue port) = Some (s', q')" "msg_queue_rel (io_msg s') q' []"
    using answer_all_ok [OF assms(1)] by blast
  with assms show ?thesis
    by (simp add: xf_input_port_purge_def xf_input_port_fill_def xf_input_port_bypass_def)
qed

theorem purged_bypass_port_claims_data_witness:
  "\<exists>M s' port'. xf_input_port_purge (demo_io M) (demo_in\<lparr>ip_buffer := NULL\<rparr>) = Some (s', port') \<and>
    xf_input_port_fill s' port' = (s', port', True) \<and> ip_access port' = NULL"
proof -
  have "msg_queue_rel (io_msg (demo_io M)) (ip_queue (demo_in\<lparr>ip_buffer := NULL\<rparr>)) [64, 128]"
    using demo_in_ok by (simp add: in_port_ok_def in_ok_def)
  moreover have "xf_input_port_created (demo_in\<lparr>ip_buffer := NULL\<rparr>)" "xf_input_port_bypass (demo_in\<lparr>ip_buffer := NULL\<rparr>)"
    "ip_remaining (demo_in\<lparr>ip_buffer := NULL\<rparr>) \<noteq> 0"
    by (simp_all add: xf_input_port_created_def demo_in_def XF_INPUT_FLAG_CREATED_def xf_input_port_bypass_def)
  ultimately show ?thesis using purged_bypass_port_claims_data by blast
qed

section \<open>A port that can be routed\<close>

definition demo_out :: out_port where
  "demo_out = \<lparr>op_queue = xf_msg_queue_init, op_pool = \<lparr>pl_p = 0, pl_head = 0, pl_n = 0\<rparr>, op_unroute = 0,
     op_length = 0, op_flags = 33, op_align = 0\<rparr>"

lemma demo_out_unrouted: "flags_unrouted (op_flags demo_out)" "op_queue demo_out = xf_msg_queue_init"
  by (simp_all add: flags_unrouted_def demo_out_def out_flags)

lemma demo_request: "mem_request 16 4"
  unfolding mem_request_def by (rule exI [of _ 2]) simp

definition demo_pool2 :: mm_pool where
  "demo_pool2 = demo_pool\<lparr>mm_size := 512\<rparr>"

lemma demo_pool2_live:
  obtains p where "mem_live demo_pool2 0 (span 4096 512) (demo_mem p) []" "mm_inv p [(4096, 512)]"
proof -
  have ok: "pool_ok (demo_pool2\<lparr>mm_addr := 4096, mm_size := 512\<rparr>)"
    by (simp add: pool_ok_def demo_pool2_def demo_pool_def mm_region_def span_def bend_def)
  have eq: "demo_pool2\<lparr>mm_addr := 4096, mm_size := 512\<rparr> = demo_pool2" by (simp add: demo_pool2_def demo_pool_def)
  have "granule 512" by (simp add: granule_def)
  with demo_granule obtain p where p: "xf_mm_init demo_pool2 4096 512 = Inr (Some p)" "mm_inv p [(4096, 512)]"
    "l_map p = l_map demo_pool2" "a_map p = a_map demo_pool2"
    using xf_mm_init_ok [OF ok] by auto
  then have "mm_rel demo_pool2 p (span 4096 512)"
    by (auto simp: mm_rel_def span_blk mm_region_def demo_pool2_def demo_pool_def intro!: exI [of _ "[(4096, 512)]"])
  then have "mem_live demo_pool2 0 (span 4096 512) (demo_mem p) []"
    using mm_client_start [OF ok [unfolded eq]] ok [unfolded eq] by (simp add: mem_live_def demo_mem_def)
  with p that show thesis by blast
qed

lemma demo_route:
  obtains M s' port' where "mem_live demo_pool2 0 (span 4096 512) M []"
    "xf_output_port_route (demo_io M) demo_out 7 1 16 4 0 = Some (s', port', 0)"
proof -
  obtain p where p: "mem_live demo_pool2 0 (span 4096 512) (demo_mem p) []" "mm_inv p [(4096, 512)]"
    by (rule demo_pool2_live)
  have "64 dvd unat (256 :: u32)" "64 dvd unat (64 :: u32)" by simp_all
  from xf_mm_alloc_ok [OF p(2) this(1)] obtain p1 where
    a1: "xf_mm_alloc p 256 = Some (p1, 4352)" "mm_inv p1 (fl_take [(4096, 512)] (4096, 512) 256)" by auto
  then have "mm_inv p1 [(4096, 256)]" by (simp add: fl_take_def)
  from xf_mm_alloc_ok [OF this \<open>64 dvd unat (64 :: u32)\<close>] obtain p2 where
    a2: "xf_mm_alloc p1 64 = Some (p2, 4288)" by auto
  have "\<exists>s' port'. xf_output_port_route (demo_io (demo_mem p)) demo_out 7 1 16 4 0 = Some (s', port', 0)"
    using a1(1) a2
    by (simp add: xf_output_port_route_def xf_output_port_route_alloc_def xf_msg_pool_init_def xf_mem_alloc_def
        demo_mem_def demo_io_def demo_out_def XF_MM_def sizeof_item_64 sizeof_msg_def XF_MAX_ALIGNMENT_def
        XF_MIN_ALIGNMENT_def mem_count_alloc_def out_flags indices_def xf_msg_pool_item_def
        xf_output_port_control_msg_def xf_msg_enqueue_def xf_msg_queue_init_def Let_def split_beta)
  with p(1) that show thesis by blast
qed

text \<open>
  Routing an unrouted output port to \<open>n\<close> buffers either succeeds: the port owns a message pool
  and \<open>n\<close> live buffers, whose messages carry the identifier of the connection and wait in the queue
  of the port in order; or returns the memory error with nothing allocated; or runs the cleanup
  with some of the buffers allocated, which frees them with the length 0 of the port and not with
  the length of the buffers.
\<close>

theorem output_route_outcomes:
  assumes "mem_live p0 t U (io_mem s) L" and "region_top p0" and "unat n + 1 < 2 ^ 24"
    and "mem_request len align" and "len \<noteq> 0" and "op_queue port = xf_msg_queue_init"
    and "flags_unrouted (op_flags port)"
  shows "(\<exists>s' port'. xf_output_port_route s port i n len align t = Some (s', port', 0) \<and>
        out_routed s' port' p0 t U L \<and> pl_n (op_pool port') = n + 1 \<and>
        op_length port' = len \<and> op_flags port' = XF_OUTPUT_FLAG_CREATED OR XF_OUTPUT_FLAG_ROUTED \<and>
        msg_queue_rel (io_msg s') (op_queue port') (map (xf_msg_pool_item (op_pool port')) (indices n)) \<and>
        (\<forall>x \<in> set (indices n). routed_msg i len (io_msg s' (xf_msg_pool_item (op_pool port') x)))) \<or>
     (\<exists>s' port'. xf_output_port_route s port i n len align t = Some (s', port', - 7) \<and>
        mem_live p0 t U (io_mem s') L) \<or>
     (\<exists>s' port' k. xf_output_port_route s port i n len align t = route_cleanup s' port' k t \<and> 0 < k \<and> k < n \<and>
        mem_live p0 t U (io_mem s') (rev (bufs s' (op_pool port') len (indices k)) @
          (pl_p (op_pool port'), XF_MM (sizeof_msg * (n + 1))) # L))"
  using route_ok [OF assms] unfolding route_result_def .

theorem output_route_outcomes_witness:
  "\<exists>M s' port' r. xf_output_port_route (demo_io M) demo_out 7 1 16 4 0 = Some (s', port', r) \<and>
     (r = 0 \<and> op_length port' = 16 \<or> r = - 7 \<and> mem_live demo_pool 0 (span 4096 256) (io_mem s') [])"
proof -
  obtain p where p: "mem_live demo_pool 0 (span 4096 256) (io_mem (demo_io (demo_mem p))) []"
    using demo_mem_live by (auto simp: demo_io_def)
  have n: "unat (1 :: u32) + 1 < 2 ^ 24" "(16 :: u32) \<noteq> 0" by simp_all
  have "\<not> (0 < k \<and> k < (1 :: u32))" for k by (auto simp: word_less_1)
  with output_route_outcomes [OF p demo_region_top n(1) demo_request n(2) demo_out_unrouted(2,1), of 7]
  show ?thesis by blast
qed

definition demo_pool3 :: mm_pool where
  "demo_pool3 = demo_pool\<lparr>mm_size := 576\<rparr>"

lemma demo_pool3_live:
  obtains p where "mem_live demo_pool3 0 (span 4096 576) (demo_mem p) []" "mm_inv p [(4096, 576)]"
proof -
  have ok: "pool_ok (demo_pool3\<lparr>mm_addr := 4096, mm_size := 576\<rparr>)"
    by (simp add: pool_ok_def demo_pool3_def demo_pool_def mm_region_def span_def bend_def)
  have eq: "demo_pool3\<lparr>mm_addr := 4096, mm_size := 576\<rparr> = demo_pool3" by (simp add: demo_pool3_def demo_pool_def)
  have "granule 576" by (simp add: granule_def)
  with demo_granule obtain p where p: "xf_mm_init demo_pool3 4096 576 = Inr (Some p)" "mm_inv p [(4096, 576)]"
    "l_map p = l_map demo_pool3" "a_map p = a_map demo_pool3"
    using xf_mm_init_ok [OF ok] by auto
  then have "mm_rel demo_pool3 p (span 4096 576)"
    by (auto simp: mm_rel_def span_blk mm_region_def demo_pool3_def demo_pool_def intro!: exI [of _ "[(4096, 576)]"])
  then have "mem_live demo_pool3 0 (span 4096 576) (demo_mem p) []"
    using mm_client_start [OF ok [unfolded eq]] ok [unfolded eq] by (simp add: mem_live_def demo_mem_def)
  with p that show thesis by blast
qed

text \<open>A block from the end of the only free block.\<close>

lemma alloc_lone:
  assumes "mm_inv p [(4096, sz)]" and "64 dvd unat n" and "n < sz"
  obtains p' where "xf_mm_alloc p n = Some (p', 4096 + (sz - n))" "mm_inv p' [(4096, sz - n)]"
proof -
  have "fl_take [(4096, sz)] (4096, sz) n = [(4096, sz - n)]" using assms(3) by (auto simp: fl_take_def)
  with xf_mm_alloc_ok [OF assms(1,2)] assms(3) that show thesis by auto
qed

text \<open>
  C26. A routing that fails at the second buffer frees the wrong block. The cleanup frees the
  first buffer \<open>b\<close> with the length of the port, which is still 0, so \<^verbatim>\<open>xf_mem_free\<close> takes the bytes at the
  start of \<open>b\<close> for the record of the allocation. When these bytes, which nobody wrote since the
  allocation, name the block of a buffer \<open>x0\<close> that somebody else holds, the call returns
  \<^verbatim>\<open>XAF_MEMORY_ERR\<close> with \<open>x0\<close> freed under its owner and with \<open>b\<close> still allocated, though the port has forgotten it.
\<close>

theorem route_failure_frees_wrong_block:
  assumes "mem_live p0 t U (io_mem s) (L1 @ x0 # L2)" and "region_top p0" and "unat n + 1 < 2 ^ 24" and "2 \<le> n"
    and "mem_request len align" and "len \<noteq> 0" and "op_queue port = xf_msg_queue_init"
    and "flags_unrouted (op_flags port)"
    and "xf_msg_pool_init (io_mem s) (io_msg s) (op_pool port) (n + 1) t = Some (M1, h, pool, 0)"
    and "xf_mem_alloc M1 len align t = Some (M2, b)" and "b \<noteq> NULL"
    and "xf_mem_alloc M2 len align t = Some (M3, NULL)"
    and "mem_info M2 b = mem_info M2 (fst x0 + snd x0)"
  shows "\<exists>s' port'. xf_output_port_route s port i n len align t = Some (s', port', - 7) \<and>
    op_queue port' = xf_msg_queue_init \<and> mem_live p0 t U (io_mem s') ((b, len) # L1 @ L2)"
proof -
  let ?P = "(pl_p pool, XF_MM (sizeof_msg * (n + 1)))"
  have u1: "unat (n + 1) = unat n + 1" using assms(3) unat_add_lem [of n 1] by simp
  then have n1: "n + 1 \<noteq> 0" "unat (n + 1) < 2 ^ 24"
    using assms(3) by (metis add_eq_0_iff_both_eq_0 unat_0 zero_neq_one, simp)
  have pl: "pl_n pool = n + 1" "pl_p pool \<noteq> NULL" "unat (pl_p pool) + 64 * unat (n + 1) < 2 ^ 32"
    and l1: "mem_live p0 t U M1 (?P # L1 @ x0 # L2)"
    using xf_msg_pool_init_ok [OF assms(1,2) n1, of "io_msg s" "op_pool port"] assms(9) by auto
  have l2: "mem_live p0 t U M2 ((b, len) # ?P # L1 @ x0 # L2)"
    using mem.alloc_live [of p0 t U M1 "?P # L1 @ x0 # L2" len align] assms(2,5,10,11) l1 by auto
  have l3: "mem_live p0 t U M3 ((b, len) # ?P # L1 @ x0 # L2)" and i3: "mem_info M3 = mem_info M2"
    using failed_alloc_live [OF l2 assms(5,2,12)] by blast+
  obtain s2 port2 where r: "xf_output_port_route s port i n len align t = route_cleanup s2 port2 1 t"
    and s2: "io_mem s2 = M3" "op_pool port2 = pool" "m_buffer (io_msg s2 (xf_msg_pool_item pool 1)) = b"
    using route_second_fails [OF assms(9) pl assms(4) n1(1) assms(10-12,6-8)] by blast
  obtain M4 where M4: "xf_mem_free M3 b 0 t = Some M4" and l4: "mem_live p0 t U M4 ((b, len) # ?P # L1 @ L2)"
    using free_by_stale_record [of p0 t U M3 "(b, len) # ?P # L1" x0 L2 b] l3 i3 assms(13) by auto
  obtain M5 where M5: "xf_msg_pool_destroy M4 pool t = Some M5" "mem_live p0 t U M5 ((b, len) # L1 @ L2)"
    using mem.free_live [of p0 t U M4 "[(b, len)]" ?P "L1 @ L2"] l4 assms(2) pl(1)
    by (auto simp: xf_msg_pool_destroy_def)
  have "route_cleanup s2 port2 1 t = Some (s2\<lparr>io_mem := M5\<rparr>, port2\<lparr>op_queue := xf_msg_queue_init\<rparr>, - 7)"
    using M4 M5(1) s2 by (simp add: route_cleanup_def indices_def)
  with r M5(2) show ?thesis by simp
qed

theorem route_failure_frees_wrong_block_witness:
  "\<exists>M s' port'. mem_live demo_pool3 0 (span 4096 576) M [(4608, 20)] \<and>
     xf_output_port_route (demo_io M) demo_out 7 2 100 16 0 = Some (s', port', - 7) \<and>
     mem_live demo_pool3 0 (span 4096 576) (io_mem s') [(4160, 100)]"
proof -
  obtain p where p: "mem_live demo_pool3 0 (span 4096 576) (demo_mem p) []" "mm_inv p [(4096, 576)]"
    by (rule demo_pool3_live)
  have d: "64 dvd unat (64 :: u32)" "64 dvd unat (320 :: u32)" "64 dvd unat (128 :: u32)" by simp_all
  obtain p1 where p1: "xf_mm_alloc p 64 = Some (p1, 4608)" "mm_inv p1 [(4096, 512)]"
    by (rule alloc_lone [OF p(2) d(1)]) simp_all
  obtain p2 where p2: "xf_mm_alloc p1 320 = Some (p2, 4288)" "mm_inv p2 [(4096, 192)]"
    by (rule alloc_lone [OF p1(2) d(2)]) simp_all
  obtain p3 where p3: "xf_mm_alloc p2 128 = Some (p3, 4160)" "mm_inv p3 [(4096, 64)]"
    by (rule alloc_lone [OF p2(2) d(3)]) simp_all
  have p4: "xf_mm_alloc p3 128 = Some (p3, NULL)" using xf_mm_alloc_ok [OF p3(2) d(3)] by auto
  note al = xf_mem_alloc_def XF_MM_def sizeof_item_64 XF_MAX_ALIGNMENT_def XF_MIN_ALIGNMENT_def Let_def
  define M0 where "M0 = (demo_mem p)\<lparr>mem_info := (\<lambda>_. \<lparr>buf_ptr = 4608, alloc_size = 64\<rparr>)\<rparr>"
  obtain M where M: "xf_mem_alloc M0 20 16 0 = Some (M, 4608)" "local_pool M 0 = p1"
    "mem_info M = (\<lambda>_. \<lparr>buf_ptr = 4608, alloc_size = 64\<rparr>)"
    using p1(1) by (simp add: al M0_def demo_mem_def fun_upd_idem)
  have "mem_live demo_pool3 0 (span 4096 576) M0 []" using p(1) by (simp add: M0_def mem_live_def)
  moreover have top: "region_top demo_pool3" by (simp add: region_top_def demo_pool3_def demo_pool_def bend_def)
  moreover have rq: "mem_request 20 16" "mem_request 100 16"
    unfolding mem_request_def by (rule exI [of _ 4], simp)+
  ultimately have live: "mem_live demo_pool3 0 (span 4096 576) (io_mem (demo_io M)) ([] @ (4608, 20) # [])"
    using mem.alloc_live [of demo_pool3 0 "span 4096 576" M0 "[]" 20 16] M(1) by (auto simp: demo_io_def)
  obtain M1 h pool where M1: "xf_msg_pool_init (io_mem (demo_io M)) (io_msg (demo_io M)) (op_pool demo_out) (2 + 1) 0 =
      Some (M1, h, pool, 0)" "local_pool M1 0 = p2"
    "mem_info M1 = (mem_info M)(4480 := \<lparr>buf_ptr = 4288, alloc_size = 320\<rparr>)"
    using p2(1) M(2) by (simp add: al xf_msg_pool_init_def sizeof_msg_def demo_io_def)
  obtain M2 where M2: "xf_mem_alloc M1 100 16 0 = Some (M2, 4160)" "local_pool M2 0 = p3"
    "mem_info M2 = (mem_info M1)(4260 := \<lparr>buf_ptr = 4160, alloc_size = 128\<rparr>)"
    using p3(1) M1(2) by (simp add: al)
  obtain M3 where M3: "xf_mem_alloc M2 100 16 0 = Some (M3, NULL)" using p4 M2(2) by (simp add: al)
  have n: "unat (2 :: u32) + 1 < 2 ^ 24" "(2 :: u32) \<le> 2" "(100 :: u32) \<noteq> 0" "(4160 :: addr) \<noteq> NULL" by simp_all
  have stale: "mem_info M2 4160 = mem_info M2 (fst (4608, 20) + snd (4608 :: addr, 20))" by (simp add: M2(3) M1(3) M(3))
  from route_failure_frees_wrong_block [OF live top n(1,2) rq(2) n(3) demo_out_unrouted(2,1) M1(1) M2(1) n(4) M3 stale, of 7]
  show ?thesis using live by (auto simp: demo_io_def)
qed

text \<open>
  C27. Routing and unrouting a port gives all memory back: whatever happens to the messages in
  between, as long as they keep their buffers and the rest of the memory is as the port left it,
  unrouting returns and exactly the buffers that were live before are live again.
\<close>

theorem route_unroute_roundtrip:
  assumes "mem_live p0 t U (io_mem s) L" and "region_top p0" and "unat n + 1 < 2 ^ 24"
    and "mem_request len align" and "len \<noteq> 0" and "op_queue port = xf_msg_queue_init"
    and "flags_unrouted (op_flags port)"
    and "xf_output_port_route s port i n len align t = Some (s', port', 0)"
    and "io_mem s2 = io_mem s'" and "op_pool port2 = op_pool port'" and "op_length port2 = op_length port'"
    and "\<forall>x \<in> set (indices n). m_buffer (io_msg s2 (xf_msg_pool_item (op_pool port') x)) =
      m_buffer (io_msg s' (xf_msg_pool_item (op_pool port') x))"
  shows "\<exists>s3 port3. xf_output_port_unroute s2 port2 t = Some (s3, port3) \<and>
    mem_live p0 t U (io_mem s3) L \<and> flags_unrouted (op_flags port3) \<and> op_queue port3 = xf_msg_queue_init"
proof -
  have r: "out_routed s' port' p0 t U L \<and> pl_n (op_pool port') = n + 1"
    using route_ok [OF assms(1-7), of i] route_cleanup_error unfolding route_result_def assms(8) by fastforce
  then have "out_routed s2 port2 p0 t U L"
    using assms(9-12) bufs_cong [of "indices n" s2 "op_pool port'" s' "op_length port'"]
    unfolding out_routed_def by (elim conjE) simp
  from unroute_ok [OF assms(2) this] show ?thesis by (auto simp: flags_unrouted_def)
qed

theorem route_unroute_roundtrip_witness:
  "\<exists>M s' port' s3 port3. xf_output_port_route (demo_io M) demo_out 7 1 16 4 0 = Some (s', port', 0) \<and>
     xf_output_port_unroute s' port' 0 = Some (s3, port3) \<and> mem_live demo_pool2 0 (span 4096 512) (io_mem s3) []"
proof -
  obtain M s' port' where M: "mem_live demo_pool2 0 (span 4096 512) M []"
    and r: "xf_output_port_route (demo_io M) demo_out 7 1 16 4 0 = Some (s', port', 0)" by (rule demo_route)
  have M': "mem_live demo_pool2 0 (span 4096 512) (io_mem (demo_io M)) []" using M by (simp add: demo_io_def)
  have top: "region_top demo_pool2" by (simp add: region_top_def demo_pool2_def demo_pool_def bend_def)
  have n: "unat (1 :: u32) + 1 < 2 ^ 24" "(16 :: u32) \<noteq> 0" by simp_all
  from route_unroute_roundtrip [OF M' top n(1) demo_request n(2) demo_out_unrouted(2,1) r refl refl refl] r
  show ?thesis by blast
qed

text \<open>
  C28. The flush handshake of a routed port that is neither idle nor flushing: the first flush
  sends the control message once, with the opcode of the caller, and reports that flushing is in
  progress; while it is, the port is not ready and a further flush sends nothing; after
  \<^verbatim>\<open>flush_done\<close> the port is idle, and a flush is satisfied at once, unless the opcode is
  \<^verbatim>\<open>XF_FILL_THIS_BUFFER\<close>, which starts a new handshake.
\<close>

theorem output_flush_handshake:
  assumes "xf_output_port_routed port" and "\<not> xf_output_port_idle port" and "\<not> xf_output_port_flushing port"
  shows "\<exists>s1 port1. xf_output_port_flush s port opc = Some (s1, port1, False) \<and>
    io_done s1 = io_done s @ [(xf_output_port_control_msg port, (io_msg s (xf_output_port_control_msg port))\<lparr>m_opcode := opc\<rparr>)] \<and>
    xf_output_port_flushing port1 \<and> \<not> xf_output_port_ready port1 \<and>
    xf_output_port_flush s1 port1 opc' = Some (s1, port1, False) \<and>
    xf_output_port_idle (xf_output_port_flush_done port1) \<and> \<not> xf_output_port_flushing (xf_output_port_flush_done port1) \<and>
    (if opc' \<noteq> XF_FILL_THIS_BUFFER
     then xf_output_port_flush s1 (xf_output_port_flush_done port1) opc' = Some (s1, xf_output_port_flush_done port1, True)
     else \<exists>s2 port2. xf_output_port_flush s1 (xf_output_port_flush_done port1) opc' = Some (s2, port2, False) \<and>
       length (io_done s2) = Suc (length (io_done s1)) \<and> xf_output_port_flushing port2)"
proof -
  have f: "op_flags port AND XF_OUTPUT_FLAG_ROUTED \<noteq> 0" "op_flags port AND XF_OUTPUT_FLAG_IDLE = 0"
    "op_flags port AND XF_OUTPUT_FLAG_FLUSHING = 0"
    using assms by (simp_all add: xf_output_port_routed_def xf_output_port_idle_def xf_output_port_flushing_def)
  note b = flush_flags [OF f]
  show ?thesis
    using f b by (auto simp: xf_output_port_flush_def xf_output_port_routed_def xf_output_port_flushing_def
        xf_output_port_idle_def xf_output_port_ready_def xf_output_port_flush_done_def xf_response_def
        xf_output_port_control_msg_def Let_def)
qed

theorem output_flush_handshake_witness:
  "\<exists>M s1 port1. xf_output_port_flush (demo_io M) (demo_out\<lparr>op_flags := 3\<rparr>) 5 = Some (s1, port1, False) \<and>
    xf_output_port_flushing port1 \<and> xf_output_port_idle (xf_output_port_flush_done port1)"
proof -
  have "xf_output_port_routed (demo_out\<lparr>op_flags := 3\<rparr>)" "\<not> xf_output_port_idle (demo_out\<lparr>op_flags := 3\<rparr>)"
    "\<not> xf_output_port_flushing (demo_out\<lparr>op_flags := 3\<rparr>)"
    by (simp_all add: xf_output_port_routed_def xf_output_port_idle_def xf_output_port_flushing_def out_flags)
  from output_flush_handshake [OF this, of "demo_io M" 5] show ?thesis by blast
qed

end
