(* ===== verification/Core_State.thy ===== *)
theory Core_State
  imports Msg Sched
begin

text \<open>
  The state of the core (\<^verbatim>\<open>xf-core.h\<close>, \<^verbatim>\<open>xf-component.h\<close>, \<^verbatim>\<open>xf-shmem.h\<close>), the map from client numbers to
  components (\<^verbatim>\<open>xf-core.c\<close>) and the translation of addresses between the core and the host
  (\<^verbatim>\<open>xf-dp_ipc.h\<close>). With one core \<^verbatim>\<open>XF_CORE_DATA\<close>, \<^verbatim>\<open>XF_CORE_RO_DATA\<close> and \<^verbatim>\<open>XF_CORE_RW_DATA\<close> name the same
  structure for every core number. Component code, the component factory and the operating system
  are functions on the state, collected in the record \<open>env\<close>: the code calls the first ones through
  the function pointers of a component.
\<close>

section \<open>State\<close>

record component =
  co_id :: u64
  co_priority :: u32
  co_mem_pool_type :: "u32 list"

record worker_msg =
  wm_component :: addr
  wm_msg :: addr

text \<open>The queue of a worker is a message queue of the operating system; sending to a full one is not modelled.\<close>

record worker =
  wk_core :: u32
  wk_stack :: addr
  wk_scratch :: addr
  wk_queue :: addr
  wk_msgs :: "worker_msg list"
  wk_local :: msg_queue
  wk_sched :: addr

record proxy_message =
  pm_session_id :: u64
  pm_opcode :: u32
  pm_length :: u32
  pm_address :: u32
  pm_error :: u32

text \<open>
  \<open>c_worker_base\<close> is the pointer to the array of workers, \<open>c_msgq_event\<close> and \<open>c_die_event\<close> are the two
  bits of the event the thread of the core waits for, \<open>c_host_notified\<close> is the interrupt to the host.
  The fields from \<open>c_command\<close> on are the memory shared with the host.
\<close>

record core =
  c_msg :: msg_heap
  c_bytes :: "addr \<Rightarrow> 8 word"
  c_nodes :: rb_heap
  c_mem :: dsp_mem
  c_component :: "addr \<Rightarrow> component"
  c_sched :: addr
  c_queue :: msg_queue
  c_cmap :: "u32 \<Rightarrow> u32"
  c_free :: u32
  c_scratch :: addr
  c_n_workers :: u32
  c_worker_base :: addr
  c_worker :: "u32 \<Rightarrow> worker"
  c_default_priority :: u32
  c_scratch_size :: "u32 \<Rightarrow> u32"
  c_stack_size :: "u32 \<Rightarrow> u32"
  c_dsp_priority :: u32
  c_frmwk_local :: u32
  c_ap_shmem_size :: "u32 \<Rightarrow> u32"
  c_pool :: msg_pool
  c_remote :: msg_queue
  c_msgq_event :: bool
  c_die_event :: bool
  c_host_notified :: bool
  c_command :: "u32 \<Rightarrow> proxy_message"
  c_cmd_write_idx :: u32
  c_rsp_read_idx :: u32
  c_response :: "u32 \<Rightarrow> proxy_message"
  c_rsp_write_idx :: u32
  c_cmd_read_idx :: u32

record env =
  e_entry :: "addr \<Rightarrow> addr \<Rightarrow> core \<Rightarrow> core \<times> int"
  e_exit :: "addr \<Rightarrow> addr \<Rightarrow> core \<Rightarrow> core \<times> int"
  e_error_handler :: "addr \<Rightarrow> int \<Rightarrow> core \<Rightarrow> core"
  e_factory :: "u32 \<Rightarrow> addr \<Rightarrow> u32 \<Rightarrow> core \<Rightarrow> core \<times> addr"
  e_compute_cycles :: "(addr \<Rightarrow> core \<Rightarrow> core) option"
  e_thread_priority :: "core \<Rightarrow> u32"
  e_thread_create :: "u32 \<Rightarrow> u32 \<Rightarrow> core \<Rightarrow> core \<times> int"
  e_msgq_size :: u32
  e_msgq_create :: "addr \<Rightarrow> addr"
  e_sizeof_worker :: u32
  e_sched_addr :: "addr \<Rightarrow> addr"

text \<open>The memory types and limits of the build (\<^verbatim>\<open>xaf-api.h\<close>), and error codes.\<close>

definition XAF_MEM_ID_DEV :: u32 where "XAF_MEM_ID_DEV = 0"
definition XAF_MEM_ID_DEV_MAX :: u32 where "XAF_MEM_ID_DEV_MAX = 0"
definition XAF_MEM_ID_COMP :: u32 where "XAF_MEM_ID_COMP = 1"
definition XAF_MEM_ID_COMP_MAX :: u32 where "XAF_MEM_ID_COMP_MAX = 2"
definition XAF_MEM_POOL_TYPE_COMP_MAX :: u32 where "XAF_MEM_POOL_TYPE_COMP_MAX = 6"
definition XF_CFG_MAX_CLIENTS :: u32 where "XF_CFG_MAX_CLIENTS = push_bit 6 1"
definition XF_CFG_MESSAGE_POOL_SIZE :: u32 where "XF_CFG_MESSAGE_POOL_SIZE = 256"
definition XF_CORE_ID_MASTER :: u32 where "XF_CORE_ID_MASTER = 0"
definition XAF_INVALIDVAL_ERR :: int where "XAF_INVALIDVAL_ERR = - 2"
definition XAF_INVALIDPTR_ERR :: int where "XAF_INVALIDPTR_ERR = - 4"
definition XAF_MEMORY_ERR :: int where "XAF_MEMORY_ERR = - 7"
definition XAF_NUM_ERRS :: int where "XAF_NUM_ERRS = - 8"
definition XAF_UNREGISTER :: int where "XAF_UNREGISTER = XAF_NUM_ERRS - 1"

text \<open>Words in memory, least significant byte first.\<close>

definition load32 :: "(addr \<Rightarrow> 8 word) \<Rightarrow> addr \<Rightarrow> u32" where
  "load32 B a = ucast (B a) OR push_bit 8 (ucast (B (a + 1))) OR push_bit 16 (ucast (B (a + 2)))
     OR push_bit 24 (ucast (B (a + 3)))"

definition store32 :: "addr \<Rightarrow> u32 \<Rightarrow> (addr \<Rightarrow> 8 word) \<Rightarrow> addr \<Rightarrow> 8 word" where
  "store32 a w B = B(a := ucast w, a + 1 := ucast (drop_bit 8 w), a + 2 := ucast (drop_bit 16 w),
     a + 3 := ucast (drop_bit 24 w))"

definition upd_msg :: "addr \<Rightarrow> (xf_message \<Rightarrow> xf_message) \<Rightarrow> core \<Rightarrow> core" where
  "upd_msg m f s = s\<lparr>c_msg := (c_msg s)(m := f (c_msg s m))\<rparr>"

definition upd_worker :: "u32 \<Rightarrow> (worker \<Rightarrow> worker) \<Rightarrow> core \<Rightarrow> core" where
  "upd_worker w f s = s\<lparr>c_worker := (c_worker s)(w := f (c_worker s w))\<rparr>"

section \<open>The client map\<close>

text \<open>An entry holds the component of a client, or the number of the next free client.\<close>

definition xf_client_lookup :: "core \<Rightarrow> u32 \<Rightarrow> addr" where
  "xf_client_lookup cd client = (if c_cmap cd client > XF_CFG_MAX_CLIENTS then c_cmap cd client else NULL)"

definition xf_client_alloc :: "core \<Rightarrow> core \<times> u32" where
  "xf_client_alloc cd =
     (let client = c_free cd in
      (if client < XF_CFG_MAX_CLIENTS then cd\<lparr>c_free := c_cmap cd client\<rparr> else cd, client))"

definition xf_client_free :: "core \<Rightarrow> u32 \<Rightarrow> core" where
  "xf_client_free cd client = cd\<lparr>c_cmap := (c_cmap cd)(client := c_free cd), c_free := client\<rparr>"

text \<open>The loop of \<^verbatim>\<open>xf_core_init\<close> that links all descriptors, and the head of the list.\<close>

definition link_free :: "nat \<Rightarrow> core \<Rightarrow> core" where
  "link_free i cd = cd\<lparr>c_cmap := (c_cmap cd)(word_of_nat i := word_of_nat i + 1)\<rparr>"

definition cmap_init :: "core \<Rightarrow> core" where
  "cmap_init cd = (fold link_free [0 ..< unat XF_CFG_MAX_CLIENTS] cd)\<lparr>c_free := 0\<rparr>"

section \<open>Address translation\<close>

definition XF_CFG_SHMEM_BASE_ADDRESS :: u32 where "XF_CFG_SHMEM_BASE_ADDRESS = 0xE0000000"
definition XF_PROXY_DATA_PAYLOAD_OFFSET :: u32 where "XF_PROXY_DATA_PAYLOAD_OFFSET = 0x00004000"
definition MEM_START_DATA :: addr where "MEM_START_DATA = XF_CFG_SHMEM_BASE_ADDRESS + XF_PROXY_DATA_PAYLOAD_OFFSET"
definition XF_CFG_REMOTE_IPC_POOL_SIZE :: u32 where "XF_CFG_REMOTE_IPC_POOL_SIZE = push_bit 10 256"
definition XF_PROXY_NULL :: u32 where "XF_PROXY_NULL = NOT 0"
definition XF_PROXY_BADADDR :: u32 where "XF_PROXY_BADADDR = XF_CFG_REMOTE_IPC_POOL_SIZE"

definition xf_ipc_b2a :: "addr \<Rightarrow> u32" where
  "xf_ipc_b2a b =
     (if b = NULL then XF_PROXY_NULL
      else if b - MEM_START_DATA <s XF_CFG_REMOTE_IPC_POOL_SIZE then b - MEM_START_DATA
      else XF_PROXY_BADADDR)"

definition xf_ipc_a2b :: "u32 \<Rightarrow> addr" where
  "xf_ipc_a2b address =
     (if address < XF_CFG_REMOTE_IPC_POOL_SIZE then MEM_START_DATA + address
      else if address = XF_PROXY_NULL then NULL
      else NOT 0)"

definition xf_shmem_enabled :: "u32 \<Rightarrow> bool" where
  "xf_shmem_enabled core \<longleftrightarrow> core = XF_CORE_ID_MASTER"

definition xf_ipi_resume_dsp :: "core \<Rightarrow> core" where
  "xf_ipi_resume_dsp s = s\<lparr>c_msgq_event := True\<rparr>"

definition xf_ipi_assert :: "core \<Rightarrow> core" where
  "xf_ipi_assert s = s\<lparr>c_host_notified := True\<rparr>"

definition xf_ipi_dsp_close :: "core \<Rightarrow> core" where
  "xf_ipi_dsp_close s = s\<lparr>c_die_event := True\<rparr>"

end
