(* ===== verification/Core.thy ===== *)
theory Core
  imports Core_State "HOL-Library.Monad_Syntax"
begin

text \<open>
  Commands to the proxy, message dispatch, submission and completion, and the worker threads
  (\<^verbatim>\<open>xf-core.c\<close>). Every function up to \<open>xf_msg_submit\<close> takes the completion of a message as the
  argument \<open>cpl\<close>; \<open>xf_msg_complete\<close> ties the knot, with fuel for the number of nested completions.
  The result \<open>None\<close> stands for a call that does not return: a call through a null pointer, a
  corrupted memory pool, or no fuel.
\<close>

type_synonym completion = "addr \<Rightarrow> core \<Rightarrow> core option"

section \<open>Responses\<close>

definition core_response :: "completion \<Rightarrow> addr \<Rightarrow> core \<Rightarrow> core option" where
  "core_response cpl m s = cpl m s"

definition core_response_data :: "completion \<Rightarrow> addr \<Rightarrow> u32 \<Rightarrow> core \<Rightarrow> core option" where
  "core_response_data cpl m n s = cpl m (upd_msg m (m_length_update (\<lambda>_. n)) s)"

definition core_response_ok :: "completion \<Rightarrow> addr \<Rightarrow> core \<Rightarrow> core option" where
  "core_response_ok cpl m s = cpl m (upd_msg m (m_length_update (\<lambda>_. 0)) s)"

definition core_response_err :: "completion \<Rightarrow> addr \<Rightarrow> core \<Rightarrow> core option" where
  "core_response_err cpl m s =
     cpl m (upd_msg m (\<lambda>x. x\<lparr>m_opcode := XF_UNREGISTER, m_length := 0\<rparr>) s)"

definition core_response_failure :: "completion \<Rightarrow> addr \<Rightarrow> core \<Rightarrow> core option" where
  "core_response_failure cpl m s = cpl m (upd_msg m (m_length_update (\<lambda>_. XF_MSG_LENGTH_INVALID)) s)"

section \<open>Shared memory buffers\<close>

text \<open>The size rounded up to the cache line of 64 bytes.\<close>

definition XF_ALIGNED :: "u32 \<Rightarrow> u32" where
  "XF_ALIGNED n = (n + 64 - 1) AND NOT (64 - 1)"

definition xf_shmem_alloc :: "addr \<Rightarrow> core \<Rightarrow> (core \<times> int) option" where
  "xf_shmem_alloc m s =
     (let b = m_buffer (c_msg s m);
          t = (if b \<noteq> NULL then load32 (c_bytes s) b else XAF_MEM_ID_DEV);
          n = (if b \<noteq> NULL then load32 (c_bytes s) (b + 4) else m_length (c_msg s m))
      in if \<not> t \<le> XAF_MEM_ID_DEV_MAX then Some (s, XAF_MEMORY_ERR)
         else do {
           (pool, p) \<leftarrow> xf_mm_alloc (shared_pool (c_mem s) t) (XF_ALIGNED n);
           let M = (c_mem s)\<lparr>shared_pool := (shared_pool (c_mem s))(t := pool)\<rparr>;
           let s = upd_msg m (m_buffer_update (\<lambda>_. p)) s;
           if p \<noteq> NULL then
             let c = frmwk_curr M t + XF_ALIGNED n;
                 M = M\<lparr>frmwk_curr := (frmwk_curr M)(t := c),
                       frmwk_peak := (if sint (frmwk_peak M t) < sint c then (frmwk_peak M)(t := c)
                                      else frmwk_peak M)\<rparr>
             in Some (s\<lparr>c_mem := M\<rparr>, 0)
           else Some (s\<lparr>c_mem := M\<rparr>, XAF_MEMORY_ERR)
         })"

definition xf_shmem_free :: "addr \<Rightarrow> core \<Rightarrow> core option" where
  "xf_shmem_free m s =
     (let b = m_buffer (c_msg s m);
          t = load32 (c_bytes s) b;
          n = load32 (c_bytes s) (b + 4);
          p = xf_ipc_a2b (load32 (c_bytes s) (b + 8));
          M = c_mem s
      in do {
        pool \<leftarrow> xf_mm_free (shared_pool M t) p (XF_ALIGNED n);
        let M = M\<lparr>shared_pool := (shared_pool M)(t := pool)\<rparr>;
        let M = (if mm_addr pool = shmem_buffer M t
                 then M\<lparr>frmwk_curr := (frmwk_curr M)(t := frmwk_curr M t - XF_ALIGNED n)\<rparr> else M);
        Some (s\<lparr>c_mem := M\<rparr>)
      })"

section \<open>Commands to the proxy\<close>

definition load_words :: "(addr \<Rightarrow> 8 word) \<Rightarrow> addr \<Rightarrow> nat \<Rightarrow> u32 list" where
  "load_words B a n = map (\<lambda>i. load32 B (a + 4 * word_of_nat i)) [0 ..< n]"

definition xf_proxy_register :: "completion \<Rightarrow> env \<Rightarrow> u32 \<Rightarrow> addr \<Rightarrow> core \<Rightarrow> (core \<times> int) option" where
  "xf_proxy_register cpl E core m s =
     (let src = XF_MSG_SRC (m_id (c_msg s m));
          len = m_length (c_msg s m) - 4 * XAF_MEM_POOL_TYPE_COMP_MAX;
          buffer = m_buffer (c_msg s m) + 4 * XAF_MEM_POOL_TYPE_COMP_MAX;
          (s, client) = xf_client_alloc s
      in if client = XF_CFG_MAX_CLIENTS then Some (s, XAF_MEMORY_ERR)
         else
           let (s, c) = e_factory E core buffer len s in
           if c = NULL then Some (xf_client_free s client, XAF_MEMORY_ERR)
           else
             let i = XF_PORT_SPEC core client 0;
                 s = s\<lparr>c_cmap := (c_cmap s)(client := c)\<rparr>;
                 s = upd_msg m (m_id_update (\<lambda>_. XF_MSG_ID (ucast src) i)) s;
                 s = s\<lparr>c_component := (c_component s)
                         (c := \<lparr>co_id = i, co_priority = c_default_priority s,
                                co_mem_pool_type = load_words (c_bytes s) (m_buffer (c_msg s m)) 6\<rparr>)\<rparr>
             in do { s \<leftarrow> core_response_ok cpl m s; Some (s, 0) })"

definition xf_proxy_alloc :: "completion \<Rightarrow> u32 \<Rightarrow> addr \<Rightarrow> core \<Rightarrow> (core \<times> int) option" where
  "xf_proxy_alloc cpl core m s =
     (if \<not> xf_shmem_enabled core then Some (s, XAF_MEMORY_ERR)
      else do { (s, _) \<leftarrow> xf_shmem_alloc m s; s \<leftarrow> core_response cpl m s; Some (s, 0) })"

definition xf_proxy_free :: "completion \<Rightarrow> u32 \<Rightarrow> addr \<Rightarrow> core \<Rightarrow> (core \<times> int) option" where
  "xf_proxy_free cpl core m s =
     (if \<not> xf_shmem_enabled core then Some (s, XAF_MEMORY_ERR)
      else do { s \<leftarrow> xf_shmem_free m s; s \<leftarrow> core_response cpl m s; Some (s, 0) })"

definition xf_proxy_dsp_stop :: "completion \<Rightarrow> u32 \<Rightarrow> addr \<Rightarrow> core \<Rightarrow> (core \<times> int) option" where
  "xf_proxy_dsp_stop cpl core m s = do { s \<leftarrow> core_response cpl m (xf_ipi_dsp_close s); Some (s, 0) }"

text \<open>A worker thread: its stack, its queue with the storage of the queue, its scheduler, its thread.\<close>

definition xaf_proxy_create_worker :: "env \<Rightarrow> u32 \<Rightarrow> u32 \<Rightarrow> u32 \<Rightarrow> core \<Rightarrow> (core \<times> int) option" where
  "xaf_proxy_create_worker E w priority stack_size s = do {
     (M, stack) \<leftarrow> xf_mem_alloc (c_mem s) stack_size 4 XAF_MEM_ID_COMP;
     let s = upd_worker w (wk_stack_update (\<lambda>_. stack)) (s\<lparr>c_mem := M\<rparr>);
     if stack = NULL then Some (s, XAF_MEMORY_ERR)
     else do {
       (M, pbuf) \<leftarrow> xf_mem_alloc (c_mem s) (e_msgq_size E) 4 XAF_MEM_ID_COMP;
       let s = s\<lparr>c_mem := M\<rparr>;
       if pbuf = NULL then Some (s, XAF_MEMORY_ERR)
       else do {
         let s = s\<lparr>c_bytes := (\<lambda>x. if x - pbuf < e_msgq_size E then 0 else c_bytes s x)\<rparr>;
         let s = upd_worker w (\<lambda>x. x\<lparr>wk_queue := e_msgq_create E pbuf, wk_msgs := []\<rparr>) s;
         if wk_queue (c_worker s w) = NULL then do {
           M \<leftarrow> xf_mem_free (c_mem s) (wk_stack (c_worker s w)) stack_size XAF_MEM_ID_COMP;
           Some (s\<lparr>c_mem := M\<rparr>, XAF_INVALIDPTR_ERR) }
         else do {
           let s = s\<lparr>c_nodes := xf_sched_init (wk_sched (c_worker s w)) (c_nodes s)\<rparr>;
           let s = upd_worker w (wk_local_update (\<lambda>_. xf_msg_queue_init)) s;
           let (s, r) = e_thread_create E w priority s;
           if r \<noteq> 0 then do {
             M \<leftarrow> xf_mem_free (c_mem s) (wk_queue (c_worker s w)) (e_msgq_size E) XAF_MEM_ID_COMP;
             M \<leftarrow> xf_mem_free M (wk_stack (c_worker s w)) stack_size XAF_MEM_ID_COMP;
             Some (s\<lparr>c_mem := M\<rparr>, XAF_INVALIDVAL_ERR) }
           else Some (s, 0)
         }
       }
     }
   }"

text \<open>The loop over the real-time workers \<open>i + 1\<close>; it stops at the first error.\<close>

fun create_rt_workers :: "env \<Rightarrow> u32 \<Rightarrow> u32 \<Rightarrow> nat list \<Rightarrow> core \<Rightarrow> (core \<times> int) option" where
  "create_rt_workers E core base [] s = Some (s, 0)"
| "create_rt_workers E core base (i # js) s = do {
     let w = word_of_nat i + 1;
     let s = upd_worker w (wk_core_update (\<lambda>_. core)) s;
     (s, rc) \<leftarrow> xaf_proxy_create_worker E w (base + word_of_nat i) (c_stack_size s w) s;
     if rc < 0 then Some (s, rc) else create_rt_workers E core base js s
   }"

text \<open>The checks of the priorities in the command: background, base and number of real-time ones.\<close>

definition priorities_accepted :: "u32 \<Rightarrow> u32 \<Rightarrow> u32 \<Rightarrow> u32 \<Rightarrow> bool" where
  "priorities_accepted bg base n dsp \<longleftrightarrow>
     (bg \<ge> 0 \<and> bg \<le> dsp) \<and> (base \<ge> 0 \<and> base \<le> dsp) \<and> base + n - 1 \<ge> base \<and> base + n - 1 \<le> dsp"

definition xf_proxy_set_priorities :: "completion \<Rightarrow> env \<Rightarrow> u32 \<Rightarrow> addr \<Rightarrow> core \<Rightarrow> (core \<times> int) option" where
  "xf_proxy_set_priorities cpl E core m s =
     (let cmd = m_buffer (c_msg s m);
          n = load32 (c_bytes s) cmd;
          base = load32 (c_bytes s) (cmd + 4);
          bg = load32 (c_bytes s) (cmd + 8);
          s = s\<lparr>c_dsp_priority := e_thread_priority E s\<rparr>
      in if \<not> priorities_accepted bg base n (c_dsp_priority s) then Some (s, XAF_INVALIDVAL_ERR)
         else do {
           (M, p) \<leftarrow> xf_mem_alloc (c_mem s) ((n + 1) * e_sizeof_worker E) 4 XAF_MEM_ID_COMP;
           let s = s\<lparr>c_mem := M, c_worker_base := p,
                     c_worker := (\<lambda>w. (c_worker s w)\<lparr>wk_sched := e_sched_addr E (p + w * e_sizeof_worker E)\<rparr>)\<rparr>;
           if p = NULL then Some (s, XAF_MEMORY_ERR)
           else do {
             let s = upd_worker 0 (wk_core_update (\<lambda>_. core)) s;
             (s, rc) \<leftarrow> xaf_proxy_create_worker E 0 bg (c_stack_size s 0) s;
             if rc < 0 then Some (s, rc)
             else do {
               (s, rc) \<leftarrow> create_rt_workers E core base [0 ..< unat n] s;
               if rc < 0 then Some (s, rc)
               else do {
                 let s = s\<lparr>c_worker := (\<lambda>w. if w < n + 1 then (c_worker s w)\<lparr>wk_scratch := NULL\<rparr> else c_worker s w)\<rparr>;
                 let s = s\<lparr>c_n_workers := n + 1, c_default_priority := n\<rparr>;
                 let s = (if base + c_default_priority s - 1 \<le> bg then s\<lparr>c_default_priority := 0\<rparr> else s);
                 s \<leftarrow> core_response_ok cpl m s;
                 Some (s, 0)
               }
             }
           }
         })"

text \<open>The fields of \<^verbatim>\<open>xaf_perf_stats_t\<close> follow three counters of 64 bits.\<close>

definition XA_DSP_COMP_BUF_SIZE_MIN :: "core \<Rightarrow> u32" where
  "XA_DSP_COMP_BUF_SIZE_MIN s = c_scratch_size s XAF_MEM_ID_COMP + 1024 + 256 * 64"

definition comp_peak_reported :: "core \<Rightarrow> u32 \<Rightarrow> u32" where
  "comp_peak_reported s i =
     (if i = XAF_MEM_ID_COMP \<and> comp_peak (c_mem s) i < XA_DSP_COMP_BUF_SIZE_MIN s
      then XA_DSP_COMP_BUF_SIZE_MIN s else comp_peak (c_mem s) i)"

definition xf_proxy_get_stats :: "completion \<Rightarrow> env \<Rightarrow> addr \<Rightarrow> core \<Rightarrow> (core \<times> int) option" where
  "xf_proxy_get_stats cpl E m s =
     (let p = m_buffer (c_msg s m);
          s = (case e_compute_cycles E of None \<Rightarrow> s | Some f \<Rightarrow> f p s);
          s = fold (\<lambda>i s. s\<lparr>c_bytes := store32 (p + 24 + 4 * i) (comp_peak_reported s i) (c_bytes s)\<rparr>)
                [XAF_MEM_ID_COMP, XAF_MEM_ID_COMP_MAX] s;
          s = s\<lparr>c_bytes := store32 (p + 40) (c_frmwk_local s) (c_bytes s)\<rparr>;
          s = s\<lparr>c_bytes := store32 (p + 44) (frmwk_peak (c_mem s) XAF_MEM_ID_DEV) (c_bytes s)\<rparr>
      in do { s \<leftarrow> core_response_data cpl m 64 s; Some (s, 0) })"

text \<open>
  The table of commands has the entries 0 to 21; those without a handler are null pointers.
\<close>

definition XF_PROXY_CMD_NUM :: u32 where
  "XF_PROXY_CMD_NUM = 22"

definition xf_proxy_cmd :: "completion \<Rightarrow> env \<Rightarrow> u32 \<Rightarrow> u32 \<Rightarrow> addr \<Rightarrow> core \<Rightarrow> (core \<times> int) option" where
  "xf_proxy_cmd cpl E t core m s =
     (if t = XF_OPCODE_TYPE XF_REGISTER then xf_proxy_register cpl E core m s
      else if t = XF_OPCODE_TYPE XF_ALLOC then xf_proxy_alloc cpl core m s
      else if t = XF_OPCODE_TYPE XF_FREE then xf_proxy_free cpl core m s
      else if t = XF_OPCODE_TYPE XF_STOP then xf_proxy_dsp_stop cpl core m s
      else if t = XF_OPCODE_TYPE XF_SET_PRIORITIES then xf_proxy_set_priorities cpl E core m s
      else if t = XF_OPCODE_TYPE XF_STATS then xf_proxy_get_stats cpl E m s
      else None)"

definition xf_proxy_command :: "completion \<Rightarrow> env \<Rightarrow> u32 \<Rightarrow> addr \<Rightarrow> core \<Rightarrow> core option" where
  "xf_proxy_command cpl E core m s =
     (let t = XF_OPCODE_TYPE (m_opcode (c_msg s m)) in
      if t < XF_PROXY_CMD_NUM
      then do { (s, res) \<leftarrow> xf_proxy_cmd cpl E t core m s; if res \<ge> 0 then Some s else core_response_err cpl m s }
      else core_response_err cpl m s)"

section \<open>Queues of the core and of the workers\<close>

definition xf_msg_local_put :: "addr \<Rightarrow> core \<Rightarrow> core" where
  "xf_msg_local_put m s =
     (let (h, q, _) = xf_msg_enqueue (c_msg s) (c_queue s) m
      in xf_ipi_resume_dsp (s\<lparr>c_msg := h, c_queue := q\<rparr>))"

definition xf_msg_local_get :: "core \<Rightarrow> core \<times> addr" where
  "xf_msg_local_get s = (let (h, q, m) = xf_msg_dequeue (c_msg s) (c_queue s) in (s\<lparr>c_msg := h, c_queue := q\<rparr>, m))"

definition xf_msg_proxy_put :: "addr \<Rightarrow> core \<Rightarrow> core" where
  "xf_msg_proxy_put m s =
     (let (h, q, _) = xf_msg_enqueue (c_msg s) (c_remote s) m
      in xf_ipi_resume_dsp (s\<lparr>c_msg := h, c_remote := q\<rparr>))"

definition xf_msg_proxy_get :: "core \<Rightarrow> core \<times> addr" where
  "xf_msg_proxy_get s = (let (h, q, m) = xf_msg_dequeue (c_msg s) (c_remote s) in (s\<lparr>c_msg := h, c_remote := q\<rparr>, m))"

definition xf_msg_proxy_complete :: "addr \<Rightarrow> core \<Rightarrow> core" where
  "xf_msg_proxy_complete m s = xf_msg_proxy_put m s"

definition msgq_send :: "u32 \<Rightarrow> worker_msg \<Rightarrow> core \<Rightarrow> core" where
  "msgq_send w x s = upd_worker w (wk_msgs_update (\<lambda>q. q @ [x])) s"

definition local_enqueue :: "u32 \<Rightarrow> addr \<Rightarrow> core \<Rightarrow> core" where
  "local_enqueue w m s =
     (let (h, q, _) = xf_msg_enqueue (c_msg s) (wk_local (c_worker s w)) m
      in upd_worker w (wk_local_update (\<lambda>_. q)) (s\<lparr>c_msg := h\<rparr>))"

section \<open>Components\<close>

definition xf_core_process :: "env \<Rightarrow> addr \<Rightarrow> core \<Rightarrow> core" where
  "xf_core_process E component s =
     (let (s, error_code) = e_entry E component NULL s
      in if error_code < 0 then e_error_handler E component error_code s else s)"

text \<open>
  Whether a message that cannot be delivered is answered: the sender is a live local client, or a
  client of another core that has not been answered this way before.
\<close>

definition sender_waits :: "u32 \<Rightarrow> addr \<Rightarrow> core \<Rightarrow> bool" where
  "sender_waits core m cd \<longleftrightarrow>
     core = XF_MSG_SRC_CORE (m_id (c_msg cd m)) \<and> xf_client_lookup cd (XF_MSG_SRC_CLIENT (m_id (c_msg cd m))) \<noteq> NULL \<or>
     core \<noteq> XF_MSG_SRC_CORE (m_id (c_msg cd m)) \<and> m_length (c_msg cd m) \<noteq> XF_MSG_LENGTH_INVALID"

text \<open>
  The loop takes messages until the marker; the fuel is the number of messages in the queue.
\<close>

fun purge_loop :: "nat \<Rightarrow> completion \<Rightarrow> u32 \<Rightarrow> u32 \<Rightarrow> core \<Rightarrow> core option" where
  "purge_loop 0 cpl client w cd = None"
| "purge_loop (Suc k) cpl client w cd =
     (case wk_msgs (c_worker cd w) of
        [] \<Rightarrow> Some cd
      | x # q \<Rightarrow>
          let cd = upd_worker w (wk_msgs_update (\<lambda>_. q)) cd; m = wm_msg x in
          if wm_component x = NULL \<and> m = NULL then Some cd
          else if m \<noteq> NULL \<and> XF_MSG_DST_CLIENT (m_id (c_msg cd m)) = client then
            if XF_MSG_SRC_PROXY (m_id (c_msg cd m))
            then do { cd \<leftarrow> core_response_err cpl m cd; purge_loop k cpl client w cd }
            else if sender_waits (wk_core (c_worker cd w)) m cd
            then do { cd \<leftarrow> core_response_failure cpl m cd; purge_loop k cpl client w cd }
            else purge_loop k cpl client w cd
          else purge_loop k cpl client w (msgq_send w x cd))"

definition xf_worker_queue_purge :: "completion \<Rightarrow> u32 \<Rightarrow> u32 \<Rightarrow> core \<Rightarrow> core option" where
  "xf_worker_queue_purge cpl client priority cd =
     (let cd = msgq_send priority \<lparr>wm_component = NULL, wm_msg = NULL\<rparr> cd
      in purge_loop (length (wk_msgs (c_worker cd priority))) cpl client priority cd)"

definition xf_client_cleanup :: "completion \<Rightarrow> u32 \<Rightarrow> u32 \<Rightarrow> core \<Rightarrow> core option" where
  "xf_client_cleanup cpl client priority cd =
     (if c_n_workers cd \<noteq> 0
      then do { cd \<leftarrow> xf_worker_queue_purge cpl client priority cd; Some (xf_client_free cd client) }
      else Some (xf_client_free cd client))"

definition xf_core_process_message :: "completion \<Rightarrow> env \<Rightarrow> addr \<Rightarrow> addr \<Rightarrow> core \<Rightarrow> core option" where
  "xf_core_process_message cpl E component m s =
     (let client = XF_MSG_DST_CLIENT (m_id (c_msg s m));
          priority = co_priority (c_component s component);
          (s, ret) = e_entry E component m s
      in if ret = XAF_UNREGISTER then
           let (s, r) = e_exit E component m s in
           if r = 0 then xf_client_cleanup cpl client priority s else Some s
         else if ret < 0 then
           let s = upd_msg m (m_error_update (\<lambda>_. word_of_int ret)) s; i = m_id (c_msg s m) in
           if XF_MSG_SRC_PROXY i then
             if m_opcode (c_msg s m) = XF_EVENT then core_response cpl m s else core_response_err cpl m s
           else do {
             s \<leftarrow> (if m_opcode (c_msg s m) \<noteq> XF_FILL_THIS_BUFFER then core_response_failure cpl m s else Some s);
             let (s, r) = e_exit E component NULL s;
             if r = 0 then xf_client_cleanup cpl client priority s else Some s
           }
         else Some s)"

definition xf_comp_send :: "completion \<Rightarrow> env \<Rightarrow> addr \<Rightarrow> addr \<Rightarrow> core \<Rightarrow> core option" where
  "xf_comp_send cpl E component msg s =
     (if c_n_workers s = 0 then
        if msg \<noteq> NULL then xf_core_process_message cpl E component msg s
        else Some (xf_core_process E component s)
      else
        let p = co_priority (c_component s component);
            w = (if p < c_n_workers s then p else c_n_workers s - 1)
        in Some (msgq_send w \<lparr>wm_component = component, wm_msg = msg\<rparr> s))"

definition xf_comp_process :: "completion \<Rightarrow> env \<Rightarrow> addr \<Rightarrow> core \<Rightarrow> core option" where
  "xf_comp_process cpl E component s = xf_comp_send cpl E component NULL s"

definition xf_comp_process_message :: "completion \<Rightarrow> env \<Rightarrow> addr \<Rightarrow> addr \<Rightarrow> core \<Rightarrow> core option" where
  "xf_comp_process_message cpl E component msg s = xf_comp_send cpl E component msg s"

section \<open>Dispatch, submission, completion\<close>

definition xf_core_dispatch :: "completion \<Rightarrow> env \<Rightarrow> u32 \<Rightarrow> addr \<Rightarrow> core \<Rightarrow> core option" where
  "xf_core_dispatch cpl E core m s =
     (let i = m_id (c_msg s m) in
      if XF_MSG_DST_PROXY i then xf_proxy_command cpl E core m s
      else
        let component = xf_client_lookup s (XF_MSG_DST_CLIENT i) in
        if component \<noteq> NULL then xf_comp_process_message cpl E component m s
        else if XF_MSG_SRC_PROXY i then
          if m_opcode (c_msg s m) = XF_EVENT
          then core_response cpl m (upd_msg m (m_error_update (\<lambda>_. word_of_int XAF_INVALIDPTR_ERR)) s)
          else core_response_err cpl m s
        else if m_error (c_msg s m) = 0 \<and> sender_waits core m s then core_response_failure cpl m s
        else Some s)"

definition xf_msg_submit :: "completion \<Rightarrow> env \<Rightarrow> addr \<Rightarrow> core \<Rightarrow> core option" where
  "xf_msg_submit cpl E m s =
     (let i = m_id (c_msg s m); src = XF_MSG_SRC_CORE i in
      if c_n_workers s \<noteq> 0 then
        let a = xf_client_lookup s (XF_MSG_SRC_CLIENT i); b = xf_client_lookup s (XF_MSG_DST_CLIENT i);
            worker_src = co_priority (c_component s a); worker_dst = co_priority (c_component s b)
        in if \<not> (XF_MSG_DST_PROXY i \<or> XF_MSG_SRC_PROXY i) \<and> a \<noteq> NULL \<and> b \<noteq> NULL \<and> worker_src = worker_dst
           then Some (local_enqueue worker_dst m s)
           else xf_core_dispatch cpl E src m s
      else Some (xf_msg_local_put m s))"

text \<open>A buffer that comes back changes its opcode.\<close>

definition turn_opcode :: "u32 \<Rightarrow> u32" where
  "turn_opcode opc =
     (if opc = XF_EMPTY_THIS_BUFFER then XF_FILL_THIS_BUFFER
      else if opc = XF_FILL_THIS_BUFFER then XF_EMPTY_THIS_BUFFER else opc)"

definition turn_id :: "addr \<Rightarrow> core \<Rightarrow> core" where
  "turn_id m s =
     (let i = m_id (c_msg s m); src = XF_MSG_SRC i; dst = XF_MSG_DST i
      in upd_msg m (m_id_update (\<lambda>_. XF_MSG_ID (ucast dst) (ucast src))) s)"

fun xf_msg_complete :: "nat \<Rightarrow> env \<Rightarrow> addr \<Rightarrow> core \<Rightarrow> core option" where
  "xf_msg_complete 0 E m s = None"
| "xf_msg_complete (Suc k) E m s =
     (let s = turn_id m s in
      if XF_MSG_DST_PROXY (m_id (c_msg s m)) then Some (xf_msg_proxy_complete m s)
      else xf_msg_submit (xf_msg_complete k E) E m (upd_msg m (m_opcode_update turn_opcode) s))"

text \<open>
  The fuel of a completion that starts outside of any other; \<open>complete_fuel\<close> in theory Core_Thms
  shows that it is enough.
\<close>

definition complete_fuel :: nat where
  "complete_fuel = 4"

abbreviation complete :: "env \<Rightarrow> completion" where
  "complete E \<equiv> xf_msg_complete complete_fuel E"

section \<open>Worker threads\<close>

text \<open>
  One turn of the loop of a worker thread: it waits, ends, or has processed a task or a message
  and then the messages of its local queue, which may never end.
\<close>

datatype turn = Wait core | Exit core | Turn core

definition drain_one :: "completion \<Rightarrow> env \<Rightarrow> u32 \<Rightarrow> addr \<Rightarrow> core \<Rightarrow> core option" where
  "drain_one cpl E core m s =
     (let component = xf_client_lookup s (XF_MSG_DST_CLIENT (m_id (c_msg s m))) in
      if component \<noteq> NULL then xf_core_process_message cpl E component m s
      else if sender_waits core m s then core_response_failure cpl m s
      else Some s)"

partial_function (option) drain_local :: "completion \<Rightarrow> env \<Rightarrow> u32 \<Rightarrow> core \<Rightarrow> core option" where
  "drain_local cpl E w s =
     (case xf_msg_dequeue (c_msg s) (wk_local (c_worker s w)) of
        (h, q, m) \<Rightarrow>
          let s = upd_worker w (wk_local_update (\<lambda>_. q)) (s\<lparr>c_msg := h\<rparr>) in
          if m = NULL then Some s
          else Option.bind (drain_one cpl E (wk_core (c_worker s w)) m s) (\<lambda>s. drain_local cpl E w s))"

definition worker_message :: "completion \<Rightarrow> env \<Rightarrow> u32 \<Rightarrow> worker_msg \<Rightarrow> core \<Rightarrow> core option" where
  "worker_message cpl E core x s =
     (let m = wm_msg x in
      if m = NULL then Some (xf_core_process E (wm_component x) s)
      else if xf_client_lookup s (XF_MSG_DST_CLIENT (m_id (c_msg s m))) \<noteq> NULL
      then xf_core_process_message cpl E (wm_component x) m s
      else if XF_MSG_SRC_PROXY (m_id (c_msg s m)) then core_response_err cpl m s
      else if sender_waits core m s then core_response_failure cpl m s
      else Some s)"

definition dsp_worker_turn :: "completion \<Rightarrow> env \<Rightarrow> u32 \<Rightarrow> core \<Rightarrow> turn option" where
  "dsp_worker_turn cpl E w s = do {
     (h, n) \<leftarrow> xf_sched_get (wk_sched (c_worker s w)) (c_nodes s);
     let s = s\<lparr>c_nodes := h\<rparr>;
     if n \<noteq> NULL then do {
       s \<leftarrow> worker_message cpl E (wk_core (c_worker s w)) \<lparr>wm_component = n, wm_msg = NULL\<rparr> s;
       s \<leftarrow> drain_local cpl E w s;
       Some (Turn s) }
     else case wk_msgs (c_worker s w) of
       [] \<Rightarrow> Some (Wait s)
     | x # q \<Rightarrow> do {
         let s = upd_worker w (wk_msgs_update (\<lambda>_. q)) s;
         if wm_component x = NULL then Some (Exit s)
         else do {
           s \<leftarrow> worker_message cpl E (wk_core (c_worker s w)) x s;
           s \<leftarrow> drain_local cpl E w s;
           Some (Turn s) }
       }
   }"

end
