(* ===== verification/Shmem.thy ===== *)
theory Shmem
  imports Core
begin

text \<open>
  The two rings in the memory shared with the host, with the pool of messages between them
  (\<^verbatim>\<open>xf-msgq.c\<close>, the branches for the hosted DSP), the initialisation of the core and its service loop
  (\<^verbatim>\<open>xf-core.c\<close>, \<^verbatim>\<open>xf-main.c\<close>). The host writes commands and reads responses between the steps; one
  operation of the core sees one state of its two indices.
\<close>

section \<open>Rings\<close>

definition XF_PROXY_STATUS_LOCAL :: u32 where "XF_PROXY_STATUS_LOCAL = push_bit 0 1"
definition XF_PROXY_STATUS_REMOTE :: u32 where "XF_PROXY_STATUS_REMOTE = push_bit 1 1"

definition take_command :: "addr \<Rightarrow> proxy_message \<Rightarrow> core \<Rightarrow> core" where
  "take_command m c s = upd_msg m (\<lambda>x. x\<lparr>m_id := pm_session_id c, m_opcode := pm_opcode c, m_length := pm_length c,
     m_error := 0, m_buffer := xf_ipc_a2b (pm_address c)\<rparr>) s"

text \<open>The loop over the commands that are committed; the argument \<open>submit\<close> is \<^verbatim>\<open>xf_msg_submit\<close>.\<close>

partial_function (option) input_loop :: "(addr \<Rightarrow> core \<Rightarrow> core option) \<Rightarrow> u32 \<Rightarrow> u32 \<Rightarrow> u32 \<Rightarrow> core \<Rightarrow> (core \<times> u32) option" where
  "input_loop submit status read_idx write_idx s =
     (if XF_QUEUE_EMPTY read_idx write_idx then Some (s, status)
      else case xf_msg_pool_get (c_msg s) (c_pool s) of (h, pool, m) \<Rightarrow>
        let s = s\<lparr>c_msg := h, c_pool := pool\<rparr> in
        if m = NULL then Some (s, status)
        else
          let status = (if XF_QUEUE_FULL read_idx write_idx
                        then status OR (XF_PROXY_STATUS_REMOTE OR XF_PROXY_STATUS_LOCAL)
                        else status OR XF_PROXY_STATUS_LOCAL);
              s = take_command m (c_command s (XF_QUEUE_IDX read_idx)) s;
              read_idx = XF_QUEUE_ADVANCE_IDX read_idx;
              s = s\<lparr>c_cmd_read_idx := read_idx\<rparr>
          in Option.bind (submit m s) (\<lambda>s. input_loop submit status read_idx write_idx s))"

definition xf_shmem_process_input :: "env \<Rightarrow> core \<Rightarrow> (core \<times> u32) option" where
  "xf_shmem_process_input E s =
     input_loop (xf_msg_submit (complete E) E) 0 (c_cmd_read_idx s) (c_cmd_write_idx s) s"

definition response_of :: "xf_message \<Rightarrow> proxy_message" where
  "response_of m = \<lparr>pm_session_id = m_id m, pm_opcode = m_opcode m, pm_length = m_length m,
     pm_address = xf_ipc_b2a (m_buffer m), pm_error = m_error m\<rparr>"

partial_function (option) output_loop :: "u32 \<Rightarrow> u32 \<Rightarrow> u32 \<Rightarrow> core \<Rightarrow> (core \<times> u32) option" where
  "output_loop status read_idx write_idx s =
     (if XF_QUEUE_FULL read_idx write_idx then Some (s, status)
      else case xf_msg_proxy_get s of (s, m) \<Rightarrow>
        if m = NULL then Some (s, status)
        else
          let status = XF_PROXY_STATUS_REMOTE OR XF_PROXY_STATUS_LOCAL;
              s = s\<lparr>c_response := (c_response s)(XF_QUEUE_IDX write_idx := response_of (c_msg s m))\<rparr>
          in case xf_msg_pool_put (c_msg s) (c_pool s) m of (h, pool) \<Rightarrow>
            let s = s\<lparr>c_msg := h, c_pool := pool\<rparr>;
                write_idx = XF_QUEUE_ADVANCE_IDX write_idx;
                s = s\<lparr>c_rsp_write_idx := write_idx\<rparr>
            in output_loop status read_idx write_idx s)"

definition xf_shmem_process_output :: "core \<Rightarrow> (core \<times> u32) option" where
  "xf_shmem_process_output s = output_loop 0 (c_rsp_read_idx s) (c_rsp_write_idx s) s"

text \<open>One round of \<^verbatim>\<open>xf_shmem_process_queues\<close>, and the rounds until nothing happens.\<close>

definition process_round :: "env \<Rightarrow> core \<Rightarrow> (core \<times> u32) option" where
  "process_round E s = do {
     (s, a) \<leftarrow> xf_shmem_process_output s;
     (s, b) \<leftarrow> xf_shmem_process_input E s;
     let status = a OR b;
     Some (if status AND XF_PROXY_STATUS_REMOTE \<noteq> 0 then xf_ipi_assert s else s, status)
   }"

partial_function (option) xf_shmem_process_queues :: "env \<Rightarrow> core \<Rightarrow> core option" where
  "xf_shmem_process_queues E s =
     Option.bind (process_round E s) (\<lambda>(s, status). if status \<noteq> 0 then xf_shmem_process_queues E s else Some s)"

section \<open>Initialisation\<close>

text \<open>The offset of the pool in \<^verbatim>\<open>xf_shmem_data_t\<close>: two rings of 256 messages of 24 bytes, page-aligned.\<close>

definition shmem_header :: u32 where
  "shmem_header = 16384"

definition xf_ipc_init :: "core \<Rightarrow> (core \<times> int) option" where
  "xf_ipc_init s =
     (let t = XAF_MEM_ID_DEV; M = c_mem s in
      case xf_mm_init (shared_pool M t) (shmem_buffer M t) (c_ap_shmem_size s t - shmem_header) of
        Inl e \<Rightarrow> Some (s, e)
      | Inr None \<Rightarrow> None
      | Inr (Some pool) \<Rightarrow>
          Some (s\<lparr>c_mem := M\<lparr>shared_pool := (shared_pool M)(t := pool)\<rparr>, c_msgq_event := False, c_die_event := False\<rparr>, 0))"

text \<open>The loop over further memory types of the device is empty in this build.\<close>

definition xf_shmem_init :: "core \<Rightarrow> (core \<times> int) option" where
  "xf_shmem_init s =
     (let s = s\<lparr>c_remote := xf_msg_queue_init\<rparr> in do {
        (M, h, pool, r) \<leftarrow> xf_msg_pool_init (c_mem s) (c_msg s) (c_pool s) XF_CFG_MESSAGE_POOL_SIZE XAF_MEM_ID_COMP;
        let s = s\<lparr>c_mem := M, c_msg := h, c_pool := pool\<rparr>;
        if r < 0 then Some (s, r) else xf_ipc_init s
      })"

definition xf_core_init :: "u32 \<Rightarrow> core \<Rightarrow> (core \<times> int) option" where
  "xf_core_init core cd =
     (let cd = cmap_init cd;
          cd = cd\<lparr>c_nodes := xf_sched_init (c_sched cd) (c_nodes cd), c_queue := xf_msg_queue_init\<rparr>
      in do {
        (cd, r) \<leftarrow> (if xf_shmem_enabled core then xf_shmem_init cd else Some (cd, 0));
        if r < 0 then Some (cd, r) else Some (cd\<lparr>c_scratch := NULL\<rparr>, 0)
      })"

section \<open>The service loop\<close>

partial_function (option) backlog_loop :: "env \<Rightarrow> u32 \<Rightarrow> bool \<Rightarrow> core \<Rightarrow> (core \<times> bool) option" where
  "backlog_loop E core status s =
     (case xf_msg_local_get s of (s, m) \<Rightarrow>
        if m = NULL then Some (s, status)
        else Option.bind (xf_core_dispatch (complete E) E core m s) (\<lambda>s. backlog_loop E core True s))"

definition service_round :: "env \<Rightarrow> u32 \<Rightarrow> core \<Rightarrow> (core \<times> bool) option" where
  "service_round E core s = do {
     s \<leftarrow> (if xf_shmem_enabled core then xf_shmem_process_queues E s else Some s);
     (s, status) \<leftarrow> backlog_loop E core False s;
     if c_n_workers s = 0 then do {
       (h, t) \<leftarrow> xf_sched_get (c_sched s) (c_nodes s);
       let s = s\<lparr>c_nodes := h\<rparr>;
       if t \<noteq> NULL then do { s \<leftarrow> xf_comp_process (complete E) E t s; Some (s, True) } else Some (s, status) }
     else Some (s, status)
   }"

partial_function (option) xf_core_service :: "env \<Rightarrow> u32 \<Rightarrow> core \<Rightarrow> core option" where
  "xf_core_service E core s =
     Option.bind (service_round E core s) (\<lambda>(s, status). if status then xf_core_service E core s else Some s)"

end
