(* ===== verification/Clients.thy ===== *)
theory Clients
  imports Shmem
begin

text \<open>
  The client map of the core refines a finite map (\<open>cmap_rel\<close>): initialisation gives the empty map,
  and allocation, release and lookup keep the relation. The contract is the locale \<open>registry\<close>, which
  the code's functions interpret.
\<close>

section \<open>The client map as a finite map\<close>

text \<open>
  The free descriptors form a list through their entries, ending in \<open>XF_CFG_MAX_CLIENTS\<close>; every
  other entry holds the component of a client. Component pointers lie above the client numbers.
\<close>

fun free_chain :: "(u32 \<Rightarrow> u32) \<Rightarrow> u32 \<Rightarrow> u32 list \<Rightarrow> bool" where
  "free_chain f a [] \<longleftrightarrow> a = XF_CFG_MAX_CLIENTS"
| "free_chain f a (x # xs) \<longleftrightarrow> a = x \<and> x < XF_CFG_MAX_CLIENTS \<and> free_chain f (f x) xs"

definition cmap_rel :: "core \<Rightarrow> u32 list \<Rightarrow> (u32 \<rightharpoonup> addr) \<Rightarrow> bool" where
  "cmap_rel s fs L \<longleftrightarrow> free_chain (c_cmap s) (c_free s) fs \<and> distinct fs \<and>
     (\<forall>c. c < XF_CFG_MAX_CLIENTS \<longrightarrow> (c \<in> set fs \<longleftrightarrow> L c = None)) \<and>
     (\<forall>c a. L c = Some a \<longrightarrow> c < XF_CFG_MAX_CLIENTS \<and> a > XF_CFG_MAX_CLIENTS \<and> c_cmap s c = a)"

lemma free_chain_frame [frame]: "c \<notin> set fs \<Longrightarrow> free_chain (f(c := v)) a fs = free_chain f a fs"
  by (induction fs arbitrary: a) auto

lemma free_chain_below: "free_chain f a fs \<Longrightarrow> c \<in> set fs \<Longrightarrow> c < XF_CFG_MAX_CLIENTS \<and> f c \<le> XF_CFG_MAX_CLIENTS"
proof (induction fs arbitrary: a)
  case (Cons x xs)
  have "f x \<le> XF_CFG_MAX_CLIENTS" using Cons.prems(1) by (cases xs) auto
  with Cons show ?case by auto
qed simp

lemma cmap_lookup:
  assumes "cmap_rel s fs L" and "c < XF_CFG_MAX_CLIENTS"
  shows "xf_client_lookup s c = (case L c of None \<Rightarrow> NULL | Some a \<Rightarrow> a)"
proof (cases "L c")
  case None
  then have "c_cmap s c \<le> XF_CFG_MAX_CLIENTS" using assms free_chain_below unfolding cmap_rel_def by blast
  with None show ?thesis by (simp add: xf_client_lookup_def not_less [symmetric])
next
  case (Some a)
  with assms show ?thesis by (simp add: cmap_rel_def xf_client_lookup_def)
qed

lemma cmap_full:
  assumes "cmap_rel s [] L"
  shows "xf_client_alloc s = (s, XF_CFG_MAX_CLIENTS)"
  using assms by (simp add: cmap_rel_def xf_client_alloc_def)

text \<open>A descriptor that was taken is registered, or given back.\<close>

lemma cmap_take:
  assumes "cmap_rel s (c # fs) L"
  shows "xf_client_alloc s = (s\<lparr>c_free := c_cmap s c\<rparr>, c)" and "c < XF_CFG_MAX_CLIENTS" and "L c = None"
    and "XF_CFG_MAX_CLIENTS < a \<Longrightarrow>
      cmap_rel (s\<lparr>c_free := c_cmap s c, c_cmap := (c_cmap s)(c := a)\<rparr>) fs (L(c \<mapsto> a))"
    and "cmap_rel (xf_client_free (s\<lparr>c_free := c_cmap s c\<rparr>) c) (c # fs) L"
proof -
  have h: "c_free s = c" "c < XF_CFG_MAX_CLIENTS" "free_chain (c_cmap s) (c_cmap s c) fs" "c \<notin> set fs" "L c = None"
    using assms by (auto simp: cmap_rel_def)
  show "xf_client_alloc s = (s\<lparr>c_free := c_cmap s c\<rparr>, c)" "c < XF_CFG_MAX_CLIENTS" "L c = None"
    using h by (simp_all add: xf_client_alloc_def)
  show "cmap_rel (s\<lparr>c_free := c_cmap s c, c_cmap := (c_cmap s)(c := a)\<rparr>) fs (L(c \<mapsto> a))"
    if "XF_CFG_MAX_CLIENTS < a"
    using assms h that by (auto simp: cmap_rel_def frame)
  have "(c_cmap s)(c := c_cmap s c) = c_cmap s" by simp
  then show "cmap_rel (xf_client_free (s\<lparr>c_free := c_cmap s c\<rparr>) c) (c # fs) L"
    using assms h by (simp add: cmap_rel_def xf_client_free_def)
qed

lemma cmap_free:
  assumes "cmap_rel s fs L" and "L c = Some a"
  shows "cmap_rel (xf_client_free s c) (c # fs) (L(c := None))"
proof -
  have "c < XF_CFG_MAX_CLIENTS" "c \<notin> set fs" using assms unfolding cmap_rel_def by fastforce+
  then show ?thesis using assms by (auto simp: cmap_rel_def xf_client_free_def frame)
qed

subsection \<open>Initialisation\<close>

lemma cmap_loop:
  "k \<le> 64 \<Longrightarrow> fold link_free [0 ..< k] s = s\<lparr>c_cmap := (\<lambda>c. if unat c < k then c + 1 else c_cmap s c)\<rparr>"
proof (induction k)
  case (Suc k)
  have "unat (word_of_nat k :: u32) = k" using Suc.prems by (simp add: unat_of_nat)
  then have "c = word_of_nat k \<longleftrightarrow> unat c = k" for c :: u32 by (simp add: word_unat_eq_iff)
  then have "(\<lambda>c. if unat c < k then c + 1 else c_cmap s c)(word_of_nat k := word_of_nat k + 1) =
      (\<lambda>c. if unat c < Suc k then c + 1 else c_cmap s c)"
    by (auto simp: fun_eq_iff less_Suc_eq)
  moreover have "fold link_free [0 ..< Suc k] s = link_free k (fold link_free [0 ..< k] s)" by simp
  ultimately show ?case using Suc unfolding link_free_def by simp
qed simp

lemma free_chain_upt:
  "k \<le> 64 \<Longrightarrow> \<forall>i < 64. f (word_of_nat i) = word_of_nat i + 1 \<Longrightarrow>
   free_chain f (word_of_nat (64 - k)) (map word_of_nat [64 - k ..< 64])"
proof (induction k)
  case 0
  show ?case by (simp add: XF_CFG_MAX_CLIENTS_def)
next
  case (Suc k)
  let ?i = "64 - Suc k"
  have i: "Suc ?i = 64 - k" "?i < 64" using Suc.prems(1) by simp_all
  have "unat (word_of_nat ?i :: u32) = ?i" by (simp add: unat_of_nat)
  then have lt: "(word_of_nat ?i :: u32) < XF_CFG_MAX_CLIENTS"
    using i(2) by (simp add: XF_CFG_MAX_CLIENTS_def word_less_nat_alt)
  have "f (word_of_nat ?i) = word_of_nat (64 - k)"
    using Suc.prems(2) i by (metis of_nat_Suc add.commute)
  moreover have "[?i ..< 64] = ?i # [64 - k ..< 64]" using i by (simp add: upt_conv_Cons)
  ultimately show ?case using Suc lt by simp
qed

lemma cmap_init_rel: "cmap_rel (cmap_init s) (map word_of_nat [0 ..< 64]) Map.empty"
proof -
  have m: "unat XF_CFG_MAX_CLIENTS = 64" by (simp add: XF_CFG_MAX_CLIENTS_def)
  have init: "c_cmap (cmap_init s) = (\<lambda>c. if unat c < 64 then c + 1 else c_cmap s c)" "c_free (cmap_init s) = 0"
    unfolding cmap_init_def m cmap_loop [OF order_refl] by simp_all
  have u: "unat (word_of_nat i :: u32) = i" if "i < 64" for i using that by (simp add: unat_of_nat)
  have "free_chain (c_cmap (cmap_init s)) (word_of_nat (64 - 64)) (map word_of_nat [64 - 64 ..< 64])"
    by (rule free_chain_upt) (simp_all add: init u)
  moreover have "distinct (map (word_of_nat :: nat \<Rightarrow> u32) [0 ..< 64])"
    unfolding distinct_map by (rule conjI, simp, rule inj_onI) (metis u atLeastLessThan_iff set_upt)
  moreover have "c \<in> set (map word_of_nat [0 ..< 64])" if "c < XF_CFG_MAX_CLIENTS" for c :: u32
  proof -
    have "unat c < 64" using that m by (simp add: word_less_nat_alt)
    then have "unat c \<in> set [0 ..< 64]" by simp
    then have "word_of_nat (unat c) \<in> set (map word_of_nat [0 ..< 64] :: u32 list)" unfolding set_map by (rule imageI)
    then show ?thesis by simp
  qed
  ultimately show ?thesis by (simp add: cmap_rel_def init)
qed

section \<open>The contract of the client map\<close>

text \<open>
  A client sees a finite map: \<open>add\<close> answers a number that is not in use, or \<open>full\<close> when all are;
  \<open>look\<close> gives the component of a live number; \<open>remove\<close> makes a live number free. \<open>registry_run\<close> is any
  sequence of the operations with their answers; numbers that are not live are not removed.
\<close>

datatype registry_op = Add addr | Remove u32

fun registry_run :: "('s \<Rightarrow> addr \<Rightarrow> 's \<times> u32) \<Rightarrow> ('s \<Rightarrow> u32 \<Rightarrow> 's) \<Rightarrow> ('s \<Rightarrow> u32 \<Rightarrow> addr) \<Rightarrow> u32 \<Rightarrow>
    registry_op list \<Rightarrow> 's \<Rightarrow> 's \<times> u32 list" where
  "registry_run add remove look full [] s = (s, [])"
| "registry_run add remove look full (Add a # ops) s =
     (let (s, c) = add s a; (s, cs) = registry_run add remove look full ops s in (s, c # cs))"
| "registry_run add remove look full (Remove c # ops) s =
     (let s = (if c < full \<and> look s c \<noteq> NULL then remove s c else s);
          (s, cs) = registry_run add remove look full ops s in (s, c # cs))"

text \<open>The finite map after the operations, and what the answers must be.\<close>

fun registry_map :: "u32 \<Rightarrow> registry_op list \<Rightarrow> u32 list \<Rightarrow> (u32 \<rightharpoonup> addr) \<Rightarrow> (u32 \<rightharpoonup> addr)" where
  "registry_map full (Add a # ops) (c # cs) L = registry_map full ops cs (if c = full then L else L(c \<mapsto> a))"
| "registry_map full (Remove c # ops) (_ # cs) L = registry_map full ops cs (L(c := None))"
| "registry_map full _ _ L = L"

fun registry_fair :: "u32 \<Rightarrow> registry_op list \<Rightarrow> u32 list \<Rightarrow> (u32 \<rightharpoonup> addr) \<Rightarrow> bool" where
  "registry_fair full (Add a # ops) (c # cs) L \<longleftrightarrow>
     (c = full \<and> dom L = {..< full} \<or> c < full \<and> L c = None) \<and>
     registry_fair full ops cs (if c = full then L else L(c \<mapsto> a))"
| "registry_fair full (Remove c # ops) (_ # cs) L \<longleftrightarrow> registry_fair full ops cs (L(c := None))"
| "registry_fair full _ _ L \<longleftrightarrow> True"

locale registry =
  fixes add :: "'s \<Rightarrow> addr \<Rightarrow> 's \<times> u32"
    and remove :: "'s \<Rightarrow> u32 \<Rightarrow> 's"
    and look :: "'s \<Rightarrow> u32 \<Rightarrow> addr"
    and rel :: "'s \<Rightarrow> (u32 \<rightharpoonup> addr) \<Rightarrow> bool"
    and valid :: "addr \<Rightarrow> bool"
    and full :: u32
  assumes look_rel: "rel s L \<Longrightarrow> c < full \<Longrightarrow> look s c = (case L c of None \<Rightarrow> NULL | Some a \<Rightarrow> a)"
    and live_rel: "rel s L \<Longrightarrow> L c = Some a \<Longrightarrow> c < full \<and> a \<noteq> NULL"
    and add_rel: "rel s L \<Longrightarrow> valid a \<Longrightarrow>
      snd (add s a) = full \<and> dom L = {..< full} \<and> rel (fst (add s a)) L \<or>
      snd (add s a) < full \<and> L (snd (add s a)) = None \<and> rel (fst (add s a)) (L(snd (add s a) \<mapsto> a))"
    and remove_rel: "rel s L \<Longrightarrow> L c = Some a \<Longrightarrow> rel (remove s c) (L(c := None))"
begin

lemma remove_guarded:
  "rel s L \<Longrightarrow> rel (if c < full \<and> look s c \<noteq> NULL then remove s c else s) (L(c := None))"
proof -
  assume rel: "rel s L"
  show ?thesis
  proof (cases "L c")
    case None
    then have "L(c := None) = L" by auto
    with None rel show ?thesis using look_rel [OF rel, of c] by auto
  next
    case (Some a)
    then show ?thesis using rel live_rel [OF rel Some] look_rel [OF rel, of c] remove_rel [OF rel Some] by simp
  qed
qed

lemma run_ok:
  "rel s L \<Longrightarrow> \<forall>a. Add a \<in> set ops \<longrightarrow> valid a \<Longrightarrow>
   registry_fair full ops (snd (registry_run add remove look full ops s)) L \<and>
   rel (fst (registry_run add remove look full ops s))
     (registry_map full ops (snd (registry_run add remove look full ops s)) L)"
proof (induction ops arbitrary: s L)
  case (Cons x ops)
  show ?case
  proof (cases x)
    case (Add a)
    then have "valid a" using Cons.prems(2) by simp
    from add_rel [OF Cons.prems(1) this] Cons.IH Cons.prems(2) Add show ?thesis
      by (auto simp: split_beta)
  next
    case (Remove c)
    define t where "t = (if c < full \<and> look s c \<noteq> NULL then remove s c else s)"
    have "registry_run add remove look full (x # ops) s =
        (fst (registry_run add remove look full ops t), c # snd (registry_run add remove look full ops t))"
      unfolding Remove by (simp only: registry_run.simps Let_def split_beta t_def)
    moreover have "rel t (L(c := None))" unfolding t_def by (rule remove_guarded [OF Cons.prems(1)])
    ultimately show ?thesis using Cons.IH Cons.prems(2) Remove by simp
  qed
qed simp

end

definition client_add :: "core \<Rightarrow> addr \<Rightarrow> core \<times> u32" where
  "client_add s a =
     (let (s, c) = xf_client_alloc s in
      (if c = XF_CFG_MAX_CLIENTS then s else s\<lparr>c_cmap := (c_cmap s)(c := a)\<rparr>, c))"

definition cmap_holds :: "core \<Rightarrow> (u32 \<rightharpoonup> addr) \<Rightarrow> bool" where
  "cmap_holds s L \<longleftrightarrow> (\<exists>fs. cmap_rel s fs L)"

interpretation clients: registry client_add xf_client_free xf_client_lookup cmap_holds
  "\<lambda>a. XF_CFG_MAX_CLIENTS < a" XF_CFG_MAX_CLIENTS
proof
  show "xf_client_lookup s c = (case L c of None \<Rightarrow> NULL | Some a \<Rightarrow> a)"
    if "cmap_holds s L" "c < XF_CFG_MAX_CLIENTS" for s L c
    using that cmap_lookup by (auto simp: cmap_holds_def)
  show "c < XF_CFG_MAX_CLIENTS \<and> a \<noteq> NULL" if "cmap_holds s L" "L c = Some a" for s L c a
  proof -
    have "c < XF_CFG_MAX_CLIENTS" "XF_CFG_MAX_CLIENTS < a" using that unfolding cmap_holds_def cmap_rel_def by blast+
    then show ?thesis by auto
  qed
  show "cmap_holds (xf_client_free s c) (L(c := None))" if "cmap_holds s L" "L c = Some a" for s L c a
    using that cmap_free unfolding cmap_holds_def by blast
  show "snd (client_add s a) = XF_CFG_MAX_CLIENTS \<and> dom L = {..< XF_CFG_MAX_CLIENTS} \<and> cmap_holds (fst (client_add s a)) L \<or>
      snd (client_add s a) < XF_CFG_MAX_CLIENTS \<and> L (snd (client_add s a)) = None \<and>
      cmap_holds (fst (client_add s a)) (L(snd (client_add s a) \<mapsto> a))"
    if "cmap_holds s L" "XF_CFG_MAX_CLIENTS < a" for s L a
  proof -
    obtain fs where fs: "cmap_rel s fs L" using \<open>cmap_holds s L\<close> by (auto simp: cmap_holds_def)
    show ?thesis
    proof (cases fs)
      case Nil
      then have "dom L = {..< XF_CFG_MAX_CLIENTS}" using fs by (fastforce simp: cmap_rel_def)
      with Nil fs show ?thesis by (auto simp: client_add_def cmap_full cmap_holds_def)
    next
      case (Cons c cs)
      note t = cmap_take [OF fs [unfolded Cons]]
      have "c \<noteq> XF_CFG_MAX_CLIENTS" using t(2) by simp
      then have "client_add s a = (s\<lparr>c_free := c_cmap s c, c_cmap := (c_cmap s)(c := a)\<rparr>, c)"
        using t(1) by (simp add: client_add_def)
      with t(2,3) t(4) [OF that(2)] show ?thesis by (auto simp: cmap_holds_def)
    qed
  qed
qed

section \<open>Properties of the client map\<close>

text \<open>
  C29. The client map is a finite map with at most 64 clients: whatever sequence of registrations
  and releases follows the initialisation, every registration gets a number that no live client
  has, or 64 exactly when all numbers are in use, and a lookup finds the component registered last
  under the number, or \<^verbatim>\<open>NULL\<close> when it has been released.
\<close>

theorem client_map_refines:
  assumes "\<forall>a. Add a \<in> set ops \<longrightarrow> XF_CFG_MAX_CLIENTS < a"
    and "registry_run client_add xf_client_free xf_client_lookup XF_CFG_MAX_CLIENTS ops (cmap_init s) = (s', cs)"
    and "c < XF_CFG_MAX_CLIENTS"
  shows "registry_fair XF_CFG_MAX_CLIENTS ops cs Map.empty \<and>
    xf_client_lookup s' c =
      (case registry_map XF_CFG_MAX_CLIENTS ops cs Map.empty c of None \<Rightarrow> NULL | Some a \<Rightarrow> a)"
proof -
  have "cmap_holds (cmap_init s) Map.empty" using cmap_init_rel by (auto simp: cmap_holds_def)
  from clients.run_ok [OF this assms(1)] assms(2) have
    "registry_fair XF_CFG_MAX_CLIENTS ops cs Map.empty \<and>
     cmap_holds s' (registry_map XF_CFG_MAX_CLIENTS ops cs Map.empty)" by simp
  with clients.look_rel assms(3) show ?thesis by blast
qed

text \<open>A core with nothing in it.\<close>

definition no_msg :: xf_message where
  "no_msg = \<lparr>m_next = 0, m_id = 0, m_opcode = 0, m_length = 0, m_buffer = 0, m_error = 0\<rparr>"

definition no_pm :: proxy_message where
  "no_pm = \<lparr>pm_session_id = 0, pm_opcode = 0, pm_length = 0, pm_address = 0, pm_error = 0\<rparr>"

definition demo_core :: core where
  "demo_core = \<lparr>c_msg = \<lambda>_. no_msg, c_bytes = \<lambda>_. 0,
     c_nodes = \<lambda>_. \<lparr>nd_parent = 0, nd_left = 0, nd_right = 0, nd_color = 0\<rparr>, c_mem = demo_mem demo_pool,
     c_component = \<lambda>_. \<lparr>co_id = 0, co_priority = 0, co_mem_pool_type = []\<rparr>, c_sched = 0,
     c_queue = xf_msg_queue_init, c_cmap = \<lambda>_. 0, c_free = 0, c_scratch = 0, c_n_workers = 0, c_worker_base = 0,
     c_worker = \<lambda>_. \<lparr>wk_core = 0, wk_stack = 0, wk_scratch = 0, wk_queue = 0, wk_msgs = [], wk_local = xf_msg_queue_init, wk_sched = 0\<rparr>,
     c_default_priority = 0, c_scratch_size = \<lambda>_. 0, c_stack_size = \<lambda>_. 0, c_dsp_priority = 0, c_frmwk_local = 0,
     c_ap_shmem_size = \<lambda>_. 0, c_pool = \<lparr>pl_p = 0, pl_head = 0, pl_n = 0\<rparr>, c_remote = xf_msg_queue_init,
     c_msgq_event = False, c_die_event = False, c_host_notified = False, c_command = \<lambda>_. no_pm, c_cmd_write_idx = 0,
     c_rsp_read_idx = 0, c_response = \<lambda>_. no_pm, c_rsp_write_idx = 0, c_cmd_read_idx = 0\<rparr>"

theorem client_map_refines_witness:
  "\<exists>s' cs. registry_run client_add xf_client_free xf_client_lookup XF_CFG_MAX_CLIENTS
      [Add 4096, Add 8192, Remove 0, Add 12288] (cmap_init demo_core) = (s', cs) \<and>
    registry_fair XF_CFG_MAX_CLIENTS [Add 4096, Add 8192, Remove 0, Add 12288] cs Map.empty \<and>
    xf_client_lookup s' 1 = (case registry_map XF_CFG_MAX_CLIENTS [Add 4096, Add 8192, Remove 0, Add 12288] cs Map.empty 1 of
      None \<Rightarrow> NULL | Some a \<Rightarrow> a)"
proof -
  let ?ops = "[Add 4096, Add 8192, Remove 0, Add 12288]"
  obtain s' cs where r: "registry_run client_add xf_client_free xf_client_lookup XF_CFG_MAX_CLIENTS ?ops (cmap_init demo_core) = (s', cs)"
    by (metis surj_pair)
  have "\<forall>a. Add a \<in> set ?ops \<longrightarrow> XF_CFG_MAX_CLIENTS < a" "(1 :: u32) < XF_CFG_MAX_CLIENTS"
    by (auto simp: XF_CFG_MAX_CLIENTS_def)
  from client_map_refines [OF this(1) r this(2)] r show ?thesis by blast
qed

end
