(* ===== verification/Core_Thms.thy ===== *)
theory Core_Thms
  imports Clients
begin

text \<open>
  Properties of the core (\<^verbatim>\<open>xf-core.c\<close>): a completion delivers the message to at most one queue, and
  the fuel \<open>complete_fuel\<close> is enough for it; the removal of a client from the queue of its
  worker answers the messages of the client and keeps the others in order; registration with the
  client map of theory Clients; the checks of the proxy commands; the translation of addresses.
\<close>

section \<open>Updates of one message\<close>

lemma upd_msg_simps [simp]:
  "c_msg (upd_msg m f s) m = f (c_msg s m)" "c_msg (upd_msg m f s) = (c_msg s)(m := f (c_msg s m))"
  "c_cmap (upd_msg m f s) = c_cmap s" "c_free (upd_msg m f s) = c_free s" "c_n_workers (upd_msg m f s) = c_n_workers s"
  "c_worker (upd_msg m f s) = c_worker s" "c_component (upd_msg m f s) = c_component s"
  "c_queue (upd_msg m f s) = c_queue s" "c_remote (upd_msg m f s) = c_remote s" "c_pool (upd_msg m f s) = c_pool s"
  "upd_msg m f (upd_msg m g s) = upd_msg m (f \<circ> g) s"
  by (simp_all add: upd_msg_def)

lemma lookup_cong: "c_cmap s' = c_cmap s \<Longrightarrow> xf_client_lookup s' = xf_client_lookup s"
  by (simp add: xf_client_lookup_def fun_eq_iff)

lemma lookup_upd_msg [simp]: "xf_client_lookup (upd_msg m f s) = xf_client_lookup s"
  by (rule lookup_cong) simp

lemma turn_opcode_twice [simp]: "turn_opcode (turn_opcode x) = x"
  by (simp add: turn_opcode_def XF_EMPTY_THIS_BUFFER_def XF_FILL_THIS_BUFFER_def XF_OPCODE_def)

lemma turn_opcode_event: "turn_opcode x = XF_EVENT \<longleftrightarrow> x = XF_EVENT"
  by (simp add: turn_opcode_def XF_EMPTY_THIS_BUFFER_def XF_FILL_THIS_BUFFER_def XF_OPCODE_def XF_EVENT_def)

lemma turn_id_eq: "turn_id m s = upd_msg m (\<lambda>x. x\<lparr>m_id := swap_id (m_id x)\<rparr>) s"
  by (simp add: turn_id_def upd_msg_def swap_id_def Let_def)

lemma turn_opcode_update: "m_opcode_update turn_opcode = (\<lambda>x. x\<lparr>m_opcode := turn_opcode (m_opcode x)\<rparr>)"
proof
  show "m_opcode_update turn_opcode x = x\<lparr>m_opcode := turn_opcode (m_opcode x)\<rparr>" for x by (cases x) simp
qed

section \<open>Where a completed message goes\<close>

text \<open>The message with its ports exchanged and its buffer opcode turned.\<close>

definition turned :: "addr \<Rightarrow> core \<Rightarrow> core" where
  "turned m = upd_msg m (\<lambda>x. x\<lparr>m_id := swap_id (m_id x), m_opcode := turn_opcode (m_opcode x)\<rparr>)"

text \<open>A message of the host that cannot be delivered, and one of a component.\<close>

definition refused :: "addr \<Rightarrow> core \<Rightarrow> core" where
  "refused m = upd_msg m (\<lambda>x. if m_opcode x = XF_EVENT then x\<lparr>m_error := word_of_int XAF_INVALIDPTR_ERR\<rparr>
     else x\<lparr>m_opcode := XF_UNREGISTER, m_length := 0\<rparr>)"

definition failed :: "addr \<Rightarrow> core \<Rightarrow> core" where
  "failed m = upd_msg m (\<lambda>x. x\<lparr>m_length := XF_MSG_LENGTH_INVALID\<rparr>)"

definition worker_of :: "core \<Rightarrow> addr \<Rightarrow> u32" where
  "worker_of s c = (let p = co_priority (c_component s c) in if p < c_n_workers s then p else c_n_workers s - 1)"

lemma worker_of_upd_msg [simp]: "worker_of (upd_msg m f s) = worker_of s"
  by (simp add: worker_of_def fun_eq_iff Let_def)

definition routed_to :: "addr \<Rightarrow> core \<Rightarrow> core" where
  "routed_to m s =
     (let i = swap_id (m_id (c_msg s m));
          a = xf_client_lookup s (XF_MSG_SRC_CLIENT i); b = xf_client_lookup s (XF_MSG_DST_CLIENT i)
      in if XF_MSG_DST_PROXY i then xf_msg_proxy_put m (turn_id m s)
         else if c_n_workers s = 0 then xf_msg_local_put m (turned m s)
         else if \<not> XF_MSG_SRC_PROXY i \<and> a \<noteq> NULL \<and> b \<noteq> NULL \<and> co_priority (c_component s a) = co_priority (c_component s b)
         then local_enqueue (co_priority (c_component s b)) m (turned m s)
         else if b \<noteq> NULL then msgq_send (worker_of s b) \<lparr>wm_component = b, wm_msg = m\<rparr> (turned m s)
         else if XF_MSG_SRC_PROXY i then xf_msg_proxy_put m (refused m s)
         else if m_error (c_msg s m) = 0 \<and> a \<noteq> NULL
         then msgq_send (worker_of s a) \<lparr>wm_component = a, wm_msg = m\<rparr> (failed m s)
         else turned m s)"

lemma submit_upd:
  assumes "c_n_workers s \<noteq> 0" and "\<not> XF_MSG_DST_PROXY (m_id (c_msg s m))"
  shows "xf_msg_submit cpl E m s =
    (let i = m_id (c_msg s m);
         a = xf_client_lookup s (XF_MSG_SRC_CLIENT i); b = xf_client_lookup s (XF_MSG_DST_CLIENT i)
     in if \<not> XF_MSG_SRC_PROXY i \<and> a \<noteq> NULL \<and> b \<noteq> NULL \<and> co_priority (c_component s a) = co_priority (c_component s b)
        then Some (local_enqueue (co_priority (c_component s b)) m s)
        else if b \<noteq> NULL then Some (msgq_send (worker_of s b) \<lparr>wm_component = b, wm_msg = m\<rparr> s)
        else if XF_MSG_SRC_PROXY i then cpl m (refused m s)
        else if m_error (c_msg s m) = 0 \<and> a \<noteq> NULL then cpl m (failed m s)
        else Some s)"
proof -
  have r: "(if m_opcode (c_msg s m) = XF_EVENT
      then core_response cpl m (upd_msg m (m_error_update (\<lambda>_. word_of_int XAF_INVALIDPTR_ERR)) s)
      else core_response_err cpl m s) = cpl m (refused m s)"
    by (simp add: core_response_def core_response_err_def refused_def upd_msg_def)
  have f: "core_response_failure cpl m s = cpl m (failed m s)"
    by (simp add: core_response_failure_def failed_def)
  show ?thesis
    using assms r f
    by (simp add: xf_msg_submit_def xf_core_dispatch_def xf_comp_process_message_def xf_comp_send_def worker_of_def
        sender_waits_def Let_def)
qed

lemma complete_routed:
  "xf_msg_complete (Suc (Suc k)) E m s = Some (routed_to m s)"
proof -
  let ?i = "swap_id (m_id (c_msg s m))"
  let ?cpl = "xf_msg_complete (Suc k) E"
  have c: "xf_msg_complete (Suc j) E m t =
      (if XF_MSG_DST_PROXY (swap_id (m_id (c_msg t m))) then Some (xf_msg_proxy_put m (turn_id m t))
       else xf_msg_submit (xf_msg_complete j E) E m (turned m t))" for j t
    by (simp add: turn_id_eq turned_def xf_msg_proxy_complete_def comp_def turn_opcode_update)
  have id: "m_id (c_msg (turned m s) m) = ?i" by (simp add: turned_def)
  show ?thesis
  proof (cases "XF_MSG_DST_PROXY ?i")
    case True
    then show ?thesis unfolding c [of "Suc k"] routed_to_def Let_def by simp
  next
    case out: False
    show ?thesis
    proof (cases "c_n_workers s = 0")
      case True
      then have "xf_msg_submit ?cpl E m (turned m s) = Some (xf_msg_local_put m (turned m s))"
        by (simp add: xf_msg_submit_def turned_def)
      with True out show ?thesis unfolding c [of "Suc k"] routed_to_def Let_def by simp
    next
      case False
      have t: "c_n_workers (turned m s) \<noteq> 0" "\<not> XF_MSG_DST_PROXY (m_id (c_msg (turned m s) m))"
        using False out by (simp_all add: turned_def)
      have l: "xf_client_lookup (turned m s) = xf_client_lookup s" "c_component (turned m s) = c_component s"
        "worker_of (turned m s) = worker_of s" "m_error (c_msg (turned m s) m) = m_error (c_msg s m)"
        by (simp_all add: turned_def)
      have host: "?cpl m (refused m (turned m s)) = Some (xf_msg_proxy_put m (refused m s))" if "XF_MSG_SRC_PROXY ?i"
      proof -
        have "XF_MSG_DST_PROXY (swap_id (m_id (c_msg (refused m (turned m s)) m)))"
          using that by (simp add: refused_def turned_def)
        moreover have "turn_id m (refused m (turned m s)) = refused m s"
          by (simp add: refused_def turned_def turn_id_eq comp_def turn_opcode_event)
            (cases "c_msg s m", simp add: upd_msg_def turn_opcode_def XF_EVENT_def XF_OPCODE_def XF_EMPTY_THIS_BUFFER_def XF_FILL_THIS_BUFFER_def)
        ultimately show ?thesis unfolding c by simp
      qed
      have bounce: "?cpl m (failed m (turned m s)) =
          Some (msgq_send (worker_of s (xf_client_lookup s (XF_MSG_SRC_CLIENT ?i)))
            \<lparr>wm_component = xf_client_lookup s (XF_MSG_SRC_CLIENT ?i), wm_msg = m\<rparr> (failed m s))"
        if "\<not> XF_MSG_SRC_PROXY ?i" "xf_client_lookup s (XF_MSG_SRC_CLIENT ?i) \<noteq> NULL"
          "xf_client_lookup s (XF_MSG_DST_CLIENT ?i) = NULL"
      proof -
        have tt: "turned m (failed m (turned m s)) = failed m s"
          by (simp add: failed_def turned_def comp_def)
        have "c_n_workers (failed m s) \<noteq> 0" "\<not> XF_MSG_DST_PROXY (m_id (c_msg (failed m s) m))"
          using False that(1) by (simp_all add: failed_def)
        from submit_upd [OF this, of "xf_msg_complete k E" E]
        have "xf_msg_submit (xf_msg_complete k E) E m (failed m s) =
          Some (msgq_send (worker_of s (xf_client_lookup s (XF_MSG_SRC_CLIENT ?i)))
            \<lparr>wm_component = xf_client_lookup s (XF_MSG_SRC_CLIENT ?i), wm_msg = m\<rparr> (failed m s))"
          using that by (simp add: failed_def worker_of_def Let_def)
        moreover have "\<not> XF_MSG_DST_PROXY (swap_id (m_id (c_msg (failed m (turned m s)) m)))"
          using that(1) by (simp add: failed_def turned_def)
        ultimately show ?thesis unfolding c tt by simp
      qed
      show ?thesis
        unfolding c [of "Suc k"] routed_to_def Let_def submit_upd [OF t] id l
        using out False host bounce by simp
    qed
  qed
qed

lemma complete_enough: "complete E m s = Some (routed_to m s)"
proof -
  have "complete_fuel = Suc (Suc 2)" by (simp add: complete_fuel_def)
  then show ?thesis using complete_routed [of 2 E m s] by metis
qed

section \<open>Removal of the messages of a client\<close>

lemma enqueue_ids: "m_id (fst (xf_msg_enqueue h q m) y) = m_id (h y)"
  by (simp add: xf_msg_enqueue_def Let_def)

definition set_msgs :: "u32 \<Rightarrow> worker_msg list \<Rightarrow> core \<Rightarrow> core" where
  "set_msgs w q = upd_worker w (wk_msgs_update (\<lambda>_. q))"

lemma set_msgs_simps [simp]:
  "c_msg (set_msgs w q s) = c_msg s" "c_cmap (set_msgs w q s) = c_cmap s" "c_n_workers (set_msgs w q s) = c_n_workers s"
  "c_component (set_msgs w q s) = c_component s" "c_remote (set_msgs w q s) = c_remote s" "c_queue (set_msgs w q s) = c_queue s"
  "wk_msgs (c_worker (set_msgs w q s) w) = q" "wk_local (c_worker (set_msgs w q s) v) = wk_local (c_worker s v)"
  "wk_core (c_worker (set_msgs w q s) v) = wk_core (c_worker s v)"
  "set_msgs w q (set_msgs w q' s) = set_msgs w q s"
  "xf_client_lookup (set_msgs w q s) = xf_client_lookup s"
  by (simp_all add: set_msgs_def upd_worker_def xf_client_lookup_def fun_eq_iff)

lemma upd_msg_set_msgs: "upd_msg m f (set_msgs w q s) = set_msgs w q (upd_msg m f s)"
  by (simp add: upd_msg_def set_msgs_def upd_worker_def)

lemma msgq_send_set_msgs: "msgq_send w x (set_msgs w q s) = set_msgs w (q @ [x]) s"
proof -
  have u: "wk_msgs_update ((\<lambda>q. q @ [x]) \<circ> (\<lambda>_. q)) k = k\<lparr>wk_msgs := q @ [x]\<rparr>" for k :: worker by (cases k) simp
  show ?thesis by (simp add: msgq_send_def set_msgs_def upd_worker_def u)
qed

lemma set_msgs_self: "wk_msgs (c_worker s w) = q \<Longrightarrow> set_msgs w q s = s"
proof -
  have "k\<lparr>wk_msgs := wk_msgs k\<rparr> = k" for k :: worker by simp
  then show "wk_msgs (c_worker s w) = q \<Longrightarrow> set_msgs w q s = s"
    by (auto simp: set_msgs_def upd_worker_def)
qed

lemma set_msgs_commute:
  "v \<noteq> w \<Longrightarrow> msgq_send v x (set_msgs w q s) = set_msgs w q (msgq_send v x s)"
  "local_enqueue v m (set_msgs w q s) = set_msgs w q (local_enqueue v m s)"
  "xf_msg_proxy_put m (set_msgs w q s) = set_msgs w q (xf_msg_proxy_put m s)"
  by (simp_all add: msgq_send_def set_msgs_def upd_worker_def local_enqueue_def xf_msg_proxy_put_def xf_ipi_resume_dsp_def
      split_beta fun_upd_twist fun_eq_iff)

lemma sender_waits_set_msgs [simp]: "sender_waits c m (set_msgs w q s) = sender_waits c m s"
  by (simp add: sender_waits_def)

text \<open>What routing leaves alone.\<close>

lemma routed_to_frame:
  "c_cmap (routed_to m s) = c_cmap s" "c_n_workers (routed_to m s) = c_n_workers s"
  "c_component (routed_to m s) = c_component s" "c_free (routed_to m s) = c_free s"
  "y \<noteq> m \<Longrightarrow> m_id (c_msg (routed_to m s) y) = m_id (c_msg s y)"
  "wk_core (c_worker (routed_to m s) v) = wk_core (c_worker s v)"
  by (simp_all add: routed_to_def xf_msg_proxy_put_def xf_msg_local_put_def local_enqueue_def msgq_send_def upd_worker_def
      turned_def refused_def failed_def turn_id_eq xf_ipi_resume_dsp_def split_beta enqueue_ids Let_def)

text \<open>The answer to one message of the client, and the state in which the purge runs.\<close>

definition for_client :: "core \<Rightarrow> u32 \<Rightarrow> worker_msg \<Rightarrow> bool" where
  "for_client s client x \<longleftrightarrow> wm_msg x \<noteq> NULL \<and> XF_MSG_DST_CLIENT (m_id (c_msg s (wm_msg x))) = client"

definition purge_answer :: "u32 \<Rightarrow> u32 \<Rightarrow> worker_msg \<Rightarrow> core \<Rightarrow> core" where
  "purge_answer client w x s =
     (let m = wm_msg x in
      if \<not> for_client s client x then s
      else if XF_MSG_SRC_PROXY (m_id (c_msg s m))
      then routed_to m (upd_msg m (\<lambda>x. x\<lparr>m_opcode := XF_UNREGISTER, m_length := 0\<rparr>) s)
      else if sender_waits (wk_core (c_worker s w)) m s then routed_to m (failed m s)
      else s)"

definition purge_state :: "u32 \<Rightarrow> u32 \<Rightarrow> core \<Rightarrow> bool" where
  "purge_state client w s \<longleftrightarrow> c_n_workers s \<noteq> 0 \<and> xf_client_lookup s client \<noteq> NULL \<and>
     co_priority (c_component s (xf_client_lookup s client)) = w \<and>
     (\<forall>c. xf_client_lookup s c \<noteq> NULL \<longrightarrow> co_priority (c_component s (xf_client_lookup s c)) < c_n_workers s)"

lemma purge_state_cong:
  "c_cmap s' = c_cmap s \<Longrightarrow> c_n_workers s' = c_n_workers s \<Longrightarrow> c_component s' = c_component s \<Longrightarrow>
   purge_state client w s' = purge_state client w s"
  by (simp add: purge_state_def lookup_cong [of s' s])

lemma purge_answer_frame:
  "c_cmap (purge_answer client w x s) = c_cmap s" "c_n_workers (purge_answer client w x s) = c_n_workers s"
  "c_component (purge_answer client w x s) = c_component s"
  "y \<noteq> wm_msg x \<Longrightarrow> m_id (c_msg (purge_answer client w x s) y) = m_id (c_msg s y)"
  "wk_core (c_worker (purge_answer client w x s) v) = wk_core (c_worker s v)"
  by (simp_all add: purge_answer_def routed_to_frame failed_def Let_def)

lemma purge_answer_state: "purge_state client w (purge_answer client w x s) = purge_state client w s"
  by (rule purge_state_cong) (simp_all add: purge_answer_frame)

text \<open>Answers do not go to the queue that is purged.\<close>

lemma routed_set_msgs:
  assumes st: "purge_state client w s" and c: "XF_MSG_DST_CLIENT (m_id (c_msg s m)) = client"
    and np: "\<not> XF_MSG_DST_PROXY (m_id (c_msg s m))"
    and src: "XF_MSG_SRC_PROXY (m_id (c_msg s m)) \<or> xf_client_lookup s (XF_MSG_SRC_CLIENT (m_id (c_msg s m))) \<noteq> NULL"
  shows "routed_to m (set_msgs w q s) = set_msgs w q (routed_to m s)"
proof -
  let ?i = "swap_id (m_id (c_msg s m))"
  let ?a = "xf_client_lookup s (XF_MSG_SRC_CLIENT ?i)" and ?b = "xf_client_lookup s (XF_MSG_DST_CLIENT ?i)"
  have n: "c_n_workers s \<noteq> 0" and a: "?a \<noteq> NULL" "co_priority (c_component s ?a) = w"
    using st c by (simp_all add: purge_state_def)
  have b: "XF_MSG_DST_PROXY ?i \<or> ?b \<noteq> NULL" using src by simp
  have wb: "worker_of s ?b \<noteq> w" if "?b \<noteq> NULL" "co_priority (c_component s ?b) \<noteq> w"
    using st that by (auto simp: purge_state_def worker_of_def Let_def)
  have wo: "worker_of (set_msgs w q s) = worker_of s" by (simp add: worker_of_def fun_eq_iff Let_def)
  have u: "turned m (set_msgs w q s) = set_msgs w q (turned m s)" "turn_id m (set_msgs w q s) = set_msgs w q (turn_id m s)"
    by (simp_all add: turned_def turn_id_eq upd_msg_set_msgs)
  have np': "\<not> XF_MSG_SRC_PROXY ?i" using np by simp
  consider "XF_MSG_DST_PROXY ?i" | "\<not> XF_MSG_DST_PROXY ?i" "?b \<noteq> NULL" "co_priority (c_component s ?b) = w"
    | "\<not> XF_MSG_DST_PROXY ?i" "?b \<noteq> NULL" "co_priority (c_component s ?b) \<noteq> w" using b by blast
  then show ?thesis
  proof cases
    case 1
    then show ?thesis unfolding routed_to_def Let_def u set_msgs_simps by (simp add: set_msgs_commute)
  next
    case 2
    then show ?thesis
      using n a np' unfolding routed_to_def Let_def u set_msgs_simps by (simp add: set_msgs_commute)
  next
    case 3
    then show ?thesis
      using n a np' wb unfolding routed_to_def Let_def u wo set_msgs_simps by (simp add: set_msgs_commute)
  qed
qed

text \<open>The queue that is purged: messages of the core itself, each queued once.\<close>

definition purge_queue :: "u32 \<Rightarrow> u32 \<Rightarrow> worker_msg list \<Rightarrow> core \<Rightarrow> bool" where
  "purge_queue client w xs s \<longleftrightarrow> purge_state client w s \<and> (\<forall>x\<in>set xs. wm_component x \<noteq> NULL) \<and>
     distinct (filter (\<lambda>m. m \<noteq> NULL) (map wm_msg xs)) \<and>
     (\<forall>x\<in>set xs. for_client s client x \<longrightarrow> \<not> XF_MSG_DST_PROXY (m_id (c_msg s (wm_msg x))) \<and>
        XF_MSG_SRC_CORE (m_id (c_msg s (wm_msg x))) = wk_core (c_worker s w))"

lemma purge_distinct:
  "purge_queue client w (x # xs) s \<Longrightarrow> y \<in> set xs \<Longrightarrow> wm_msg y = wm_msg x \<Longrightarrow> wm_msg x = NULL"
proof -
  assume q: "purge_queue client w (x # xs) s" and y: "y \<in> set xs" "wm_msg y = wm_msg x"
  have "wm_msg x \<in> wm_msg ` set xs" unfolding y(2) [symmetric] using y(1) by (rule imageI)
  then show ?thesis using q by (cases "wm_msg x = NULL") (simp_all add: purge_queue_def)
qed

lemma for_client_answered:
  assumes q: "purge_queue client w (x # xs) s" and y: "y \<in> set xs"
  shows "for_client (purge_answer client w x s) client y = for_client s client y"
proof (cases "wm_msg y = wm_msg x")
  case True
  then show ?thesis using purge_distinct [OF q y] by (simp add: for_client_def)
qed (simp add: for_client_def purge_answer_frame)

lemma purge_queue_answered:
  assumes q: "purge_queue client w (x # xs) s"
  shows "purge_queue client w xs (purge_answer client w x s)"
proof -
  have i: "m_id (c_msg (purge_answer client w x s) (wm_msg y)) = m_id (c_msg s (wm_msg y))"
    if "y \<in> set xs" "for_client s client y" for y
  proof (cases "wm_msg y = wm_msg x")
    case True
    with purge_distinct [OF q that(1)] that(2) show ?thesis by (simp add: for_client_def)
  qed (simp add: purge_answer_frame)
  have d: "distinct (filter (\<lambda>m. m \<noteq> NULL) (map wm_msg xs))"
    using q by (cases "wm_msg x = NULL") (simp_all add: purge_queue_def)
  show ?thesis
    unfolding purge_queue_def
  proof (intro conjI ballI impI)
    show "distinct (filter (\<lambda>m. m \<noteq> NULL) (map wm_msg xs))" by (rule d)
  qed (use q i for_client_answered [OF q] in \<open>auto simp: purge_queue_def purge_answer_state purge_answer_frame\<close>)
qed

lemma answer_proxy:
  assumes "purge_queue client w (x # xs) t" and c: "for_client t client x" and p: "XF_MSG_SRC_PROXY (m_id (c_msg t (wm_msg x)))"
  shows "core_response_err (complete E) (wm_msg x) (set_msgs w q t) = Some (set_msgs w q (purge_answer client w x t))"
proof -
  let ?u = "upd_msg (wm_msg x) (\<lambda>x. x\<lparr>m_opcode := XF_UNREGISTER, m_length := 0\<rparr>)"
  have st: "purge_state client w (?u t)"
    using assms(1) by (simp add: purge_queue_def purge_state_def)
  have "\<not> XF_MSG_DST_PROXY (m_id (c_msg t (wm_msg x)))" using assms(1) c by (simp add: purge_queue_def)
  with routed_set_msgs [OF st, of "wm_msg x" q] c p
  have "routed_to (wm_msg x) (?u (set_msgs w q t)) = set_msgs w q (routed_to (wm_msg x) (?u t))"
    by (simp add: for_client_def upd_msg_set_msgs)
  then show ?thesis
    using c p by (simp add: core_response_err_def complete_enough purge_answer_def Let_def)
qed

lemma answer_client:
  assumes "purge_queue client w (x # xs) t" and c: "for_client t client x"
    and p: "\<not> XF_MSG_SRC_PROXY (m_id (c_msg t (wm_msg x)))" "sender_waits (wk_core (c_worker t w)) (wm_msg x) t"
  shows "core_response_failure (complete E) (wm_msg x) (set_msgs w q t) = Some (set_msgs w q (purge_answer client w x t))"
proof -
  let ?u = "failed (wm_msg x)"
  have st: "purge_state client w (?u t)"
    using assms(1) by (simp add: purge_queue_def purge_state_def failed_def)
  have "\<not> XF_MSG_DST_PROXY (m_id (c_msg t (wm_msg x)))"
    "xf_client_lookup t (XF_MSG_SRC_CLIENT (m_id (c_msg t (wm_msg x)))) \<noteq> NULL"
    using assms(1) c p by (auto simp: purge_queue_def sender_waits_def)
  with routed_set_msgs [OF st, of "wm_msg x" q] c
  have "routed_to (wm_msg x) (?u (set_msgs w q t)) = set_msgs w q (routed_to (wm_msg x) (?u t))"
    by (simp add: for_client_def upd_msg_set_msgs failed_def)
  then show ?thesis
    using c p by (simp add: core_response_failure_def complete_enough purge_answer_def
        failed_def [symmetric] Let_def)
qed

lemma purge_loop_answers:
  "purge_queue client w xs t \<Longrightarrow> length xs < k \<Longrightarrow>
   purge_loop k (complete E) client w (set_msgs w (xs @ \<lparr>wm_component = NULL, wm_msg = NULL\<rparr> # ys) t) =
     Some (set_msgs w (ys @ filter (\<lambda>x. \<not> for_client t client x) xs) (fold (purge_answer client w) xs t))"
proof (induction xs arbitrary: k ys t)
  case Nil
  then obtain j where "k = Suc j" by (cases k) auto
  then show ?case by (simp add: set_msgs_def [symmetric] Let_def)
next
  case (Cons x xs)
  let ?q = "\<lambda>ys. xs @ \<lparr>wm_component = NULL, wm_msg = NULL\<rparr> # ys"
  obtain j where k: "k = Suc j" "length xs < j" using Cons.prems(2) by (cases k) auto
  have nn: "wm_component x \<noteq> NULL" using Cons.prems(1) by (simp add: purge_queue_def)
  note IH = Cons.IH [OF purge_queue_answered [OF Cons.prems(1)] k(2)]
  have fl: "filter (\<lambda>y. \<not> for_client (purge_answer client w x t) client y) xs = filter (\<lambda>y. \<not> for_client t client y) xs"
    using for_client_answered [OF Cons.prems(1)] by (auto intro: filter_cong)
  have pop: "upd_worker w (wk_msgs_update (\<lambda>_. q')) (set_msgs w q t) = set_msgs w q' t" for q q'
    unfolding set_msgs_def [symmetric] by simp
  show ?case
  proof (cases "for_client t client x")
    case c: True
    consider "XF_MSG_SRC_PROXY (m_id (c_msg t (wm_msg x)))"
      | "\<not> XF_MSG_SRC_PROXY (m_id (c_msg t (wm_msg x)))" "sender_waits (wk_core (c_worker t w)) (wm_msg x) t"
      | "\<not> XF_MSG_SRC_PROXY (m_id (c_msg t (wm_msg x)))" "\<not> sender_waits (wk_core (c_worker t w)) (wm_msg x) t"
      by blast
    then show ?thesis
    proof cases
      case 1
      then show ?thesis
        using c nn IH [of ys] fl answer_proxy [OF Cons.prems(1) c] by (simp add: k pop Let_def for_client_def)
    next
      case 2
      then show ?thesis
        using c nn IH [of ys] fl answer_client [OF Cons.prems(1) c]
        by (simp add: k pop Let_def for_client_def)
    next
      case 3
      then have "purge_answer client w x t = t" by (simp add: purge_answer_def Let_def)
      with 3 show ?thesis
        using c nn IH [of ys] fl by (simp add: k pop Let_def for_client_def)
    qed
  next
    case False
    then have "purge_answer client w x t = t" by (simp add: purge_answer_def)
    with False show ?thesis
      using nn IH [of "ys @ [x]"] by (auto simp add: k pop Let_def for_client_def msgq_send_set_msgs)
  qed
qed

section \<open>The queues a message can be in\<close>

text \<open>
  The messages that wait in the queue of responses for the host, in the queue of the core, in the local
  queue of each worker, and in the queue of each worker thread.
\<close>

record queues =
  to_host :: "addr list"
  to_core :: "addr list"
  to_local :: "u32 \<Rightarrow> addr list"
  to_worker :: "u32 \<Rightarrow> worker_msg list"

datatype destination = At_Host | At_Core | At_Local u32 | At_Thread u32 addr | Dropped

definition core_queues :: "core \<Rightarrow> queues \<Rightarrow> bool" where
  "core_queues s X \<longleftrightarrow> msg_queue_rel (c_msg s) (c_remote s) (to_host X) \<and> msg_queue_rel (c_msg s) (c_queue s) (to_core X) \<and>
     (\<forall>w. msg_queue_rel (c_msg s) (wk_local (c_worker s w)) (to_local X w)) \<and> (\<forall>w. wk_msgs (c_worker s w) = to_worker X w) \<and>
     set (to_host X) \<inter> set (to_core X) = {} \<and> (\<forall>w. (set (to_host X) \<union> set (to_core X)) \<inter> set (to_local X w) = {}) \<and>
     (\<forall>v w. v \<noteq> w \<longrightarrow> set (to_local X v) \<inter> set (to_local X w) = {})"

text \<open>The places where a message is, and its delivery to one of them.\<close>

definition places :: "addr \<Rightarrow> queues \<Rightarrow> destination set" where
  "places m X = (if m \<in> set (to_host X) then {At_Host} else {}) \<union> (if m \<in> set (to_core X) then {At_Core} else {}) \<union>
     {At_Local w | w. m \<in> set (to_local X w)} \<union> {At_Thread w c | w c. \<lparr>wm_component = c, wm_msg = m\<rparr> \<in> set (to_worker X w)}"

fun deliver :: "destination \<Rightarrow> addr \<Rightarrow> queues \<Rightarrow> queues" where
  "deliver At_Host m X = X\<lparr>to_host := to_host X @ [m]\<rparr>"
| "deliver At_Core m X = X\<lparr>to_core := to_core X @ [m]\<rparr>"
| "deliver (At_Local w) m X = X\<lparr>to_local := (to_local X)(w := to_local X w @ [m])\<rparr>"
| "deliver (At_Thread w c) m X = X\<lparr>to_worker := (to_worker X)(w := to_worker X w @ [\<lparr>wm_component = c, wm_msg = m\<rparr>])\<rparr>"
| "deliver Dropped m X = X"

text \<open>
  The contract of a completion, in terms of the sender \<open>a\<close> of the message, which gets it back, and of the
  component \<open>b\<close> that completes it: where it goes, and what the receiver finds in it.
\<close>

definition destination :: "core \<Rightarrow> addr \<Rightarrow> destination" where
  "destination s m =
     (let i = m_id (c_msg s m);
          a = xf_client_lookup s (XF_MSG_SRC_CLIENT i); b = xf_client_lookup s (XF_MSG_DST_CLIENT i)
      in if XF_MSG_SRC_PROXY i then At_Host
         else if c_n_workers s = 0 then At_Core
         else if a \<noteq> NULL then
           if \<not> XF_MSG_DST_PROXY i \<and> b \<noteq> NULL \<and> co_priority (c_component s b) = co_priority (c_component s a)
           then At_Local (co_priority (c_component s a)) else At_Thread (worker_of s a) a
         else if XF_MSG_DST_PROXY i then At_Host
         else if m_error (c_msg s m) = 0 \<and> b \<noteq> NULL then At_Thread (worker_of s b) b
         else Dropped)"

definition final_message :: "core \<Rightarrow> addr \<Rightarrow> xf_message" where
  "final_message s m =
     (let x = c_msg s m; i = m_id x;
          gone = (\<not> XF_MSG_SRC_PROXY i \<and> c_n_workers s \<noteq> 0 \<and> xf_client_lookup s (XF_MSG_SRC_CLIENT i) = NULL)
      in if XF_MSG_SRC_PROXY i then x\<lparr>m_id := swap_id i\<rparr>
         else if gone \<and> XF_MSG_DST_PROXY i then
           if m_opcode x = XF_EVENT then x\<lparr>m_error := word_of_int XAF_INVALIDPTR_ERR\<rparr>
           else x\<lparr>m_opcode := XF_UNREGISTER, m_length := 0\<rparr>
         else if gone \<and> m_error x = 0 \<and> xf_client_lookup s (XF_MSG_DST_CLIENT i) \<noteq> NULL
         then x\<lparr>m_length := XF_MSG_LENGTH_INVALID\<rparr>
         else x\<lparr>m_id := swap_id i, m_opcode := turn_opcode (m_opcode x)\<rparr>)"

lemma places_deliver:
  assumes "places m X = {}"
  shows "places m (deliver d m X) = (if d = Dropped then {} else {d})"
  using assms by (cases d) (auto simp: places_def)

lemma nowhere:
  "places m X = {} \<longleftrightarrow> m \<notin> set (to_host X) \<and> m \<notin> set (to_core X) \<and> (\<forall>w. m \<notin> set (to_local X w)) \<and>
     (\<forall>w c. \<lparr>wm_component = c, wm_msg = m\<rparr> \<notin> set (to_worker X w))"
  by (auto simp: places_def)

text \<open>The contents of a message do not include its link.\<close>

definition delivered :: "core \<Rightarrow> core \<Rightarrow> addr \<Rightarrow> xf_message \<Rightarrow> bool" where
  "delivered s s' m x \<longleftrightarrow> (\<forall>y. (c_msg s' y)\<lparr>m_next := NULL\<rparr> = (if y = m then x else c_msg s y)\<lparr>m_next := NULL\<rparr>)"

lemma core_queues_upd:
  assumes "core_queues s X" and "places m X = {}"
  shows "core_queues (upd_msg m f s) X"
proof -
  have "msg_queue_rel ((c_msg s)(m := f (c_msg s m))) q ms" if "msg_queue_rel (c_msg s) q ms" "m \<notin> set ms" for q ms
    by (rule queue_rel_frame [OF that(1)]) (use that(2) in auto)
  then show ?thesis using assms(1) assms(2) [unfolded nowhere] by (simp add: core_queues_def)
qed

text \<open>Putting a message into one of the queues leaves the others as they were.\<close>

lemma enqueue_frame:
  assumes "msg_queue_rel h q ms" and "m \<notin> set ms" and "m \<noteq> NULL"
  shows "\<exists>h' q' e. xf_msg_enqueue h q m = (h', q', e) \<and> msg_queue_rel h' q' (ms @ [m]) \<and>
    (\<forall>r ns. msg_queue_rel h r ns \<and> set ns \<inter> set ms = {} \<and> m \<notin> set ns \<longrightarrow> msg_queue_rel h' r ns) \<and>
    (\<forall>y. (h' y)\<lparr>m_next := NULL\<rparr> = (h y)\<lparr>m_next := NULL\<rparr>)"
proof -
  from enqueue_rel [OF assms] obtain h' q' where e: "xf_msg_enqueue h q m = (h', q', ms = [])"
    "msg_queue_rel h' q' (ms @ [m])" "links_only (insert m (set ms)) h h'" by blast
  have "msg_queue_rel h' r ns" if "msg_queue_rel h r ns" "set ns \<inter> set ms = {}" "m \<notin> set ns" for r ns
    by (rule queue_rel_frame [OF that(1)]) (use that(2,3) e(3) in \<open>auto simp: links_only_def disjoint_iff\<close>)
  with e show ?thesis by (simp add: links_only_def)
qed

lemma put_host:
  assumes X: "core_queues s X" and m: "places m X = {}" "m \<noteq> NULL"
  shows "core_queues (xf_msg_proxy_put m s) (deliver At_Host m X)" and "delivered s (xf_msg_proxy_put m s) m (c_msg s m)"
proof -
  have R: "msg_queue_rel (c_msg s) (c_remote s) (to_host X)" "m \<notin> set (to_host X)"
    using X m by (simp_all add: core_queues_def nowhere)
  from enqueue_frame [OF R m(2)] obtain h q e where e: "xf_msg_enqueue (c_msg s) (c_remote s) m = (h, q, e)" "msg_queue_rel h q (to_host X @ [m])"
    and fr: "\<forall>r ns. msg_queue_rel (c_msg s) r ns \<and> set ns \<inter> set (to_host X) = {} \<and> m \<notin> set ns \<longrightarrow> msg_queue_rel h r ns"
    and l: "\<forall>y. (h y)\<lparr>m_next := NULL\<rparr> = (c_msg s y)\<lparr>m_next := NULL\<rparr>" by blast
  have o0: "msg_queue_rel h (c_queue s) (to_core X)"
    by (rule fr [rule_format]) (use X m in \<open>auto simp: core_queues_def nowhere\<close>)
  have o1: "msg_queue_rel h (wk_local (c_worker s v)) (to_local X v)" for v
    by (rule fr [rule_format]) (use X m in \<open>auto simp: core_queues_def nowhere\<close>)
  show "core_queues (xf_msg_proxy_put m s) (deliver At_Host m X)"
    using e o0 o1 X m(1) unfolding nowhere by (auto simp: core_queues_def xf_msg_proxy_put_def xf_ipi_resume_dsp_def)
  show "delivered s (xf_msg_proxy_put m s) m (c_msg s m)" using e(1) l by (simp add: delivered_def xf_msg_proxy_put_def xf_ipi_resume_dsp_def)
qed

lemma put_core:
  assumes X: "core_queues s X" and m: "places m X = {}" "m \<noteq> NULL"
  shows "core_queues (xf_msg_local_put m s) (deliver At_Core m X)" and "delivered s (xf_msg_local_put m s) m (c_msg s m)"
proof -
  have R: "msg_queue_rel (c_msg s) (c_queue s) (to_core X)" "m \<notin> set (to_core X)"
    using X m by (simp_all add: core_queues_def nowhere)
  from enqueue_frame [OF R m(2)] obtain h q e where e: "xf_msg_enqueue (c_msg s) (c_queue s) m = (h, q, e)" "msg_queue_rel h q (to_core X @ [m])"
    and fr: "\<forall>r ns. msg_queue_rel (c_msg s) r ns \<and> set ns \<inter> set (to_core X) = {} \<and> m \<notin> set ns \<longrightarrow> msg_queue_rel h r ns"
    and l: "\<forall>y. (h y)\<lparr>m_next := NULL\<rparr> = (c_msg s y)\<lparr>m_next := NULL\<rparr>" by blast
  have o0: "msg_queue_rel h (c_remote s) (to_host X)"
    by (rule fr [rule_format]) (use X m in \<open>auto simp: core_queues_def nowhere\<close>)
  have o1: "msg_queue_rel h (wk_local (c_worker s v)) (to_local X v)" for v
    by (rule fr [rule_format]) (use X m in \<open>auto simp: core_queues_def nowhere\<close>)
  show "core_queues (xf_msg_local_put m s) (deliver At_Core m X)"
    using e o0 o1 X m(1) unfolding nowhere by (auto simp: core_queues_def xf_msg_local_put_def xf_ipi_resume_dsp_def)
  show "delivered s (xf_msg_local_put m s) m (c_msg s m)" using e(1) l by (simp add: delivered_def xf_msg_local_put_def xf_ipi_resume_dsp_def)
qed

lemma put_local:
  assumes X: "core_queues s X" and m: "places m X = {}" "m \<noteq> NULL"
  shows "core_queues (local_enqueue w m s) (deliver (At_Local w) m X)" and "delivered s (local_enqueue w m s) m (c_msg s m)"
proof -
  have R: "msg_queue_rel (c_msg s) (wk_local (c_worker s w)) (to_local X w)" "m \<notin> set (to_local X w)"
    using X m by (simp_all add: core_queues_def nowhere)
  from enqueue_frame [OF R m(2)] obtain h q e where e: "xf_msg_enqueue (c_msg s) (wk_local (c_worker s w)) m = (h, q, e)" "msg_queue_rel h q (to_local X w @ [m])"
    and fr: "\<forall>r ns. msg_queue_rel (c_msg s) r ns \<and> set ns \<inter> set (to_local X w) = {} \<and> m \<notin> set ns \<longrightarrow> msg_queue_rel h r ns"
    and l: "\<forall>y. (h y)\<lparr>m_next := NULL\<rparr> = (c_msg s y)\<lparr>m_next := NULL\<rparr>" by blast
  have o0: "msg_queue_rel h (c_remote s) (to_host X)"
    by (rule fr [rule_format]) (use X m in \<open>auto simp: core_queues_def nowhere\<close>)
  have o1: "msg_queue_rel h (c_queue s) (to_core X)"
    by (rule fr [rule_format]) (use X m in \<open>auto simp: core_queues_def nowhere\<close>)
  have o2: "msg_queue_rel h (wk_local (c_worker s v)) (to_local X v)" if "v \<noteq> w" for v
    by (rule fr [rule_format]) (use X m that in \<open>auto simp: core_queues_def nowhere\<close>)
  show "core_queues (local_enqueue w m s) (deliver (At_Local w) m X)"
    using e o0 o1 o2 X m(1) unfolding nowhere by (auto simp: core_queues_def local_enqueue_def upd_worker_def)
  show "delivered s (local_enqueue w m s) m (c_msg s m)" using e(1) l by (simp add: delivered_def local_enqueue_def upd_worker_def)
qed

lemma put_worker:
  assumes "core_queues s X"
  shows "core_queues (msgq_send w \<lparr>wm_component = c, wm_msg = m\<rparr> s) (deliver (At_Thread w c) m X)"
    and "delivered s (msgq_send w \<lparr>wm_component = c, wm_msg = m\<rparr> s) m (c_msg s m)"
  using assms by (auto simp: core_queues_def msgq_send_def upd_worker_def delivered_def)

text \<open>The closed form of a completion is a delivery.\<close>

lemma delivered_upd: "delivered (upd_msg m f s) s' m (c_msg (upd_msg m f s) m) \<longleftrightarrow> delivered s s' m (f (c_msg s m))"
  by (auto simp: delivered_def)

lemma routed_delivers:
  assumes X: "core_queues s X" and m: "places m X = {}" "m \<noteq> NULL"
  shows "core_queues (routed_to m s) (deliver (destination s m) m X) \<and> delivered s (routed_to m s) m (final_message s m)"
proof -
  note upd = core_queues_upd [OF X m(1)]
  note put = put_host [OF upd m] put_core [OF upd m] put_local [OF upd m] put_worker [OF upd, where m = m]
  have put': "delivered s (xf_msg_proxy_put m (upd_msg m f s)) m x" "delivered s (xf_msg_local_put m (upd_msg m f s)) m x"
    "delivered s (local_enqueue w m (upd_msg m f s)) m x" "delivered s (upd_msg m f s) m x"
    "delivered s (msgq_send w \<lparr>wm_component = c, wm_msg = m\<rparr> (upd_msg m f s)) m x"
    if "f (c_msg s m) = x" for f x w c
    using put(2,4,6,8) [unfolded delivered_upd] that by (auto simp: delivered_def)
  have none: "core_queues (upd_msg m f s) (deliver Dropped m X)" for f using upd by simp
  show ?thesis
    by (auto simp: routed_to_def destination_def final_message_def turn_id_eq turned_def refused_def failed_def Let_def
        simp del: deliver.simps upd_msg_simps intro!: put(1,3,5,7) put' none)
qed

section \<open>Completion and removal\<close>

text \<open>
  C31. Completion of a message \<open>m\<close> that is in no queue refines its delivery: it returns, with two nested
  completions at the most, and appends \<open>m\<close> to exactly one queue, or to none, with every other queue and
  the contents of every other message as they were. A message of the host goes to the responses; without
  workers one goes to the queue of the core; one for a live sender with the same worker as the component
  that completes it goes to the local queue of this worker, one for another live sender to the queue of the
  sender's worker, with its ports exchanged and its buffer opcode turned. If the sender has gone, a
  component gets the message back as failed, and a host's as refused; it is dropped just when it has failed
  before or the component has gone, too.
\<close>

theorem complete_delivers:
  assumes "2 \<le> k" and "core_queues s X" and "places m X = {}" and "m \<noteq> NULL"
  shows "\<exists>s'. xf_msg_complete k E m s = Some s' \<and> core_queues s' (deliver (destination s m) m X) \<and>
    places m (deliver (destination s m) m X) = (if destination s m = Dropped then {} else {destination s m}) \<and>
    (\<forall>y. (c_msg s' y)\<lparr>m_next := NULL\<rparr> = (if y = m then final_message s m else c_msg s y)\<lparr>m_next := NULL\<rparr>)"
proof -
  from assms(1) obtain j where "k = Suc (Suc j)" by (metis numeral_2_eq_2 Suc_le_D Suc_le_mono)
  then show ?thesis
    using complete_routed [of j E m s] routed_delivers [OF assms(2-4)] places_deliver [OF assms(3)]
    by (simp add: delivered_def)
qed

definition idle_env :: env where
  "idle_env = \<lparr>e_entry = \<lambda>c m s. (s, 0), e_exit = \<lambda>c m s. (s, 0), e_error_handler = \<lambda>c e s. s,
     e_factory = \<lambda>core b n s. (s, 4096), e_compute_cycles = None, e_thread_priority = \<lambda>s. 10,
     e_thread_create = \<lambda>w p s. (s, 0), e_msgq_size = 64, e_msgq_create = \<lambda>p. p, e_sizeof_worker = 64,
     e_sched_addr = \<lambda>p. p\<rparr>"

text \<open>One worker; client 0 is the component at 4096, and client 1, which sent message 16 to it, has gone.\<close>

definition gone_id :: u64 where
  "gone_id = XF_MSG_ID (XF_PORT_SPEC 0 1 0) 0"

definition gone_core :: core where
  "gone_core = demo_core\<lparr>c_n_workers := 1, c_cmap := (\<lambda>_. 0)(0 := 4096),
     c_msg := (\<lambda>_. no_msg)(16 := no_msg\<lparr>m_id := gone_id, m_opcode := XF_FILL_THIS_BUFFER\<rparr>)\<rparr>"

definition no_queues :: queues where
  "no_queues = \<lparr>to_host = [], to_core = [], to_local = (\<lambda>_. []), to_worker = (\<lambda>_. [])\<rparr>"

theorem complete_delivers_witness:
  "\<exists>s'. xf_msg_complete complete_fuel idle_env 16 gone_core = Some s' \<and> core_queues s' (deliver (At_Thread 0 4096) 16 no_queues) \<and>
    places 16 (deliver (At_Thread 0 4096) 16 no_queues) = {At_Thread 0 4096} \<and> m_length (c_msg s' 16) = XF_MSG_LENGTH_INVALID"
proof -
  have q: "core_queues gone_core no_queues" "places 16 no_queues = {}"
    by (simp_all add: core_queues_def gone_core_def no_queues_def demo_core_def msg_queue_rel_def xf_msg_queue_init_def places_def)
  have i: "XF_MSG_SRC_CLIENT gone_id = 1" "XF_MSG_DST_CLIENT gone_id = 0"
    "\<not> XF_MSG_SRC_PROXY gone_id" "\<not> XF_MSG_DST_PROXY gone_id"
    by (simp_all add: gone_id_def id_defs)
  have m: "c_msg gone_core 16 = no_msg\<lparr>m_id := gone_id, m_opcode := XF_FILL_THIS_BUFFER\<rparr>"
    by (simp add: gone_core_def)
  have l: "xf_client_lookup gone_core 1 = NULL" "xf_client_lookup gone_core 0 = 4096" "c_n_workers gone_core = 1"
    "worker_of gone_core 4096 = 0"
    by (simp_all add: gone_core_def xf_client_lookup_def XF_CFG_MAX_CLIENTS_def worker_of_def demo_core_def)
  have d: "destination gone_core 16 = At_Thread 0 4096" by (simp add: destination_def m i l no_msg_def Let_def)
  have a: "m_length (final_message gone_core 16) = XF_MSG_LENGTH_INVALID" by (simp add: final_message_def m i l no_msg_def Let_def)
  have "(2 :: nat) \<le> complete_fuel" "(16 :: addr) \<noteq> NULL" by (simp_all add: complete_fuel_def)
  from complete_delivers [OF this(1) q this(2), of idle_env] obtain s' where
    s': "xf_msg_complete complete_fuel idle_env 16 gone_core = Some s'" "core_queues s' (deliver (At_Thread 0 4096) 16 no_queues)"
    "places 16 (deliver (At_Thread 0 4096) 16 no_queues) = {At_Thread 0 4096}"
    "(c_msg s' 16)\<lparr>m_next := NULL\<rparr> = (final_message gone_core 16)\<lparr>m_next := NULL\<rparr>"
    unfolding d by auto
  have "m_length ((c_msg s' 16)\<lparr>m_next := NULL\<rparr>) = m_length ((final_message gone_core 16)\<lparr>m_next := NULL\<rparr>)" unfolding s'(4) by simp
  then have "m_length (c_msg s' 16) = XF_MSG_LENGTH_INVALID" using a by simp
  with s'(1-3) show ?thesis by blast
qed

text \<open>
  C32. A buffer that two components exchange comes back as it was: if both are live, or no worker
  has been started, completing a message twice exchanges its ports and turns its opcode twice, and
  leaves its length, buffer and error alone.
\<close>

lemma routed_live:
  assumes "\<not> XF_MSG_SRC_PROXY (m_id (c_msg s m))" and "\<not> XF_MSG_DST_PROXY (m_id (c_msg s m))"
    and "c_n_workers s = 0 \<or> xf_client_lookup s (XF_MSG_SRC_CLIENT (m_id (c_msg s m))) \<noteq> NULL \<and>
      xf_client_lookup s (XF_MSG_DST_CLIENT (m_id (c_msg s m))) \<noteq> NULL"
  shows "c_msg (routed_to m s) m =
    (c_msg s m)\<lparr>m_id := swap_id (m_id (c_msg s m)), m_opcode := turn_opcode (m_opcode (c_msg s m)),
      m_next := m_next (c_msg (routed_to m s) m)\<rparr>"
  using assms
  by (auto simp: routed_to_def xf_msg_local_put_def local_enqueue_def msgq_send_def upd_worker_def turned_def
      xf_ipi_resume_dsp_def xf_msg_enqueue_def Let_def)

theorem exchange_roundtrip:
  assumes "\<not> XF_MSG_SRC_PROXY (m_id (c_msg s m))" and "\<not> XF_MSG_DST_PROXY (m_id (c_msg s m))"
    and "c_n_workers s = 0 \<or> xf_client_lookup s (XF_MSG_SRC_CLIENT (m_id (c_msg s m))) \<noteq> NULL \<and>
      xf_client_lookup s (XF_MSG_DST_CLIENT (m_id (c_msg s m))) \<noteq> NULL"
  shows "\<exists>s' s''. complete E m s = Some s' \<and> complete E m s' = Some s'' \<and>
    m_id (c_msg s' m) = swap_id (m_id (c_msg s m)) \<and> m_opcode (c_msg s' m) = turn_opcode (m_opcode (c_msg s m)) \<and>
    (\<exists>p. c_msg s'' m = (c_msg s m)\<lparr>m_next := p\<rparr>)"
proof (intro exI conjI)
  let ?t = "routed_to m s"
  show "complete E m s = Some ?t" "complete E m ?t = Some (routed_to m ?t)" by (rule complete_enough)+
  obtain n where t: "c_msg ?t m =
      (c_msg s m)\<lparr>m_id := swap_id (m_id (c_msg s m)), m_opcode := turn_opcode (m_opcode (c_msg s m)), m_next := n\<rparr>"
    using routed_live [OF assms] by blast
  then show "m_id (c_msg ?t m) = swap_id (m_id (c_msg s m))" "m_opcode (c_msg ?t m) = turn_opcode (m_opcode (c_msg s m))"
    by simp_all
  have l: "xf_client_lookup ?t = xf_client_lookup s" by (rule lookup_cong) (simp add: routed_to_frame)
  have "c_msg (routed_to m ?t) m =
    (c_msg ?t m)\<lparr>m_id := swap_id (m_id (c_msg ?t m)), m_opcode := turn_opcode (m_opcode (c_msg ?t m)),
      m_next := m_next (c_msg (routed_to m ?t) m)\<rparr>"
    using assms unfolding l by (intro routed_live) (auto simp: t l routed_to_frame)
  also have "\<dots> = (c_msg s m)\<lparr>m_next := m_next (c_msg (routed_to m ?t) m)\<rparr>" unfolding t by simp
  finally show "c_msg (routed_to m ?t) m = (c_msg s m)\<lparr>m_next := m_next (c_msg (routed_to m ?t) m)\<rparr>" .
qed

theorem exchange_roundtrip_witness:
  "\<exists>s' s''. complete idle_env 16 demo_core = Some s' \<and> complete idle_env 16 s' = Some s'' \<and>
    m_id (c_msg s' 16) = swap_id (m_id (c_msg demo_core 16)) \<and>
    m_opcode (c_msg s' 16) = turn_opcode (m_opcode (c_msg demo_core 16)) \<and>
    (\<exists>p. c_msg s'' 16 = (c_msg demo_core 16)\<lparr>m_next := p\<rparr>)"
  by (rule exchange_roundtrip) (simp_all add: demo_core_def no_msg_def XF_MSG_SRC_PROXY_def XF_MSG_DST_PROXY_def)

text \<open>
  C33. Removing a client from the queue of its worker returns. The messages of other clients, and
  the requests to run a component, stay in their order; every message of the client is answered:
  the host gets it back as refused, a live component gets it back as failed, and the answers
  change the queues in the order in which the messages stood.
\<close>

theorem queue_purge_answers:
  assumes "purge_queue client w (wk_msgs (c_worker s w)) s"
  shows "xf_worker_queue_purge (complete E) client w s =
    Some (set_msgs w (filter (\<lambda>x. \<not> for_client s client x) (wk_msgs (c_worker s w)))
      (fold (purge_answer client w) (wk_msgs (c_worker s w)) s))"
proof -
  let ?q = "wk_msgs (c_worker s w)" and ?e = "\<lparr>wm_component = NULL, wm_msg = NULL\<rparr>"
  have send: "msgq_send w ?e s = set_msgs w (?q @ [?e]) s"
    using msgq_send_set_msgs [of w ?e ?q s] set_msgs_self [of s w ?q] by simp
  have "purge_loop (length (?q @ [?e])) (complete E) client w (set_msgs w (?q @ ?e # []) s) =
      Some (set_msgs w ([] @ filter (\<lambda>x. \<not> for_client s client x) ?q) (fold (purge_answer client w) ?q s))"
    using assms by (rule purge_loop_answers) simp
  then show ?thesis unfolding xf_worker_queue_purge_def send Let_def by simp
qed

text \<open>Client 1 on worker 0 has two messages in its queue, client 2 one.\<close>

definition purge_demo :: core where
  "purge_demo = demo_core\<lparr>c_n_workers := 1, c_cmap := (\<lambda>_. 0)(1 := 4096, 2 := 8192),
     c_msg := (\<lambda>_. no_msg)(16 := no_msg\<lparr>m_id := push_bit 31 1 OR push_bit 40 1\<rparr>, 32 := no_msg\<lparr>m_id := push_bit 40 2\<rparr>,
       48 := no_msg\<lparr>m_id := push_bit 8 2 OR push_bit 40 1\<rparr>),
     c_worker := (\<lambda>_. (c_worker demo_core 0)\<lparr>wk_msgs := [\<lparr>wm_component = 4096, wm_msg = 16\<rparr>,
       \<lparr>wm_component = 8192, wm_msg = 32\<rparr>, \<lparr>wm_component = 4096, wm_msg = 48\<rparr>]\<rparr>)\<rparr>"

lemma purge_demo_ok: "purge_queue 1 0 (wk_msgs (c_worker purge_demo 0)) purge_demo"
proof -
  have "xf_client_lookup purge_demo c = (if c = 1 then 4096 else if c = 2 then 8192 else 0)" for c
    by (simp add: xf_client_lookup_def purge_demo_def XF_CFG_MAX_CLIENTS_def)
  then show ?thesis
    by (simp add: purge_queue_def purge_state_def for_client_def XF_MSG_DST_CLIENT_def XF_MSG_DST_PROXY_def
        XF_MSG_SRC_CORE_def)
      (simp add: purge_demo_def demo_core_def no_msg_def)
qed

theorem queue_purge_answers_witness:
  "xf_worker_queue_purge (complete idle_env) 1 0 purge_demo =
    Some (set_msgs 0 (filter (\<lambda>x. \<not> for_client purge_demo 1 x) (wk_msgs (c_worker purge_demo 0)))
      (fold (purge_answer 1 0) (wk_msgs (c_worker purge_demo 0)) purge_demo))"
  by (rule queue_purge_answers [OF purge_demo_ok])

section \<open>Registration\<close>

lemma msg_id_src_proxy: "XF_MSG_SRC_PROXY (XF_MSG_ID (ucast (XF_MSG_SRC i)) x) = XF_MSG_SRC_PROXY i"
  unfolding id_defs low_field proxy_bit by (simp add: bit_simps)

lemma swap_msg_id:
  "XF_MSG_DST (swap_id (XF_MSG_ID (ucast (XF_MSG_SRC i)) x)) = XF_MSG_SRC i"
  "XF_MSG_SRC (swap_id (XF_MSG_ID (ucast (XF_MSG_SRC i)) x)) = ucast x"
  unfolding swap_id_fields unfolding id_defs low_field by (rule bit_word_eqI, auto simp: bit_simps)+

lemma routed_host: "XF_MSG_SRC_PROXY (m_id (c_msg s m)) \<Longrightarrow> routed_to m s = xf_msg_proxy_put m (turn_id m s)"
  by (simp add: routed_to_def)

text \<open>The creation of a component leaves the client map and the command message alone.\<close>

definition factory_ok :: "env \<Rightarrow> addr \<Rightarrow> bool" where
  "factory_ok E m \<longleftrightarrow> (\<forall>core b n t t' a. e_factory E core b n t = (t', a) \<longrightarrow>
     c_cmap t' = c_cmap t \<and> c_free t' = c_free t \<and> m_id (c_msg t' m) = m_id (c_msg t m) \<and>
     (a = NULL \<or> XF_CFG_MAX_CLIENTS < a))"

text \<open>
  C30. Registration either reports the memory error and leaves the clients as they were, as it
  does when all descriptors are in use, or registers the component that the factory made under a
  free number: the component gets the port specification of that number and the default priority,
  and the host gets the message back, with the new port as its source and length 0.
\<close>

theorem proxy_register_outcomes:
  assumes map: "cmap_rel s fs L" and src: "XF_MSG_SRC_PROXY (m_id (c_msg s m))" and fac: "factory_ok E m"
  shows "\<exists>s' r. xf_proxy_register (complete E) E core m s = Some (s', r) \<and>
    (r = XAF_MEMORY_ERR \<and> cmap_holds s' L \<or>
     r = 0 \<and> (\<exists>c a t. c < XF_CFG_MAX_CLIENTS \<and> L c = None \<and> cmap_holds s' (L(c \<mapsto> a)) \<and>
       co_id (c_component s' a) = XF_PORT_SPEC core c 0 \<and> co_priority (c_component s' a) = c_default_priority t \<and>
       s' = xf_msg_proxy_put m t \<and> m_length (c_msg t m) = 0 \<and>
       XF_MSG_SRC (m_id (c_msg t m)) = ucast (XF_PORT_SPEC core c 0) \<and>
       XF_MSG_DST (m_id (c_msg t m)) = XF_MSG_SRC (m_id (c_msg s m)))) \<and>
    (dom L = {..< XF_CFG_MAX_CLIENTS} \<longrightarrow> r = XAF_MEMORY_ERR)"
proof (cases fs)
  case Nil
  then show ?thesis using map by (auto simp: xf_proxy_register_def cmap_full Let_def cmap_holds_def)
next
  case (Cons c cs)
  note tk = cmap_take [OF map [unfolded Cons]]
  let ?s = "s\<lparr>c_free := c_cmap s c\<rparr>"
  let ?len = "m_length (c_msg s m) - 4 * XAF_MEM_POOL_TYPE_COMP_MAX"
  let ?buf = "m_buffer (c_msg s m) + 4 * XAF_MEM_POOL_TYPE_COMP_MAX"
  have nf: "c \<noteq> XF_CFG_MAX_CLIENTS" "c \<notin> dom L" using tk(2,3) by auto
  then have dom: "dom L \<noteq> {..< XF_CFG_MAX_CLIENTS}" using tk(2) by blast
  obtain t a where f: "e_factory E core ?buf ?len ?s = (t, a)" by (metis surj_pair)
  then have "c_cmap t = c_cmap ?s \<and> c_free t = c_free ?s \<and> m_id (c_msg t m) = m_id (c_msg ?s m) \<and>
      (a = NULL \<or> XF_CFG_MAX_CLIENTS < a)" using fac unfolding factory_ok_def by blast
  then have t: "c_cmap t = c_cmap s" "c_free t = c_cmap s c" "m_id (c_msg t m) = m_id (c_msg s m)"
    "a = NULL \<or> XF_CFG_MAX_CLIENTS < a" by simp_all
  show ?thesis
  proof (cases "a = NULL")
    case True
    have "xf_proxy_register (complete E) E core m s = Some (xf_client_free t c, XAF_MEMORY_ERR)"
      using True f nf by (simp add: xf_proxy_register_def tk(1))
    moreover have "cmap_rel (xf_client_free t c) (c # cs) L"
      using tk(5) t by (simp add: cmap_rel_def xf_client_free_def)
    ultimately show ?thesis using dom by (auto simp: cmap_holds_def)
  next
    case False
    let ?i = "XF_PORT_SPEC core c 0" and ?src = "XF_MSG_SRC (m_id (c_msg s m))"
    define u where "u = upd_msg m (m_length_update (\<lambda>_. 0)) (upd_msg m (m_id_update (\<lambda>_. XF_MSG_ID (ucast ?src) ?i))
      (t\<lparr>c_cmap := (c_cmap t)(c := a),
         c_component := (c_component t)(a := \<lparr>co_id = ?i, co_priority = c_default_priority t,
           co_mem_pool_type = load_words (c_bytes t) (m_buffer (c_msg t m)) 6\<rparr>)\<rparr>))"
    have "xf_proxy_register (complete E) E core m s = Some (routed_to m u, 0)"
      using False f nf
      by (simp add: xf_proxy_register_def tk(1) core_response_ok_def complete_enough u_def upd_msg_def Let_def)
    moreover have "m_id (c_msg u m) = XF_MSG_ID (ucast ?src) ?i" by (simp add: u_def)
    moreover have "m_length (c_msg u m) = 0" "c_default_priority u = c_default_priority t"
      "c_component u a = \<lparr>co_id = ?i, co_priority = c_default_priority t,
           co_mem_pool_type = load_words (c_bytes t) (m_buffer (c_msg t m)) 6\<rparr>"
      by (simp_all add: u_def upd_msg_def)
    moreover have "cmap_rel (routed_to m u) cs (L(c \<mapsto> a))"
      using tk(4) [of a] False t by (simp add: cmap_rel_def routed_to_frame u_def)
    moreover have "routed_to m u = xf_msg_proxy_put m (turn_id m u)"
      using src calculation(2) by (simp add: routed_host msg_id_src_proxy)
    moreover have "m_length (c_msg (turn_id m u) m) = 0" "c_default_priority (turn_id m u) = c_default_priority t"
      "XF_MSG_SRC (m_id (c_msg (turn_id m u) m)) = ucast ?i" "XF_MSG_DST (m_id (c_msg (turn_id m u) m)) = ?src"
      using calculation(2-4) by (simp_all add: turn_id_eq swap_msg_id del: swap_id_fields) (simp add: upd_msg_def)
    moreover have "c_component (routed_to m u) = c_component u" by (rule routed_to_frame)
    ultimately show ?thesis
      using tk(2,3) dom by (metis cmap_holds_def component.select_convs(1,2))
  qed
qed

definition host_core :: core where
  "host_core = upd_msg 16 (\<lambda>x. x\<lparr>m_id := push_bit 31 1\<rparr>) (cmap_init demo_core)"

theorem proxy_register_outcomes_witness:
  "\<exists>s' r. xf_proxy_register (complete idle_env) idle_env 0 16 host_core = Some (s', r) \<and>
    (r = XAF_MEMORY_ERR \<and> cmap_holds s' Map.empty \<or>
     r = 0 \<and> (\<exists>c a t. c < XF_CFG_MAX_CLIENTS \<and> Map.empty c = (None :: addr option) \<and> cmap_holds s' [c \<mapsto> a] \<and>
       co_id (c_component s' a) = XF_PORT_SPEC 0 c 0 \<and> co_priority (c_component s' a) = c_default_priority t \<and>
       s' = xf_msg_proxy_put 16 t \<and> m_length (c_msg t 16) = 0 \<and>
       XF_MSG_SRC (m_id (c_msg t 16)) = ucast (XF_PORT_SPEC 0 c 0) \<and>
       XF_MSG_DST (m_id (c_msg t 16)) = XF_MSG_SRC (m_id (c_msg host_core 16)))) \<and>
    (dom (Map.empty :: u32 \<Rightarrow> addr option) = {..< XF_CFG_MAX_CLIENTS} \<longrightarrow> r = XAF_MEMORY_ERR)"
proof (rule proxy_register_outcomes)
  show "cmap_rel host_core (map word_of_nat [0 ..< 64]) Map.empty"
    using cmap_init_rel [of demo_core] by (simp add: cmap_rel_def host_core_def)
  show "XF_MSG_SRC_PROXY (m_id (c_msg host_core 16))" by (simp add: host_core_def XF_MSG_SRC_PROXY_def)
  show "factory_ok idle_env 16" by (simp add: factory_ok_def idle_env_def XF_CFG_MAX_CLIENTS_def)
qed

section \<open>Proxy commands\<close>

lemma unat_pred_sum: "1 \<le> unat n \<Longrightarrow> unat (base + n - 1 :: u32) = (unat base + (unat n - 1)) mod 2 ^ 32"
proof -
  assume n: "1 \<le> unat n"
  have "unat (n - 1) = unat n - 1" using n by (intro unat_minus_one) auto
  moreover have "base + n - 1 = base + (n - 1)" by simp
  ultimately show ?thesis by (simp only: unat_word_ariths) simp
qed

lemma priorities_range:
  assumes "dsp \<noteq> - 1"
  shows "priorities_accepted bg base n dsp \<longleftrightarrow>
    unat bg \<le> unat dsp \<and> 1 \<le> unat n \<and> unat base + (unat n - 1) \<le> unat dsp"
proof (cases "n = 0")
  case True
  have "\<not> (base - 1 \<ge> base \<and> base - 1 \<le> dsp)"
  proof
    assume a: "base - 1 \<ge> base \<and> base - 1 \<le> dsp"
    have "base = 0"
    proof (rule ccontr)
      assume "base \<noteq> 0"
      then have "unat (base - 1) = unat base - 1" "0 < unat base" by (simp_all add: unat_minus_one unat_gt_0)
      with a show False by (simp add: word_le_nat_alt) linarith
    qed
    with a have "- 1 \<le> dsp" by simp
    with assms show False by (simp add: word_order.extremum_unique)
  qed
  with True show ?thesis by (simp add: priorities_accepted_def)
next
  case False
  then have n: "1 \<le> unat n" by (simp add: unat_gt_0 Suc_leI)
  have "unat base < 2 ^ 32" "unat n < 2 ^ 32" "unat dsp < 2 ^ 32"
    using unsigned_less [of base, where ?'a = nat] unsigned_less [of n, where ?'a = nat]
      unsigned_less [of dsp, where ?'a = nat] by simp_all
  then show ?thesis
    unfolding priorities_accepted_def word_le_nat_alt unat_pred_sum [OF n] using n
    by (cases "unat base + (unat n - 1) < 2 ^ 32") (auto simp: mod_if)
qed

text \<open>
  The priorities of a command are accepted exactly when, as numbers without wrap-around, the
  background priority is at most that of the DSP thread, there is a real-time worker, and the last
  of the consecutive real-time priorities is at most that of the DSP thread; otherwise the command
  fails with the invalid-value error and starts no worker. The code adds 32-bit words; the
  comparison with the base catches each overflow.
\<close>

theorem priorities_checked:
  assumes "e_thread_priority E s \<noteq> - 1" and "cmd = m_buffer (c_msg s m)"
    and "n = load32 (c_bytes s) cmd" and "base = load32 (c_bytes s) (cmd + 4)" and "bg = load32 (c_bytes s) (cmd + 8)"
    and "in_range \<longleftrightarrow> unat bg \<le> unat (e_thread_priority E s) \<and> 1 \<le> unat n \<and>
      unat base + (unat n - 1) \<le> unat (e_thread_priority E s)"
  shows "(priorities_accepted bg base n (e_thread_priority E s) \<longleftrightarrow> in_range) \<and>
    (\<not> in_range \<longrightarrow> xf_proxy_set_priorities (complete E) E core m s =
        Some (s\<lparr>c_dsp_priority := e_thread_priority E s\<rparr>, XAF_INVALIDVAL_ERR))"
  using priorities_range [OF assms(1)] assms by (simp add: xf_proxy_set_priorities_def Let_def)

theorem priorities_checked_witness:
  "\<not> priorities_accepted 0 0 0 10 \<and>
   xf_proxy_set_priorities (complete idle_env) idle_env 0 16 demo_core =
      Some (demo_core\<lparr>c_dsp_priority := 10\<rparr>, XAF_INVALIDVAL_ERR)"
proof -
  have p: "e_thread_priority idle_env demo_core = 10" and z: "load32 (c_bytes demo_core) a = 0" for a
    by (simp_all add: idle_env_def load32_def demo_core_def)
  show ?thesis
    using priorities_checked [of idle_env demo_core "m_buffer (c_msg demo_core 16)" 16 0 0 0 False 0] by (simp add: p z)
qed

text \<open>
  An allocation command of the host whose memory type is not one of the device is not
  refused: the handler does not look at the result of the allocation, so the host gets the message
  back like a success, with the buffer of the request, and the command reports no error.
\<close>

theorem bad_pool_type_looks_allocated:
  assumes "m_buffer (c_msg s m) \<noteq> NULL" and "load32 (c_bytes s) (m_buffer (c_msg s m)) \<noteq> XAF_MEM_ID_DEV"
    and "XF_MSG_SRC_PROXY (m_id (c_msg s m))"
  shows "xf_proxy_alloc (complete E) XF_CORE_ID_MASTER m s = Some (xf_msg_proxy_put m (turn_id m s), 0) \<and>
    m_buffer (c_msg (xf_msg_proxy_put m (turn_id m s)) m) = m_buffer (c_msg s m) \<and>
    m_error (c_msg (xf_msg_proxy_put m (turn_id m s)) m) = m_error (c_msg s m)"
proof -
  have "xf_shmem_alloc m s = Some (s, XAF_MEMORY_ERR)"
    using assms by (simp add: xf_shmem_alloc_def XAF_MEM_ID_DEV_def XAF_MEM_ID_DEV_MAX_def word_le_nat_alt unat_eq_0)
  then show ?thesis
    using assms
    by (simp add: xf_proxy_alloc_def xf_shmem_enabled_def core_response_def complete_enough routed_host
        xf_msg_proxy_put_def xf_ipi_resume_dsp_def split_beta xf_msg_enqueue_def turn_id_eq Let_def)
qed

definition alloc_demo :: core where
  "alloc_demo = demo_core\<lparr>c_msg := (\<lambda>_. no_msg)(16 := no_msg\<lparr>m_id := push_bit 31 1, m_buffer := 4096\<rparr>),
     c_bytes := (\<lambda>_. 0)(4096 := 1)\<rparr>"

theorem bad_pool_type_looks_allocated_witness:
  "xf_proxy_alloc (complete idle_env) XF_CORE_ID_MASTER 16 alloc_demo =
     Some (xf_msg_proxy_put 16 (turn_id 16 alloc_demo), 0) \<and>
   m_buffer (c_msg (xf_msg_proxy_put 16 (turn_id 16 alloc_demo)) 16) = m_buffer (c_msg alloc_demo 16) \<and>
   m_error (c_msg (xf_msg_proxy_put 16 (turn_id 16 alloc_demo)) 16) = m_error (c_msg alloc_demo 16)"
  by (rule bad_pool_type_looks_allocated)
    (simp_all add: alloc_demo_def XF_MSG_SRC_PROXY_def load32_def XAF_MEM_ID_DEV_def)

text \<open>
  Apart from the six registered commands, a command of the host to the proxy is answered as
  refused when its number lies outside the table of handlers, and called through a null pointer
  when it lies inside, as the pause and flush commands do.
\<close>

theorem proxy_commands_without_handler:
  assumes "t = XF_OPCODE_TYPE (m_opcode (c_msg s m))"
    and "t \<notin> XF_OPCODE_TYPE ` {XF_REGISTER, XF_ALLOC, XF_FREE, XF_STOP, XF_SET_PRIORITIES, XF_STATS}"
  shows "xf_proxy_command (complete E) E core m s =
    (if t \<le> 21 then None else Some (routed_to m (upd_msg m (\<lambda>x. x\<lparr>m_opcode := XF_UNREGISTER, m_length := 0\<rparr>) s)))"
proof (cases "t \<le> 21")
  case True
  then have "t < XF_PROXY_CMD_NUM" by (simp add: XF_PROXY_CMD_NUM_def word_le_nat_alt word_less_nat_alt)
  then show ?thesis
    using assms True by (simp add: xf_proxy_command_def xf_proxy_cmd_def Let_def)
next
  case False
  then have "\<not> t < XF_PROXY_CMD_NUM" by (simp add: XF_PROXY_CMD_NUM_def word_le_nat_alt word_less_nat_alt)
  then have "xf_proxy_command (complete E) E core m s = core_response_err (complete E) m s"
    using assms(1) by (simp add: xf_proxy_command_def Let_def)
  with False show ?thesis by (simp add: core_response_err_def complete_enough)
qed

definition pause_demo :: core where
  "pause_demo = upd_msg 16 (m_opcode_update (\<lambda>_. XF_PAUSE)) demo_core"

theorem proxy_commands_without_handler_witness:
  "xf_proxy_command (complete idle_env) idle_env 0 16 pause_demo =
    (if XF_OPCODE_TYPE XF_PAUSE \<le> 21 then None
     else Some (routed_to 16 (upd_msg 16 (\<lambda>x. x\<lparr>m_opcode := XF_UNREGISTER, m_length := 0\<rparr>) pause_demo)))"
proof (rule proxy_commands_without_handler)
  show "XF_OPCODE_TYPE XF_PAUSE \<notin> XF_OPCODE_TYPE ` {XF_REGISTER, XF_ALLOC, XF_FREE, XF_STOP, XF_SET_PRIORITIES, XF_STATS}"
    by (simp add: XF_OPCODE_TYPE_def XF_OPCODE_def XF_PAUSE_def XF_REGISTER_def XF_ALLOC_def XF_FREE_def XF_STOP_def
        XF_SET_PRIORITIES_def XF_STATS_def)
qed (simp add: pause_demo_def)

section \<open>Addresses\<close>

lemma sint_u32: "sint (x :: u32) = (if uint x < 2 ^ 31 then uint x else uint x - 2 ^ 32)"
proof -
  have "0 \<le> uint x" "uint x < 2 ^ 32" using unsigned_greater_eq [of x] unsigned_less [of x, where ?'a = int] by simp_all
  moreover have "sint x = (uint x + 2 ^ 31) mod 2 ^ 32 - 2 ^ 31"
    by (simp add: sint_uint signed_take_bit_eq_take_bit_shift take_bit_eq_mod)
  moreover have "(uint x + 2 ^ 31) mod 2 ^ 32 = uint x - 2 ^ 31" if "2 ^ 31 \<le> uint x"
    using that calculation(2) mod_add_self2 [of "uint x - 2 ^ 31" "2 ^ 32"]
      mod_pos_pos_trivial [of "uint x - 2 ^ 31" "2 ^ 32"] by (simp add: add.commute)
  ultimately show ?thesis by auto
qed

lemma uint_null_offset: "uint (- 1 :: u32) = 4294967295"
  by (simp add: unsigned_minus_1_eq_mask mask_eq_exp_minus_1)

lemma pool_size: "sint XF_CFG_REMOTE_IPC_POOL_SIZE = 262144" "uint XF_CFG_REMOTE_IPC_POOL_SIZE = 262144"
  "unat XF_CFG_REMOTE_IPC_POOL_SIZE = 262144"
  by (simp_all add: XF_CFG_REMOTE_IPC_POOL_SIZE_def push_bit_eq_mult)

lemma offset_signed: "x <s XF_CFG_REMOTE_IPC_POOL_SIZE \<longleftrightarrow> uint x < 262144 \<or> 2 ^ 31 \<le> uint x"
  unfolding word_sless_alt pool_size sint_u32 using unsigned_less [of x, where ?'a = int] by auto

lemma offset_unsigned: "x < XF_CFG_REMOTE_IPC_POOL_SIZE \<longleftrightarrow> uint x < 262144"
  by (simp add: word_less_def pool_size)

text \<open>
  The core and the host agree on the buffers in the shared region: the address that the core
  computes from an offset of the region is translated back to this offset, the null pointer to
  the null offset, and a pointer into the region is recovered from its offset.
\<close>

theorem address_roundtrip:
  "(a < XF_CFG_REMOTE_IPC_POOL_SIZE \<or> a = XF_PROXY_NULL \<longrightarrow> xf_ipc_b2a (xf_ipc_a2b a) = a) \<and>
   (b - MEM_START_DATA < XF_CFG_REMOTE_IPC_POOL_SIZE \<or> b = NULL \<longrightarrow> xf_ipc_a2b (xf_ipc_b2a b) = b)"
proof -
  have nn: "\<not> (NULL - MEM_START_DATA < XF_CFG_REMOTE_IPC_POOL_SIZE)" "\<not> XF_PROXY_NULL < XF_CFG_REMOTE_IPC_POOL_SIZE"
    by (simp_all add: offset_unsigned MEM_START_DATA_def XF_CFG_SHMEM_BASE_ADDRESS_def XF_PROXY_DATA_PAYLOAD_OFFSET_def
        XF_PROXY_NULL_def uint_null_offset)
  have s: "x <s XF_CFG_REMOTE_IPC_POOL_SIZE" if "x < XF_CFG_REMOTE_IPC_POOL_SIZE" for x
    using that by (simp add: offset_signed offset_unsigned)
  have b: "MEM_START_DATA + x \<noteq> NULL" if "x < XF_CFG_REMOTE_IPC_POOL_SIZE" for x
  proof
    assume "MEM_START_DATA + x = NULL"
    then have "x = NULL - MEM_START_DATA" by (simp add: eq_neg_iff_add_eq_0 add.commute)
    with that nn(1) show False by simp
  qed
  show ?thesis using nn s b by (auto simp: xf_ipc_b2a_def xf_ipc_a2b_def)
qed

theorem address_roundtrip_witness:
  "xf_ipc_b2a (xf_ipc_a2b 4) = 4 \<and> xf_ipc_b2a (xf_ipc_a2b XF_PROXY_NULL) = XF_PROXY_NULL \<and>
   xf_ipc_a2b (xf_ipc_b2a (MEM_START_DATA + 64)) = MEM_START_DATA + 64"
  using address_roundtrip [of 4 "MEM_START_DATA + 64"] address_roundtrip [of XF_PROXY_NULL NULL]
  by (simp add: offset_unsigned)

text \<open>
  The translation of a pointer tests only the end of the region, and with a signed
  comparison: a pointer up to two gigabytes below the region is not answered with the bad address
  but with an offset beyond the region, from which the pointer cannot be recovered.
\<close>

theorem address_below_region:
  assumes "0x60004000 \<le> b" and "b < MEM_START_DATA"
  shows "xf_ipc_b2a b = b - MEM_START_DATA \<and> xf_ipc_b2a b \<noteq> XF_PROXY_BADADDR \<and>
    \<not> xf_ipc_b2a b < XF_CFG_REMOTE_IPC_POOL_SIZE \<and> xf_ipc_a2b (xf_ipc_b2a b) \<noteq> b"
proof -
  have m: "uint MEM_START_DATA = 3758112768"
    by (simp add: MEM_START_DATA_def XF_CFG_SHMEM_BASE_ADDRESS_def XF_PROXY_DATA_PAYLOAD_OFFSET_def)
  have b: "1610629120 \<le> uint b" "uint b < 3758112768" using assms by (simp_all add: word_le_def word_less_def m)
  have "uint (b - MEM_START_DATA) = (uint b - 3758112768) mod 2 ^ 32" by (simp add: uint_word_ariths m)
  also have "\<dots> = uint b - 3758112768 + 2 ^ 32"
    using b mod_add_self2 [of "uint b - 3758112768" "2 ^ 32"] mod_pos_pos_trivial [of "uint b - 3758112768 + 2 ^ 32" "2 ^ 32"]
    by simp
  finally have d: "2 ^ 31 \<le> uint (b - MEM_START_DATA)" using b by simp
  have nn: "b \<noteq> NULL" "b \<noteq> NOT 0" using b by (auto simp: uint_null_offset)
  have lo: "b2 = b - MEM_START_DATA \<Longrightarrow> \<not> b2 < XF_CFG_REMOTE_IPC_POOL_SIZE" for b2 using d by (simp add: offset_unsigned)
  have e: "xf_ipc_b2a b = b - MEM_START_DATA" using d nn by (simp add: xf_ipc_b2a_def offset_signed)
  show ?thesis
    unfolding e using d lo [OF refl] nn
    by (auto simp: xf_ipc_a2b_def XF_PROXY_BADADDR_def pool_size)
qed

theorem address_below_region_witness:
  "xf_ipc_b2a 0xC0000000 = 0xC0000000 - MEM_START_DATA \<and> xf_ipc_b2a 0xC0000000 \<noteq> XF_PROXY_BADADDR \<and>
    \<not> xf_ipc_b2a 0xC0000000 < XF_CFG_REMOTE_IPC_POOL_SIZE \<and> xf_ipc_a2b (xf_ipc_b2a 0xC0000000) \<noteq> 0xC0000000"
  by (rule address_below_region)
    (simp_all add: MEM_START_DATA_def XF_CFG_SHMEM_BASE_ADDRESS_def XF_PROXY_DATA_PAYLOAD_OFFSET_def)

end
