(* ===== verification/Msg_Rings.thy ===== *)
theory Msg_Rings
  imports Core_Thms
begin

text \<open>
  The rings in the memory shared with the host (\<^verbatim>\<open>xf-msgq.c\<close>): the loop that publishes responses and
  the loop that takes commands are described by the lists of messages that they move, with the
  indices of the rings as counters (\<open>ring_idx\<close>), so that the 16-bit counts of the code may wrap.
\<close>

section \<open>Lists of messages and ring positions\<close>

lemma msg_list_links: "links_only A h h' \<Longrightarrow> A \<inter> set ms = {} \<Longrightarrow> msg_list h' a ms = msg_list h a ms"
  by (induction ms arbitrary: a) (auto simp: links_only_def)

lemma queue_rel_links: "links_only A h h' \<Longrightarrow> A \<inter> set ms = {} \<Longrightarrow> msg_queue_rel h' q ms = msg_queue_rel h q ms"
  by (simp add: msg_queue_rel_def msg_list_links)

lemma pool_rel_links: "links_only A h h' \<Longrightarrow> A \<inter> set ms = {} \<Longrightarrow> pool_rel h' pool ms = pool_rel h pool ms"
  by (simp add: pool_rel_def msg_list_links)

lemma response_links: "links_only A h h' \<Longrightarrow> response_of (h' x) = response_of (h x)"
  by (simp add: response_of_def links_only_fields)

definition ring_pos :: "nat \<Rightarrow> u32" where
  "ring_pos n = XF_QUEUE_IDX (ring_idx n)"

lemma ring_pos_eq: "ring_pos i = ring_pos j \<longleftrightarrow> i mod 256 = j mod 256"
  by (simp add: ring_pos_def word_unat_eq_iff ring_slot)

lemma ring_pos_near: "i < j \<Longrightarrow> j < i + 256 \<Longrightarrow> ring_pos i \<noteq> ring_pos j"
proof
  assume "i < j" "j < i + 256" "ring_pos i = ring_pos j"
  then have "j mod 256 = i mod 256" by (simp add: ring_pos_eq)
  then have "256 dvd j - i" using \<open>i < j\<close> mod_eq_dvd_iff_nat [of i j 256] by simp
  with \<open>i < j\<close> \<open>j < i + 256\<close> show False using nat_dvd_not_less [of "j - i" 256] by simp
qed

section \<open>The ring of responses\<close>

text \<open>The ring after the responses to \<open>ms\<close> have been written from index \<open>w\<close> on.\<close>

fun publish :: "msg_heap \<Rightarrow> nat \<Rightarrow> addr list \<Rightarrow> (u32 \<Rightarrow> proxy_message) \<Rightarrow> u32 \<Rightarrow> proxy_message" where
  "publish h w [] R = R"
| "publish h w (m # ms) R = publish h (Suc w) ms (R(ring_pos w := response_of (h m)))"

lemma publish_links: "links_only A h h' \<Longrightarrow> publish h' w ms R = publish h w ms R"
  by (induction ms arbitrary: w R) (simp_all add: response_links)

lemma publish_other: "\<forall>i < length ms. p \<noteq> ring_pos (w + i) \<Longrightarrow> publish h w ms R p = R p"
proof (induction ms arbitrary: w R)
  case (Cons m ms)
  have "p \<noteq> ring_pos (Suc w + i)" if "i < length ms" for i
    using Cons.prems [rule_format, of "Suc i"] that by simp
  moreover have "p \<noteq> ring_pos w" using Cons.prems [rule_format, of 0] by simp
  ultimately show ?case using Cons.IH [of "Suc w"] by simp
qed simp

lemma publish_nth:
  "length ms \<le> 256 \<Longrightarrow> i < length ms \<Longrightarrow> publish h w ms R (ring_pos (w + i)) = response_of (h (ms ! i))"
proof (induction ms arbitrary: w R i)
  case (Cons m ms)
  show ?case
  proof (cases i)
    case 0
    have "\<forall>j < length ms. ring_pos w \<noteq> ring_pos (Suc w + j)"
      using Cons.prems(1) ring_pos_near [of w] by simp
    with 0 publish_other show ?thesis by simp
  next
    case (Suc j)
    then show ?thesis using Cons.IH [of j "Suc w"] Cons.prems by simp
  qed
qed simp

lemma output_loop_publishes:
  assumes "msg_queue_rel (c_msg s) (c_remote s) ms" and "pool_rel (c_msg s) (c_pool s) fs" and "distinct (ms @ fs)"
    and "r \<le> w" and "w \<le> r + 256" and "n = min (length ms) (r + 256 - w)"
  shows "\<exists>h q pl. output_loop st (ring_idx r) (ring_idx w) s =
      Some (s\<lparr>c_msg := h, c_remote := q, c_pool := pl, c_response := publish (c_msg s) w (take n ms) (c_response s),
          c_rsp_write_idx := (if n = 0 then c_rsp_write_idx s else ring_idx (w + n))\<rparr>,
        if n = 0 then st else XF_PROXY_STATUS_REMOTE OR XF_PROXY_STATUS_LOCAL) \<and>
      msg_queue_rel h q (drop n ms) \<and> pool_rel h pl (rev (take n ms) @ fs) \<and> links_only (set (take n ms)) (c_msg s) h"
  using assms
proof (induction ms arbitrary: s w fs st n)
  case Nil
  then have "xf_msg_proxy_get s = (s\<lparr>c_msg := c_msg s, c_remote := c_remote s\<rparr>, NULL)"
    using dequeue_rel(1) by (simp add: xf_msg_proxy_get_def)
  with Nil show ?case by (subst output_loop.simps) (auto intro!: exI)
next
  case (Cons m ms)
  show ?case
  proof (cases "w = r + 256")
    case True
    then have "XF_QUEUE_FULL (ring_idx r) (ring_idx w)" by (simp add: ring_full)
    with True Cons.prems show ?thesis by (subst output_loop.simps) (auto intro!: exI)
  next
    case False
    then have nf: "\<not> XF_QUEUE_FULL (ring_idx r) (ring_idx w)" using Cons.prems by (simp add: ring_full)
    from dequeue_rel(2) [OF Cons.prems(1) refl] obtain h q where
      dq: "xf_msg_dequeue (c_msg s) (c_remote s) = (h, q, m)" "msg_queue_rel h q ms" "links_only {m} (c_msg s) h" by blast
    have m: "m \<noteq> NULL" "m \<notin> set fs" "m \<notin> set ms"
      using Cons.prems(1,3) msg_list_not_null by (fastforce simp: msg_queue_rel_def)+
    have "pool_rel h (c_pool s) fs" using pool_rel_links [OF dq(3)] Cons.prems(2) m by simp
    from pool_put_rel [OF this m(2,1)] obtain h' pl where
      put: "xf_msg_pool_put h (c_pool s) m = (h', pl)" "pool_rel h' pl (m # fs)" "links_only {m} h h'" by blast
    define t where "t = s\<lparr>c_remote := q, c_response := (c_response s)(ring_pos w := response_of (c_msg s m)),
      c_msg := h', c_pool := pl, c_rsp_write_idx := ring_idx (Suc w)\<rparr>"
    have step: "output_loop st (ring_idx r) (ring_idx w) s =
        output_loop (XF_PROXY_STATUS_REMOTE OR XF_PROXY_STATUS_LOCAL) (ring_idx r) (ring_idx (Suc w)) t"
      using nf m(1) dq(1) put(1) response_links [OF dq(3), of m]
      by (subst output_loop.simps) (simp add: xf_msg_proxy_get_def t_def ring_advance ring_pos_def Let_def)
    have lk: "links_only {m} (c_msg s) h'" using links_only_trans [OF dq(3) put(3)] by simp
    have a1: "msg_queue_rel (c_msg t) (c_remote t) ms" using dq(2) queue_rel_links [OF put(3)] m by (simp add: t_def)
    have a2: "pool_rel (c_msg t) (c_pool t) (m # fs)" using put(2) by (simp add: t_def)
    have a3: "distinct (ms @ (m # fs))" using Cons.prems(3) by auto
    have a4: "r \<le> Suc w" "Suc w \<le> r + 256" using Cons.prems(4,5) False by auto
    have a5: "n - 1 = min (length ms) (r + 256 - Suc w)" "n \<noteq> 0" using Cons.prems(5,6) False by auto
    from Cons.IH [OF a1 a2 a3 a4 a5(1), of "XF_PROXY_STATUS_REMOTE OR XF_PROXY_STATUS_LOCAL"] obtain h2 q2 pl2 where ih:
      "output_loop (XF_PROXY_STATUS_REMOTE OR XF_PROXY_STATUS_LOCAL) (ring_idx r) (ring_idx (Suc w)) t =
      Some (t\<lparr>c_msg := h2, c_remote := q2, c_pool := pl2,
          c_response := publish (c_msg t) (Suc w) (take (n - 1) ms) (c_response t),
          c_rsp_write_idx := (if n - 1 = 0 then c_rsp_write_idx t else ring_idx (Suc w + (n - 1)))\<rparr>,
        if n - 1 = 0 then XF_PROXY_STATUS_REMOTE OR XF_PROXY_STATUS_LOCAL else XF_PROXY_STATUS_REMOTE OR XF_PROXY_STATUS_LOCAL)"
      "msg_queue_rel h2 q2 (drop (n - 1) ms)" "pool_rel h2 pl2 (rev (take (n - 1) ms) @ m # fs)"
      "links_only (set (take (n - 1) ms)) (c_msg t) h2"
      by blast
    obtain k where k: "n = Suc k" using a5(2) by (cases n) auto
    have l2: "links_only (set (take n (m # ms))) (c_msg s) h2"
      using links_only_trans [OF lk, of "set (take k ms)" h2] ih(4) by (simp add: t_def k)
    have "output_loop st (ring_idx r) (ring_idx w) s =
      Some (s\<lparr>c_msg := h2, c_remote := q2, c_pool := pl2,
          c_response := publish (c_msg s) w (take n (m # ms)) (c_response s),
          c_rsp_write_idx := (if n = 0 then c_rsp_write_idx s else ring_idx (w + n))\<rparr>,
        if n = 0 then st else XF_PROXY_STATUS_REMOTE OR XF_PROXY_STATUS_LOCAL)"
      unfolding step ih(1) by (simp add: t_def k publish_links [OF lk])
    with ih(2,3) l2 show ?thesis by (auto simp: k)
  qed
qed

section \<open>The ring of commands\<close>

definition payload :: "xf_message \<Rightarrow> xf_message" where
  "payload x = x\<lparr>m_next := NULL\<rparr>"

definition command_payload :: "proxy_message \<Rightarrow> xf_message" where
  "command_payload c = \<lparr>m_next = NULL, m_id = pm_session_id c, m_opcode = pm_opcode c, m_length = pm_length c,
     m_buffer = xf_ipc_a2b (pm_address c), m_error = 0\<rparr>"

lemma payload_links: "links_only A h h' \<Longrightarrow> payload (h' x) = payload (h x)"
  by (simp add: links_only_def payload_def)

lemma submit_local: "c_n_workers s = 0 \<Longrightarrow> xf_msg_submit cpl E m s = Some (xf_msg_local_put m s)"
  by (simp add: xf_msg_submit_def)

text \<open>The heap after the commands from index \<open>r\<close> on have been put into the messages \<open>ms\<close>.\<close>

definition commands_in :: "(u32 \<Rightarrow> proxy_message) \<Rightarrow> nat \<Rightarrow> addr list \<Rightarrow> msg_heap \<Rightarrow> msg_heap \<Rightarrow> bool" where
  "commands_in C r ms h h' \<longleftrightarrow> (\<forall>i < length ms. payload (h' (ms ! i)) = command_payload (C (ring_pos (r + i)))) \<and>
     (\<forall>x. x \<notin> set ms \<longrightarrow> payload (h' x) = payload (h x))"

lemma commands_in_step:
  assumes "commands_in C (Suc r) ms h h'" and "payload (h m) = command_payload (C (ring_pos r))"
    and "\<forall>x. x \<noteq> m \<longrightarrow> payload (h x) = payload (h0 x)" and "m \<notin> set ms"
  shows "commands_in C r (m # ms) h0 h'"
  using assms by (auto simp: commands_in_def nth_Cons' gr0_conv_Suc)

lemma input_loop_takes:
  assumes "msg_queue_rel (c_msg s) (c_queue s) qs" and "pool_rel (c_msg s) (c_pool s) fs" and "distinct (qs @ fs)"
    and "r \<le> w" and "w \<le> r + 256" and "n = min (length fs) (w - r)" and "c_n_workers s = 0"
  shows "\<exists>h q pl st'. input_loop (xf_msg_submit cpl E) st (ring_idx r) (ring_idx w) s =
      Some (s\<lparr>c_msg := h, c_queue := q, c_pool := pl,
          c_cmd_read_idx := (if n = 0 then c_cmd_read_idx s else ring_idx (r + n)),
          c_msgq_event := (n \<noteq> 0 \<or> c_msgq_event s)\<rparr>, st') \<and>
      msg_queue_rel h q (qs @ take n fs) \<and> pool_rel h pl (drop n fs) \<and>
      commands_in (c_command s) r (take n fs) (c_msg s) h"
  using assms
proof (induction "w - r" arbitrary: s r qs fs st n)
  case 0
  then have "XF_QUEUE_EMPTY (ring_idx r) (ring_idx w)" by (simp add: ring_empty)
  with 0 show ?case by (subst input_loop.simps) (auto simp: commands_in_def intro!: exI)
next
  case (Suc d)
  then have ne: "\<not> XF_QUEUE_EMPTY (ring_idx r) (ring_idx w)" by (simp add: ring_empty)
  show ?case
  proof (cases fs)
    case Nil
    with pool_get_rel(1) [OF Suc.prems(2)] have "xf_msg_pool_get (c_msg s) (c_pool s) = (c_msg s, c_pool s, NULL)" by simp
    with ne Nil Suc.prems show ?thesis by (subst input_loop.simps) (auto simp: commands_in_def intro!: exI)
  next
    case (Cons m fs')
    from pool_get_rel(2) [OF Suc.prems(2) Cons] obtain h pl where
      get: "xf_msg_pool_get (c_msg s) (c_pool s) = (h, pl, m)" "pool_rel h pl fs'" "links_only {m} (c_msg s) h" by blast
    have m: "m \<noteq> NULL" "m \<notin> set fs'" "m \<notin> set qs" "distinct (qs @ fs')"
      using Suc.prems(2,3) Cons msg_list_not_null by (fastforce simp: pool_rel_def)+
    define g where "g = h(m := (h m)\<lparr>m_id := pm_session_id (c_command s (ring_pos r)), m_opcode := pm_opcode (c_command s (ring_pos r)),
      m_length := pm_length (c_command s (ring_pos r)), m_error := 0, m_buffer := xf_ipc_a2b (pm_address (c_command s (ring_pos r)))\<rparr>)"
    have nx: "m_next (g x) = m_next (h x)" for x by (simp add: g_def)
    have "msg_queue_rel h (c_queue s) qs" using queue_rel_links [OF get(3)] Suc.prems(1) m(3) by simp
    then have "msg_queue_rel g (c_queue s) qs" by (rule queue_rel_frame) (simp add: nx)
    from enqueue_rel [OF this m(3,1)] obtain k q where
      enq: "xf_msg_enqueue g (c_queue s) m = (k, q, qs = [])" "msg_queue_rel k q (qs @ [m])"
        "links_only (insert m (set qs)) g k" by blast
    have "msg_list g a fs' = msg_list h a fs'" for a using m(2) by (simp add: g_def frame)
    then have "pool_rel g pl fs'" using get(2) by (simp add: pool_rel_def)
    then have pl: "pool_rel k pl fs'" using pool_rel_links [OF enq(3)] m by auto
    define t where "t = s\<lparr>c_pool := pl, c_cmd_read_idx := ring_idx (Suc r), c_msg := k, c_queue := q, c_msgq_event := True\<rparr>"
    have step: "\<exists>st2. input_loop (xf_msg_submit cpl E) st (ring_idx r) (ring_idx w) s =
        input_loop (xf_msg_submit cpl E) st2 (ring_idx (Suc r)) (ring_idx w) t"
      using ne m(1) get(1) enq(1) Suc.prems(7)
      by (subst input_loop.simps)
        (auto simp: take_command_def upd_msg_def submit_local xf_msg_local_put_def xf_ipi_resume_dsp_def ring_advance
          g_def t_def ring_pos_def Let_def)
    then obtain st2 where step: "input_loop (xf_msg_submit cpl E) st (ring_idx r) (ring_idx w) s =
        input_loop (xf_msg_submit cpl E) st2 (ring_idx (Suc r)) (ring_idx w) t" by blast
    obtain j where j: "n = Suc j" "j = min (length fs') (w - Suc r)" using Suc.prems(6) Suc.hyps(2) Cons by (cases n) auto
    have "d = w - Suc r" "Suc r \<le> w" "w \<le> Suc r + 256" using Suc.hyps(2) Suc.prems(4,5) by auto
    moreover have "msg_queue_rel (c_msg t) (c_queue t) (qs @ [m])" "pool_rel (c_msg t) (c_pool t) fs'"
      "distinct ((qs @ [m]) @ fs')" "c_n_workers t = 0"
      using enq(2) pl m Suc.prems(7) by (auto simp: t_def)
    ultimately obtain h2 q2 pl2 st' where ih:
      "input_loop (xf_msg_submit cpl E) st2 (ring_idx (Suc r)) (ring_idx w) t =
        Some (t\<lparr>c_msg := h2, c_queue := q2, c_pool := pl2,
          c_cmd_read_idx := (if j = 0 then c_cmd_read_idx t else ring_idx (Suc r + j)),
          c_msgq_event := (j \<noteq> 0 \<or> c_msgq_event t)\<rparr>, st')"
      "msg_queue_rel h2 q2 ((qs @ [m]) @ take j fs')" "pool_rel h2 pl2 (drop j fs')"
      "commands_in (c_command t) (Suc r) (take j fs') (c_msg t) h2"
      using Suc.hyps(1) [of "Suc r" t "qs @ [m]" fs' j st2] j(2) by blast
    have "commands_in (c_command s) r (m # take j fs') (c_msg s) h2"
    proof (rule commands_in_step)
      show "commands_in (c_command s) (Suc r) (take j fs') k h2" using ih(4) by (simp add: t_def)
      show "payload (k m) = command_payload (c_command s (ring_pos r))"
        unfolding payload_links [OF enq(3)] by (simp add: g_def payload_def command_payload_def)
      show "\<forall>x. x \<noteq> m \<longrightarrow> payload (k x) = payload (c_msg s x)"
        unfolding payload_links [OF enq(3)] using payload_links [OF get(3)] by (simp add: g_def)
      show "m \<notin> set (take j fs')" using m(2) by (meson in_set_takeD)
    qed
    with ih(2,3) show ?thesis
      unfolding step ih(1) by (auto simp: t_def j(1) Cons intro!: exI)
  qed
qed

section \<open>Properties of the rings\<close>

text \<open>
  C34. Publishing the responses returns, and writes as many of the queued messages as the ring has
  room for, in their order, behind the ones that the host has not read yet, which stay as they
  are. The published messages go back to the pool, the others stay queued, and the status tells
  whether anything was published.
\<close>

theorem responses_published:
  assumes "msg_queue_rel (c_msg s) (c_remote s) ms" and "pool_rel (c_msg s) (c_pool s) fs" and "distinct (ms @ fs)"
    and "c_rsp_read_idx s = ring_idx r" and "c_rsp_write_idx s = ring_idx w" and "r \<le> w" and "w \<le> r + 256"
    and "n = min (length ms) (r + 256 - w)"
  shows "\<exists>s' st. xf_shmem_process_output s = Some (s', st) \<and>
    (\<forall>i < n. c_response s' (XF_QUEUE_IDX (ring_idx (w + i))) = response_of (c_msg s (ms ! i))) \<and>
    (\<forall>j. r \<le> j \<and> j < w \<longrightarrow> c_response s' (XF_QUEUE_IDX (ring_idx j)) = c_response s (XF_QUEUE_IDX (ring_idx j))) \<and>
    c_rsp_write_idx s' = ring_idx (w + n) \<and> msg_queue_rel (c_msg s') (c_remote s') (drop n ms) \<and>
    pool_rel (c_msg s') (c_pool s') (rev (take n ms) @ fs) \<and> (st \<noteq> 0 \<longleftrightarrow> n \<noteq> 0)"
proof -
  have n: "n \<le> 256" "w + n \<le> r + 256" "length (take n ms) = n" using assms(6-8) by auto
  have nth: "publish h w (take n ms) R (ring_pos (w + i)) = response_of (h (ms ! i))" if "i < n" for h R i
    using publish_nth [of "take n ms" i h w R] that n by simp
  have other: "publish h w (take n ms) R (ring_pos j) = R (ring_pos j)" if "r \<le> j" "j < w" for h R j
    using that n ring_pos_near [of j] by (intro publish_other) simp
  have st: "XF_PROXY_STATUS_REMOTE OR XF_PROXY_STATUS_LOCAL \<noteq> 0"
    by (simp add: XF_PROXY_STATUS_REMOTE_def XF_PROXY_STATUS_LOCAL_def)
  from output_loop_publishes [OF assms(1-3,6-8), of 0] obtain h q pl where
    o: "output_loop 0 (ring_idx r) (ring_idx w) s =
      Some (s\<lparr>c_msg := h, c_remote := q, c_pool := pl, c_response := publish (c_msg s) w (take n ms) (c_response s),
          c_rsp_write_idx := (if n = 0 then c_rsp_write_idx s else ring_idx (w + n))\<rparr>,
        if n = 0 then 0 else XF_PROXY_STATUS_REMOTE OR XF_PROXY_STATUS_LOCAL)"
    "msg_queue_rel h q (drop n ms)" "pool_rel h pl (rev (take n ms) @ fs)" by blast
  show ?thesis
    unfolding xf_shmem_process_output_def assms(4,5) o(1) using o(2,3) nth other st assms(5)
    by (auto simp: ring_pos_def [symmetric])
qed

text \<open>One message waits, one free message is in the pool, and the host has not read 255 responses.\<close>

definition ring_demo :: core where
  "ring_demo = demo_core\<lparr>c_msg := (\<lambda>_. no_msg)(16 := no_msg\<lparr>m_id := 7\<rparr>),
     c_remote := \<lparr>q_head = 16, q_tail = 16\<rparr>, c_pool := \<lparr>pl_p = 16, pl_head = 32, pl_n = 2\<rparr>,
     c_rsp_write_idx := ring_idx 255, c_cmd_write_idx := ring_idx 2\<rparr>"

lemma ring_idx_0: "ring_idx 0 = 0"
  by (simp add: ring_idx_def)

theorem responses_published_witness:
  "\<exists>s' st. xf_shmem_process_output ring_demo = Some (s', st) \<and>
    (\<forall>i < 1. c_response s' (XF_QUEUE_IDX (ring_idx (255 + i))) = response_of (c_msg ring_demo ([16] ! i))) \<and>
    (\<forall>j. 0 \<le> j \<and> j < 255 \<longrightarrow> c_response s' (XF_QUEUE_IDX (ring_idx j)) = c_response ring_demo (XF_QUEUE_IDX (ring_idx j))) \<and>
    c_rsp_write_idx s' = ring_idx (255 + 1) \<and> msg_queue_rel (c_msg s') (c_remote s') (drop 1 [16]) \<and>
    pool_rel (c_msg s') (c_pool s') (rev (take 1 [16]) @ [32]) \<and> (st \<noteq> 0 \<longleftrightarrow> (1 :: nat) \<noteq> 0)"
  by (rule responses_published [where r = 0 and w = 255])
    (simp_all add: ring_demo_def demo_core_def no_msg_def msg_queue_rel_def pool_rel_def ring_idx_0)

text \<open>
  Before the workers are started, taking the commands of the host returns, and takes them
  from the ring in order, as many as there are free messages: every message taken holds the command
  of its position and goes to the end of the queue of the core, the index moves by the number of
  messages, and the commands that found no message stay in the ring for the next time.
\<close>

theorem commands_taken:
  assumes "msg_queue_rel (c_msg s) (c_queue s) qs" and "pool_rel (c_msg s) (c_pool s) fs" and "distinct (qs @ fs)"
    and "c_cmd_read_idx s = ring_idx r" and "c_cmd_write_idx s = ring_idx w" and "r \<le> w" and "w \<le> r + 256"
    and "n = min (length fs) (w - r)" and "c_n_workers s = 0"
  shows "\<exists>s' st. xf_shmem_process_input E s = Some (s', st) \<and>
    (\<forall>i < n. payload (c_msg s' (fs ! i)) = command_payload (c_command s (XF_QUEUE_IDX (ring_idx (r + i))))) \<and>
    (\<forall>x. x \<notin> set (take n fs) \<longrightarrow> payload (c_msg s' x) = payload (c_msg s x)) \<and>
    c_cmd_read_idx s' = ring_idx (r + n) \<and> msg_queue_rel (c_msg s') (c_queue s') (qs @ take n fs) \<and>
    pool_rel (c_msg s') (c_pool s') (drop n fs) \<and> c_command s' = c_command s"
proof -
  from input_loop_takes [OF assms(1-3,6-9), of "complete E" E 0] obtain h q pl st where
    i: "input_loop (xf_msg_submit (complete E) E) 0 (ring_idx r) (ring_idx w) s =
      Some (s\<lparr>c_msg := h, c_queue := q, c_pool := pl,
          c_cmd_read_idx := (if n = 0 then c_cmd_read_idx s else ring_idx (r + n)),
          c_msgq_event := (n \<noteq> 0 \<or> c_msgq_event s)\<rparr>, st)"
      "msg_queue_rel h q (qs @ take n fs)" "pool_rel h pl (drop n fs)"
      "commands_in (c_command s) r (take n fs) (c_msg s) h" by blast
  have "length (take n fs) = n" using assms(8) by simp
  with i show ?thesis
    unfolding xf_shmem_process_input_def assms(4,5) i(1) using assms(4)
    by (auto simp: commands_in_def ring_pos_def [symmetric])
qed

theorem commands_taken_witness:
  "\<exists>s' st. xf_shmem_process_input idle_env ring_demo = Some (s', st) \<and>
    (\<forall>i < 1. payload (c_msg s' ([32] ! i)) = command_payload (c_command ring_demo (XF_QUEUE_IDX (ring_idx (0 + i))))) \<and>
    (\<forall>x. x \<notin> set (take 1 [32]) \<longrightarrow> payload (c_msg s' x) = payload (c_msg ring_demo x)) \<and>
    c_cmd_read_idx s' = ring_idx (0 + 1) \<and> msg_queue_rel (c_msg s') (c_queue s') ([] @ take 1 [32]) \<and>
    pool_rel (c_msg s') (c_pool s') (drop 1 [32]) \<and> c_command s' = c_command ring_demo"
  by (rule commands_taken [where r = 0 and w = 2])
    (simp_all add: ring_demo_def demo_core_def no_msg_def msg_queue_rel_def pool_rel_def ring_idx_0 xf_msg_queue_init_def)

end
