(* ===== verification/Class_State.thy ===== *)
theory Class_State
  imports Core Io
begin

text \<open>
  The state of a component (\<^verbatim>\<open>xa-class-base.h\<close>) on top of the core, the calls of the low-level plug-in
  and of the methods of a class with their early returns (the macros \<^verbatim>\<open>XA_API\<close>, \<^verbatim>\<open>CODEC_API\<close>, \<^verbatim>\<open>XMALLOC\<close>),
  and scheduling of a component (\<^verbatim>\<open>xa-class-base.c\<close>). A plug-in is a library outside of the repository:
  a function on the whole state. An operation of a component gives its new state and the error code
  that the C function returns; \<open>None\<close> stands for a call that does not return.
\<close>

section \<open>State\<close>

text \<open>An event channel; the channels of a component form a list through \<open>ch_next\<close>.\<close>

record channel =
  ch_next :: addr
  ch_pool :: msg_pool
  ch_queue :: msg_queue
  ch_delete :: addr
  ch_src :: u32
  ch_dst :: u32
  ch_port_dst :: u64
  ch_count :: u32
  ch_size :: u32
  ch_shared :: bool

text \<open>
  \<open>b_self\<close> is the address of the component, whose first field is its task; \<open>b_cb\<close> says whether the
  event callback is registered. \<open>b_done\<close> records the messages that the component has completed, with
  their contents; \<open>answer_all_done\<close> below hands them to the core.
\<close>

record base =
  b_core :: core
  b_done :: "(addr \<times> xf_message) list"
  b_self :: addr
  b_api :: mm_buffer
  b_mem_tabs :: mm_buffer
  b_persist :: mm_buffer
  b_scratch :: addr
  b_scratch_idx :: u32
  b_state :: u32
  b_channel :: "addr \<Rightarrow> channel"
  b_chain :: addr
  b_num_channels :: u32
  b_cb :: bool
  b_nonfatal :: u32
  b_type :: u32

type_synonym 's result = "('s \<times> int) option"

definition XA_BASE_FLAG_POSTINIT :: u32 where "XA_BASE_FLAG_POSTINIT = push_bit 0 1"
definition XA_BASE_FLAG_RUNTIME_INIT :: u32 where "XA_BASE_FLAG_RUNTIME_INIT = push_bit 1 1"
definition XA_BASE_FLAG_EXECUTION :: u32 where "XA_BASE_FLAG_EXECUTION = push_bit 2 1"
definition XA_BASE_FLAG_COMPLETED :: u32 where "XA_BASE_FLAG_COMPLETED = push_bit 3 1"
definition XA_BASE_FLAG_SCHEDULE :: u32 where "XA_BASE_FLAG_SCHEDULE = push_bit 4 1"
definition XA_BASE_FLAG_COMP_FATAL_ERROR :: u32 where "XA_BASE_FLAG_COMP_FATAL_ERROR = push_bit 5 1"

definition XA_BASE_FLAG :: "u32 \<Rightarrow> u32" where
  "XA_BASE_FLAG f = push_bit 6 f"

definition has :: "u32 \<Rightarrow> 'z base_scheme \<Rightarrow> bool" where
  "has flag s \<longleftrightarrow> b_state s AND flag \<noteq> 0"

text \<open>Error codes; the macro \<^verbatim>\<open>XA_ERROR_CODE\<close> puts an all-ones severity above bit 15.\<close>

definition XA_ERROR_CODE :: "int \<Rightarrow> int \<Rightarrow> int \<Rightarrow> int \<Rightarrow> int" where
  "XA_ERROR_CODE severity class codec index = severity * 2 ^ 15 + class * 2 ^ 11 + codec * 2 ^ 6 + index"

definition XA_API_FATAL_MEM_ALLOC :: int where "XA_API_FATAL_MEM_ALLOC = XA_ERROR_CODE (- 1) 0 0 0"
definition XA_API_FATAL_MEM_ALIGN :: int where "XA_API_FATAL_MEM_ALIGN = XA_ERROR_CODE (- 1) 0 0 1"
definition XA_API_FATAL_INVALID_CMD :: int where "XA_API_FATAL_INVALID_CMD = XA_ERROR_CODE (- 1) 0 0 2"
definition XA_API_FATAL_INVALID_CMD_TYPE :: int where "XA_API_FATAL_INVALID_CMD_TYPE = XA_ERROR_CODE (- 1) 0 0 3"
definition XAF_API_ERR :: int where "XAF_API_ERR = - 5"

definition XA_ERROR_SEVERITY :: "int \<Rightarrow> bool" where
  "XA_ERROR_SEVERITY e \<longleftrightarrow> e < 0"

lemmas xa_errors = XA_ERROR_CODE_def XA_API_FATAL_MEM_ALLOC_def XA_API_FATAL_MEM_ALIGN_def XA_API_FATAL_INVALID_CMD_def
  XA_API_FATAL_INVALID_CMD_TYPE_def XAF_API_ERR_def

section \<open>The parts of the state that other components work on\<close>

definition on_core :: "(core \<Rightarrow> core) \<Rightarrow> 'z base_scheme \<Rightarrow> 'z base_scheme" where
  "on_core f s = s\<lparr>b_core := f (b_core s)\<rparr>"

definition io_of :: "'z base_scheme \<Rightarrow> io" where
  "io_of s = \<lparr>io_msg = c_msg (b_core s), io_bytes = c_bytes (b_core s), io_done = b_done s, io_mem = c_mem (b_core s)\<rparr>"

definition with_io :: "io \<Rightarrow> 'z base_scheme \<Rightarrow> 'z base_scheme" where
  "with_io i s = s\<lparr>b_core := (b_core s)\<lparr>c_msg := io_msg i, c_bytes := io_bytes i, c_mem := io_mem i\<rparr>, b_done := io_done i\<rparr>"

definition on_io :: "(io \<Rightarrow> io) \<Rightarrow> 'z base_scheme \<Rightarrow> 'z base_scheme" where
  "on_io f s = with_io (f (io_of s)) s"

definition msg :: "'z base_scheme \<Rightarrow> addr \<Rightarrow> xf_message" where
  "msg s m = c_msg (b_core s) m"

definition put32 :: "addr \<Rightarrow> u32 \<Rightarrow> 'z base_scheme \<Rightarrow> 'z base_scheme" where
  "put32 a v = on_core (\<lambda>c. c\<lparr>c_bytes := store32 a v (c_bytes c)\<rparr>)"

definition get32 :: "'z base_scheme \<Rightarrow> addr \<Rightarrow> u32" where
  "get32 s a = load32 (c_bytes (b_core s)) a"

definition get64 :: "'z base_scheme \<Rightarrow> addr \<Rightarrow> u64" where
  "get64 s a = ucast (get32 s a) OR push_bit 32 (ucast (get32 s (a + 4)))"

definition mem_alloc :: "u32 \<Rightarrow> u32 \<Rightarrow> u32 \<Rightarrow> 'z base_scheme \<Rightarrow> ('z base_scheme \<times> addr) option" where
  "mem_alloc n align t s =
     do { (M, p) \<leftarrow> xf_mem_alloc (c_mem (b_core s)) n align t; Some (on_core (c_mem_update (\<lambda>_. M)) s, p) }"

definition mem_free :: "addr \<Rightarrow> u32 \<Rightarrow> u32 \<Rightarrow> 'z base_scheme \<Rightarrow> 'z base_scheme option" where
  "mem_free p n t s = do { M \<leftarrow> xf_mem_free (c_mem (b_core s)) p n t; Some (on_core (c_mem_update (\<lambda>_. M)) s) }"

definition XAF_MEM_POOL_TYPE_COMP_INPUT :: nat where "XAF_MEM_POOL_TYPE_COMP_INPUT = 0"
definition XAF_MEM_POOL_TYPE_COMP_OUTPUT :: nat where "XAF_MEM_POOL_TYPE_COMP_OUTPUT = 1"
definition XAF_MEM_POOL_TYPE_COMP_PERSIST :: nat where "XAF_MEM_POOL_TYPE_COMP_PERSIST = 2"
definition XAF_MEM_POOL_TYPE_COMP_SCRATCH :: nat where "XAF_MEM_POOL_TYPE_COMP_SCRATCH = 3"

definition component_of :: "'z base_scheme \<Rightarrow> component" where
  "component_of s = c_component (b_core s) (b_self s)"

definition priority :: "'z base_scheme \<Rightarrow> u32" where
  "priority s = co_priority (component_of s)"

definition pool_type :: "'z base_scheme \<Rightarrow> nat \<Rightarrow> u32" where
  "pool_type s i = co_mem_pool_type (component_of s) ! i"

definition upd_component :: "(component \<Rightarrow> component) \<Rightarrow> 'z base_scheme \<Rightarrow> 'z base_scheme" where
  "upd_component f s = on_core (\<lambda>c. c\<lparr>c_component := (c_component c)(b_self s := f (c_component c (b_self s)))\<rparr>) s"

section \<open>Calls that return early\<close>

text \<open>
  The last argument of a call of the plug-in is a pointer into memory, or to a local variable with a
  value; the call gives the value of this variable afterwards. The continuation receives the state,
  the code returned and that value.
\<close>

datatype arg = Ptr addr | Local u32

type_synonym 's plugin = "u32 \<Rightarrow> u32 \<Rightarrow> arg \<Rightarrow> 's \<Rightarrow> 's \<times> int \<times> u32"

definition XA_API :: "'s plugin \<Rightarrow> u32 \<Rightarrow> u32 \<Rightarrow> arg \<Rightarrow> 's \<Rightarrow> ('s \<Rightarrow> int \<Rightarrow> u32 \<Rightarrow> 's result) \<Rightarrow> 's result" where
  "XA_API P cmd idx pv s k =
     (case P cmd idx pv s of (s, e, v) \<Rightarrow> if XA_ERROR_SEVERITY e then Some (s, e) else k s e v)"

definition XA_API_NORET :: "'s plugin \<Rightarrow> u32 \<Rightarrow> u32 \<Rightarrow> arg \<Rightarrow> 's \<Rightarrow> 's \<times> int" where
  "XA_API_NORET P cmd idx pv s = (case P cmd idx pv s of (s, e, v) \<Rightarrow> (s, e))"

definition CODEC_API :: "('s \<Rightarrow> 's result) \<Rightarrow> 's \<Rightarrow> ('s \<Rightarrow> int \<Rightarrow> 's result) \<Rightarrow> 's result" where
  "CODEC_API f s k = do { (s, e) \<leftarrow> f s; if XA_ERROR_SEVERITY e then Some (s, e) else k s e }"

text \<open>Allocation of a buffer of the component with a check of its alignment.\<close>

definition XMALLOC :: "mm_buffer \<Rightarrow> (mm_buffer \<Rightarrow> 'z base_scheme \<Rightarrow> 'z base_scheme) \<Rightarrow> u32 \<Rightarrow> u32 \<Rightarrow> u32 \<Rightarrow>
    'z base_scheme \<Rightarrow> ('z base_scheme \<Rightarrow> 'z base_scheme result) \<Rightarrow> 'z base_scheme result" where
  "XMALLOC b upd sz align t s k = do {
     (M, b, r) \<leftarrow> xf_mm_alloc_buffer (c_mem (b_core s)) sz align b t;
     let s = upd b (on_core (c_mem_update (\<lambda>_. M)) s);
     if r \<noteq> 0 then Some (s, XA_API_FATAL_MEM_ALLOC)
     else if mb_addr b AND (align - 1) \<noteq> 0 then Some (s, XA_API_FATAL_MEM_ALIGN)
     else k s }"

definition XA_API_CMD_GET_API_SIZE :: u32 where "XA_API_CMD_GET_API_SIZE = 0x0002"
definition XA_API_CMD_INIT :: u32 where "XA_API_CMD_INIT = 0x0003"
definition XA_API_CMD_SET_CONFIG_PARAM :: u32 where "XA_API_CMD_SET_CONFIG_PARAM = 0x0004"
definition XA_API_CMD_GET_CONFIG_PARAM :: u32 where "XA_API_CMD_GET_CONFIG_PARAM = 0x0005"
definition XA_API_CMD_GET_MEMTABS_SIZE :: u32 where "XA_API_CMD_GET_MEMTABS_SIZE = 0x0006"
definition XA_API_CMD_SET_MEMTABS_PTR :: u32 where "XA_API_CMD_SET_MEMTABS_PTR = 0x0007"
definition XA_API_CMD_GET_N_MEMTABS :: u32 where "XA_API_CMD_GET_N_MEMTABS = 0x0008"
definition XA_API_CMD_EXECUTE :: u32 where "XA_API_CMD_EXECUTE = 0x0009"
definition XA_API_CMD_GET_CURIDX_INPUT_BUF :: u32 where "XA_API_CMD_GET_CURIDX_INPUT_BUF = 0x000B"
definition XA_API_CMD_SET_INPUT_BYTES :: u32 where "XA_API_CMD_SET_INPUT_BYTES = 0x000C"
definition XA_API_CMD_GET_OUTPUT_BYTES :: u32 where "XA_API_CMD_GET_OUTPUT_BYTES = 0x000D"
definition XA_API_CMD_INPUT_OVER :: u32 where "XA_API_CMD_INPUT_OVER = 0x000E"
definition XA_API_CMD_GET_MEM_INFO_SIZE :: u32 where "XA_API_CMD_GET_MEM_INFO_SIZE = 0x0010"
definition XA_API_CMD_GET_MEM_INFO_ALIGNMENT :: u32 where "XA_API_CMD_GET_MEM_INFO_ALIGNMENT = 0x0011"
definition XA_API_CMD_GET_MEM_INFO_TYPE :: u32 where "XA_API_CMD_GET_MEM_INFO_TYPE = 0x0012"
definition XA_API_CMD_SET_MEM_PTR :: u32 where "XA_API_CMD_SET_MEM_PTR = 0x0015"
definition XA_API_CMD_DEINIT :: u32 where "XA_API_CMD_DEINIT = 0x001E"
definition XA_CMD_TYPE_INIT_API_PRE_CONFIG_PARAMS :: u32 where "XA_CMD_TYPE_INIT_API_PRE_CONFIG_PARAMS = 0x0100"
definition XA_CMD_TYPE_INIT_API_POST_CONFIG_PARAMS :: u32 where "XA_CMD_TYPE_INIT_API_POST_CONFIG_PARAMS = 0x0200"
definition XA_CMD_TYPE_INIT_PROCESS :: u32 where "XA_CMD_TYPE_INIT_PROCESS = 0x0300"
definition XA_CMD_TYPE_INIT_DONE_QUERY :: u32 where "XA_CMD_TYPE_INIT_DONE_QUERY = 0x0400"
definition XA_CMD_TYPE_DO_EXECUTE :: u32 where "XA_CMD_TYPE_DO_EXECUTE = 0x0100"
definition XA_CMD_TYPE_DONE_QUERY :: u32 where "XA_CMD_TYPE_DONE_QUERY = 0x0200"
definition XA_CMD_TYPE_DO_RUNTIME_INIT :: u32 where "XA_CMD_TYPE_DO_RUNTIME_INIT = 0x0300"

section \<open>Scheduling\<close>

definition xf_component_schedule :: "u64 \<Rightarrow> 'z base_scheme \<Rightarrow> 'z base_scheme option" where
  "xf_component_schedule dts s = do {
     h \<leftarrow> xf_sched_put (c_sched (b_core s)) (c_nodes (b_core s)) (b_self s) dts;
     Some (on_core (\<lambda>c. xf_ipi_resume_dsp (c\<lparr>c_nodes := h\<rparr>)) s) }"

definition xa_base_schedule :: "u64 \<Rightarrow> 'z base_scheme \<Rightarrow> 'z base_scheme option" where
  "xa_base_schedule dts s =
     (if has XA_BASE_FLAG_SCHEDULE s then Some s
      else if has XA_BASE_FLAG_COMP_FATAL_ERROR s then Some s
      else
        let s = s\<lparr>b_state := b_state s OR XA_BASE_FLAG_SCHEDULE\<rparr> in
        if c_n_workers (b_core s) \<noteq> 0 then do {
          h \<leftarrow> xf_sched_put (wk_sched (c_worker (b_core s) (priority s))) (c_nodes (b_core s)) (b_self s) dts;
          Some (on_core (c_nodes_update (\<lambda>_. h)) s) }
        else xf_component_schedule dts s)"

definition xa_base_cancel :: "'z base_scheme \<Rightarrow> 'z base_scheme option" where
  "xa_base_cancel s =
     (if has XA_BASE_FLAG_SCHEDULE s then
        let s = s\<lparr>b_state := b_state s AND NOT XA_BASE_FLAG_SCHEDULE\<rparr>;
            z = (if c_n_workers (b_core s) \<noteq> 0 then wk_sched (c_worker (b_core s) (priority s)) else c_sched (b_core s))
        in do {
          (h, _) \<leftarrow> xf_sched_cancel z (c_nodes (b_core s)) (b_self s);
          Some (on_core (c_nodes_update (\<lambda>_. h)) s) }
      else Some s)"

section \<open>Completed messages\<close>

text \<open>The completions that a component asked for, in order, each on the message as it was then.\<close>

fun answer_all_done :: "completion \<Rightarrow> (addr \<times> xf_message) list \<Rightarrow> core \<Rightarrow> core option" where
  "answer_all_done cpl [] c = Some c"
| "answer_all_done cpl ((m, x) # done) c = do { c \<leftarrow> cpl m (upd_msg m (\<lambda>_. x) c); answer_all_done cpl done c }"

end
