(* ===== verification/Class_Events.thy ===== *)
theory Class_Events
  imports Class_State
begin

text \<open>
  Event channels of a component (\<^verbatim>\<open>xa-class-base.c\<close>): creation, deletion, delivery of an event and the
  return of its message. The loops over the channels of a component run over the first
  \<open>b_num_channels\<close> elements of the list.
\<close>

section \<open>The list of channels\<close>

definition XF_EVENT_CHANNEL_INFO_ALIGNMENT :: u32 where "XF_EVENT_CHANNEL_INFO_ALIGNMENT = 32"
definition XF_CFG_ID_EVENT_TO_APP :: u32 where "XF_CFG_ID_EVENT_TO_APP = 0x11000"
definition XF_CFG_COMP_ERR_FATAL :: u32 where "XF_CFG_COMP_ERR_FATAL = 0x11001"
definition XF_CFG_COMP_ERR_ALL :: u32 where "XF_CFG_COMP_ERR_ALL = 0x11002"

text \<open>The size of \<^verbatim>\<open>xf_channel_info_t\<close> with 32-bit pointers and 64-bit port specifications.\<close>

definition sizeof_channel :: u32 where
  "sizeof_channel = 64"

text \<open>
  The search of a channel: whether one was found, the link that leads to the channel where the search
  stopped (\<open>None\<close> for the head of the list), and the last channel looked at.
\<close>

fun channel_scan :: "(channel \<Rightarrow> bool) \<Rightarrow> nat \<Rightarrow> addr option \<Rightarrow> addr \<Rightarrow> addr \<Rightarrow> (addr \<Rightarrow> channel) \<Rightarrow>
    bool \<times> addr option \<times> addr" where
  "channel_scan f 0 link p cur C = (False, link, cur)"
| "channel_scan f (Suc n) link p cur C =
     (if f (C p) then (True, link, p) else channel_scan f n (Some p) (ch_next (C p)) p C)"

definition find_channel :: "(channel \<Rightarrow> bool) \<Rightarrow> 'z base_scheme \<Rightarrow> bool \<times> addr option \<times> addr" where
  "find_channel f s = channel_scan f (unat (b_num_channels s)) None (b_chain s) NULL (b_channel s)"

definition upd_channel :: "addr \<Rightarrow> (channel \<Rightarrow> channel) \<Rightarrow> 'z base_scheme \<Rightarrow> 'z base_scheme" where
  "upd_channel p f s = s\<lparr>b_channel := (b_channel s)(p := f (b_channel s p))\<rparr>"

definition unlink_channel :: "addr option \<Rightarrow> addr \<Rightarrow> 'z base_scheme \<Rightarrow> 'z base_scheme" where
  "unlink_channel link p s =
     (case link of
        None \<Rightarrow> s\<lparr>b_chain := ch_next (b_channel s p)\<rparr>
      | Some c \<Rightarrow> upd_channel c (ch_next_update (\<lambda>_. ch_next (b_channel s p))) s)"

section \<open>Delivery of an event\<close>

definition event_take :: "addr \<Rightarrow> 'z base_scheme \<Rightarrow> 'z base_scheme \<times> addr" where
  "event_take p s =
     (let (h, q, m) = xf_msg_dequeue (c_msg (b_core s)) (ch_queue (b_channel s p))
      in (upd_channel p (ch_queue_update (\<lambda>_. q)) (on_core (c_msg_update (\<lambda>_. h)) s), m))"

definition count_down :: "addr \<Rightarrow> 'z base_scheme \<Rightarrow> 'z base_scheme" where
  "count_down p = upd_channel p (\<lambda>c. c\<lparr>ch_count := ch_count c - 1\<rparr>)"

definition event_answer :: "addr \<Rightarrow> addr \<Rightarrow> 'z base_scheme \<Rightarrow> 'z base_scheme" where
  "event_answer p m s = on_io (xf_response_data m (ch_size (b_channel s p) + 4)) s"

fun event_loop :: "'z base_scheme plugin \<Rightarrow> nat \<Rightarrow> u32 \<Rightarrow> int \<Rightarrow> addr \<Rightarrow> bool \<Rightarrow> 'z base_scheme \<Rightarrow> 'z base_scheme result" where
  "event_loop P 0 event_id error_code p found s = Some (s, if found then 0 else XAF_INVALIDVAL_ERR)"
| "event_loop P (Suc n) event_id error_code p found s =
     (if ch_src (b_channel s p) \<noteq> event_id then event_loop P n event_id error_code (ch_next (b_channel s p)) found s
      else if ch_delete (b_channel s p) \<noteq> NULL then event_loop P n event_id error_code (ch_next (b_channel s p)) True s
      else
        let (s, m) = event_take p s in
        if m = NULL then event_loop P n event_id error_code (ch_next (b_channel s p)) True s
        else
          let s = on_core (upd_msg m (m_error_update (\<lambda>_. 0))) s; b = m_buffer (msg s m) in
          if error_code \<noteq> 0 then
            let s = on_core (upd_msg m (m_error_update (\<lambda>_. word_of_int error_code))) s;
                s = put32 (b + 4) (word_of_int error_code) (put32 b event_id s);
                s = event_answer p m (count_down p s)
            in event_loop P n event_id error_code (ch_next (b_channel s p)) True s
          else
            let s = (if ch_dst (b_channel s p) = XF_CFG_ID_EVENT_TO_APP then count_down p (put32 b event_id s)
                     else put32 b (ch_dst (b_channel s p)) s)
            in if ch_size (b_channel s p) \<noteq> 0
               then XA_API P XA_API_CMD_GET_CONFIG_PARAM event_id (Ptr (b + 4)) s
                 (\<lambda>s e v. let s = event_answer p m s in event_loop P n event_id error_code (ch_next (b_channel s p)) True s)
               else let s = event_answer p m s in event_loop P n event_id error_code (ch_next (b_channel s p)) True s)"

definition xa_base_event_handler :: "'z base_scheme plugin \<Rightarrow> u32 \<Rightarrow> int \<Rightarrow> 'z base_scheme \<Rightarrow> 'z base_scheme result" where
  "xa_base_event_handler P event_id error_code s =
     event_loop P (unat (b_num_channels s)) event_id error_code (b_chain s) False s"

definition xa_base_error_handler :: "'z base_scheme plugin \<Rightarrow> int \<Rightarrow> 'z base_scheme \<Rightarrow> 'z base_scheme result" where
  "xa_base_error_handler P error_code s =
     xa_base_event_handler P (if b_nonfatal s \<noteq> 0 then XF_CFG_COMP_ERR_ALL else XF_CFG_COMP_ERR_FATAL) error_code s"

definition XAF_COMP_CONFIG_PARAM_SELF_SCHED :: u32 where "XAF_COMP_CONFIG_PARAM_SELF_SCHED = 0x20003"

definition xa_base_raise_event_cb :: "'z base_scheme plugin \<Rightarrow> u32 \<Rightarrow> 'z base_scheme \<Rightarrow> 'z base_scheme result" where
  "xa_base_raise_event_cb P event_id s =
     (if event_id = XAF_COMP_CONFIG_PARAM_SELF_SCHED then
        if has XA_BASE_FLAG_POSTINIT s \<and> \<not> has XA_BASE_FLAG_COMPLETED s
        then do { s \<leftarrow> xa_base_schedule 0 s; Some (s, 0) }
        else Some (s, XAF_API_ERR)
      else xa_base_event_handler P event_id 0 s)"

text \<open>
  A call of the plug-in during execution: a fatal error marks the component, others are reported
  when this was asked for.
\<close>

definition XA_COMP_API :: "'z base_scheme plugin \<Rightarrow> u32 \<Rightarrow> u32 \<Rightarrow> arg \<Rightarrow> 'z base_scheme \<Rightarrow>
    ('z base_scheme \<Rightarrow> u32 \<Rightarrow> 'z base_scheme result) \<Rightarrow> 'z base_scheme result" where
  "XA_COMP_API P cmd idx pv s k =
     (case P cmd idx pv s of (s, e, v) \<Rightarrow>
        if XA_ERROR_SEVERITY e then Some (s\<lparr>b_state := b_state s OR XA_BASE_FLAG_COMP_FATAL_ERROR\<rparr>, e)
        else if e \<noteq> 0 \<and> b_nonfatal s \<noteq> 0 then do { (s, _) \<leftarrow> xa_base_error_handler P e s; k s v }
        else k s v)"

section \<open>Creation\<close>

text \<open>The messages of a channel get a buffer each; the index of the first failure is returned.\<close>

fun channel_buffers :: "u32 list \<Rightarrow> u64 \<Rightarrow> u32 \<Rightarrow> addr \<Rightarrow> 'z base_scheme \<Rightarrow> ('z base_scheme \<times> u32 option) option" where
  "channel_buffers [] i align p s = Some (s, None)"
| "channel_buffers (x # xs) i align p s =
     (let m = xf_msg_pool_item (ch_pool (b_channel s p)) x; n = ch_size (b_channel s p) in do {
        (s, b) \<leftarrow> mem_alloc (n + 4) align XAF_MEM_ID_COMP s;
        let s = on_core (upd_msg m (\<lambda>_. \<lparr>m_next = NULL, m_id = i, m_opcode = XF_EVENT, m_length = n, m_buffer = b, m_error = 0\<rparr>)) s;
        if b = NULL then Some (s, Some x)
        else
          let (h, q, _) = xf_msg_enqueue (c_msg (b_core s)) (ch_queue (b_channel s p)) m
          in channel_buffers xs i align p (upd_channel p (ch_queue_update (\<lambda>_. q)) (on_core (c_msg_update (\<lambda>_. h)) s))
      })"

fun channel_free_buffers :: "u32 list \<Rightarrow> addr \<Rightarrow> 'z base_scheme \<Rightarrow> 'z base_scheme option" where
  "channel_free_buffers [] p s = Some s"
| "channel_free_buffers (x # xs) p s =
     (let m = xf_msg_pool_item (ch_pool (b_channel s p)) x in do {
        s \<leftarrow> mem_free (m_buffer (msg s m)) (m_length (msg s m) + 4) XAF_MEM_ID_COMP s;
        channel_free_buffers xs p s })"

definition channel_pool_init :: "addr \<Rightarrow> u32 \<Rightarrow> 'z base_scheme \<Rightarrow> 'z base_scheme result" where
  "channel_pool_init p n s = do {
     (M, h, pool, r) \<leftarrow> xf_msg_pool_init (c_mem (b_core s)) (c_msg (b_core s)) (ch_pool (b_channel s p)) n XAF_MEM_ID_COMP;
     Some (upd_channel p (ch_pool_update (\<lambda>_. pool)) (on_core (\<lambda>c. c\<lparr>c_mem := M, c_msg := h\<rparr>) s), r) }"

definition channel_pool_destroy :: "addr \<Rightarrow> 'z base_scheme \<Rightarrow> 'z base_scheme option" where
  "channel_pool_destroy p s = do {
     M \<leftarrow> xf_msg_pool_destroy (c_mem (b_core s)) (ch_pool (b_channel s p)) XAF_MEM_ID_COMP;
     Some (on_core (c_mem_update (\<lambda>_. M)) s) }"

text \<open>The fields of the command: two port specifications, then five words.\<close>

definition link_new_channel :: "addr \<Rightarrow> addr \<Rightarrow> 'z base_scheme \<Rightarrow> 'z base_scheme" where
  "link_new_channel p m s =
     (let s = upd_channel p (ch_next_update (\<lambda>_. b_chain s)) s;
          s = s\<lparr>b_chain := p, b_num_channels := b_num_channels s + 1\<rparr>
      in on_io (xf_response_ok m) s)"

definition xa_base_create_event_channel :: "addr \<Rightarrow> 'z base_scheme \<Rightarrow> 'z base_scheme result" where
  "xa_base_create_event_channel m s =
     (let cmd = m_buffer (msg s m);
          src = get64 s cmd; dst = get64 s (cmd + 8);
          src_cfg = get32 s (cmd + 16); dst_cfg = get32 s (cmd + 20);
          number = get32 s (cmd + 24); sz = get32 s (cmd + 28); align = get32 s (cmd + 32)
      in if fst (find_channel (\<lambda>c. ch_src c = src_cfg \<and> ch_dst c = dst_cfg \<and> ch_port_dst c = dst) s)
         then Some (s, XAF_INVALIDPTR_ERR)
         else if src_cfg \<noteq> XF_CFG_COMP_ERR_FATAL \<and> src_cfg \<noteq> XF_CFG_COMP_ERR_ALL \<and> \<not> b_cb s
         then Some (s, XAF_INVALIDVAL_ERR)
         else do {
           let s = (if src_cfg = XF_CFG_COMP_ERR_ALL then s\<lparr>b_nonfatal := 1\<rparr> else s);
           (s, p) \<leftarrow> mem_alloc sizeof_channel XF_EVENT_CHANNEL_INFO_ALIGNMENT XAF_MEM_ID_COMP s;
           if p = NULL then Some (s, XAF_MEMORY_ERR)
           else
             let s = upd_channel p (\<lambda>_. \<lparr>ch_next = NULL, ch_pool = \<lparr>pl_p = NULL, pl_head = NULL, pl_n = 0\<rparr>,
                       ch_queue = xf_msg_queue_init, ch_delete = NULL, ch_src = src_cfg, ch_dst = dst_cfg,
                       ch_port_dst = dst, ch_count = 0, ch_size = sz,
                       ch_shared = (XF_PORT_CORE dst \<noteq> XF_PORT_CORE src)\<rparr>) s
             in if dst_cfg = XF_CFG_ID_EVENT_TO_APP then Some (link_new_channel p m s, 0)
                else do {
                  let s = upd_channel p (ch_count_update (\<lambda>_. number)) s;
                  (s, r) \<leftarrow> channel_pool_init p number s;
                  if r < 0 then do { s \<leftarrow> mem_free p sizeof_channel XAF_MEM_ID_COMP s; Some (s, XAF_MEMORY_ERR) }
                  else do {
                    (s, fail) \<leftarrow> channel_buffers (map word_of_nat [0 ..< unat number]) (XF_MSG_ID dst src) align p s;
                    case fail of
                      None \<Rightarrow> Some (link_new_channel p m s, 0)
                    | Some i \<Rightarrow> do {
                        s \<leftarrow> channel_free_buffers (rev (map word_of_nat [0 ..< unat i])) p s;
                        s \<leftarrow> channel_pool_destroy p s;
                        s \<leftarrow> mem_free p sizeof_channel XAF_MEM_ID_COMP s;
                        Some (s, XAF_MEMORY_ERR) }
                  }
                }
         })"

section \<open>Deletion\<close>

text \<open>A message that the application lent to a channel goes back to it; others are released.\<close>

definition event_return :: "addr \<Rightarrow> addr \<Rightarrow> 'z base_scheme \<Rightarrow> 'z base_scheme option" where
  "event_return p m s =
     (let c = b_channel s p; b = m_buffer (msg s m) in
      if ch_dst c = XF_CFG_ID_EVENT_TO_APP
      then Some (on_io (xf_response m) (on_core (upd_msg m (m_length_update (\<lambda>_. 4))) (put32 b (ch_src c) s)))
      else mem_free b (ch_size c + 4) XAF_MEM_ID_COMP s)"

definition channel_destroy :: "addr option \<Rightarrow> addr \<Rightarrow> 'z base_scheme \<Rightarrow> 'z base_scheme option" where
  "channel_destroy link p s = do {
     s \<leftarrow> (if ch_dst (b_channel s p) \<noteq> XF_CFG_ID_EVENT_TO_APP then channel_pool_destroy p s else Some s);
     let s = unlink_channel link p (s\<lparr>b_num_channels := b_num_channels s - 1\<rparr>);
     mem_free p sizeof_channel XAF_MEM_ID_COMP s }"

partial_function (option) event_drain :: "addr \<Rightarrow> 'z base_scheme \<Rightarrow> 'z base_scheme option" where
  "event_drain p s =
     (case event_take p s of (s, m) \<Rightarrow>
        if m = NULL then Some s
        else Option.bind (event_return p m s) (\<lambda>s. event_drain p (count_down p s)))"

definition xa_base_delete_event_channel :: "addr \<Rightarrow> 'z base_scheme \<Rightarrow> 'z base_scheme result" where
  "xa_base_delete_event_channel m s =
     (let cmd = m_buffer (msg s m); src_cfg = get32 s (cmd + 16); dst_cfg = get32 s (cmd + 20) in
      case find_channel (\<lambda>c. ch_src c = src_cfg \<and> ch_dst c = dst_cfg) s of (found, link, p) \<Rightarrow>
        if \<not> found then Some (s, XAF_INVALIDPTR_ERR)
        else do {
          s \<leftarrow> event_drain p s;
          if ch_count (b_channel s p) \<noteq> 0 then Some (upd_channel p (ch_delete_update (\<lambda>_. m)) s, 0)
          else do { s \<leftarrow> channel_destroy link p s; Some (on_io (xf_response_ok m) s, 0) }
        })"

section \<open>Return of a message\<close>

text \<open>
  At the receiver an event sets a parameter. At the source the message goes back to its channel; the
  code assumes that it finds the channel, and takes the last one otherwise.
\<close>

definition event_channel_of :: "u32 \<Rightarrow> u64 \<Rightarrow> channel \<Rightarrow> bool" where
  "event_channel_of event_id i c \<longleftrightarrow>
     ch_dst c = event_id \<and> (ch_port_dst c = ucast (XF_MSG_SRC i) \<and> \<not> XF_MSG_SRC_PROXY i) \<or>
     ch_dst c = XF_CFG_ID_EVENT_TO_APP \<and> ch_src c = event_id"

definition event_back :: "addr option \<Rightarrow> addr \<Rightarrow> addr \<Rightarrow> 'z base_scheme \<Rightarrow> 'z base_scheme option" where
  "event_back link p m s =
     (if ch_delete (b_channel s p) = NULL then
        let (h, q, _) = xf_msg_enqueue (c_msg (b_core s)) (ch_queue (b_channel s p)) m;
            s = upd_channel p (ch_queue_update (\<lambda>_. q)) (on_core (c_msg_update (\<lambda>_. h)) s)
        in Some (if ch_dst (b_channel s p) = XF_CFG_ID_EVENT_TO_APP
                 then upd_channel p (\<lambda>c. c\<lparr>ch_count := ch_count c + 1\<rparr>) s else s)
      else do {
        s \<leftarrow> event_return p m s;
        let s = count_down p s;
        if ch_count (b_channel s p) = 0
        then channel_destroy link p (on_io (xf_response_ok (ch_delete (b_channel s p))) s)
        else Some s })"

definition xa_base_process_event :: "'z base_scheme plugin \<Rightarrow> addr \<Rightarrow> 'z base_scheme \<Rightarrow> 'z base_scheme result" where
  "xa_base_process_event P m s =
     (let i = m_id (msg s m); b = m_buffer (msg s m); event_id = get32 s b in
      if \<not> XF_MSG_SRC_PROXY i \<and> m_length (msg s m) \<noteq> 0 then
        XA_API P XA_API_CMD_SET_CONFIG_PARAM event_id (Ptr (if m_length (msg s m) > 4 then b + 4 else NULL)) s
          (\<lambda>s e v. Some (on_io (xf_response_ok m) s, 0))
      else
        case find_channel (event_channel_of event_id i) s of (found, link, p) \<Rightarrow>
          if p = NULL then None
          else do { s \<leftarrow> event_back link p m s; Some (s, 0) })"

end
