(* ===== verification/Class_Base.thy ===== *)
theory Class_Base
  imports Class_Events
begin

text \<open>
  The component base class (\<^verbatim>\<open>xa-class-base.c\<close>): construction, the tables of memory of a plug-in, the
  parameter commands, data processing and the entry point. The methods that a class adds are the
  fields of \<open>klass\<close>. Priorities of threads of the operating system are not modelled.
\<close>

section \<open>Methods of a class\<close>

text \<open>
  \<open>k_clear\<close> zeroes the structure of a component at an address, \<open>k_command\<close> is the table of commands,
  the sizes are those of \<^verbatim>\<open>XACodecBase\<close> and of the structure of the class.
\<close>

record 's klass =
  k_process :: "'s plugin"
  k_memtab :: "u32 \<Rightarrow> u32 \<Rightarrow> u32 \<Rightarrow> u32 \<Rightarrow> 's \<Rightarrow> 's result"
  k_preprocess :: "'s \<Rightarrow> 's result"
  k_postprocess :: "u32 \<Rightarrow> 's \<Rightarrow> 's result"
  k_setparam :: "(u32 \<Rightarrow> addr \<Rightarrow> 's \<Rightarrow> 's result) option"
  k_getparam :: "(u32 \<Rightarrow> addr \<Rightarrow> 's \<Rightarrow> 's result) option"
  k_command :: "u32 \<Rightarrow> (addr \<Rightarrow> 's \<Rightarrow> 's result) option"
  k_command_num :: u32
  k_clear :: "addr \<Rightarrow> 's \<Rightarrow> 's"
  k_sizeof_base :: u32

definition XF_CFG_CODEC_SCRATCHMEM_ALIGN :: u32 where "XF_CFG_CODEC_SCRATCHMEM_ALIGN = 16"
definition XA_MEMTYPE_PERSIST :: u32 where "XA_MEMTYPE_PERSIST = 0"
definition XA_MEMTYPE_SCRATCH :: u32 where "XA_MEMTYPE_SCRATCH = 1"
definition XA_MEMTYPE_INPUT :: u32 where "XA_MEMTYPE_INPUT = 2"
definition XA_MEMTYPE_OUTPUT :: u32 where "XA_MEMTYPE_OUTPUT = 3"
definition XAF_COMP_CONFIG_PARAM_PRIORITY :: u32 where "XAF_COMP_CONFIG_PARAM_PRIORITY = 0x20002"
definition XAF_COMP_CONFIG_PARAM_EVENT_CB :: u32 where "XAF_COMP_CONFIG_PARAM_EVENT_CB = 0x2000E"

section \<open>Initialisation\<close>

definition xf_scratch_mem_init :: "u32 \<Rightarrow> u32 \<Rightarrow> 'z base_scheme \<Rightarrow> ('z base_scheme \<times> addr) option" where
  "xf_scratch_mem_init prio t s = mem_alloc (c_scratch_size (b_core s) prio) XF_CFG_CODEC_SCRATCHMEM_ALIGN t s"

definition xf_scratch_mem_alloc :: "u32 \<Rightarrow> 'z base_scheme \<Rightarrow> 'z base_scheme result" where
  "xf_scratch_mem_alloc prio s =
     (let t = pool_type s XAF_MEM_POOL_TYPE_COMP_SCRATCH in
      if prio = 0 \<or> c_n_workers (b_core s) = 0 then do {
        s \<leftarrow> (if c_scratch (b_core s) = NULL then do {
                (s, p) \<leftarrow> xf_scratch_mem_init prio t s;
                Some (on_core (c_scratch_update (\<lambda>_. p)) s) }
              else Some s);
        if c_scratch (b_core s) = NULL then Some (s, XAF_MEMORY_ERR)
        else Some (s\<lparr>b_scratch := c_scratch (b_core s)\<rparr>, 0) }
      else do {
        s \<leftarrow> (if wk_scratch (c_worker (b_core s) prio) = NULL then do {
                (s, p) \<leftarrow> xf_scratch_mem_init prio t s;
                Some (on_core (upd_worker prio (wk_scratch_update (\<lambda>_. p))) s) }
              else Some s);
        if wk_scratch (c_worker (b_core s) prio) = NULL then Some (s, XAF_MEMORY_ERR)
        else Some (s\<lparr>b_scratch := wk_scratch (c_worker (b_core s) prio)\<rparr>, 0) })"

definition xa_base_preinit :: "'z base_scheme plugin \<Rightarrow> 'z base_scheme \<Rightarrow> 'z base_scheme result" where
  "xa_base_preinit P s =
     (if b_state s \<noteq> 0 then Some (s, XA_API_FATAL_INVALID_CMD)
      else XA_API P XA_API_CMD_GET_API_SIZE 0 (Local 0) s (\<lambda>s e n.
        XMALLOC (b_api s) (\<lambda>b. b_api_update (\<lambda>_. b)) n 4 XAF_MEM_ID_COMP s (\<lambda>s.
          XA_API P XA_API_CMD_INIT XA_CMD_TYPE_INIT_API_PRE_CONFIG_PARAMS (Ptr NULL) s (\<lambda>s e v.
            XA_API P XA_API_CMD_GET_MEMTABS_SIZE 0 (Local n) s (\<lambda>s e n.
              if n \<noteq> 0 then
                XMALLOC (b_mem_tabs s) (\<lambda>b. b_mem_tabs_update (\<lambda>_. b)) n 4 XAF_MEM_ID_COMP s (\<lambda>s.
                  XA_API P XA_API_CMD_SET_MEMTABS_PTR 0 (Ptr (mb_addr (b_mem_tabs s))) s (\<lambda>s e v. Some (s, 0)))
              else Some (s, 0))))))"

text \<open>One table of memory: its type, size and alignment are asked for, then the memory is provided.\<close>

definition postinit_table :: "'z base_scheme klass \<Rightarrow> u32 \<Rightarrow> 'z base_scheme \<Rightarrow>
    ('z base_scheme \<Rightarrow> 'z base_scheme result) \<Rightarrow> 'z base_scheme result" where
  "postinit_table K i s k =
     (let P = k_process K in
      XA_API P XA_API_CMD_GET_MEM_INFO_TYPE i (Local 0) s (\<lambda>s e t.
      XA_API P XA_API_CMD_GET_MEM_INFO_SIZE i (Local 0) s (\<lambda>s e sz.
      XA_API P XA_API_CMD_GET_MEM_INFO_ALIGNMENT i (Local 0) s (\<lambda>s e align.
        if t = XA_MEMTYPE_SCRATCH then
          if \<not> sz \<le>s c_scratch_size (b_core s) (priority s) then Some (s, XA_API_FATAL_MEM_ALLOC)
          else if XF_CFG_CODEC_SCRATCHMEM_ALIGN AND (align - 1) \<noteq> 0 then Some (s, XA_API_FATAL_MEM_ALIGN)
          else CODEC_API (xf_scratch_mem_alloc (priority s)) s (\<lambda>s e.
            XA_API P XA_API_CMD_SET_MEM_PTR i (Ptr (b_scratch s)) s (\<lambda>s e v. k (s\<lparr>b_scratch_idx := i\<rparr>)))
        else if t = XA_MEMTYPE_PERSIST then
          XMALLOC (b_persist s) (\<lambda>b. b_persist_update (\<lambda>_. b)) sz align (pool_type s XAF_MEM_POOL_TYPE_COMP_PERSIST) s (\<lambda>s.
            XA_API P XA_API_CMD_SET_MEM_PTR i (Ptr (mb_addr (b_persist s))) s (\<lambda>s e v. k s))
        else if t = XA_MEMTYPE_INPUT \<or> t = XA_MEMTYPE_OUTPUT then
          CODEC_API (k_memtab K i t sz align) s (\<lambda>s e. k s)
        else Some (s, XA_API_FATAL_INVALID_CMD_TYPE)))))"

fun postinit_tables :: "'z base_scheme klass \<Rightarrow> u32 list \<Rightarrow> 'z base_scheme \<Rightarrow> 'z base_scheme result" where
  "postinit_tables K [] s = Some (s, 0)"
| "postinit_tables K (i # js) s = postinit_table K i s (\<lambda>s. postinit_tables K js s)"

definition xa_base_postinit :: "'z base_scheme klass \<Rightarrow> 'z base_scheme \<Rightarrow> 'z base_scheme result" where
  "xa_base_postinit K s =
     XA_API (k_process K) XA_API_CMD_INIT XA_CMD_TYPE_INIT_API_POST_CONFIG_PARAMS (Ptr NULL) s (\<lambda>s e v.
       XA_API (k_process K) XA_API_CMD_GET_N_MEMTABS 0 (Local 0) s (\<lambda>s e n.
         postinit_tables K (map word_of_nat [0 ..< nat (sint n)]) (s\<lparr>b_scratch_idx := - 1\<rparr>)))"

section \<open>Parameters of the component\<close>

definition is_component_param :: "u32 \<Rightarrow> bool" where
  "is_component_param i \<longleftrightarrow> i = XAF_COMP_CONFIG_PARAM_PRIORITY"

text \<open>Messages of the component move to the queue of another worker; the fuel is the length of the queue.\<close>

fun move_loop :: "nat \<Rightarrow> addr \<Rightarrow> u32 \<Rightarrow> u32 \<Rightarrow> core \<Rightarrow> core option" where
  "move_loop 0 self v w c = None"
| "move_loop (Suc k) self v w c =
     (case wk_msgs (c_worker c v) of
        [] \<Rightarrow> Some c
      | x # q \<Rightarrow>
          let c = upd_worker v (wk_msgs_update (\<lambda>_. q)) c in
          if wm_component x = NULL \<and> wm_msg x = NULL then Some c
          else if wm_msg x \<noteq> NULL \<and> wm_component x = self then move_loop k self v w (msgq_send w x c)
          else move_loop k self v w (msgq_send v x c))"

definition xa_send_msg_to_new_priority_queue :: "u32 \<Rightarrow> u32 \<Rightarrow> 'z base_scheme \<Rightarrow> 'z base_scheme option" where
  "xa_send_msg_to_new_priority_queue v w s =
     (let c = msgq_send v \<lparr>wm_component = NULL, wm_msg = NULL\<rparr> (b_core s)
      in do { c \<leftarrow> move_loop (length (wk_msgs (c_worker c v))) (b_self s) v w c; Some (s\<lparr>b_core := c\<rparr>) })"

text \<open>The memory that a plug-in has set up is moved with it; a warning does not stop the command.\<close>

definition move_scratch :: "'z base_scheme plugin \<Rightarrow> u32 \<Rightarrow> 'z base_scheme \<Rightarrow> ('z base_scheme \<Rightarrow> 'z base_scheme result) \<Rightarrow>
    'z base_scheme result" where
  "move_scratch P w s k =
     (if has XA_BASE_FLAG_POSTINIT s \<and> b_scratch_idx s \<noteq> - 1 then
        CODEC_API (xf_scratch_mem_alloc w) s (\<lambda>s e.
          XA_API P XA_API_CMD_SET_MEM_PTR (b_scratch_idx s) (Ptr (b_scratch s)) s (\<lambda>s e v. k s))
      else k s)"

definition xa_component_setparam :: "'z base_scheme plugin \<Rightarrow> u32 \<Rightarrow> addr \<Rightarrow> 'z base_scheme \<Rightarrow> 'z base_scheme result" where
  "xa_component_setparam P i pv s =
     (if i \<noteq> XAF_COMP_CONFIG_PARAM_PRIORITY then Some (s, XA_API_FATAL_INVALID_CMD_TYPE)
      else if c_n_workers (b_core s) = 0 then Some (s, XAF_INVALIDVAL_ERR)
      else
        let v = priority s; sched_flag = has XA_BASE_FLAG_SCHEDULE s; w = get32 s pv + 1 in
        if \<not> w < c_n_workers (b_core s) then Some (s, XAF_INVALIDVAL_ERR)
        else do {
          s \<leftarrow> (if sched_flag then xa_base_cancel s else Some s);
          s \<leftarrow> xa_send_msg_to_new_priority_queue v w s;
          move_scratch P w s (\<lambda>s.
            let s = upd_component (co_priority_update (\<lambda>_. w)) s
            in do { s \<leftarrow> (if sched_flag then xa_base_schedule 0 s else Some s); Some (s, 0) }) })"

section \<open>Parameter commands\<close>

definition note_error :: "addr \<Rightarrow> int \<Rightarrow> 'z base_scheme \<Rightarrow> 'z base_scheme" where
  "note_error m e s =
     (if e > 0 \<and> m_error (msg s m) = 0 then on_core (upd_msg m (m_error_update (\<lambda>_. word_of_int e))) s else s)"

definition plug_setparam :: "'z base_scheme klass \<Rightarrow> u32 \<Rightarrow> addr \<Rightarrow> 'z base_scheme \<Rightarrow>
    ('z base_scheme \<Rightarrow> int \<Rightarrow> 'z base_scheme result) \<Rightarrow> 'z base_scheme result" where
  "plug_setparam K i pv s k =
     (case k_setparam K of
        Some f \<Rightarrow> CODEC_API (f i pv) s k
      | None \<Rightarrow> XA_API (k_process K) XA_API_CMD_SET_CONFIG_PARAM i (Ptr pv) s (\<lambda>s e v. k s e))"

definition plug_getparam :: "'z base_scheme klass \<Rightarrow> u32 \<Rightarrow> addr \<Rightarrow> 'z base_scheme \<Rightarrow>
    ('z base_scheme \<Rightarrow> int \<Rightarrow> 'z base_scheme result) \<Rightarrow> 'z base_scheme result" where
  "plug_getparam K i pv s k =
     (case k_getparam K of
        Some f \<Rightarrow> CODEC_API (f i pv) s k
      | None \<Rightarrow> XA_API (k_process K) XA_API_CMD_GET_CONFIG_PARAM i (Ptr pv) s (\<lambda>s e v. k s e))"

text \<open>The items of a command, with the last error; a priority does not change the last error.\<close>

fun set_items :: "'z base_scheme klass \<Rightarrow> addr \<Rightarrow> addr \<Rightarrow> u32 list \<Rightarrow> int \<Rightarrow> 'z base_scheme \<Rightarrow>
    ('z base_scheme \<Rightarrow> 'z base_scheme result) \<Rightarrow> 'z base_scheme result" where
  "set_items K m b [] e s k = k s"
| "set_items K m b (i # js) e s k =
     (let param = b + 8 * i in
      if is_component_param (get32 s param)
      then CODEC_API (xa_component_setparam (k_process K) (get32 s param) (param + 4)) s (\<lambda>s _.
        set_items K m b js e (note_error m e s) k)
      else plug_setparam K (get32 s param) (param + 4) s (\<lambda>s e. set_items K m b js e (note_error m e s) k))"

definition items :: "u32 \<Rightarrow> u32 list" where
  "items n = map word_of_nat [0 ..< unat n]"

definition xa_base_set_param :: "'z base_scheme klass \<Rightarrow> addr \<Rightarrow> 'z base_scheme \<Rightarrow> 'z base_scheme result" where
  "xa_base_set_param K m s =
     (let n = m_length (msg s m) div 8 in
      if m_length (msg s m) \<noteq> 8 * n then Some (s, XA_API_FATAL_INVALID_CMD_TYPE)
      else
        let s = (if \<not> has XA_BASE_FLAG_POSTINIT s then upd_component (co_priority_update (\<lambda>_. 0)) s else s) in
        set_items K m (m_buffer (msg s m)) (items n) 0 s (\<lambda>s.
          if \<not> has XA_BASE_FLAG_POSTINIT s
          then CODEC_API (xa_base_postinit K) s (\<lambda>s e.
            let s = s\<lparr>b_state := b_state s XOR (XA_BASE_FLAG_POSTINIT OR XA_BASE_FLAG_RUNTIME_INIT)\<rparr>
            in Some (on_io (xf_response_ok m) s, 0))
          else Some (on_io (xf_response_ok m) s, 0)))"

fun get_items :: "'z base_scheme klass \<Rightarrow> addr \<Rightarrow> addr \<Rightarrow> u32 list \<Rightarrow> 'z base_scheme \<Rightarrow>
    ('z base_scheme \<Rightarrow> 'z base_scheme result) \<Rightarrow> 'z base_scheme result" where
  "get_items K m b [] s k = k s"
| "get_items K m b (i # js) s k =
     plug_getparam K (get32 s (b + 4 * i)) (b + 4 * i) s (\<lambda>s e. get_items K m b js (note_error m e s) k)"

definition xa_base_get_param :: "'z base_scheme klass \<Rightarrow> addr \<Rightarrow> 'z base_scheme \<Rightarrow> 'z base_scheme result" where
  "xa_base_get_param K m s =
     (let n = m_length (msg s m) div 4 in
      if 4 * n \<noteq> m_length (msg s m) then Some (s, XA_API_FATAL_INVALID_CMD_TYPE)
      else get_items K m (m_buffer (msg s m)) (items n) s (\<lambda>s. Some (on_io (xf_response_data m (4 * n)) s, 0)))"

text \<open>
  Extended parameters: the descriptor holds the number of the parameter, its length and the offset of
  its buffer in the shared region, whose last word is the offset of the data. The fuel bounds the
  number of descriptors, which take 8 bytes of the length each.
\<close>

fun set_ext_loop :: "nat \<Rightarrow> 'z base_scheme klass \<Rightarrow> addr \<Rightarrow> addr \<Rightarrow> u32 \<Rightarrow> 'z base_scheme \<Rightarrow> 'z base_scheme result" where
  "set_ext_loop 0 K m cmd remaining s = None"
| "set_ext_loop (Suc k) K m cmd remaining s =
     (if \<not> 8 \<le> remaining
      then if remaining \<noteq> 0 then Some (s, XA_API_FATAL_INVALID_CMD_TYPE) else Some (on_io (xf_response_ok m) s, 0)
      else
        let i = get32 s cmd; dsize = get32 s (cmd + 4); pext = xf_ipc_a2b (get32 s (cmd + 8));
            remaining = remaining - 8;
            s = put32 (pext + 12) (xf_ipc_a2b (get32 s (pext + 12))) s
        in if \<not> dsize \<le> remaining then Some (s, XA_API_FATAL_INVALID_CMD_TYPE)
           else plug_setparam K i pext s (\<lambda>s e. set_ext_loop k K m (pext + dsize) (remaining - dsize) (note_error m e s)))"

definition xa_base_set_param_ext :: "'z base_scheme klass \<Rightarrow> addr \<Rightarrow> 'z base_scheme \<Rightarrow> 'z base_scheme result" where
  "xa_base_set_param_ext K m s =
     (let n = m_length (msg s m) in set_ext_loop (Suc (unat n div 8)) K m (m_buffer (msg s m)) n s)"

fun get_ext_loop :: "nat \<Rightarrow> 'z base_scheme klass \<Rightarrow> addr \<Rightarrow> u32 \<Rightarrow> addr \<Rightarrow> u32 \<Rightarrow> 'z base_scheme \<Rightarrow> 'z base_scheme result" where
  "get_ext_loop 0 K m n cmd remaining s = None"
| "get_ext_loop (Suc k) K m n cmd remaining s =
     (if \<not> 8 \<le> remaining
      then if remaining \<noteq> 0 then Some (s, XA_API_FATAL_INVALID_CMD_TYPE) else Some (on_io (xf_response_data m n) s, 0)
      else
        let i = get32 s cmd; dsize = get32 s (cmd + 4); pext = xf_ipc_a2b (get32 s (cmd + 8));
            remaining = remaining - 8
        in if \<not> dsize \<le> remaining then Some (s, XA_API_FATAL_INVALID_CMD_TYPE)
           else
             let s = put32 (pext + 12) (xf_ipc_a2b (get32 s (pext + 12))) s in
             plug_getparam K i pext s (\<lambda>s e.
               let s = put32 (pext + 12) (xf_ipc_b2a (get32 s (pext + 12))) (note_error m e s)
               in get_ext_loop k K m n (pext + dsize) (remaining - dsize) s))"

definition xa_base_get_param_ext :: "'z base_scheme klass \<Rightarrow> addr \<Rightarrow> 'z base_scheme \<Rightarrow> 'z base_scheme result" where
  "xa_base_get_param_ext K m s =
     (let n = m_length (msg s m) in get_ext_loop (Suc (unat n div 8)) K m n (m_buffer (msg s m)) n s)"

section \<open>Data processing\<close>

text \<open>The execution step; the continuation receives whether the current stage is done.\<close>

definition execution_step :: "'z base_scheme plugin \<Rightarrow> 'z base_scheme \<Rightarrow> ('z base_scheme \<Rightarrow> u32 \<Rightarrow> 'z base_scheme result) \<Rightarrow>
    'z base_scheme result" where
  "execution_step P s k =
     (if has XA_BASE_FLAG_RUNTIME_INIT s then
        XA_COMP_API P XA_API_CMD_INIT XA_CMD_TYPE_INIT_PROCESS (Ptr NULL) s (\<lambda>s v.
        XA_COMP_API P XA_API_CMD_INIT XA_CMD_TYPE_INIT_DONE_QUERY (Local 0) s (\<lambda>s done.
          k (if done \<noteq> 0 then s\<lparr>b_state := b_state s XOR (XA_BASE_FLAG_RUNTIME_INIT OR XA_BASE_FLAG_EXECUTION)\<rparr> else s) done))
      else if has XA_BASE_FLAG_EXECUTION s then
        XA_COMP_API P XA_API_CMD_EXECUTE XA_CMD_TYPE_DO_EXECUTE (Ptr NULL) s (\<lambda>s v.
        XA_COMP_API P XA_API_CMD_EXECUTE XA_CMD_TYPE_DONE_QUERY (Local 0) s (\<lambda>s done.
          k (if done \<noteq> 0 then s\<lparr>b_state := b_state s XOR (XA_BASE_FLAG_EXECUTION OR XA_BASE_FLAG_COMPLETED)\<rparr> else s) done))
      else k s 0)"

definition xa_base_process :: "'z base_scheme klass \<Rightarrow> 'z base_scheme \<Rightarrow> 'z base_scheme result" where
  "xa_base_process K s =
     (let s = s\<lparr>b_state := b_state s AND NOT XA_BASE_FLAG_SCHEDULE\<rparr> in do {
        (s, e) \<leftarrow> k_preprocess K s;
        if e \<noteq> 0 then Some (s, e)
        else execution_step (k_process K) s (\<lambda>s done. k_postprocess K done s)
      })"

section \<open>Entry point\<close>

definition xa_base_command :: "'z base_scheme klass \<Rightarrow> addr \<Rightarrow> 'z base_scheme \<Rightarrow> 'z base_scheme result" where
  "xa_base_command K m s =
     (if m = NULL then do { (s, e) \<leftarrow> xa_base_process K s; Some (s, if XA_ERROR_SEVERITY e then e else 0) }
      else
        let cmd = XF_OPCODE_TYPE (m_opcode (msg s m)); P = k_process K in
        if cmd = XF_OPCODE_TYPE XF_EVENT_CHANNEL_CREATE then do {
          (s, e) \<leftarrow> xa_base_create_event_channel m s;
          Some (if e < 0 then on_io (xf_response_err m) s else s, 0) }
        else if cmd = XF_OPCODE_TYPE XF_EVENT_CHANNEL_DELETE then do {
          (s, e) \<leftarrow> xa_base_delete_event_channel m s;
          Some (if e < 0 then on_io (xf_response_err m) s else s, 0) }
        else if cmd = XF_OPCODE_TYPE XF_EVENT then xa_base_process_event P m s
        else if cmd = XF_OPCODE_TYPE XF_UNREGISTER then
          let (s, _) = XA_API_NORET P XA_API_CMD_DEINIT 0 (Ptr NULL) s;
              s = (if b_cb s
                   then let (s, _) = XA_API_NORET P XA_API_CMD_SET_CONFIG_PARAM XAF_COMP_CONFIG_PARAM_EVENT_CB (Ptr NULL) s
                        in s\<lparr>b_cb := False\<rparr>
                   else s)
          in Some (s, XAF_UNREGISTER)
        else if \<not> cmd < k_command_num K then Some (s, XAF_INVALIDVAL_ERR)
        else case k_command K cmd of
            None \<Rightarrow> Some (s, XAF_INVALIDVAL_ERR)
          | Some f \<Rightarrow> do { (s, e) \<leftarrow> f m s; Some (s, if XA_ERROR_SEVERITY e then XAF_API_ERR else 0) })"

section \<open>Construction and destruction\<close>

definition xa_base_destroy :: "u32 \<Rightarrow> 'z base_scheme \<Rightarrow> 'z base_scheme option" where
  "xa_base_destroy sz s = do {
     M \<leftarrow> xf_mm_free_buffer (c_mem (b_core s)) (b_persist s) (pool_type s XAF_MEM_POOL_TYPE_COMP_PERSIST);
     M \<leftarrow> xf_mm_free_buffer M (b_mem_tabs s) XAF_MEM_ID_COMP;
     M \<leftarrow> xf_mm_free_buffer M (b_api s) XAF_MEM_ID_COMP;
     mem_free (b_self s) sz XAF_MEM_ID_COMP (on_core (c_mem_update (\<lambda>_. M)) s) }"

text \<open>The structure of a component that has just been zeroed, with the entry point set.\<close>

definition base_clear :: "addr \<Rightarrow> 'z base_scheme \<Rightarrow> 'z base_scheme" where
  "base_clear a s = upd_component (\<lambda>_. \<lparr>co_id = 0, co_priority = 0, co_mem_pool_type = replicate 6 0\<rparr>)
     (s\<lparr>b_self := a, b_api := \<lparr>mb_addr = NULL, mb_size = 0\<rparr>, b_mem_tabs := \<lparr>mb_addr = NULL, mb_size = 0\<rparr>,
        b_persist := \<lparr>mb_addr = NULL, mb_size = 0\<rparr>, b_scratch := NULL, b_scratch_idx := 0, b_state := 0,
        b_chain := NULL, b_num_channels := 0, b_cb := False, b_nonfatal := 0, b_type := 0\<rparr>)"

definition xa_base_factory :: "'z base_scheme klass \<Rightarrow> u32 \<Rightarrow> 'z base_scheme \<Rightarrow> ('z base_scheme \<times> addr) option" where
  "xa_base_factory K sz s =
     (if \<not> k_sizeof_base K \<le> sz then Some (s, NULL)
      else do {
        (s, a) \<leftarrow> mem_alloc sz 0 XAF_MEM_ID_COMP s;
        if a = NULL then Some (s, NULL)
        else do {
          (s, e) \<leftarrow> xa_base_preinit (k_process K) (k_clear K a s);
          if e \<noteq> 0 then do { s \<leftarrow> xa_base_destroy sz s; Some (s, NULL) }
          else
            let s = upd_component (co_mem_pool_type_update
                      (\<lambda>p. replicate 4 XAF_MEM_ID_COMP @ drop 4 p)) s;
                (s, e) = XA_API_NORET (k_process K) XA_API_CMD_SET_CONFIG_PARAM XAF_COMP_CONFIG_PARAM_EVENT_CB
                      (Ptr a) (s\<lparr>b_cb := True\<rparr>)
            in Some (if e \<noteq> 0 then s\<lparr>b_cb := False\<rparr> else s, a)
        }
      })"

end
