(* ===== verification/Audio_Codec.thy ===== *)
theory Audio_Codec
  imports Class_Base
begin

text \<open>
  The class of audio codecs, encoders and processing components with one input and one output port
  (\<^verbatim>\<open>xa-class-audio-codec.c\<close>), with the helpers of \<^verbatim>\<open>xf-probe.h\<close> and \<^verbatim>\<open>xf-timebase.h\<close>. The checks
  marked \<^verbatim>\<open>BUG\<close> in the source are compiled to nothing; a division by zero does not return.
\<close>

section \<open>State\<close>

text \<open>
  \<open>cd_terminating\<close> says that the entry and exit functions of the component have been replaced by
  those of the second stage of the termination.
\<close>

record codec = base +
  cd_input :: in_port
  cd_output :: out_port
  cd_in_idx :: u32
  cd_out_idx :: u32
  cd_sample_size :: u32
  cd_factor :: u64
  cd_produced :: u32
  cd_consumed :: u32
  cd_probe_enabled :: u32
  cd_init_without_inp :: u32
  cd_probe :: out_port
  cd_probe_output :: addr
  cd_out_ptr :: addr
  cd_pinit_output :: addr
  cd_init_output_size :: u32
  cd_response :: addr
  cd_terminating :: bool

definition XA_CODEC_FLAG_INPUT_SETUP :: u32 where "XA_CODEC_FLAG_INPUT_SETUP = XA_BASE_FLAG (push_bit 0 1)"
definition XA_CODEC_FLAG_OUTPUT_SETUP :: u32 where "XA_CODEC_FLAG_OUTPUT_SETUP = XA_BASE_FLAG (push_bit 1 1)"
definition XA_CODEC_FLAG_PROBE_SETUP :: u32 where "XA_CODEC_FLAG_PROBE_SETUP = XA_BASE_FLAG (push_bit 2 1)"
definition XA_CODEC_FLAG_EOS_SEQ_DONE :: u32 where "XA_CODEC_FLAG_EOS_SEQ_DONE = XA_BASE_FLAG (push_bit 3 1)"

definition XA_CODEC_INP_PORT_PAUSED :: u32 where "XA_CODEC_INP_PORT_PAUSED = push_bit 5 (push_bit 0 1)"
definition XA_CODEC_OUT_PORT_PAUSED :: u32 where "XA_CODEC_OUT_PORT_PAUSED = push_bit 8 (push_bit 0 1)"
definition XA_CODEC_PROBE_PORT_PAUSED :: u32 where "XA_CODEC_PROBE_PORT_PAUSED = push_bit 8 (push_bit 1 1)"

definition XA_CODEC_CONFIG_PARAM_CHANNELS :: u32 where "XA_CODEC_CONFIG_PARAM_CHANNELS = 0x10000"
definition XA_CODEC_CONFIG_PARAM_SAMPLE_RATE :: u32 where "XA_CODEC_CONFIG_PARAM_SAMPLE_RATE = 0x10001"
definition XA_CODEC_CONFIG_PARAM_PCM_WIDTH :: u32 where "XA_CODEC_CONFIG_PARAM_PCM_WIDTH = 0x10002"
definition XA_CODEC_CONFIG_PARAM_PRODUCED :: u32 where "XA_CODEC_CONFIG_PARAM_PRODUCED = 0x10003"
definition XA_CODEC_EXEC_NO_DATA :: int where "XA_CODEC_EXEC_NO_DATA = XA_ERROR_CODE 0 2 0 0"
definition XA_CODEC_CONFIG_FATAL_RANGE :: int where "XA_CODEC_CONFIG_FATAL_RANGE = XA_ERROR_CODE (- 1) 1 0 0"
definition XAF_COMP_CONFIG_PARAM_PROBE_ENABLE :: u32 where "XAF_COMP_CONFIG_PARAM_PROBE_ENABLE = 0x20000"
definition XAF_COMP_CONFIG_PARAM_DEC_INIT_WO_INP :: u32 where "XAF_COMP_CONFIG_PARAM_DEC_INIT_WO_INP = 0x20004"
definition XAF_DECODER :: u32 where "XAF_DECODER = 0"
definition XAF_ENCODER :: u32 where "XAF_ENCODER = 1"

section \<open>Ports of the component\<close>

definition put_input :: "io \<Rightarrow> in_port \<Rightarrow> codec \<Rightarrow> codec" where
  "put_input i p s = (with_io i s)\<lparr>cd_input := p\<rparr>"

definition put_output :: "io \<Rightarrow> out_port \<Rightarrow> codec \<Rightarrow> codec" where
  "put_output i p s = (with_io i s)\<lparr>cd_output := p\<rparr>"

definition put_probe :: "io \<Rightarrow> out_port \<Rightarrow> codec \<Rightarrow> codec" where
  "put_probe i p s = (with_io i s)\<lparr>cd_probe := p\<rparr>"

definition input_purge :: "codec \<Rightarrow> codec option" where
  "input_purge s = do { (i, p) \<leftarrow> xf_input_port_purge (io_of s) (cd_input s); Some (put_input i p s) }"

definition input_fill :: "codec \<Rightarrow> codec" where
  "input_fill s = (case xf_input_port_fill (io_of s) (cd_input s) of (i, p, _) \<Rightarrow> put_input i p s)"

definition output_flush :: "u32 \<Rightarrow> codec \<Rightarrow> (codec \<times> bool) option" where
  "output_flush opcode s =
     do { (i, p, r) \<leftarrow> xf_output_port_flush (io_of s) (cd_output s) opcode; Some (put_output i p s, r) }"

definition probe_flush :: "u32 \<Rightarrow> codec \<Rightarrow> (codec \<times> bool) option" where
  "probe_flush opcode s =
     do { (i, p, r) \<leftarrow> xf_output_port_flush (io_of s) (cd_probe s) opcode; Some (put_probe i p s, r) }"

definition output_produce :: "u32 \<Rightarrow> codec \<Rightarrow> codec" where
  "output_produce n s = (case xf_output_port_produce (io_of s) (cd_output s) n of (i, p, _) \<Rightarrow> put_output i p s)"

definition probe_produce :: "u32 \<Rightarrow> codec \<Rightarrow> codec" where
  "probe_produce n s = (case xf_output_port_produce (io_of s) (cd_probe s) n of (i, p, _) \<Rightarrow> put_probe i p s)"

definition output_type :: "codec \<Rightarrow> u32" where
  "output_type s = pool_type s XAF_MEM_POOL_TYPE_COMP_OUTPUT"

definition output_unroute :: "codec \<Rightarrow> codec option" where
  "output_unroute s =
     do { (i, p) \<leftarrow> xf_output_port_unroute (io_of s) (cd_output s) (output_type s); Some (put_output i p s) }"

definition output_unroute_done :: "codec \<Rightarrow> codec option" where
  "output_unroute_done s =
     do { (i, p) \<leftarrow> xf_output_port_unroute_done (io_of s) (cd_output s) (output_type s); Some (put_output i p s) }"

definition output_flush_done :: "codec \<Rightarrow> codec" where
  "output_flush_done s = s\<lparr>cd_output := xf_output_port_flush_done (cd_output s)\<rparr>"

definition xa_port_test_flags :: "u32 \<Rightarrow> u32 \<Rightarrow> bool" where
  "xa_port_test_flags port_flag flags \<longleftrightarrow> port_flag AND flags \<noteq> 0"

definition xa_port_set_flags :: "u32 \<Rightarrow> u32 \<Rightarrow> u32" where
  "xa_port_set_flags port_flag flags = port_flag OR flags"

definition xa_port_clear_flags :: "u32 \<Rightarrow> u32 \<Rightarrow> u32" where
  "xa_port_clear_flags port_flag flags = port_flag AND NOT flags"

definition input_paused :: "codec \<Rightarrow> bool" where
  "input_paused s = xa_port_test_flags (ip_flags (cd_input s)) XA_CODEC_INP_PORT_PAUSED"

definition output_paused :: "codec \<Rightarrow> bool" where
  "output_paused s = xa_port_test_flags (op_flags (cd_output s)) XA_CODEC_OUT_PORT_PAUSED"

definition probe_paused :: "codec \<Rightarrow> bool" where
  "probe_paused s = xa_port_test_flags (op_flags (cd_probe s)) XA_CODEC_PROBE_PORT_PAUSED"

definition upd_input_flags :: "(u32 \<Rightarrow> u32) \<Rightarrow> codec \<Rightarrow> codec" where
  "upd_input_flags f s = s\<lparr>cd_input := (cd_input s)\<lparr>ip_flags := f (ip_flags (cd_input s))\<rparr>\<rparr>"

definition upd_output_flags :: "(u32 \<Rightarrow> u32) \<Rightarrow> codec \<Rightarrow> codec" where
  "upd_output_flags f s = s\<lparr>cd_output := (cd_output s)\<lparr>op_flags := f (op_flags (cd_output s))\<rparr>\<rparr>"

definition upd_probe_flags :: "(u32 \<Rightarrow> u32) \<Rightarrow> codec \<Rightarrow> codec" where
  "upd_probe_flags f s = s\<lparr>cd_probe := (cd_probe s)\<lparr>op_flags := f (op_flags (cd_probe s))\<rparr>\<rparr>"

definition ports_ready :: "codec \<Rightarrow> bool" where
  "ports_ready s \<longleftrightarrow> xf_input_port_ready (cd_input s) \<and> xf_output_port_ready (cd_output s)"

definition schedule_if :: "bool \<Rightarrow> 'z base_scheme \<Rightarrow> 'z base_scheme option" where
  "schedule_if c s = (if c then xa_base_schedule 0 s else Some s)"

definition set_state :: "u32 \<Rightarrow> 'z base_scheme \<Rightarrow> 'z base_scheme" where
  "set_state x s = s\<lparr>b_state := x\<rparr>"

definition set_flags :: "u32 \<Rightarrow> 'z base_scheme \<Rightarrow> 'z base_scheme" where
  "set_flags f s = set_state (b_state s OR f) s"

definition clear_flags :: "u32 \<Rightarrow> 'z base_scheme \<Rightarrow> 'z base_scheme" where
  "clear_flags f s = set_state (b_state s AND NOT f) s"

definition toggle_flags :: "u32 \<Rightarrow> 'z base_scheme \<Rightarrow> 'z base_scheme" where
  "toggle_flags f s = set_state (b_state s XOR f) s"

definition respond_ok :: "addr \<Rightarrow> 'z base_scheme \<Rightarrow> 'z base_scheme" where
  "respond_ok m s = on_io (xf_response_ok m) s"

section \<open>Time base and probe\<close>

definition XF_TIMEBASE_FREQ :: u64 where
  "XF_TIMEBASE_FREQ = 56448000 * 720720 * 12"

definition xf_timebase_factor :: "u32 \<Rightarrow> u64" where
  "xf_timebase_factor rate =
     (if rate \<in> set [4000, 8000, 11025, 12000, 16000, 22050, 24000, 32000, 44100, 48000, 64000, 88200, 96000, 128000,
                     176400, 192000]
      then XF_TIMEBASE_FREQ div ucast rate else 0)"

definition XF_ALIGNED_PROBE_SIZE :: "u32 \<Rightarrow> u32" where
  "XF_ALIGNED_PROBE_SIZE len = (len + 2 * 4 + 7) AND NOT 7"

definition XF_CHK_PORT_MASK :: "u32 \<Rightarrow> nat \<Rightarrow> bool" where
  "XF_CHK_PORT_MASK ports idx \<longleftrightarrow> ports AND push_bit idx 1 \<noteq> 0"

definition xf_copy_probe_data :: "addr \<Rightarrow> u32 \<Rightarrow> u32 \<Rightarrow> addr \<Rightarrow> 'z base_scheme \<Rightarrow> 'z base_scheme \<times> addr" where
  "xf_copy_probe_data buf port n data s =
     (let buf = (buf + 7) AND NOT 7;
          s = put32 (buf + 4) n (put32 buf port s);
          buf = buf + 8
      in if n = 0 then (s, buf) else (on_io (xf_memcpy buf data n) s, buf + n))"

section \<open>Runtime initialisation\<close>

text \<open>The fields of \<^verbatim>\<open>xf_start_msg_t\<close> for up to four input and four output ports.\<close>

definition start_msg_size :: u32 where
  "start_msg_size = 48"

definition bytes_per_sample :: "u32 \<Rightarrow> u32" where
  "bytes_per_sample width = (if width = 8 then 1 else if width = 16 then 2 else 4)"

definition route_connect :: "u32 \<Rightarrow> codec \<Rightarrow> codec option" where
  "route_connect len s = do {
     (i, p, err) \<leftarrow> xf_output_port_route_alloc (io_of s) (cd_output s) len (output_type s);
     let s = put_output i p s;
     schedule_if ((err = 0 \<or> err = 1) \<and> ports_ready s) s }"

definition xa_codec_prepare_runtime :: "codec plugin \<Rightarrow> codec \<Rightarrow> codec result" where
  "xa_codec_prepare_runtime P s =
     (let m = xf_msg_queue_head (op_queue (cd_output s)); b = m_buffer (msg s m) in
      if m = NULL then None
      else
        XA_API P XA_API_CMD_GET_CONFIG_PARAM XA_CODEC_CONFIG_PARAM_SAMPLE_RATE (Ptr b) s (\<lambda>s _ _.
        XA_API P XA_API_CMD_GET_CONFIG_PARAM XA_CODEC_CONFIG_PARAM_CHANNELS (Ptr (b + 4)) s (\<lambda>s _ _.
        XA_API P XA_API_CMD_GET_CONFIG_PARAM XA_CODEC_CONFIG_PARAM_PCM_WIDTH (Ptr (b + 8)) s (\<lambda>s _ _.
        XA_API P XA_API_CMD_GET_MEM_INFO_SIZE (cd_in_idx s) (Ptr (b + 12)) s (\<lambda>s _ _.
        XA_API P XA_API_CMD_GET_MEM_INFO_SIZE (cd_out_idx s) (Ptr (b + 28)) s (\<lambda>s _ _.
          let s = put32 (b + 44) (if cd_probe_enabled s \<noteq> 0 then op_length (cd_probe s) else 0) s;
              s = s\<lparr>cd_sample_size := get32 s (b + 4) * bytes_per_sample (get32 s (b + 8))\<rparr>;
              sz = cd_sample_size s;
              pcm_length = (if b_type s = XAF_ENCODER then get32 s (b + 12) else get32 s (b + 28));
              factor = xf_timebase_factor (get32 s b)
          in if \<not> 0 < sz then Some (s, XA_API_FATAL_INVALID_CMD_TYPE)
             else if pcm_length div sz * sz \<noteq> pcm_length then Some (s, XA_API_FATAL_INVALID_CMD_TYPE)
             else if factor = 0 then Some (s, XA_API_FATAL_INVALID_CMD_TYPE)
             else
               let s = s\<lparr>cd_factor := factor div ucast sz\<rparr> in
               if cd_factor s * ucast sz \<noteq> factor then Some (s, XA_CODEC_CONFIG_FATAL_RANGE)
               else do {
                 s \<leftarrow> (if cd_pinit_output s \<noteq> NULL then do {
                         s \<leftarrow> mem_free (cd_pinit_output s) (cd_init_output_size s) (output_type s) s;
                         Some (s\<lparr>cd_pinit_output := NULL\<rparr>) }
                       else Some s);
                 s \<leftarrow> route_connect (get32 s (b + 28)) s;
                 Some (output_produce start_msg_size s, 0) }))))))"

section \<open>Commands\<close>

text \<open>A completed stream starts again.\<close>

definition restart_stream :: "codec plugin \<Rightarrow> codec \<Rightarrow> (codec \<Rightarrow> codec result) \<Rightarrow> codec result" where
  "restart_stream P s k =
     XA_API P XA_API_CMD_EXECUTE XA_CMD_TYPE_DO_RUNTIME_INIT (Ptr NULL)
       (set_state (XA_BASE_FLAG_POSTINIT OR XA_BASE_FLAG_EXECUTION) s) (\<lambda>s _ _. k (s\<lparr>cd_produced := 0\<rparr>))"

definition xa_codec_empty_this_buffer :: "codec plugin \<Rightarrow> addr \<Rightarrow> codec \<Rightarrow> codec result" where
  "xa_codec_empty_this_buffer P m s =
     (if XF_MSG_DST_PORT (m_id (msg s m)) \<noteq> 0 then Some (s, XA_API_FATAL_INVALID_CMD)
      else if \<not> has XA_BASE_FLAG_POSTINIT s then Some (s, XA_API_FATAL_INVALID_CMD)
      else
        let (i, p, first) = xf_input_port_put (io_of s) (cd_input s) m; s = put_input i p s;
            run = (\<lambda>s. if \<not> has (XA_BASE_FLAG_RUNTIME_INIT OR XA_BASE_FLAG_EXECUTION) s
                       then Some (s, XA_API_FATAL_INVALID_CMD)
                       else do { s \<leftarrow> schedule_if (xf_output_port_ready (cd_output s)) s; Some (s, 0) })
        in if \<not> first then Some (s, 0)
           else if has XA_BASE_FLAG_COMPLETED s then restart_stream P s run
           else run s)"

definition fill_probe :: "addr \<Rightarrow> codec \<Rightarrow> codec result" where
  "fill_probe m s =
     (if has XA_BASE_FLAG_COMPLETED s \<or> probe_paused s then Some (respond_ok m s, 0)
      else
        let s = on_core (upd_msg m (m_length_update (\<lambda>_. op_length (cd_probe s)))) s;
            (i, p, first) = xf_output_port_put (io_of s) (cd_probe s) m; s = put_probe i p s
        in do {
          s \<leftarrow> schedule_if (first \<and> xf_output_port_ready (cd_output s) \<and> xf_input_port_ready (cd_input s) \<and>
                 has XA_BASE_FLAG_EXECUTION s) s;
          Some (s, 0) })"

definition fill_control :: "addr \<Rightarrow> codec \<Rightarrow> codec result" where
  "fill_control m s =
     (let s = output_flush_done s in do {
        s \<leftarrow> (if xf_output_port_unrouting (cd_output s) then output_unroute_done s
              else if m_length (msg s m) = XF_MSG_LENGTH_INVALID then output_unroute s
              else Some s);
        s \<leftarrow> input_purge s;
        Some (s, 0) })"

definition fill_drop :: "addr \<Rightarrow> codec \<Rightarrow> codec result" where
  "fill_drop m s =
     (let s = on_core (upd_msg m (m_length_update (\<lambda>_. op_length (cd_output s)))) s in
      if \<not> xf_output_port_flushing (cd_output s) then do {
        s \<leftarrow> xa_base_cancel s;
        (s, _) \<leftarrow> output_flush XF_FILL_THIS_BUFFER s;
        Some (clear_flags XA_CODEC_FLAG_OUTPUT_SETUP s, 0) }
      else Some (s, 0))"

text \<open>A buffer goes to the output port; processing starts when the rest is there.\<close>

definition fill_put :: "addr \<Rightarrow> codec \<Rightarrow> codec result" where
  "fill_put m s =
     (let (i, p, first) = xf_output_port_put (io_of s) (cd_output s) m; s = put_output i p s in
      if first \<and> (xf_input_port_ready (cd_input s) \<or>
           has XA_BASE_FLAG_RUNTIME_INIT s \<and> (b_type s \<noteq> XAF_DECODER \<or> cd_init_without_inp s = 1))
      then
        if cd_probe_enabled s \<noteq> 0 \<and> \<not> has XA_BASE_FLAG_RUNTIME_INIT s \<and>
           \<not> xf_output_port_ready (cd_probe s) \<and> \<not> probe_paused s
        then Some (s, 0)
        else do {
          s \<leftarrow> schedule_if (has (XA_BASE_FLAG_RUNTIME_INIT OR XA_BASE_FLAG_EXECUTION) s \<and>
                 xf_output_port_ready (cd_output s)) s;
          Some (s, 0) }
      else Some (s, 0))"

definition xa_codec_fill_this_buffer :: "codec plugin \<Rightarrow> addr \<Rightarrow> codec \<Rightarrow> codec result" where
  "xa_codec_fill_this_buffer P m s =
     (if \<not> has XA_BASE_FLAG_POSTINIT s then Some (s, XA_API_FATAL_INVALID_CMD)
      else if cd_probe_enabled s \<noteq> 0 \<and> XF_MSG_DST_PORT (m_id (msg s m)) = 2 then fill_probe m s
      else if XF_MSG_DST_PORT (m_id (msg s m)) \<noteq> 1 then Some (s, XA_API_FATAL_INVALID_CMD)
      else if has XA_BASE_FLAG_RUNTIME_INIT s then fill_put m s
      else if m = xf_output_port_control_msg (cd_output s) then fill_control m s
      else if has XA_BASE_FLAG_COMPLETED s \<and> \<not> has XA_CODEC_FLAG_EOS_SEQ_DONE s \<and>
              \<not> xf_output_port_routed (cd_output s)
      then Some (respond_ok m (set_flags XA_CODEC_FLAG_EOS_SEQ_DONE s), 0)
      else if m_length (msg s m) = XF_MSG_LENGTH_INVALID \<and> xf_output_port_routed (cd_output s) then fill_drop m s
      else
        let put = (\<lambda>s. fill_put m (on_core (upd_msg m (m_length_update (\<lambda>_. op_length (cd_output s)))) s))
        in if has XA_CODEC_FLAG_EOS_SEQ_DONE s then restart_stream P s put else put s)"

text \<open>The command holds two port specifications, the number, size and alignment of the buffers.\<close>

definition xa_codec_port_route :: "addr \<Rightarrow> codec \<Rightarrow> codec result" where
  "xa_codec_port_route m s =
     (let cmd = m_buffer (msg s m); src = XF_MSG_DST (m_id (msg s m)); dst = ucast (get64 s (cmd + 8)) :: u32 in
      if \<not> has XA_BASE_FLAG_POSTINIT s then Some (s, XA_API_FATAL_INVALID_CMD)
      else if XF_MSG_DST_PORT (m_id (msg s m)) \<noteq> 1 then Some (s, XA_API_FATAL_INVALID_CMD_TYPE)
      else if xf_output_port_routed (cd_output s) then Some (s, XA_API_FATAL_INVALID_CMD_TYPE)
      else do {
        (i, p, r) \<leftarrow> xf_output_port_route (io_of s) (cd_output s) (XF_MSG_ID (ucast dst) (ucast src))
          (get32 s (cmd + 16)) (get32 s (cmd + 20)) (get32 s (cmd + 24)) (output_type s);
        let s = put_output i p s;
        if r \<noteq> 0 then Some (s, XA_API_FATAL_MEM_ALLOC)
        else do { s \<leftarrow> schedule_if (ports_ready s) s; Some (respond_ok m s, 0) } })"

definition xa_codec_port_unroute :: "addr \<Rightarrow> codec \<Rightarrow> codec result" where
  "xa_codec_port_unroute m s =
     (if \<not> has XA_BASE_FLAG_POSTINIT s then Some (s, XA_API_FATAL_INVALID_CMD)
      else if XF_MSG_DST_PORT (m_id (msg s m)) \<noteq> 1 then Some (s, XA_API_FATAL_INVALID_CMD_TYPE)
      else if \<not> xf_output_port_routed (cd_output s) then Some (respond_ok m s, 0)
      else do {
        s \<leftarrow> xa_base_cancel s;
        (s, idle) \<leftarrow> output_flush XF_FLUSH (clear_flags XA_CODEC_FLAG_OUTPUT_SETUP s);
        if idle then do { s \<leftarrow> output_unroute s; Some (respond_ok m s, 0) }
        else Some (s\<lparr>cd_output := xf_output_port_unroute_start (cd_output s) m\<rparr>, 0) })"

definition flush_input :: "codec plugin \<Rightarrow> addr \<Rightarrow> codec \<Rightarrow> codec result" where
  "flush_input P m s = do {
     s \<leftarrow> xa_base_cancel s;
     s \<leftarrow> input_purge s;
     XA_API P XA_API_CMD_EXECUTE XA_CMD_TYPE_DO_RUNTIME_INIT (Ptr NULL) (clear_flags XA_CODEC_FLAG_INPUT_SETUP s) (\<lambda>s _ _.
       let s = s\<lparr>cd_produced := 0\<rparr>; available = xf_output_port_ready (cd_output s) in do {
         (s, idle) \<leftarrow> output_flush XF_FLUSH s;
         if idle then
           let s = (if \<not> xf_output_port_routed (cd_output s) then
                      let s = toggle_flags (XA_BASE_FLAG_EXECUTION OR XA_BASE_FLAG_COMPLETED) s
                      in if available then set_flags XA_CODEC_FLAG_EOS_SEQ_DONE s else s
                    else s)
           in Some (on_io (xf_response m) s, 0)
         else
           let (i, p) = xf_input_port_control_save (io_of s) (cd_input s) m in Some (put_input i p s, 0)
       }) }"

definition flush_output :: "addr \<Rightarrow> codec \<Rightarrow> codec result" where
  "flush_output m s =
     (if \<not> xf_output_port_routed (cd_output s) then do {
        (s, _) \<leftarrow> output_flush XF_FLUSH s;
        Some (clear_flags XA_CODEC_FLAG_OUTPUT_SETUP (on_io (xf_response m) s), 0) }
      else
        let s = output_flush_done s;
            (i, p) = xf_input_port_purge_done (io_of s) (cd_input s)
        in Some (clear_flags XA_CODEC_FLAG_OUTPUT_SETUP (put_input i p s), 0))"

definition xa_codec_flush :: "codec plugin \<Rightarrow> addr \<Rightarrow> codec \<Rightarrow> codec result" where
  "xa_codec_flush P m s =
     (if \<not> has XA_BASE_FLAG_POSTINIT s then Some (s, XA_API_FATAL_INVALID_CMD)
      else if m_length (msg s m) \<noteq> 0 \<and> m_length (msg s m) \<noteq> XF_MSG_LENGTH_INVALID
      then Some (s, XA_API_FATAL_INVALID_CMD_TYPE)
      else if XF_MSG_DST_PORT (m_id (msg s m)) = 0 then flush_input P m s
      else if xf_output_port_unrouting (cd_output s) then do { s \<leftarrow> output_unroute_done s; Some (s, 0) }
      else flush_output m s)"

definition xa_codec_port_pause :: "addr \<Rightarrow> codec \<Rightarrow> codec result" where
  "xa_codec_port_pause m s =
     (let i = XF_MSG_DST_PORT (m_id (msg s m)) in
      if m_length (msg s m) \<noteq> 0 then Some (s, XA_API_FATAL_INVALID_CMD_TYPE)
      else if \<not> i \<le> 2 then Some (s, XA_API_FATAL_INVALID_CMD_TYPE)
      else if cd_probe_enabled s \<noteq> 0 \<and> i = 2 \<and> \<not> probe_paused s then do {
        (s, _) \<leftarrow> probe_flush XF_FLUSH s;
        let s = upd_probe_flags (\<lambda>f. xa_port_set_flags f XA_CODEC_PROBE_PORT_PAUSED) s;
        s \<leftarrow> schedule_if (ports_ready s) s;
        Some (respond_ok m s, 0) }
      else if has XA_BASE_FLAG_COMPLETED s then Some (respond_ok m s, 0)
      else
        let s = (if i = 0 \<and> \<not> input_paused s then upd_input_flags (\<lambda>f. xa_port_set_flags f XA_CODEC_INP_PORT_PAUSED) s
                 else if i = 1 \<and> \<not> output_paused s
                 then upd_output_flags (\<lambda>f. xa_port_set_flags f XA_CODEC_OUT_PORT_PAUSED) s
                 else s)
        in Some (respond_ok m s, 0))"

definition xa_codec_port_resume :: "addr \<Rightarrow> codec \<Rightarrow> codec result" where
  "xa_codec_port_resume m s =
     (let i = XF_MSG_DST_PORT (m_id (msg s m)) in
      if m_length (msg s m) \<noteq> 0 then Some (s, XA_API_FATAL_INVALID_CMD_TYPE)
      else if \<not> i \<le> 2 then Some (s, XA_API_FATAL_INVALID_CMD_TYPE)
      else if has XA_BASE_FLAG_COMPLETED s then Some (respond_ok m s, 0)
      else do {
        s \<leftarrow> (if i = 0 \<and> input_paused s then
                let s = upd_input_flags (\<lambda>f. xa_port_clear_flags f XA_CODEC_INP_PORT_PAUSED) s
                in schedule_if (ports_ready s) s
              else if i = 1 \<and> output_paused s then
                let s = upd_output_flags (\<lambda>f. xa_port_clear_flags f XA_CODEC_OUT_PORT_PAUSED) s
                in schedule_if (ports_ready s) s
              else if i = 2 \<and> cd_probe_enabled s \<noteq> 0 \<and> probe_paused s then
                let s = upd_probe_flags (\<lambda>f. xa_port_clear_flags f XA_CODEC_PROBE_PORT_PAUSED) s
                in schedule_if (ports_ready s \<and> xf_output_port_ready (cd_probe s)) s
              else Some s);
        Some (respond_ok m s, 0) })"

section \<open>Memory tables\<close>

definition memtab_probe :: "codec \<Rightarrow> codec result" where
  "memtab_probe s =
     (if cd_probe_enabled s \<noteq> 0 \<and> xf_input_port_created (cd_input s) \<and> xf_output_port_created (cd_output s) then
        if xf_input_port_bypass (cd_input s) \<and> XF_CHK_PORT_MASK (cd_probe_enabled s) 0 then Some (s, XAF_INVALIDVAL_ERR)
        else
          let n = (if XF_CHK_PORT_MASK (cd_probe_enabled s) 0 then XF_ALIGNED_PROBE_SIZE (ip_length (cd_input s)) else 0)
                + (if XF_CHK_PORT_MASK (cd_probe_enabled s) 1 then XF_ALIGNED_PROBE_SIZE (op_length (cd_output s)) else 0);
              s = s\<lparr>cd_probe := xf_output_port_init (cd_probe s) n\<rparr>
          in Some (upd_probe_flags (\<lambda>f. xa_port_set_flags f XA_CODEC_PROBE_PORT_PAUSED) s, 0)
      else Some (s, 0))"

definition xa_codec_memtab :: "codec plugin \<Rightarrow> u32 \<Rightarrow> u32 \<Rightarrow> u32 \<Rightarrow> u32 \<Rightarrow> codec \<Rightarrow> codec result" where
  "xa_codec_memtab P idx t sz align s =
     (if t = XA_MEMTYPE_INPUT then do {
        (i, p, r) \<leftarrow> xf_input_port_init (io_of s) (cd_input s) sz align (pool_type s XAF_MEM_POOL_TYPE_COMP_INPUT);
        let s = put_input i p s;
        if r \<noteq> 0 then Some (s, XA_API_FATAL_MEM_ALLOC)
        else
          let s = s\<lparr>cd_in_idx := idx\<rparr>;
              running = (\<lambda>s. memtab_probe (upd_input_flags (\<lambda>f. xa_port_clear_flags f XA_CODEC_INP_PORT_PAUSED) s))
          in if sz \<noteq> 0 then XA_API P XA_API_CMD_SET_MEM_PTR idx (Ptr (ip_buffer (cd_input s))) s (\<lambda>s _ _. running s)
             else running s }
      else if t \<noteq> XA_MEMTYPE_OUTPUT then Some (s, XA_API_FATAL_INVALID_CMD_TYPE)
      else do {
        let s = s\<lparr>cd_output := xf_output_port_init (cd_output s) sz, cd_out_idx := idx\<rparr>;
        (s, b) \<leftarrow> mem_alloc sz align (output_type s) s;
        let s = s\<lparr>cd_pinit_output := b\<rparr>;
        if b = NULL then Some (s, XAF_MEMORY_ERR)
        else memtab_probe (upd_output_flags (\<lambda>f. xa_port_clear_flags f XA_CODEC_OUT_PORT_PAUSED)
               (s\<lparr>cd_init_output_size := sz\<rparr>)) })"

section \<open>Processing\<close>

definition codec_preprocess_input :: "codec plugin \<Rightarrow> codec \<Rightarrow> codec result" where
  "codec_preprocess_input P s =
     (let over = (\<lambda>filled s.
            let fin = (\<lambda>s. XA_API P XA_API_CMD_SET_INPUT_BYTES (cd_in_idx s) (Local filled) s (\<lambda>s _ _.
                  Some (toggle_flags XA_CODEC_FLAG_INPUT_SETUP s, 0)))
            in if xf_input_port_done (cd_input s)
               then XA_API P XA_API_CMD_INPUT_OVER (cd_in_idx s) (Ptr NULL) s (\<lambda>s _ _. fin s)
               else fin s)
      in if xf_input_port_bypass (cd_input s) then
           let s = input_fill s; input = xf_input_port_data (cd_input s) in
           if input \<noteq> NULL
           then XA_API P XA_API_CMD_SET_MEM_PTR (cd_in_idx s) (Ptr input) s (\<lambda>s _ _. over (xf_input_port_length (cd_input s)) s)
           else if \<not> xf_input_port_done (cd_input s) \<and> \<not> has XA_BASE_FLAG_RUNTIME_INIT s
           then Some (s, XA_CODEC_EXEC_NO_DATA)
           else over 0 s
         else
           let s = (if \<not> xf_input_port_done (cd_input s) then input_fill s else s)
           in over (xf_input_port_level (cd_input s)) s)"

definition codec_preprocess_output :: "codec plugin \<Rightarrow> codec \<Rightarrow> (codec \<Rightarrow> codec result) \<Rightarrow> codec result" where
  "codec_preprocess_output P s k =
     (if has XA_CODEC_FLAG_OUTPUT_SETUP s then k s
      else
        let output = (if has XA_BASE_FLAG_RUNTIME_INIT s then cd_pinit_output s
                      else xf_output_port_data (io_of s) (cd_output s))
        in if \<not> has XA_BASE_FLAG_RUNTIME_INIT s \<and> output = NULL then Some (s, XA_CODEC_EXEC_NO_DATA)
           else XA_API P XA_API_CMD_SET_MEM_PTR (cd_out_idx s) (Ptr output) (s\<lparr>cd_out_ptr := output\<rparr>) (\<lambda>s _ _.
             k (toggle_flags XA_CODEC_FLAG_OUTPUT_SETUP s)))"

definition codec_preprocess_probe :: "codec \<Rightarrow> (codec \<Rightarrow> codec result) \<Rightarrow> codec result" where
  "codec_preprocess_probe s k =
     (if cd_probe_enabled s \<noteq> 0 \<and> \<not> probe_paused s \<and> \<not> has XA_CODEC_FLAG_PROBE_SETUP s \<and>
         \<not> has XA_BASE_FLAG_RUNTIME_INIT s
      then
        let output = xf_output_port_data (io_of s) (cd_probe s) in
        if output = NULL then Some (s, XA_CODEC_EXEC_NO_DATA)
        else k (toggle_flags XA_CODEC_FLAG_PROBE_SETUP (s\<lparr>cd_probe_output := output\<rparr>))
      else k s)"

definition xa_codec_preprocess :: "codec plugin \<Rightarrow> codec \<Rightarrow> codec result" where
  "xa_codec_preprocess P s =
     (if output_paused s \<or> input_paused s then Some (s, XA_CODEC_EXEC_NO_DATA)
      else codec_preprocess_probe s (\<lambda>s. codec_preprocess_output P s (\<lambda>s.
        if has XA_BASE_FLAG_RUNTIME_INIT s \<and> b_type s \<noteq> XAF_DECODER then Some (s, 0)
        else if \<not> has XA_CODEC_FLAG_INPUT_SETUP s then codec_preprocess_input P s
        else Some (s, 0))))"

text \<open>The data of the ports goes to the probe buffer, which starts with the pointer given.\<close>

definition probe_copy :: "u32 \<Rightarrow> u32 \<Rightarrow> codec \<Rightarrow> codec \<times> u32 \<times> addr" where
  "probe_copy consumed produced s =
     (if cd_sample_size s \<noteq> 0 \<and> cd_probe_enabled s \<noteq> 0 \<and> \<not> probe_paused s then
        let p = cd_probe_output s;
            (s, p, n) = (if XF_CHK_PORT_MASK (cd_probe_enabled s) 0
                         then (case xf_copy_probe_data p 0 consumed (ip_buffer (cd_input s)) s of (s, p) \<Rightarrow> (s, p, consumed))
                         else (s, p, 0));
            (s, p, n) = (if XF_CHK_PORT_MASK (cd_probe_enabled s) 1
                         then (case xf_copy_probe_data p 1 produced (cd_out_ptr s) s of (s, p) \<Rightarrow> (s, p, n + produced))
                         else (s, p, n))
        in (s, n, p)
      else (s, 0, cd_probe_output s))"

definition post_input :: "u32 \<Rightarrow> u32 \<Rightarrow> codec \<Rightarrow> codec option" where
  "post_input consumed produced s =
     (if consumed \<noteq> 0 then do {
        s \<leftarrow> (if b_type s = XAF_ENCODER then
                if cd_sample_size s = 0 then None
                else Some (s\<lparr>cd_consumed := cd_consumed s + consumed div cd_sample_size s\<rparr>)
              else Some s);
        let (i, p) = xf_input_port_consume (io_of s) (cd_input s) consumed;
        Some (toggle_flags XA_CODEC_FLAG_INPUT_SETUP (put_input i p s)) }
      else if produced = 0 then Some (toggle_flags XA_CODEC_FLAG_INPUT_SETUP s)
      else Some s)"

definition post_output :: "u32 \<Rightarrow> codec \<Rightarrow> codec" where
  "post_output produced s =
     (if produced \<noteq> 0
      then toggle_flags XA_CODEC_FLAG_OUTPUT_SETUP
             (output_produce produced (s\<lparr>cd_produced := cd_produced s + produced div cd_sample_size s\<rparr>))
      else s)"

definition post_probe :: "u32 \<Rightarrow> addr \<Rightarrow> codec \<Rightarrow> codec" where
  "post_probe n p s =
     (if n \<noteq> 0 then toggle_flags XA_CODEC_FLAG_PROBE_SETUP (probe_produce (p - cd_probe_output s) s) else s)"

definition post_done :: "codec plugin \<Rightarrow> u32 \<Rightarrow> codec \<Rightarrow> codec result" where
  "post_done P produced s =
     (if has XA_BASE_FLAG_RUNTIME_INIT s then Some (s, 0)
      else if has XA_BASE_FLAG_EXECUTION s then
        CODEC_API (xa_codec_prepare_runtime P) s (\<lambda>s e.
          Some (clear_flags (XA_CODEC_FLAG_INPUT_SETUP OR XA_CODEC_FLAG_OUTPUT_SETUP) s, 0))
      else do {
        (s, idle) \<leftarrow> output_flush XF_FILL_THIS_BUFFER s;
        s \<leftarrow> (if idle then input_purge s else Some s);
        s \<leftarrow> (if cd_probe_enabled s \<noteq> 0 then do { (s, _) \<leftarrow> probe_flush XF_FLUSH s; Some s } else Some s);
        Some (if produced = 0 \<and> \<not> xf_output_port_routed (cd_output s)
              then set_flags XA_CODEC_FLAG_EOS_SEQ_DONE s else s, 0) })"

text \<open>An initialisation that was tried without input gives its output buffer back.\<close>

definition post_init_retry :: "u32 \<Rightarrow> codec \<Rightarrow> codec option" where
  "post_init_retry consumed s =
     (if has XA_BASE_FLAG_RUNTIME_INIT s \<and> consumed = 0 then
        let s = clear_flags XA_CODEC_FLAG_INPUT_SETUP s in
        if cd_init_without_inp s \<noteq> 0 \<and> xf_input_port_level (cd_input s) = 0 then
          let (h, q, m) = xf_msg_dequeue (c_msg (b_core s)) (op_queue (cd_output s)) in
          if m = NULL then None
          else
            let s = on_core (c_msg_update (\<lambda>_. h)) (s\<lparr>cd_output := (cd_output s)\<lparr>op_queue := q\<rparr>\<rparr>)
            in Some (clear_flags XA_CODEC_FLAG_OUTPUT_SETUP (on_io (xf_response_data m 0) s))
        else Some s
      else Some s)"

definition codec_postprocess :: "codec plugin \<Rightarrow> u32 \<Rightarrow> u32 \<Rightarrow> u32 \<Rightarrow> codec \<Rightarrow> codec result" where
  "codec_postprocess P done consumed produced s =
     (let (s, n, p) = probe_copy consumed produced s in do {
        s \<leftarrow> post_input consumed produced s;
        let s = post_probe n p (post_output produced s);
        if done \<noteq> 0 then post_done P produced s
        else do {
          s \<leftarrow> post_init_retry consumed s;
          s \<leftarrow> (if ports_ready s
                then xa_base_schedule (scast (if b_type s = XAF_ENCODER then consumed else produced) * cd_factor s) s
                else Some s);
          Some (s, 0) }
      })"

definition xa_codec_postprocess :: "codec plugin \<Rightarrow> u32 \<Rightarrow> codec \<Rightarrow> codec result" where
  "xa_codec_postprocess P done s =
     (let produce = (\<lambda>consumed s.
            if cd_sample_size s \<noteq> 0
            then XA_API P XA_API_CMD_GET_OUTPUT_BYTES (cd_out_idx s) (Local 0) s (\<lambda>s _ produced.
              codec_postprocess P done consumed produced s)
            else codec_postprocess P done consumed 0 s)
      in if \<not> xf_input_port_bypass (cd_input s) \<or>
            \<not> (done \<noteq> 0 \<and> has XA_BASE_FLAG_EXECUTION s \<and> b_type s \<noteq> XAF_DECODER)
         then XA_API P XA_API_CMD_GET_CURIDX_INPUT_BUF (cd_in_idx s) (Local 0) s (\<lambda>s _ consumed. produce consumed s)
         else produce 0 s)"

section \<open>Parameters\<close>

definition xa_codec_getparam :: "codec plugin \<Rightarrow> u32 \<Rightarrow> addr \<Rightarrow> codec \<Rightarrow> codec result" where
  "xa_codec_getparam P i pv s =
     (if i = XA_CODEC_CONFIG_PARAM_PRODUCED then Some (put32 pv (cd_produced s) s, 0)
      else XA_API P XA_API_CMD_GET_CONFIG_PARAM i (Ptr pv) s (\<lambda>s e _. Some (s, e)))"

definition xa_codec_setparam :: "codec plugin \<Rightarrow> u32 \<Rightarrow> addr \<Rightarrow> codec \<Rightarrow> codec result" where
  "xa_codec_setparam P i pv s =
     (if i = XAF_COMP_CONFIG_PARAM_PROBE_ENABLE then
        if has XA_BASE_FLAG_POSTINIT s then Some (s, XA_API_FATAL_INVALID_CMD_TYPE)
        else Some (s\<lparr>cd_probe_enabled := get32 s pv\<rparr>, 0)
      else if i = XAF_COMP_CONFIG_PARAM_DEC_INIT_WO_INP then Some (s\<lparr>cd_init_without_inp := get32 s pv\<rparr>, 0)
      else XA_API P XA_API_CMD_SET_CONFIG_PARAM i (Ptr pv) s (\<lambda>s e _. Some (s, e)))"

section \<open>The class and its entry points\<close>

definition no_in_port :: in_port where
  "no_in_port = \<lparr>ip_queue = xf_msg_queue_init, ip_buffer = NULL, ip_length = 0, ip_filled = 0, ip_access = NULL,
     ip_remaining = 0, ip_flags = 0\<rparr>"

definition no_out_port :: out_port where
  "no_out_port = \<lparr>op_queue = xf_msg_queue_init, op_pool = \<lparr>pl_p = NULL, pl_head = NULL, pl_n = 0\<rparr>,
     op_unroute = NULL, op_length = 0, op_flags = 0, op_align = 0\<rparr>"

definition codec_clear :: "addr \<Rightarrow> codec \<Rightarrow> codec" where
  "codec_clear a s = (base_clear a s)\<lparr>cd_input := no_in_port, cd_output := no_out_port, cd_in_idx := 0, cd_out_idx := 0,
     cd_sample_size := 0, cd_factor := 0, cd_produced := 0, cd_consumed := 0, cd_probe_enabled := 0,
     cd_init_without_inp := 0, cd_probe := no_out_port, cd_probe_output := NULL, cd_out_ptr := NULL,
     cd_pinit_output := NULL, cd_init_output_size := 0, cd_response := NULL, cd_terminating := False\<rparr>"

text \<open>The methods without the commands, which are what the commands themselves use.\<close>

definition codec_methods :: "codec plugin \<Rightarrow> u32 \<Rightarrow> codec klass" where
  "codec_methods P sizeof_base =
     \<lparr>k_process = P, k_memtab = xa_codec_memtab P, k_preprocess = xa_codec_preprocess P,
      k_postprocess = xa_codec_postprocess P, k_setparam = Some (xa_codec_setparam P),
      k_getparam = Some (xa_codec_getparam P), k_command = (\<lambda>_. None), k_command_num = 0,
      k_clear = codec_clear, k_sizeof_base = sizeof_base\<rparr>"

definition xa_codec_cmd :: "codec klass \<Rightarrow> u32 \<Rightarrow> (addr \<Rightarrow> codec \<Rightarrow> codec result) option" where
  "xa_codec_cmd K t =
     (let P = k_process K in
      if t = XF_OPCODE_TYPE XF_SET_PARAM then Some (xa_base_set_param K)
      else if t = XF_OPCODE_TYPE XF_GET_PARAM then Some (xa_base_get_param K)
      else if t = XF_OPCODE_TYPE XF_ROUTE then Some xa_codec_port_route
      else if t = XF_OPCODE_TYPE XF_UNROUTE then Some xa_codec_port_unroute
      else if t = XF_OPCODE_TYPE XF_EMPTY_THIS_BUFFER then Some (xa_codec_empty_this_buffer P)
      else if t = XF_OPCODE_TYPE XF_FILL_THIS_BUFFER then Some (xa_codec_fill_this_buffer P)
      else if t = XF_OPCODE_TYPE XF_FLUSH then Some (xa_codec_flush P)
      else if t = XF_OPCODE_TYPE XF_SET_PARAM_EXT then Some (xa_base_set_param_ext K)
      else if t = XF_OPCODE_TYPE XF_GET_PARAM_EXT then Some (xa_base_get_param_ext K)
      else if t = XF_OPCODE_TYPE XF_PAUSE then Some xa_codec_port_pause
      else if t = XF_OPCODE_TYPE XF_RESUME then Some xa_codec_port_resume
      else None)"

definition XA_CODEC_CMD_NUM :: u32 where
  "XA_CODEC_CMD_NUM = 17"

definition codec_class :: "codec plugin \<Rightarrow> u32 \<Rightarrow> codec klass" where
  "codec_class P sizeof_base =
     (codec_methods P sizeof_base)\<lparr>k_command := xa_codec_cmd (codec_methods P sizeof_base), k_command_num := XA_CODEC_CMD_NUM\<rparr>"

definition xa_audio_codec_terminate :: "addr \<Rightarrow> codec \<Rightarrow> codec result" where
  "xa_audio_codec_terminate m s =
     (if m = NULL then Some (s, 0)
      else if m = xf_output_port_control_msg (cd_output s) then Some (output_flush_done s, XAF_UNREGISTER)
      else if m_opcode (msg s m) = XF_FILL_THIS_BUFFER then Some (s, 0)
      else if XF_MSG_SRC_PROXY (m_id (msg s m)) then Some (on_io (xf_response_err m) s, 0)
      else Some (on_io (xf_response_failure m) s, 0))"

definition xa_audio_codec_destroy :: "u32 \<Rightarrow> codec \<Rightarrow> codec result" where
  "xa_audio_codec_destroy sz s =
     (let m = cd_response s in do {
        (i, p) \<leftarrow> xf_input_port_destroy (io_of s) (cd_input s) (pool_type s XAF_MEM_POOL_TYPE_COMP_INPUT);
        let s = put_input i p s;
        s \<leftarrow> (if cd_pinit_output s \<noteq> NULL
              then mem_free (cd_pinit_output s) (cd_init_output_size s) (output_type s) s else Some s);
        (i, p) \<leftarrow> xf_output_port_destroy (io_of s) (cd_output s) (output_type s);
        let s = put_output i p s;
        s \<leftarrow> (if cd_probe_enabled s \<noteq> 0 then do {
                (i, p) \<leftarrow> xf_output_port_destroy (io_of s) (cd_probe s) (output_type s);
                Some (put_probe i p s) }
              else Some s);
        s \<leftarrow> xa_base_destroy sz s;
        Some (if m \<noteq> NULL then on_io (xf_response_err m) s else s, 0) })"

definition xa_audio_codec_cleanup :: "u32 \<Rightarrow> addr \<Rightarrow> codec \<Rightarrow> codec result" where
  "xa_audio_codec_cleanup sz m s = do {
     s \<leftarrow> xa_base_cancel s;
     s \<leftarrow> input_purge s;
     let s = s\<lparr>cd_response := m\<rparr>;
     s \<leftarrow> (if cd_probe_enabled s \<noteq> 0 then do { (s, _) \<leftarrow> probe_flush XF_FLUSH s; Some s } else Some s);
     (s, idle) \<leftarrow> output_flush XF_FLUSH s;
     if idle then xa_audio_codec_destroy sz s else Some (s\<lparr>cd_terminating := True\<rparr>, 1) }"

definition codec_entry :: "codec klass \<Rightarrow> addr \<Rightarrow> codec \<Rightarrow> codec result" where
  "codec_entry K m s = (if cd_terminating s then xa_audio_codec_terminate m s else xa_base_command K m s)"

definition codec_exit :: "u32 \<Rightarrow> addr \<Rightarrow> codec \<Rightarrow> codec result" where
  "codec_exit sz m s = (if cd_terminating s then xa_audio_codec_destroy sz s else xa_audio_codec_cleanup sz m s)"

definition xa_audio_codec_factory :: "codec plugin \<Rightarrow> u32 \<Rightarrow> u32 \<Rightarrow> u32 \<Rightarrow> codec \<Rightarrow> (codec \<times> addr) option" where
  "xa_audio_codec_factory P sizeof_base sz comp_type s = do {
     (s, a) \<leftarrow> xa_base_factory (codec_class P sizeof_base) sz s;
     if a = NULL then Some (s, NULL)
     else Some (s\<lparr>b_type := comp_type, cd_init_without_inp := 0\<rparr>, a) }"

end
