(* ===== verification/Class_Channels.thy ===== *)
theory Class_Channels
  imports Audio_Codec Core_Thms Io_Ports
begin

text \<open>
  The life of event channels (\<^verbatim>\<open>xa-class-base.c\<close>): the list of the channels of a component against a
  list of addresses, the completion of a deletion, and the error events that lose their message.
  \<open>response_eqs\<close> and \<open>step_simps\<close> reduce the answers of a component to updates of its state.
\<close>

section \<open>Answers of a component\<close>

lemma io_fields [simp]:
  "io_msg (io_of s) = c_msg (b_core s)" "io_bytes (io_of s) = c_bytes (b_core s)" "io_done (io_of s) = b_done s"
  "io_mem (io_of s) = c_mem (b_core s)"
  by (simp_all add: io_of_def)

definition answer :: "addr \<Rightarrow> 'z base_scheme \<Rightarrow> 'z base_scheme" where
  "answer m s = s\<lparr>b_done := b_done s @ [(m, msg s m)]\<rparr>"

definition set_msg :: "addr \<Rightarrow> (xf_message \<Rightarrow> xf_message) \<Rightarrow> 'z base_scheme \<Rightarrow> 'z base_scheme" where
  "set_msg m f s = on_core (upd_msg m f) s"

lemma with_io_same: "with_io (io_of s) s = s"
  by (cases s; cases "b_core s") (simp add: with_io_def io_of_def)

lemma on_io_response: "on_io (xf_response m) s = answer m s"
proof -
  have "on_io (xf_response m) s = (with_io (io_of s) s)\<lparr>b_done := b_done s @ [(m, msg s m)]\<rparr>"
    by (simp add: on_io_def with_io_def xf_response_def msg_def)
  then show ?thesis by (simp only: with_io_same answer_def)
qed

lemma on_io_response_upd: 
  "on_io (\<lambda>i. xf_response m (i\<lparr>io_msg := (io_msg i)(m := f (io_msg i m))\<rparr>)) s = answer m (set_msg m f s)"
proof -
  have "on_io (\<lambda>i. xf_response m (i\<lparr>io_msg := (io_msg i)(m := f (io_msg i m))\<rparr>)) s =
    (set_msg m f (with_io (io_of s) s))\<lparr>b_done := b_done s @ [(m, f (msg s m))]\<rparr>"
    by (simp add: on_io_def with_io_def xf_response_def msg_def set_msg_def on_core_def upd_msg_def)
  then show ?thesis by (simp add: with_io_same answer_def set_msg_def on_core_def upd_msg_def msg_def)
qed

lemma response_eqs:
  "on_io (xf_response_data m n) s = answer m (set_msg m (m_length_update (\<lambda>_. n)) s)"
  "on_io (xf_response_ok m) s = answer m (set_msg m (m_length_update (\<lambda>_. 0)) s)"
  "on_io (xf_response_failure m) s = answer m (set_msg m (m_length_update (\<lambda>_. XF_MSG_LENGTH_INVALID)) s)"
  "on_io (xf_response_err m) s = answer m (set_msg m (\<lambda>x. x\<lparr>m_opcode := XF_UNREGISTER, m_length := 0\<rparr>) s)"
  using on_io_response_upd [of m _ s]
  by (simp_all add: on_io_def xf_response_data_def xf_response_ok_def xf_response_failure_def xf_response_err_def)

text \<open>What the parts of a step leave alone, and what they do to messages, answers and channels.\<close>

lemma step_simps [simp]:
  "b_done (answer m s) = b_done s @ [(m, msg s m)]" "b_done (set_msg m f s) = b_done s" "b_done (put32 a v s) = b_done s"
  "b_done (upd_channel p g s) = b_done s" "b_done (count_down p s) = b_done s"
  "msg (answer m s) x = msg s x" "msg (set_msg m f s) x = (if x = m then f (msg s m) else msg s x)" "msg (put32 a v s) x = msg s x"
  "msg (upd_channel p g s) x = msg s x" "msg (count_down p s) x = msg s x"
  "b_core (answer m s) = b_core s" "b_core (upd_channel p g s) = b_core s" "b_core (count_down p s) = b_core s"
  "b_core (set_msg m f s) = upd_msg m f (b_core s)" "b_core (put32 a v s) = (b_core s)\<lparr>c_bytes := store32 a v (c_bytes (b_core s))\<rparr>"
  "b_channel (answer m s) = b_channel s" "b_channel (set_msg m f s) = b_channel s" "b_channel (put32 a v s) = b_channel s"
  "b_channel (upd_channel p g s) = (b_channel s)(p := g (b_channel s p))"
  "b_channel (count_down p s) = (b_channel s)(p := (b_channel s p)\<lparr>ch_count := ch_count (b_channel s p) - 1\<rparr>)"
  "b_chain (answer m s) = b_chain s" "b_chain (set_msg m f s) = b_chain s" "b_chain (put32 a v s) = b_chain s"
  "b_chain (upd_channel p g s) = b_chain s" "b_chain (count_down p s) = b_chain s"
  "b_num_channels (answer m s) = b_num_channels s" "b_num_channels (set_msg m f s) = b_num_channels s"
  "b_num_channels (put32 a v s) = b_num_channels s" "b_num_channels (upd_channel p g s) = b_num_channels s"
  "b_num_channels (count_down p s) = b_num_channels s"
  "b_state (answer m s) = b_state s" "b_state (set_msg m f s) = b_state s" "b_state (put32 a v s) = b_state s"
  "b_state (upd_channel p g s) = b_state s" "b_state (count_down p s) = b_state s"
  by (simp_all add: answer_def set_msg_def put32_def upd_channel_def count_down_def on_core_def msg_def upd_msg_def)

lemma upd_msg_core [simp]:
  "c_mem (upd_msg m f c) = c_mem c" "c_bytes (upd_msg m f c) = c_bytes c" "c_msg (upd_msg m f c) = (c_msg c)(m := f (c_msg c m))"
  by (simp_all add: upd_msg_def)

section \<open>The list of channels\<close>

fun channel_list :: "(addr \<Rightarrow> channel) \<Rightarrow> addr \<Rightarrow> addr list \<Rightarrow> bool" where
  "channel_list C a [] \<longleftrightarrow> True"
| "channel_list C a (p # ps) \<longleftrightarrow> a = p \<and> channel_list C (ch_next (C p)) ps"

text \<open>The channels of a component; the link behind the last one is never followed.\<close>

definition channels :: "'z base_scheme \<Rightarrow> addr list \<Rightarrow> bool" where
  "channels s ps \<longleftrightarrow> channel_list (b_channel s) (b_chain s) ps \<and> distinct ps \<and> NULL \<notin> set ps \<and> unat (b_num_channels s) = length ps"

lemma channel_list_cong:
  "(\<And>x. x \<in> set ps \<Longrightarrow> ch_next (C' x) = ch_next (C x)) \<Longrightarrow> channel_list C' a ps = channel_list C a ps"
  by (induction ps arbitrary: a) auto

lemma scan_finds:
  "channel_list C a (qs @ p # rs) \<Longrightarrow> (\<And>x. x \<in> set qs \<Longrightarrow> \<not> f (C x)) \<Longrightarrow> f (C p) \<Longrightarrow> length (qs @ p # rs) = n \<Longrightarrow>
   channel_scan f n link a cur C = (True, if qs = [] then link else Some (last qs), p)"
proof (induction qs arbitrary: a n link cur)
  case Nil
  then show ?case by (cases n) auto
next
  case (Cons q qs)
  then show ?case by (cases n) auto
qed

lemma scan_misses:
  "channel_list C a ps \<Longrightarrow> (\<And>x. x \<in> set ps \<Longrightarrow> \<not> f (C x)) \<Longrightarrow> length ps = n \<Longrightarrow> \<not> fst (channel_scan f n link a cur C)"
  by (induction ps arbitrary: a n link cur) auto

lemma find_channel_eq:
  assumes "channels s (qs @ p # rs)" and "\<And>x. x \<in> set qs \<Longrightarrow> \<not> f (b_channel s x)" and "f (b_channel s p)"
  shows "find_channel f s = (True, if qs = [] then None else Some (last qs), p)"
  using assms scan_finds [of "b_channel s" "b_chain s" qs p rs f "unat (b_num_channels s)" None NULL]
  by (simp add: find_channel_def channels_def)

lemma unlink_list:
  assumes "channel_list C a (qs @ p # rs)" and "distinct (qs @ p # rs)" and "qs \<noteq> []"
  shows "channel_list (C(last qs := (C (last qs))\<lparr>ch_next := ch_next (C p)\<rparr>)) a (qs @ rs)"
  using assms
proof (induction qs arbitrary: a)
  case (Cons q qs)
  show ?case
  proof (cases "qs = []")
    case True
    with Cons.prems have "channel_list C (ch_next (C p)) rs" "q \<notin> set rs" "a = q" by auto
    moreover have "channel_list (C(q := (C q)\<lparr>ch_next := ch_next (C p)\<rparr>)) (ch_next (C p)) rs =
        channel_list C (ch_next (C p)) rs"
      by (rule channel_list_cong) (use \<open>q \<notin> set rs\<close> in auto)
    ultimately show ?thesis using True by (simp del: fun_upd_apply) (simp add: fun_upd_same)
  next
    case False
    then have "last qs \<noteq> q" using Cons.prems(2) by auto
    with Cons False show ?thesis by auto
  qed
qed simp

lemma unlink_channels:
  assumes "channels s (qs @ p # rs)"
  shows "channels (unlink_channel (if qs = [] then None else Some (last qs)) p (s\<lparr>b_num_channels := b_num_channels s - 1\<rparr>)) (qs @ rs)"
proof -
  have n: "unat (b_num_channels s) = Suc (length qs + length rs)" using assms by (simp add: channels_def)
  then have "b_num_channels s \<noteq> 0" by (metis nat.distinct(1) unat_eq_0)
  with n have "unat (b_num_channels s - 1) = length (qs @ rs)" by (simp add: unat_minus_one)
  then show ?thesis
    using assms unlink_list [of "b_channel s" "b_chain s" qs p rs]
    by (cases "qs = []") (auto simp: channels_def unlink_channel_def upd_channel_def)
qed
section \<open>Draining a channel of the application\<close>

text \<open>Messages as they go back: taken from the queue of the channel, or just returned.\<close>

definition drained :: "'z base_scheme \<Rightarrow> addr \<Rightarrow> addr \<times> xf_message" where
  "drained s m = (m, (msg s m)\<lparr>m_next := NULL, m_length := 4\<rparr>)"

definition returned :: "'z base_scheme \<Rightarrow> addr \<Rightarrow> addr \<times> xf_message" where
  "returned s m = (m, (msg s m)\<lparr>m_length := 4\<rparr>)"

text \<open>Words of memory apart from each other keep their contents.\<close>

definition apart4 :: "addr \<Rightarrow> addr \<Rightarrow> bool" where
  "apart4 a b \<longleftrightarrow> {a, a + 1, a + 2, a + 3} \<inter> {b, b + 1, b + 2, b + 3} = {}"

lemma load_store_apart: "apart4 a b \<Longrightarrow> load32 (store32 a v B) b = load32 B b"
  by (auto simp: apart4_def load32_def store32_def)

lemma apart4_sym: "apart4 a b \<Longrightarrow> apart4 b a"
  by (auto simp: apart4_def)

lemma get32_simps [simp]:
  "get32 (answer m s) a = get32 s a" "get32 (set_msg m f s) a = get32 s a" "get32 (upd_channel p g s) a = get32 s a"
  "get32 (count_down p s) a = get32 s a"
  "apart4 b a \<Longrightarrow> get32 (put32 b v s) a = get32 s a"
  by (simp_all add: get32_def load_store_apart)

text \<open>What draining leaves alone; \<open>c_rest\<close> is all of the core but messages and bytes.\<close>

definition rest_kept :: "'z base_scheme \<Rightarrow> 'z base_scheme \<Rightarrow> bool" where
  "rest_kept s s' \<longleftrightarrow> b_chain s' = b_chain s \<and> b_num_channels s' = b_num_channels s \<and> b_state s' = b_state s \<and>
     c_mem (b_core s') = c_mem (b_core s)"

lemma rest_kept_refl [simp]: "rest_kept s s"
  by (simp add: rest_kept_def)

lemma rest_kept_trans: "rest_kept s s' \<Longrightarrow> rest_kept s' s'' \<Longrightarrow> rest_kept s s''"
  by (simp add: rest_kept_def)

lemma event_return_app:
  assumes "ch_dst (b_channel s p) = XF_CFG_ID_EVENT_TO_APP"
  shows "event_return p m s = Some (answer m (set_msg m (m_length_update (\<lambda>_. 4)) (put32 (m_buffer (msg s m)) (ch_src (b_channel s p)) s)))"
  using assms by (simp add: event_return_def Let_def on_io_response set_msg_def [symmetric])

lemma event_take_eq:
  assumes "msg_queue_rel (c_msg (b_core s)) (ch_queue (b_channel s p)) (m # ms)"
  shows "\<exists>h q. event_take p s = (upd_channel p (ch_queue_update (\<lambda>_. q)) (on_core (c_msg_update (\<lambda>_. h)) s), m) \<and>
    msg_queue_rel h q ms \<and> h m = (msg s m)\<lparr>m_next := NULL\<rparr> \<and> (\<forall>x. x \<noteq> m \<longrightarrow> h x = msg s x) \<and> m \<noteq> NULL \<and> m \<notin> set ms"
proof -
  obtain h q where dq: "xf_msg_dequeue (c_msg (b_core s)) (ch_queue (b_channel s p)) = (h, q, m)" and q: "msg_queue_rel h q ms"
    and lk: "links_only {m} (c_msg (b_core s)) h" and nx: "m_next (h m) = NULL"
    using dequeue_rel(2) [OF assms refl] by blast
  have "NULL \<notin> set (m # ms)" "distinct (m # ms)"
    using assms msg_list_not_null by (auto simp only: msg_queue_rel_def)
  moreover have "h m = (msg s m)\<lparr>m_next := NULL\<rparr>"
    using links_only_done [OF lk, of m] nx unfolding msg_def
    by (metis xf_message.surjective xf_message.update_convs(1))
  ultimately show ?thesis
    using dq q lk by (auto simp: event_take_def Let_def links_only_def msg_def)
qed

lemma event_take_empty:
  "msg_queue_rel (c_msg (b_core s)) (ch_queue (b_channel s p)) [] \<Longrightarrow> snd (event_take p s) = NULL \<and>
   b_done (fst (event_take p s)) = b_done s \<and> (\<forall>x. msg (fst (event_take p s)) x = msg s x) \<and>
   b_channel (fst (event_take p s)) = b_channel s \<and> rest_kept s (fst (event_take p s)) \<and>
   c_bytes (b_core (fst (event_take p s))) = c_bytes (b_core s)"
  using dequeue_rel(1) [of "c_msg (b_core s)" "ch_queue (b_channel s p)"]
  by (simp add: event_take_def Let_def msg_def on_core_def upd_channel_def rest_kept_def fun_upd_idem)

lemma drain_app:
  assumes "ch_dst (b_channel s p) = XF_CFG_ID_EVENT_TO_APP"
    and "msg_queue_rel (c_msg (b_core s)) (ch_queue (b_channel s p)) ms"
  shows "\<exists>s' q. event_drain p s = Some s' \<and> b_done s' = b_done s @ map (drained s) ms \<and>
    (\<forall>x. x \<notin> set ms \<longrightarrow> msg s' x = msg s x) \<and>
    b_channel s' = (b_channel s)(p := (b_channel s p)\<lparr>ch_queue := q, ch_count := ch_count (b_channel s p) - word_of_nat (length ms)\<rparr>) \<and>
    (\<forall>a. (\<forall>m \<in> set ms. apart4 (m_buffer (msg s m)) a) \<longrightarrow> get32 s' a = get32 s a) \<and> rest_kept s s'"
  using assms
proof (induction ms arbitrary: s)
  case Nil
  let ?s = "fst (event_take p s)"
  have "event_drain p s = Some ?s"
    using event_take_empty [OF Nil(2)] by (subst event_drain.simps) (simp add: split_beta)
  then show ?case using event_take_empty [OF Nil(2)]
    by (intro exI [of _ ?s] exI [of _ "ch_queue (b_channel s p)"]) (simp add: fun_upd_idem get32_def)
next
  case (Cons m ms)
  obtain h q where tk: "event_take p s = (upd_channel p (ch_queue_update (\<lambda>_. q)) (on_core (c_msg_update (\<lambda>_. h)) s), m)"
    and q: "msg_queue_rel h q ms" and hm: "h m = (msg s m)\<lparr>m_next := NULL\<rparr>" and hx: "\<forall>x. x \<noteq> m \<longrightarrow> h x = msg s x"
    and m: "m \<noteq> NULL" "m \<notin> set ms"
    using event_take_eq [OF Cons.prems(2)] by blast
  define s1 where "s1 = upd_channel p (ch_queue_update (\<lambda>_. q)) (on_core (c_msg_update (\<lambda>_. h)) s)"
  have s1: "b_core s1 = (b_core s)\<lparr>c_msg := h\<rparr>" "b_done s1 = b_done s" "msg s1 x = h x"
    "b_channel s1 = (b_channel s)(p := (b_channel s p)\<lparr>ch_queue := q\<rparr>)" "rest_kept s s1" "get32 s1 a = get32 s a" for x a
    by (simp_all add: s1_def on_core_def upd_channel_def msg_def rest_kept_def get32_def)
  define s2 where "s2 = count_down p (answer m (set_msg m (m_length_update (\<lambda>_. 4)) (put32 (m_buffer (msg s1 m)) (ch_src (b_channel s1 p)) s1)))"
  have ret: "event_return p m s1 = Some (answer m (set_msg m (m_length_update (\<lambda>_. 4)) (put32 (m_buffer (msg s1 m)) (ch_src (b_channel s1 p)) s1)))"
    using Cons.prems(1) by (intro event_return_app) (simp add: s1)
  have step: "event_drain p s = event_drain p s2"
    using tk m(1) ret by (subst event_drain.simps) (simp add: s1_def [symmetric] s2_def)
  have s2: "b_channel s2 = (b_channel s)(p := (b_channel s p)\<lparr>ch_queue := q, ch_count := ch_count (b_channel s p) - 1\<rparr>)"
    "b_done s2 = b_done s @ [drained s m]" "rest_kept s s2" "\<And>x. x \<noteq> m \<Longrightarrow> msg s2 x = msg s x"
    "c_msg (b_core s2) = h(m := (h m)\<lparr>m_length := 4\<rparr>)"
    using s1(5) hm hx by (simp_all add: s2_def s1 drained_def rest_kept_def)
  have get: "get32 s2 a = get32 s a" if "apart4 (m_buffer (msg s m)) a" for a
    using that hm by (simp add: s2_def s1)
  have "ch_dst (b_channel s2 p) = XF_CFG_ID_EVENT_TO_APP" "msg_queue_rel (c_msg (b_core s2)) (ch_queue (b_channel s2 p)) ms"
    using Cons.prems(1) queue_rel_frame [OF q] s2 by simp_all
  from Cons.IH [OF this] obtain s' q' where r: "event_drain p s2 = Some s'" "b_done s' = b_done s2 @ map (drained s2) ms"
    "\<forall>x. x \<notin> set ms \<longrightarrow> msg s' x = msg s2 x"
    "b_channel s' = (b_channel s2)(p := (b_channel s2 p)\<lparr>ch_queue := q', ch_count := ch_count (b_channel s2 p) - word_of_nat (length ms)\<rparr>)"
    "\<forall>a. (\<forall>m \<in> set ms. apart4 (m_buffer (msg s2 m)) a) \<longrightarrow> get32 s' a = get32 s2 a" "rest_kept s2 s'"
    by blast
  have "map (drained s2) ms = map (drained s) ms"
    using s2(4) m(2) unfolding drained_def by (intro map_cong refl) metis
  moreover have "b_channel s' = (b_channel s)(p := (b_channel s p)\<lparr>ch_queue := q', ch_count := ch_count (b_channel s p) - word_of_nat (length (m # ms))\<rparr>)"
    using r(4) s2(1) by (simp add: algebra_simps)
  moreover have "get32 s' a = get32 s a" if "\<forall>x \<in> set (m # ms). apart4 (m_buffer (msg s x)) a" for a
    using that r(5) get [of a] s2(4) m(2) by (metis list.set_intros(1) list.set_intros(2))
  ultimately show ?case
    using step r(1,2,3) s2(2,3,4) rest_kept_trans [OF s2(3) r(6)] by (intro exI [of _ s'] exI [of _ q']) simp
qed
section \<open>Deletion of a channel of the application\<close>

text \<open>
  The channel \<open>p\<close> of the events \<open>i\<close> waits for \<open>k\<close> messages to come back, then command \<open>d\<close> is answered.
\<close>

definition app_channel :: "'z base_scheme \<Rightarrow> addr list \<Rightarrow> addr \<Rightarrow> addr list \<Rightarrow> u32 \<Rightarrow> bool" where
  "app_channel s qs p rs i \<longleftrightarrow> channels s (qs @ p # rs) \<and> ch_dst (b_channel s p) = XF_CFG_ID_EVENT_TO_APP \<and> ch_src (b_channel s p) = i \<and>
     (\<forall>x \<in> set qs. \<not> (ch_src (b_channel s x) = i \<and> ch_dst (b_channel s x) = XF_CFG_ID_EVENT_TO_APP))"

definition pending :: "'z base_scheme \<Rightarrow> addr list \<Rightarrow> addr \<Rightarrow> addr list \<Rightarrow> u32 \<Rightarrow> addr \<Rightarrow> nat \<Rightarrow> bool" where
  "pending s qs p rs i d k \<longleftrightarrow> app_channel s qs p rs i \<and> ch_delete (b_channel s p) = d \<and> ch_count (b_channel s p) = word_of_nat k"

lemma app_channel_cong:
  assumes "app_channel s qs p rs i"
    and "\<And>x. ch_next (b_channel s' x) = ch_next (b_channel s x) \<and> ch_src (b_channel s' x) = ch_src (b_channel s x) \<and>
      ch_dst (b_channel s' x) = ch_dst (b_channel s x)"
    and "b_chain s' = b_chain s" and "b_num_channels s' = b_num_channels s"
  shows "app_channel s' qs p rs i"
  using assms channel_list_cong [of "qs @ p # rs" "b_channel s'" "b_channel s" "b_chain s"]
  by (simp add: app_channel_def channels_def)

lemma destroy_app:
  assumes ch: "app_channel s qs p rs i" and mem: "mem_live p0 XAF_MEM_ID_COMP U (c_mem (b_core s)) (L @ (p, sizeof_channel) # L')"
  shows "\<exists>s'. channel_destroy (if qs = [] then None else Some (last qs)) p s = Some s' \<and> b_done s' = b_done s \<and>
    channels s' (qs @ rs) \<and> mem_live p0 XAF_MEM_ID_COMP U (c_mem (b_core s')) (L @ L') \<and> (\<forall>x. msg s' x = msg s x)"
proof -
  let ?l = "if qs = [] then None else Some (last qs)"
  let ?s = "unlink_channel ?l p (s\<lparr>b_num_channels := b_num_channels s - 1\<rparr>)"
  obtain M where M: "xf_mem_free (c_mem (b_core s)) p sizeof_channel XAF_MEM_ID_COMP = Some M"
    "mem_live p0 XAF_MEM_ID_COMP U M (L @ L')"
    using xf_mem_free_ok [OF mem, of "length L"] by (auto simp: nth_append)
  have core: "b_core ?s = b_core s" "b_done ?s = b_done s"
    by (simp_all add: unlink_channel_def upd_channel_def)
  have "channel_destroy ?l p s = Some (on_core (c_mem_update (\<lambda>_. M)) ?s)"
    using ch M(1) core by (simp add: channel_destroy_def app_channel_def mem_free_def)
  moreover have "channels ?s (qs @ rs)"
    using unlink_channels [of s qs p rs] ch by (simp add: app_channel_def)
  then have "channels (on_core (c_mem_update (\<lambda>_. M)) ?s) (qs @ rs)"
    by (simp add: channels_def on_core_def)
  ultimately show ?thesis using M(2) core by (simp add: on_core_def msg_def)
qed

lemma event_found:
  assumes "app_channel s qs p rs i" and "XF_MSG_SRC_PROXY (m_id (msg s m))"
  shows "find_channel (event_channel_of i (m_id (msg s m))) s = (True, if qs = [] then None else Some (last qs), p) \<and> p \<noteq> NULL"
proof -
  have "event_channel_of i (m_id (msg s m)) c \<longleftrightarrow> ch_dst c = XF_CFG_ID_EVENT_TO_APP \<and> ch_src c = i" for c
    using assms(2) by (simp add: event_channel_of_def)
  moreover have "channels s (qs @ p # rs)" "p \<noteq> NULL" using assms(1) by (auto simp: app_channel_def channels_def)
  ultimately show ?thesis
    using assms(1) find_channel_eq [of s qs p rs "event_channel_of i (m_id (msg s m))"] unfolding app_channel_def by blast
qed

text \<open>A message comes back while the channel is being deleted.\<close>

definition back_one :: "addr \<Rightarrow> addr \<Rightarrow> u32 \<Rightarrow> 'z base_scheme \<Rightarrow> 'z base_scheme" where
  "back_one p m i s = count_down p (answer m (set_msg m (m_length_update (\<lambda>_. 4)) (put32 (m_buffer (msg s m)) i s)))"

lemma back_one_simps [simp]:
  "b_done (back_one p m i s) = b_done s @ [returned s m]"
  "msg (back_one p m i s) x = (if x = m then snd (returned s m) else msg s x)"
  "c_mem (b_core (back_one p m i s)) = c_mem (b_core s)"
  "apart4 (m_buffer (msg s m)) a \<Longrightarrow> get32 (back_one p m i s) a = get32 s a"
  by (simp_all add: back_one_def returned_def)

lemma back_one_pending:
  assumes "pending s qs p rs i d (Suc k)"
  shows "pending (back_one p m i s) qs p rs i d k"
  using assms app_channel_cong [of s qs p rs i "back_one p m i s"] by (simp add: pending_def back_one_def)

lemma event_back_more:
  assumes pd: "pending s qs p rs i d (Suc k)" and k: "0 < k" "k < 2 ^ 32" and d: "d \<noteq> NULL"
    and m: "XF_MSG_SRC_PROXY (m_id (msg s m))" "get32 s (m_buffer (msg s m)) = i"
  shows "xa_base_process_event P m s = Some (back_one p m i s, 0)"
proof -
  note fd = event_found [of s qs p rs i m]
  have "unat (word_of_nat k :: u32) = k" using k by (simp add: unat_of_nat)
  with k have "(word_of_nat k :: u32) \<noteq> 0" by auto
  then show ?thesis
    using pd fd m d event_return_app [of s p m]
    by (simp add: xa_base_process_event_def event_back_def pending_def app_channel_def Let_def back_one_def)
qed
text \<open>The messages return one after the other.\<close>

fun return_all :: "'z base_scheme plugin \<Rightarrow> addr list \<Rightarrow> 'z base_scheme \<Rightarrow> 'z base_scheme option" where
  "return_all P [] s = Some s"
| "return_all P (m # ms) s = do { (s, e) \<leftarrow> xa_base_process_event P m s; return_all P ms s }"

definition deleted :: "'z base_scheme \<Rightarrow> addr list \<Rightarrow> mm_pool \<Rightarrow> nat set \<Rightarrow> (addr \<times> u32) list \<Rightarrow> bool" where
  "deleted s ps p0 U L \<longleftrightarrow> channels s ps \<and> mem_live p0 XAF_MEM_ID_COMP U (c_mem (b_core s)) L"

lemma event_back_last:
  assumes pd: "pending s qs p rs i d (Suc 0)" and d: "d \<noteq> NULL"
    and m: "XF_MSG_SRC_PROXY (m_id (msg s m))" "get32 s (m_buffer (msg s m)) = i"
    and mem: "mem_live p0 XAF_MEM_ID_COMP U (c_mem (b_core s)) (L @ (p, sizeof_channel) # L')"
  shows "\<exists>s'. xa_base_process_event P m s = Some (s', 0) \<and> deleted s' (qs @ rs) p0 U (L @ L') \<and>
    b_done s' = b_done s @ [returned s m, (d, (msg (back_one p m i s) d)\<lparr>m_length := 0\<rparr>)]"
proof -
  let ?s1 = "back_one p m i s"
  let ?s2 = "answer d (set_msg d (m_length_update (\<lambda>_. 0)) ?s1)"
  note fd = event_found [of s qs p rs i m]
  have "app_channel ?s2 qs p rs i"
    using pd app_channel_cong [of s qs p rs i ?s2] by (simp add: pending_def back_one_def)
  moreover have "mem_live p0 XAF_MEM_ID_COMP U (c_mem (b_core ?s2)) (L @ (p, sizeof_channel) # L')" using mem by simp
  ultimately obtain s' where s': "channel_destroy (if qs = [] then None else Some (last qs)) p ?s2 = Some s'"
    "b_done s' = b_done ?s2" "deleted s' (qs @ rs) p0 U (L @ L')"
    using destroy_app [of ?s2 qs p rs i] unfolding deleted_def by blast
  have "xa_base_process_event P m s = Some (s', 0)"
    using pd fd m d s'(1) event_return_app [of s p m]
    by (simp add: xa_base_process_event_def event_back_def pending_def app_channel_def Let_def back_one_def response_eqs)
  with s' show ?thesis by simp
qed

lemma apart_all_mono: "sorted_wrt R (x # xs) \<Longrightarrow> y \<in> set xs \<Longrightarrow> R x y"
  by simp

lemma return_all_completes:
  assumes "pending s qs p rs i d (length ms)" and "ms \<noteq> []" and "d \<noteq> NULL" and "length ms < 2 ^ 32"
    and "distinct (d # ms)" and "\<forall>m \<in> set ms. XF_MSG_SRC_PROXY (m_id (msg s m)) \<and> get32 s (m_buffer (msg s m)) = i"
    and "sorted_wrt (\<lambda>m m'. apart4 (m_buffer (msg s m)) (m_buffer (msg s m'))) ms"
    and "mem_live p0 XAF_MEM_ID_COMP U (c_mem (b_core s)) (L @ (p, sizeof_channel) # L')"
  shows "\<exists>s'. return_all P ms s = Some s' \<and> deleted s' (qs @ rs) p0 U (L @ L') \<and>
    b_done s' = b_done s @ map (returned s) ms @ [(d, (msg s d)\<lparr>m_length := 0\<rparr>)]"
  using assms
proof (induction ms arbitrary: s)
  case Nil
  then show ?case by simp
next
  case (Cons m ms)
  show ?case
  proof (cases "ms = []")
    case True
    with Cons.prems event_back_last [of s qs p rs i d m p0 U L L' P] show ?thesis by auto
  next
    case False
    let ?s = "back_one p m i s"
    have k: "0 < length ms" "length ms < 2 ^ 32" using False Cons.prems(4) by auto
    have ev: "xa_base_process_event P m s = Some (?s, 0)"
      using event_back_more [of s qs p rs i d "length ms" m P] Cons.prems k by simp
    have same: "\<And>x. x \<in> set ms \<Longrightarrow> msg ?s x = msg s x" "msg ?s d = msg s d" using Cons.prems(5) by auto
    have 1: "pending ?s qs p rs i d (length ms)"
      using back_one_pending [of s qs p rs i d "length ms" m] Cons.prems(1) by simp
    have 2: "\<forall>x \<in> set ms. XF_MSG_SRC_PROXY (m_id (msg ?s x)) \<and> get32 ?s (m_buffer (msg ?s x)) = i"
      using Cons.prems(6,7) same(1) by (simp del: back_one_simps(2))
    have 3: "sorted_wrt (\<lambda>m m'. apart4 (m_buffer (msg ?s m)) (m_buffer (msg ?s m'))) ms"
      using Cons.prems(7) same(1) by (auto simp del: back_one_simps(2) intro: sorted_wrt_mono_rel [rotated])
    have 4: "mem_live p0 XAF_MEM_ID_COMP U (c_mem (b_core ?s)) (L @ (p, sizeof_channel) # L')"
      using Cons.prems(8) by simp
    obtain s' where r: "return_all P ms ?s = Some s'" "deleted s' (qs @ rs) p0 U (L @ L')"
      "b_done s' = b_done ?s @ map (returned ?s) ms @ [(d, (msg ?s d)\<lparr>m_length := 0\<rparr>)]"
      using Cons.IH [OF 1 False Cons.prems(3) k(2) _ 2 3 4] Cons.prems(5) by auto
    have "map (returned ?s) ms = map (returned s) ms" using same(1) unfolding returned_def by (intro map_cong refl) metis
    then show ?thesis using ev r same(2) by (simp del: back_one_simps(2) map_eq_conv)
  qed
qed
lemma deletion_completes:
  assumes ch: "app_channel s qs p rs i"
    and cmd: "get32 s (m_buffer (msg s d) + 16) = i" "get32 s (m_buffer (msg s d) + 20) = XF_CFG_ID_EVENT_TO_APP"
    and queue: "msg_queue_rel (c_msg (b_core s)) (ch_queue (b_channel s p)) ms"
    and count: "ch_count (b_channel s p) = word_of_nat (length (ms @ bs))" "length (ms @ bs) < 2 ^ 32"
    and d: "d \<noteq> NULL" "distinct (d # ms @ bs)"
    and home: "\<forall>m \<in> set bs. XF_MSG_SRC_PROXY (m_id (msg s m)) \<and> get32 s (m_buffer (msg s m)) = i"
    and apart: "sorted_wrt (\<lambda>m m'. apart4 (m_buffer (msg s m)) (m_buffer (msg s m'))) (ms @ bs)"
    and mem: "mem_live p0 XAF_MEM_ID_COMP U (c_mem (b_core s)) (L @ (p, sizeof_channel) # L')"
  shows "\<exists>s' s''. xa_base_delete_event_channel d s = Some (s', 0) \<and> return_all P bs s' = Some s'' \<and>
    deleted s'' (qs @ rs) p0 U (L @ L') \<and>
    b_done s'' = b_done s @ map (drained s) ms @ map (returned s) bs @ [(d, (msg s d)\<lparr>m_length := 0\<rparr>)]"
proof -
  have dst: "ch_dst (b_channel s p) = XF_CFG_ID_EVENT_TO_APP" using ch by (simp add: app_channel_def)
  let ?f = "\<lambda>c. ch_src c = i \<and> ch_dst c = XF_CFG_ID_EVENT_TO_APP"
  have found: "find_channel ?f s = (True, if qs = [] then None else Some (last qs), p)"
    using ch find_channel_eq [of s qs p rs ?f] unfolding app_channel_def by blast
  obtain s1 q where dr: "event_drain p s = Some s1" "b_done s1 = b_done s @ map (drained s) ms"
    and msg1: "\<forall>x. x \<notin> set ms \<longrightarrow> msg s1 x = msg s x"
    and ch1: "b_channel s1 = (b_channel s)(p := (b_channel s p)\<lparr>ch_queue := q, ch_count := ch_count (b_channel s p) - word_of_nat (length ms)\<rparr>)"
    and get1: "\<forall>a. (\<forall>m \<in> set ms. apart4 (m_buffer (msg s m)) a) \<longrightarrow> get32 s1 a = get32 s a" and rest: "rest_kept s s1"
    using drain_app [OF dst queue] by blast
  have cnt: "ch_count (b_channel s1 p) = word_of_nat (length bs)" using ch1 count(1) by simp
  have app1: "app_channel s1 qs p rs i"
    using app_channel_cong [OF ch, of s1] ch1 rest by (simp add: rest_kept_def)
  have mem1: "mem_live p0 XAF_MEM_ID_COMP U (c_mem (b_core s1)) (L @ (p, sizeof_channel) # L')"
    using mem rest by (simp add: rest_kept_def)
  have same: "msg s1 d = msg s d" "\<And>x. x \<in> set bs \<Longrightarrow> msg s1 x = msg s x" using msg1 d(2) by auto
  have ret: "map (returned s1) bs = map (returned s) bs"
    using same(2) unfolding returned_def by (intro map_cong refl) metis
  show ?thesis
  proof (cases "bs = []")
    case True
    obtain s2 where s2: "channel_destroy (if qs = [] then None else Some (last qs)) p s1 = Some s2"
      "b_done s2 = b_done s1" "deleted s2 (qs @ rs) p0 U (L @ L')" "\<forall>x. msg s2 x = msg s1 x"
      using destroy_app [OF app1 mem1] unfolding deleted_def by blast
    let ?s3 = "answer d (set_msg d (m_length_update (\<lambda>_. 0)) s2)"
    have "xa_base_delete_event_channel d s = Some (?s3, 0)"
      using cmd found dr(1) cnt True s2(1) by (simp add: xa_base_delete_event_channel_def Let_def response_eqs)
    moreover have "deleted ?s3 (qs @ rs) p0 U (L @ L')" using s2(3) by (simp add: deleted_def channels_def)
    moreover have "b_done ?s3 = b_done s @ map (drained s) ms @ [(d, (msg s d)\<lparr>m_length := 0\<rparr>)]"
      using s2(2,4) dr(2) same(1) by simp
    ultimately show ?thesis using True by simp
  next
    case False
    have "unat (word_of_nat (length bs) :: u32) = length bs" using count(2) by (simp add: unat_of_nat)
    then have nz: "(word_of_nat (length bs) :: u32) \<noteq> 0" using False by auto
    define s2 where "s2 = upd_channel p (ch_delete_update (\<lambda>_. d)) s1"
    have run: "xa_base_delete_event_channel d s = Some (s2, 0)"
      using cmd found dr(1) cnt nz by (simp add: xa_base_delete_event_channel_def Let_def s2_def)
    have s2: "msg s2 x = msg s1 x" "b_done s2 = b_done s1" "get32 s2 a = get32 s1 a" "c_mem (b_core s2) = c_mem (b_core s1)" for x a
      by (simp_all add: s2_def)
    have 1: "pending s2 qs p rs i d (length bs)"
      using app_channel_cong [OF app1, of s2] cnt by (simp add: pending_def s2_def)
    have far: "\<forall>m \<in> set ms. apart4 (m_buffer (msg s m)) (m_buffer (msg s x))" if "x \<in> set bs" for x
      using apart that by (simp add: sorted_wrt_append)
    have 2: "\<forall>m \<in> set bs. XF_MSG_SRC_PROXY (m_id (msg s2 m)) \<and> get32 s2 (m_buffer (msg s2 m)) = i"
      using home far get1 same(2) by (simp add: s2)
    have 3: "sorted_wrt (\<lambda>m m'. apart4 (m_buffer (msg s2 m)) (m_buffer (msg s2 m'))) bs"
      using apart same(2) by (auto simp: s2 sorted_wrt_append intro: sorted_wrt_mono_rel [rotated])
    have 4: "length bs < 2 ^ 32" "distinct (d # bs)" "mem_live p0 XAF_MEM_ID_COMP U (c_mem (b_core s2)) (L @ (p, sizeof_channel) # L')"
      using count(2) d(2) mem1 s2(4) by simp_all
    obtain s' where s': "return_all P bs s2 = Some s'" "deleted s' (qs @ rs) p0 U (L @ L')"
      "b_done s' = b_done s2 @ map (returned s2) bs @ [(d, (msg s2 d)\<lparr>m_length := 0\<rparr>)]"
      using return_all_completes [OF 1 False d(1) 4(1,2) 2 3 4(3)] by blast
    have "map (returned s2) bs = map (returned s1) bs" by (simp add: returned_def s2)
    then show ?thesis using run s' dr(2) ret same(1) by (simp add: s2 del: map_eq_conv)
  qed
qed
section \<open>Errors reported to another component\<close>

lemma on_core_fields [simp]:
  "b_channel (on_core f s) = b_channel s" "b_done (on_core f s) = b_done s" "b_chain (on_core f s) = b_chain s"
  "b_num_channels (on_core f s) = b_num_channels s" "b_core (on_core f s) = f (b_core s)"
  "msg (on_core (c_msg_update g) s) x = g (c_msg (b_core s)) x"
  by (simp_all add: on_core_def msg_def)

lemma load_store_same: "load32 (store32 a w B) a = w"
proof -
  have "load32 (store32 a w B) a = ucast (ucast w :: 8 word) OR push_bit 8 (ucast (ucast (drop_bit 8 w) :: 8 word)) OR
      push_bit 16 (ucast (ucast (drop_bit 16 w) :: 8 word)) OR push_bit 24 (ucast (ucast (drop_bit 24 w) :: 8 word))"
    by (simp add: load32_def store32_def)
  also have "... = w"
  proof (rule bit_word_eqI)
    fix n assume n: "n < LENGTH(32)"
    then consider "n < 8" | "8 \<le> n" "n < 16" | "16 \<le> n" "n < 24" | "24 \<le> n" "n < 32" by fastforce
    then show "bit (ucast (ucast w :: 8 word) OR push_bit 8 (ucast (ucast (drop_bit 8 w) :: 8 word)) OR
      push_bit 16 (ucast (ucast (drop_bit 16 w) :: 8 word)) OR push_bit 24 (ucast (ucast (drop_bit 24 w) :: 8 word)) :: u32) n = bit w n"
      using n by cases (auto simp: bit_simps)
  qed
  finally show ?thesis .
qed

lemma get32_put32 [simp]: "get32 (put32 a v s) a = v"
  by (simp add: get32_def load_store_same)

lemma apart4_next: "apart4 (a + 4) a"
  by (simp add: apart4_def)

lemma scan_none:
  "channel_list C a ps \<Longrightarrow> ps \<noteq> [] \<Longrightarrow> (\<And>x. x \<in> set ps \<Longrightarrow> \<not> f (C x)) \<Longrightarrow> length ps = n \<Longrightarrow>
   channel_scan f n link a cur C = (False, Some (last ps), last ps)"
proof (induction ps arbitrary: a n link cur)
  case (Cons p ps)
  show ?case
  proof (cases "ps = []")
    case True
    with Cons.prems show ?thesis by (cases n) auto
  next
    case False
    with Cons show ?thesis by (cases n) auto
  qed
qed simp

lemma error_event:
  assumes ch: "channels s [p, r]" and src: "ch_src (b_channel s p) = XF_CFG_COMP_ERR_FATAL" "ch_src (b_channel s r) \<noteq> XF_CFG_COMP_ERR_FATAL"
    and del: "ch_delete (b_channel s p) = NULL" and q: "msg_queue_rel (c_msg (b_core s)) (ch_queue (b_channel s p)) (m # ms)"
    and e: "e \<noteq> 0" "b_nonfatal s = 0"
  shows "\<exists>s1 q. xa_base_error_handler P e s = Some (s1, 0) \<and>
    b_channel s1 = (b_channel s)(p := (b_channel s p)\<lparr>ch_queue := q, ch_count := ch_count (b_channel s p) - 1\<rparr>) \<and>
    msg_queue_rel (c_msg (b_core s1)) q ms \<and> (\<forall>x. x \<noteq> m \<longrightarrow> msg s1 x = msg s x) \<and> m_buffer (msg s1 m) = m_buffer (msg s m) \<and>
    get32 s1 (m_buffer (msg s m)) = XF_CFG_COMP_ERR_FATAL \<and> rest_kept s s1 \<and> m \<noteq> NULL"
proof -
  obtain h q where tk: "event_take p s = (upd_channel p (ch_queue_update (\<lambda>_. q)) (on_core (c_msg_update (\<lambda>_. h)) s), m)"
    and q: "msg_queue_rel h q ms" and hm: "h m = (msg s m)\<lparr>m_next := NULL\<rparr>" and hx: "\<forall>x. x \<noteq> m \<longrightarrow> h x = msg s x"
    and m: "m \<noteq> NULL" "m \<notin> set ms"
    using event_take_eq [OF q] by blast
  let ?b = "m_buffer (msg s m)"
  let ?s0 = "upd_channel p (ch_queue_update (\<lambda>_. q)) (on_core (c_msg_update (\<lambda>_. h)) s)"
  define s1 where "s1 = answer m (set_msg m (m_length_update (\<lambda>_. ch_size (b_channel s p) + 4)) (count_down p
    (put32 (?b + 4) (word_of_int e) (put32 ?b XF_CFG_COMP_ERR_FATAL
      (set_msg m (m_error_update (\<lambda>_. word_of_int e)) (set_msg m (m_error_update (\<lambda>_. 0)) ?s0))))))"
  have list: "b_chain s = p" "ch_next (b_channel s p) = r" "unat (b_num_channels s) = Suc (Suc 0)" "p \<noteq> r"
    using ch by (auto simp: channels_def)
  have "xa_base_error_handler P e s = Some (s1, 0)"
    unfolding xa_base_error_handler_def xa_base_event_handler_def s1_def
    using e list src del tk m hm
    by (simp add: Let_def split_beta event_answer_def response_eqs set_msg_def [symmetric])
  moreover have "b_channel s1 = (b_channel s)(p := (b_channel s p)\<lparr>ch_queue := q, ch_count := ch_count (b_channel s p) - 1\<rparr>)"
    by (simp add: s1_def)
  moreover have "msg_queue_rel (c_msg (b_core s1)) q ms"
    by (rule queue_rel_frame [OF q]) (auto simp: s1_def on_core_def)
  moreover have "\<forall>x. x \<noteq> m \<longrightarrow> msg s1 x = msg s x" "m_buffer (msg s1 m) = ?b"
    using hx hm by (simp_all add: s1_def)
  moreover have "get32 s1 ?b = XF_CFG_COMP_ERR_FATAL" by (simp add: s1_def apart4_next)
  moreover have "rest_kept s s1" by (simp add: s1_def rest_kept_def on_core_def)
  ultimately show ?thesis using m(1) by blast
qed
section \<open>Properties\<close>

text \<open>
  A component at address 7 with one channel at 4224, for the events 5 to the application: one message
  waits in the channel, another is at the application, and message 192 holds the command to delete it.
\<close>

definition demo_channel :: channel where
  "demo_channel = \<lparr>ch_next = 0, ch_pool = \<lparr>pl_p = 0, pl_head = 0, pl_n = 0\<rparr>, ch_queue = \<lparr>q_head = 64, q_tail = 64\<rparr>, ch_delete = 0,
     ch_src = 5, ch_dst = XF_CFG_ID_EVENT_TO_APP, ch_port_dst = 0, ch_count = 2, ch_size = 0, ch_shared = False\<rparr>"

definition demo_event_msgs :: msg_heap where
  "demo_event_msgs = (\<lambda>_. no_msg)(64 := no_msg\<lparr>m_id := 0x80000000, m_buffer := 8192\<rparr>, 128 := no_msg\<lparr>m_id := 0x80000000, m_buffer := 8448\<rparr>,
     192 := no_msg\<lparr>m_id := 0x80000000, m_buffer := 1024\<rparr>)"

definition demo_events :: "dsp_mem \<Rightarrow> base" where
  "demo_events M = \<lparr>b_core = demo_core\<lparr>c_msg := demo_event_msgs,
       c_bytes := (\<lambda>_. 0)(8448 := 5, 1040 := 5, 1045 := 0x10, 1046 := 1), c_mem := M\<rparr>,
     b_done = [], b_self = 7, b_api = \<lparr>mb_addr = 0, mb_size = 0\<rparr>, b_mem_tabs = \<lparr>mb_addr = 0, mb_size = 0\<rparr>,
     b_persist = \<lparr>mb_addr = 0, mb_size = 0\<rparr>, b_scratch = 0, b_scratch_idx = 0, b_state = 1,
     b_channel = (\<lambda>_. demo_channel), b_chain = 4224, b_num_channels = 1, b_cb = True, b_nonfatal = 0, b_type = 0\<rparr>"

lemma demo_channel_mem:
  obtains M where "mem_live demo_pool XAF_MEM_ID_COMP (span 4096 256) M [(4224, sizeof_channel)]"
proof -
  obtain p where p: "mem_live demo_pool 0 (span 4096 256) (demo_mem p) []" "mm_inv p [(4096, 256)]"
    by (rule demo_mem_live)
  then have live: "mem_live demo_pool XAF_MEM_ID_COMP (span 4096 256) (demo_mem p) []"
    by (simp add: mem_live_def demo_mem_def)
  have "64 dvd unat (128 :: u32)" by simp
  from xf_mm_alloc_ok [OF p(2) this] obtain p' where al: "xf_mm_alloc p 128 = Some (p', 4224)" by auto
  have "\<exists>M. xf_mem_alloc (demo_mem p) sizeof_channel (2 ^ 5) XAF_MEM_ID_COMP = Some (M, 4224)"
    using al by (simp add: xf_mem_alloc_def demo_mem_def XF_MM_def sizeof_item_64 XF_MAX_ALIGNMENT_def
        XF_MIN_ALIGNMENT_def Let_def sizeof_channel_def XAF_MEM_ID_COMP_def)
  moreover have "\<exists>M q. xf_mem_alloc (demo_mem p) sizeof_channel (2 ^ 5) XAF_MEM_ID_COMP = Some (M, q) \<and>
      (q = NULL \<and> mem_live demo_pool XAF_MEM_ID_COMP (span 4096 256) M [] \<or>
       q \<noteq> NULL \<and> 2 ^ 5 dvd unat q \<and> mem_live demo_pool XAF_MEM_ID_COMP (span 4096 256) M [(q, sizeof_channel)])"
    by (rule xf_mem_alloc_ok [OF live]) (simp_all add: demo_pool_def bend_def sizeof_channel_def)
  ultimately show thesis using that by auto
qed

text \<open>
  C17. Deletion of an event channel of the application completes: the command sends the messages that
  wait in the channel back in order, and when the messages that were at the application, as many as
  the channel still counts, have returned (in any number of steps), each has been sent back, the command
  is answered last, and the channel is out of the list and its memory released.
\<close>

theorem event_channel_deletion_completes:
  assumes "app_channel s qs p rs i"
    and "get32 s (m_buffer (msg s d) + 16) = i" and "get32 s (m_buffer (msg s d) + 20) = XF_CFG_ID_EVENT_TO_APP"
    and "msg_queue_rel (c_msg (b_core s)) (ch_queue (b_channel s p)) ms"
    and "ch_count (b_channel s p) = word_of_nat (length (ms @ bs))" and "length (ms @ bs) < 2 ^ 32"
    and "d \<noteq> NULL" and "distinct (d # ms @ bs)"
    and "\<forall>m \<in> set bs. XF_MSG_SRC_PROXY (m_id (msg s m)) \<and> get32 s (m_buffer (msg s m)) = i"
    and "sorted_wrt (\<lambda>m m'. apart4 (m_buffer (msg s m)) (m_buffer (msg s m'))) (ms @ bs)"
    and "mem_live p0 XAF_MEM_ID_COMP U (c_mem (b_core s)) (L @ (p, sizeof_channel) # L')"
  shows "\<exists>s' s''. xa_base_delete_event_channel d s = Some (s', 0) \<and> return_all P bs s' = Some s'' \<and>
    deleted s'' (qs @ rs) p0 U (L @ L') \<and>
    b_done s'' = b_done s @ map (drained s) ms @ map (returned s) bs @ [(d, (msg s d)\<lparr>m_length := 0\<rparr>)]"
  by (rule deletion_completes [OF assms])

theorem event_channel_deletion_completes_witness:
  "\<exists>M s' s''. xa_base_delete_event_channel 192 (demo_events M) = Some (s', 0) \<and>
    return_all (\<lambda>_ _ _ s. (s, 0, 0)) [128] s' = Some s'' \<and> channels s'' [] \<and> map fst (b_done s'') = [64, 128, 192]"
proof -
  obtain M where M: "mem_live demo_pool XAF_MEM_ID_COMP (span 4096 256) M ([] @ (4224, sizeof_channel) # [])"
    using demo_channel_mem by auto
  let ?s = "demo_events M"
  have ch: "app_channel ?s [] 4224 [] 5"
    by (simp add: app_channel_def channels_def demo_events_def demo_channel_def)
  have msgs: "msg ?s 64 = no_msg\<lparr>m_id := 0x80000000, m_buffer := 8192\<rparr>" "msg ?s 128 = no_msg\<lparr>m_id := 0x80000000, m_buffer := 8448\<rparr>"
    "msg ?s 192 = no_msg\<lparr>m_id := 0x80000000, m_buffer := 1024\<rparr>"
    by (simp_all add: demo_events_def demo_event_msgs_def msg_def)
  have words: "get32 ?s 8448 = 5" "get32 ?s 1040 = 5" "get32 ?s 1044 = XF_CFG_ID_EVENT_TO_APP"
    by (simp_all add: demo_events_def get32_def load32_def XF_CFG_ID_EVENT_TO_APP_def)
  have queue: "msg_queue_rel (c_msg (b_core ?s)) (ch_queue (b_channel ?s 4224)) [64]"
    by (simp add: demo_events_def demo_event_msgs_def demo_channel_def msg_queue_rel_def no_msg_def)
  have mem: "mem_live demo_pool XAF_MEM_ID_COMP (span 4096 256) (c_mem (b_core ?s)) ([] @ (4224, sizeof_channel) # [])"
    using M by (simp add: demo_events_def)
  have "\<exists>s' s''. xa_base_delete_event_channel 192 ?s = Some (s', 0) \<and> return_all (\<lambda>_ _ _ s. (s, 0, 0)) [128] s' = Some s'' \<and>
      deleted s'' ([] @ []) demo_pool (span 4096 256) ([] @ []) \<and>
      b_done s'' = b_done ?s @ map (drained ?s) [64] @ map (returned ?s) [128] @ [(192, (msg ?s 192)\<lparr>m_length := 0\<rparr>)]"
    by (rule event_channel_deletion_completes [OF ch _ _ queue _ _ _ _ _ _ mem])
      (simp_all add: msgs words no_msg_def apart4_def XF_MSG_SRC_PROXY_def,
       simp_all add: demo_events_def demo_channel_def)
  moreover have "b_done ?s = []" by (simp add: demo_events_def)
  ultimately show ?thesis by (fastforce simp: deleted_def drained_def returned_def)
qed
text \<open>
  C18. An error reported to another component comes back to the wrong channel: the event carries the
  number that the error has at its source, but the returned message is looked up under the number that
  it has at the destination. With two channels the message leaves the queue of the first, which counts one
  message less, and ends in the queue of the second, whose count stays as it was: that channel then has a
  message that it does not count.
\<close>

theorem error_event_misfiled:
  assumes "channels s [p, r]" and "ch_src (b_channel s p) = XF_CFG_COMP_ERR_FATAL" and "ch_src (b_channel s r) \<noteq> XF_CFG_COMP_ERR_FATAL"
    and "ch_dst (b_channel s p) \<notin> {XF_CFG_COMP_ERR_FATAL, XF_CFG_ID_EVENT_TO_APP}"
    and "ch_dst (b_channel s r) \<notin> {XF_CFG_COMP_ERR_FATAL, XF_CFG_ID_EVENT_TO_APP}"
    and "ch_delete (b_channel s p) = NULL \<and> ch_delete (b_channel s r) = NULL" and "e \<noteq> 0" and "b_nonfatal s = 0"
    and "msg_queue_rel (c_msg (b_core s)) (ch_queue (b_channel s p)) (m # ms)"
    and "msg_queue_rel (c_msg (b_core s)) (ch_queue (b_channel s r)) ns" and "set (m # ms) \<inter> set ns = {}"
  shows "\<exists>s1 s2. xa_base_error_handler P e s = Some (s1, 0) \<and>
    xa_base_process_event P m (set_msg m (\<lambda>x. x\<lparr>m_id := i, m_length := 0\<rparr>) s1) = Some (s2, 0) \<and>
    ch_count (b_channel s2 p) = ch_count (b_channel s p) - 1 \<and> ch_count (b_channel s2 r) = ch_count (b_channel s r) \<and>
    msg_queue_rel (c_msg (b_core s2)) (ch_queue (b_channel s2 p)) ms \<and>
    msg_queue_rel (c_msg (b_core s2)) (ch_queue (b_channel s2 r)) (ns @ [m])"
proof -
  have new: "m \<notin> set ns" "set ms \<inter> set ns = {}" using assms(11) by auto
  obtain s1 q where s1: "xa_base_error_handler P e s = Some (s1, 0)"
    "b_channel s1 = (b_channel s)(p := (b_channel s p)\<lparr>ch_queue := q, ch_count := ch_count (b_channel s p) - 1\<rparr>)"
    "msg_queue_rel (c_msg (b_core s1)) q ms" "\<forall>x. x \<noteq> m \<longrightarrow> msg s1 x = msg s x" "m_buffer (msg s1 m) = m_buffer (msg s m)"
    "get32 s1 (m_buffer (msg s m)) = XF_CFG_COMP_ERR_FATAL" "rest_kept s s1" "m \<noteq> NULL"
    using error_event [OF assms(1-3) assms(6) [THEN conjunct1] assms(9,7,8), of P] by (elim exE conjE) (rule that)
  let ?s = "set_msg m (\<lambda>x. x\<lparr>m_id := i, m_length := 0\<rparr>) s1"
  have chs: "channel_list (b_channel ?s) (b_chain ?s) [p, r]" "unat (b_num_channels ?s) = 2" "p \<noteq> r" "r \<noteq> NULL"
    using assms(1) s1(2,7) by (auto simp: channels_def rest_kept_def)
  have "find_channel (event_channel_of XF_CFG_COMP_ERR_FATAL i) ?s = (False, Some (last [p, r]), last [p, r])"
    unfolding find_channel_def
  proof (rule scan_none [OF chs(1)])
    show "\<not> event_channel_of XF_CFG_COMP_ERR_FATAL i (b_channel ?s x)" if "x \<in> set [p, r]" for x
      using that assms(4,5) s1(2) chs(3) by (auto simp: event_channel_of_def)
  qed (use chs(2) in simp_all)
  then have found: "find_channel (event_channel_of XF_CFG_COMP_ERR_FATAL i) ?s = (False, Some r, r)" by simp
  have qr: "msg_queue_rel (c_msg (b_core ?s)) (ch_queue (b_channel ?s r)) ns"
  proof -
    have "\<forall>x \<in> set ns. m_next (c_msg (b_core ?s) x) = m_next (c_msg (b_core s) x)"
      using new(1) s1(4) by (auto simp: msg_def)
    moreover have "b_channel ?s r = b_channel s r" using s1(2) chs(3) by simp
    ultimately show ?thesis using queue_rel_frame [OF assms(10)] by (simp only:)
  qed
  obtain h' q' where enq: "xf_msg_enqueue (c_msg (b_core ?s)) (ch_queue (b_channel ?s r)) m = (h', q', ns = [])"
    "msg_queue_rel h' q' (ns @ [m])" "links_only (insert m (set ns)) (c_msg (b_core ?s)) h'"
    using enqueue_rel [OF qr new(1) s1(8)] by blast
  let ?s2 = "upd_channel r (ch_queue_update (\<lambda>_. q')) (on_core (c_msg_update (\<lambda>_. h')) ?s)"
  have del: "ch_delete (b_channel s1 r) = NULL" "ch_dst (b_channel s1 r) \<noteq> XF_CFG_ID_EVENT_TO_APP"
    using s1(2) chs(3) assms(5,6) by auto
  have "event_back (Some r) r m ?s = Some ?s2"
    using enq(1) del by (simp add: event_back_def Let_def)
  then have "xa_base_process_event P m ?s = Some (?s2, 0)"
    using found s1(5,6) chs(4) by (simp add: xa_base_process_event_def Let_def)
  moreover have "ch_count (b_channel ?s2 p) = ch_count (b_channel s p) - 1" "ch_count (b_channel ?s2 r) = ch_count (b_channel s r)"
    using s1(2) chs(3) by simp_all
  moreover have "msg_queue_rel (c_msg (b_core ?s2)) (ch_queue (b_channel ?s2 p)) ms"
  proof -
    have "m \<notin> set ms" using assms(9) by (simp add: msg_queue_rel_def)
    then have "\<forall>x \<in> set ms. m_next (h' x) = m_next (c_msg (b_core s1) x)" using new(2) enq(3) by (auto simp: links_only_def msg_def)
    from queue_rel_frame [OF s1(3) this] show ?thesis using s1(2) chs(3) by simp
  qed
  moreover have "msg_queue_rel (c_msg (b_core ?s2)) (ch_queue (b_channel ?s2 r)) (ns @ [m])" using enq(2) by simp
  ultimately show ?thesis using s1(1) by blast
qed

text \<open>Two channels to a component: 512 for the fatal error, with message 64, and 768 for event 5.\<close>

definition demo_errors :: base where
  "demo_errors = (demo_events (c_mem demo_core))\<lparr>
     b_channel := (\<lambda>x. if x = 512 then demo_channel\<lparr>ch_next := 768, ch_src := XF_CFG_COMP_ERR_FATAL, ch_dst := 9, ch_count := 1\<rparr>
                       else demo_channel\<lparr>ch_queue := \<lparr>q_head = 0, q_tail = 0\<rparr>, ch_dst := 9\<rparr>),
     b_chain := 512, b_num_channels := 2\<rparr>"

theorem error_event_misfiled_witness:
  "\<exists>s1 s2. xa_base_error_handler (\<lambda>_ _ _ s. (s, 0, 0)) (- 3) demo_errors = Some (s1, 0) \<and>
    xa_base_process_event (\<lambda>_ _ _ s. (s, 0, 0)) 64 (set_msg 64 (\<lambda>x. x\<lparr>m_id := 9, m_length := 0\<rparr>) s1) = Some (s2, 0) \<and>
    ch_count (b_channel s2 512) = ch_count (b_channel demo_errors 512) - 1 \<and>
    ch_count (b_channel s2 768) = ch_count (b_channel demo_errors 768) \<and>
    msg_queue_rel (c_msg (b_core s2)) (ch_queue (b_channel s2 512)) [] \<and>
    msg_queue_rel (c_msg (b_core s2)) (ch_queue (b_channel s2 768)) ([] @ [64])"
  by (rule error_event_misfiled [where ms = "[]"])
    (simp_all add: demo_errors_def demo_events_def demo_channel_def channels_def XF_CFG_ID_EVENT_TO_APP_def
      XF_CFG_COMP_ERR_FATAL_def demo_event_msgs_def msg_queue_rel_def no_msg_def)

end
