(* ===== verification/Class_Sched.thy ===== *)
theory Class_Sched
  imports Audio_Codec Core_Thms
begin

text \<open>
  Scheduling of a component (\<^verbatim>\<open>xa_base_schedule\<close>, \<^verbatim>\<open>xa_base_cancel\<close>) against the specification of the
  scheduler, and the change of its priority (\<^verbatim>\<open>xa_component_setparam\<close>), which moves its messages and its
  task to another worker.
\<close>

section \<open>The task of a component\<close>

text \<open>
  The queue that the task of a component goes to, and the operations of scheduling in turn.
\<close>

definition sched_cell :: "'z base_scheme \<Rightarrow> addr" where
  "sched_cell s = (if c_n_workers (b_core s) \<noteq> 0 then wk_sched (c_worker (b_core s) (priority s)) else c_sched (b_core s))"

datatype sched_call = Schedule u64 | Cancel

fun sched_step :: "sched_call \<Rightarrow> 'z base_scheme \<Rightarrow> 'z base_scheme option" where
  "sched_step (Schedule dts) s = xa_base_schedule dts s"
| "sched_step Cancel s = xa_base_cancel s"

fun sched_ops :: "sched_call list \<Rightarrow> 'z base_scheme \<Rightarrow> 'z base_scheme option" where
  "sched_ops [] s = Some s"
| "sched_ops (x # xs) s = Option.bind (sched_step x s) (sched_ops xs)"

text \<open>
  The task stands in the queue exactly when the component says so.
\<close>

definition task_inv :: "'z base_scheme \<Rightarrow> u64 \<times> task_list \<Rightarrow> bool" where
  "task_inv s q \<longleftrightarrow> sched_rel (sched_cell s) (c_nodes (b_core s)) q \<and> spec_inv q \<and> b_self s \<noteq> sched_cell s \<and>
     b_self s \<noteq> NULL \<and> (has XA_BASE_FLAG_SCHEDULE s \<longleftrightarrow> b_self s \<in> fst ` set (snd q))"

lemma component_simps [simp]:
  "priority (s\<lparr>b_state := x\<rparr>) = priority s"
  "priority (s\<lparr>b_core := c_nodes_update f (b_core s)\<rparr>) = priority s"
  "priority (s\<lparr>b_core := xf_ipi_resume_dsp (c_nodes_update f (b_core s))\<rparr>) = priority s"
  "sched_cell (s\<lparr>b_state := x\<rparr>) = sched_cell s"
  "sched_cell (s\<lparr>b_core := c_nodes_update f (b_core s)\<rparr>) = sched_cell s"
  "sched_cell (s\<lparr>b_core := xf_ipi_resume_dsp (c_nodes_update f (b_core s))\<rparr>) = sched_cell s"
  by (simp_all add: priority_def component_of_def sched_cell_def xf_ipi_resume_dsp_def)

lemma flag_set: "has f (s\<lparr>b_state := b_state s OR f\<rparr>) \<longleftrightarrow> f \<noteq> 0"
  by (simp add: has_def bit.conj_disj_distrib2 word_bw_assocs)
 
lemma flag_clear: "\<not> has f (s\<lparr>b_state := b_state s AND NOT f\<rparr>)"
  by (simp add: has_def word_bw_assocs)
fun spec_step :: "addr \<Rightarrow> bool \<Rightarrow> sched_call \<Rightarrow> u64 \<times> task_list \<Rightarrow> u64 \<times> task_list" where
  "spec_step n fatal (Schedule dts) q = (if n \<in> fst ` set (snd q) \<or> fatal then q else spec_put n dts q)"
| "spec_step n fatal Cancel q = spec_cancel n q"

lemma spec_put_mem: "n \<in> fst ` set (snd (spec_put n d q))"
  by (cases q) (simp add: spec_put_def)

lemma spec_cancel_mem: "n \<notin> fst ` set (snd (spec_cancel n q))"
  by (cases q) (auto simp: spec_cancel_def)

lemma spec_cancel_id: "n \<notin> fst ` set (snd q) \<Longrightarrow> spec_cancel n q = q"
  by (cases q) (auto simp: spec_cancel_def filter_id_conv image_iff)

lemma phase_flags [simp]: "XA_BASE_FLAG_SCHEDULE \<noteq> 0" "XA_BASE_FLAG_COMP_FATAL_ERROR AND XA_BASE_FLAG_SCHEDULE = 0"
  by (simp_all add: XA_BASE_FLAG_SCHEDULE_def XA_BASE_FLAG_COMP_FATAL_ERROR_def)

lemma flag_other:
  assumes "f AND g = (0 :: u32)"
  shows "has f (s\<lparr>b_state := b_state s OR g\<rparr>) = has f s" "has f (s\<lparr>b_state := b_state s AND NOT g\<rparr>) = has f s"
proof -
  have fg: "NOT g AND f = f"
  proof -
    have "f = f AND (g OR NOT g)" by simp
    also have "... = NOT g AND f" using assms by (simp only: bit.conj_disj_distrib) (simp add: and.commute)
    finally show ?thesis by simp
  qed
  have "(b_state s OR g) AND f = b_state s AND f"
    using assms by (simp add: and.commute [of _ f] bit.conj_disj_distrib)
  then show "has f (s\<lparr>b_state := b_state s OR g\<rparr>) = has f s" by (simp add: has_def)
  show "has f (s\<lparr>b_state := b_state s AND NOT g\<rparr>) = has f s" by (simp add: has_def and.assoc fg)
qed

lemma schedule_step:
  assumes "task_inv s q" and "unat dts < 2 ^ 63"
  shows "\<exists>s'. xa_base_schedule dts s = Some s' \<and>
    task_inv s' (spec_step (b_self s) (has XA_BASE_FLAG_COMP_FATAL_ERROR s) (Schedule dts) q) \<and>
    b_self s' = b_self s \<and> has XA_BASE_FLAG_COMP_FATAL_ERROR s' = has XA_BASE_FLAG_COMP_FATAL_ERROR s"
proof (cases "has XA_BASE_FLAG_SCHEDULE s \<or> has XA_BASE_FLAG_COMP_FATAL_ERROR s")
  case True
  with assms(1) show ?thesis by (auto simp: xa_base_schedule_def task_inv_def)
next
  case False
  let ?s = "s\<lparr>b_state := b_state s OR XA_BASE_FLAG_SCHEDULE\<rparr>"
  have n: "b_self s \<notin> fst ` set (snd q)" using False assms(1) by (simp add: task_inv_def)
  with assms obtain h where h: "xf_sched_put (sched_cell s) (c_nodes (b_core s)) (b_self s) dts = Some h"
    "sched_rel (sched_cell s) h (spec_put (b_self s) dts q)"
    using xf_sched_put_refines [of "sched_cell s" "c_nodes (b_core s)" q "b_self s" dts]
    by (auto simp: task_inv_def)
  have inv: "spec_inv (spec_put (b_self s) dts q)"
    using spec_inv_put [of "fst q" "snd q" dts "b_self s"] assms n by (simp add: task_inv_def)
  obtain s' where s': "xa_base_schedule dts s = Some s'" "c_nodes (b_core s') = h" "sched_cell s' = sched_cell s"
    "b_self s' = b_self s" "b_state s' = b_state ?s"
    using False h(1)
    by (cases "c_n_workers (b_core s) = 0")
      (auto simp: xa_base_schedule_def xf_component_schedule_def on_core_def Let_def xf_ipi_resume_dsp_def
         sched_cell_def priority_def component_of_def)
  have has: "has f s' = has f ?s" for f using s'(5) by (simp add: has_def)
  show ?thesis
    using s' h inv n False assms(1) spec_put_mem [of "b_self s" dts q]
    by (auto simp: task_inv_def has flag_set flag_other)
qed

lemma cancel_step:
  assumes "task_inv s q"
  shows "\<exists>s'. xa_base_cancel s = Some s' \<and>
    task_inv s' (spec_step (b_self s) (has XA_BASE_FLAG_COMP_FATAL_ERROR s) Cancel q) \<and>
    b_self s' = b_self s \<and> has XA_BASE_FLAG_COMP_FATAL_ERROR s' = has XA_BASE_FLAG_COMP_FATAL_ERROR s"
proof (cases "has XA_BASE_FLAG_SCHEDULE s")
  case False
  with assms show ?thesis by (auto simp: xa_base_cancel_def task_inv_def spec_cancel_id)
next
  case True
  let ?s = "s\<lparr>b_state := b_state s AND NOT XA_BASE_FLAG_SCHEDULE\<rparr>"
  have n: "b_self s \<in> fst ` set (snd q)" using True assms by (simp add: task_inv_def)
  with assms obtain h where h: "xf_sched_cancel (sched_cell s) (c_nodes (b_core s)) (b_self s) = Some (h, 0)"
    "sched_rel (sched_cell s) h (spec_cancel (b_self s) q)"
    using xf_sched_cancel_refines [of "sched_cell s" "c_nodes (b_core s)" q "b_self s"]
    by (auto simp: task_inv_def)
  have inv: "spec_inv (spec_cancel (b_self s) q)"
    using spec_inv_cancel assms by (auto simp: task_inv_def)
  obtain s' where s': "xa_base_cancel s = Some s'" "c_nodes (b_core s') = h" "sched_cell s' = sched_cell s"
    "b_self s' = b_self s" "b_state s' = b_state ?s"
    using True h(1)
    by (cases "c_n_workers (b_core s) = 0")
      (auto simp: xa_base_cancel_def on_core_def Let_def sched_cell_def priority_def component_of_def)
  have has: "has f s' = has f ?s" for f using s'(5) by (simp add: has_def)
  show ?thesis
    using s' h inv n True assms spec_cancel_mem [of "b_self s" q]
    by (auto simp: task_inv_def has flag_clear flag_other)
qed

lemma sched_ops_refine:
  assumes "task_inv s q" and "\<And>dts. Schedule dts \<in> set xs \<Longrightarrow> unat dts < 2 ^ 63"
  shows "\<exists>s'. sched_ops xs s = Some s' \<and>
    task_inv s' (fold (spec_step (b_self s) (has XA_BASE_FLAG_COMP_FATAL_ERROR s)) xs q)"
  using assms
proof (induction xs arbitrary: s q)
  case Nil
  then show ?case by simp
next
  case (Cons x xs)
  obtain s1 where s1: "sched_step x s = Some s1"
    "task_inv s1 (spec_step (b_self s) (has XA_BASE_FLAG_COMP_FATAL_ERROR s) x q)"
    "b_self s1 = b_self s" "has XA_BASE_FLAG_COMP_FATAL_ERROR s1 = has XA_BASE_FLAG_COMP_FATAL_ERROR s"
    using schedule_step [OF Cons.prems(1)] cancel_step [OF Cons.prems(1)] Cons.prems(2)
    by (cases x) (auto simp del: spec_step.simps)
  from Cons.IH [OF s1(2)] Cons.prems(2) s1 show ?case by auto
qed
section \<open>Change of priority\<close>

text \<open>A scheduler whose own cells are left alone keeps its queue.\<close>

lemma tree_at_cong: "(\<And>x. x \<in> set (inorder t) \<Longrightarrow> h' x = h x) \<Longrightarrow> tree_at z h p x t \<Longrightarrow> tree_at z h' p x t"
  by (induction t arbitrary: p x) auto

lemma sched_rel_cong:
  assumes rel: "sched_rel z h q" and same: "\<And>x. x \<in> insert z (fst ` set (snd q)) \<Longrightarrow> h' x = h x"
  shows "sched_rel z h' q"
proof -
  obtain now ts where q: "q = (now, ts)" by (cases q)
  from rel [unfolded q] obtain t where t: "rb_tree_at z h t" "rbt t" "NULL \<notin> set (z # inorder t)"
    "now = xf_sched_timestamp z h" "ts = map (task_node h) (inorder t)" "rb_cache z h = hd (inorder t @ [z])"
    by (rule sched_relE)
  have z: "h' z = h z" and eq: "\<And>x. x \<in> set (inorder t) \<Longrightarrow> h' x = h x"
    using same t(5) by (auto simp: q image_image)
  have "rb_tree_at z h' t"
    using t(1) z eq by (auto simp: rb_tree_at_def intro: tree_at_cong)
  moreover have "ts = map (task_node h') (inorder t)"
    using t(5) eq by (auto simp: task_node_def xf_task_timestamp_def)
  ultimately show ?thesis
    using t z by (auto simp: q xf_sched_timestamp_def rb_cache_def rb_right_def intro!: sched_relI)
qed

lemma xf_sched_put_full:
  assumes "sched_rel z h s" and "spec_inv s" and "n \<notin> fst ` set (snd s)" and "n \<noteq> z \<and> n \<noteq> NULL"
    and "unat dts < 2 ^ 63"
  shows "\<exists>h'. xf_sched_put z h n dts = Some h' \<and> sched_rel z h' (spec_put n dts s) \<and> spec_inv (spec_put n dts s) \<and>
    (\<forall>x. x \<notin> insert n (insert z (fst ` set (snd s))) \<longrightarrow> h' x = h x)"
proof -
  obtain now q where s: "s = (now, q)" by (cases s)
  have "\<exists>h'. xf_sched_put z h n dts = Some h' \<and> sched_rel z h' (spec_put n dts s) \<and>
    (\<forall>x. x \<notin> insert n (insert z (fst ` set q)) \<longrightarrow> h' x = h x)"
    using assms xf_sched_put_empty [of z h now n dts] xf_sched_put_nonempty [of z h now q dts n]
    by (cases "q = []") (auto simp: s)
  moreover have "spec_inv (spec_put n dts s)"
    using spec_inv_put [of now q dts n] assms by (simp add: s)
  ultimately show ?thesis by (simp add: s)
qed

text \<open>The messages of the component, and the queues after they have moved.\<close>

definition wm_of :: "addr \<Rightarrow> worker_msg \<Rightarrow> bool" where
  "wm_of self x \<longleftrightarrow> wm_msg x \<noteq> NULL \<and> wm_component x = self"

definition wm_marker :: "worker_msg \<Rightarrow> bool" where
  "wm_marker x \<longleftrightarrow> wm_component x = NULL \<and> wm_msg x = NULL"

lemma upd_worker_twice: "upd_worker v f (upd_worker v g c) = upd_worker v (\<lambda>x. f (g x)) c"
  by (simp add: upd_worker_def)

lemma upd_worker_commute: "v \<noteq> w \<Longrightarrow> upd_worker v f (upd_worker w g c) = upd_worker w g (upd_worker v f c)"
  by (simp add: upd_worker_def fun_upd_twist)

lemma upd_worker_id: "upd_worker w (wk_msgs_update (\<lambda>q. q)) c = c"
  unfolding upd_worker_def by (cases c; cases "c_worker c w") (simp add: fun_upd_idem)

lemma move_loop_splits:
  assumes "v \<noteq> w" and "wk_msgs (c_worker c v) = xs @ \<lparr>wm_component = NULL, wm_msg = NULL\<rparr> # ys"
    and "\<And>x. x \<in> set xs \<Longrightarrow> \<not> wm_marker x" and "length xs < k"
  shows "move_loop k self v w c =
    Some (upd_worker w (wk_msgs_update (\<lambda>q. q @ filter (wm_of self) xs))
      (upd_worker v (wk_msgs_update (\<lambda>_. ys @ filter (\<lambda>x. \<not> wm_of self x) xs)) c))"
  using assms(2-4)
proof (induction xs arbitrary: k c ys)
  case Nil
  obtain k' where k: "k = Suc k'" using Nil.prems(3) by (cases k) auto
  have "move_loop k self v w c = Some (upd_worker v (wk_msgs_update (\<lambda>_. ys)) c)"
    using Nil.prems(1) by (simp only: k move_loop.simps append_Nil list.case Let_def worker_msg.simps simp_thms if_True)
  moreover have "upd_worker w (wk_msgs_update (\<lambda>q. q)) (upd_worker v f c) = upd_worker v f c" for f
    by (rule upd_worker_id)
  ultimately show ?case by simp
next
  case (Cons x xs)
  let ?m = "\<lparr>wm_component = NULL, wm_msg = NULL\<rparr>"
  obtain k' where k: "k = Suc k'" using Cons.prems(3) by (cases k) auto
  let ?c = "upd_worker v (wk_msgs_update (\<lambda>_. xs @ ?m # ys)) c"
  have step: "move_loop k self v w c = (if wm_of self x then move_loop k' self v w (msgq_send w x ?c)
      else move_loop k' self v w (msgq_send v x ?c))"
    using Cons.prems(1) Cons.prems(2) [of x] by (auto simp: k Let_def wm_of_def wm_marker_def)
  have not: "\<And>y. y \<in> set xs \<Longrightarrow> \<not> wm_marker y" and len: "length xs < k'"
    using Cons.prems k by auto
  show ?case
  proof (cases "wm_of self x")
    case True
    have "wk_msgs (c_worker (msgq_send w x ?c) v) = xs @ ?m # ys"
      using assms(1) by (simp add: msgq_send_def upd_worker_def)
    from Cons.IH [OF this not len] show ?thesis
      using True by (simp add: step msgq_send_def upd_worker_commute [OF assms(1)] upd_worker_twice comp_def)
  next
    case False
    have "wk_msgs (c_worker (msgq_send v x ?c) v) = xs @ ?m # (ys @ [x])"
      by (simp add: msgq_send_def upd_worker_def)
    from Cons.IH [OF this not len] show ?thesis
      using False by (simp add: step msgq_send_def upd_worker_commute [OF assms(1)] upd_worker_twice comp_def)
  qed
qed

lemma move_messages:
  assumes "v \<noteq> w" and "\<And>x. x \<in> set (wk_msgs (c_worker (b_core s) v)) \<Longrightarrow> \<not> wm_marker x"
  shows "xa_send_msg_to_new_priority_queue v w s = Some (on_core (\<lambda>c.
    upd_worker w (wk_msgs_update (\<lambda>q. q @ filter (wm_of (b_self s)) (wk_msgs (c_worker c v))))
      (upd_worker v (wk_msgs_update (\<lambda>_. filter (\<lambda>x. \<not> wm_of (b_self s) x) (wk_msgs (c_worker c v)))) c)) s)"
proof -
  let ?m = "\<lparr>wm_component = NULL, wm_msg = NULL\<rparr>"
  let ?q = "wk_msgs (c_worker (b_core s) v)"
  have "wk_msgs (c_worker (msgq_send v ?m (b_core s)) v) = ?q @ ?m # []"
    by (simp add: msgq_send_def upd_worker_def)
  from move_loop_splits [OF assms(1) this assms(2), of "Suc (length ?q)" "b_self s"]
  show ?thesis
    using assms(1) by (simp add: xa_send_msg_to_new_priority_queue_def Let_def on_core_def msgq_send_def upd_worker_def comp_def
          del: move_loop.simps)
qed
text \<open>Scheduling and cancelling with workers, as updates of the state.\<close>

lemma cancel_worker:
  assumes inv: "task_inv s q" and flag: "has XA_BASE_FLAG_SCHEDULE s"
  shows "\<exists>h. xa_base_cancel s = Some (on_core (c_nodes_update (\<lambda>_. h)) (s\<lparr>b_state := b_state s AND NOT XA_BASE_FLAG_SCHEDULE\<rparr>)) \<and>
    sched_rel (sched_cell s) h (spec_cancel (b_self s) q) \<and>
    (\<forall>x. x \<notin> insert (sched_cell s) (fst ` set (snd q)) \<longrightarrow> h x = c_nodes (b_core s) x)"
proof -
  have "b_self s \<in> fst ` set (snd q)" "sched_rel (sched_cell s) (c_nodes (b_core s)) q"
    using assms by (simp_all add: task_inv_def)
  then obtain h where h: "xf_sched_cancel (sched_cell s) (c_nodes (b_core s)) (b_self s) = Some (h, 0)"
    "sched_rel (sched_cell s) h (spec_cancel (b_self s) q)"
    "\<forall>x. x \<notin> insert (sched_cell s) (fst ` set (snd q)) \<longrightarrow> h x = c_nodes (b_core s) x"
    using xf_sched_cancel_refines [of "sched_cell s" "c_nodes (b_core s)" q "b_self s"] by blast
  have "xa_base_cancel s = Some (on_core (c_nodes_update (\<lambda>_. h)) (s\<lparr>b_state := b_state s AND NOT XA_BASE_FLAG_SCHEDULE\<rparr>))"
    using h(1) flag by (cases "c_n_workers (b_core s) = 0") (simp_all add: xa_base_cancel_def Let_def sched_cell_def)
  with h show ?thesis by blast
qed

lemma schedule_worker:
  assumes rel: "sched_rel (sched_cell s) (c_nodes (b_core s)) q" "spec_inv q" and self: "b_self s \<noteq> sched_cell s \<and> b_self s \<noteq> NULL"
    and n: "b_self s \<notin> fst ` set (snd q)" and dts: "unat dts < 2 ^ 63"
    and idle: "\<not> has XA_BASE_FLAG_SCHEDULE s" "\<not> has XA_BASE_FLAG_COMP_FATAL_ERROR s" "c_n_workers (b_core s) \<noteq> 0"
  shows "\<exists>h. xa_base_schedule dts s = Some (on_core (c_nodes_update (\<lambda>_. h)) (s\<lparr>b_state := b_state s OR XA_BASE_FLAG_SCHEDULE\<rparr>)) \<and>
    sched_rel (sched_cell s) h (spec_put (b_self s) dts q) \<and> spec_inv (spec_put (b_self s) dts q) \<and>
    (\<forall>x. x \<notin> insert (b_self s) (insert (sched_cell s) (fst ` set (snd q))) \<longrightarrow> h x = c_nodes (b_core s) x)"
proof -
  obtain h where h: "xf_sched_put (sched_cell s) (c_nodes (b_core s)) (b_self s) dts = Some h"
    "sched_rel (sched_cell s) h (spec_put (b_self s) dts q)" "spec_inv (spec_put (b_self s) dts q)"
    "\<forall>x. x \<notin> insert (b_self s) (insert (sched_cell s) (fst ` set (snd q))) \<longrightarrow> h x = c_nodes (b_core s) x"
    using xf_sched_put_full [OF rel n self dts] by blast
  have "xa_base_schedule dts s = Some (on_core (c_nodes_update (\<lambda>_. h)) (s\<lparr>b_state := b_state s OR XA_BASE_FLAG_SCHEDULE\<rparr>))"
    using h(1) idle by (simp add: xa_base_schedule_def Let_def sched_cell_def)
  with h show ?thesis by blast
qed

text \<open>The state after a change from worker \<open>v\<close> to \<open>w\<close>: messages, priority and task.\<close>

definition worker_moved :: "u32 \<Rightarrow> u32 \<Rightarrow> 'z base_scheme \<Rightarrow> 'z base_scheme \<Rightarrow> bool" where
  "worker_moved v w s s' \<longleftrightarrow> priority s' = w \<and>
     wk_msgs (c_worker (b_core s') v) = filter (\<lambda>x. \<not> wm_of (b_self s) x) (wk_msgs (c_worker (b_core s) v)) \<and>
     wk_msgs (c_worker (b_core s') w) = wk_msgs (c_worker (b_core s) w) @ filter (wm_of (b_self s)) (wk_msgs (c_worker (b_core s) v)) \<and>
     (\<forall>u. wk_sched (c_worker (b_core s') u) = wk_sched (c_worker (b_core s) u)) \<and>
     c_n_workers (b_core s') = c_n_workers (b_core s) \<and> b_self s' = b_self s"

text \<open>What the move does to the state between cancelling and scheduling.\<close>

definition moved :: "u32 \<Rightarrow> u32 \<Rightarrow> 'z base_scheme \<Rightarrow> 'z base_scheme" where
  "moved v w s = upd_component (co_priority_update (\<lambda>_. w)) (on_core (\<lambda>c.
     upd_worker w (wk_msgs_update (\<lambda>q. q @ filter (wm_of (b_self s)) (wk_msgs (c_worker c v))))
       (upd_worker v (wk_msgs_update (\<lambda>_. filter (\<lambda>x. \<not> wm_of (b_self s) x) (wk_msgs (c_worker c v)))) c)) s)"

lemma moved_simps [simp]:
  "priority (moved v w s) = w" "b_self (moved v w s) = b_self s" "b_state (moved v w s) = b_state s"
  "c_nodes (b_core (moved v w s)) = c_nodes (b_core s)" "c_n_workers (b_core (moved v w s)) = c_n_workers (b_core s)"
  "c_n_workers (b_core s) \<noteq> 0 \<Longrightarrow> sched_cell (moved v w s) = wk_sched (c_worker (b_core s) w)"
  by (simp_all add: moved_def upd_component_def on_core_def priority_def component_of_def upd_worker_def sched_cell_def)

lemma moved_worker: "v \<noteq> w \<Longrightarrow> worker_moved v w s (moved v w s)"
  by (simp add: worker_moved_def)
    (simp add: moved_def upd_component_def on_core_def upd_worker_def)
lemma worker_moved_on_nodes:
  "worker_moved v w s (on_core (c_nodes_update f) (s'\<lparr>b_state := x\<rparr>)) = worker_moved v w s s'"
  "worker_moved v w (on_core (c_nodes_update f) (s\<lparr>b_state := x\<rparr>)) s' = worker_moved v w s s'"
  by (simp_all add: worker_moved_def on_core_def priority_def component_of_def)

lemma setparam_priority:
  fixes s :: "'z base_scheme"
  assumes inv: "task_inv s q" and v: "priority s = v" and w: "get32 s pv + 1 = w" "w < c_n_workers (b_core s)" "v \<noteq> w"
    and msgs: "\<And>x. x \<in> set (wk_msgs (c_worker (b_core s) v)) \<Longrightarrow> \<not> wm_marker x"
    and scratch: "\<not> (has XA_BASE_FLAG_POSTINIT s \<and> b_scratch_idx s \<noteq> - 1)"
  shows "xa_component_setparam P XAF_COMP_CONFIG_PARAM_PRIORITY pv s =
    (if has XA_BASE_FLAG_SCHEDULE s
     then do { s \<leftarrow> xa_base_cancel s; s \<leftarrow> xa_base_schedule 0 (moved v w s); Some (s, 0) }
     else Some (moved v w s, 0))"
proof -
  have n: "c_n_workers (b_core s) \<noteq> 0" using w(2) by auto
  have post: "XA_BASE_FLAG_POSTINIT AND XA_BASE_FLAG_SCHEDULE = 0"
    by (simp add: XA_BASE_FLAG_POSTINIT_def XA_BASE_FLAG_SCHEDULE_def)
  have go: "do { s \<leftarrow> xa_send_msg_to_new_priority_queue v w s1;
        move_scratch P w s (\<lambda>s. let s = upd_component (co_priority_update (\<lambda>_. w)) s in k s) } = k (moved v w s1)"
    if "wk_msgs (c_worker (b_core s1) v) = wk_msgs (c_worker (b_core s) v)"
      "\<not> (has XA_BASE_FLAG_POSTINIT s1 \<and> b_scratch_idx s1 \<noteq> - 1)" for s1 and k :: "'z base_scheme \<Rightarrow> 'z base_scheme result"
    using move_messages [OF w(3), of s1] msgs that
    by (auto simp: move_scratch_def has_def on_core_def moved_def Let_def)
  show ?thesis
  proof (cases "has XA_BASE_FLAG_SCHEDULE s")
    case False
    with n w v go [of s] msgs scratch show ?thesis
      by (auto simp: xa_component_setparam_def Let_def)
  next
    case True
    obtain h where c: "xa_base_cancel s = Some (on_core (c_nodes_update (\<lambda>_. h)) (s\<lparr>b_state := b_state s AND NOT XA_BASE_FLAG_SCHEDULE\<rparr>))"
      using cancel_worker [OF inv True] by blast
    have pi: "has XA_BASE_FLAG_POSTINIT (on_core g (s\<lparr>b_state := b_state s AND NOT XA_BASE_FLAG_SCHEDULE\<rparr>)) = has XA_BASE_FLAG_POSTINIT s" for g
      using flag_other(2) [OF post, of s] by (simp add: has_def on_core_def)
    let ?s1 = "on_core (c_nodes_update (\<lambda>_. h)) (s\<lparr>b_state := b_state s AND NOT XA_BASE_FLAG_SCHEDULE\<rparr>)"
    have "wk_msgs (c_worker (b_core ?s1) v) = wk_msgs (c_worker (b_core s) v)" "b_scratch_idx ?s1 = b_scratch_idx s"
      by (simp_all add: on_core_def)
    then show ?thesis
      using True n w v go [of ?s1 "\<lambda>s. do { s \<leftarrow> xa_base_schedule 0 s; Some (s, 0) }"] scratch c pi
      by (simp add: xa_component_setparam_def Let_def)
  qed
qed
lemma moved_cancel:
  "has f (moved v w (on_core g (s\<lparr>b_state := x\<rparr>))) = has f (s\<lparr>b_state := x\<rparr>)"
  by (simp add: has_def on_core_def)

lemma setparam_moves:
  assumes inv: "task_inv s q" and v: "priority s = v" and w: "get32 s pv + 1 = w" "w < c_n_workers (b_core s)" "v \<noteq> w"
    and msgs: "\<And>x. x \<in> set (wk_msgs (c_worker (b_core s) v)) \<Longrightarrow> \<not> wm_marker x"
    and scratch: "\<not> (has XA_BASE_FLAG_POSTINIT s \<and> b_scratch_idx s \<noteq> - 1)"
    and z: "z = wk_sched (c_worker (b_core s) w)" and rel: "sched_rel z (c_nodes (b_core s)) q2" "spec_inv q2"
    and apart: "insert (sched_cell s) (fst ` set (snd q)) \<inter> insert z (fst ` set (snd q2)) = {}"
    and self: "b_self s \<notin> insert z (fst ` set (snd q2))"
  shows "\<exists>s'. xa_component_setparam P XAF_COMP_CONFIG_PARAM_PRIORITY pv s = Some (s', 0) \<and> worker_moved v w s s' \<and>
    sched_rel (sched_cell s) (c_nodes (b_core s')) (spec_cancel (b_self s) q) \<and>
    task_inv s' (if has XA_BASE_FLAG_SCHEDULE s \<and> \<not> has XA_BASE_FLAG_COMP_FATAL_ERROR s
                 then spec_put (b_self s) 0 q2 else q2)"
proof -
  have n: "c_n_workers (b_core s) \<noteq> 0" using w(2) by auto
  note setparam = setparam_priority [OF inv v w msgs scratch, of P]
  have self': "b_self s \<noteq> NULL" "b_self s \<noteq> sched_cell s" using inv by (simp_all add: task_inv_def)
  show ?thesis
  proof (cases "has XA_BASE_FLAG_SCHEDULE s")
    case False
    moreover have "b_self s \<notin> fst ` set (snd q)" using False inv by (simp add: task_inv_def)
    ultimately show ?thesis
      using setparam moved_worker [OF w(3), of s] inv rel self n z self'
      by (simp add: task_inv_def spec_cancel_id) (simp add: has_def)
  next
    case True
    obtain h where h: "xa_base_cancel s = Some (on_core (c_nodes_update (\<lambda>_. h)) (s\<lparr>b_state := b_state s AND NOT XA_BASE_FLAG_SCHEDULE\<rparr>))"
      "sched_rel (sched_cell s) h (spec_cancel (b_self s) q)"
      "\<And>x. x \<notin> insert (sched_cell s) (fst ` set (snd q)) \<Longrightarrow> h x = c_nodes (b_core s) x"
      using cancel_worker [OF inv True] by blast
    have rel': "sched_rel z h q2"
      by (rule sched_rel_cong [OF rel(1)]) (use h(3) apart in blast)
    define s1 where "s1 = on_core (c_nodes_update (\<lambda>_. h)) (s\<lparr>b_state := b_state s AND NOT XA_BASE_FLAG_SCHEDULE\<rparr>)"
    define s2 where "s2 = moved v w s1"
    have s1: "b_self s1 = b_self s" "c_n_workers (b_core s1) = c_n_workers (b_core s)"
      "c_worker (b_core s1) = c_worker (b_core s)" "c_nodes (b_core s1) = h"
      by (simp_all add: s1_def on_core_def)
    have s2: "b_self s2 = b_self s" "sched_cell s2 = z" "c_nodes (b_core s2) = h" "c_n_workers (b_core s2) \<noteq> 0"
      using n z s1 by (simp_all add: s2_def)
    have flags: "\<not> has XA_BASE_FLAG_SCHEDULE s2" "has XA_BASE_FLAG_COMP_FATAL_ERROR s2 = has XA_BASE_FLAG_COMP_FATAL_ERROR s"
      by (simp_all add: s2_def s1_def moved_cancel flag_clear flag_other)
    have mv: "worker_moved v w s s2"
      using moved_worker [OF w(3), of s1] by (simp add: s2_def s1_def worker_moved_on_nodes)
    have run: "xa_component_setparam P XAF_COMP_CONFIG_PARAM_PRIORITY pv s =
        do { s' \<leftarrow> xa_base_schedule 0 s2; Some (s', 0) }"
      using setparam True h(1) by (simp add: s1_def s2_def)
    show ?thesis
    proof (cases "has XA_BASE_FLAG_COMP_FATAL_ERROR s")
      case fatal: True
      then have "xa_base_schedule 0 s2 = Some s2" using flags by (simp add: xa_base_schedule_def)
      then show ?thesis
        using run mv h(2) s2 rel' rel(2) self self' flags fatal by (simp add: task_inv_def)
    next
      case False
      obtain h' where h': "xa_base_schedule 0 s2 = Some (on_core (c_nodes_update (\<lambda>_. h')) (s2\<lparr>b_state := b_state s2 OR XA_BASE_FLAG_SCHEDULE\<rparr>))"
        "sched_rel z h' (spec_put (b_self s) 0 q2)" "spec_inv (spec_put (b_self s) 0 q2)"
        "\<And>x. x \<notin> insert (b_self s) (insert z (fst ` set (snd q2))) \<Longrightarrow> h' x = h x"
        using schedule_worker [of s2 q2 0] s2 rel' rel(2) self self' flags False by auto
      let ?s3 = "on_core (c_nodes_update (\<lambda>_. h')) (s2\<lparr>b_state := b_state s2 OR XA_BASE_FLAG_SCHEDULE\<rparr>)"
      have mem: "b_self s \<notin> fst ` set (snd (spec_cancel (b_self s) q))" by (rule spec_cancel_mem)
      have sub: "fst ` set (snd (spec_cancel (b_self s) q)) \<subseteq> fst ` set (snd q)"
        by (cases q) (auto simp: spec_cancel_def)
      have "h' x = h x" if "x \<in> insert (sched_cell s) (fst ` set (snd (spec_cancel (b_self s) q)))" for x
      proof -
        have "x \<noteq> b_self s" "x \<in> insert (sched_cell s) (fst ` set (snd q))"
          using that mem sub self'(2) by blast+
        with apart have "x \<notin> insert (b_self s) (insert z (fst ` set (snd q2)))" by blast
        then show ?thesis by (rule h'(4))
      qed
      from sched_rel_cong [OF h(2) this] have "sched_rel (sched_cell s) h' (spec_cancel (b_self s) q)" .
      moreover have "task_inv ?s3 (spec_put (b_self s) 0 q2)"
        using h'(2,3) s2 self self' spec_put_mem [of "b_self s" 0 q2]
        by (simp add: task_inv_def on_core_def sched_cell_def priority_def component_of_def)
          (simp add: has_def bit.conj_disj_distrib2 word_bw_assocs)
      moreover have "worker_moved v w s ?s3" using mv by (simp add: worker_moved_on_nodes)
      moreover have "c_nodes (b_core ?s3) = h'" by (simp add: on_core_def)
      ultimately show ?thesis
        using run h'(1) True False by simp
    qed
  qed
qed
section \<open>Properties\<close>

text \<open>A component at address 7 with two workers, whose schedulers are empty and stand at 100 and 200.\<close>

definition demo_nodes :: rb_heap where
  "demo_nodes = xf_sched_init 200 (xf_sched_init 100 (\<lambda>_. \<lparr>nd_parent = 0, nd_left = 0, nd_right = 0, nd_color = 0\<rparr>))"

definition demo_worker :: "addr \<Rightarrow> worker_msg list \<Rightarrow> worker" where
  "demo_worker z q = \<lparr>wk_core = 0, wk_stack = 0, wk_scratch = 0, wk_queue = 0, wk_msgs = q, wk_local = xf_msg_queue_init, wk_sched = z\<rparr>"

definition demo_base :: base where
  "demo_base = \<lparr>b_core = demo_core\<lparr>c_nodes := demo_nodes, c_n_workers := 2,
       c_worker := (\<lambda>w. if w = 0 then demo_worker 100 [\<lparr>wm_component = 7, wm_msg = 5\<rparr>, \<lparr>wm_component = 9, wm_msg = 6\<rparr>]
                        else demo_worker 200 [])\<rparr>,
     b_done = [], b_self = 7, b_api = \<lparr>mb_addr = 0, mb_size = 0\<rparr>, b_mem_tabs = \<lparr>mb_addr = 0, mb_size = 0\<rparr>,
     b_persist = \<lparr>mb_addr = 0, mb_size = 0\<rparr>, b_scratch = 0, b_scratch_idx = 0, b_state = 0,
     b_channel = (\<lambda>_. \<lparr>ch_next = 0, ch_pool = \<lparr>pl_p = 0, pl_head = 0, pl_n = 0\<rparr>, ch_queue = xf_msg_queue_init, ch_delete = 0,
       ch_src = 0, ch_dst = 0, ch_port_dst = 0, ch_count = 0, ch_size = 0, ch_shared = False\<rparr>),
     b_chain = 0, b_num_channels = 0, b_cb = False, b_nonfatal = 0, b_type = 0\<rparr>"

lemma demo_nodes_rel: "sched_rel 100 demo_nodes (0, [])" "sched_rel 200 demo_nodes (0, [])"
proof -
  let ?h = "\<lambda>_. \<lparr>nd_parent = 0, nd_left = 0, nd_right = 0, nd_color = 0\<rparr>"
  have "sched_rel 100 (xf_sched_init 100 ?h) (0, [])" using sched_rel_init [of 100 ?h] by simp
  then show "sched_rel 100 demo_nodes (0, [])"
    by (rule sched_rel_cong) (simp add: demo_nodes_def xf_sched_init_def rb_init_def heap_defs)
  show "sched_rel 200 demo_nodes (0, [])"
    using sched_rel_init [of 200 "xf_sched_init 100 ?h"]
    by (simp add: demo_nodes_def) (simp add: xf_sched_init_def rb_init_def heap_defs)
qed

lemma demo_base_simps:
  "priority demo_base = 0" "sched_cell demo_base = 100" "b_self demo_base = 7" "get32 demo_base 64 = 0"
  "c_n_workers (b_core demo_base) = 2" "c_nodes (b_core demo_base) = demo_nodes" "\<not> has f demo_base"
  "wk_sched (c_worker (b_core demo_base) 1) = 200"
  "wk_msgs (c_worker (b_core demo_base) 0) = [\<lparr>wm_component = 7, wm_msg = 5\<rparr>, \<lparr>wm_component = 9, wm_msg = 6\<rparr>]"
  by (simp_all add: demo_base_def demo_core_def priority_def component_of_def sched_cell_def get32_def load32_def has_def demo_worker_def)

lemma demo_task_inv: "task_inv demo_base (0, [])"
  using demo_nodes_rel by (simp add: task_inv_def demo_base_simps spec_inv_def)

text \<open>
  C13. Scheduling flag and task queue: whatever sequence of \<^verbatim>\<open>xa_base_schedule\<close> and \<^verbatim>\<open>xa_base_cancel\<close>
  a component calls, every call returns, its task stands in the queue of its worker exactly when its
  flag says so (never twice), and the queue is that of the specification, where scheduling counts only
  when the task is not waiting and no fatal error has occurred.
\<close>

theorem component_task_invariant:
  assumes "task_inv s q" and "\<And>dts. Schedule dts \<in> set xs \<Longrightarrow> unat dts < 2 ^ 63"
  shows "\<exists>s'. sched_ops xs s = Some s' \<and>
    task_inv s' (fold (spec_step (b_self s) (has XA_BASE_FLAG_COMP_FATAL_ERROR s)) xs q)"
  by (rule sched_ops_refine [OF assms])

theorem component_task_invariant_witness:
  "\<exists>s'. sched_ops [Schedule 40, Schedule 10, Cancel, Cancel, Schedule 8] demo_base = Some s' \<and> task_inv s' (0, [(7, 8)])"
proof -
  have "\<exists>s'. sched_ops [Schedule 40, Schedule 10, Cancel, Cancel, Schedule 8] demo_base = Some s' \<and>
    task_inv s' (fold (spec_step (b_self demo_base) (has XA_BASE_FLAG_COMP_FATAL_ERROR demo_base))
      [Schedule 40, Schedule 10, Cancel, Cancel, Schedule 8] (0, []))"
    by (rule component_task_invariant [OF demo_task_inv]) auto
  then show ?thesis by (simp add: demo_base_simps spec_put_def spec_cancel_def)
qed

text \<open>
  C14. Change of priority: the command returns; the messages of the component move from the queue of
  its worker to that of the new one in order, the others stay in order; the task leaves the old
  scheduler, and is in the new one exactly when it was waiting before, unless a fatal error occurred.
  (The scratch memory of the component needs no change here.)
\<close>

theorem priority_change_moves:
  assumes "task_inv s q" and "priority s = v" and "get32 s pv + 1 = w" and "w < c_n_workers (b_core s)" and "v \<noteq> w"
    and "\<And>x. x \<in> set (wk_msgs (c_worker (b_core s) v)) \<Longrightarrow> \<not> wm_marker x"
    and "\<not> (has XA_BASE_FLAG_POSTINIT s \<and> b_scratch_idx s \<noteq> - 1)"
    and "z = wk_sched (c_worker (b_core s) w)" and "sched_rel z (c_nodes (b_core s)) q2" and "spec_inv q2"
    and "insert (sched_cell s) (fst ` set (snd q)) \<inter> insert z (fst ` set (snd q2)) = {}"
    and "b_self s \<notin> insert z (fst ` set (snd q2))"
  shows "\<exists>s'. xa_component_setparam P XAF_COMP_CONFIG_PARAM_PRIORITY pv s = Some (s', 0) \<and> worker_moved v w s s' \<and>
    sched_rel (sched_cell s) (c_nodes (b_core s')) (spec_cancel (b_self s) q) \<and>
    task_inv s' (if has XA_BASE_FLAG_SCHEDULE s \<and> \<not> has XA_BASE_FLAG_COMP_FATAL_ERROR s
                 then spec_put (b_self s) 0 q2 else q2)"
  by (rule setparam_moves [OF assms])

theorem priority_change_moves_witness:
  "\<exists>s'. xa_component_setparam (\<lambda>_ _ _ s. (s, 0, 0)) XAF_COMP_CONFIG_PARAM_PRIORITY 64 demo_base = Some (s', 0) \<and>
    worker_moved 0 1 demo_base s' \<and>
    sched_rel (sched_cell demo_base) (c_nodes (b_core s')) (spec_cancel (b_self demo_base) (0, [])) \<and>
    task_inv s' (if has XA_BASE_FLAG_SCHEDULE demo_base \<and> \<not> has XA_BASE_FLAG_COMP_FATAL_ERROR demo_base
                 then spec_put (b_self demo_base) 0 (0, []) else (0, []))"
  by (rule priority_change_moves [OF demo_task_inv, where z = 200])
    (use demo_nodes_rel in \<open>auto simp: demo_base_simps wm_marker_def spec_inv_def\<close>)

end
