(* ===== verification/Class_Stages.thy ===== *)
theory Class_Stages
  imports Audio_Codec
begin

text \<open>
  The stages of a component (\<^verbatim>\<open>xa-class-base.c\<close>): the bits of the state that say how far it is, and
  what every operation of the base class does to them. \<open>at_phase\<close> and \<open>may_step\<close> judge the result of
  a call; the collection \<open>stage\<close> holds one rule for each construct and call, so that the proof for
  an operation is \<open>intro stage\<close> and simplification.
\<close>

section \<open>The stages of a component\<close>

text \<open>
  The first four bits of the state say in which stage a component is: new, set up and waiting for the
  initialisation of its plug-in, executing, or at the end of its stream.
\<close>

definition phase :: "'z base_scheme \<Rightarrow> u32" where
  "phase s = b_state s AND 15"

definition ph_init :: u32 where "ph_init = XA_BASE_FLAG_POSTINIT OR XA_BASE_FLAG_RUNTIME_INIT"
definition ph_exec :: u32 where "ph_exec = XA_BASE_FLAG_POSTINIT OR XA_BASE_FLAG_EXECUTION"
definition ph_done :: u32 where "ph_done = XA_BASE_FLAG_POSTINIT OR XA_BASE_FLAG_COMPLETED"

inductive phase_step :: "u32 \<Rightarrow> u32 \<Rightarrow> bool" where
  set_up: "phase_step 0 ph_init"
| started: "phase_step ph_init ph_exec"
| ended: "phase_step ph_exec ph_done"
| restarted: "phase_step ph_done ph_exec"

lemmas flag_defs = XA_BASE_FLAG_POSTINIT_def XA_BASE_FLAG_RUNTIME_INIT_def XA_BASE_FLAG_EXECUTION_def
  XA_BASE_FLAG_COMPLETED_def XA_BASE_FLAG_SCHEDULE_def XA_BASE_FLAG_COMP_FATAL_ERROR_def XA_BASE_FLAG_def
  XA_CODEC_FLAG_INPUT_SETUP_def XA_CODEC_FLAG_OUTPUT_SETUP_def XA_CODEC_FLAG_PROBE_SETUP_def XA_CODEC_FLAG_EOS_SEQ_DONE_def

lemmas phases = ph_init_def ph_exec_def ph_done_def

definition staged :: "'z base_scheme \<Rightarrow> bool" where
  "staged s \<longleftrightarrow> phase s \<in> {0, ph_init, ph_exec, ph_done}"

inductive_simps phase_step_from [simp]: "phase_step 0 p" "phase_step ph_init p" "phase_step ph_exec p" "phase_step ph_done p"

lemma has_phase:
  "f AND 15 = f \<Longrightarrow> has f s \<longleftrightarrow> phase s AND f \<noteq> 0"
  by (metis (no_types, opaque_lifting) and.assoc and.commute has_def phase_def)

subsection \<open>What keeps the stage\<close>

lemma phase_cong: "b_state s' = b_state s \<Longrightarrow> phase s' = phase s"
  by (simp add: phase_def)

lemma phase_bits:
  fixes f k :: u32
  assumes "f AND k = 0"
  shows "(x OR f) AND k = x AND k" "(x XOR f) AND k = x AND k" "(x AND NOT f) AND k = x AND k"
proof -
  have f: "bit f n \<Longrightarrow> \<not> bit k n" for n
    using assms by (metis bit_and_iff bit_0_eq bot_apply bot_bool_def)
  show "(x OR f) AND k = x AND k" "(x XOR f) AND k = x AND k" "(x AND NOT f) AND k = x AND k"
    by (rule bit_word_eqI, use f in \<open>auto simp: bit_simps\<close>)+
qed

lemma phase_simps [simp]:
  "phase (on_core f s) = phase s" "phase (on_io g s) = phase s" "phase (put32 a v s) = phase s" "phase (s\<lparr>b_core := c\<rparr>) = phase s"
  "phase (s\<lparr>b_done := d\<rparr>) = phase s" "phase (upd_component h s) = phase s" "phase (upd_channel p k s) = phase s"
  "phase (count_down p s) = phase s" "phase (s\<lparr>b_scratch := a\<rparr>) = phase s" "phase (s\<lparr>b_scratch_idx := i\<rparr>) = phase s"
  "phase (s\<lparr>b_num_channels := i\<rparr>) = phase s" "phase (s\<lparr>b_chain := p\<rparr>) = phase s" "phase (s\<lparr>b_nonfatal := i\<rparr>) = phase s"
  "phase (s\<lparr>b_cb := b\<rparr>) = phase s" "phase (s\<lparr>b_persist := buf\<rparr>) = phase s" "phase (s\<lparr>b_api := buf\<rparr>) = phase s"
  "phase (s\<lparr>b_mem_tabs := buf\<rparr>) = phase s" "phase (note_error m e s) = phase s" "phase (unlink_channel l p s) = phase s"
  by (simp_all add: phase_def on_core_def on_io_def with_io_def put32_def upd_component_def upd_channel_def count_down_def
      note_error_def unlink_channel_def split: option.splits)

lemma phase_flag [simp]:
  "phase (s\<lparr>b_state := b_state s OR XA_BASE_FLAG_SCHEDULE\<rparr>) = phase s"
  "phase (s\<lparr>b_state := b_state s AND NOT XA_BASE_FLAG_SCHEDULE\<rparr>) = phase s"
  "phase (s\<lparr>b_state := b_state s OR XA_BASE_FLAG_COMP_FATAL_ERROR\<rparr>) = phase s"
  by (simp_all add: phase_def flag_defs bit.conj_disj_distrib2 and.assoc)

lemma schedule_phase: "xa_base_schedule d s = Some s' \<Longrightarrow> phase s' = phase s"
  by (auto simp: xa_base_schedule_def xf_component_schedule_def Let_def bind_eq_Some_conv split: if_splits)

lemma cancel_phase: "xa_base_cancel s = Some s' \<Longrightarrow> phase s' = phase s"
  by (auto simp: xa_base_cancel_def Let_def bind_eq_Some_conv split: if_splits)

lemma mem_phase:
  "mem_alloc n al t s = Some (s', p) \<Longrightarrow> phase s' = phase s" "mem_free q n t s = Some s' \<Longrightarrow> phase s' = phase s"
  by (auto simp: mem_alloc_def mem_free_def bind_eq_Some_conv)

text \<open>Results in which every state has the stage given, and the calls that keep it.\<close>

definition at_phase :: "u32 \<Rightarrow> ('z base_scheme \<times> 'b) option \<Rightarrow> bool" where
  "at_phase p r \<longleftrightarrow> (case r of None \<Rightarrow> True | Some (s, e) \<Rightarrow> phase s = p)"

definition at_phase' :: "u32 \<Rightarrow> 'z base_scheme option \<Rightarrow> bool" where
  "at_phase' p r \<longleftrightarrow> (case r of None \<Rightarrow> True | Some s \<Rightarrow> phase s = p)"

definition keeps_phase :: "'z base_scheme plugin \<Rightarrow> bool" where
  "keeps_phase P \<longleftrightarrow> (\<forall>cmd idx pv s. phase (fst (P cmd idx pv s)) = phase s)"

named_theorems stage

lemma at_phase_iff [simp]:
  "at_phase p (Some (s, e)) \<longleftrightarrow> phase s = p" "at_phase p None" "at_phase' p (Some s) \<longleftrightarrow> phase s = p" "at_phase' p None"
  by (simp_all add: at_phase_def at_phase'_def)

lemma at_phase_prod [stage]:
  "(\<And>a b. x = (a, b) \<Longrightarrow> at_phase p (f a b)) \<Longrightarrow> at_phase p (case x of (a, b) \<Rightarrow> f a b)"
  "(\<And>a b. x = (a, b) \<Longrightarrow> at_phase' p (g a b)) \<Longrightarrow> at_phase' p (case x of (a, b) \<Rightarrow> g a b)"
  by (simp_all split: prod.splits)

lemma at_phase_intros [stage]:
  "phase s = p \<Longrightarrow> at_phase p (Some (s, e))" "at_phase p None" "phase s = p \<Longrightarrow> at_phase' p (Some s)" "at_phase' p None"
  "(c \<Longrightarrow> at_phase p r1) \<Longrightarrow> (\<not> c \<Longrightarrow> at_phase p r2) \<Longrightarrow> at_phase p (if c then r1 else r2)"
  "(c \<Longrightarrow> at_phase' p t1) \<Longrightarrow> (\<not> c \<Longrightarrow> at_phase' p t2) \<Longrightarrow> at_phase' p (if c then t1 else t2)"
  by (simp_all add: at_phase_def at_phase'_def)

lemma at_phase_bind [stage]:
  "at_phase p r \<Longrightarrow> (\<And>s e. phase s = p \<Longrightarrow> at_phase p (f (s, e))) \<Longrightarrow> at_phase p (Option.bind r f)"
  by (cases r) auto

lemma at_phase_bind' [stage]:
  "at_phase' p t \<Longrightarrow> (\<And>s. phase s = p \<Longrightarrow> at_phase p (g s)) \<Longrightarrow> at_phase p (Option.bind t g)"
  by (cases t) auto

lemma at_phase'_bind [stage]:
  "at_phase' p t \<Longrightarrow> (\<And>s. phase s = p \<Longrightarrow> at_phase' p (g s)) \<Longrightarrow> at_phase' p (Option.bind t g)"
  by (cases t) auto

lemma at_phase'_bind' [stage]:
  "at_phase p r \<Longrightarrow> (\<And>s e. phase s = p \<Longrightarrow> at_phase' p (f (s, e))) \<Longrightarrow> at_phase' p (Option.bind r f)"
  by (cases r) auto

lemma at_phase_free [stage]:
  "(\<And>x. at_phase p (f x)) \<Longrightarrow> at_phase p (Option.bind a f)" "(\<And>x. at_phase' p (g x)) \<Longrightarrow> at_phase' p (Option.bind b g)"
  for a b :: "'a option"
  by (cases a; cases b; simp add: at_phase_intros)+

lemma at_phase_API [stage]:
  assumes "keeps_phase P" and "\<And>s' e v. phase s' = phase s \<Longrightarrow> at_phase q (k s' e v)" and "phase s = q"
  shows "at_phase q (XA_API P cmd idx pv s k)"
proof -
  obtain s' e v where P: "P cmd idx pv s = (s', e, v)" by (cases "P cmd idx pv s")
  have "phase s' = phase s" using assms(1) [unfolded keeps_phase_def, rule_format, of cmd idx pv s] P by simp
  then show ?thesis using P assms(2) [of s' e v] assms(3) by (simp add: XA_API_def at_phase_intros)
qed

lemma at_phase_CODEC [stage]:
  "at_phase q (f s) \<Longrightarrow> (\<And>s' e. phase s' = q \<Longrightarrow> at_phase q (k s' e)) \<Longrightarrow> at_phase q (CODEC_API f s k)"
  unfolding CODEC_API_def by (erule at_phase_bind) (simp add: at_phase_intros)

lemma phase_calls [stage]:
  "phase s = p \<Longrightarrow> at_phase' p (xa_base_schedule d s)" "phase s = p \<Longrightarrow> at_phase' p (xa_base_cancel s)"
  "phase s = p \<Longrightarrow> at_phase p (mem_alloc n al t s)" "phase s = p \<Longrightarrow> at_phase' p (mem_free q n t s)"
  by (auto simp: at_phase_def at_phase'_def schedule_phase cancel_phase mem_phase split: option.splits)

subsection \<open>The base class\<close>

lemma event_answer_phase [simp]: "phase (event_answer p m s) = phase s"
  by (simp add: event_answer_def)

lemma event_take_phase: "event_take p s = (s', m) \<Longrightarrow> phase s' = phase s"
  by (auto simp: event_take_def Let_def split: prod.splits)

lemma event_loop_phase [stage]: "keeps_phase P \<Longrightarrow> phase s = q \<Longrightarrow> at_phase q (event_loop P n i e p found s)"
proof (induction n arbitrary: p found s)
  case 0
  then show ?case by (simp add: at_phase_intros)
next
  case (Suc n)
  show ?case
    unfolding event_loop.simps Let_def
    by (intro stage Suc.IH Suc.prems(1); use Suc.prems(2) in \<open>auto dest: event_take_phase\<close>)
qed

lemma event_phase [stage]:
  assumes "keeps_phase P"
  shows "phase s = q \<Longrightarrow> at_phase q (xa_base_event_handler P i e s)" "phase s = q \<Longrightarrow> at_phase q (xa_base_error_handler P e s)"
  using assms by (simp_all add: xa_base_event_handler_def xa_base_error_handler_def stage)

lemma channel_phase [stage]:
  "phase s = q \<Longrightarrow> at_phase q (channel_pool_init p n s)" "phase s = q \<Longrightarrow> at_phase' q (channel_pool_destroy p s)"
  unfolding channel_pool_init_def channel_pool_destroy_def Let_def by (intro stage; simp)+

lemma link_new_channel_phase [simp]: "phase (link_new_channel p m s) = phase s"
  by (simp add: link_new_channel_def Let_def)

lemma channel_buffers_phase [stage]: "phase s = q \<Longrightarrow> at_phase q (channel_buffers xs i al p s)"
proof (induction xs arbitrary: s)
  case (Cons x xs)
  then show ?case unfolding channel_buffers.simps Let_def by (intro stage Cons.IH; simp)
qed simp

lemma channel_free_buffers_phase [stage]: "phase s = q \<Longrightarrow> at_phase' q (channel_free_buffers xs p s)"
proof (induction xs arbitrary: s)
  case (Cons x xs)
  then show ?case unfolding channel_free_buffers.simps Let_def by (intro stage Cons.IH; simp)
qed simp

lemma at_phase_option [stage]:
  "(x = None \<Longrightarrow> at_phase p r) \<Longrightarrow> (\<And>a. x = Some a \<Longrightarrow> at_phase p (f a)) \<Longrightarrow> at_phase p (case x of None \<Rightarrow> r | Some a \<Rightarrow> f a)"
  by (cases x) simp_all

lemma create_channel_phase [stage]: "phase s = q \<Longrightarrow> at_phase q (xa_base_create_event_channel m s)"
  unfolding xa_base_create_event_channel_def Let_def by (intro stage; simp)

lemma event_return_phase [stage]: "phase s = q \<Longrightarrow> at_phase' q (event_return p m s)"
  unfolding event_return_def Let_def by (intro stage; simp)

lemma channel_destroy_phase [stage]: "phase s = q \<Longrightarrow> at_phase' q (channel_destroy l p s)"
  unfolding channel_destroy_def Let_def by (intro stage; simp)

lemma event_drain_keeps: "event_drain p s = Some s' \<Longrightarrow> phase s' = phase s"
proof (erule event_drain.raw_induct [rotated], goal_cases)
  case step: (1 drain p s s')
  obtain s1 m where t: "event_take p s = (s1, m)" by fastforce
  show ?case
  proof (cases "m = NULL")
    case True
    then show ?thesis using step(2) t by (simp add: event_take_phase)
  next
    case False
    then obtain s2 where r: "event_return p m s1 = Some s2" "drain p (count_down p s2) = Some s'"
      using step(2) t by (auto simp: bind_eq_Some_conv)
    have "phase s2 = phase s1" using event_return_phase [of s1 "phase s1" p m] r(1) by simp
    then show ?thesis using step(1) [OF r(2)] event_take_phase [OF t] by simp
  qed
qed

lemma event_drain_phase [stage]: "phase s = q \<Longrightarrow> at_phase' q (event_drain p s)"
  by (cases "event_drain p s") (auto simp: at_phase'_def dest: event_drain_keeps)

lemma delete_channel_phase [stage]: "phase s = q \<Longrightarrow> at_phase q (xa_base_delete_event_channel m s)"
  unfolding xa_base_delete_event_channel_def Let_def by (intro stage; simp)

lemma process_event_phase [stage]: "keeps_phase P \<Longrightarrow> phase s = q \<Longrightarrow> at_phase q (xa_base_process_event P m s)"
  unfolding xa_base_process_event_def event_back_def Let_def by (intro stage; simp)

lemma scratch_phase [stage]: "phase s = q \<Longrightarrow> at_phase q (xf_scratch_mem_alloc prio s)"
  unfolding xf_scratch_mem_alloc_def xf_scratch_mem_init_def Let_def by (intro stage; simp)

lemma XMALLOC_phase [stage]:
  "phase s = q \<Longrightarrow> (\<And>b s. phase (upd b s) = phase s) \<Longrightarrow> (\<And>s. phase s = q \<Longrightarrow> at_phase q (k s)) \<Longrightarrow> at_phase q (XMALLOC b upd sz al t s k)"
  unfolding XMALLOC_def Let_def by (intro stage; simp)

lemma send_msgs_phase [stage]: "phase s = q \<Longrightarrow> at_phase' q (xa_send_msg_to_new_priority_queue v w s)"
  unfolding xa_send_msg_to_new_priority_queue_def Let_def by (intro stage; simp)

lemma setparam_phase [stage]: "keeps_phase P \<Longrightarrow> phase s = q \<Longrightarrow> at_phase q (xa_component_setparam P i pv s)"
  unfolding xa_component_setparam_def move_scratch_def Let_def by (intro stage; simp)

text \<open>Methods of a class that keep the stage.\<close>

definition methods_keep :: "'z base_scheme klass \<Rightarrow> bool" where
  "methods_keep K \<longleftrightarrow> keeps_phase (k_process K) \<and> (\<forall>i t sz al s. at_phase (phase s) (k_memtab K i t sz al s)) \<and>
     (\<forall>s. at_phase (phase s) (k_preprocess K s)) \<and> (\<forall>d s. at_phase (phase s) (k_postprocess K d s)) \<and>
     (\<forall>f i pv s. k_setparam K = Some f \<longrightarrow> at_phase (phase s) (f i pv s)) \<and>
     (\<forall>f i pv s. k_getparam K = Some f \<longrightarrow> at_phase (phase s) (f i pv s))"

lemma methods_keepD [stage]:
  "methods_keep K \<Longrightarrow> phase s = q \<Longrightarrow> at_phase q (k_memtab K i t sz al s)"
  "methods_keep K \<Longrightarrow> phase s = q \<Longrightarrow> at_phase q (k_preprocess K s)"
  "methods_keep K \<Longrightarrow> phase s = q \<Longrightarrow> at_phase q (k_postprocess K d s)"
  "methods_keep K \<Longrightarrow> keeps_phase (k_process K)"
  by (auto simp: methods_keep_def)

lemma plug_param_phase [stage]:
  assumes "methods_keep K" and "phase s = q" and "\<And>s e. phase s = q \<Longrightarrow> at_phase q (k s e)"
  shows "at_phase q (plug_setparam K i pv s k)" "at_phase q (plug_getparam K i pv s k)"
  using assms unfolding plug_setparam_def plug_getparam_def
  by (auto simp: methods_keep_def intro!: stage split: option.split)

lemma postinit_table_phase [stage]:
  "methods_keep K \<Longrightarrow> phase s = q \<Longrightarrow> (\<And>s. phase s = q \<Longrightarrow> at_phase q (k s)) \<Longrightarrow> at_phase q (postinit_table K i s k)"
  unfolding postinit_table_def Let_def by (intro stage; simp)

lemma postinit_tables_phase [stage]: "methods_keep K \<Longrightarrow> phase s = q \<Longrightarrow> at_phase q (postinit_tables K js s)"
proof (induction js arbitrary: s)
  case (Cons i js)
  then show ?case unfolding postinit_tables.simps by (intro stage Cons.IH; simp)
qed simp

lemma postinit_phase [stage]: "methods_keep K \<Longrightarrow> phase s = q \<Longrightarrow> at_phase q (xa_base_postinit K s)"
  unfolding xa_base_postinit_def by (intro stage; simp)

lemma get_items_phase [stage]:
  "methods_keep K \<Longrightarrow> phase s = q \<Longrightarrow> (\<And>s. phase s = q \<Longrightarrow> at_phase q (k s)) \<Longrightarrow> at_phase q (get_items K m b js s k)"
proof (induction js arbitrary: s)
  case (Cons i js)
  then show ?case unfolding get_items.simps by (intro stage Cons.IH; simp)
qed simp

lemma get_param_phase [stage]: "methods_keep K \<Longrightarrow> phase s = q \<Longrightarrow> at_phase q (xa_base_get_param K m s)"
  unfolding xa_base_get_param_def Let_def by (intro stage; simp)

lemma set_ext_loop_phase: "methods_keep K \<Longrightarrow> phase s = q \<Longrightarrow> at_phase q (set_ext_loop n K m cmd r s)"
proof (induction n arbitrary: cmd r s)
  case (Suc n)
  then show ?case unfolding set_ext_loop.simps Let_def by (intro stage Suc.IH; simp)
qed simp

lemma get_ext_loop_phase: "methods_keep K \<Longrightarrow> phase s = q \<Longrightarrow> at_phase q (get_ext_loop n K m l cmd r s)"
proof (induction n arbitrary: cmd r s)
  case (Suc n)
  then show ?case unfolding get_ext_loop.simps Let_def by (intro stage Suc.IH; simp)
qed simp

lemma ext_params_phase [stage]:
  assumes "methods_keep K" "phase s = q"
  shows "at_phase q (xa_base_set_param_ext K m s)" "at_phase q (xa_base_get_param_ext K m s)"
  unfolding xa_base_set_param_ext_def xa_base_get_param_ext_def Let_def
  by (rule set_ext_loop_phase get_ext_loop_phase; rule assms)+

subsection \<open>What ends a stage\<close>

lemma keeps_phaseD: "keeps_phase P \<Longrightarrow> P c i pv s = (s', e, v) \<Longrightarrow> phase s' = phase s"
  by (metis fst_conv keeps_phase_def)

definition may_step :: "u32 \<Rightarrow> ('z base_scheme \<times> 'b) option \<Rightarrow> bool" where
  "may_step q r \<longleftrightarrow> (case r of None \<Rightarrow> True | Some (s, e) \<Rightarrow> phase s = q \<or> phase_step q (phase s))"

lemma may_step_iff [simp]: "may_step q (Some (s, e)) \<longleftrightarrow> phase s = q \<or> phase_step q (phase s)" "may_step q None"
  by (simp_all add: may_step_def)

lemma may_step_at: "at_phase q r \<Longrightarrow> may_step q r" "phase_step q p \<Longrightarrow> at_phase p r \<Longrightarrow> may_step q r"
  by (auto simp: may_step_def at_phase_def split: option.splits)

lemma may_step_leaf: "phase s = q \<Longrightarrow> may_step q (Some (s, e))"
  by simp

lemma may_step_intros [stage]:
  "may_step q None"
  "(c \<Longrightarrow> may_step q r1) \<Longrightarrow> (\<not> c \<Longrightarrow> may_step q r2) \<Longrightarrow> may_step q (if c then r1 else r2)"
  "(\<And>a b. x = (a, b) \<Longrightarrow> may_step q (f a b)) \<Longrightarrow> may_step q (case x of (a, b) \<Rightarrow> f a b)"
  by (simp_all split: prod.splits)

lemma may_step_bind [stage]:
  "at_phase q r \<Longrightarrow> (\<And>s e. phase s = q \<Longrightarrow> may_step q (f (s, e))) \<Longrightarrow> may_step q (Option.bind r f)"
  by (cases r) auto

lemma may_step_bind' [stage]:
  "at_phase' q t \<Longrightarrow> (\<And>s. phase s = q \<Longrightarrow> may_step q (g s)) \<Longrightarrow> may_step q (Option.bind t g)"
  by (cases t) auto

lemma may_step_API [stage]:
  assumes "keeps_phase P" and "\<And>s' e v. phase s' = phase s \<Longrightarrow> may_step q (k s' e v)" and "phase s = q"
  shows "may_step q (XA_API P cmd idx pv s k)"
proof -
  obtain s' e v where P: "P cmd idx pv s = (s', e, v)" by (cases "P cmd idx pv s")
  have "phase s' = phase s" using assms(1) [unfolded keeps_phase_def, rule_format, of cmd idx pv s] P by simp
  then show ?thesis using P assms(2) [of s' e v] assms(3) by (simp add: XA_API_def)
qed

lemma may_step_CODEC [stage]:
  "at_phase q (f s) \<Longrightarrow> (\<And>s' e. phase s' = q \<Longrightarrow> may_step q (k s' e)) \<Longrightarrow> may_step q (CODEC_API f s k)"
  unfolding CODEC_API_def by (erule may_step_bind) (simp add: may_step_intros)

lemma may_step_COMP [stage]:
  assumes "keeps_phase P" and "\<And>s' v. phase s' = q \<Longrightarrow> may_step q (k s' v)" and "phase s = q"
  shows "may_step q (XA_COMP_API P cmd idx pv s k)"
proof -
  obtain s' e v where P: "P cmd idx pv s = (s', e, v)" by (cases "P cmd idx pv s")
  have "phase s' = q" using assms(1) [unfolded keeps_phase_def, rule_format, of cmd idx pv s] P assms(3) by simp
  then show ?thesis unfolding XA_COMP_API_def P prod.case by (intro stage may_step_leaf assms(1,2); simp)
qed

lemma set_items_step: 
  "methods_keep K \<Longrightarrow> phase s = q \<Longrightarrow> (\<And>s. phase s = q \<Longrightarrow> may_step q (k s)) \<Longrightarrow> may_step q (set_items K m b js e s k)"
proof (induction js arbitrary: e s)
  case (Cons i js)
  have keep: "k_setparam K = Some f \<Longrightarrow> at_phase q (f i pv s)" for f i pv
    using Cons.prems(1,2) by (auto simp: methods_keep_def)
  show ?case unfolding set_items.simps Let_def plug_setparam_def option.case_eq_if
    by (intro stage Cons.IH Cons.prems(1,3); use Cons.prems(1,2) keep in \<open>auto simp: methods_keepD(4)\<close>)
qed simp

lemma flag_step:
  "phase s = 0 \<Longrightarrow> phase (s\<lparr>b_state := b_state s XOR (XA_BASE_FLAG_POSTINIT OR XA_BASE_FLAG_RUNTIME_INIT)\<rparr>) = ph_init"
  "phase s = ph_init \<Longrightarrow> phase (s\<lparr>b_state := b_state s XOR (XA_BASE_FLAG_RUNTIME_INIT OR XA_BASE_FLAG_EXECUTION)\<rparr>) = ph_exec"
  "phase s = ph_exec \<Longrightarrow> phase (s\<lparr>b_state := b_state s XOR (XA_BASE_FLAG_EXECUTION OR XA_BASE_FLAG_COMPLETED)\<rparr>) = ph_done"
  "phase s = ph_done \<Longrightarrow> phase (s\<lparr>b_state := b_state s XOR (XA_BASE_FLAG_EXECUTION OR XA_BASE_FLAG_COMPLETED)\<rparr>) = ph_exec"
  by (simp_all add: phase_def flag_defs phases bit.conj_xor_distrib2)

lemma has_flag:
  "has XA_BASE_FLAG_POSTINIT s \<longleftrightarrow> phase s AND 1 \<noteq> 0" "has XA_BASE_FLAG_RUNTIME_INIT s \<longleftrightarrow> phase s AND 2 \<noteq> 0"
  "has XA_BASE_FLAG_EXECUTION s \<longleftrightarrow> phase s AND 4 \<noteq> 0" "has XA_BASE_FLAG_COMPLETED s \<longleftrightarrow> phase s AND 8 \<noteq> 0"
  using has_phase [of XA_BASE_FLAG_POSTINIT s] has_phase [of XA_BASE_FLAG_RUNTIME_INIT s]
    has_phase [of XA_BASE_FLAG_EXECUTION s] has_phase [of XA_BASE_FLAG_COMPLETED s] by (simp_all add: flag_defs)

lemma phases_eq: "ph_init = 3" "ph_exec = 5" "ph_done = 9"
  by (simp_all add: phases flag_defs)

lemma staged_flags:
  assumes "staged s"
  shows "\<not> has XA_BASE_FLAG_POSTINIT s \<Longrightarrow> phase s = 0" "has XA_BASE_FLAG_RUNTIME_INIT s \<Longrightarrow> phase s = ph_init"
    "\<not> has XA_BASE_FLAG_RUNTIME_INIT s \<Longrightarrow> has XA_BASE_FLAG_EXECUTION s \<Longrightarrow> phase s = ph_exec"
    "has XA_BASE_FLAG_COMPLETED s \<Longrightarrow> phase s = ph_done"
    "has XA_BASE_FLAG_POSTINIT s \<Longrightarrow> \<not> has XA_BASE_FLAG_RUNTIME_INIT s \<Longrightarrow> phase s = ph_exec \<or> phase s = ph_done"
  using assms by (auto simp: staged_def has_flag phases_eq)

lemma staged_cong: "phase s' = phase s \<Longrightarrow> staged s' \<longleftrightarrow> staged s"
  by (simp add: staged_def)

lemma set_param_step:
  fixes K :: "'z base_scheme klass"
  assumes "methods_keep K" and "staged s"
  shows "may_step (phase s) (xa_base_set_param K m s)"
proof -
  have new: "phase s = 0" if "\<not> has XA_BASE_FLAG_POSTINIT s2" "phase s2 = phase s" for s2 :: "'z base_scheme"
    using staged_flags(1) [of s2] assms(2) staged_cong that by metis
  show ?thesis
    unfolding xa_base_set_param_def Let_def
    by (cases "phase s = 0"; intro stage set_items_step assms(1); auto simp: flag_step dest: new)
qed

lemma execution_phase:
  fixes K :: "'z base_scheme klass"
  assumes "methods_keep K" and "staged s" and "phase s = q"
  shows "may_step q (execution_step (k_process K) s (\<lambda>s done. k_postprocess K done s))"
proof -
  have keep: "at_phase (phase s) (k_postprocess K d s)" for d s using assms(1) by (simp add: methods_keep_def)
  have toggled: "may_step q (k_postprocess K d (if d \<noteq> 0 then s'\<lparr>b_state := b_state s' XOR f\<rparr> else s'))"
    if "phase s' = q" "phase_step q (phase (s'\<lparr>b_state := b_state s' XOR f\<rparr>))" for d s' f
  proof (cases "d = 0")
    case True
    then show ?thesis using may_step_at(1) [OF keep [of s' d]] that(1) by simp
  next
    case False
    then show ?thesis using may_step_at(2) [OF that(2) keep] by simp
  qed
  show ?thesis
    unfolding execution_step_def
  proof (intro stage methods_keepD(4) [OF assms(1)] assms(3))
    assume "has XA_BASE_FLAG_RUNTIME_INIT s"
    then have q: "q = ph_init" using staged_flags(2) [OF assms(2)] assms(3) by simp
    fix s' :: "'z base_scheme" and v assume "phase s' = q"
    then show "may_step q (k_postprocess K v (if v \<noteq> 0 then s'\<lparr>b_state := b_state s' XOR (XA_BASE_FLAG_RUNTIME_INIT OR XA_BASE_FLAG_EXECUTION)\<rparr> else s'))"
      using q by (intro toggled) (simp_all add: flag_step)
  next
    assume "\<not> has XA_BASE_FLAG_RUNTIME_INIT s" "has XA_BASE_FLAG_EXECUTION s"
    then have q: "q = ph_exec" using staged_flags(3) [OF assms(2)] assms(3) by simp
    fix s' :: "'z base_scheme" and v assume "phase s' = q"
    then show "may_step q (k_postprocess K v (if v \<noteq> 0 then s'\<lparr>b_state := b_state s' XOR (XA_BASE_FLAG_EXECUTION OR XA_BASE_FLAG_COMPLETED)\<rparr> else s'))"
      using q by (intro toggled) (simp_all add: flag_step)
  next
    show "may_step q (k_postprocess K 0 s)" using may_step_at(1) [OF keep [of s 0]] assms(3) by simp
  qed (simp_all add: assms)
qed

lemma process_step:
  assumes "methods_keep K" and "staged s"
  shows "may_step (phase s) (xa_base_process K s)"
  unfolding xa_base_process_def Let_def
  by (intro stage execution_phase assms(1); use assms(2) in \<open>simp add: staged_def\<close>)

lemma command_step:
  fixes K :: "'z base_scheme klass"
  assumes "methods_keep K" and "staged s"
    and "\<And>f. m \<noteq> NULL \<Longrightarrow> k_command K (XF_OPCODE_TYPE (m_opcode (msg s m))) = Some f \<Longrightarrow> may_step (phase s) (f m s)"
  shows "may_step (phase s) (xa_base_command K m s)"
proof -
  have bind: "may_step q r \<Longrightarrow> may_step q (Option.bind r (\<lambda>(s, e). Some (s, h e)))" for q h and r :: "'z base_scheme result"
    by (cases r) auto
  have noret: "phase a = q" if "XA_API_NORET (k_process K) c i pv x = (a, b)" "phase x = q" for a b c i pv x q
    using that methods_keepD(4) [OF assms(1)] by (auto simp: XA_API_NORET_def dest: keeps_phaseD split: prod.splits)
  have created: "may_step (phase s) (Option.bind r (\<lambda>(s, e). Some (if e < 0 then on_io g s else s, 0)))"
    if "at_phase (phase s) r" for g and r :: "'z base_scheme result"
    using that by (cases r) auto
  have removed: "may_step (phase s) (let (s, _) = XA_API_NORET (k_process K) XA_API_CMD_DEINIT 0 (Ptr NULL) s;
          s = (if b_cb s
               then let (s, _) = XA_API_NORET (k_process K) XA_API_CMD_SET_CONFIG_PARAM XAF_COMP_CONFIG_PARAM_EVENT_CB (Ptr NULL) s
                    in s\<lparr>b_cb := False\<rparr>
               else s)
      in Some (s, XAF_UNREGISTER))"
    by (auto simp: Let_def may_step_def dest!: noret [OF _ refl] split: prod.split)
  note answered = created [OF create_channel_phase [OF refl]] created [OF delete_channel_phase [OF refl]]
    may_step_at(1) [OF process_event_phase [OF methods_keepD(4) [OF assms(1)] refl]]
  show ?thesis
  proof (cases "m = NULL")
    case True
    then show ?thesis unfolding xa_base_command_def by (simp add: bind process_step assms(1,2))
  next
    case False
    have found: "may_step (phase s) (case k_command K c of None \<Rightarrow> Some (s, XAF_INVALIDVAL_ERR)
        | Some f \<Rightarrow> Option.bind (f m s) (\<lambda>(s, e). Some (s, if XA_ERROR_SEVERITY e then XAF_API_ERR else 0)))"
      if "c = XF_OPCODE_TYPE (m_opcode (msg s m))" for c
      using assms(3) [OF False] that by (cases "k_command K c") (auto intro: bind)
    show ?thesis
      unfolding xa_base_command_def Let_def [of "XF_OPCODE_TYPE _"] Let_def [of "k_process K"] if_not_P [OF False]
      by (intro may_step_intros(2) may_step_leaf refl answered removed found)
  qed
qed

end
