(* ===== verification/Codec_Thms.thy ===== *)
theory Codec_Thms
  imports Class_Channels Class_Sched Class_Stages
begin

text \<open>
  The class of codecs (\<^verbatim>\<open>xa-class-audio-codec.c\<close>): commands that come before the setup, the loops over
  extended parameters, the time base, the end of a stream, the stages that a component goes through,
  and the flush of its input.
\<close>

section \<open>Commands before the setup\<close>

lemma fatal_codes: "XA_ERROR_SEVERITY XA_API_FATAL_INVALID_CMD" "XA_ERROR_SEVERITY XA_API_FATAL_INVALID_CMD_TYPE"
  by (simp_all add: XA_ERROR_SEVERITY_def xa_errors)

lemmas opcode_types = XF_OPCODE_TYPE_def XF_OPCODE_def XF_EMPTY_THIS_BUFFER_def XF_FILL_THIS_BUFFER_def XF_ROUTE_def
  XF_UNROUTE_def XF_FLUSH_def XF_SET_PARAM_def XF_GET_PARAM_def XF_SET_PARAM_EXT_def XF_GET_PARAM_EXT_def XF_PAUSE_def
  XF_RESUME_def XF_EVENT_def XF_EVENT_CHANNEL_CREATE_def XF_EVENT_CHANNEL_DELETE_def XF_UNREGISTER_def

lemma codec_command_eq:
  assumes "m \<noteq> NULL" and "XF_OPCODE_TYPE (m_opcode (msg s m)) = XF_OPCODE_TYPE opc"
    and "opc \<in> {XF_EMPTY_THIS_BUFFER, XF_FILL_THIS_BUFFER, XF_ROUTE, XF_UNROUTE, XF_FLUSH}"
    and "xa_codec_cmd (codec_methods P n) (XF_OPCODE_TYPE opc) = Some f"
  shows "xa_base_command (codec_class P n) m s = do { (s, e) \<leftarrow> f m s; Some (s, if XA_ERROR_SEVERITY e then XAF_API_ERR else 0) }"
  using assms by (auto simp: xa_base_command_def codec_class_def codec_methods_def XA_CODEC_CMD_NUM_def opcode_types)

lemma codec_not_ready:
  assumes "\<not> has XA_BASE_FLAG_POSTINIT s" and "m \<noteq> NULL"
    and "opc \<in> {XF_EMPTY_THIS_BUFFER, XF_FILL_THIS_BUFFER, XF_ROUTE, XF_UNROUTE, XF_FLUSH}"
    and "XF_OPCODE_TYPE (m_opcode (msg s m)) = XF_OPCODE_TYPE opc"
  shows "xa_base_command (codec_class P n) m s = Some (s, XAF_API_ERR)"
proof -
  have "\<exists>f. xa_codec_cmd (codec_methods P n) (XF_OPCODE_TYPE opc) = Some f \<and> (\<exists>e. f m s = Some (s, e) \<and> XA_ERROR_SEVERITY e)"
    using assms(1,3) by (auto simp: xa_codec_cmd_def opcode_types codec_methods_def xa_codec_empty_this_buffer_def
        xa_codec_fill_this_buffer_def xa_codec_port_route_def xa_codec_port_unroute_def xa_codec_flush_def fatal_codes)
  then show ?thesis using codec_command_eq [OF assms(2,4,3)] by auto
qed

section \<open>Time base\<close>

definition timebase_rates :: "u32 set" where
  "timebase_rates = {4000, 8000, 11025, 12000, 16000, 22050, 24000, 32000, 44100, 48000, 64000, 88200, 96000, 128000, 176400, 192000}"

lemma word_of_nat_unat': "word_of_nat (unat w) = (w :: u64)"
  by simp

lemma rate_divides:
  assumes "rate \<in> timebase_rates"
  shows "unat (xf_timebase_factor rate) = (56448000 div unat rate) * (720720 * 12)" "unat rate dvd 56448000" "0 < unat rate"
  using assms by (auto simp: timebase_rates_def xf_timebase_factor_def XF_TIMEBASE_FREQ_def)

lemma sample_divides:
  assumes "1 \<le> c" "c \<le> 16" and "b \<in> {1, 2, 4 :: nat}"
  shows "c * b dvd 720720 * 12"
proof -
  have "c = 1 \<or> c = 2 \<or> c = 3 \<or> c = 4 \<or> c = 5 \<or> c = 6 \<or> c = 7 \<or> c = 8 \<or> c = 9 \<or> c = 10 \<or> c = 11 \<or> c = 12 \<or>
      c = 13 \<or> c = 14 \<or> c = 15 \<or> c = 16"
    using assms(1,2) by presburger
  then have "c dvd 720720" by auto
  moreover have "b dvd 12" using assms(3) by auto
  ultimately show ?thesis by (rule mult_dvd_mono)
qed

lemma timebase_exact:
  assumes "rate \<in> timebase_rates" and "ch \<in> {1 .. 16}"
  shows "0 < xf_timebase_factor rate" and "0 < ch * bytes_per_sample width"
    and "xf_timebase_factor rate div ucast (ch * bytes_per_sample width) * ucast (ch * bytes_per_sample width) = xf_timebase_factor rate"
proof -
  let ?n = "ch * bytes_per_sample width"
  have c: "1 \<le> unat ch" "unat ch \<le> 16" using assms(2) by (auto simp: word_le_nat_alt)
  have b: "unat (bytes_per_sample width) \<in> {1, 2, 4}" by (simp add: bytes_per_sample_def)
  then have "unat ch * unat (bytes_per_sample width) \<le> 16 * 4" using c(2) by (intro mult_le_mono) auto
  then have n: "unat ?n = unat ch * unat (bytes_per_sample width)" by (subst unat_mult_lem [THEN iffD1]) simp_all
  have d: "unat ?n dvd 720720 * 12" unfolding n by (rule sample_divides [OF c b])
  with rate_divides(1) [OF assms(1)] have dvd: "unat ?n dvd unat (xf_timebase_factor rate)" by simp
  show "0 < xf_timebase_factor rate"
    using rate_divides [OF assms(1)] dvd_imp_le [OF rate_divides(2) [OF assms(1)]] unfolding word_less_nat_alt
    by (simp add: div_greater_zero_iff)
  show "0 < ?n" using n c b unfolding word_less_nat_alt by auto
  have "unat (ucast ?n :: u64) = unat ?n" by (rule unat_ucast_64)
  then have "unat (xf_timebase_factor rate div ucast ?n) * unat (ucast ?n :: u64) = unat (xf_timebase_factor rate)"
    using dvd by (simp only: unat_div) simp
  then have "(word_of_nat (unat (xf_timebase_factor rate div ucast ?n) * unat (ucast ?n :: u64)) :: u64) =
      word_of_nat (unat (xf_timebase_factor rate))" by (rule arg_cong)
  then show "xf_timebase_factor rate div ucast ?n * ucast ?n = xf_timebase_factor rate"
    by (simp only: of_nat_mult word_of_nat_unat')
qed


section \<open>Extended parameters\<close>

lemma fuel_step: "8 \<le> r \<Longrightarrow> d \<le> r - 8 \<Longrightarrow> unat r div 8 < Suc k \<Longrightarrow> unat (r - 8 - d :: u32) div 8 < k"
proof -
  assume "8 \<le> r" "d \<le> r - 8" "unat r div 8 < Suc k"
  then have "unat (r - 8 - d) \<le> unat r - 8" "8 \<le> unat r" by (auto simp: word_le_nat_alt unat_sub)
  then show ?thesis using \<open>unat r div 8 < Suc k\<close> by linarith
qed

text \<open>Calls and methods that return.\<close>

definition returns :: "'s result \<Rightarrow> bool" where
  "returns r \<longleftrightarrow> r \<noteq> None"

lemma returns_intros [intro!]:
  "returns (Some x)"
  "(\<And>s e v. returns (k s e v)) \<Longrightarrow> returns (XA_API P cmd idx pv s k)"
  "returns (f s) \<Longrightarrow> (\<And>s e. returns (l s e)) \<Longrightarrow> returns (CODEC_API f s l)"
  by (auto simp: returns_def XA_API_def CODEC_API_def split: prod.splits)

definition methods_return :: "'z base_scheme klass \<Rightarrow> bool" where
  "methods_return K \<longleftrightarrow> (\<forall>f i pv s. k_setparam K = Some f \<longrightarrow> returns (f i pv s)) \<and> (\<forall>f i pv s. k_getparam K = Some f \<longrightarrow> returns (f i pv s))"

lemma plug_params_return:
  assumes "methods_return K" and "\<And>s e. returns (k s e)"
  shows "returns (plug_setparam K i pv s k)" "returns (plug_getparam K i pv s k)"
  using assms by (auto simp: plug_setparam_def plug_getparam_def methods_return_def split: option.split)

lemma set_ext_loop_returns: "methods_return K \<Longrightarrow> unat r div 8 < k \<Longrightarrow> returns (set_ext_loop k K m cmd r s)"
proof (induction k arbitrary: cmd r s)
  case (Suc k)
  show ?case
    using Suc.prems Suc.IH fuel_step [of r _ k] by (auto simp: Let_def intro!: plug_params_return(1))
qed simp

lemma get_ext_loop_returns: "methods_return K \<Longrightarrow> unat r div 8 < k \<Longrightarrow> returns (get_ext_loop k K m n cmd r s)"
proof (induction k arbitrary: cmd r s)
  case (Suc k)
  show ?case
    using Suc.prems Suc.IH fuel_step [of r _ k] by (auto simp: Let_def intro!: plug_params_return(2))
qed simp

lemma codec_methods_return: "methods_return (codec_methods P n)"
  by (auto simp: methods_return_def codec_methods_def xa_codec_setparam_def xa_codec_getparam_def)

lemma ext_params_return:
  assumes "methods_return K"
  shows "returns (xa_base_set_param_ext K m s)" "returns (xa_base_get_param_ext K m s)"
  unfolding xa_base_set_param_ext_def xa_base_get_param_ext_def Let_def
  by (rule set_ext_loop_returns [OF assms] get_ext_loop_returns [OF assms], simp)+

section \<open>End of the stream\<close>

lemma flush_unrouted:
  assumes "\<not> xf_output_port_routed port" and "msg_queue_rel (io_msg i) (op_queue port) ms"
  shows "\<exists>i' q. xf_output_port_flush i port opc = Some (i', port\<lparr>op_queue := q\<rparr>, True) \<and> msg_queue_rel (io_msg i') q [] \<and>
    io_done i' = io_done i @ map (answered_ok i) ms \<and> (\<forall>x. x \<notin> set ms \<longrightarrow> io_msg i' x = io_msg i x)"
  using answer_all_ok [OF assms(2)] assms(1) by (auto simp: xf_output_port_flush_def)

lemma purge_frame:
  assumes "msg_queue_rel (io_msg s) (ip_queue port) ms" and "xf_input_port_created port"
  shows "\<exists>s' port'. xf_input_port_purge s port = Some (s', port') \<and> msg_queue_rel (io_msg s') (ip_queue port') [] \<and>
    io_done s' = io_done s @ map (answered_ok s) ms \<and> (\<forall>x. x \<notin> set ms \<longrightarrow> io_msg s' x = io_msg s x)"
  using answer_all_ok [OF assms(1)] assms(2) by (auto simp: xf_input_port_purge_def)

lemma answered_frame: "\<forall>x. x \<notin> A \<longrightarrow> io_msg i x = io_msg j x \<Longrightarrow> set ms \<inter> A = {} \<Longrightarrow> map (answered_ok i) ms = map (answered_ok j) ms"
  unfolding answered_ok_def by (intro map_cong refl) (metis IntI empty_iff)

lemma codec_fields [simp]:
  "cd_output (put_input i p s) = cd_output s" "cd_input (put_input i p s) = p" "cd_input (put_output i out s) = cd_input s"
  "cd_output (put_output i out s) = out" "io_of (put_input i p s) = i" "io_of (put_output i out s) = i"
  "cd_probe_enabled (put_input i p s) = cd_probe_enabled s" "cd_probe_enabled (put_output i out s) = cd_probe_enabled s"
  "b_state (put_input i p s) = b_state s" "b_state (put_output i out s) = b_state s"
  "cd_probe_enabled (toggle_flags f s) = cd_probe_enabled s" "cd_output (toggle_flags f s) = cd_output s"
  "cd_input (toggle_flags f s) = cd_input s" "io_of (toggle_flags f s) = io_of s"
  "cd_output (set_flags f s) = cd_output s" "cd_input (set_flags f s) = cd_input s" "io_of (set_flags f s) = io_of s"
  "b_done (put_input i p s) = io_done i" "b_done (put_output i out s) = io_done i"
  "c_msg (b_core (put_input i p s)) = io_msg i" "c_msg (b_core (put_output i out s)) = io_msg i"
  "b_done (toggle_flags f s) = b_done s" "b_done (set_flags f s) = b_done s" "b_core (toggle_flags f s) = b_core s"
  "b_core (set_flags f s) = b_core s"
  "b_state (toggle_flags f s) = b_state s XOR f" "b_state (set_flags f s) = b_state s OR f"
  by (simp_all add: put_input_def put_output_def with_io_def io_of_def toggle_flags_def set_flags_def set_state_def)

lemma empty_queue_frame: "msg_queue_rel h q [] \<Longrightarrow> msg_queue_rel h' q []"
  by (simp add: msg_queue_rel_def)

lemma post_done_answers:
  assumes st: "\<not> has XA_BASE_FLAG_RUNTIME_INIT s" "\<not> has XA_BASE_FLAG_EXECUTION s" and probe: "cd_probe_enabled s = 0"
    and out: "\<not> xf_output_port_routed (cd_output s)" "msg_queue_rel (c_msg (b_core s)) (op_queue (cd_output s)) outs"
    and inp: "xf_input_port_created (cd_input s)" "msg_queue_rel (c_msg (b_core s)) (ip_queue (cd_input s)) ins"
    and disj: "set outs \<inter> set ins = {}"
  shows "\<exists>s'. post_done P produced s = Some (s', 0) \<and> b_done s' = b_done s @ map (answered_ok (io_of s)) (outs @ ins) \<and>
    msg_queue_rel (c_msg (b_core s')) (op_queue (cd_output s')) [] \<and> msg_queue_rel (c_msg (b_core s')) (ip_queue (cd_input s')) [] \<and>
    b_state s' = (if produced = 0 then b_state s OR XA_CODEC_FLAG_EOS_SEQ_DONE else b_state s)"
proof -
  obtain i q where a: "answer_all (io_of s) (op_queue (cd_output s)) = Some (i, q)" "msg_queue_rel (io_msg i) q []"
    "io_done i = io_done (io_of s) @ map (answered_ok (io_of s)) outs" "\<forall>x. x \<notin> set outs \<longrightarrow> io_msg i x = io_msg (io_of s) x"
    using answer_all_ok [of "io_of s" "op_queue (cd_output s)" outs] out(2) by auto
  let ?o = "(cd_output s)\<lparr>op_queue := q\<rparr>"
  let ?s1 = "put_output i ?o s"
  have flush: "output_flush XF_FILL_THIS_BUFFER s = Some (?s1, True)"
    using a(1) out(1) by (simp add: output_flush_def xf_output_port_flush_def)
  have "\<forall>x \<in> set ins. m_next (io_msg i x) = m_next (c_msg (b_core s) x)" using a(4) disj by auto
  then have "msg_queue_rel (io_msg i) (ip_queue (cd_input s)) ins" by (rule queue_rel_frame [OF inp(2)])
  from purge_frame [OF this inp(1)] obtain j p where b: "xf_input_port_purge i (cd_input s) = Some (j, p)"
    "msg_queue_rel (io_msg j) (ip_queue p) []" "io_done j = io_done i @ map (answered_ok i) ins" by blast
  have purge: "input_purge ?s1 = Some (put_input j p ?s1)" using b(1) by (simp add: input_purge_def)
  let ?s2 = "put_input j p ?s1"
  let ?s3 = "if produced = 0 then set_flags XA_CODEC_FLAG_EOS_SEQ_DONE ?s2 else ?s2"
  have "\<not> xf_output_port_routed ?o" using out(1) by (simp add: xf_output_port_routed_def)
  then have run: "post_done P produced s = Some (?s3, 0)"
    using st probe flush purge by (simp add: post_done_def)
  have "map (answered_ok i) ins = map (answered_ok (io_of s)) ins"
    using a(4) disj unfolding answered_ok_def by (intro map_cong refl) (metis IntI empty_iff)
  then have done': "b_done ?s3 = b_done s @ map (answered_ok (io_of s)) (outs @ ins)"
    using b(3) a(3) by simp
  have msgs: "c_msg (b_core ?s3) = io_msg j"
    by simp
  have "cd_output ?s3 = ?o" "cd_input ?s3 = p" by simp_all
  then have "msg_queue_rel (c_msg (b_core ?s3)) (op_queue (cd_output ?s3)) []" "msg_queue_rel (c_msg (b_core ?s3)) (ip_queue (cd_input ?s3)) []"
    using msgs b(2) empty_queue_frame [OF a(2)] by (simp_all del: codec_fields)
  moreover have "b_state ?s3 = (if produced = 0 then b_state s OR XA_CODEC_FLAG_EOS_SEQ_DONE else b_state s)" by simp
  ultimately show ?thesis using run done' by blast
qed

lemma stream_end:
  assumes st: "\<not> has XA_BASE_FLAG_RUNTIME_INIT s" "\<not> has XA_BASE_FLAG_EXECUTION s" and probe: "cd_probe_enabled s = 0"
    and out: "\<not> xf_output_port_routed (cd_output s)" "msg_queue_rel (c_msg (b_core s)) (op_queue (cd_output s)) outs"
    and inp: "xf_input_port_created (cd_input s)" "msg_queue_rel (c_msg (b_core s)) (ip_queue (cd_input s)) ins"
    and disj: "set outs \<inter> set ins = {}" and d: "done \<noteq> 0"
  shows "\<exists>s'. codec_postprocess P done 0 0 s = Some (s', 0) \<and> b_done s' = b_done s @ map (answered_ok (io_of s)) (outs @ ins) \<and>
    msg_queue_rel (c_msg (b_core s')) (op_queue (cd_output s')) [] \<and> msg_queue_rel (c_msg (b_core s')) (ip_queue (cd_input s')) [] \<and>
    b_state s' = (b_state s XOR XA_CODEC_FLAG_INPUT_SETUP) OR XA_CODEC_FLAG_EOS_SEQ_DONE"
proof -
  let ?s = "toggle_flags XA_CODEC_FLAG_INPUT_SETUP s"
  have "codec_postprocess P done 0 0 s = post_done P 0 ?s"
    using probe d by (simp add: codec_postprocess_def probe_copy_def post_input_def post_output_def post_probe_def)
  moreover have "XA_CODEC_FLAG_INPUT_SETUP AND XA_BASE_FLAG_RUNTIME_INIT = 0" "XA_CODEC_FLAG_INPUT_SETUP AND XA_BASE_FLAG_EXECUTION = 0"
    by (simp_all add: XA_CODEC_FLAG_INPUT_SETUP_def XA_BASE_FLAG_def XA_BASE_FLAG_RUNTIME_INIT_def XA_BASE_FLAG_EXECUTION_def)
  then have "\<not> has XA_BASE_FLAG_RUNTIME_INIT ?s" "\<not> has XA_BASE_FLAG_EXECUTION ?s"
    using st by (simp_all add: has_def bit.conj_xor_distrib2)
  moreover have "b_core ?s = b_core s" "b_done ?s = b_done s" by (simp_all add: toggle_flags_def set_state_def)
  ultimately show ?thesis
    using post_done_answers [of ?s outs ins P 0] probe out inp disj by simp
qed

section \<open>The stages of the codec class\<close>

lemma codec_phase [simp]:
  "phase (put_input i ip s) = phase s" "phase (put_output i op s) = phase s" "phase (put_probe i op s) = phase s"
  "phase (input_fill s) = phase s" "phase (output_produce n s) = phase s" "phase (probe_produce n s) = phase s"
  "phase (output_flush_done s) = phase s" "phase (upd_input_flags f s) = phase s" "phase (upd_output_flags f s) = phase s"
  "phase (upd_probe_flags f s) = phase s" "phase (respond_ok m s) = phase s" "phase (s\<lparr>cd_input := ip\<rparr>) = phase s"
  "phase (s\<lparr>cd_output := op\<rparr>) = phase s" "phase (s\<lparr>cd_in_idx := i1\<rparr>) = phase s" "phase (s\<lparr>cd_out_idx := i1\<rparr>) = phase s"
  "phase (s\<lparr>cd_sample_size := i1\<rparr>) = phase s" "phase (s\<lparr>cd_factor := i2\<rparr>) = phase s" "phase (s\<lparr>cd_produced := i1\<rparr>) = phase s"
  "phase (s\<lparr>cd_consumed := i1\<rparr>) = phase s" "phase (s\<lparr>cd_probe_enabled := i1\<rparr>) = phase s"
  "phase (s\<lparr>cd_init_without_inp := i1\<rparr>) = phase s" "phase (s\<lparr>cd_probe := op\<rparr>) = phase s"
  "phase (s\<lparr>cd_probe_output := i1\<rparr>) = phase s" "phase (s\<lparr>cd_out_ptr := i1\<rparr>) = phase s"
  "phase (s\<lparr>cd_pinit_output := i1\<rparr>) = phase s" "phase (s\<lparr>cd_init_output_size := i1\<rparr>) = phase s"
  by (simp_all add: phase_def put_input_def put_output_def put_probe_def with_io_def input_fill_def output_produce_def
      probe_produce_def output_flush_done_def upd_input_flags_def upd_output_flags_def upd_probe_flags_def respond_ok_def
      on_io_def split: prod.splits)

lemma codec_flag_bits [simp]:
  "phase (set_flags XA_CODEC_FLAG_EOS_SEQ_DONE s) = phase s" "phase (toggle_flags XA_CODEC_FLAG_INPUT_SETUP s) = phase s"
  "phase (toggle_flags XA_CODEC_FLAG_OUTPUT_SETUP s) = phase s" "phase (toggle_flags XA_CODEC_FLAG_PROBE_SETUP s) = phase s"
  "phase (clear_flags XA_CODEC_FLAG_INPUT_SETUP s) = phase s" "phase (clear_flags XA_CODEC_FLAG_OUTPUT_SETUP s) = phase s"
  "phase (clear_flags (XA_CODEC_FLAG_INPUT_SETUP OR XA_CODEC_FLAG_OUTPUT_SETUP) s) = phase s"
  unfolding phase_def set_flags_def clear_flags_def toggle_flags_def set_state_def
  by (simp_all add: phase_bits flag_defs and.assoc)

lemma probe_copy_phase: "probe_copy c n s = (s', k, p) \<Longrightarrow> phase s' = phase s"
  by (auto simp: probe_copy_def xf_copy_probe_data_def Let_def split: if_splits prod.splits)

lemma port_phase [stage]:
  "phase s = q \<Longrightarrow> at_phase' q (input_purge s)" "phase s = q \<Longrightarrow> at_phase q (output_flush opc s)"
  "phase s = q \<Longrightarrow> at_phase q (probe_flush opc s)" "phase s = q \<Longrightarrow> at_phase' q (output_unroute s)"
  "phase s = q \<Longrightarrow> at_phase' q (output_unroute_done s)" "phase s = q \<Longrightarrow> at_phase' q (schedule_if c s)"
  "phase s = q \<Longrightarrow> at_phase' q (route_connect len s)" "phase s = q \<Longrightarrow> at_phase' q (post_input cn pd s)"
  "phase s = q \<Longrightarrow> at_phase' q (post_init_retry cn s)"
  unfolding input_purge_def output_flush_def probe_flush_def output_unroute_def output_unroute_done_def schedule_if_def
    route_connect_def post_input_def post_init_retry_def Let_def
  by (intro stage; simp)+

lemma prepare_phase [stage]: "keeps_phase P \<Longrightarrow> phase s = q \<Longrightarrow> at_phase q (xa_codec_prepare_runtime P s)"
  unfolding xa_codec_prepare_runtime_def Let_def by (intro stage; simp)


subsection \<open>Methods\<close>

lemma at_phase_let [stage]: "(\<And>x. x = t \<Longrightarrow> at_phase q (f x)) \<Longrightarrow> at_phase q (let x = t in f x)"
  by simp

lemma memtab_phase [stage]:
  "phase s = q \<Longrightarrow> at_phase q (memtab_probe s)"
  "keeps_phase P \<Longrightarrow> phase s = q \<Longrightarrow> at_phase q (xa_codec_memtab P i t sz al s)"
  unfolding memtab_probe_def xa_codec_memtab_def Let_def by (intro stage; simp)+

lemma preprocess_parts_phase [stage]:
  "keeps_phase P \<Longrightarrow> phase s = q \<Longrightarrow> at_phase q (codec_preprocess_input P s)"
  "keeps_phase P \<Longrightarrow> phase s = q \<Longrightarrow> (\<And>s. phase s = q \<Longrightarrow> at_phase q (k s)) \<Longrightarrow> at_phase q (codec_preprocess_output P s k)"
  "phase s = q \<Longrightarrow> (\<And>s. phase s = q \<Longrightarrow> at_phase q (k s)) \<Longrightarrow> at_phase q (codec_preprocess_probe s k)"
  unfolding codec_preprocess_input_def codec_preprocess_output_def codec_preprocess_probe_def Let_def by (intro stage; simp)+

lemma preprocess_phase [stage]: "keeps_phase P \<Longrightarrow> phase s = q \<Longrightarrow> at_phase q (xa_codec_preprocess P s)"
  unfolding xa_codec_preprocess_def Let_def by (intro stage; simp)

lemma post_simps [simp]: "phase (post_output n s) = phase s" "phase (post_probe n p s) = phase s"
  by (simp_all add: post_output_def post_probe_def)

lemma post_done_phase [stage]: "keeps_phase P \<Longrightarrow> phase s = q \<Longrightarrow> at_phase q (post_done P n s)"
  unfolding post_done_def Let_def by (intro stage; simp)

lemma codec_postprocess_phase [stage]: "keeps_phase P \<Longrightarrow> phase s = q \<Longrightarrow> at_phase q (codec_postprocess P d c n s)"
  unfolding codec_postprocess_def Let_def by (intro stage; auto dest: probe_copy_phase)

lemma postprocess_phase [stage]: "keeps_phase P \<Longrightarrow> phase s = q \<Longrightarrow> at_phase q (xa_codec_postprocess P d s)"
  unfolding xa_codec_postprocess_def Let_def by (intro stage; simp)

lemma codec_param_phase [stage]:
  "keeps_phase P \<Longrightarrow> phase s = q \<Longrightarrow> at_phase q (xa_codec_setparam P i pv s)"
  "keeps_phase P \<Longrightarrow> phase s = q \<Longrightarrow> at_phase q (xa_codec_getparam P i pv s)"
  unfolding xa_codec_setparam_def xa_codec_getparam_def by (intro stage; simp)+

lemma codec_methods_keep: "keeps_phase P \<Longrightarrow> methods_keep (codec_methods P n)" "keeps_phase P \<Longrightarrow> methods_keep (codec_class P n)"
  by (auto simp: methods_keep_def codec_methods_def codec_class_def intro: stage)

subsection \<open>Commands\<close>

lemma restart_step:
  assumes "keeps_phase P" and "phase s = ph_exec \<or> phase s = ph_done" and "\<And>s. phase s = ph_exec \<Longrightarrow> at_phase ph_exec (k s)"
  shows "may_step (phase s) (restart_stream P s k)"
proof -
  have p: "phase (set_state (XA_BASE_FLAG_POSTINIT OR XA_BASE_FLAG_EXECUTION) s) = ph_exec"
    by (simp add: phase_def set_state_def flag_defs phases)
  have "at_phase ph_exec (restart_stream P s k)"
    unfolding restart_stream_def by (intro stage assms(1,3); simp add: p)
  moreover from assms(2) have "phase s = ph_exec \<or> phase_step (phase s) ph_exec" by auto
  ultimately show ?thesis using may_step_at by metis
qed

lemma run_phase [stage]:
  "phase s = q \<Longrightarrow> at_phase q (fill_put m s)" "phase s = q \<Longrightarrow> at_phase q (fill_probe m s)"
  "phase s = q \<Longrightarrow> at_phase q (fill_control m s)" "phase s = q \<Longrightarrow> at_phase q (fill_drop m s)"
  "phase s = q \<Longrightarrow> at_phase q (flush_output m s)"
  "phase s = q \<Longrightarrow> at_phase q (xa_codec_port_route m s)" "phase s = q \<Longrightarrow> at_phase q (xa_codec_port_unroute m s)"
  "phase s = q \<Longrightarrow> at_phase q (xa_codec_port_pause m s)" "phase s = q \<Longrightarrow> at_phase q (xa_codec_port_resume m s)"
  unfolding fill_put_def fill_probe_def fill_control_def fill_drop_def flush_output_def xa_codec_port_route_def
    xa_codec_port_unroute_def xa_codec_port_pause_def xa_codec_port_resume_def Let_def
  by (intro stage; simp)+


lemma empty_step:
  assumes "keeps_phase P" and "staged s"
  shows "may_step (phase s) (xa_codec_empty_this_buffer P m s)"
proof -
  define run :: "codec \<Rightarrow> codec result" where "run = (\<lambda>s. if \<not> has (XA_BASE_FLAG_RUNTIME_INIT OR XA_BASE_FLAG_EXECUTION) s
      then Some (s, XA_API_FATAL_INVALID_CMD)
      else do { s \<leftarrow> schedule_if (xf_output_port_ready (cd_output s)) s; Some (s, 0) })"
  have run: "at_phase q (run s)" if "phase s = q" for q s
    unfolding run_def by (intro stage; simp add: that)
  obtain i p first where put: "xf_input_port_put (io_of s) (cd_input s) m = (i, p, first)" by (metis prod_cases3)
  have "may_step (phase s) (restart_stream P (put_input i p s) run)" if "has XA_BASE_FLAG_COMPLETED (put_input i p s)"
    using restart_step [OF assms(1), of "put_input i p s" run] run staged_flags(4) [OF _ that] assms(2) staged_cong
    by (metis codec_phase(1))
  moreover have "may_step (phase s) (run (put_input i p s))" by (rule may_step_at(1), rule run) simp
  ultimately show ?thesis
    unfolding xa_codec_empty_this_buffer_def Let_def put prod.case run_def [symmetric] by (auto intro!: may_step_leaf)
qed

lemma fill_step:
  assumes "keeps_phase P" and "staged s"
  shows "may_step (phase s) (xa_codec_fill_this_buffer P m s)"
proof -
  define put where "put = (\<lambda>s. fill_put m (on_core (upd_msg m (m_length_update (\<lambda>_. op_length (cd_output s)))) s))"
  have put: "at_phase q (put s)" if "phase s = q" for q s
    unfolding put_def by (intro stage; simp add: that)
  have "may_step (phase s) (restart_stream P s put)" if "has XA_BASE_FLAG_POSTINIT s" "\<not> has XA_BASE_FLAG_RUNTIME_INIT s"
    using restart_step [OF assms(1) staged_flags(5) [OF assms(2) that]] put by blast
  moreover have "may_step (phase s) (put s)" "may_step (phase s) (fill_put m s)" "may_step (phase s) (fill_probe m s)"
    "may_step (phase s) (fill_control m s)" "may_step (phase s) (fill_drop m s)"
    by (rule may_step_at(1), intro put run_phase refl)+
  ultimately show ?thesis
    unfolding xa_codec_fill_this_buffer_def Let_def put_def [symmetric] by (auto intro!: may_step_leaf)
qed

lemma toggled_done:
  "phase s = ph_exec \<Longrightarrow> phase (toggle_flags (XA_BASE_FLAG_EXECUTION OR XA_BASE_FLAG_COMPLETED) s) = ph_done"
  "phase s = ph_done \<Longrightarrow> phase (toggle_flags (XA_BASE_FLAG_EXECUTION OR XA_BASE_FLAG_COMPLETED) s) = ph_exec"
  "phase s = ph_init \<Longrightarrow> phase (toggle_flags (XA_BASE_FLAG_EXECUTION OR XA_BASE_FLAG_COMPLETED) s) = ph_init OR ph_exec OR ph_done"
  unfolding toggle_flags_def set_state_def by (simp_all add: phase_def flag_defs phases bit.conj_xor_distrib2)

lemma flush_input_step:
  assumes "keeps_phase P" and "phase s = q" and "q = ph_exec \<or> q = ph_done"
  shows "may_step q (flush_input P m s)"
  using assms(3) unfolding flush_input_def Let_def
  by (elim disjE; intro stage assms(1); auto simp: toggled_done assms(2))

lemma flush_step:
  assumes "keeps_phase P" and "staged s" and "XF_MSG_DST_PORT (m_id (msg s m)) = 0 \<Longrightarrow> phase s \<noteq> ph_init"
  shows "may_step (phase s) (xa_codec_flush P m s)"
proof (cases "has XA_BASE_FLAG_POSTINIT s")
  case True
  have "phase s = ph_exec \<or> phase s = ph_done" if "XF_MSG_DST_PORT (m_id (msg s m)) = 0"
    using assms(2) assms(3) [OF that] True by (auto simp: staged_def has_flag)
  then have "may_step (phase s) (flush_input P m s)" if "XF_MSG_DST_PORT (m_id (msg s m)) = 0"
    using that by (intro flush_input_step [OF assms(1) refl]) blast
  moreover have "may_step (phase s) (flush_output m s)"
    "may_step (phase s) (Option.bind (output_unroute_done s) (\<lambda>s. Some (s, 0 :: int)))"
    by (rule may_step_at(1), intro stage; simp)+
  ultimately show ?thesis unfolding xa_codec_flush_def by (auto intro!: may_step_leaf)
qed (simp add: xa_codec_flush_def)

text \<open>The flush of an input that comes before the initialisation may set all four flags.\<close>

definition may_mix :: "codec result \<Rightarrow> bool" where
  "may_mix r \<longleftrightarrow> (\<forall>s e. r = Some (s, e) \<longrightarrow> phase s = ph_init \<or> phase s = ph_init OR ph_exec OR ph_done)"

lemma may_mix_intros:
  "phase s = ph_init \<Longrightarrow> may_mix (Some (s, e))" "phase s = ph_init OR ph_exec OR ph_done \<Longrightarrow> may_mix (Some (s, e))"
  "(c \<Longrightarrow> may_mix r1) \<Longrightarrow> (\<not> c \<Longrightarrow> may_mix r2) \<Longrightarrow> may_mix (if c then r1 else r2)"
  "(\<And>a b. x = (a, b) \<Longrightarrow> may_mix (f a b)) \<Longrightarrow> may_mix (case x of (a, b) \<Rightarrow> f a b)"
  by (auto simp: may_mix_def split: prod.splits)

lemma may_mix_bind:
  "at_phase' ph_init t \<Longrightarrow> (\<And>s. phase s = ph_init \<Longrightarrow> may_mix (g s)) \<Longrightarrow> may_mix (Option.bind t g)"
  "at_phase ph_init u \<Longrightarrow> (\<And>s b. phase s = ph_init \<Longrightarrow> may_mix (h (s, b))) \<Longrightarrow> may_mix (Option.bind u h)"
  by (cases t; simp add: may_mix_def at_phase'_def) (cases u; auto simp: may_mix_def at_phase_def)

lemma may_mix_API:
  assumes "keeps_phase P" and "phase s = ph_init" and "\<And>s' e v. phase s' = ph_init \<Longrightarrow> may_mix (k s' e v)"
  shows "may_mix (XA_API P cmd idx pv s k)"
proof -
  obtain s' e v where r: "P cmd idx pv s = (s', e, v)" by (metis prod_cases3)
  then have "phase s' = ph_init" using keeps_phaseD [OF assms(1) r] assms(2) by simp
  then show ?thesis using assms(3) by (simp add: XA_API_def r may_mix_intros)
qed

lemma flush_input_mix: "keeps_phase P \<Longrightarrow> phase s = ph_init \<Longrightarrow> may_mix (flush_input P m s)"
  unfolding flush_input_def Let_def
  by (intro may_mix_intros(3,4) may_mix_bind may_mix_API stage) (auto intro: may_mix_intros(1,2) simp: toggled_done)

lemma codec_cmd_step:
  assumes "keeps_phase P" and "staged s"
    and "t = XF_OPCODE_TYPE XF_FLUSH \<Longrightarrow> XF_MSG_DST_PORT (m_id (msg s m)) = 0 \<Longrightarrow> phase s \<noteq> ph_init"
    and "xa_codec_cmd (codec_methods P n) t = Some f"
  shows "may_step (phase s) (f m s)"
proof -
  have K: "k_process (codec_methods P n) = P" "methods_keep (codec_methods P n)"
    using codec_methods_keep [OF assms(1)] by (simp_all add: codec_methods_def)
  have keep: "at_phase (phase s) (xa_codec_port_route m s)" "at_phase (phase s) (xa_codec_port_unroute m s)"
    "at_phase (phase s) (xa_codec_port_pause m s)" "at_phase (phase s) (xa_codec_port_resume m s)"
    "at_phase (phase s) (xa_base_get_param (codec_methods P n) m s)"
    "at_phase (phase s) (xa_base_set_param_ext (codec_methods P n) m s)"
    "at_phase (phase s) (xa_base_get_param_ext (codec_methods P n) m s)"
    by (intro run_phase get_param_phase ext_params_phase K(2) refl)+
  note steps = keep [THEN may_step_at(1)] set_param_step [OF K(2) assms(2)] empty_step [OF assms(1,2)] fill_step [OF assms(1,2)]
  have "t = XF_OPCODE_TYPE XF_FLUSH \<Longrightarrow> may_step (phase s) (xa_codec_flush P m s)"
    using flush_step [OF assms(1,2)] assms(3) by blast
  then show ?thesis
    using assms(4) steps unfolding xa_codec_cmd_def Let_def K(1) by (auto split: if_splits)
qed

lemma codec_stages:
  assumes "keeps_phase P" and "staged s" and "xa_base_command (codec_class P n) m s = Some (s', e)"
  shows "phase s' = phase s \<or> phase_step (phase s) (phase s') \<or>
    phase s = ph_init \<and> phase s' = ph_init OR ph_exec OR ph_done \<and> m \<noteq> NULL \<and>
      XF_OPCODE_TYPE (m_opcode (msg s m)) = XF_OPCODE_TYPE XF_FLUSH \<and> XF_MSG_DST_PORT (m_id (msg s m)) = 0"
proof (cases "m \<noteq> NULL \<and> XF_OPCODE_TYPE (m_opcode (msg s m)) = XF_OPCODE_TYPE XF_FLUSH \<and>
    XF_MSG_DST_PORT (m_id (msg s m)) = 0 \<and> phase s = ph_init")
  case False
  have "may_step (phase s) (xa_base_command (codec_class P n) m s)"
  proof (rule command_step [OF codec_methods_keep(2) [OF assms(1)] assms(2)])
    fix f assume m: "m \<noteq> NULL" and "k_command (codec_class P n) (XF_OPCODE_TYPE (m_opcode (msg s m))) = Some f"
    then have cmd: "xa_codec_cmd (codec_methods P n) (XF_OPCODE_TYPE (m_opcode (msg s m))) = Some f" by (simp add: codec_class_def)
    show "may_step (phase s) (f m s)"
      by (rule codec_cmd_step [OF assms(1,2) _ cmd]) (use False m in blast)
  qed
  then show ?thesis using assms(3) by auto
next
  case True
  then have "xa_base_command (codec_class P n) m s =
      Option.bind (xa_codec_flush P m s) (\<lambda>(s, e). Some (s, if XA_ERROR_SEVERITY e then XAF_API_ERR else 0))"
    by (simp add: xa_base_command_def codec_class_def codec_methods_def xa_codec_cmd_def opcode_types XA_CODEC_CMD_NUM_def Let_def)
  then obtain e' where e': "xa_codec_flush P m s = Some (s', e')"
    using assms(3) by (cases "xa_codec_flush P m s") auto
  have "may_mix (xa_codec_flush P m s)"
    unfolding xa_codec_flush_def
    by (intro may_mix_intros(3)) (use True flush_input_mix [OF assms(1)] in \<open>auto intro: may_mix_intros(1)\<close>)
  with e' True show ?thesis by (auto simp: may_mix_def)
qed

text \<open>A flush of the input of an unrouted component leaves the stages when it comes too early or too late.\<close>

section \<open>Flush of the input\<close>

lemma flush_fields [simp]:
  "cd_output (clear_flags f s) = cd_output s" "cd_input (clear_flags f s) = cd_input s" "io_of (clear_flags f s) = io_of s"
  "b_done (clear_flags f s) = b_done s" "b_core (clear_flags f s) = b_core s" "b_state (clear_flags f s) = b_state s AND NOT f"
  "cd_output (s\<lparr>cd_produced := n\<rparr>) = cd_output s" "io_of (s\<lparr>cd_produced := n\<rparr>) = io_of s"
  "b_state (answer m s) = b_state s" "msg (toggle_flags f s) m = msg s m" "msg (set_flags f s) m = msg s m"
  by (simp_all add: clear_flags_def set_state_def toggle_flags_def set_flags_def io_of_def answer_def msg_def)

lemma flush_toggles:
  assumes ready: "has XA_BASE_FLAG_POSTINIT s" "\<not> has XA_BASE_FLAG_SCHEDULE s"
    and m: "m_length (msg s m) = 0" "XF_MSG_DST_PORT (m_id (msg s m)) = 0" "m \<notin> set ins \<union> set outs"
    and inp: "xf_input_port_created (cd_input s)" "msg_queue_rel (c_msg (b_core s)) (ip_queue (cd_input s)) ins"
    and out: "\<not> xf_output_port_routed (cd_output s)" "msg_queue_rel (c_msg (b_core s)) (op_queue (cd_output s)) outs"
    and disj: "set ins \<inter> set outs = {}"
    and P: "\<And>x. P XA_API_CMD_EXECUTE XA_CMD_TYPE_DO_RUNTIME_INIT (Ptr NULL) x = (x, 0, 0)"
  shows "\<exists>s'. xa_codec_flush P m s = Some (s', 0) \<and> phase s' = phase s XOR (XA_BASE_FLAG_EXECUTION OR XA_BASE_FLAG_COMPLETED) \<and>
    b_done s' = b_done s @ map (answered_ok (io_of s)) (ins @ outs) @ [(m, msg s m)]"
proof -
  obtain j p where purge: "xf_input_port_purge (io_of s) (cd_input s) = Some (j, p)"
    "io_done j = io_done (io_of s) @ map (answered_ok (io_of s)) ins" "\<forall>x. x \<notin> set ins \<longrightarrow> io_msg j x = io_msg (io_of s) x"
    using purge_frame [of "io_of s" "cd_input s" ins] inp by auto
  have "msg_queue_rel (io_msg j) (op_queue (cd_output s)) outs"
    using purge(3) disj by (intro queue_rel_frame [OF out(2)]) auto
  from flush_unrouted [OF out(1) this] obtain i q where
    flush: "xf_output_port_flush j (cd_output s) XF_FLUSH = Some (i, (cd_output s)\<lparr>op_queue := q\<rparr>, True)"
    "io_done i = io_done j @ map (answered_ok j) outs" "\<forall>x. x \<notin> set outs \<longrightarrow> io_msg i x = io_msg j x" by blast
  let ?x = "(clear_flags XA_CODEC_FLAG_INPUT_SETUP (put_input j p s))\<lparr>cd_produced := 0\<rparr>"
  let ?o = "(cd_output s)\<lparr>op_queue := q\<rparr>"
  let ?t = "toggle_flags (XA_BASE_FLAG_EXECUTION OR XA_BASE_FLAG_COMPLETED) (put_output i ?o ?x)"
  let ?y = "if xf_output_port_ready (cd_output s) then set_flags XA_CODEC_FLAG_EOS_SEQ_DONE ?t else ?t"
  have r: "\<not> xf_output_port_routed ?o" using out(1) by (simp add: xf_output_port_routed_def)
  have run: "xa_codec_flush P m s = Some (answer m ?y, 0)"
    using ready m r purge(1) flush(1)
    by (simp add: xa_codec_flush_def flush_input_def xa_base_cancel_def input_purge_def XA_API_def P XA_ERROR_SEVERITY_def
        output_flush_def on_io_response Let_def)
  have "phase ?x = phase s" by simp
  then have "phase ?t = phase s XOR (XA_BASE_FLAG_EXECUTION OR XA_BASE_FLAG_COMPLETED)"
    unfolding phase_def by (simp add: bit.conj_xor_distrib2 flag_defs)
  then have ph: "phase (answer m ?y) = phase s XOR (XA_BASE_FLAG_EXECUTION OR XA_BASE_FLAG_COMPLETED)"
    by (simp add: answer_def phase_def [of "_\<lparr>b_done := _\<rparr>"] phase_def [symmetric])
  have "msg ?y m = msg s m" using flush(3) purge(3) m(3) by (simp add: msg_def)
  then have "b_done (answer m ?y) = b_done s @ map (answered_ok (io_of s)) (ins @ outs) @ [(m, msg s m)]"
    using flush(2) purge(2) answered_frame [OF purge(3), of outs] disj by (simp add: Int_commute)
  with run ph show ?thesis by blast
qed


section \<open>Properties\<close>

text \<open>
  A codec on the component at address 7, new, with an input port of two messages and an output port
  without messages that is not connected; message 192 is the next command.
\<close>

definition demo_codec :: "u32 \<Rightarrow> xf_message \<Rightarrow> codec" where
  "demo_codec st cmd = base.extend (demo_base\<lparr>b_state := st, b_core := (b_core demo_base)\<lparr>c_msg := demo_msgs(192 := cmd)\<rparr>\<rparr>)
     (codec.fields demo_in demo_out 0 0 0 0 0 0 0 0 no_out_port NULL NULL NULL 0 NULL False)"

lemma demo_codec_simps [simp]:
  "b_state (demo_codec st cmd) = st" "cd_input (demo_codec st cmd) = demo_in" "cd_output (demo_codec st cmd) = demo_out"
  "msg (demo_codec st cmd) 192 = cmd" "c_msg (b_core (demo_codec st cmd)) = demo_msgs(192 := cmd)"
  "cd_probe_enabled (demo_codec st cmd) = 0" "b_done (demo_codec st cmd) = []" "phase (demo_codec st cmd) = st AND 15"
  "has f (demo_codec st cmd) \<longleftrightarrow> st AND f \<noteq> 0"
  by (simp_all add: demo_codec_def codec.defs base.defs demo_base_def msg_def has_def phase_def)

lemma demo_ports:
  "xf_input_port_created demo_in" "\<not> xf_output_port_routed demo_out"
  "msg_queue_rel (demo_msgs(192 := cmd)) (ip_queue demo_in) [64, 128]" "msg_queue_rel h (op_queue demo_out) []"
  by (simp_all add: demo_in_def demo_out_def xf_input_port_created_def xf_output_port_routed_def out_flags demo_msgs_def
      msg_queue_rel_def xf_msg_queue_init_def XF_INPUT_FLAG_CREATED_def)

text \<open>
  Before the setup is complete, the commands that bring data, connect, disconnect or flush a codec
  are refused with \<^verbatim>\<open>XAF_API_ERR\<close> and change nothing.
\<close>

theorem commands_before_setup:
  assumes "\<not> has XA_BASE_FLAG_POSTINIT s" and "m \<noteq> NULL"
    and "opc \<in> {XF_EMPTY_THIS_BUFFER, XF_FILL_THIS_BUFFER, XF_ROUTE, XF_UNROUTE, XF_FLUSH}"
    and "XF_OPCODE_TYPE (m_opcode (msg s m)) = XF_OPCODE_TYPE opc"
  shows "xa_base_command (codec_class P n) m s = Some (s, XAF_API_ERR)"
  by (rule codec_not_ready [OF assms])

theorem commands_before_setup_witness:
  "xa_base_command (codec_class (\<lambda>_ _ _ s. (s, 0, 0)) 64) 192 (demo_codec 0 (no_msg\<lparr>m_opcode := XF_FLUSH\<rparr>)) =
     Some (demo_codec 0 (no_msg\<lparr>m_opcode := XF_FLUSH\<rparr>), XAF_API_ERR)"
  by (rule commands_before_setup [where opc = XF_FLUSH]) simp_all

text \<open>
  C36. The stages of a codec that is in one of them, that is new, set up, executing or completed:
  whatever command or data processing comes, with every plug-in that leaves the first four state bits
  alone, the stage stays as it is, or goes from new to set up, from there to executing, or between executing and
  completed; there is one exception, a flush of the input that comes before the initialisation, which
  may set the flags of all these stages at once.
\<close>

theorem component_stages:
  assumes "keeps_phase P" and "staged s" and "xa_base_command (codec_class P n) m s = Some (s', e)"
  shows "phase s' = phase s \<or> phase_step (phase s) (phase s') \<or>
    phase s = ph_init \<and> phase s' = ph_init OR ph_exec OR ph_done \<and> m \<noteq> NULL \<and>
      XF_OPCODE_TYPE (m_opcode (msg s m)) = XF_OPCODE_TYPE XF_FLUSH \<and> XF_MSG_DST_PORT (m_id (msg s m)) = 0"
  by (rule codec_stages [OF assms])

theorem component_stages_witness:
  "\<exists>s'. xa_base_command (codec_class (\<lambda>_ _ _ s. (s, 0, 0)) 64) 192
      (demo_codec 0 (no_msg\<lparr>m_opcode := XF_SET_PARAM\<rparr>)) = Some (s', 0) \<and> phase s' = ph_init \<and>
      phase_step 0 (phase s')"
proof -
  let ?P = "\<lambda>_ _ _ s. (s, 0, 0) :: codec \<times> int \<times> u32"
  let ?s = "demo_codec 0 (no_msg\<lparr>m_opcode := XF_SET_PARAM\<rparr>)"
  have P: "keeps_phase ?P" by (simp add: keeps_phase_def)
  have st: "staged ?s" by (simp add: staged_def)
  have "\<not> has XA_BASE_FLAG_POSTINIT (upd_component f ?s)" for f
    by (simp add: has_def upd_component_def on_core_def)
  then have "\<exists>s'. xa_base_command (codec_class ?P 64) 192 ?s = Some (s', 0) \<and> phase s' = ph_init"
    by (simp add: xa_base_command_def codec_class_def codec_methods_def xa_codec_cmd_def xa_base_set_param_def items_def
        XA_CODEC_CMD_NUM_def opcode_types no_msg_def XA_ERROR_SEVERITY_def Let_def xa_base_postinit_def XA_API_def
        CODEC_API_def) (simp add: phase_def upd_component_def on_core_def phases_eq flag_defs)
  then obtain s' where run: "xa_base_command (codec_class ?P 64) 192 ?s = Some (s', 0)" "phase s' = ph_init" by blast
  have "phase ?s = 0" by simp
  then have "phase_step 0 (phase s')" using component_stages [OF P st run(1)] run(2) by (simp add: phases_eq)
  with run show ?thesis by blast
qed

text \<open>
  C37. At the end of the stream of a codec whose output is not connected, when nothing was consumed or
  produced, every waiting output buffer and then every waiting input buffer is answered once, in order,
  with no data; both queues are empty, and the end of the stream is marked.
\<close>

theorem stream_end_answers_all:
  assumes "\<not> has XA_BASE_FLAG_RUNTIME_INIT s" and "\<not> has XA_BASE_FLAG_EXECUTION s" and "cd_probe_enabled s = 0"
    and "\<not> xf_output_port_routed (cd_output s)" and "msg_queue_rel (c_msg (b_core s)) (op_queue (cd_output s)) outs"
    and "xf_input_port_created (cd_input s)" and "msg_queue_rel (c_msg (b_core s)) (ip_queue (cd_input s)) ins"
    and "set outs \<inter> set ins = {}" and "done \<noteq> 0"
  shows "\<exists>s'. codec_postprocess P done 0 0 s = Some (s', 0) \<and> b_done s' = b_done s @ map (answered_ok (io_of s)) (outs @ ins) \<and>
    msg_queue_rel (c_msg (b_core s')) (op_queue (cd_output s')) [] \<and> msg_queue_rel (c_msg (b_core s')) (ip_queue (cd_input s')) [] \<and>
    b_state s' = (b_state s XOR XA_CODEC_FLAG_INPUT_SETUP) OR XA_CODEC_FLAG_EOS_SEQ_DONE"
  by (rule stream_end [OF assms])

theorem stream_end_answers_all_witness:
  "\<exists>s'. codec_postprocess (\<lambda>_ _ _ s. (s, 0, 0)) 1 0 0 (demo_codec ph_done no_msg) = Some (s', 0) \<and> map fst (b_done s') = [64, 128]"
proof -
  let ?s = "demo_codec ph_done no_msg"
  have "\<exists>s'. codec_postprocess (\<lambda>_ _ _ s. (s, 0, 0)) 1 0 0 ?s = Some (s', 0) \<and> b_done s' = b_done ?s @ map (answered_ok (io_of ?s)) ([] @ [64, 128]) \<and>
    msg_queue_rel (c_msg (b_core s')) (op_queue (cd_output s')) [] \<and> msg_queue_rel (c_msg (b_core s')) (ip_queue (cd_input s')) [] \<and>
    b_state s' = (b_state ?s XOR XA_CODEC_FLAG_INPUT_SETUP) OR XA_CODEC_FLAG_EOS_SEQ_DONE"
    by (rule stream_end_answers_all) (simp_all add: demo_ports phases_eq flag_defs)
  then show ?thesis by (fastforce simp: answered_ok_def)
qed

text \<open>
  C38. Flushing the input of a codec whose output is not connected answers every waiting input buffer,
  then every waiting output buffer, then the command. It also inverts the flags of execution and
  completion, whatever they are: a completed component becomes executing, and one that waits for its
  initialisation gets both flags.
\<close>

theorem flush_input_toggles:
  assumes "has XA_BASE_FLAG_POSTINIT s" and "\<not> has XA_BASE_FLAG_SCHEDULE s" and "m_length (msg s m) = 0"
    and "XF_MSG_DST_PORT (m_id (msg s m)) = 0" and "m \<notin> set ins \<union> set outs" and "xf_input_port_created (cd_input s)"
    and "msg_queue_rel (c_msg (b_core s)) (ip_queue (cd_input s)) ins" and "\<not> xf_output_port_routed (cd_output s)"
    and "msg_queue_rel (c_msg (b_core s)) (op_queue (cd_output s)) outs" and "set ins \<inter> set outs = {}"
    and "\<And>x. P XA_API_CMD_EXECUTE XA_CMD_TYPE_DO_RUNTIME_INIT (Ptr NULL) x = (x, 0, 0)"
  shows "\<exists>s'. xa_codec_flush P m s = Some (s', 0) \<and> phase s' = phase s XOR (XA_BASE_FLAG_EXECUTION OR XA_BASE_FLAG_COMPLETED) \<and>
    b_done s' = b_done s @ map (answered_ok (io_of s)) (ins @ outs) @ [(m, msg s m)]"
  by (rule flush_toggles [where P = P, OF assms])

theorem flush_input_toggles_witness:
  "(\<exists>s'. xa_codec_flush (\<lambda>_ _ _ s. (s, 0, 0)) 192 (demo_codec ph_init no_msg) = Some (s', 0) \<and> phase s' = 15 \<and>
      map fst (b_done s') = [64, 128, 192]) \<and>
   (\<exists>s'. xa_codec_flush (\<lambda>_ _ _ s. (s, 0, 0)) 192 (demo_codec ph_done no_msg) = Some (s', 0) \<and> phase s' = ph_exec)"
proof -
  have run: "\<exists>s'. xa_codec_flush (\<lambda>_ _ _ s. (s, 0, 0)) 192 (demo_codec st no_msg) = Some (s', 0) \<and>
      phase s' = phase (demo_codec st no_msg) XOR (XA_BASE_FLAG_EXECUTION OR XA_BASE_FLAG_COMPLETED) \<and>
      b_done s' = b_done (demo_codec st no_msg) @ map (answered_ok (io_of (demo_codec st no_msg))) ([64, 128] @ []) @
        [(192, msg (demo_codec st no_msg) 192)]" if "st \<in> {ph_init, ph_done}" for st
    by (rule flush_input_toggles) (use that in \<open>auto simp: demo_ports phases_eq flag_defs no_msg_def XF_MSG_DST_PORT_def\<close>)
  have "phase (demo_codec ph_init no_msg) = 3" "phase (demo_codec ph_done no_msg) = 9" by (simp_all add: phases_eq)
  then show ?thesis using run [of ph_init] run [of ph_done] by (fastforce simp: answered_ok_def flag_defs phases_eq)
qed

text \<open>
  C39. The time base is exact: for every sample rate of the table, one to sixteen channels and every
  sample width, the factor of the rate is positive and the size of a sample divides it, as
  \<^verbatim>\<open>xa_codec_prepare_runtime\<close> demands, in 64-bit arithmetic.
\<close>

theorem timebase_divides:
  assumes "rate \<in> timebase_rates" and "ch \<in> {1 .. 16}"
  shows "0 < xf_timebase_factor rate \<and> 0 < ch * bytes_per_sample width \<and>
    xf_timebase_factor rate div ucast (ch * bytes_per_sample width) * ucast (ch * bytes_per_sample width) = xf_timebase_factor rate"
  using timebase_exact [OF assms] by blast

theorem timebase_divides_witness:
  "xf_timebase_factor 44100 div ucast (11 * bytes_per_sample 24) * ucast (11 * bytes_per_sample 24) = xf_timebase_factor 44100"
  using timebase_divides [of 44100 11 24] by (simp add: timebase_rates_def)

end
