(* ===== verification/Mixer.thy ===== *)
theory Mixer
  imports Audio_Codec
begin

text \<open>
  The class of mixers (\<^verbatim>\<open>xa-class-mixer.c\<close>): up to four input tracks, one output port and a probe port,
  on the base class. The tracks are a function of their number; loops over them are recursions over the
  list of numbers.
\<close>

section \<open>State\<close>

record track =
  tk_input :: in_port
  tk_pts :: u32
  tk_decoded :: u32
  tk_rendered :: u32

record mixer = base +
  mx_track :: "u32 \<Rightarrow> track"
  mx_output :: out_port
  mx_frame_size :: u32
  mx_frame_duration :: u32
  mx_sample_size :: u32
  mx_factor :: u64
  mx_pts :: u32
  mx_probe_enabled :: u32
  mx_probe :: out_port
  mx_probe_output :: addr
  mx_out_ptr :: addr
  mx_response :: addr
  mx_terminating :: bool

definition XA_MIXER_MAX_TRACK_NUMBER :: u32 where "XA_MIXER_MAX_TRACK_NUMBER = 4"
definition XA_MIXER_PROBE_PORT_NUMBER :: u32 where "XA_MIXER_PROBE_PORT_NUMBER = XA_MIXER_MAX_TRACK_NUMBER + 1"

definition XA_MIXER_FLAG_OUTPUT_SETUP :: u32 where "XA_MIXER_FLAG_OUTPUT_SETUP = XA_BASE_FLAG (push_bit 0 1)"
definition XA_TRACK_FLAG_IDLE :: u32 where "XA_TRACK_FLAG_IDLE = push_bit 5 (push_bit 0 1)"
definition XA_TRACK_FLAG_ACTIVE :: u32 where "XA_TRACK_FLAG_ACTIVE = push_bit 5 (push_bit 1 1)"
definition XA_TRACK_FLAG_PAUSED :: u32 where "XA_TRACK_FLAG_PAUSED = push_bit 5 (push_bit 2 1)"
definition XA_TRACK_FLAG_INPUT_SETUP :: u32 where "XA_TRACK_FLAG_INPUT_SETUP = push_bit 5 (push_bit 3 1)"
definition XA_TRACK_FLAG_RECVD_DATA :: u32 where "XA_TRACK_FLAG_RECVD_DATA = push_bit 5 (push_bit 4 1)"
definition XA_OUT_TRACK_FLAG_PAUSED :: u32 where "XA_OUT_TRACK_FLAG_PAUSED = push_bit 8 (push_bit 0 1)"
definition XA_MIXER_FLAG_PROBE_SETUP :: u32 where "XA_MIXER_FLAG_PROBE_SETUP = push_bit 8 (push_bit 1 1)"
definition XA_MIXER_PROBE_PORT_PAUSED :: u32 where "XA_MIXER_PROBE_PORT_PAUSED = push_bit 8 (push_bit 2 1)"

definition XA_MIXER_CONFIG_PARAM_PCM_WIDTH :: u32 where "XA_MIXER_CONFIG_PARAM_PCM_WIDTH = 1"
definition XA_MIXER_CONFIG_PARAM_CHANNELS :: u32 where "XA_MIXER_CONFIG_PARAM_CHANNELS = 2"
definition XA_MIXER_CONFIG_PARAM_SAMPLE_RATE :: u32 where "XA_MIXER_CONFIG_PARAM_SAMPLE_RATE = 4"
definition XA_MIXER_CONFIG_PARAM_FRAME_SIZE :: u32 where "XA_MIXER_CONFIG_PARAM_FRAME_SIZE = 5"
definition XA_MIXER_CONFIG_FATAL_RANGE :: int where "XA_MIXER_CONFIG_FATAL_RANGE = XA_ERROR_CODE (- 1) 1 2 0"
definition XA_MIXER_EXEC_NONFATAL_NO_DATA :: int where "XA_MIXER_EXEC_NONFATAL_NO_DATA = XA_ERROR_CODE 0 2 2 1"
definition XA_MIXER_EXEC_FATAL_STATE :: int where "XA_MIXER_EXEC_FATAL_STATE = XA_ERROR_CODE (- 1) 2 2 0"

definition tracks :: "u32 list" where
  "tracks = map word_of_nat [0 ..< unat XA_MIXER_MAX_TRACK_NUMBER]"

section \<open>Tracks and ports\<close>

definition upd_track :: "u32 \<Rightarrow> (track \<Rightarrow> track) \<Rightarrow> mixer \<Rightarrow> mixer" where
  "upd_track i f s = s\<lparr>mx_track := (mx_track s)(i := f (mx_track s i))\<rparr>"

definition track_flags :: "mixer \<Rightarrow> u32 \<Rightarrow> u32" where
  "track_flags s i = ip_flags (tk_input (mx_track s i))"

definition xa_track_test_flags :: "u32 \<Rightarrow> u32 \<Rightarrow> mixer \<Rightarrow> bool" where
  "xa_track_test_flags i f s \<longleftrightarrow> track_flags s i AND f \<noteq> 0"

definition upd_track_flags :: "u32 \<Rightarrow> (u32 \<Rightarrow> u32) \<Rightarrow> mixer \<Rightarrow> mixer" where
  "upd_track_flags i g = upd_track i (\<lambda>t. t\<lparr>tk_input := (tk_input t)\<lparr>ip_flags := g (ip_flags (tk_input t))\<rparr>\<rparr>)"

definition xa_track_set_flags :: "u32 \<Rightarrow> u32 \<Rightarrow> mixer \<Rightarrow> mixer" where
  "xa_track_set_flags i f = upd_track_flags i (\<lambda>x. x OR f)"

definition xa_track_clear_flags :: "u32 \<Rightarrow> u32 \<Rightarrow> mixer \<Rightarrow> mixer" where
  "xa_track_clear_flags i f = upd_track_flags i (\<lambda>x. x AND NOT f)"

definition xa_track_toggle_flags :: "u32 \<Rightarrow> u32 \<Rightarrow> mixer \<Rightarrow> mixer" where
  "xa_track_toggle_flags i f = upd_track_flags i (\<lambda>x. x XOR f)"

definition put_track :: "u32 \<Rightarrow> io \<Rightarrow> in_port \<Rightarrow> mixer \<Rightarrow> mixer" where
  "put_track i io p s = upd_track i (tk_input_update (\<lambda>_. p)) (with_io io s)"

definition mx_put_output :: "io \<Rightarrow> out_port \<Rightarrow> mixer \<Rightarrow> mixer" where
  "mx_put_output io p s = (with_io io s)\<lparr>mx_output := p\<rparr>"

definition mx_put_probe :: "io \<Rightarrow> out_port \<Rightarrow> mixer \<Rightarrow> mixer" where
  "mx_put_probe io p s = (with_io io s)\<lparr>mx_probe := p\<rparr>"

definition track_purge :: "u32 \<Rightarrow> mixer \<Rightarrow> mixer option" where
  "track_purge i s = do { (io, p) \<leftarrow> xf_input_port_purge (io_of s) (tk_input (mx_track s i)); Some (put_track i io p s) }"

fun tracks_purge :: "u32 list \<Rightarrow> mixer \<Rightarrow> mixer option" where
  "tracks_purge [] s = Some s"
| "tracks_purge (i # js) s = do { s \<leftarrow> track_purge i s; tracks_purge js s }"

definition track_fill :: "u32 \<Rightarrow> mixer \<Rightarrow> mixer" where
  "track_fill i s = (case xf_input_port_fill (io_of s) (tk_input (mx_track s i)) of (io, p, _) \<Rightarrow> put_track i io p s)"

definition track_consume :: "u32 \<Rightarrow> u32 \<Rightarrow> mixer \<Rightarrow> mixer" where
  "track_consume i n s = (case xf_input_port_consume (io_of s) (tk_input (mx_track s i)) n of (io, p) \<Rightarrow> put_track i io p s)"

definition mx_output_flush :: "u32 \<Rightarrow> mixer \<Rightarrow> (mixer \<times> bool) option" where
  "mx_output_flush opcode s =
     do { (io, p, r) \<leftarrow> xf_output_port_flush (io_of s) (mx_output s) opcode; Some (mx_put_output io p s, r) }"

definition mx_probe_flush :: "u32 \<Rightarrow> mixer \<Rightarrow> (mixer \<times> bool) option" where
  "mx_probe_flush opcode s =
     do { (io, p, r) \<leftarrow> xf_output_port_flush (io_of s) (mx_probe s) opcode; Some (mx_put_probe io p s, r) }"

definition mx_output_produce :: "u32 \<Rightarrow> mixer \<Rightarrow> mixer" where
  "mx_output_produce n s = (case xf_output_port_produce (io_of s) (mx_output s) n of (io, p, _) \<Rightarrow> mx_put_output io p s)"

definition mx_probe_produce :: "u32 \<Rightarrow> mixer \<Rightarrow> mixer" where
  "mx_probe_produce n s = (case xf_output_port_produce (io_of s) (mx_probe s) n of (io, p, _) \<Rightarrow> mx_put_probe io p s)"

definition mx_output_type :: "mixer \<Rightarrow> u32" where
  "mx_output_type s = pool_type s XAF_MEM_POOL_TYPE_COMP_OUTPUT"

definition mx_output_unroute :: "mixer \<Rightarrow> mixer option" where
  "mx_output_unroute s =
     do { (io, p) \<leftarrow> xf_output_port_unroute (io_of s) (mx_output s) (mx_output_type s); Some (mx_put_output io p s) }"

definition mx_output_unroute_done :: "mixer \<Rightarrow> mixer option" where
  "mx_output_unroute_done s =
     do { (io, p) \<leftarrow> xf_output_port_unroute_done (io_of s) (mx_output s) (mx_output_type s); Some (mx_put_output io p s) }"

definition mx_output_flush_done :: "mixer \<Rightarrow> mixer" where
  "mx_output_flush_done s = s\<lparr>mx_output := xf_output_port_flush_done (mx_output s)\<rparr>"

definition mx_upd_output_flags :: "(u32 \<Rightarrow> u32) \<Rightarrow> mixer \<Rightarrow> mixer" where
  "mx_upd_output_flags f s = s\<lparr>mx_output := (mx_output s)\<lparr>op_flags := f (op_flags (mx_output s))\<rparr>\<rparr>"

definition mx_upd_probe_flags :: "(u32 \<Rightarrow> u32) \<Rightarrow> mixer \<Rightarrow> mixer" where
  "mx_upd_probe_flags f s = s\<lparr>mx_probe := (mx_probe s)\<lparr>op_flags := f (op_flags (mx_probe s))\<rparr>\<rparr>"

definition mx_output_paused :: "mixer \<Rightarrow> bool" where
  "mx_output_paused s = xa_port_test_flags (op_flags (mx_output s)) XA_OUT_TRACK_FLAG_PAUSED"

definition mx_probe_paused :: "mixer \<Rightarrow> bool" where
  "mx_probe_paused s = xa_port_test_flags (op_flags (mx_probe s)) XA_MIXER_PROBE_PORT_PAUSED"

definition xf_time_after :: "u32 \<Rightarrow> u32 \<Rightarrow> bool" where
  "xf_time_after a b \<longleftrightarrow> 0 < sint (a - b)"

section \<open>Runtime initialisation\<close>

text \<open>The frame duration is a 32-bit field, the time base factor has 64 bits.\<close>

definition xa_mixer_prepare_runtime :: "mixer plugin \<Rightarrow> mixer \<Rightarrow> mixer result" where
  "xa_mixer_prepare_runtime P s =
     (let m = xf_msg_queue_head (op_queue (mx_output s)); b = m_buffer (msg s m) in
      if m = NULL then None
      else
        XA_API P XA_API_CMD_GET_CONFIG_PARAM XA_MIXER_CONFIG_PARAM_SAMPLE_RATE (Ptr b) s (\<lambda>s _ _.
        XA_API P XA_API_CMD_GET_CONFIG_PARAM XA_MIXER_CONFIG_PARAM_CHANNELS (Ptr (b + 4)) s (\<lambda>s _ _.
        XA_API P XA_API_CMD_GET_CONFIG_PARAM XA_MIXER_CONFIG_PARAM_PCM_WIDTH (Ptr (b + 8)) s (\<lambda>s _ _.
        XA_API P XA_API_CMD_GET_MEM_INFO_SIZE 0 (Ptr (b + 12)) s (\<lambda>s _ _.
        XA_API P XA_API_CMD_GET_MEM_INFO_SIZE XA_MIXER_MAX_TRACK_NUMBER (Ptr (b + 28)) s (\<lambda>s _ _.
        XA_API P XA_API_CMD_GET_CONFIG_PARAM XA_MIXER_CONFIG_PARAM_FRAME_SIZE (Local 0) s (\<lambda>s _ frame_size.
          let s = put32 (b + 44) (if mx_probe_enabled s \<noteq> 0 then op_length (mx_probe s) else 0) s;
              s = s\<lparr>mx_sample_size := get32 s (b + 4) * bytes_per_sample (get32 s (b + 8))\<rparr>;
              sz = mx_sample_size s;
              factor = xf_timebase_factor (get32 s b)
          in if factor = 0 then Some (s, XA_MIXER_CONFIG_FATAL_RANGE)
             else if \<not> 0 < sz then Some (s, XA_API_FATAL_INVALID_CMD_TYPE)
             else
               let s = s\<lparr>mx_factor := factor div ucast sz\<rparr> in
               if mx_factor s * ucast sz \<noteq> factor then Some (s, XA_MIXER_CONFIG_FATAL_RANGE)
               else do {
                 let s = s\<lparr>mx_frame_duration := ucast (ucast frame_size * factor)\<rparr>;
                 (io, p, err) \<leftarrow> xf_output_port_route_alloc (io_of s) (mx_output s) (get32 s (b + 28)) (mx_output_type s);
                 let s = mx_put_output io p s;
                 s \<leftarrow> schedule_if ((err = 0 \<or> err = 1) \<and> xf_output_port_ready (mx_output s)) s;
                 Some (mx_output_produce start_msg_size s, 0) })))))))"

section \<open>Commands\<close>

definition mx_restart :: "mixer plugin \<Rightarrow> mixer \<Rightarrow> (mixer \<Rightarrow> mixer result) \<Rightarrow> mixer result" where
  "mx_restart P s k =
     (if has XA_BASE_FLAG_COMPLETED s
      then XA_API P XA_API_CMD_EXECUTE XA_CMD_TYPE_DO_RUNTIME_INIT (Ptr NULL)
             (set_state (XA_BASE_FLAG_POSTINIT OR XA_BASE_FLAG_EXECUTION) s) (\<lambda>s _ _. k s)
      else k s)"

definition xa_mixer_empty_this_buffer :: "mixer plugin \<Rightarrow> addr \<Rightarrow> mixer \<Rightarrow> mixer result" where
  "xa_mixer_empty_this_buffer P m s =
     (let i = XF_MSG_DST_PORT (m_id (msg s m)) in
      if \<not> i < XA_MIXER_MAX_TRACK_NUMBER then Some (s, XA_API_FATAL_INVALID_CMD_TYPE)
      else if \<not> has XA_BASE_FLAG_POSTINIT s then Some (s, XA_API_FATAL_INVALID_CMD)
      else
        let s = (if m_length (msg s m) \<noteq> 0 then xa_track_set_flags i XA_TRACK_FLAG_RECVD_DATA s
                 else xa_track_clear_flags i XA_TRACK_FLAG_RECVD_DATA s);
            (io, p, first) = xf_input_port_put (io_of s) (tk_input (mx_track s i)) m; s = put_track i io p s
        in if \<not> first then Some (s, 0)
           else mx_restart P s (\<lambda>s.
             let s = (if xa_track_test_flags i XA_TRACK_FLAG_IDLE s
                      then upd_track i (tk_pts_update (\<lambda>_. mx_pts s))
                             (xa_track_toggle_flags i (XA_TRACK_FLAG_IDLE OR XA_TRACK_FLAG_ACTIVE) s)
                      else s)
             in do { s \<leftarrow> schedule_if (xf_output_port_ready (mx_output s)) s; Some (s, 0) }))"

definition mx_fill_probe :: "addr \<Rightarrow> mixer \<Rightarrow> mixer result" where
  "mx_fill_probe m s =
     (if has XA_BASE_FLAG_COMPLETED s \<or> mx_probe_paused s then Some (respond_ok m s, 0)
      else
        let s = on_core (upd_msg m (m_length_update (\<lambda>_. op_length (mx_probe s)))) s;
            (io, p, first) = xf_output_port_put (io_of s) (mx_probe s) m; s = mx_put_probe io p s
        in do {
          s \<leftarrow> schedule_if (first \<and> xf_output_port_ready (mx_output s) \<and> has XA_BASE_FLAG_EXECUTION s) s;
          Some (s, 0) })"

definition mx_fill_put :: "addr \<Rightarrow> mixer \<Rightarrow> mixer result" where
  "mx_fill_put m s =
     (let (io, p, first) = xf_output_port_put (io_of s) (mx_output s) m; s = mx_put_output io p s in
      if first then
        if mx_probe_enabled s \<noteq> 0 \<and> \<not> has XA_BASE_FLAG_RUNTIME_INIT s \<and>
           \<not> xf_output_port_ready (mx_probe s) \<and> \<not> mx_probe_paused s
        then Some (s, 0)
        else do { s \<leftarrow> xa_base_schedule 0 s; Some (s, 0) }
      else Some (s, 0))"

definition mx_fill_control :: "addr \<Rightarrow> mixer \<Rightarrow> mixer result" where
  "mx_fill_control m s =
     (let s = mx_output_flush_done s in do {
        s \<leftarrow> (if xf_output_port_unrouting (mx_output s) then mx_output_unroute_done s
              else if m_length (msg s m) = XF_MSG_LENGTH_INVALID then mx_output_unroute s
              else Some s);
        s \<leftarrow> tracks_purge tracks s;
        Some (s, 0) })"

definition mx_fill_drop :: "addr \<Rightarrow> mixer \<Rightarrow> mixer result" where
  "mx_fill_drop m s =
     (let s = on_core (upd_msg m (m_length_update (\<lambda>_. op_length (mx_output s)))) s in
      if \<not> xf_output_port_flushing (mx_output s) then do {
        s \<leftarrow> xa_base_cancel s;
        (s, _) \<leftarrow> mx_output_flush XF_FILL_THIS_BUFFER s;
        Some (clear_flags XA_MIXER_FLAG_OUTPUT_SETUP s, 0) }
      else Some (s, 0))"

definition xa_mixer_fill_this_buffer :: "addr \<Rightarrow> mixer \<Rightarrow> mixer result" where
  "xa_mixer_fill_this_buffer m s =
     (let i = XF_MSG_DST_PORT (m_id (msg s m)) in
      if \<not> has XA_BASE_FLAG_POSTINIT s then Some (s, XA_API_FATAL_INVALID_CMD)
      else if mx_probe_enabled s \<noteq> 0 \<and> i = XA_MIXER_PROBE_PORT_NUMBER then mx_fill_probe m s
      else if i \<noteq> XA_MIXER_MAX_TRACK_NUMBER then Some (s, XA_API_FATAL_INVALID_CMD_TYPE)
      else if has XA_BASE_FLAG_RUNTIME_INIT s then
        if m_length (msg s m) \<noteq> 0 then Some (s, XA_MIXER_EXEC_FATAL_STATE) else mx_fill_put m s
      else if m = xf_output_port_control_msg (mx_output s) then mx_fill_control m s
      else if m_length (msg s m) = XF_MSG_LENGTH_INVALID \<and> xf_output_port_routed (mx_output s) then mx_fill_drop m s
      else if has XA_BASE_FLAG_COMPLETED s \<and> \<not> xf_output_port_routed (mx_output s) then Some (respond_ok m s, 0)
      else mx_fill_put m (on_core (upd_msg m (m_length_update (\<lambda>_. op_length (mx_output s)))) s))"

definition xa_mixer_port_route :: "addr \<Rightarrow> mixer \<Rightarrow> mixer result" where
  "xa_mixer_port_route m s =
     (let cmd = m_buffer (msg s m); src = XF_MSG_DST (m_id (msg s m)); dst = ucast (get64 s (cmd + 8)) :: u32 in
      if \<not> has XA_BASE_FLAG_POSTINIT s then Some (s, XA_API_FATAL_INVALID_CMD)
      else if XF_MSG_DST_PORT (m_id (msg s m)) \<noteq> XA_MIXER_MAX_TRACK_NUMBER then Some (s, XA_API_FATAL_INVALID_CMD_TYPE)
      else if xf_output_port_routed (mx_output s) then Some (s, XA_API_FATAL_INVALID_CMD_TYPE)
      else do {
        (io, p, r) \<leftarrow> xf_output_port_route (io_of s) (mx_output s) (XF_MSG_ID (ucast dst) (ucast src))
          (get32 s (cmd + 16)) (get32 s (cmd + 20)) (get32 s (cmd + 24)) (mx_output_type s);
        let s = mx_put_output io p s;
        if r \<noteq> 0 then Some (s, XA_API_FATAL_MEM_ALLOC)
        else do { s \<leftarrow> schedule_if (xf_output_port_ready (mx_output s)) s; Some (respond_ok m s, 0) } })"

definition xa_mixer_port_unroute :: "addr \<Rightarrow> mixer \<Rightarrow> mixer result" where
  "xa_mixer_port_unroute m s =
     (if \<not> has XA_BASE_FLAG_POSTINIT s then Some (s, XA_API_FATAL_INVALID_CMD)
      else if XF_MSG_DST_PORT (m_id (msg s m)) \<noteq> XA_MIXER_MAX_TRACK_NUMBER then Some (s, XA_API_FATAL_INVALID_CMD_TYPE)
      else if \<not> xf_output_port_routed (mx_output s) then Some (respond_ok m s, 0)
      else do {
        s \<leftarrow> xa_base_cancel s;
        (s, idle) \<leftarrow> mx_output_flush XF_FLUSH (clear_flags XA_MIXER_FLAG_OUTPUT_SETUP s);
        if idle then do { s \<leftarrow> mx_output_unroute s; Some (respond_ok m s, 0) }
        else Some (s\<lparr>mx_output := xf_output_port_unroute_start (mx_output s) m\<rparr>, 0) })"

definition xa_mixer_pause :: "addr \<Rightarrow> mixer \<Rightarrow> mixer result" where
  "xa_mixer_pause m s =
     (let i = XF_MSG_DST_PORT (m_id (msg s m)) in
      if m_length (msg s m) \<noteq> 0 then Some (s, XA_API_FATAL_INVALID_CMD_TYPE)
      else if \<not> i \<le> XA_MIXER_PROBE_PORT_NUMBER then Some (s, XA_API_FATAL_INVALID_CMD_TYPE)
      else if has XA_BASE_FLAG_COMPLETED s then Some (respond_ok m s, 0)
      else do {
        s \<leftarrow> (if i < XA_MIXER_MAX_TRACK_NUMBER \<and> xa_track_test_flags i XA_TRACK_FLAG_ACTIVE s then
                let s = xa_track_toggle_flags i (XA_TRACK_FLAG_ACTIVE OR XA_TRACK_FLAG_PAUSED) s
                in schedule_if (xf_output_port_ready (mx_output s)) s
              else if i = XA_MIXER_MAX_TRACK_NUMBER \<and> \<not> mx_output_paused s
              then Some (mx_upd_output_flags (\<lambda>f. xa_port_set_flags f XA_OUT_TRACK_FLAG_PAUSED) s)
              else if mx_probe_enabled s \<noteq> 0 \<and> i = XA_MIXER_PROBE_PORT_NUMBER \<and> \<not> mx_probe_paused s then do {
                (s, _) \<leftarrow> mx_probe_flush XF_FLUSH s;
                let s = mx_upd_probe_flags (\<lambda>f. xa_port_set_flags f XA_MIXER_PROBE_PORT_PAUSED) s;
                schedule_if (xf_output_port_ready (mx_output s)) s }
              else Some s);
        Some (on_io (xf_response m) s, 0) })"

definition xa_mixer_resume :: "addr \<Rightarrow> mixer \<Rightarrow> mixer result" where
  "xa_mixer_resume m s =
     (let i = XF_MSG_DST_PORT (m_id (msg s m)) in
      if m_length (msg s m) \<noteq> 0 then Some (s, XA_API_FATAL_INVALID_CMD_TYPE)
      else if \<not> i \<le> XA_MIXER_PROBE_PORT_NUMBER then Some (s, XA_API_FATAL_INVALID_CMD_TYPE)
      else if has XA_BASE_FLAG_COMPLETED s then Some (respond_ok m s, 0)
      else do {
        s \<leftarrow> (if i < XA_MIXER_MAX_TRACK_NUMBER \<and> xa_track_test_flags i XA_TRACK_FLAG_PAUSED s then
                let s = upd_track i (tk_pts_update (\<lambda>_. mx_pts s))
                          (xa_track_toggle_flags i (XA_TRACK_FLAG_ACTIVE OR XA_TRACK_FLAG_PAUSED) s)
                in schedule_if (xf_output_port_ready (mx_output s)) s
              else if i = XA_MIXER_MAX_TRACK_NUMBER \<and> mx_output_paused s then
                let s = mx_upd_output_flags (\<lambda>f. xa_port_clear_flags f XA_OUT_TRACK_FLAG_PAUSED) s
                in schedule_if (xf_output_port_ready (mx_output s)) s
              else if mx_probe_enabled s \<noteq> 0 \<and> i = XA_MIXER_PROBE_PORT_NUMBER \<and> mx_probe_paused s then
                let s = mx_upd_probe_flags (\<lambda>f. xa_port_clear_flags f XA_MIXER_PROBE_PORT_PAUSED) s
                in schedule_if (xf_output_port_ready (mx_output s) \<and> xf_output_port_ready (mx_probe s)) s
              else Some s);
        Some (on_io (xf_response m) s, 0) })"

definition xa_mixer_flush :: "addr \<Rightarrow> mixer \<Rightarrow> mixer result" where
  "xa_mixer_flush m s =
     (let i = XF_MSG_DST_PORT (m_id (msg s m)) in
      if m_length (msg s m) \<noteq> 0 \<and> m_length (msg s m) \<noteq> XF_MSG_LENGTH_INVALID
      then Some (s, XA_API_FATAL_INVALID_CMD_TYPE)
      else if i = XA_MIXER_MAX_TRACK_NUMBER then
        if \<not> xf_output_port_unrouting (mx_output s) then Some (s, XA_API_FATAL_INVALID_CMD_TYPE)
        else do { s \<leftarrow> mx_output_unroute_done s; Some (s, 0) }
      else if \<not> i < XA_MIXER_MAX_TRACK_NUMBER then Some (s, XA_API_FATAL_INVALID_CMD_TYPE)
      else do {
        s \<leftarrow> (if xa_track_test_flags i (XA_TRACK_FLAG_ACTIVE OR XA_TRACK_FLAG_PAUSED) s then do {
                s \<leftarrow> track_purge i s;
                let s = xa_track_set_flags i XA_TRACK_FLAG_IDLE
                          (xa_track_clear_flags i (XA_TRACK_FLAG_ACTIVE OR XA_TRACK_FLAG_PAUSED OR
                             XA_TRACK_FLAG_INPUT_SETUP OR XA_TRACK_FLAG_RECVD_DATA) s);
                schedule_if (xf_output_port_ready (mx_output s)) s }
              else Some s);
        Some (on_io (xf_response m) s, 0) })"

section \<open>Memory tables\<close>

text \<open>The size of the probe buffer, up to the first port that does not exist yet; \<open>Inl\<close> is an error.\<close>

fun mx_probe_size :: "mixer \<Rightarrow> u32 list \<Rightarrow> u32 \<Rightarrow> int + u32 option" where
  "mx_probe_size s [] n = Inr (Some n)"
| "mx_probe_size s (i # js) n =
     (let p = tk_input (mx_track s i) in
      if \<not> xf_input_port_created p then Inr None
      else if xf_input_port_bypass p \<and> XF_CHK_PORT_MASK (mx_probe_enabled s) (unat i) then Inl XAF_INVALIDVAL_ERR
      else mx_probe_size s js
             (n + (if XF_CHK_PORT_MASK (mx_probe_enabled s) (unat i) then XF_ALIGNED_PROBE_SIZE (ip_length p) else 0)))"

definition mx_memtab_probe :: "mixer \<Rightarrow> mixer result" where
  "mx_memtab_probe s =
     (if mx_probe_enabled s = 0 \<or> \<not> xf_output_port_created (mx_output s) then Some (s, 0)
      else
        let n = (if XF_CHK_PORT_MASK (mx_probe_enabled s) (unat XA_MIXER_MAX_TRACK_NUMBER)
                 then XF_ALIGNED_PROBE_SIZE (op_length (mx_output s)) else 0)
        in case mx_probe_size s tracks n of
             Inl e \<Rightarrow> Some (s, e)
           | Inr None \<Rightarrow> Some (s, 0)
           | Inr (Some n) \<Rightarrow>
               Some (mx_upd_probe_flags (\<lambda>f. xa_port_set_flags f XA_MIXER_PROBE_PORT_PAUSED)
                       (s\<lparr>mx_probe := xf_output_port_init (mx_probe s) n\<rparr>), 0))"

definition xa_mixer_memtab :: "mixer plugin \<Rightarrow> u32 \<Rightarrow> u32 \<Rightarrow> u32 \<Rightarrow> u32 \<Rightarrow> mixer \<Rightarrow> mixer result" where
  "xa_mixer_memtab P idx t sz align s =
     (if t = XA_MEMTYPE_INPUT then
        if \<not> idx <s XA_MIXER_MAX_TRACK_NUMBER then Some (s, XA_API_FATAL_INVALID_CMD_TYPE)
        else do {
          (io, p, r) \<leftarrow> xf_input_port_init (io_of s) (tk_input (mx_track s idx)) sz align
            (pool_type s XAF_MEM_POOL_TYPE_COMP_INPUT);
          let s = put_track idx io p s;
          if r \<noteq> 0 then Some (s, XA_API_FATAL_MEM_ALLOC)
          else
            let idle = (\<lambda>s. mx_memtab_probe (xa_track_set_flags idx XA_TRACK_FLAG_IDLE s))
            in if sz \<noteq> 0
               then XA_API P XA_API_CMD_SET_MEM_PTR idx (Ptr (ip_buffer (tk_input (mx_track s idx)))) s (\<lambda>s _ _. idle s)
               else idle s }
      else if t \<noteq> XA_MEMTYPE_OUTPUT then Some (s, XA_API_FATAL_INVALID_CMD_TYPE)
      else if idx \<noteq> XA_MIXER_MAX_TRACK_NUMBER then Some (s, XA_API_FATAL_INVALID_CMD_TYPE)
      else XA_API P XA_API_CMD_GET_CONFIG_PARAM XA_MIXER_CONFIG_PARAM_FRAME_SIZE (Local (mx_frame_size s)) s (\<lambda>s _ n.
        mx_memtab_probe (s\<lparr>mx_frame_size := n, mx_output := xf_output_port_init (mx_output s) sz\<rparr>)))"

section \<open>Processing\<close>

definition mx_preprocess_probe :: "mixer \<Rightarrow> (mixer \<Rightarrow> mixer result) \<Rightarrow> mixer result" where
  "mx_preprocess_probe s k =
     (if mx_probe_enabled s \<noteq> 0 \<and> \<not> mx_probe_paused s \<and> op_flags (mx_probe s) AND XA_MIXER_FLAG_PROBE_SETUP = 0 \<and>
         \<not> has XA_BASE_FLAG_RUNTIME_INIT s
      then
        let output = xf_output_port_data (io_of s) (mx_probe s) in
        if output = NULL then Some (s, XA_MIXER_EXEC_NONFATAL_NO_DATA)
        else k (mx_upd_probe_flags (\<lambda>f. f XOR XA_MIXER_FLAG_PROBE_SETUP) (s\<lparr>mx_probe_output := output\<rparr>))
      else k s)"

text \<open>
  The data of a track that is to be played: \<open>nodata\<close> is taken when more input is needed, \<open>ready\<close>
  otherwise.
\<close>

definition track_data :: "mixer plugin \<Rightarrow> u32 \<Rightarrow> mixer \<Rightarrow> (mixer \<Rightarrow> mixer result) \<Rightarrow> (mixer \<Rightarrow> mixer result) \<Rightarrow> mixer result" where
  "track_data P i s nodata ready =
     (let port = (\<lambda>s. tk_input (mx_track s i));
          set = (\<lambda>filled s. XA_API P XA_API_CMD_SET_INPUT_BYTES i (Local filled) s (\<lambda>s _ _.
            if xf_input_port_done (port s) then XA_API P XA_API_CMD_INPUT_OVER i (Ptr NULL) s (\<lambda>s _ _. ready s)
            else ready s))
      in if xf_input_port_bypass (port s) then
           let s = track_fill i s; input = xf_input_port_data (port s) in
           if input \<noteq> NULL
           then XA_API P XA_API_CMD_SET_MEM_PTR i (Ptr input) s (\<lambda>s _ _. set (xf_input_port_length (port s)) s)
           else if \<not> xf_input_port_done (port s) then nodata s
           else set 0 s
         else if xf_input_port_done (port s) then set 0 s
         else
           let s = track_fill i s; filled = xf_input_port_level (port s) in
           if filled = 0 \<and> \<not> xf_input_port_done (port s) then nodata s else set filled s)"

text \<open>\<open>e\<close> becomes 0 at the first active track; \<open>short\<close> says that a track has no data yet.\<close>

fun mx_preprocess_tracks :: "mixer plugin \<Rightarrow> u32 list \<Rightarrow> int \<Rightarrow> bool \<Rightarrow> mixer \<Rightarrow> mixer result" where
  "mx_preprocess_tracks P [] e short s = Some (s, if short then XA_MIXER_EXEC_NONFATAL_NO_DATA else e)"
| "mx_preprocess_tracks P (i # js) e short s =
     (if \<not> xa_track_test_flags i XA_TRACK_FLAG_ACTIVE s then
        if \<not> xa_track_test_flags i XA_TRACK_FLAG_PAUSED s
        then XA_API P XA_API_CMD_INPUT_OVER i (Ptr NULL) s (\<lambda>s _ _. mx_preprocess_tracks P js e short s)
        else mx_preprocess_tracks P js e short s
      else if xa_track_test_flags i XA_TRACK_FLAG_INPUT_SETUP s then mx_preprocess_tracks P js 0 short s
      else
        let ready = (\<lambda>s. mx_preprocess_tracks P js 0 short (xa_track_set_flags i XA_TRACK_FLAG_INPUT_SETUP s))
        in if xf_time_after (tk_pts (mx_track s i)) (mx_pts s) then ready s
           else track_data P i s (\<lambda>s. mx_preprocess_tracks P js 0 True s) ready)"

definition xa_mixer_preprocess :: "mixer plugin \<Rightarrow> mixer \<Rightarrow> mixer result" where
  "xa_mixer_preprocess P s =
     (let inputs = mx_preprocess_tracks P tracks XA_MIXER_EXEC_NONFATAL_NO_DATA False in
      if mx_output_paused s then Some (s, XA_MIXER_EXEC_NONFATAL_NO_DATA)
      else mx_preprocess_probe s (\<lambda>s.
        if has XA_MIXER_FLAG_OUTPUT_SETUP s then inputs s
        else if has XA_BASE_FLAG_RUNTIME_INIT s then Some (s, 0)
        else
          let output = xf_output_port_data (io_of s) (mx_output s) in
          if output = NULL then Some (s, XA_MIXER_EXEC_NONFATAL_NO_DATA)
          else XA_API P XA_API_CMD_SET_MEM_PTR XA_MIXER_MAX_TRACK_NUMBER (Ptr output) (s\<lparr>mx_out_ptr := output\<rparr>) (\<lambda>s _ _.
            inputs (toggle_flags XA_MIXER_FLAG_OUTPUT_SETUP s))))"

definition mx_probe_part :: "u32 \<Rightarrow> u32 \<Rightarrow> addr \<Rightarrow> mixer \<times> u32 \<times> addr \<Rightarrow> mixer \<times> u32 \<times> addr" where
  "mx_probe_part i n data = (\<lambda>(s, len, p).
     if mx_probe_enabled s \<noteq> 0 \<and> \<not> mx_probe_paused s \<and> XF_CHK_PORT_MASK (mx_probe_enabled s) (unat i)
     then (case xf_copy_probe_data p i n data s of (s, p) \<Rightarrow> (s, len + n, p))
     else (s, len, p))"

text \<open>A track that is at the end of its stream answers its input and becomes idle.\<close>

definition track_finish :: "u32 \<Rightarrow> mixer \<Rightarrow> mixer option" where
  "track_finish i s =
     (if xf_input_port_done (tk_input (mx_track s i)) then do {
        s \<leftarrow> track_purge i s;
        Some (xa_track_toggle_flags i (XA_TRACK_FLAG_ACTIVE OR XA_TRACK_FLAG_IDLE) s) }
      else Some s)"

fun mx_postprocess_tracks :: "mixer plugin \<Rightarrow> u32 list \<Rightarrow> u32 \<Rightarrow> addr \<Rightarrow> mixer \<Rightarrow>
    (u32 \<Rightarrow> addr \<Rightarrow> mixer \<Rightarrow> mixer result) \<Rightarrow> mixer result" where
  "mx_postprocess_tracks P [] len p s k = k len p s"
| "mx_postprocess_tracks P (i # js) len p s k =
     (if \<not> xa_track_test_flags i XA_TRACK_FLAG_ACTIVE s \<and> \<not> xa_track_test_flags i XA_TRACK_FLAG_INPUT_SETUP s
      then mx_postprocess_tracks P js len p s k
      else
        let s = xa_track_clear_flags i XA_TRACK_FLAG_INPUT_SETUP s;
            s = upd_track i (tk_pts_update (\<lambda>t. t + mx_frame_size s)) s
        in XA_API P XA_API_CMD_GET_CURIDX_INPUT_BUF i (Local 0) s (\<lambda>s _ consumed.
             let (s, len, p) = mx_probe_part i consumed (ip_buffer (tk_input (mx_track s i))) (s, len, p);
                 s = track_consume i consumed s
             in do { s \<leftarrow> track_finish i s; mx_postprocess_tracks P js len p s k }))"

definition mx_post_output :: "u32 \<Rightarrow> mixer \<Rightarrow> mixer" where
  "mx_post_output produced s =
     (if produced \<noteq> 0
      then clear_flags XA_MIXER_FLAG_OUTPUT_SETUP (mx_output_produce produced (s\<lparr>mx_pts := mx_pts s + mx_frame_size s\<rparr>))
      else s)"

definition mx_post_probe :: "u32 \<Rightarrow> addr \<Rightarrow> mixer \<Rightarrow> mixer" where
  "mx_post_probe len p s =
     (if len \<noteq> 0
      then mx_upd_probe_flags (\<lambda>f. f XOR XA_MIXER_FLAG_PROBE_SETUP) (mx_probe_produce (p - mx_probe_output s) s)
      else s)"

definition mx_post_outputs :: "u32 \<Rightarrow> u32 \<Rightarrow> u32 \<Rightarrow> addr \<Rightarrow> mixer \<Rightarrow> mixer result" where
  "mx_post_outputs done produced len p s =
     (let (s, len, p) = mx_probe_part XA_MIXER_MAX_TRACK_NUMBER produced (mx_out_ptr s) (s, len, p);
          s = mx_post_probe len p (mx_post_output produced s)
      in if done \<noteq> 0 \<and> \<not> has XA_BASE_FLAG_RUNTIME_INIT s then do {
           (s, _) \<leftarrow> mx_output_flush XF_FILL_THIS_BUFFER s;
           s \<leftarrow> (if mx_probe_enabled s \<noteq> 0 then do { (s, _) \<leftarrow> mx_probe_flush XF_FLUSH s; Some s } else Some s);
           Some (s, 0) }
         else do {
           s \<leftarrow> (if xf_output_port_ready (mx_output s)
                 then xa_base_schedule (if produced \<noteq> 0 then ucast (mx_frame_duration s) else 0) s else Some s);
           Some (s, 0) })"

definition xa_mixer_postprocess :: "mixer plugin \<Rightarrow> u32 \<Rightarrow> mixer \<Rightarrow> mixer result" where
  "xa_mixer_postprocess P done s =
     (if done \<noteq> 0 \<and> has XA_BASE_FLAG_EXECUTION s then xa_mixer_prepare_runtime P s
      else mx_postprocess_tracks P tracks 0 (mx_probe_output s) s (\<lambda>len p s.
        if mx_sample_size s \<noteq> 0
        then XA_API P XA_API_CMD_GET_OUTPUT_BYTES XA_MIXER_MAX_TRACK_NUMBER (Local 0) s (\<lambda>s _ produced.
          mx_post_outputs done produced len p s)
        else mx_post_outputs done 0 len p s))"

section \<open>The class and its entry points\<close>

definition xa_mixer_setparam :: "mixer plugin \<Rightarrow> u32 \<Rightarrow> addr \<Rightarrow> mixer \<Rightarrow> mixer result" where
  "xa_mixer_setparam P i pv s =
     (if i = XAF_COMP_CONFIG_PARAM_PROBE_ENABLE then
        if has XA_BASE_FLAG_POSTINIT s then Some (s, XA_API_FATAL_INVALID_CMD_TYPE)
        else Some (s\<lparr>mx_probe_enabled := get32 s pv\<rparr>, 0)
      else XA_API P XA_API_CMD_SET_CONFIG_PARAM i (Ptr pv) s (\<lambda>s e _. Some (s, e)))"

definition no_track :: track where
  "no_track = \<lparr>tk_input = no_in_port, tk_pts = 0, tk_decoded = 0, tk_rendered = 0\<rparr>"

definition mixer_clear :: "addr \<Rightarrow> mixer \<Rightarrow> mixer" where
  "mixer_clear a s = (base_clear a s)\<lparr>mx_track := (\<lambda>_. no_track), mx_output := no_out_port, mx_frame_size := 0,
     mx_frame_duration := 0, mx_sample_size := 0, mx_factor := 0, mx_pts := 0, mx_probe_enabled := 0,
     mx_probe := no_out_port, mx_probe_output := NULL, mx_out_ptr := NULL, mx_response := NULL, mx_terminating := False\<rparr>"

definition mixer_methods :: "mixer plugin \<Rightarrow> u32 \<Rightarrow> mixer klass" where
  "mixer_methods P sizeof_base =
     \<lparr>k_process = P, k_memtab = xa_mixer_memtab P, k_preprocess = xa_mixer_preprocess P,
      k_postprocess = xa_mixer_postprocess P, k_setparam = Some (xa_mixer_setparam P), k_getparam = None,
      k_command = (\<lambda>_. None), k_command_num = 0, k_clear = mixer_clear, k_sizeof_base = sizeof_base\<rparr>"

definition xa_mixer_cmd :: "mixer klass \<Rightarrow> u32 \<Rightarrow> (addr \<Rightarrow> mixer \<Rightarrow> mixer result) option" where
  "xa_mixer_cmd K t =
     (let P = k_process K in
      if t = XF_OPCODE_TYPE XF_SET_PARAM then Some (xa_base_set_param K)
      else if t = XF_OPCODE_TYPE XF_GET_PARAM then Some (xa_base_get_param K)
      else if t = XF_OPCODE_TYPE XF_SET_PARAM_EXT then Some (xa_base_set_param_ext K)
      else if t = XF_OPCODE_TYPE XF_GET_PARAM_EXT then Some (xa_base_get_param_ext K)
      else if t = XF_OPCODE_TYPE XF_ROUTE then Some xa_mixer_port_route
      else if t = XF_OPCODE_TYPE XF_UNROUTE then Some xa_mixer_port_unroute
      else if t = XF_OPCODE_TYPE XF_EMPTY_THIS_BUFFER then Some (xa_mixer_empty_this_buffer P)
      else if t = XF_OPCODE_TYPE XF_FILL_THIS_BUFFER then Some xa_mixer_fill_this_buffer
      else if t = XF_OPCODE_TYPE XF_FLUSH then Some xa_mixer_flush
      else if t = XF_OPCODE_TYPE XF_PAUSE then Some xa_mixer_pause
      else if t = XF_OPCODE_TYPE XF_RESUME then Some xa_mixer_resume
      else None)"

definition XA_MIXER_CMD_NUM :: u32 where
  "XA_MIXER_CMD_NUM = 17"

definition mixer_class :: "mixer plugin \<Rightarrow> u32 \<Rightarrow> mixer klass" where
  "mixer_class P sizeof_base =
     (mixer_methods P sizeof_base)\<lparr>k_command := xa_mixer_cmd (mixer_methods P sizeof_base), k_command_num := XA_MIXER_CMD_NUM\<rparr>"

definition xa_mixer_terminate :: "addr \<Rightarrow> mixer \<Rightarrow> mixer result" where
  "xa_mixer_terminate m s =
     (if m = NULL then Some (s, 0)
      else if m = xf_output_port_control_msg (mx_output s) then Some (mx_output_flush_done s, XAF_UNREGISTER)
      else if m_opcode (msg s m) = XF_FILL_THIS_BUFFER \<and> xf_output_port_routed (mx_output s) then Some (s, 0)
      else if XF_MSG_SRC_PROXY (m_id (msg s m)) then Some (on_io (xf_response_err m) s, 0)
      else Some (on_io (xf_response_failure m) s, 0))"

fun tracks_destroy :: "u32 list \<Rightarrow> mixer \<Rightarrow> mixer option" where
  "tracks_destroy [] s = Some s"
| "tracks_destroy (i # js) s = do {
     (io, p) \<leftarrow> xf_input_port_destroy (io_of s) (tk_input (mx_track s i)) (pool_type s XAF_MEM_POOL_TYPE_COMP_INPUT);
     tracks_destroy js (put_track i io p s) }"

definition xa_mixer_destroy :: "u32 \<Rightarrow> mixer \<Rightarrow> mixer result" where
  "xa_mixer_destroy sz s =
     (let m = mx_response s in do {
        s \<leftarrow> tracks_destroy tracks s;
        (io, p) \<leftarrow> xf_output_port_destroy (io_of s) (mx_output s) (mx_output_type s);
        let s = mx_put_output io p s;
        s \<leftarrow> (if mx_probe_enabled s \<noteq> 0 then do {
                (io, p) \<leftarrow> xf_output_port_destroy (io_of s) (mx_probe s) (mx_output_type s);
                Some (mx_put_probe io p s) }
              else Some s);
        s \<leftarrow> xa_base_destroy sz s;
        Some (if m \<noteq> NULL then on_io (xf_response_err m) s else s, 0) })"

definition xa_mixer_cleanup :: "u32 \<Rightarrow> addr \<Rightarrow> mixer \<Rightarrow> mixer result" where
  "xa_mixer_cleanup sz m s = do {
     s \<leftarrow> xa_base_cancel s;
     s \<leftarrow> tracks_purge tracks s;
     s \<leftarrow> (if mx_probe_enabled s \<noteq> 0 then do { (s, _) \<leftarrow> mx_probe_flush XF_FLUSH s; Some s } else Some s);
     (s, idle) \<leftarrow> mx_output_flush XF_FLUSH (s\<lparr>mx_response := m\<rparr>);
     if idle then xa_mixer_destroy sz s else Some (s\<lparr>mx_terminating := True\<rparr>, 1) }"

definition mixer_entry :: "mixer klass \<Rightarrow> addr \<Rightarrow> mixer \<Rightarrow> mixer result" where
  "mixer_entry K m s = (if mx_terminating s then xa_mixer_terminate m s else xa_base_command K m s)"

definition mixer_exit :: "u32 \<Rightarrow> addr \<Rightarrow> mixer \<Rightarrow> mixer result" where
  "mixer_exit sz m s = (if mx_terminating s then xa_mixer_destroy sz s else xa_mixer_cleanup sz m s)"

definition xa_mixer_factory :: "mixer plugin \<Rightarrow> u32 \<Rightarrow> u32 \<Rightarrow> u32 \<Rightarrow> mixer \<Rightarrow> (mixer \<times> addr) option" where
  "xa_mixer_factory P sizeof_base sz comp_type s = do {
     (s, a) \<leftarrow> xa_base_factory (mixer_class P sizeof_base) sz s;
     if a = NULL then Some (s, NULL) else Some (s\<lparr>b_type := comp_type\<rparr>, a) }"

end
