(* ===== verification/Class_Results.thy ===== *)
theory Class_Results
  imports Audio_Codec
begin

text \<open>
  Judgements on the results of operations of a component: every state that an operation returns, with or
  without an error code, satisfies a predicate. The collection \<open>gives\<close> has one rule for each construct of
  the models, so that the proof for an operation is \<open>intro gives\<close> and simplification.
\<close>

definition gives :: "('s \<Rightarrow> bool) \<Rightarrow> ('s \<times> 'b) option \<Rightarrow> bool" where
  "gives Q r \<longleftrightarrow> (\<forall>s e. r = Some (s, e) \<longrightarrow> Q s)"

definition gives_state :: "('s \<Rightarrow> bool) \<Rightarrow> 's option \<Rightarrow> bool" where
  "gives_state Q r \<longleftrightarrow> (\<forall>s. r = Some s \<longrightarrow> Q s)"

definition plugin_keeps :: "('s \<Rightarrow> bool) \<Rightarrow> 's plugin \<Rightarrow> bool" where
  "plugin_keeps Q P \<longleftrightarrow> (\<forall>cmd idx pv s. Q s \<longrightarrow> Q (fst (P cmd idx pv s)))"

named_theorems gives

lemma gives_some [simp]:
  "gives Q (Some (s, e)) \<longleftrightarrow> Q s" "gives Q None" "gives_state Q (Some s) \<longleftrightarrow> Q s" "gives_state Q None"
  by (simp_all add: gives_def gives_state_def)

lemma givesD: "gives Q r \<Longrightarrow> r = Some (s, e) \<Longrightarrow> Q s" "gives_state Q t \<Longrightarrow> t = Some s \<Longrightarrow> Q s"
  by (simp_all add: gives_def gives_state_def)

lemma gives_prod [gives]:
  "(\<And>a b. x = (a, b) \<Longrightarrow> gives Q (f a b)) \<Longrightarrow> gives Q (case x of (a, b) \<Rightarrow> f a b)"
  "(\<And>a b. x = (a, b) \<Longrightarrow> gives_state Q (g a b)) \<Longrightarrow> gives_state Q (case x of (a, b) \<Rightarrow> g a b)"
  by (simp_all split: prod.splits)

lemma gives_intros [gives]:
  "Q s \<Longrightarrow> gives Q (Some (s, e))" "gives Q None" "Q s \<Longrightarrow> gives_state Q (Some s)" "gives_state Q None"
  "(c \<Longrightarrow> gives Q r1) \<Longrightarrow> (\<not> c \<Longrightarrow> gives Q r2) \<Longrightarrow> gives Q (if c then r1 else r2)"
  "(c \<Longrightarrow> gives_state Q t1) \<Longrightarrow> (\<not> c \<Longrightarrow> gives_state Q t2) \<Longrightarrow> gives_state Q (if c then t1 else t2)"
  by simp_all

lemma gives_bind [gives]:
  "gives Q r \<Longrightarrow> (\<And>s e. Q s \<Longrightarrow> gives Q (f (s, e))) \<Longrightarrow> gives Q (Option.bind r f)"
  "gives Q r \<Longrightarrow> (\<And>s e. Q s \<Longrightarrow> gives_state Q (k (s, e))) \<Longrightarrow> gives_state Q (Option.bind r k)"
  by (cases r; simp split: prod.splits; metis surj_pair gives_some(1))+

lemma gives_bind_state [gives]:
  "gives_state Q t \<Longrightarrow> (\<And>s. Q s \<Longrightarrow> gives Q (g s)) \<Longrightarrow> gives Q (Option.bind t g)"
  "gives_state Q t \<Longrightarrow> (\<And>s. Q s \<Longrightarrow> gives_state Q (h s)) \<Longrightarrow> gives_state Q (Option.bind t h)"
  by (cases t; simp)+

lemma gives_bind_free:
  "(\<And>x. a = Some x \<Longrightarrow> gives Q (f x)) \<Longrightarrow> gives Q (Option.bind a f)"
  "(\<And>x. a = Some x \<Longrightarrow> gives_state Q (g x)) \<Longrightarrow> gives_state Q (Option.bind a g)"
  by (cases a; simp)+

lemma gives_API [gives]:
  assumes "plugin_keeps Q P" and "Q s" and "\<And>s' e v. Q s' \<Longrightarrow> gives Q (k s' e v)"
  shows "gives Q (XA_API P cmd idx pv s k)"
proof -
  obtain s' e v where r: "P cmd idx pv s = (s', e, v)" by (metis prod_cases3)
  from assms(1,2) have "Q s'" using r unfolding plugin_keeps_def by (metis fst_conv)
  then show ?thesis using assms(3) by (simp add: XA_API_def r)
qed

lemma gives_mono: "gives Q r \<Longrightarrow> (\<And>s. Q s \<Longrightarrow> Q' s) \<Longrightarrow> gives Q' r"
  by (auto simp: gives_def)

lemma gives_API_via:
  assumes "plugin_keeps Q' P" and "Q' s" and "\<And>s. Q' s \<Longrightarrow> Q s" and "\<And>s' e v. Q' s' \<Longrightarrow> gives Q (k s' e v)"
  shows "gives Q (XA_API P cmd idx pv s k)"
proof -
  obtain s' e v where r: "P cmd idx pv s = (s', e, v)" by (metis prod_cases3)
  from assms(1,2) have "Q' s'" using r unfolding plugin_keeps_def by (metis fst_conv)
  then show ?thesis using assms(3,4) by (simp add: XA_API_def r)
qed

lemma gives_CODEC [gives]:
  "gives Q (f s) \<Longrightarrow> (\<And>s e. Q s \<Longrightarrow> gives Q (k s e)) \<Longrightarrow> gives Q (CODEC_API f s k)"
  unfolding CODEC_API_def by (intro gives; simp)

text \<open>A port without messages has nothing to answer.\<close>

lemma purge_empty:
  assumes "xf_input_port_created p" and "ip_queue p = xf_msg_queue_init"
  shows "xf_input_port_purge io p = Some (io, p\<lparr>ip_filled := 0, ip_access := NULL,
    ip_flags := (ip_flags p AND NOT (XF_INPUT_FLAGS (NOT 0))) OR XF_INPUT_FLAG_ENABLED OR XF_INPUT_FLAG_CREATED\<rparr>)"
  using assms by (simp add: xf_input_port_purge_def answer_all.simps [of io] xf_msg_dequeue_def xf_msg_queue_init_def)

end
