(* ===== verification/Mixer_Thms.thy ===== *)
theory Mixer_Thms
  imports Codec_Thms Mixer Class_Results
begin

text \<open>
  The class of mixers (\<^verbatim>\<open>xa-class-mixer.c\<close>): every track is in exactly one of the states idle, active
  and paused, or in all three at once; only the outcome of the plug-in for a paused track that is still set
  up leads there; and the duration of a frame does not fit its field.
\<close>

section \<open>The state of a track\<close>

text \<open>
  Judgements on the flags that the class keeps above those of the ports; \<open>class_only\<close> predicates do
  not depend on the flags of the port.
\<close>

definition tracks_all :: "(u32 \<Rightarrow> bool) \<Rightarrow> mixer \<Rightarrow> bool" where
  "tracks_all ok s \<longleftrightarrow> (\<forall>i \<in> set tracks. ok (track_flags s i))"

definition class_only :: "(u32 \<Rightarrow> bool) \<Rightarrow> bool" where
  "class_only ok \<longleftrightarrow> (\<forall>f g. f AND NOT 31 = g AND NOT 31 \<longrightarrow> ok f = ok g)"

definition one_state :: "u32 \<Rightarrow> bool" where
  "one_state f \<longleftrightarrow> f AND 224 \<in> {XA_TRACK_FLAG_IDLE, XA_TRACK_FLAG_ACTIVE, XA_TRACK_FLAG_PAUSED}"

definition one_or_all :: "u32 \<Rightarrow> bool" where
  "one_or_all f \<longleftrightarrow> one_state f \<or> f AND 224 = XA_TRACK_FLAG_IDLE OR XA_TRACK_FLAG_ACTIVE OR XA_TRACK_FLAG_PAUSED"

definition runs :: "u32 \<Rightarrow> bool" where
  "runs f \<longleftrightarrow> one_state f \<and> (f AND XA_TRACK_FLAG_PAUSED = 0 \<or> f AND XA_TRACK_FLAG_INPUT_SETUP = 0)"

abbreviation tracks_ok :: "mixer \<Rightarrow> bool" where
  "tracks_ok \<equiv> tracks_all one_state"

lemmas track_flag_defs = XA_TRACK_FLAG_IDLE_def XA_TRACK_FLAG_ACTIVE_def XA_TRACK_FLAG_PAUSED_def
  XA_TRACK_FLAG_INPUT_SETUP_def XA_TRACK_FLAG_RECVD_DATA_def

lemma class_only_bits:
  fixes f g k :: u32
  assumes "f AND NOT 31 = g AND NOT 31" and "NOT 31 AND k = k"
  shows "f AND k = g AND k"
proof -
  have "(x AND NOT 31) AND k = x AND k" for x by (simp only: and.assoc assms(2))
  then show ?thesis using assms(1) by metis
qed

lemma class_bits_eq:
  fixes f g :: u32
  assumes "f AND NOT 31 = g AND NOT 31"
  shows "f AND 32 = g AND 32" "f AND 64 = g AND 64" "f AND 128 = g AND 128" "f AND 224 = g AND 224" "f AND 256 = g AND 256"
  by (rule class_only_bits [OF assms]; simp)+

lemma class_only_states [simp]: "class_only one_state" "class_only runs" "class_only one_or_all"
proof -
  have vals: "XA_TRACK_FLAG_PAUSED = 128" "XA_TRACK_FLAG_INPUT_SETUP = 256" by (simp_all add: track_flag_defs)
  have one: "one_state f = one_state g" if "f AND NOT 31 = g AND NOT 31" for f g
    unfolding one_state_def by (simp only: class_bits_eq(4) [OF that])
  have "runs f = runs g" if "f AND NOT 31 = g AND NOT 31" for f g
    unfolding runs_def vals by (simp only: one [OF that] class_bits_eq(3,5) [OF that])
  moreover have "one_or_all f = one_or_all g" if "f AND NOT 31 = g AND NOT 31" for f g
    unfolding one_or_all_def by (simp only: one [OF that] class_bits_eq(4) [OF that])
  ultimately show "class_only one_state" "class_only runs" "class_only one_or_all" unfolding class_only_def using one by blast+
qed

lemma tracks_are: "i \<in> set tracks \<longleftrightarrow> i < XA_MIXER_MAX_TRACK_NUMBER"
proof
  assume "i < XA_MIXER_MAX_TRACK_NUMBER"
  then have "unat i < unat XA_MIXER_MAX_TRACK_NUMBER" by (simp add: word_less_nat_alt)
  then show "i \<in> set tracks" unfolding tracks_def by (auto intro!: image_eqI [of _ _ "unat i"])
next
  assume "i \<in> set tracks" then show "i < XA_MIXER_MAX_TRACK_NUMBER"
    by (auto simp: tracks_def XA_MIXER_MAX_TRACK_NUMBER_def upt_rec)
qed

lemma tracks_list: "tracks = [0, 1, 2, 3]"
  by (simp add: tracks_def XA_MIXER_MAX_TRACK_NUMBER_def upt_rec)

lemma tracks_distinct: "distinct tracks"
  by (simp add: tracks_list)

lemma track_flags_simps [simp]:
  "track_flags (with_io io s) i = track_flags s i" "track_flags (on_core f s) i = track_flags s i"
  "track_flags (on_io g s) i = track_flags s i" "track_flags (respond_ok m s) i = track_flags s i"
  "track_flags (set_state x s) i = track_flags s i" "track_flags (clear_flags x s) i = track_flags s i"
  "track_flags (toggle_flags x s) i = track_flags s i" "track_flags (put32 a v s) i = track_flags s i"
  "track_flags (mx_put_output io op s) i = track_flags s i" "track_flags (mx_put_probe io op s) i = track_flags s i"
  "track_flags (mx_upd_output_flags h s) i = track_flags s i" "track_flags (mx_upd_probe_flags h s) i = track_flags s i"
  "track_flags (mx_output_flush_done s) i = track_flags s i" "track_flags (s\<lparr>mx_output := op\<rparr>) i = track_flags s i"
  "track_flags (s\<lparr>b_state := x\<rparr>) i = track_flags s i"
  by (simp_all add: track_flags_def with_io_def on_core_def on_io_def respond_ok_def set_state_def clear_flags_def
      toggle_flags_def put32_def mx_put_output_def mx_put_probe_def mx_upd_output_flags_def mx_upd_probe_flags_def
      mx_output_flush_done_def)

lemma track_flags_put [simp]: "track_flags (put_track i io p s) j = (if j = i then ip_flags p else track_flags s j)"
  by (simp add: track_flags_def put_track_def upd_track_def with_io_def)

lemma track_flags_upd [simp]:
  "track_flags (upd_track_flags i g s) j = (if j = i then g (track_flags s i) else track_flags s j)"
  "track_flags (upd_track i (tk_pts_update f) s) j = track_flags s j"
  by (simp_all add: track_flags_def upd_track_flags_def upd_track_def)

lemma tracks_all_cong: "(\<And>i. track_flags s' i = track_flags s i) \<Longrightarrow> tracks_all ok s' \<longleftrightarrow> tracks_all ok s"
  by (simp add: tracks_all_def)

lemma tracks_all_simps [simp]:
  "tracks_all ok (with_io io s) = tracks_all ok s" "tracks_all ok (on_core f s) = tracks_all ok s"
  "tracks_all ok (on_io g s) = tracks_all ok s" "tracks_all ok (respond_ok m s) = tracks_all ok s"
  "tracks_all ok (set_state x s) = tracks_all ok s" "tracks_all ok (clear_flags x s) = tracks_all ok s"
  "tracks_all ok (toggle_flags x s) = tracks_all ok s" "tracks_all ok (put32 a v s) = tracks_all ok s"
  "tracks_all ok (mx_put_output io op s) = tracks_all ok s" "tracks_all ok (mx_put_probe io op s) = tracks_all ok s"
  "tracks_all ok (mx_upd_output_flags h s) = tracks_all ok s" "tracks_all ok (mx_upd_probe_flags h s) = tracks_all ok s"
  "tracks_all ok (mx_output_flush_done s) = tracks_all ok s" "tracks_all ok (s\<lparr>mx_output := op\<rparr>) = tracks_all ok s"
  "tracks_all ok (s\<lparr>b_state := x\<rparr>) = tracks_all ok s" "tracks_all ok (upd_track i (tk_pts_update t) s) = tracks_all ok s"
  by (rule tracks_all_cong, simp)+

lemma tracks_all_put:
  "class_only ok \<Longrightarrow> tracks_all ok s \<Longrightarrow> ip_flags p AND NOT 31 = track_flags s i AND NOT 31 \<Longrightarrow> tracks_all ok (put_track i io p s)"
  unfolding tracks_all_def class_only_def track_flags_put by (metis (mono_tags))

lemma tracks_all_flags:
  "tracks_all ok s \<Longrightarrow> (ok (track_flags s i) \<Longrightarrow> ok (g (track_flags s i))) \<Longrightarrow> tracks_all ok (upd_track_flags i g s)"
  by (auto simp: tracks_all_def) 

subsection \<open>What the operations of a port do to the flags of the class\<close>

lemma keep_bits:
  fixes x f k :: u32
  assumes "f AND k = 0"
  shows "(x OR f) AND k = x AND k" "(x XOR f) AND k = x AND k" "(x AND NOT f) AND k = x AND k"
proof -
  have f: "bit f n \<Longrightarrow> \<not> bit k n" for n
    using assms by (metis bit_and_iff bit_0_eq bot_apply bot_bool_def)
  show "(x OR f) AND k = x AND k" "(x XOR f) AND k = x AND k" "(x AND NOT f) AND k = x AND k"
    by (rule bit_word_eqI, use f in \<open>auto simp: bit_simps\<close>)+
qed

lemmas input_flag_defs = XF_INPUT_FLAG_CREATED_def XF_INPUT_FLAG_ENABLED_def XF_INPUT_FLAG_EOS_def XF_INPUT_FLAG_DONE_def
  XF_INPUT_FLAG_PURGING_def XF_INPUT_FLAGS_def

lemma put_keeps_class_flags: "xf_input_port_put io p m = (io', p', r) \<Longrightarrow> ip_flags p' AND NOT 31 = ip_flags p AND NOT 31"
  by (auto simp: xf_input_port_put_def Let_def keep_bits input_flag_defs split: if_splits prod.splits)

lemma purge_keeps_class_flags: "xf_input_port_purge io p = Some (io', p') \<Longrightarrow> ip_flags p' AND NOT 31 = ip_flags p AND NOT 31"
  by (auto simp: xf_input_port_purge_def keep_bits input_flag_defs and.assoc split: if_splits option.splits)

lemma purge_keeps_tracks [gives]: "class_only ok \<Longrightarrow> tracks_all ok s \<Longrightarrow> gives_state (tracks_all ok) (track_purge i s)"
  unfolding track_purge_def
  by (intro gives_bind_free gives)
    (auto intro!: tracks_all_put dest: purge_keeps_class_flags simp: track_flags_def)

lemma tracks_purge_keeps [gives]: "class_only ok \<Longrightarrow> tracks_all ok s \<Longrightarrow> gives_state (tracks_all ok) (tracks_purge js s)"
proof (induction js arbitrary: s)
  case (Cons i js)
  show ?case unfolding tracks_purge.simps by (intro gives Cons.prems; rule Cons.IH [OF Cons.prems(1)])
qed simp

lemma schedule_keeps_tracks [gives]: "tracks_all ok s \<Longrightarrow> gives_state (tracks_all ok) (xa_base_schedule d s)"
  unfolding xa_base_schedule_def xf_component_schedule_def Let_def by (intro gives gives_bind_free; simp)

lemma cancel_keeps_tracks [gives]: "tracks_all ok s \<Longrightarrow> gives_state (tracks_all ok) (xa_base_cancel s)"
  unfolding xa_base_cancel_def Let_def by (intro gives gives_bind_free; simp)

lemma schedule_if_keeps_tracks [gives]: "tracks_all ok s \<Longrightarrow> gives_state (tracks_all ok) (schedule_if c s)"
  unfolding schedule_if_def by (intro gives; simp)

lemma port_ops_keep_tracks [gives]:
  "tracks_all ok s \<Longrightarrow> gives (tracks_all ok) (mx_output_flush op s)" "tracks_all ok s \<Longrightarrow> gives (tracks_all ok) (mx_probe_flush op s)"
  unfolding mx_output_flush_def mx_probe_flush_def by (intro gives_bind_free gives; simp)+

lemma unroute_keeps_tracks [gives]:
  "tracks_all ok s \<Longrightarrow> gives_state (tracks_all ok) (mx_output_unroute s)" "tracks_all ok s \<Longrightarrow> gives_state (tracks_all ok) (mx_output_unroute_done s)"
  unfolding mx_output_unroute_def mx_output_unroute_done_def by (intro gives_bind_free gives; simp)+


subsection \<open>Commands\<close>

text \<open>A judgement that the changes of state of the commands keep.\<close>

definition switching :: "(u32 \<Rightarrow> bool) \<Rightarrow> bool" where
  "switching ok \<longleftrightarrow> class_only ok \<and> (\<forall>f.
     (ok f \<longrightarrow> ok (f OR XA_TRACK_FLAG_RECVD_DATA) \<and> ok (f AND NOT XA_TRACK_FLAG_RECVD_DATA) \<and> ok (f OR XA_TRACK_FLAG_INPUT_SETUP)) \<and>
     (ok f \<and> f AND XA_TRACK_FLAG_IDLE \<noteq> 0 \<longrightarrow> ok (f XOR (XA_TRACK_FLAG_IDLE OR XA_TRACK_FLAG_ACTIVE))) \<and>
     (ok f \<and> f AND (XA_TRACK_FLAG_ACTIVE OR XA_TRACK_FLAG_PAUSED) \<noteq> 0 \<longrightarrow> ok (f XOR (XA_TRACK_FLAG_ACTIVE OR XA_TRACK_FLAG_PAUSED))) \<and>
     (f AND 224 = XA_TRACK_FLAG_IDLE \<longrightarrow> ok f))"

lemma switching_class_only [simp]: "switching ok \<Longrightarrow> class_only ok"
  by (simp add: switching_def)

lemma class_bits: "(f XOR g) AND 224 = (f AND 224) XOR (g AND 224)" "k AND 224 = k \<Longrightarrow> f AND k = (f AND 224) AND k"
  for f g k :: u32
  by (simp add: bit.conj_xor_distrib2) (metis and.assoc and.commute)

lemma switchingI:
  assumes "class_only ok"
    and "\<And>f. ok f \<Longrightarrow> ok (f OR XA_TRACK_FLAG_RECVD_DATA) \<and> ok (f AND NOT XA_TRACK_FLAG_RECVD_DATA) \<and> ok (f OR XA_TRACK_FLAG_INPUT_SETUP)"
    and "\<And>f. ok f \<Longrightarrow> f AND XA_TRACK_FLAG_IDLE \<noteq> 0 \<Longrightarrow> ok (f XOR (XA_TRACK_FLAG_IDLE OR XA_TRACK_FLAG_ACTIVE))"
    and "\<And>f. ok f \<Longrightarrow> f AND (XA_TRACK_FLAG_ACTIVE OR XA_TRACK_FLAG_PAUSED) \<noteq> 0 \<Longrightarrow> ok (f XOR (XA_TRACK_FLAG_ACTIVE OR XA_TRACK_FLAG_PAUSED))"
    and "\<And>f. f AND 224 = XA_TRACK_FLAG_IDLE \<Longrightarrow> ok f"
  shows "switching ok"
  using assms unfolding switching_def by blast

lemma switching_states: "switching one_state" "switching one_or_all"
proof -
  have bits: "(f OR 512) AND 224 = f AND 224" "(f AND NOT 512) AND 224 = f AND 224" "(f OR 256) AND 224 = f AND 224"
    "(f XOR 96) AND 224 = (f AND 224) XOR 96" "(f XOR 192) AND 224 = (f AND 224) XOR 192"
    "f AND 32 = (f AND 224) AND 32" "f AND 192 = (f AND 224) AND 192" for f :: u32
    by (simp_all add: keep_bits and.assoc class_bits(1))
  have vals: "XA_TRACK_FLAG_RECVD_DATA = 512" "XA_TRACK_FLAG_INPUT_SETUP = 256" "XA_TRACK_FLAG_IDLE = 32"
    "XA_TRACK_FLAG_ACTIVE = 64" "XA_TRACK_FLAG_PAUSED = 128" "(32 :: u32) OR 64 = 96" "(64 :: u32) OR 128 = 192" "(96 :: u32) OR 128 = 224"
    by (simp_all add: track_flag_defs)
  show "switching one_state"
  proof (rule switchingI)
    fix f show "one_state f \<Longrightarrow> f AND XA_TRACK_FLAG_IDLE \<noteq> 0 \<Longrightarrow> one_state (f XOR (XA_TRACK_FLAG_IDLE OR XA_TRACK_FLAG_ACTIVE))"
      "one_state f \<Longrightarrow> f AND (XA_TRACK_FLAG_ACTIVE OR XA_TRACK_FLAG_PAUSED) \<noteq> 0 \<Longrightarrow>
        one_state (f XOR (XA_TRACK_FLAG_ACTIVE OR XA_TRACK_FLAG_PAUSED))"
      unfolding one_state_def vals bits(4,5) bits(6,7) [of f] by auto
  qed (simp_all add: one_state_def vals bits(1,3) keep_bits and.assoc)
  show "switching one_or_all"
  proof (rule switchingI)
    fix f show "one_or_all f \<Longrightarrow> f AND XA_TRACK_FLAG_IDLE \<noteq> 0 \<Longrightarrow> one_or_all (f XOR (XA_TRACK_FLAG_IDLE OR XA_TRACK_FLAG_ACTIVE))"
      "one_or_all f \<Longrightarrow> f AND (XA_TRACK_FLAG_ACTIVE OR XA_TRACK_FLAG_PAUSED) \<noteq> 0 \<Longrightarrow>
        one_or_all (f XOR (XA_TRACK_FLAG_ACTIVE OR XA_TRACK_FLAG_PAUSED))"
      unfolding one_or_all_def one_state_def vals bits(4,5) bits(6,7) [of f] by auto
  qed (simp_all add: one_or_all_def one_state_def vals bits(1,3) keep_bits and.assoc)
qed

lemma restart_keeps_tracks [gives]:
  "plugin_keeps (tracks_all ok) P \<Longrightarrow> tracks_all ok s \<Longrightarrow> (\<And>s. tracks_all ok s \<Longrightarrow> gives (tracks_all ok) (k s)) \<Longrightarrow>
    gives (tracks_all ok) (mx_restart P s k)"
  unfolding mx_restart_def by (intro gives; simp)

lemma set_aside [simp]:
  "switching ok \<Longrightarrow> tracks_all ok s \<Longrightarrow> tracks_all ok (xa_track_set_flags i XA_TRACK_FLAG_RECVD_DATA s)"
  "switching ok \<Longrightarrow> tracks_all ok s \<Longrightarrow> tracks_all ok (xa_track_clear_flags i XA_TRACK_FLAG_RECVD_DATA s)"
  "switching ok \<Longrightarrow> tracks_all ok s \<Longrightarrow> tracks_all ok (xa_track_set_flags i XA_TRACK_FLAG_INPUT_SETUP s)"
  unfolding xa_track_set_flags_def xa_track_clear_flags_def switching_def
  by (rule tracks_all_flags; simp)+

lemma toggle_keeps_tracks [simp]:
  "switching ok \<Longrightarrow> tracks_all ok s \<Longrightarrow> xa_track_test_flags i XA_TRACK_FLAG_IDLE s \<Longrightarrow>
     tracks_all ok (xa_track_toggle_flags i (XA_TRACK_FLAG_IDLE OR XA_TRACK_FLAG_ACTIVE) s)"
  "switching ok \<Longrightarrow> tracks_all ok s \<Longrightarrow> xa_track_test_flags i XA_TRACK_FLAG_ACTIVE s \<Longrightarrow>
     tracks_all ok (xa_track_toggle_flags i (XA_TRACK_FLAG_ACTIVE OR XA_TRACK_FLAG_PAUSED) s)"
  "switching ok \<Longrightarrow> tracks_all ok s \<Longrightarrow> xa_track_test_flags i XA_TRACK_FLAG_PAUSED s \<Longrightarrow>
     tracks_all ok (xa_track_toggle_flags i (XA_TRACK_FLAG_ACTIVE OR XA_TRACK_FLAG_PAUSED) s)"
proof -
  have "f AND 64 \<noteq> 0 \<Longrightarrow> f AND 192 \<noteq> 0" "f AND 128 \<noteq> 0 \<Longrightarrow> f AND 192 \<noteq> 0" for f :: u32
    using and.assoc [of f 192 64] and.assoc [of f 192 128] by auto
  then show "switching ok \<Longrightarrow> tracks_all ok s \<Longrightarrow> xa_track_test_flags i XA_TRACK_FLAG_IDLE s \<Longrightarrow>
     tracks_all ok (xa_track_toggle_flags i (XA_TRACK_FLAG_IDLE OR XA_TRACK_FLAG_ACTIVE) s)"
    "switching ok \<Longrightarrow> tracks_all ok s \<Longrightarrow> xa_track_test_flags i XA_TRACK_FLAG_ACTIVE s \<Longrightarrow>
     tracks_all ok (xa_track_toggle_flags i (XA_TRACK_FLAG_ACTIVE OR XA_TRACK_FLAG_PAUSED) s)"
    "switching ok \<Longrightarrow> tracks_all ok s \<Longrightarrow> xa_track_test_flags i XA_TRACK_FLAG_PAUSED s \<Longrightarrow>
     tracks_all ok (xa_track_toggle_flags i (XA_TRACK_FLAG_ACTIVE OR XA_TRACK_FLAG_PAUSED) s)"
    unfolding xa_track_toggle_flags_def xa_track_test_flags_def switching_def
    by (auto intro!: tracks_all_flags simp: track_flag_defs)
qed

lemma flush_keeps_tracks [simp]:
  assumes "switching ok" and "tracks_all ok s"
  shows "tracks_all ok (xa_track_set_flags i XA_TRACK_FLAG_IDLE (xa_track_clear_flags i (XA_TRACK_FLAG_ACTIVE OR
    XA_TRACK_FLAG_PAUSED OR XA_TRACK_FLAG_INPUT_SETUP OR XA_TRACK_FLAG_RECVD_DATA) s))"
proof -
  have "f AND 32 OR 32 = 32" for f :: u32 by (rule bit_word_eqI) (auto simp: bit_simps)
  then have "((f AND NOT 960) OR 32) AND 224 = 32" for f :: u32
    by (simp add: bit.conj_disj_distrib2 and.assoc)
  then have "ok ((f AND NOT 960) OR 32)" for f
    using assms(1) by (simp add: switching_def track_flag_defs)
  then show ?thesis
    using assms(2) by (auto simp: xa_track_set_flags_def xa_track_clear_flags_def track_flag_defs tracks_all_def)
qed

lemma put_keeps_tracks:
  "switching ok \<Longrightarrow> tracks_all ok s \<Longrightarrow> xf_input_port_put (io_of s') (tk_input (mx_track s i)) m = (io, p, r) \<Longrightarrow> tracks_all ok (put_track i io p s)"
  by (rule tracks_all_put) (auto dest: put_keeps_class_flags simp: track_flags_def)

lemma empty_keeps_tracks:
  assumes ok: "switching ok" and P: "plugin_keeps (tracks_all ok) P" and s: "tracks_all ok s"
  shows "gives (tracks_all ok) (xa_mixer_empty_this_buffer P m s)"
  unfolding xa_mixer_empty_this_buffer_def Let_def
  by (intro gives P put_keeps_tracks [OF ok]; (assumption | simp add: s ok)?)

lemma fill_keeps_tracks:
  assumes ok: "switching ok" and s: "tracks_all ok s"
  shows "gives (tracks_all ok) (xa_mixer_fill_this_buffer m s)"
  unfolding xa_mixer_fill_this_buffer_def mx_fill_probe_def mx_fill_put_def mx_fill_control_def mx_fill_drop_def Let_def
  by (intro gives; simp add: s ok)

lemma port_commands_keep_tracks:
  assumes ok: "switching ok" and s: "tracks_all ok s"
  shows "gives (tracks_all ok) (xa_mixer_port_route m s)" "gives (tracks_all ok) (xa_mixer_port_unroute m s)"
    "gives (tracks_all ok) (xa_mixer_flush m s)" "gives (tracks_all ok) (xa_mixer_pause m s)" "gives (tracks_all ok) (xa_mixer_resume m s)"
  unfolding xa_mixer_port_route_def xa_mixer_port_unroute_def xa_mixer_flush_def xa_mixer_pause_def xa_mixer_resume_def Let_def
  by (intro gives gives_bind_free(1) [where a = "xf_output_port_route _ _ _ _ _ _ _"]; simp add: s ok)+

subsection \<open>Processing\<close>

lemma complete_keeps_flags: "xf_input_port_complete io p = (io', p', r) \<Longrightarrow> ip_flags p' = ip_flags p"
  by (auto simp: xf_input_port_complete_def Let_def split: prod.splits if_splits)

lemma fill_loop_keeps_class_flags:
  "input_fill_loop io p f r n = (io', p', x) \<Longrightarrow> ip_flags p' AND NOT 31 = ip_flags p AND NOT 31"
proof (induction io p f r n arbitrary: io' p' x rule: input_fill_loop.induct)
  case (1 io p f r n)
  show ?case
  proof (cases "0 < sint n \<and> (if n < r then n else r) \<noteq> 0")
    case True
    define k where "k = (if n < r then n else r)"
    define io1 where "io1 = xf_memcpy (ip_buffer p + f) (ip_access p) k io"
    define p1 where "p1 = p\<lparr>ip_access := ip_access p + k\<rparr>"
    have p1: "ip_flags p1 = ip_flags p" by (simp add: p1_def)
    obtain io2 p2 more where c: "xf_input_port_complete io1 p1 = (io2, p2, more)" by (metis prod_cases3)
    note p2 = complete_keeps_flags [OF c] p1
    have eq: "input_fill_loop io p f r n = (if r - k = 0
        then if \<not> more then (io2, p2, f + k, r - k, n - k) else input_fill_loop io2 p2 (f + k) (ip_remaining p2) (n - k)
        else input_fill_loop io1 p1 (f + k) (r - k) (n - k))"
      using True unfolding input_fill_loop.simps [of io p] Let_def k_def [symmetric] io1_def [symmetric] p1_def [symmetric] c
      by simp
    have IH1: "input_fill_loop io2 p2 (f + k) (ip_remaining p2) (n - k) = (a, q, y) \<Longrightarrow> ip_flags q AND NOT 31 = ip_flags p2 AND NOT 31"
      if "more" "r - k = 0" for a q y
      using 1(1) [of k io1 p1 "f + k" "n - k" "r - k" "(io2, p2, more)" io2 "(p2, more)" p2 more] True that c
      unfolding k_def io1_def p1_def by simp
    have IH2: "input_fill_loop io1 p1 (f + k) (r - k) (n - k) = (a, q, y) \<Longrightarrow> ip_flags q AND NOT 31 = ip_flags p1 AND NOT 31"
      if "r - k \<noteq> 0" for a q y
      using 1(2) [of k io1 p1 "f + k" "n - k" "r - k"] True that unfolding k_def io1_def p1_def by simp
    show ?thesis using 1(3) IH1 IH2 p2 unfolding eq by (auto split: if_splits)
  next
    case False
    then show ?thesis using 1(3)
      by (auto simp: input_fill_loop.simps [of io] Let_def keep_bits input_flag_defs split: if_splits)
  qed
qed

lemma fill_keeps_class_flags: "xf_input_port_fill io p = (io', p', r) \<Longrightarrow> ip_flags p' AND NOT 31 = ip_flags p AND NOT 31"
  by (auto simp: xf_input_port_fill_def Let_def keep_bits input_flag_defs
      dest!: complete_keeps_flags fill_loop_keeps_class_flags split: if_splits prod.splits)

lemma track_ops_keep [simp]:
  "class_only ok \<Longrightarrow> tracks_all ok s \<Longrightarrow> tracks_all ok (track_fill i s)"
  "class_only ok \<Longrightarrow> tracks_all ok s \<Longrightarrow> tracks_all ok (track_consume i n s)"
  by (auto simp: track_fill_def track_consume_def xf_input_port_consume_def Let_def track_flags_def split: prod.splits
      intro!: tracks_all_put dest!: fill_keeps_class_flags)

lemma output_ops_keep [simp]:
  "tracks_all ok (mx_output_produce n s) = tracks_all ok s" "tracks_all ok (mx_probe_produce n s) = tracks_all ok s"
  "tracks_all ok (s\<lparr>mx_pts := t\<rparr>) = tracks_all ok s" "tracks_all ok (s\<lparr>mx_out_ptr := a\<rparr>) = tracks_all ok s"
  "tracks_all ok (s\<lparr>mx_probe_output := a\<rparr>) = tracks_all ok s" "tracks_all ok (s\<lparr>mx_sample_size := t\<rparr>) = tracks_all ok s"
  "tracks_all ok (s\<lparr>mx_factor := d\<rparr>) = tracks_all ok s" "tracks_all ok (s\<lparr>mx_frame_duration := t\<rparr>) = tracks_all ok s"
  by (simp_all add: mx_output_produce_def mx_probe_produce_def split: prod.splits)
    (simp_all add: tracks_all_def track_flags_def)

lemma track_data_keeps [gives]:
  assumes "plugin_keeps (tracks_all ok) P" "class_only ok" "tracks_all ok s"
    and "\<And>s. tracks_all ok s \<Longrightarrow> gives (tracks_all ok) (nodata s)" "\<And>s. tracks_all ok s \<Longrightarrow> gives (tracks_all ok) (ready s)"
  shows "gives (tracks_all ok) (track_data P i s nodata ready)"
  unfolding track_data_def Let_def by (intro gives assms; simp add: assms)

lemma preprocess_probe_keeps [gives]:
  "tracks_all ok s \<Longrightarrow> (\<And>s. tracks_all ok s \<Longrightarrow> gives (tracks_all ok) (k s)) \<Longrightarrow> gives (tracks_all ok) (mx_preprocess_probe s k)"
  unfolding mx_preprocess_probe_def Let_def by (intro gives; simp)

lemma preprocess_tracks_keeps [gives]:
  "switching ok \<Longrightarrow> plugin_keeps (tracks_all ok) P \<Longrightarrow> tracks_all ok s \<Longrightarrow> gives (tracks_all ok) (mx_preprocess_tracks P js e short s)"
proof (induction js arbitrary: e short s)
  case (Cons i js)
  note IH = Cons.IH [OF Cons.prems(1,2)]
  show ?case unfolding mx_preprocess_tracks.simps Let_def
    by (intro gives Cons.prems IH; simp add: Cons.prems)
qed simp

lemma preprocess_keeps:
  "switching ok \<Longrightarrow> plugin_keeps (tracks_all ok) P \<Longrightarrow> tracks_all ok s \<Longrightarrow> gives (tracks_all ok) (xa_mixer_preprocess P s)"
  unfolding xa_mixer_preprocess_def Let_def by (intro gives; simp)

text \<open>After the setup of a track is taken back, a track that was not paused is not paused and not set up.\<close>

definition taken_back :: "u32 \<Rightarrow> mixer \<Rightarrow> bool" where
  "taken_back i s \<longleftrightarrow> tracks_all runs s \<and> \<not> xa_track_test_flags i XA_TRACK_FLAG_PAUSED s \<and>
     \<not> xa_track_test_flags i XA_TRACK_FLAG_INPUT_SETUP s"

lemma taken_backD: "taken_back i s \<Longrightarrow> tracks_all runs s"
  by (simp add: taken_back_def)

lemma take_back:
  assumes "tracks_all runs s" and "\<not> xa_track_test_flags i XA_TRACK_FLAG_PAUSED s"
  shows "taken_back i (upd_track i (tk_pts_update t) (xa_track_clear_flags i XA_TRACK_FLAG_INPUT_SETUP s))"
  using assms
  by (auto simp: taken_back_def xa_track_test_flags_def xa_track_clear_flags_def runs_def one_state_def keep_bits
      track_flag_defs and.assoc intro!: tracks_all_flags)

lemma taken_back_keeps [simp]:
  "taken_back i s \<Longrightarrow> taken_back i (on_io g s)" "taken_back i s \<Longrightarrow> taken_back i (put32 a v s)"
  by (auto simp: taken_back_def xa_track_test_flags_def)

lemma put_keeps_taken_back:
  assumes "taken_back i s" and "ip_flags p AND NOT 31 = track_flags s i AND NOT 31"
  shows "taken_back i (put_track i io p s)"
proof -
  have "tracks_all runs (put_track i io p s)"
    by (rule tracks_all_put [OF _ taken_backD [OF assms(1)] assms(2)]) simp
  moreover have "ip_flags p AND 128 = track_flags s i AND 128" "ip_flags p AND 256 = track_flags s i AND 256"
    using class_bits_eq(3,5) [OF assms(2)] by simp_all
  ultimately show ?thesis using assms(1) by (simp add: taken_back_def xa_track_test_flags_def track_flag_defs)
qed

lemma finish_keeps:
  assumes "taken_back i s" shows "gives_state (tracks_all runs) (track_finish i s)"
proof -
  have purged: "gives_state (taken_back i) (track_purge i s)"
    unfolding track_purge_def
    by (intro gives_bind_free gives)
      (auto intro!: put_keeps_taken_back assms dest: purge_keeps_class_flags simp: track_flags_def)
  have "tracks_all runs (xa_track_toggle_flags i (XA_TRACK_FLAG_ACTIVE OR XA_TRACK_FLAG_IDLE) s)" if "taken_back i s" for s
  proof -
    have "runs f \<Longrightarrow> f AND 128 = 0 \<Longrightarrow> f AND 256 = 0 \<Longrightarrow> runs (f XOR 96)" for f
      by (auto simp: runs_def one_state_def track_flag_defs class_bits(1) class_bits(2) [of 128 f] keep_bits)
    then show ?thesis using that unfolding taken_back_def xa_track_toggle_flags_def
      by (intro tracks_all_flags) (auto simp: xa_track_test_flags_def track_flag_defs)
  qed
  then show ?thesis unfolding track_finish_def
    using purged assms by (auto simp: gives_state_def taken_backD bind_eq_Some_conv split: if_splits)
qed

definition plugin_ignores_tracks :: "mixer plugin \<Rightarrow> bool" where
  "plugin_ignores_tracks P \<longleftrightarrow> (\<forall>cmd idx pv s. mx_track (fst (P cmd idx pv s)) = mx_track s)"

lemma ignores_keeps [simp]:
  assumes "plugin_ignores_tracks P"
  shows "plugin_keeps (tracks_all ok) P" "plugin_keeps (taken_back i) P"
  using assms by (simp_all add: plugin_keeps_def plugin_ignores_tracks_def taken_back_def tracks_all_def track_flags_def
      xa_track_test_flags_def)

lemma probe_part_keeps:
  assumes "mx_probe_part j n a (s, len, p) = (s', len', p')"
  shows "tracks_all ok s' = tracks_all ok s" "taken_back i s \<Longrightarrow> taken_back i s'"
  using assms by (auto simp: mx_probe_part_def xf_copy_probe_data_def Let_def split: if_splits)

lemma consume_keeps_taken_back: "taken_back i s \<Longrightarrow> taken_back i (track_consume i n s)"
  by (auto simp: track_consume_def xf_input_port_consume_def Let_def track_flags_def split: prod.splits
      intro!: put_keeps_taken_back)

lemma postprocess_tracks_keeps:
  assumes P: "plugin_ignores_tracks P" and k: "\<And>len p s. tracks_all runs s \<Longrightarrow> gives (tracks_all runs) (k len p s)"
  shows "set js \<subseteq> set tracks \<Longrightarrow> tracks_all runs s \<Longrightarrow> gives (tracks_all runs) (mx_postprocess_tracks P js len p s k)"
proof (induction js arbitrary: len p s)
  case (Cons i js)
  have "runs (track_flags s i)" using Cons.prems by (simp add: tracks_all_def)
  then have run: "xa_track_test_flags i XA_TRACK_FLAG_INPUT_SETUP s \<or> xa_track_test_flags i XA_TRACK_FLAG_ACTIVE s \<Longrightarrow>
      \<not> xa_track_test_flags i XA_TRACK_FLAG_PAUSED s"
    by (auto simp: runs_def xa_track_test_flags_def one_state_def track_flag_defs class_bits(2) [of 64 "track_flags s i"]
        class_bits(2) [of 128 "track_flags s i"])
  have js: "set js \<subseteq> set tracks" using Cons.prems(1) by simp
  have body: "gives (tracks_all runs) (case mx_probe_part i n a (s, len, p) of (s, len, p) \<Rightarrow>
      do { s \<leftarrow> track_finish i (track_consume i n s); mx_postprocess_tracks P js len p s k })"
    if "taken_back i s" for n a s len p
  proof -
    obtain s' len' p' where r: "mx_probe_part i n a (s, len, p) = (s', len', p')" by (metis prod_cases3)
    have "taken_back i (track_consume i n s')"
      by (rule consume_keeps_taken_back) (rule probe_part_keeps(2) [OF r that])
    from finish_keeps [OF this] show ?thesis unfolding r prod.case
      by (rule gives_bind_state(1)) (rule Cons.IH [OF js])
  qed
  show ?case unfolding mx_postprocess_tracks.simps Let_def [of "xa_track_clear_flags _ _ _"] Let_def [of "upd_track _ _ _"]
    by (intro gives_intros(5) Cons.IH [OF js Cons.prems(2)] gives_API_via [where Q' = "taken_back i"])
      (use run in \<open>auto simp: P intro!: take_back Cons.prems body taken_backD\<close>)
qed (simp add: k)

lemma prepare_keeps:
  "plugin_ignores_tracks P \<Longrightarrow> tracks_all ok s \<Longrightarrow> gives (tracks_all ok) (xa_mixer_prepare_runtime P s)"
  unfolding xa_mixer_prepare_runtime_def Let_def
  by (intro gives gives_bind_free(1) [where a = "xf_output_port_route_alloc _ _ _ _"]; simp)

lemma post_outputs_keep: "tracks_all ok s \<Longrightarrow> gives (tracks_all ok) (mx_post_outputs d n len p s)"
  unfolding mx_post_outputs_def Let_def mx_post_output_def mx_post_probe_def
  by (intro gives; simp add: probe_part_keeps(1))

lemma postprocess_keeps:
  "plugin_ignores_tracks P \<Longrightarrow> tracks_all runs s \<Longrightarrow> gives (tracks_all runs) (xa_mixer_postprocess P d s)"
  unfolding xa_mixer_postprocess_def
  by (intro gives prepare_keeps postprocess_tracks_keeps post_outputs_keep; simp)

text \<open>Without that: each track stays in one of the states or in all three.\<close>

lemma finish_keeps_all:
  assumes "tracks_all one_or_all s" shows "gives_state (tracks_all one_or_all) (track_finish i s)"
proof -
  have "one_or_all f \<Longrightarrow> one_or_all (f XOR 96)" for f
    by (auto simp: one_or_all_def one_state_def track_flag_defs class_bits(1))
  then have "tracks_all one_or_all (xa_track_toggle_flags i (XA_TRACK_FLAG_ACTIVE OR XA_TRACK_FLAG_IDLE) s)"
    if "tracks_all one_or_all s" for s
    using that unfolding xa_track_toggle_flags_def by (intro tracks_all_flags) (auto simp: track_flag_defs)
  moreover have "gives_state (tracks_all one_or_all) (track_purge i s)"
    by (rule purge_keeps_tracks [OF _ assms]) simp
  ultimately show ?thesis unfolding track_finish_def
    using assms by (auto simp: gives_state_def bind_eq_Some_conv split: if_splits)
qed

lemma clear_setup_keeps: "tracks_all one_or_all s \<Longrightarrow> tracks_all one_or_all (xa_track_clear_flags i XA_TRACK_FLAG_INPUT_SETUP s)"
  unfolding xa_track_clear_flags_def
  by (rule tracks_all_flags) (auto simp: one_or_all_def one_state_def track_flag_defs and.assoc)

lemma postprocess_tracks_keeps_all:
  assumes P: "plugin_ignores_tracks P" and k: "\<And>len p s. tracks_all one_or_all s \<Longrightarrow> gives (tracks_all one_or_all) (k len p s)"
  shows "tracks_all one_or_all s \<Longrightarrow> gives (tracks_all one_or_all) (mx_postprocess_tracks P js len p s k)"
proof (induction js arbitrary: len p s)
  case (Cons i js)
  have body: "gives (tracks_all one_or_all) (case mx_probe_part i n a (s, len, p) of (s, len, p) \<Rightarrow>
      do { s \<leftarrow> track_finish i (track_consume i n s); mx_postprocess_tracks P js len p s k })"
    if "tracks_all one_or_all s" for n a s len p
  proof -
    obtain s' len' p' where r: "mx_probe_part i n a (s, len, p) = (s', len', p')" by (metis prod_cases3)
    have "tracks_all one_or_all (track_consume i n s')"
      by (rule track_ops_keep(2)) (simp_all add: probe_part_keeps(1) [OF r] that)
    from finish_keeps_all [OF this] show ?thesis unfolding r prod.case
      by (rule gives_bind_state(1)) (rule Cons.IH)
  qed
  show ?case unfolding mx_postprocess_tracks.simps Let_def
    by (intro gives_intros(5) Cons.IH Cons.prems gives_API body) (simp_all add: P clear_setup_keeps Cons.prems)
qed (simp add: k)

lemma postprocess_keeps_all:
  "plugin_ignores_tracks P \<Longrightarrow> tracks_all one_or_all s \<Longrightarrow> gives (tracks_all one_or_all) (xa_mixer_postprocess P d s)"
  unfolding xa_mixer_postprocess_def
  by (intro gives prepare_keeps postprocess_tracks_keeps_all post_outputs_keep; simp)

section \<open>The steps of a mixer\<close>

text \<open>
  A mixer handles one of its own commands, prepares its buffers for the plug-in, or looks at the outcome
  of the plug-in.
\<close>

definition own_commands :: "u32 set" where
  "own_commands = XF_OPCODE_TYPE ` {XF_EMPTY_THIS_BUFFER, XF_FILL_THIS_BUFFER, XF_ROUTE, XF_UNROUTE, XF_FLUSH, XF_PAUSE, XF_RESUME}"

inductive mixer_step :: "mixer plugin \<Rightarrow> u32 \<Rightarrow> mixer \<Rightarrow> mixer \<Rightarrow> bool" for P n where
  command: "t \<in> own_commands \<Longrightarrow> xa_mixer_cmd (mixer_class P n) t = Some f \<Longrightarrow> f m s = Some (s', e) \<Longrightarrow> mixer_step P n s s'"
| prepare: "xa_mixer_preprocess P s = Some (s', e) \<Longrightarrow> mixer_step P n s s'"
| finish: "xa_mixer_postprocess P d s = Some (s', e) \<Longrightarrow> mixer_step P n s s'"

lemma mixer_own_command:
  assumes "t \<in> own_commands" and "xa_mixer_cmd (mixer_class P n) t = Some f"
  shows "f \<in> {xa_mixer_empty_this_buffer P, xa_mixer_fill_this_buffer, xa_mixer_port_route, xa_mixer_port_unroute,
    xa_mixer_flush, xa_mixer_pause, xa_mixer_resume}"
  using assms by (auto simp: own_commands_def xa_mixer_cmd_def mixer_class_def mixer_methods_def opcode_types)

lemma command_keeps:
  assumes "switching ok" and "plugin_ignores_tracks P" and "t \<in> own_commands" and "xa_mixer_cmd (mixer_class P n) t = Some f"
    and "tracks_all ok s"
  shows "gives (tracks_all ok) (f m s)"
  using mixer_own_command [OF assms(3,4)] assms(1,2,5)
  by (auto intro!: empty_keeps_tracks fill_keeps_tracks port_commands_keep_tracks)

lemma mixer_step_keeps:
  assumes "plugin_ignores_tracks P" and "mixer_step P n s s'" and "tracks_all one_or_all s"
  shows "tracks_all one_or_all s'"
  using assms(2)
proof cases
  case (command t f m e)
  from command_keeps [OF switching_states(2) assms(1) command(1,2) assms(3)] command(3) show ?thesis by (rule givesD)
next
  case (prepare e)
  have "plugin_keeps (tracks_all one_or_all) P" by (simp add: assms(1))
  from preprocess_keeps [OF switching_states(2) this assms(3)] prepare show ?thesis by (rule givesD)
next
  case (finish d e)
  from postprocess_keeps_all [OF assms(1,3)] finish show ?thesis by (rule givesD)
qed

text \<open>The outcome of the plug-in for the paused track \<open>i\<close>, which is still set up.\<close>

definition paused_outcome :: "mixer plugin \<Rightarrow> u32 \<Rightarrow> mixer \<Rightarrow> mixer \<Rightarrow> bool" where
  "paused_outcome P i s s' \<longleftrightarrow> i < XA_MIXER_MAX_TRACK_NUMBER \<and> track_flags s i AND 224 = XA_TRACK_FLAG_PAUSED \<and>
     track_flags s i AND XA_TRACK_FLAG_INPUT_SETUP \<noteq> 0 \<and> (\<exists>d e. xa_mixer_postprocess P d s = Some (s', e))"

lemma mixer_step_keeps_one:
  assumes "plugin_ignores_tracks P" and "mixer_step P n s s'" and "tracks_ok s"
  shows "tracks_ok s' \<or> (\<exists>i. paused_outcome P i s s')"
  using assms(2)
proof cases
  case (command t f m e)
  from command_keeps [OF switching_states(1) assms(1) command(1,2) assms(3)] command(3) show ?thesis by (blast dest: givesD)
next
  case (prepare e)
  have "plugin_keeps tracks_ok P" by (simp add: assms(1))
  from preprocess_keeps [OF switching_states(1) this assms(3)] prepare show ?thesis by (blast dest: givesD)
next
  case (finish d e)
  show ?thesis
  proof (cases "tracks_all runs s")
    case True
    from postprocess_keeps [OF assms(1) this] finish have "tracks_all runs s'" by (rule givesD)
    then show ?thesis by (simp add: tracks_all_def runs_def)
  next
    case False
    then obtain i where i: "i \<in> set tracks" "one_state (track_flags s i)" "track_flags s i AND XA_TRACK_FLAG_PAUSED \<noteq> 0"
      "track_flags s i AND XA_TRACK_FLAG_INPUT_SETUP \<noteq> 0"
      using assms(3) by (auto simp: tracks_all_def runs_def)
    then have "track_flags s i AND 224 = XA_TRACK_FLAG_PAUSED"
      by (auto simp: one_state_def track_flag_defs class_bits(2) [of 128 "track_flags s i"])
    with i finish have "paused_outcome P i s s'" by (auto simp: paused_outcome_def tracks_are)
    then show ?thesis by blast
  qed
qed

section \<open>A paused track at the end of its stream\<close>

definition plugin_ok :: "mixer plugin \<Rightarrow> bool" where
  "plugin_ok P \<longleftrightarrow> plugin_ignores_tracks P \<and> (\<forall>cmd idx pv s. \<not> XA_ERROR_SEVERITY (fst (snd (P cmd idx pv s))))"

lemma API_ok:
  assumes "plugin_ok P" and "\<And>s' e v. mx_track s' = mx_track s \<Longrightarrow> gives Q (k s' e v)"
  shows "gives Q (XA_API P cmd idx pv s k)"
proof -
  obtain s' e v where r: "P cmd idx pv s = (s', e, v)" by (metis prod_cases3)
  have "mx_track s' = mx_track s" "\<not> XA_ERROR_SEVERITY e"
    using assms(1) r unfolding plugin_ok_def plugin_ignores_tracks_def by (metis fst_conv, metis fst_conv snd_conv)
  then show ?thesis using assms(2) by (simp add: XA_API_def r)
qed

lemma outputs_keep_track [gives]:
  "mx_track s = T \<Longrightarrow> gives_state (\<lambda>s. mx_track s = T) (xa_base_schedule d s)"
  "mx_track s = T \<Longrightarrow> gives (\<lambda>s. mx_track s = T) (mx_output_flush op s)"
  "mx_track s = T \<Longrightarrow> gives (\<lambda>s. mx_track s = T) (mx_probe_flush op s)"
  unfolding xa_base_schedule_def xf_component_schedule_def mx_output_flush_def mx_probe_flush_def Let_def
  by (intro gives gives_bind_free; simp add: on_core_def mx_put_output_def mx_put_probe_def with_io_def)+

lemma probe_part_track: "mx_probe_part j n a (s, len, p) = (s', len', p') \<Longrightarrow> mx_track s' = mx_track s"
  by (auto simp: mx_probe_part_def xf_copy_probe_data_def Let_def put32_def on_core_def on_io_def with_io_def split: if_splits)

lemma post_outputs_track: "mx_track s = T \<Longrightarrow> gives (\<lambda>s. mx_track s = T) (mx_post_outputs d n len p s)"
  unfolding mx_post_outputs_def Let_def mx_post_output_def mx_post_probe_def clear_flags_def set_state_def
    mx_output_produce_def mx_probe_produce_def mx_put_output_def mx_put_probe_def mx_upd_probe_flags_def
  by (intro gives; simp add: probe_part_track with_io_def split: prod.splits)

lemma finish_other: "i \<noteq> j \<Longrightarrow> mx_track s i = t \<Longrightarrow> gives_state (\<lambda>s. mx_track s i = t) (track_finish j s)"
  unfolding track_finish_def track_purge_def
  by (intro gives gives_bind_free; simp add: put_track_def upd_track_def with_io_def xa_track_toggle_flags_def upd_track_flags_def)

lemma finish_paused:
  assumes "xf_input_port_done (tk_input (mx_track s i))" and "track_flags s i AND 224 = 128"
  shows "gives_state (\<lambda>s. track_flags s i AND 224 = 224) (track_finish i s)"
proof -
  have "gives_state (\<lambda>s. track_flags s i AND 224 = 128) (track_purge i s)"
    unfolding track_purge_def
    by (intro gives gives_bind_free) (auto dest!: purge_keeps_class_flags class_bits_eq(4) simp: assms(2) track_flags_def [symmetric])
  then show ?thesis unfolding track_finish_def using assms(1)
    by (auto simp: gives_state_def xa_track_toggle_flags_def class_bits(1) track_flag_defs bind_eq_Some_conv)
qed

lemma postprocess_others:
  assumes P: "plugin_ok P" and k: "\<And>len p s. mx_track s i = t \<Longrightarrow> gives Q (k len p s)" and "i \<notin> set js" and "mx_track s i = t"
  shows "gives Q (mx_postprocess_tracks P js len p s k)"
  using assms(3,4)
proof (induction js arbitrary: len p s)
  case (Cons j js)
  have ij: "i \<noteq> j" "i \<notin> set js" using Cons.prems(1) by simp_all
  have body: "gives Q (case mx_probe_part j n a (s, len, p) of (s, len, p) \<Rightarrow>
      do { s \<leftarrow> track_finish j (track_consume j n s); mx_postprocess_tracks P js len p s k })"
    if "mx_track s i = t" for n a s len p
  proof -
    obtain s' len' p' where r: "mx_probe_part j n a (s, len, p) = (s', len', p')" by (metis prod_cases3)
    have "mx_track (track_consume j n s') i = t"
      using that ij(1) probe_part_track [OF r] by (simp add: track_consume_def put_track_def upd_track_def with_io_def split: prod.splits)
    from finish_other [OF ij(1) this] show ?thesis unfolding r prod.case
      by (cases "track_finish j (track_consume j n s')") (simp_all add: Cons.IH [OF ij(2)])
  qed
  show ?case unfolding mx_postprocess_tracks.simps Let_def
    by (intro gives_intros(5) Cons.IH [OF ij(2)] Cons.prems(2) API_ok [OF P] body)
      (simp add: Cons.prems(2) ij xa_track_clear_flags_def upd_track_flags_def upd_track_def)
qed (simp add: k)

definition paused_at_end :: "track \<Rightarrow> bool" where
  "paused_at_end t \<longleftrightarrow> ip_flags (tk_input t) AND 224 = 128 \<and> ip_flags (tk_input t) AND XA_TRACK_FLAG_INPUT_SETUP \<noteq> 0 \<and>
     xf_input_port_done (tk_input t)"

lemma consume_flags: "xf_input_port_consume io p n = (io', p') \<Longrightarrow> ip_flags p' = ip_flags p"
  by (auto simp: xf_input_port_consume_def Let_def split: if_splits)

lemma take_back_paused:
  fixes f :: "u32 \<Rightarrow> u32"
  assumes "paused_at_end (mx_track s i)"
  defines "s' \<equiv> upd_track i (tk_pts_update f) (xa_track_clear_flags i XA_TRACK_FLAG_INPUT_SETUP s)"
  shows "xf_input_port_done (tk_input (mx_track s' i))" "track_flags s' i AND 224 = 128"
proof -
  have "NOT (256 :: u32) AND 224 = 224" "NOT (256 :: u32) AND 8 = 8" by simp_all
  then show "xf_input_port_done (tk_input (mx_track s' i))" "track_flags s' i AND 224 = 128"
    using assms(1) unfolding s'_def paused_at_end_def
    by (simp_all add: track_flags_def upd_track_def xa_track_clear_flags_def upd_track_flags_def xf_input_port_done_def
        track_flag_defs input_flag_defs and.assoc)
qed

lemma postprocess_paused:
  fixes i :: u32
  defines "Q \<equiv> \<lambda>s. track_flags s i AND 224 = 224"
  assumes P: "plugin_ok P" and k: "\<And>len p s. Q s \<Longrightarrow> gives Q (k len p s)"
    and "distinct js" and "i \<in> set js" and "paused_at_end (mx_track s i)"
  shows "gives Q (mx_postprocess_tracks P js len p s k)"
  using assms(4,5,6)
proof (induction js arbitrary: len p s)
  case (Cons j js)
  show ?case
  proof (cases "j = i")
    case True
    have i: "i \<notin> set js" using Cons.prems(1) True by simp
    have body: "gives Q (case mx_probe_part i n a (s, len, p) of (s, len, p) \<Rightarrow>
        do { s \<leftarrow> track_finish i (track_consume i n s); mx_postprocess_tracks P js len p s k })"
      if d: "xf_input_port_done (tk_input (mx_track s i))" "track_flags s i AND 224 = 128" for n a s len p
    proof -
      obtain s' len' p' where r: "mx_probe_part i n a (s, len, p) = (s', len', p')" by (metis prod_cases3)
      have "xf_input_port_done (tk_input (mx_track (track_consume i n s') i))" "track_flags (track_consume i n s') i AND 224 = 128"
        using d probe_part_track [OF r]
        by (auto simp: track_consume_def put_track_def upd_track_def with_io_def track_flags_def xf_input_port_done_def
            dest!: consume_flags split: prod.splits)
      from finish_paused [OF this] show ?thesis unfolding r prod.case Q_def [symmetric]
        by (rule gives_bind_state(1)) (rule postprocess_others [OF P k i refl], simp add: Q_def track_flags_def)
    qed
    have set_up: "xa_track_test_flags i XA_TRACK_FLAG_INPUT_SETUP s"
      using Cons.prems(3) by (simp add: paused_at_end_def xa_track_test_flags_def track_flags_def)
    show ?thesis unfolding mx_postprocess_tracks.simps Let_def True
      by (intro gives_intros(5) API_ok [OF P] body)
        (use set_up take_back_paused [OF Cons.prems(3)] in \<open>simp_all add: track_flags_def\<close>)
  next
    case False
    have ij: "i \<noteq> j" "distinct js" "i \<in> set js" using False Cons.prems by simp_all
    have body: "gives Q (case mx_probe_part j n a (s, len, p) of (s, len, p) \<Rightarrow>
        do { s \<leftarrow> track_finish j (track_consume j n s); mx_postprocess_tracks P js len p s k })"
      if t: "mx_track s i = t" and "paused_at_end t" for n a s len p t
    proof -
      obtain s' len' p' where r: "mx_probe_part j n a (s, len, p) = (s', len', p')" by (metis prod_cases3)
      have "mx_track (track_consume j n s') i = t"
        using t ij(1) probe_part_track [OF r] by (simp add: track_consume_def put_track_def upd_track_def with_io_def split: prod.splits)
      from finish_other [OF ij(1) this] show ?thesis unfolding r prod.case
        by (cases "track_finish j (track_consume j n s')") (simp_all add: Cons.IH [OF ij(2,3)] that(2))
    qed
    show ?thesis unfolding mx_postprocess_tracks.simps Let_def
      by (intro gives_intros(5) Cons.IH [OF ij(2,3)] Cons.prems(3) API_ok [OF P] body [OF _ Cons.prems(3)])
        (simp add: ij xa_track_clear_flags_def upd_track_flags_def upd_track_def)
  qed
qed simp

section \<open>The duration of a frame\<close>

definition gives_ok :: "('s \<Rightarrow> bool) \<Rightarrow> 's result \<Rightarrow> bool" where
  "gives_ok Q r \<longleftrightarrow> (\<forall>s. r = Some (s, 0) \<longrightarrow> Q s)"

lemma gives_ok_intros:
  "gives_ok Q None" "e \<noteq> 0 \<Longrightarrow> gives_ok Q (Some (s, e))" "Q s \<Longrightarrow> gives_ok Q (Some (s, e))"
  "(c \<Longrightarrow> gives_ok Q r1) \<Longrightarrow> (\<not> c \<Longrightarrow> gives_ok Q r2) \<Longrightarrow> gives_ok Q (if c then r1 else r2)"
  "(\<And>s' e v. P cmd idx pv t = (s', e, v) \<Longrightarrow> gives_ok Q (k s' e v)) \<Longrightarrow> gives_ok Q (XA_API P cmd idx pv t k)"
  by (auto simp: gives_ok_def XA_API_def XA_ERROR_SEVERITY_def split: prod.splits)

lemma timebase_bounds:
  assumes "xf_timebase_factor r \<noteq> 0"
  shows "2 ^ 31 \<le> unat (xf_timebase_factor r)" "unat (xf_timebase_factor r) < 2 ^ 37"
  using assms by (auto simp: xf_timebase_factor_def XF_TIMEBASE_FREQ_def unat_div split: if_splits)

lemma duration_wraps:
  fixes v :: u32 and x :: u64
  assumes "2 \<le> unat v" "2 ^ 31 \<le> unat x"
  shows "unat (ucast (ucast v * x) :: u32) < unat v * unat x"
proof -
  have "2 * 2 ^ 31 \<le> unat v * unat x" by (rule mult_le_mono) (use assms in simp_all)
  moreover have "unat (ucast (ucast v * x) :: u32) < 2 ^ 32" using unsigned_less [of "ucast (ucast v * x) :: u32"] by simp
  ultimately show ?thesis by simp
qed

definition timed :: "u32 \<Rightarrow> u64 \<Rightarrow> u32 \<Rightarrow> mixer \<Rightarrow> bool" where
  "timed d f z s \<longleftrightarrow> mx_frame_duration s = d \<and> mx_factor s = f \<and> mx_sample_size s = z"

lemma timed_simps [simp]:
  "timed d f z (mx_put_output io p s) = timed d f z s" "timed d f z (on_core g s) = timed d f z s"
  "timed d f z (mx_output_produce n s) = timed d f z s" "timed d f z (s\<lparr>b_state := x\<rparr>) = timed d f z s"
  by (simp_all add: timed_def mx_put_output_def with_io_def on_core_def mx_output_produce_def split: prod.splits)

lemma schedule_if_timed: "timed d f z s \<Longrightarrow> gives_state (timed d f z) (schedule_if c s)"
  unfolding schedule_if_def xa_base_schedule_def xf_component_schedule_def Let_def by (intro gives gives_bind_free; simp)

lemma prepare_truncates:
  assumes "\<And>s. snd (snd (P XA_API_CMD_GET_CONFIG_PARAM XA_MIXER_CONFIG_PARAM_FRAME_SIZE (Local 0) s)) = v"
    and "2 \<le> unat v"
  shows "gives_ok (\<lambda>s. unat (mx_frame_duration s) < unat v * unat (mx_factor s * ucast (mx_sample_size s)))
    (xa_mixer_prepare_runtime P s)"
proof -
  have timed: "gives_ok (\<lambda>s. unat (mx_frame_duration s) < unat v * unat (mx_factor s * ucast (mx_sample_size s)))
      (do { (io, p, err) \<leftarrow> route;
            let s = mx_put_output io p s;
            s \<leftarrow> schedule_if ((err = 0 \<or> err = 1) \<and> xf_output_port_ready (mx_output s)) s;
            Some (mx_output_produce n s, 0) })"
    if "mx_frame_duration s = ucast (ucast v * (mx_factor s * ucast (mx_sample_size s)))"
      and "2 ^ 31 \<le> unat (mx_factor s * ucast (mx_sample_size s))"
    for route :: "(io \<times> out_port \<times> int) option" and n s
  proof -
    let ?f = "mx_factor s" and ?z = "mx_sample_size s"
    have "unat (mx_frame_duration s) < unat v * unat (?f * ucast ?z)"
      unfolding that(1) by (rule duration_wraps [OF assms(2) that(2)])
    moreover have "gives (timed (mx_frame_duration s) ?f ?z) (do { (io, p, err) \<leftarrow> route;
            let s = mx_put_output io p s;
            s \<leftarrow> schedule_if ((err = 0 \<or> err = 1) \<and> xf_output_port_ready (mx_output s)) s;
            Some (mx_output_produce n s, 0 :: int) })"
      unfolding Let_def by (intro gives schedule_if_timed gives_bind_free(1) [where a = route]) (simp_all, simp add: timed_def)
    ultimately show ?thesis by (auto simp: gives_ok_def gives_def timed_def)
  qed
  have frame: "v' = v" if "P XA_API_CMD_GET_CONFIG_PARAM XA_MIXER_CONFIG_PARAM_FRAME_SIZE (Local 0) s = (s', e, v')" for s s' e v'
    using assms(1) [of s] that by simp
  show ?thesis unfolding xa_mixer_prepare_runtime_def Let_def
    apply (intro gives_ok_intros timed [unfolded Let_def])
    apply (simp_all (no_asm_simp) add: XA_MIXER_CONFIG_FATAL_RANGE_def xa_errors timebase_bounds(1) [simplified] split del: if_split)
    by (drule frame; simp add: mult.commute timebase_bounds(1) [simplified] split del: if_split)+
qed

section \<open>Properties\<close>

text \<open>
  A mixer on the component at address 7 whose tracks have the given flags and no messages, and whose
  output port is not connected; message 192 is the next command.
\<close>

definition demo_mixer :: "u32 \<Rightarrow> (u32 \<Rightarrow> u32) \<Rightarrow> xf_message \<Rightarrow> mixer" where
  "demo_mixer st f cmd = base.extend (demo_base\<lparr>b_state := st, b_core := (b_core demo_base)\<lparr>c_msg := demo_msgs(192 := cmd)\<rparr>\<rparr>)
     (mixer.fields (\<lambda>i. \<lparr>tk_input = demo_in\<lparr>ip_queue := xf_msg_queue_init, ip_filled := 0, ip_flags := f i\<rparr>, tk_pts = 0, tk_decoded = 0, tk_rendered = 0\<rparr>)
       demo_out 0 0 0 0 0 0 no_out_port NULL NULL NULL False)"

lemma demo_mixer_simps [simp]:
  "b_state (demo_mixer st f cmd) = st" "mx_output (demo_mixer st f cmd) = demo_out" "msg (demo_mixer st f cmd) 192 = cmd"
  "mx_probe_enabled (demo_mixer st f cmd) = 0" "track_flags (demo_mixer st f cmd) i = f i" "has g (demo_mixer st f cmd) \<longleftrightarrow> st AND g \<noteq> 0"
  "tk_input (mx_track (demo_mixer st f cmd) i) = demo_in\<lparr>ip_queue := xf_msg_queue_init, ip_filled := 0, ip_flags := f i\<rparr>"
  "mx_sample_size (demo_mixer st f cmd) = 0"
  by (simp_all add: demo_mixer_def mixer.defs base.defs demo_base_def msg_def has_def track_flags_def)

lemma output_track [simp]:
  "mx_output (upd_track i f s) = mx_output s" "mx_output (put_track i io p s) = mx_output s"
  "mx_output (upd_track_flags i h s) = mx_output s" "mx_output (xa_track_toggle_flags i g s) = mx_output s"
  "mx_output (xa_track_clear_flags i g s) = mx_output s"
  "mx_probe_enabled (put_track i io p s) = mx_probe_enabled s" "mx_probe_enabled (upd_track_flags i h s) = mx_probe_enabled s"
  "mx_frame_size (xa_track_clear_flags i g s) = mx_frame_size s"
  "mx_sample_size (put_track i io p s) = mx_sample_size s" "mx_sample_size (upd_track_flags i h s) = mx_sample_size s"
  "mx_track (put_track i io p s) i = (mx_track s i)\<lparr>tk_input := p\<rparr>" "io_of (put_track i io p s) = io"
  by (simp_all add: upd_track_def put_track_def with_io_def xa_track_toggle_flags_def xa_track_clear_flags_def upd_track_flags_def)

definition demo_pause :: xf_message where
  "demo_pause = \<lparr>m_next = 0, m_id = 0, m_opcode = XF_PAUSE, m_length = 0, m_buffer = NULL, m_error = 0\<rparr>"

text \<open>
  C7. The states of the tracks of a mixer: whatever sequence of its own commands, preparations and
  outcomes of the plug-in a mixer goes through, with a plug-in that keeps to its own memory, a track that
  was in exactly one of the states idle, active and paused is in exactly one of them afterwards, or in all
  three at once, never in none or in two. And they are in exactly one each, unless on the way the outcome of
  the plug-in was looked at for a paused track that was still set up.
\<close>

theorem mixer_track_states:
  assumes "(mixer_step P n)\<^sup>*\<^sup>* s s'" and "plugin_ignores_tracks P" and "tracks_ok s"
  shows "tracks_all one_or_all s' \<and>
    (tracks_ok s' \<or> (\<exists>i t t'. (mixer_step P n)\<^sup>*\<^sup>* s t \<and> paused_outcome P i t t' \<and> (mixer_step P n)\<^sup>*\<^sup>* t' s'))"
proof -
  have "tracks_all one_or_all s" using assms(3) by (simp add: tracks_all_def one_or_all_def)
  with assms(1) have "tracks_all one_or_all s'"
    by (induction rule: rtranclp_induct) (use assms(2) mixer_step_keeps in blast)+
  moreover from assms(1) have
    "tracks_ok s' \<or> (\<exists>i t t'. (mixer_step P n)\<^sup>*\<^sup>* s t \<and> paused_outcome P i t t' \<and> (mixer_step P n)\<^sup>*\<^sup>* t' s')"
  proof (induction rule: rtranclp_induct)
    case base
    show ?case using assms(3) by blast
  next
    case (step t t')
    then show ?case using mixer_step_keeps_one [OF assms(2) step(2)] by (meson rtranclp.intros)
  qed
  ultimately show ?thesis by blast
qed

theorem mixer_track_states_witness:
  "\<exists>s'. (mixer_step (\<lambda>_ _ _ s. (s, 0, 0)) 64)\<^sup>*\<^sup>* (demo_mixer XA_BASE_FLAG_POSTINIT (\<lambda>i. if i = 0 then 67 else 33) demo_pause) s' \<and>
    tracks_all one_or_all s' \<and> track_flags s' 0 AND 224 = XA_TRACK_FLAG_PAUSED"
proof -
  let ?P = "\<lambda>_ _ _ s. (s, 0, 0) :: mixer \<times> int \<times> u32"
  let ?s = "demo_mixer XA_BASE_FLAG_POSTINIT (\<lambda>i. if i = 0 then 67 else 33) demo_pause"
  let ?t = "xa_track_toggle_flags 0 (XA_TRACK_FLAG_ACTIVE OR XA_TRACK_FLAG_PAUSED) ?s"
  have "\<not> xf_output_port_ready demo_out" by (simp add: xf_output_port_ready_def demo_out_def xf_msg_queue_init_def xf_msg_queue_head_def)
  then have "xa_mixer_pause 192 ?s = Some (on_io (xf_response 192) ?t, 0)"
    by (simp add: xa_mixer_pause_def schedule_if_def demo_pause_def XF_MSG_DST_PORT_def flag_defs track_flag_defs
        xa_track_test_flags_def XA_MIXER_MAX_TRACK_NUMBER_def XA_MIXER_PROBE_PORT_NUMBER_def Let_def)
  then have "mixer_step ?P 64 ?s (on_io (xf_response 192) ?t)"
    by (rule mixer_step.command [of "XF_OPCODE_TYPE XF_PAUSE", rotated 2])
      (simp_all add: own_commands_def xa_mixer_cmd_def mixer_class_def mixer_methods_def opcode_types)
  then have run: "(mixer_step ?P 64)\<^sup>*\<^sup>* ?s (on_io (xf_response 192) ?t)" by blast
  moreover have "tracks_all one_or_all (on_io (xf_response 192) ?t)"
    by (rule conjunct1 [OF mixer_track_states [OF run]]) (simp_all add: plugin_ignores_tracks_def tracks_all_def one_state_def track_flag_defs)
  moreover have "track_flags (on_io (xf_response 192) ?t) 0 AND 224 = XA_TRACK_FLAG_PAUSED"
    by (simp add: xa_track_toggle_flags_def track_flag_defs)
  ultimately show ?thesis by blast
qed

text \<open>
  C25. A track can come to be in all three states: when the plug-in has been run with a track that was
  paused in between and has reached the end of its stream, looking at the outcome leaves this track idle,
  active and paused at once.
\<close>

theorem paused_track_restarts:
  assumes "plugin_ok P" and "i < XA_MIXER_MAX_TRACK_NUMBER" and "paused_at_end (mx_track s i)"
    and "\<not> (d \<noteq> 0 \<and> has XA_BASE_FLAG_EXECUTION s)" and "xa_mixer_postprocess P d s = Some (s', e)"
  shows "track_flags s' i AND 224 = XA_TRACK_FLAG_IDLE OR XA_TRACK_FLAG_ACTIVE OR XA_TRACK_FLAG_PAUSED"
proof -
  have post: "gives (\<lambda>s. track_flags s i AND 224 = 224) (mx_post_outputs d n len p t)"
    if "track_flags t i AND 224 = 224" for n len p t
    by (rule gives_mono [OF post_outputs_track [OF refl]]) (use that in \<open>simp_all add: track_flags_def\<close>)
  have "gives (\<lambda>s. track_flags s i AND 224 = 224) (xa_mixer_postprocess P d s)"
    unfolding xa_mixer_postprocess_def if_not_P [OF assms(4)]
    by (rule postprocess_paused [OF assms(1) _ tracks_distinct])
      (use assms(2,3) in \<open>auto simp: tracks_are [symmetric] track_flags_def
        intro!: gives_intros(5) API_ok [OF assms(1)] post [unfolded track_flags_def]\<close>)
  then show ?thesis using assms(5) by (auto simp: gives_def track_flag_defs)
qed

theorem paused_track_restarts_witness:
  "\<exists>s' e. xa_mixer_postprocess (\<lambda>_ _ _ s. (s, 0, 0)) 0 (demo_mixer 0 (\<lambda>i. if i = 0 then 393 else 33) demo_pause) = Some (s', e) \<and>
    track_flags s' 0 AND 224 = XA_TRACK_FLAG_IDLE OR XA_TRACK_FLAG_ACTIVE OR XA_TRACK_FLAG_PAUSED"
proof -
  let ?P = "\<lambda>_ _ _ s. (s, 0, 0) :: mixer \<times> int \<times> u32"
  let ?s = "demo_mixer 0 (\<lambda>i. if i = 0 then 393 else 33) demo_pause"
  let ?u = "upd_track 0 (tk_pts_update (\<lambda>t. t + mx_frame_size ?s)) (xa_track_clear_flags 0 XA_TRACK_FLAG_INPUT_SETUP ?s)"
  let ?p = "demo_in\<lparr>ip_queue := xf_msg_queue_init, ip_filled := 0, ip_flags := 137\<rparr>"
  have u: "tk_input (mx_track ?u 0) = ?p" "mx_probe_enabled ?u = 0" "mx_output ?u = demo_out" "mx_sample_size ?u = 0"
    "track_flags ?u 1 = 33" "track_flags ?u 2 = 33" "track_flags ?u 3 = 33"
    by (simp_all add: upd_track_def xa_track_clear_flags_def upd_track_flags_def track_flag_defs track_flags_def)
  have "xf_input_port_consume (io_of ?u) ?p 0 = (io_of ?u, ?p)"
    by (simp add: xf_input_port_consume_def xf_input_port_bypass_def demo_in_def)
  moreover have "xf_input_port_done ?p" "xf_input_port_created ?p" "ip_queue ?p = xf_msg_queue_init"
    by (simp_all add: xf_input_port_done_def xf_input_port_created_def input_flag_defs)
  ultimately obtain t where t: "track_finish 0 (track_consume 0 0 ?u) = Some t" "mx_probe_enabled t = 0" "mx_output t = demo_out"
    "mx_sample_size t = 0" "track_flags t 1 = 33" "track_flags t 2 = 33" "track_flags t 3 = 33"
    using u by (simp add: track_finish_def track_consume_def track_purge_def purge_empty xa_track_toggle_flags_def)
  have "\<not> xf_output_port_ready demo_out" by (simp add: xf_output_port_ready_def demo_out_def xf_msg_queue_init_def xf_msg_queue_head_def)
  then have "mx_post_outputs 0 0 0 q t = Some (t, 0)" for q
    using t by (simp add: mx_post_outputs_def mx_probe_part_def mx_post_probe_def mx_post_output_def)
  then have "xa_mixer_postprocess ?P 0 ?s = Some (t, 0)"
    using t u by (simp add: xa_mixer_postprocess_def tracks_list xa_track_test_flags_def track_flag_defs XA_API_def
        XA_ERROR_SEVERITY_def mx_probe_part_def Let_def)
  then obtain s' e where run: "xa_mixer_postprocess ?P 0 ?s = Some (s', e)" by blast
  have "track_flags s' 0 AND 224 = XA_TRACK_FLAG_IDLE OR XA_TRACK_FLAG_ACTIVE OR XA_TRACK_FLAG_PAUSED"
    by (rule paused_track_restarts [OF _ _ _ _ run])
      (simp_all add: plugin_ok_def plugin_ignores_tracks_def XA_ERROR_SEVERITY_def XA_MIXER_MAX_TRACK_NUMBER_def paused_at_end_def
        xf_input_port_done_def input_flag_defs track_flag_defs)
  with run show ?thesis by blast
qed

text \<open>
  C21. The duration of a frame: when the run-time initialisation of a mixer succeeds and a frame has at
  least two samples, the 32-bit field does not hold the product of samples and time base factor, it
  holds less: the mixer is scheduled too early.
\<close>

theorem mixer_duration_truncated:
  assumes "\<And>s. snd (snd (P XA_API_CMD_GET_CONFIG_PARAM XA_MIXER_CONFIG_PARAM_FRAME_SIZE (Local 0) s)) = v" and "2 \<le> unat v"
    and "xa_mixer_prepare_runtime P s = Some (s', 0)"
  shows "unat (mx_frame_duration s') < unat v * unat (mx_factor s' * ucast (mx_sample_size s'))"
  using prepare_truncates [where P = P and v = v, OF assms(1,2)] assms(3) by (simp add: gives_ok_def)

text \<open>Stereo samples of 16 bits at 48 kHz in frames of 512 samples.\<close>

definition demo_config :: "mixer plugin" where
  "demo_config cmd idx a s = (case a of
     Ptr p \<Rightarrow> (if cmd = XA_API_CMD_GET_CONFIG_PARAM
               then put32 p (if idx = XA_MIXER_CONFIG_PARAM_SAMPLE_RATE then 48000 else if idx = XA_MIXER_CONFIG_PARAM_CHANNELS then 2 else 16) s
               else s, 0, 0)
   | Local _ \<Rightarrow> (s, 0, 512))"

lemma API_cong: "s = s' \<Longrightarrow> XA_API P cmd idx pv s k = XA_API P cmd idx pv s' k"
  by simp

lemma demo_config_API:
  "XA_API demo_config XA_API_CMD_GET_CONFIG_PARAM XA_MIXER_CONFIG_PARAM_SAMPLE_RATE (Ptr p) s k = k (put32 p 48000 s) 0 0"
  "XA_API demo_config XA_API_CMD_GET_CONFIG_PARAM XA_MIXER_CONFIG_PARAM_CHANNELS (Ptr p) s k = k (put32 p 2 s) 0 0"
  "XA_API demo_config XA_API_CMD_GET_CONFIG_PARAM XA_MIXER_CONFIG_PARAM_PCM_WIDTH (Ptr p) s k = k (put32 p 16 s) 0 0"
  "XA_API demo_config XA_API_CMD_GET_CONFIG_PARAM XA_MIXER_CONFIG_PARAM_FRAME_SIZE (Local 0) s k = k s 0 512"
  "XA_API demo_config XA_API_CMD_GET_MEM_INFO_SIZE i (Ptr p) s k = k s 0 0"
  by (simp_all add: XA_API_def demo_config_def XA_ERROR_SEVERITY_def XA_MIXER_CONFIG_PARAM_SAMPLE_RATE_def
      XA_MIXER_CONFIG_PARAM_CHANNELS_def XA_MIXER_CONFIG_PARAM_PCM_WIDTH_def XA_API_CMD_GET_MEM_INFO_SIZE_def
      XA_API_CMD_GET_CONFIG_PARAM_def)

definition demo_route :: xf_message where
  "demo_route = \<lparr>m_next = 0, m_id = 0, m_opcode = XF_FILL_THIS_BUFFER, m_length = 0, m_buffer = 8192, m_error = 0\<rparr>"

lemma demo_timing:
  "get32 (s\<lparr>mx_sample_size := z\<rparr>) a = get32 s a" "get32 (s\<lparr>mx_factor := f\<rparr>) a = get32 s a"
  "get32 (s\<lparr>mx_frame_duration := d\<rparr>) a = get32 s a" "bytes_per_sample 16 = 2" "xf_timebase_factor 48000 = 10170800640"
  "mx_probe_enabled (put32 a v s) = mx_probe_enabled s" "mx_output (put32 a v s) = mx_output s"
  "b_state (put32 a v s) = b_state s" "b_state (mx_put_output io p s) = b_state s"
  by (simp_all add: get32_def bytes_per_sample_def xf_timebase_factor_def XF_TIMEBASE_FREQ_def put32_def on_core_def mx_put_output_def with_io_def)

definition demo_start :: mixer where
  "demo_start = (demo_mixer XA_BASE_FLAG_SCHEDULE (\<lambda>_. 33) demo_route)\<lparr>mx_output := demo_out\<lparr>op_queue := \<lparr>q_head = 192, q_tail = 192\<rparr>\<rparr>\<rparr>"

theorem mixer_duration_truncated_witness:
  "\<exists>s'. xa_mixer_prepare_runtime demo_config demo_start = Some (s', 0) \<and>
    unat (mx_frame_duration s') < 512 * unat (mx_factor s' * ucast (mx_sample_size s'))"
proof -
  let ?t = "put32 8236 0 (put32 8200 16 (put32 8196 2 (put32 8192 48000 demo_start)))"
  have d: "xf_msg_queue_head (op_queue (mx_output demo_start)) = 192" "m_buffer (msg demo_start 192) = 8192"
    by (simp_all add: demo_route_def demo_start_def xf_msg_queue_head_def msg_def demo_mixer_def mixer.defs base.defs)
  have t: "get32 ?t 8192 = 48000" "get32 ?t 8196 = 2" "get32 ?t 8200 = 16" "mx_probe_enabled demo_start = 0"
    "op_flags (mx_output demo_start) = 33" "b_state demo_start = XA_BASE_FLAG_SCHEDULE"
    by (simp_all add: put32_def on_core_def get32_def load32_def store32_def demo_start_def demo_out_def)
  have "\<exists>s'. xa_mixer_prepare_runtime demo_config demo_start = Some (s', 0)"
    unfolding xa_mixer_prepare_runtime_def d
    by (simp add: t d demo_config_API demo_timing Let_def cong: API_cong if_weak_cong)
      (simp add: t xf_output_port_route_alloc_def demo_timing out_flags schedule_if_def xa_base_schedule_def has_def flag_defs)
  then obtain s' where run: "xa_mixer_prepare_runtime demo_config demo_start = Some (s', 0)" by blast
  have "unat (mx_frame_duration s') < unat (512 :: u32) * unat (mx_factor s' * ucast (mx_sample_size s'))"
    by (rule mixer_duration_truncated [OF _ _ run]) (simp_all add: demo_config_def)
  with run show ?thesis by simp
qed

end
