(* ===== verification/Mimo.thy ===== *)
theory Mimo
  imports Audio_Codec
begin

text \<open>
  The class of components with several inputs and outputs (\<^verbatim>\<open>xa-class-mimo-proc.c\<close>): up to four input
  and four output tracks and a probe port, on the base class. The tracks are functions of their number;
  loops over them are recursions over the list of numbers.
\<close>

section \<open>State\<close>

record in_track =
  it_input :: in_port
  it_idx :: u32
  it_consumed :: u32

record out_track =
  ot_output :: out_port
  ot_idx :: u32
  ot_produced :: u32

record mimo = base +
  mi_in :: "u32 \<Rightarrow> in_track"
  mi_out :: "u32 \<Rightarrow> out_track"
  mi_sample_size :: u32
  mi_factor :: u64
  mi_num_in :: u32
  mi_num_out :: u32
  mi_relax_sched :: u32
  mi_probe_enabled :: u32
  mi_probe :: out_port
  mi_probe_output :: addr
  mi_out_ptr :: "u32 \<Rightarrow> addr"
  mi_response :: addr
  mi_terminating :: bool

definition XA_MIMO_PROC_MAX_IN_PORTS :: u32 where "XA_MIMO_PROC_MAX_IN_PORTS = 4"
definition XA_MIMO_PROC_MAX_OUT_PORTS :: u32 where "XA_MIMO_PROC_MAX_OUT_PORTS = 4"

definition XA_MIMO_OUT_IDLE :: u32 where "XA_MIMO_OUT_IDLE = push_bit 8 (push_bit 0 1)"
definition XA_MIMO_OUT_ACTIVE :: u32 where "XA_MIMO_OUT_ACTIVE = push_bit 8 (push_bit 1 1)"
definition XA_MIMO_OUT_PAUSED :: u32 where "XA_MIMO_OUT_PAUSED = push_bit 8 (push_bit 2 1)"
definition XA_MIMO_OUT_ROUTED :: u32 where "XA_MIMO_OUT_ROUTED = push_bit 8 (push_bit 3 1)"
definition XA_MIMO_OUT_OUTPUT_SETUP :: u32 where "XA_MIMO_OUT_OUTPUT_SETUP = push_bit 8 (push_bit 4 1)"
definition XA_MIMO_OUT_FLUSHING :: u32 where "XA_MIMO_OUT_FLUSHING = push_bit 8 (push_bit 5 1)"
definition XA_MIMO_OUT_FLUSHING_DONE :: u32 where "XA_MIMO_OUT_FLUSHING_DONE = push_bit 8 (push_bit 6 1)"
definition XA_MIMO_FLAG_PROBE_SETUP :: u32 where "XA_MIMO_FLAG_PROBE_SETUP = push_bit 8 (push_bit 7 1)"
definition XA_MIMO_PROBE_PORT_PAUSED :: u32 where "XA_MIMO_PROBE_PORT_PAUSED = push_bit 8 (push_bit 8 1)"
definition XA_MIMO_IN_IDLE :: u32 where "XA_MIMO_IN_IDLE = push_bit 5 (push_bit 0 1)"
definition XA_MIMO_IN_ACTIVE :: u32 where "XA_MIMO_IN_ACTIVE = push_bit 5 (push_bit 1 1)"
definition XA_MIMO_IN_PAUSED :: u32 where "XA_MIMO_IN_PAUSED = push_bit 5 (push_bit 2 1)"
definition XA_MIMO_IN_INPUT_SETUP :: u32 where "XA_MIMO_IN_INPUT_SETUP = push_bit 5 (push_bit 3 1)"
definition XA_MIMO_IN_RECVD_DATA :: u32 where "XA_MIMO_IN_RECVD_DATA = push_bit 5 (push_bit 4 1)"

definition XA_MIMO_PROC_CONFIG_PARAM_CHANNELS :: u32 where "XA_MIMO_PROC_CONFIG_PARAM_CHANNELS = 0x10000"
definition XA_MIMO_PROC_CONFIG_PARAM_SAMPLE_RATE :: u32 where "XA_MIMO_PROC_CONFIG_PARAM_SAMPLE_RATE = 0x10001"
definition XA_MIMO_PROC_CONFIG_PARAM_PCM_WIDTH :: u32 where "XA_MIMO_PROC_CONFIG_PARAM_PCM_WIDTH = 0x10002"
definition XA_MIMO_PROC_CONFIG_PARAM_PORT_PAUSE :: u32 where "XA_MIMO_PROC_CONFIG_PARAM_PORT_PAUSE = 0x10004"
definition XA_MIMO_PROC_CONFIG_PARAM_PORT_RESUME :: u32 where "XA_MIMO_PROC_CONFIG_PARAM_PORT_RESUME = 0x10005"
definition XA_MIMO_PROC_CONFIG_PARAM_PORT_CONNECT :: u32 where "XA_MIMO_PROC_CONFIG_PARAM_PORT_CONNECT = 0x10006"
definition XA_MIMO_PROC_CONFIG_PARAM_PORT_DISCONNECT :: u32 where "XA_MIMO_PROC_CONFIG_PARAM_PORT_DISCONNECT = 0x10007"
definition XAF_COMP_CONFIG_PARAM_RELAX_SCHED :: u32 where "XAF_COMP_CONFIG_PARAM_RELAX_SCHED = 0x20001"
definition XA_MIMO_PROC_CONFIG_FATAL_RANGE :: int where "XA_MIMO_PROC_CONFIG_FATAL_RANGE = XA_ERROR_CODE (- 1) 1 0 0"
definition XA_MIMO_PROC_EXEC_NONFATAL_NO_DATA :: int where "XA_MIMO_PROC_EXEC_NONFATAL_NO_DATA = XA_ERROR_CODE 0 2 0 0"
definition XA_MIMO_PROC_EXEC_FATAL_STATE :: int where "XA_MIMO_PROC_EXEC_FATAL_STATE = XA_ERROR_CODE (- 1) 2 0 0"

text \<open>The numbers of input and output ports by type of component.\<close>

definition xf_io_ports :: "(u32 \<times> u32) list" where
  "xf_io_ports = [(1, 1), (1, 1), (4, 1), (1, 1), (1, 1), (1, 0), (0, 1), (1, 2), (2, 1), (2, 2), (2, 3), (1, 0), (1, 1)]"

definition upto_port :: "u32 \<Rightarrow> u32 list" where
  "upto_port n = map word_of_nat [0 ..< unat n]"

section \<open>Tracks and ports\<close>

definition upd_in :: "u32 \<Rightarrow> (in_track \<Rightarrow> in_track) \<Rightarrow> mimo \<Rightarrow> mimo" where
  "upd_in i f s = s\<lparr>mi_in := (mi_in s)(i := f (mi_in s i))\<rparr>"

definition upd_out :: "u32 \<Rightarrow> (out_track \<Rightarrow> out_track) \<Rightarrow> mimo \<Rightarrow> mimo" where
  "upd_out i f s = s\<lparr>mi_out := (mi_out s)(i := f (mi_out s i))\<rparr>"

definition mi_input :: "mimo \<Rightarrow> u32 \<Rightarrow> in_port" where
  "mi_input s i = it_input (mi_in s i)"

definition mi_output :: "mimo \<Rightarrow> u32 \<Rightarrow> out_port" where
  "mi_output s i = ot_output (mi_out s i)"

definition xa_in_track_test_flags :: "u32 \<Rightarrow> u32 \<Rightarrow> mimo \<Rightarrow> bool" where
  "xa_in_track_test_flags i f s \<longleftrightarrow> ip_flags (mi_input s i) AND f \<noteq> 0"

definition upd_in_flags :: "u32 \<Rightarrow> (u32 \<Rightarrow> u32) \<Rightarrow> mimo \<Rightarrow> mimo" where
  "upd_in_flags i g = upd_in i (\<lambda>t. t\<lparr>it_input := (it_input t)\<lparr>ip_flags := g (ip_flags (it_input t))\<rparr>\<rparr>)"

definition xa_in_track_set_flags :: "u32 \<Rightarrow> u32 \<Rightarrow> mimo \<Rightarrow> mimo" where
  "xa_in_track_set_flags i f = upd_in_flags i (\<lambda>x. x OR f)"

definition xa_in_track_clear_flags :: "u32 \<Rightarrow> u32 \<Rightarrow> mimo \<Rightarrow> mimo" where
  "xa_in_track_clear_flags i f = upd_in_flags i (\<lambda>x. x AND NOT f)"

definition xa_in_track_toggle_flags :: "u32 \<Rightarrow> u32 \<Rightarrow> mimo \<Rightarrow> mimo" where
  "xa_in_track_toggle_flags i f = upd_in_flags i (\<lambda>x. x XOR f)"

definition xa_out_track_test_flags :: "u32 \<Rightarrow> u32 \<Rightarrow> mimo \<Rightarrow> bool" where
  "xa_out_track_test_flags i f s \<longleftrightarrow> op_flags (mi_output s i) AND f \<noteq> 0"

definition upd_out_flags :: "u32 \<Rightarrow> (u32 \<Rightarrow> u32) \<Rightarrow> mimo \<Rightarrow> mimo" where
  "upd_out_flags i g = upd_out i (\<lambda>t. t\<lparr>ot_output := (ot_output t)\<lparr>op_flags := g (op_flags (ot_output t))\<rparr>\<rparr>)"

definition xa_out_track_set_flags :: "u32 \<Rightarrow> u32 \<Rightarrow> mimo \<Rightarrow> mimo" where
  "xa_out_track_set_flags i f = upd_out_flags i (\<lambda>x. x OR f)"

definition xa_out_track_clear_flags :: "u32 \<Rightarrow> u32 \<Rightarrow> mimo \<Rightarrow> mimo" where
  "xa_out_track_clear_flags i f = upd_out_flags i (\<lambda>x. x AND NOT f)"

definition xa_out_track_toggle_flags :: "u32 \<Rightarrow> u32 \<Rightarrow> mimo \<Rightarrow> mimo" where
  "xa_out_track_toggle_flags i f = upd_out_flags i (\<lambda>x. x XOR f)"

definition put_in :: "u32 \<Rightarrow> io \<Rightarrow> in_port \<Rightarrow> mimo \<Rightarrow> mimo" where
  "put_in i io p s = upd_in i (it_input_update (\<lambda>_. p)) (with_io io s)"

definition put_out :: "u32 \<Rightarrow> io \<Rightarrow> out_port \<Rightarrow> mimo \<Rightarrow> mimo" where
  "put_out i io p s = upd_out i (ot_output_update (\<lambda>_. p)) (with_io io s)"

definition mi_put_probe :: "io \<Rightarrow> out_port \<Rightarrow> mimo \<Rightarrow> mimo" where
  "mi_put_probe io p s = (with_io io s)\<lparr>mi_probe := p\<rparr>"

definition in_purge :: "u32 \<Rightarrow> mimo \<Rightarrow> mimo option" where
  "in_purge i s = do { (io, p) \<leftarrow> xf_input_port_purge (io_of s) (mi_input s i); Some (put_in i io p s) }"

fun ins_purge :: "u32 list \<Rightarrow> mimo \<Rightarrow> mimo option" where
  "ins_purge [] s = Some s"
| "ins_purge (i # js) s = do { s \<leftarrow> in_purge i s; ins_purge js s }"

definition in_fill :: "u32 \<Rightarrow> mimo \<Rightarrow> mimo" where
  "in_fill i s = (case xf_input_port_fill (io_of s) (mi_input s i) of (io, p, _) \<Rightarrow> put_in i io p s)"

definition in_consume :: "u32 \<Rightarrow> u32 \<Rightarrow> mimo \<Rightarrow> mimo" where
  "in_consume i n s = (case xf_input_port_consume (io_of s) (mi_input s i) n of (io, p) \<Rightarrow> put_in i io p s)"

definition out_flush :: "u32 \<Rightarrow> u32 \<Rightarrow> mimo \<Rightarrow> (mimo \<times> bool) option" where
  "out_flush i opcode s =
     do { (io, p, r) \<leftarrow> xf_output_port_flush (io_of s) (mi_output s i) opcode; Some (put_out i io p s, r) }"

definition mi_probe_flush :: "u32 \<Rightarrow> mimo \<Rightarrow> (mimo \<times> bool) option" where
  "mi_probe_flush opcode s =
     do { (io, p, r) \<leftarrow> xf_output_port_flush (io_of s) (mi_probe s) opcode; Some (mi_put_probe io p s, r) }"

definition out_produce :: "u32 \<Rightarrow> u32 \<Rightarrow> mimo \<Rightarrow> mimo" where
  "out_produce i n s = (case xf_output_port_produce (io_of s) (mi_output s i) n of (io, p, _) \<Rightarrow> put_out i io p s)"

definition mi_probe_produce :: "u32 \<Rightarrow> mimo \<Rightarrow> mimo" where
  "mi_probe_produce n s = (case xf_output_port_produce (io_of s) (mi_probe s) n of (io, p, _) \<Rightarrow> mi_put_probe io p s)"

definition mi_output_type :: "mimo \<Rightarrow> u32" where
  "mi_output_type s = pool_type s XAF_MEM_POOL_TYPE_COMP_OUTPUT"

definition out_unroute :: "u32 \<Rightarrow> mimo \<Rightarrow> mimo option" where
  "out_unroute i s =
     do { (io, p) \<leftarrow> xf_output_port_unroute (io_of s) (mi_output s i) (mi_output_type s); Some (put_out i io p s) }"

definition out_unroute_done :: "u32 \<Rightarrow> mimo \<Rightarrow> mimo option" where
  "out_unroute_done i s =
     do { (io, p) \<leftarrow> xf_output_port_unroute_done (io_of s) (mi_output s i) (mi_output_type s); Some (put_out i io p s) }"

definition out_flush_done :: "u32 \<Rightarrow> mimo \<Rightarrow> mimo" where
  "out_flush_done i = upd_out i (ot_output_update xf_output_port_flush_done)"

definition mi_upd_probe_flags :: "(u32 \<Rightarrow> u32) \<Rightarrow> mimo \<Rightarrow> mimo" where
  "mi_upd_probe_flags f s = s\<lparr>mi_probe := (mi_probe s)\<lparr>op_flags := f (op_flags (mi_probe s))\<rparr>\<rparr>"

definition mi_probe_paused :: "mimo \<Rightarrow> bool" where
  "mi_probe_paused s = xa_port_test_flags (op_flags (mi_probe s)) XA_MIMO_PROBE_PORT_PAUSED"

definition put_error :: "addr \<Rightarrow> int \<Rightarrow> mimo \<Rightarrow> mimo" where
  "put_error m e = on_core (upd_msg m (m_error_update (\<lambda>_. word_of_int e)))"

text \<open>The plug-in is told of the state of a port; its error code becomes that of the message if it is not fatal.\<close>

definition port_param :: "mimo plugin \<Rightarrow> u32 \<Rightarrow> u32 \<Rightarrow> mimo \<Rightarrow> (mimo \<Rightarrow> int \<Rightarrow> mimo result) \<Rightarrow> mimo result" where
  "port_param P i port s k = XA_API P XA_API_CMD_SET_CONFIG_PARAM i (Local port) s (\<lambda>s e _. k s e)"

section \<open>Readiness of the ports\<close>

definition xa_mimo_proc_check_active :: "mimo \<Rightarrow> u32" where
  "xa_mimo_proc_check_active s =
     of_nat (length (filter (\<lambda>i. xa_in_track_test_flags i (XA_MIMO_IN_RECVD_DATA OR XA_MIMO_IN_ACTIVE) s) (upto_port (mi_num_in s))))"

definition xa_mimo_proc_input_port_ready :: "mimo \<Rightarrow> bool" where
  "xa_mimo_proc_input_port_ready s \<longleftrightarrow>
     filter (\<lambda>i. XF_CHK_PORT_MASK (mi_relax_sched s) (unat i) \<or> xa_in_track_test_flags i XA_MIMO_IN_PAUSED s \<or>
                 xa_in_track_test_flags i (XA_MIMO_IN_RECVD_DATA OR XA_MIMO_IN_ACTIVE) s \<and> xf_input_port_ready (mi_input s i))
       (upto_port (mi_num_in s)) \<noteq> []"

definition xa_mimo_proc_output_port_ready :: "mimo \<Rightarrow> bool" where
  "xa_mimo_proc_output_port_ready s \<longleftrightarrow>
     list_all (\<lambda>i. XF_CHK_PORT_MASK (mi_relax_sched s) (unat (mi_num_in s + i)) \<and> \<not> has XA_BASE_FLAG_RUNTIME_INIT s \<or>
                   xa_out_track_test_flags i XA_MIMO_OUT_PAUSED s \<or>
                   \<not> xa_out_track_test_flags i XA_MIMO_OUT_ROUTED s \<and> \<not> has XA_BASE_FLAG_RUNTIME_INIT s \<and> 1 < mi_num_out s \<or>
                   xf_output_port_ready (mi_output s i))
       (upto_port (mi_num_out s))"

definition mi_ports_ready :: "mimo \<Rightarrow> bool" where
  "mi_ports_ready s \<longleftrightarrow> xa_mimo_proc_input_port_ready s \<and> xa_mimo_proc_output_port_ready s"

definition xa_mimo_proc_output_port_flush_done :: "mimo \<Rightarrow> bool" where
  "xa_mimo_proc_output_port_flush_done s \<longleftrightarrow>
     of_nat (length (filter (\<lambda>i. xa_out_track_test_flags i XA_MIMO_OUT_FLUSHING_DONE s) (upto_port (mi_num_out s)))) = mi_num_out s"

section \<open>Runtime initialisation\<close>

text \<open>
  The start message is filled in the buffer of the first message of the first output port, or on the
  stack (at the address \<open>sp\<close>) when the component has no output. \<open>k\<close> takes over after the queries of
  the buffer lengths.
\<close>

definition start_clear :: "addr \<Rightarrow> mimo \<Rightarrow> mimo" where
  "start_clear b s = foldl (\<lambda>s k. put32 (b + 4 * k) 0 s) s (upto_port 12)"

fun port_lengths :: "mimo plugin \<Rightarrow> (mimo \<Rightarrow> u32 \<Rightarrow> u32) \<Rightarrow> addr \<Rightarrow> u32 list \<Rightarrow> mimo \<Rightarrow> (mimo \<Rightarrow> mimo result) \<Rightarrow> mimo result" where
  "port_lengths P idx a [] s k = k s"
| "port_lengths P idx a (i # js) s k =
     XA_API P XA_API_CMD_GET_MEM_INFO_SIZE (idx s i) (Ptr (a + 4 * i)) s (\<lambda>s _ _. port_lengths P idx a js s k)"

definition mi_connect :: "mimo plugin \<Rightarrow> u32 \<Rightarrow> u32 \<Rightarrow> (int \<Rightarrow> int \<Rightarrow> mimo \<Rightarrow> mimo result) \<Rightarrow> mimo \<Rightarrow> mimo result" where
  "mi_connect P i len k s = do {
     (io, p, err) \<leftarrow> xf_output_port_route_alloc (io_of s) (mi_output s i) len (mi_output_type s);
     let s = put_out i io p s;
     let port = mi_num_in s + i;
     if err = 0
     then port_param P XA_MIMO_PROC_CONFIG_PARAM_PORT_CONNECT port (xa_out_track_set_flags i XA_MIMO_OUT_ROUTED s) (\<lambda>s e. k err e s)
     else port_param P XA_MIMO_PROC_CONFIG_PARAM_PORT_DISCONNECT port (xa_out_track_clear_flags i XA_MIMO_OUT_ROUTED s) (\<lambda>s e. k err e s) }"

definition out_dequeue :: "u32 \<Rightarrow> mimo \<Rightarrow> mimo \<times> addr" where
  "out_dequeue i s =
     (case xf_msg_dequeue (c_msg (b_core s)) (op_queue (mi_output s i)) of (h, q, m) \<Rightarrow>
        (upd_out i (\<lambda>t. t\<lparr>ot_output := (ot_output t)\<lparr>op_queue := q\<rparr>\<rparr>) (on_core (\<lambda>c. c\<lparr>c_msg := h\<rparr>) s), m))"

text \<open>The other output ports whose start message has arrived; \<open>acc\<close> joins the errors.\<close>

fun mi_connect_rest :: "mimo plugin \<Rightarrow> addr \<Rightarrow> u32 list \<Rightarrow> int \<Rightarrow> mimo \<Rightarrow> mimo result" where
  "mi_connect_rest P b [] acc s = do { s \<leftarrow> schedule_if ((acc = 0 \<or> acc = 1) \<and> mi_ports_ready s) s; Some (s, 0) }"
| "mi_connect_rest P b (i # js) acc s =
     (let (s, m) = out_dequeue i s in
      if m = NULL then mi_connect_rest P b js acc s
      else mi_connect P i (get32 s (b + 28 + 4 * i))
             (\<lambda>err e s. mi_connect_rest P b js (acc OR err) (on_io (xf_response_data m start_msg_size) (put_error m e s))) s)"

definition mi_set_factor :: "addr \<Rightarrow> (mimo \<Rightarrow> mimo result) \<Rightarrow> mimo \<Rightarrow> mimo result" where
  "mi_set_factor b k s =
     (let s = s\<lparr>mi_sample_size := get32 s (b + 4) * bytes_per_sample (get32 s (b + 8))\<rparr>;
          sz = mi_sample_size s; len = get32 s (b + 28); frame_size = len div sz; factor = xf_timebase_factor (get32 s b)
      in if \<not> 0 < sz then Some (s, XA_API_FATAL_INVALID_CMD_TYPE)
         else if frame_size * sz \<noteq> len then Some (s, XA_API_FATAL_INVALID_CMD_TYPE)
         else if factor = 0 then Some (s, XA_API_FATAL_INVALID_CMD_TYPE)
         else
           let s = s\<lparr>mi_factor := factor div ucast sz\<rparr>
           in if mi_factor s * ucast sz \<noteq> factor then Some (s, XA_MIMO_PROC_CONFIG_FATAL_RANGE) else k s)"

definition mi_query :: "mimo plugin \<Rightarrow> addr \<Rightarrow> (mimo \<Rightarrow> mimo result) \<Rightarrow> mimo \<Rightarrow> mimo result" where
  "mi_query P b k s =
     XA_API P XA_API_CMD_GET_CONFIG_PARAM XA_MIMO_PROC_CONFIG_PARAM_SAMPLE_RATE (Ptr b) (start_clear b s) (\<lambda>s _ _.
     XA_API P XA_API_CMD_GET_CONFIG_PARAM XA_MIMO_PROC_CONFIG_PARAM_CHANNELS (Ptr (b + 4)) s (\<lambda>s _ _.
     XA_API P XA_API_CMD_GET_CONFIG_PARAM XA_MIMO_PROC_CONFIG_PARAM_PCM_WIDTH (Ptr (b + 8)) s (\<lambda>s _ _.
     port_lengths P (\<lambda>s i. it_idx (mi_in s i)) (b + 12) (upto_port (mi_num_in s)) s (\<lambda>s.
     port_lengths P (\<lambda>s i. ot_idx (mi_out s i)) (b + 28) (upto_port (mi_num_out s)) s (\<lambda>s.
       let s = (if mi_num_out s = 0 then put32 (b + 28) (get32 s (b + 12)) s else s);
           s = put32 (b + 44) (if mi_probe_enabled s \<noteq> 0 then op_length (mi_probe s) else 0) s
       in mi_set_factor b k s)))))"

definition xa_mimo_proc_prepare_runtime :: "mimo plugin \<Rightarrow> addr \<Rightarrow> mimo \<Rightarrow> mimo result" where
  "xa_mimo_proc_prepare_runtime P sp s =
     (if mi_num_out s = 0 then mi_query P sp (\<lambda>s. Some (s, 0)) s
      else
        let (s, m) = out_dequeue 0 s; b = m_buffer (msg s m) in
        if m = NULL then Some (s, XAF_INVALIDVAL_ERR)
        else mi_query P b (\<lambda>s.
          mi_connect P 0 (get32 s (b + 28)) (\<lambda>err e s.
            let s = on_io (xf_response_data m start_msg_size) (if err = 0 then s else put_error m e s)
            in mi_connect_rest P b (tl (upto_port (mi_num_out s))) err s) s) s)"

section \<open>Commands\<close>

definition mi_restart :: "mimo plugin \<Rightarrow> mimo \<Rightarrow> (mimo \<Rightarrow> mimo result) \<Rightarrow> mimo result" where
  "mi_restart P s k =
     (if has XA_BASE_FLAG_COMPLETED s
      then XA_API P XA_API_CMD_EXECUTE XA_CMD_TYPE_DO_RUNTIME_INIT (Ptr NULL)
             (set_state (XA_BASE_FLAG_POSTINIT OR XA_BASE_FLAG_EXECUTION) s) (\<lambda>s _ _. k s)
      else k s)"

definition mi_empty_schedule :: "mimo \<Rightarrow> mimo result" where
  "mi_empty_schedule s = do {
     s \<leftarrow> schedule_if (xa_mimo_proc_output_port_ready s \<and> (\<not> has XA_BASE_FLAG_RUNTIME_INIT s \<or> mi_num_out s = 0)) s;
     Some (s, 0) }"

definition xa_mimo_proc_empty_this_buffer :: "mimo plugin \<Rightarrow> addr \<Rightarrow> mimo \<Rightarrow> mimo result" where
  "xa_mimo_proc_empty_this_buffer P m s =
     (let i = XF_MSG_DST_PORT (m_id (msg s m)) in
      if \<not> i < mi_num_in s then Some (s, XA_API_FATAL_INVALID_CMD_TYPE)
      else if \<not> has XA_BASE_FLAG_POSTINIT s then Some (s, XA_API_FATAL_INVALID_CMD)
      else
        let s = (if m_length (msg s m) \<noteq> 0 then xa_in_track_set_flags i XA_MIMO_IN_RECVD_DATA s
                 else xa_in_track_clear_flags i XA_MIMO_IN_RECVD_DATA s);
            (io, p, first) = xf_input_port_put (io_of s) (mi_input s i) m; s = put_in i io p s
        in if \<not> first then Some (s, 0)
           else mi_restart P s (\<lambda>s.
             if xa_in_track_test_flags i XA_MIMO_IN_IDLE s
             then port_param P XA_MIMO_PROC_CONFIG_PARAM_PORT_CONNECT i
                    (xa_in_track_toggle_flags i (XA_MIMO_IN_IDLE OR XA_MIMO_IN_ACTIVE) s) (\<lambda>s _. mi_empty_schedule s)
             else mi_empty_schedule s))"

definition mi_fill_probe :: "addr \<Rightarrow> mimo \<Rightarrow> mimo result" where
  "mi_fill_probe m s =
     (if has XA_BASE_FLAG_COMPLETED s \<or> mi_probe_paused s then Some (respond_ok m s, 0)
      else
        let s = on_core (upd_msg m (m_length_update (\<lambda>_. op_length (mi_probe s)))) s;
            (io, p, first) = xf_output_port_put (io_of s) (mi_probe s) m; s = mi_put_probe io p s
        in do { s \<leftarrow> schedule_if (first \<and> mi_ports_ready s \<and> has XA_BASE_FLAG_EXECUTION s) s; Some (s, 0) })"

text \<open>Scheduling when the ports are ready; a probe port that is enabled and not paused has to be ready as well.\<close>

definition mi_fill_schedule :: "mimo \<Rightarrow> mimo result" where
  "mi_fill_schedule s =
     (if xa_mimo_proc_output_port_ready s \<and> (xa_mimo_proc_input_port_ready s \<or> has XA_BASE_FLAG_RUNTIME_INIT s) then
        if mi_probe_enabled s \<noteq> 0 \<and> \<not> has XA_BASE_FLAG_RUNTIME_INIT s \<and>
           \<not> xf_output_port_ready (mi_probe s) \<and> \<not> mi_probe_paused s
        then Some (s, 0)
        else do { s \<leftarrow> xa_base_schedule 0 s; Some (s, 0) }
      else Some (s, 0))"

definition mi_streams_over :: "mimo \<Rightarrow> mimo option" where
  "mi_streams_over s =
     (if xa_mimo_proc_output_port_flush_done s then do {
        s \<leftarrow> ins_purge (upto_port (mi_num_in s)) s;
        if mi_probe_enabled s \<noteq> 0 then do { (s, _) \<leftarrow> mi_probe_flush XF_FLUSH s; Some s } else Some s }
      else Some s)"

definition mi_fill_control :: "u32 \<Rightarrow> addr \<Rightarrow> mimo \<Rightarrow> mimo result" where
  "mi_fill_control i m s =
     (let s = xa_out_track_set_flags i XA_MIMO_OUT_FLUSHING_DONE (out_flush_done i s) in do {
        s \<leftarrow> mi_streams_over s;
        s \<leftarrow> (if xf_output_port_unrouting (mi_output s i) then out_unroute_done i s
              else if m_length (msg s m) = XF_MSG_LENGTH_INVALID then out_unroute i s
              else Some s);
        Some (s, 0) })"

definition mi_fill_drop :: "mimo plugin \<Rightarrow> u32 \<Rightarrow> addr \<Rightarrow> mimo \<Rightarrow> mimo result" where
  "mi_fill_drop P i m s =
     (let s = on_core (upd_msg m (m_length_update (\<lambda>_. op_length (mi_output s i)))) s;
          port = XF_MSG_DST_PORT (m_id (msg s m)) in
      if \<not> xf_output_port_flushing (mi_output s i) then do {
        s \<leftarrow> xa_base_cancel s;
        (s, _) \<leftarrow> out_flush i XF_FILL_THIS_BUFFER s;
        port_param P XA_MIMO_PROC_CONFIG_PARAM_PORT_RESUME port
          (xa_out_track_clear_flags i XA_MIMO_OUT_ROUTED (xa_out_track_clear_flags i XA_MIMO_OUT_OUTPUT_SETUP s)) (\<lambda>s _.
        port_param P XA_MIMO_PROC_CONFIG_PARAM_PORT_DISCONNECT port s (\<lambda>s _.
          mi_fill_schedule (xa_out_track_set_flags i XA_MIMO_OUT_FLUSHING s))) }
      else Some (s, 0))"

definition mi_fill_put :: "mimo plugin \<Rightarrow> u32 \<Rightarrow> addr \<Rightarrow> mimo \<Rightarrow> mimo result" where
  "mi_fill_put P i m s =
     (let (io, p, first) = xf_output_port_put (io_of s) (mi_output s i) m; s = put_out i io p s in
      if \<not> first then Some (s, 0)
      else
        let s = (if xa_out_track_test_flags i XA_MIMO_OUT_IDLE s
                 then xa_out_track_toggle_flags i (XA_MIMO_OUT_IDLE OR XA_MIMO_OUT_ACTIVE) s else s)
        in if \<not> xa_out_track_test_flags i XA_MIMO_OUT_ROUTED s \<and> m_length (msg s m) \<noteq> 0 \<and>
              \<not> xf_output_port_unrouting (mi_output s i)
           then port_param P XA_MIMO_PROC_CONFIG_PARAM_PORT_CONNECT (XF_MSG_DST_PORT (m_id (msg s m)))
                  (xa_out_track_set_flags i XA_MIMO_OUT_ROUTED s) (\<lambda>s _. mi_fill_schedule s)
           else mi_fill_schedule s)"

definition xa_mimo_proc_fill_this_buffer :: "mimo plugin \<Rightarrow> addr \<Rightarrow> mimo \<Rightarrow> mimo result" where
  "xa_mimo_proc_fill_this_buffer P m s =
     (let i = XF_MSG_DST_PORT (m_id (msg s m)) - mi_num_in s in
      if \<not> has XA_BASE_FLAG_POSTINIT s then Some (s, XA_API_FATAL_INVALID_CMD)
      else if mi_probe_enabled s \<noteq> 0 \<and> i = mi_num_out s then mi_fill_probe m s
      else if \<not> i < mi_num_out s then Some (s, XA_API_FATAL_INVALID_CMD_TYPE)
      else if has XA_BASE_FLAG_RUNTIME_INIT s then
        if m_length (msg s m) \<noteq> 0 then Some (s, XA_MIMO_PROC_EXEC_FATAL_STATE) else mi_fill_put P i m s
      else if m = xf_output_port_control_msg (mi_output s i) then mi_fill_control i m s
      else if has XA_BASE_FLAG_COMPLETED s \<and> \<not> xf_output_port_routed (mi_output s i) then Some (respond_ok m s, 0)
      else if m_length (msg s m) = XF_MSG_LENGTH_INVALID \<and> xf_output_port_routed (mi_output s i) then mi_fill_drop P i m s
      else mi_fill_put P i m (on_core (upd_msg m (m_length_update (\<lambda>_. op_length (mi_output s i)))) s))"

definition xa_mimo_proc_port_route :: "mimo plugin \<Rightarrow> addr \<Rightarrow> mimo \<Rightarrow> mimo result" where
  "xa_mimo_proc_port_route P m s =
     (let cmd = m_buffer (msg s m); src = XF_MSG_DST (m_id (msg s m)); dst = ucast (get64 s (cmd + 8)) :: u32;
          port = XF_MSG_DST_PORT (m_id (msg s m)); i = port - mi_num_in s;
          finish = (\<lambda>s e. do {
            let s = put_error m e s;
            s \<leftarrow> schedule_if (mi_ports_ready s) s;
            Some (respond_ok m s, 0) }) in
      if \<not> has XA_BASE_FLAG_POSTINIT s then Some (s, XA_API_FATAL_INVALID_CMD)
      else if \<not> i < mi_num_out s then Some (s, XA_API_FATAL_INVALID_CMD_TYPE)
      else if xf_output_port_routed (mi_output s i) then Some (s, XA_API_FATAL_INVALID_CMD_TYPE)
      else do {
        let s = xa_out_track_set_flags i XA_MIMO_OUT_ACTIVE (upd_out_flags i (\<lambda>_. 0) s);
        (io, p, r) \<leftarrow> xf_output_port_route (io_of s) (mi_output s i) (XF_MSG_ID (ucast dst) (ucast src))
          (get32 s (cmd + 16)) (get32 s (cmd + 20)) (get32 s (cmd + 24)) (mi_output_type s);
        let s = put_out i io p s;
        if r \<noteq> 0 then Some (s, XA_API_FATAL_MEM_ALLOC)
        else if get32 s (cmd + 20) \<noteq> 0
        then port_param P XA_MIMO_PROC_CONFIG_PARAM_PORT_CONNECT port (xa_out_track_set_flags i XA_MIMO_OUT_ROUTED s) finish
        else port_param P XA_MIMO_PROC_CONFIG_PARAM_PORT_DISCONNECT port (xa_out_track_clear_flags i XA_MIMO_OUT_ROUTED s) finish })"

definition mi_unroute_flush :: "u32 \<Rightarrow> addr \<Rightarrow> mimo \<Rightarrow> mimo result" where
  "mi_unroute_flush i m s = do {
     (s, idle) \<leftarrow> out_flush i XF_FLUSH s;
     if idle then do {
       s \<leftarrow> out_unroute i s;
       s \<leftarrow> schedule_if (xa_mimo_proc_output_port_ready s) s;
       Some (respond_ok m s, 0) }
     else Some (upd_out i (ot_output_update (\<lambda>p. xf_output_port_unroute_start p m)) (xa_out_track_set_flags i XA_MIMO_OUT_FLUSHING s), 0) }"

definition xa_mimo_proc_port_unroute :: "mimo plugin \<Rightarrow> addr \<Rightarrow> mimo \<Rightarrow> mimo result" where
  "xa_mimo_proc_port_unroute P m s =
     (let port = XF_MSG_DST_PORT (m_id (msg s m)); i = port - mi_num_in s in
      if \<not> has XA_BASE_FLAG_POSTINIT s then Some (s, XA_API_FATAL_INVALID_CMD)
      else if \<not> i < mi_num_out s then Some (s, XA_API_FATAL_INVALID_CMD_TYPE)
      else if \<not> xf_output_port_routed (mi_output s i) then Some (respond_ok m s, 0)
      else do {
        s \<leftarrow> xa_base_cancel s;
        port_param P XA_MIMO_PROC_CONFIG_PARAM_PORT_RESUME port
          (xa_out_track_clear_flags i XA_MIMO_OUT_ROUTED (xa_out_track_clear_flags i XA_MIMO_OUT_OUTPUT_SETUP s)) (\<lambda>s e.
        port_param P XA_MIMO_PROC_CONFIG_PARAM_PORT_DISCONNECT port (put_error m e s) (\<lambda>s e.
          mi_unroute_flush i m (if e \<noteq> 0 \<and> m_error (msg s m) = 0 then put_error m e s else s))) })"

definition mi_flush_input :: "mimo plugin \<Rightarrow> u32 \<Rightarrow> addr \<Rightarrow> mimo \<Rightarrow> mimo result" where
  "mi_flush_input P i m s =
     (if xa_in_track_test_flags i (XA_MIMO_IN_ACTIVE OR XA_MIMO_IN_PAUSED) s then do {
        s \<leftarrow> in_purge i s;
        let s = xa_in_track_set_flags i XA_MIMO_IN_IDLE
                  (xa_in_track_clear_flags i (XA_MIMO_IN_ACTIVE OR XA_MIMO_IN_PAUSED OR XA_MIMO_IN_INPUT_SETUP OR XA_MIMO_IN_RECVD_DATA) s);
        port_param P XA_MIMO_PROC_CONFIG_PARAM_PORT_RESUME i s (\<lambda>s _.
        port_param P XA_MIMO_PROC_CONFIG_PARAM_PORT_DISCONNECT i s (\<lambda>s _. do {
          s \<leftarrow> schedule_if (mi_ports_ready s) s;
          Some (on_io (xf_response m) s, 0) })) }
      else Some (on_io (xf_response m) s, 0))"

definition mi_flush_unrouting :: "u32 \<Rightarrow> mimo \<Rightarrow> mimo result" where
  "mi_flush_unrouting i s = do {
     s \<leftarrow> schedule_if (xa_mimo_proc_output_port_ready s) s;
     let s = xa_out_track_set_flags i XA_MIMO_OUT_FLUSHING_DONE s;
     s \<leftarrow> (if has XA_BASE_FLAG_COMPLETED s \<and> xa_mimo_proc_output_port_flush_done s
           then ins_purge (upto_port (mi_num_in s)) s else Some s);
     s \<leftarrow> out_unroute_done i s;
     Some (s, 0) }"

definition mi_flush_output :: "u32 \<Rightarrow> addr \<Rightarrow> mimo \<Rightarrow> mimo result" where
  "mi_flush_output i m s = do {
     s \<leftarrow> (if \<not> xf_output_port_routed (mi_output s i)
           then do { (s, _) \<leftarrow> out_flush i XF_FLUSH s; Some (on_io (xf_response m) s) }
           else Some (xa_out_track_set_flags i XA_MIMO_OUT_FLUSHING_DONE (out_flush_done i s)));
     s \<leftarrow> (if xa_mimo_proc_output_port_flush_done s then ins_purge (upto_port (mi_num_in s)) s else Some s);
     Some (xa_out_track_clear_flags i (XA_MIMO_OUT_PAUSED OR XA_MIMO_OUT_OUTPUT_SETUP) s, 0) }"

definition xa_mimo_proc_flush :: "mimo plugin \<Rightarrow> addr \<Rightarrow> mimo \<Rightarrow> mimo result" where
  "xa_mimo_proc_flush P m s =
     (let port = XF_MSG_DST_PORT (m_id (msg s m)); i = port - mi_num_in s in
      if \<not> has XA_BASE_FLAG_POSTINIT s then Some (s, XA_API_FATAL_INVALID_CMD)
      else if m_length (msg s m) \<noteq> 0 \<and> m_length (msg s m) \<noteq> XF_MSG_LENGTH_INVALID
      then Some (s, XA_API_FATAL_INVALID_CMD_TYPE)
      else if port < mi_num_in s then mi_flush_input P port m s
      else if \<not> i < mi_num_out s then Some (s, XA_API_FATAL_INVALID_CMD_TYPE)
      else if xf_output_port_unrouting (mi_output s i) then mi_flush_unrouting i s
      else mi_flush_output i m s)"

text \<open>
  Pausing and resuming a port: \<open>known\<close> says that the port is active and in the state the command ends,
  \<open>change\<close> is the change of its flag.
\<close>

definition mi_port_change :: "mimo plugin \<Rightarrow> u32 \<Rightarrow> u32 \<Rightarrow> addr \<Rightarrow> bool \<Rightarrow> (mimo \<Rightarrow> mimo) \<Rightarrow> mimo \<Rightarrow> mimo result" where
  "mi_port_change P param port m known change s =
     (if known
      then port_param P param port (change s) (\<lambda>s e. do {
        let s = put_error m e s;
        s \<leftarrow> schedule_if (mi_ports_ready s) s;
        Some (respond_ok m s, 0) })
      else Some (respond_ok m s, 0))"

definition xa_mimo_proc_port_pause :: "mimo plugin \<Rightarrow> addr \<Rightarrow> mimo \<Rightarrow> mimo result" where
  "xa_mimo_proc_port_pause P m s =
     (let i = XF_MSG_DST_PORT (m_id (msg s m)); j = i - mi_num_in s in
      if m_length (msg s m) \<noteq> 0 then Some (s, XA_API_FATAL_INVALID_CMD_TYPE)
      else if \<not> i \<le> mi_num_in s + mi_num_out s then Some (s, XA_API_FATAL_INVALID_CMD_TYPE)
      else if has XA_BASE_FLAG_COMPLETED s then Some (respond_ok m s, 0)
      else if i < mi_num_in s
      then mi_port_change P XA_MIMO_PROC_CONFIG_PARAM_PORT_PAUSE i m
             (xa_in_track_test_flags i XA_MIMO_IN_ACTIVE s \<and> \<not> xa_in_track_test_flags i XA_MIMO_IN_PAUSED s)
             (xa_in_track_set_flags i XA_MIMO_IN_PAUSED) s
      else if i < mi_num_in s + mi_num_out s
      then mi_port_change P XA_MIMO_PROC_CONFIG_PARAM_PORT_PAUSE i m
             (xa_out_track_test_flags j XA_MIMO_OUT_ACTIVE s \<and> \<not> xa_out_track_test_flags j XA_MIMO_OUT_PAUSED s)
             (xa_out_track_set_flags j XA_MIMO_OUT_PAUSED) s
      else do {
        s \<leftarrow> (if mi_probe_enabled s \<noteq> 0 \<and> \<not> mi_probe_paused s then do {
                (s, _) \<leftarrow> mi_probe_flush XF_FLUSH s;
                let s = mi_upd_probe_flags (\<lambda>f. xa_port_set_flags f XA_MIMO_PROBE_PORT_PAUSED) s;
                schedule_if (mi_ports_ready s) s }
              else Some s);
        Some (respond_ok m s, 0) })"

definition xa_mimo_proc_port_resume :: "mimo plugin \<Rightarrow> addr \<Rightarrow> mimo \<Rightarrow> mimo result" where
  "xa_mimo_proc_port_resume P m s =
     (let i = XF_MSG_DST_PORT (m_id (msg s m)); j = i - mi_num_in s in
      if m_length (msg s m) \<noteq> 0 then Some (s, XA_API_FATAL_INVALID_CMD_TYPE)
      else if \<not> i \<le> mi_num_in s + mi_num_out s then Some (s, XA_API_FATAL_INVALID_CMD_TYPE)
      else if has XA_BASE_FLAG_COMPLETED s then Some (respond_ok m s, 0)
      else if i < mi_num_in s
      then mi_port_change P XA_MIMO_PROC_CONFIG_PARAM_PORT_RESUME i m
             (xa_in_track_test_flags i XA_MIMO_IN_ACTIVE s \<and> xa_in_track_test_flags i XA_MIMO_IN_PAUSED s)
             (xa_in_track_clear_flags i XA_MIMO_IN_PAUSED) s
      else if i < mi_num_in s + mi_num_out s
      then mi_port_change P XA_MIMO_PROC_CONFIG_PARAM_PORT_RESUME i m
             (xa_out_track_test_flags j XA_MIMO_OUT_ACTIVE s \<and> xa_out_track_test_flags j XA_MIMO_OUT_PAUSED s)
             (xa_out_track_clear_flags j XA_MIMO_OUT_PAUSED) s
      else do {
        s \<leftarrow> (if mi_probe_enabled s \<noteq> 0 \<and> mi_probe_paused s then
                let s = mi_upd_probe_flags (\<lambda>f. xa_port_clear_flags f XA_MIMO_PROBE_PORT_PAUSED) s
                in schedule_if (mi_ports_ready s \<and> xf_output_port_ready (mi_probe s)) s
              else Some s);
        Some (respond_ok m s, 0) })"

section \<open>Memory tables\<close>

definition first_port :: "(u32 \<Rightarrow> bool) \<Rightarrow> u32 \<Rightarrow> u32" where
  "first_port Q n = (case filter Q (upto_port n) of [] \<Rightarrow> n | i # _ \<Rightarrow> i)"

text \<open>The size of the probe buffer, up to the first port that does not exist yet; \<open>Inl\<close> is an error.\<close>

fun mi_probe_outputs :: "mimo \<Rightarrow> u32 list \<Rightarrow> u32 \<Rightarrow> u32 option" where
  "mi_probe_outputs s [] n = Some n"
| "mi_probe_outputs s (i # js) n =
     (if \<not> xf_output_port_created (mi_output s i) then None
      else mi_probe_outputs s js
             (n + (if XF_CHK_PORT_MASK (mi_probe_enabled s) (unat (mi_num_in s + i))
                   then XF_ALIGNED_PROBE_SIZE (op_length (mi_output s i)) else 0)))"

fun mi_probe_inputs :: "mimo \<Rightarrow> u32 list \<Rightarrow> u32 \<Rightarrow> int + u32 option" where
  "mi_probe_inputs s [] n = Inr (mi_probe_outputs s (upto_port (mi_num_out s)) n)"
| "mi_probe_inputs s (i # js) n =
     (if \<not> xf_input_port_created (mi_input s i) then Inr None
      else if xf_input_port_bypass (mi_input s i) \<and> XF_CHK_PORT_MASK (mi_probe_enabled s) (unat i) then Inl XAF_INVALIDVAL_ERR
      else mi_probe_inputs s js
             (n + (if XF_CHK_PORT_MASK (mi_probe_enabled s) (unat i) then XF_ALIGNED_PROBE_SIZE (ip_length (mi_input s i)) else 0)))"

definition mi_memtab_probe :: "mimo \<Rightarrow> mimo result" where
  "mi_memtab_probe s =
     (if mi_probe_enabled s = 0 then Some (s, 0)
      else case mi_probe_inputs s (upto_port (mi_num_in s)) 0 of
             Inl e \<Rightarrow> Some (s, e)
           | Inr None \<Rightarrow> Some (s, 0)
           | Inr (Some n) \<Rightarrow>
               Some (mi_upd_probe_flags (\<lambda>f. xa_port_set_flags f XA_MIMO_PROBE_PORT_PAUSED)
                       (s\<lparr>mi_probe := xf_output_port_init (mi_probe s) n\<rparr>), 0))"

definition xa_mimo_proc_memtab :: "mimo plugin \<Rightarrow> u32 \<Rightarrow> u32 \<Rightarrow> u32 \<Rightarrow> u32 \<Rightarrow> mimo \<Rightarrow> mimo result" where
  "xa_mimo_proc_memtab P idx t sz align s =
     (if t = XA_MEMTYPE_INPUT then
        let i = first_port (\<lambda>i. \<not> xa_in_track_test_flags i XA_MIMO_IN_IDLE s) XA_MIMO_PROC_MAX_IN_PORTS in
        if \<not> i < mi_num_in s then Some (s, XA_API_FATAL_INVALID_CMD_TYPE)
        else do {
          (io, p, r) \<leftarrow> xf_input_port_init (io_of s) (mi_input s i) sz align (pool_type s XAF_MEM_POOL_TYPE_COMP_INPUT);
          let s = put_in i io p s;
          if r \<noteq> 0 then Some (s, XA_API_FATAL_MEM_ALLOC)
          else
            let idle = (\<lambda>s. port_param P XA_MIMO_PROC_CONFIG_PARAM_PORT_DISCONNECT i
                  (xa_in_track_set_flags i XA_MIMO_IN_IDLE (upd_in i (it_idx_update (\<lambda>_. idx)) s)) (\<lambda>s _. mi_memtab_probe s))
            in if sz \<noteq> 0
               then XA_API P XA_API_CMD_SET_MEM_PTR idx (Ptr (ip_buffer (mi_input s i))) s (\<lambda>s _ _. idle s)
               else idle s }
      else if t \<noteq> XA_MEMTYPE_OUTPUT then Some (s, XA_API_FATAL_INVALID_CMD_TYPE)
      else
        let i = first_port (\<lambda>i. \<not> xa_out_track_test_flags i XA_MIMO_OUT_IDLE s) XA_MIMO_PROC_MAX_OUT_PORTS in
        if \<not> i < mi_num_out s then Some (s, XA_API_FATAL_INVALID_CMD_TYPE)
        else
          mi_memtab_probe (xa_out_track_set_flags i XA_MIMO_OUT_ROUTED (xa_out_track_set_flags i XA_MIMO_OUT_IDLE
            (upd_out i (\<lambda>t. t\<lparr>ot_output := xf_output_port_init (ot_output t) sz, ot_idx := idx\<rparr>) s))))"

section \<open>Processing\<close>

definition mi_preprocess_probe :: "mimo \<Rightarrow> (mimo \<Rightarrow> mimo result) \<Rightarrow> mimo result" where
  "mi_preprocess_probe s k =
     (if mi_probe_enabled s \<noteq> 0 \<and> \<not> mi_probe_paused s \<and> op_flags (mi_probe s) AND XA_MIMO_FLAG_PROBE_SETUP = 0 \<and>
         \<not> has XA_BASE_FLAG_RUNTIME_INIT s
      then
        let output = xf_output_port_data (io_of s) (mi_probe s) in
        if output = NULL then Some (s, XA_MIMO_PROC_EXEC_NONFATAL_NO_DATA)
        else k (mi_upd_probe_flags (\<lambda>f. f XOR XA_MIMO_FLAG_PROBE_SETUP) (s\<lparr>mi_probe_output := output\<rparr>))
      else k s)"

fun mi_preprocess_outputs :: "mimo plugin \<Rightarrow> u32 list \<Rightarrow> mimo \<Rightarrow> (mimo \<Rightarrow> mimo result) \<Rightarrow> mimo result" where
  "mi_preprocess_outputs P [] s k = k s"
| "mi_preprocess_outputs P (i # js) s k =
     (if \<not> xa_out_track_test_flags i XA_MIMO_OUT_ACTIVE s then mi_preprocess_outputs P js s k
      else if has XA_BASE_FLAG_RUNTIME_INIT s then Some (s, 0)
      else if xa_out_track_test_flags i XA_MIMO_OUT_PAUSED s \<or> \<not> xa_out_track_test_flags i XA_MIMO_OUT_ROUTED s \<or>
              xa_out_track_test_flags i XA_MIMO_OUT_OUTPUT_SETUP s
      then mi_preprocess_outputs P js s k
      else
        let output = xf_output_port_data (io_of s) (mi_output s i) in
        if output = NULL \<and> \<not> XF_CHK_PORT_MASK (mi_relax_sched s) (unat (mi_num_in s + i))
        then Some (s, XA_MIMO_PROC_EXEC_NONFATAL_NO_DATA)
        else XA_API P XA_API_CMD_SET_MEM_PTR (ot_idx (mi_out s i)) (Ptr output) (s\<lparr>mi_out_ptr := (mi_out_ptr s)(i := output)\<rparr>)
               (\<lambda>s _ _. mi_preprocess_outputs P js (xa_out_track_set_flags i XA_MIMO_OUT_OUTPUT_SETUP s) k))"

definition mi_in_data :: "mimo plugin \<Rightarrow> u32 \<Rightarrow> mimo \<Rightarrow> (u32 \<Rightarrow> mimo \<Rightarrow> mimo result) \<Rightarrow> mimo result" where
  "mi_in_data P i s k =
     (if xf_input_port_bypass (mi_input s i) then
        let s = in_fill i s; input = xf_input_port_data (mi_input s i) in
        if input \<noteq> NULL
        then XA_API P XA_API_CMD_SET_MEM_PTR i (Ptr input) s (\<lambda>s _ _. k (xf_input_port_length (mi_input s i)) s)
        else k 0 s
      else
        let s = (if xf_input_port_done (mi_input s i) then s else in_fill i s) in k (xf_input_port_level (mi_input s i)) s)"

definition mi_in_set :: "mimo plugin \<Rightarrow> u32 \<Rightarrow> u32 \<Rightarrow> mimo \<Rightarrow> (mimo \<Rightarrow> mimo result) \<Rightarrow> mimo result" where
  "mi_in_set P i filled s k =
     (let set = (\<lambda>s. XA_API P XA_API_CMD_SET_INPUT_BYTES (it_idx (mi_in s i)) (Local filled) s
                   (\<lambda>s _ _. k (xa_in_track_set_flags i XA_MIMO_IN_INPUT_SETUP s)))
      in if xf_input_port_done (mi_input s i)
         then XA_API P XA_API_CMD_INPUT_OVER (it_idx (mi_in s i)) (Ptr NULL) s (\<lambda>s _ _. set s)
         else set s)"

text \<open>\<open>e\<close> becomes 0 at the first active track; \<open>n\<close> counts the tracks that have no data yet.\<close>

fun mi_preprocess_inputs :: "mimo plugin \<Rightarrow> u32 list \<Rightarrow> int \<Rightarrow> u32 \<Rightarrow> mimo \<Rightarrow> mimo result" where
  "mi_preprocess_inputs P [] e n s = Some (s, e)"
| "mi_preprocess_inputs P (i # js) e n s =
     (if \<not> xa_in_track_test_flags i XA_MIMO_IN_ACTIVE s then mi_preprocess_inputs P js e n s
      else if xa_in_track_test_flags i XA_MIMO_IN_INPUT_SETUP s then mi_preprocess_inputs P js 0 n s
      else mi_in_data P i s (\<lambda>filled s.
        if \<not> xf_input_port_done (mi_input s i) \<and> filled = 0 \<and> \<not> xa_in_track_test_flags i XA_MIMO_IN_PAUSED s \<and>
           \<not> XF_CHK_PORT_MASK (mi_relax_sched s) (unat i)
        then
          if n + 1 = xa_mimo_proc_check_active s then Some (s, XA_MIMO_PROC_EXEC_NONFATAL_NO_DATA)
          else mi_preprocess_inputs P js 0 (n + 1) s
        else mi_in_set P i filled s (\<lambda>s. mi_preprocess_inputs P js 0 n s)))"

definition xa_mimo_proc_preprocess :: "mimo plugin \<Rightarrow> mimo \<Rightarrow> mimo result" where
  "xa_mimo_proc_preprocess P s =
     mi_preprocess_probe s (\<lambda>s.
     mi_preprocess_outputs P (upto_port (mi_num_out s)) s (\<lambda>s.
     mi_preprocess_inputs P (upto_port (mi_num_in s)) XA_MIMO_PROC_EXEC_NONFATAL_NO_DATA 0 s))"

text \<open>
  The local variables of the postprocessing: bytes consumed and produced by the latest port, by any
  port, and the data of the probe. They keep their values from one port to the next.
\<close>

record mi_locals =
  lo_consumed :: u32
  lo_produced :: u32
  lo_input :: u32
  lo_output :: u32
  lo_probe :: u32
  lo_ptr :: addr

definition mi_probe_part :: "u32 \<Rightarrow> u32 \<Rightarrow> addr \<Rightarrow> mimo \<Rightarrow> mi_locals \<Rightarrow> mimo \<times> mi_locals" where
  "mi_probe_part port n data s l =
     (if mi_sample_size s \<noteq> 0 \<and> mi_probe_enabled s \<noteq> 0 \<and> \<not> mi_probe_paused s \<and>
         XF_CHK_PORT_MASK (mi_probe_enabled s) (unat port)
      then (case xf_copy_probe_data (lo_ptr l) port n data s of (s, p) \<Rightarrow> (s, l\<lparr>lo_probe := lo_probe l + n, lo_ptr := p\<rparr>))
      else (s, l))"

definition mi_in_finish :: "mimo plugin \<Rightarrow> u32 \<Rightarrow> u32 \<Rightarrow> mimo \<Rightarrow> (mimo \<Rightarrow> mimo result) \<Rightarrow> mimo result" where
  "mi_in_finish P done i s k =
     (if xf_input_port_done (mi_input s i) \<and> xf_input_port_level (mi_input s i) = 0
      then port_param P XA_MIMO_PROC_CONFIG_PARAM_PORT_DISCONNECT i
             (xa_in_track_toggle_flags i (XA_MIMO_IN_ACTIVE OR XA_MIMO_IN_IDLE) s) (\<lambda>s _.
               if xa_mimo_proc_check_active s \<noteq> 0 \<or> done = 0 then do { s \<leftarrow> in_purge i s; k s } else k s)
      else k s)"

definition mi_post_input :: "mimo plugin \<Rightarrow> u32 \<Rightarrow> u32 \<Rightarrow> mimo \<Rightarrow> mi_locals \<Rightarrow> (mimo \<Rightarrow> mi_locals \<Rightarrow> mimo result) \<Rightarrow> mimo result" where
  "mi_post_input P done i s l k =
     (let (s, l) = mi_probe_part i (lo_consumed l) (ip_buffer (mi_input s i)) s l;
          n = lo_consumed l;
          l = (if n \<noteq> 0 then l\<lparr>lo_input := n\<rparr> else l);
          s = (if n \<noteq> 0 then xa_in_track_clear_flags i XA_MIMO_IN_INPUT_SETUP (in_consume i n s)
               else if ip_length (mi_input s i) \<noteq> xf_input_port_level (mi_input s i)
               then xa_in_track_clear_flags i XA_MIMO_IN_INPUT_SETUP s else s)
      in mi_in_finish P done i s (\<lambda>s. k s l))"

fun mi_postprocess_inputs :: "mimo plugin \<Rightarrow> u32 \<Rightarrow> u32 list \<Rightarrow> mimo \<Rightarrow> mi_locals \<Rightarrow>
    (mimo \<Rightarrow> mi_locals \<Rightarrow> mimo result) \<Rightarrow> mimo result" where
  "mi_postprocess_inputs P done [] s l k = k s l"
| "mi_postprocess_inputs P done (i # js) s l k =
     (let go = (\<lambda>s l. mi_post_input P done i s l (\<lambda>s l. mi_postprocess_inputs P done js s l k)) in
      if \<not> xa_in_track_test_flags i XA_MIMO_IN_ACTIVE s then mi_postprocess_inputs P done js s l k
      else if done \<noteq> 0 \<and> has XA_BASE_FLAG_EXECUTION s then go s l
      else XA_API P XA_API_CMD_GET_CURIDX_INPUT_BUF (it_idx (mi_in s i)) (Local (lo_consumed l)) s
             (\<lambda>s _ n. go s (l\<lparr>lo_consumed := n\<rparr>)))"

definition mi_post_output :: "u32 \<Rightarrow> mimo \<Rightarrow> mi_locals \<Rightarrow> mimo \<times> mi_locals" where
  "mi_post_output i s l =
     (let (s, l) = mi_probe_part (mi_num_in s + i) (lo_produced l) (mi_out_ptr s i) s l; n = lo_produced l in
      if n \<noteq> 0 then
        (xa_out_track_clear_flags i (XA_MIMO_OUT_OUTPUT_SETUP OR XA_MIMO_OUT_FLUSHING_DONE) (out_produce i n s),
         if lo_output l \<noteq> 0 then l else l\<lparr>lo_output := n\<rparr>)
      else if mi_out_ptr s i = NULL then (xa_out_track_clear_flags i XA_MIMO_OUT_OUTPUT_SETUP s, l)
      else (s, l))"

fun mi_postprocess_outputs :: "mimo plugin \<Rightarrow> u32 list \<Rightarrow> mimo \<Rightarrow> mi_locals \<Rightarrow> (mimo \<Rightarrow> mi_locals \<Rightarrow> mimo result) \<Rightarrow> mimo result" where
  "mi_postprocess_outputs P [] s l k = k s l"
| "mi_postprocess_outputs P (i # js) s l k =
     (let go = (\<lambda>s l. case mi_post_output i s l of (s, l) \<Rightarrow> mi_postprocess_outputs P js s l k) in
      if \<not> xa_out_track_test_flags i XA_MIMO_OUT_ACTIVE s \<or> \<not> xa_out_track_test_flags i XA_MIMO_OUT_ROUTED s
      then mi_postprocess_outputs P js s l k
      else if mi_sample_size s \<noteq> 0
      then XA_API P XA_API_CMD_GET_OUTPUT_BYTES (ot_idx (mi_out s i)) (Local (lo_produced l)) s
             (\<lambda>s _ n. go s (l\<lparr>lo_produced := n\<rparr>))
      else go s l)"

definition mi_post_probe :: "mimo \<Rightarrow> mi_locals \<Rightarrow> mimo" where
  "mi_post_probe s l =
     (if lo_probe l \<noteq> 0
      then mi_upd_probe_flags (\<lambda>f. f XOR XA_MIMO_FLAG_PROBE_SETUP) (mi_probe_produce (lo_ptr l - mi_probe_output s) s)
      else s)"

text \<open>The end of the stream goes to all output ports.\<close>

fun outs_flush :: "u32 \<Rightarrow> u32 list \<Rightarrow> mimo \<Rightarrow> mimo option" where
  "outs_flush opcode [] s = Some s"
| "outs_flush opcode (i # js) s = do {
     (s, idle) \<leftarrow> out_flush i opcode s;
     outs_flush opcode js (xa_out_track_set_flags i (if idle then XA_MIMO_OUT_FLUSHING_DONE else XA_MIMO_OUT_FLUSHING) s) }"

definition mi_post_done :: "mimo plugin \<Rightarrow> addr \<Rightarrow> mimo \<Rightarrow> mimo result" where
  "mi_post_done P sp s =
     (if has XA_BASE_FLAG_RUNTIME_INIT s then Some (s, 0)
      else if has XA_BASE_FLAG_EXECUTION s then
        CODEC_API (xa_mimo_proc_prepare_runtime P sp) s (\<lambda>s e. do { s \<leftarrow> schedule_if (mi_num_out s = 0) s; Some (s, e) })
      else do {
        s \<leftarrow> outs_flush XF_FILL_THIS_BUFFER (upto_port (mi_num_out s)) s;
        s \<leftarrow> mi_streams_over s;
        Some (s, 0) })"

definition mi_reschedule :: "mimo \<Rightarrow> mi_locals \<Rightarrow> mimo result" where
  "mi_reschedule s l =
     (let go = (\<lambda>c n. if c then do { s \<leftarrow> xa_base_schedule (ucast n * mi_factor s) s; Some (s, 0) } else Some (s, 0)) in
      if \<not> mi_ports_ready s then Some (s, 0)
      else if mi_num_out s = 0 then go (lo_input l \<noteq> 0) (lo_input l)
      else go (lo_input l \<noteq> 0 \<or> lo_output l \<noteq> 0) (lo_output l))"

definition xa_mimo_proc_postprocess :: "mimo plugin \<Rightarrow> addr \<Rightarrow> u32 \<Rightarrow> mimo \<Rightarrow> mimo result" where
  "xa_mimo_proc_postprocess P sp done s =
     mi_postprocess_inputs P done (upto_port (mi_num_in s)) s
       \<lparr>lo_consumed = 0, lo_produced = 0, lo_input = 0, lo_output = 0, lo_probe = 0, lo_ptr = mi_probe_output s\<rparr> (\<lambda>s l.
     mi_postprocess_outputs P (upto_port (mi_num_out s)) s l (\<lambda>s l.
       let s = mi_post_probe s l in if done \<noteq> 0 then mi_post_done P sp s else mi_reschedule s l))"

section \<open>The class and its entry points\<close>

definition xa_mimo_proc_setparam :: "mimo plugin \<Rightarrow> u32 \<Rightarrow> addr \<Rightarrow> mimo \<Rightarrow> mimo result" where
  "xa_mimo_proc_setparam P i pv s =
     (if i = XAF_COMP_CONFIG_PARAM_PROBE_ENABLE then
        if has XA_BASE_FLAG_POSTINIT s then Some (s, XA_API_FATAL_INVALID_CMD_TYPE)
        else Some (s\<lparr>mi_probe_enabled := get32 s pv\<rparr>, 0)
      else if i = XAF_COMP_CONFIG_PARAM_RELAX_SCHED then Some (s\<lparr>mi_relax_sched := get32 s pv\<rparr>, 0)
      else XA_API P XA_API_CMD_SET_CONFIG_PARAM i (Ptr pv) s (\<lambda>s e _. Some (s, e)))"

definition mimo_clear :: "addr \<Rightarrow> mimo \<Rightarrow> mimo" where
  "mimo_clear a s = (base_clear a s)\<lparr>mi_in := (\<lambda>_. \<lparr>it_input = no_in_port, it_idx = 0, it_consumed = 0\<rparr>),
     mi_out := (\<lambda>_. \<lparr>ot_output = no_out_port, ot_idx = 0, ot_produced = 0\<rparr>), mi_sample_size := 0, mi_factor := 0,
     mi_num_in := 0, mi_num_out := 0, mi_relax_sched := 0, mi_probe_enabled := 0, mi_probe := no_out_port,
     mi_probe_output := NULL, mi_out_ptr := (\<lambda>_. NULL), mi_response := NULL, mi_terminating := False\<rparr>"

definition mimo_methods :: "mimo plugin \<Rightarrow> addr \<Rightarrow> u32 \<Rightarrow> mimo klass" where
  "mimo_methods P sp sizeof_base =
     \<lparr>k_process = P, k_memtab = xa_mimo_proc_memtab P, k_preprocess = xa_mimo_proc_preprocess P,
      k_postprocess = xa_mimo_proc_postprocess P sp, k_setparam = Some (xa_mimo_proc_setparam P), k_getparam = None,
      k_command = (\<lambda>_. None), k_command_num = 0, k_clear = mimo_clear, k_sizeof_base = sizeof_base\<rparr>"

definition xa_mimo_proc_cmd :: "mimo klass \<Rightarrow> u32 \<Rightarrow> (addr \<Rightarrow> mimo \<Rightarrow> mimo result) option" where
  "xa_mimo_proc_cmd K t =
     (let P = k_process K in
      if t = XF_OPCODE_TYPE XF_SET_PARAM then Some (xa_base_set_param K)
      else if t = XF_OPCODE_TYPE XF_GET_PARAM then Some (xa_base_get_param K)
      else if t = XF_OPCODE_TYPE XF_SET_PARAM_EXT then Some (xa_base_set_param_ext K)
      else if t = XF_OPCODE_TYPE XF_GET_PARAM_EXT then Some (xa_base_get_param_ext K)
      else if t = XF_OPCODE_TYPE XF_ROUTE then Some (xa_mimo_proc_port_route P)
      else if t = XF_OPCODE_TYPE XF_UNROUTE then Some (xa_mimo_proc_port_unroute P)
      else if t = XF_OPCODE_TYPE XF_EMPTY_THIS_BUFFER then Some (xa_mimo_proc_empty_this_buffer P)
      else if t = XF_OPCODE_TYPE XF_FILL_THIS_BUFFER then Some (xa_mimo_proc_fill_this_buffer P)
      else if t = XF_OPCODE_TYPE XF_FLUSH then Some (xa_mimo_proc_flush P)
      else if t = XF_OPCODE_TYPE XF_PAUSE then Some (xa_mimo_proc_port_pause P)
      else if t = XF_OPCODE_TYPE XF_RESUME then Some (xa_mimo_proc_port_resume P)
      else None)"

definition XA_MIMO_PROC_CMD_NUM :: u32 where
  "XA_MIMO_PROC_CMD_NUM = 17"

definition mimo_class :: "mimo plugin \<Rightarrow> addr \<Rightarrow> u32 \<Rightarrow> mimo klass" where
  "mimo_class P sp sizeof_base =
     (mimo_methods P sp sizeof_base)\<lparr>k_command := xa_mimo_proc_cmd (mimo_methods P sp sizeof_base),
        k_command_num := XA_MIMO_PROC_CMD_NUM\<rparr>"

text \<open>The number of the output port is not checked while the component terminates.\<close>

definition xa_mimo_proc_terminate :: "addr \<Rightarrow> mimo \<Rightarrow> mimo result" where
  "xa_mimo_proc_terminate m s =
     (let port = XF_MSG_DST_PORT (m_id (msg s m)); i = port - mi_num_in s;
          refuse = Some (on_io (if XF_MSG_SRC_PROXY (m_id (msg s m)) then xf_response_err m else xf_response_failure m) s, 0) in
      if m = NULL then Some (s, 0)
      else if port < mi_num_in s then refuse
      else if m = xf_output_port_control_msg (mi_output s i) then
        let s = xa_out_track_set_flags i XA_MIMO_OUT_FLUSHING_DONE (out_flush_done i s)
        in Some (s, if xa_mimo_proc_output_port_flush_done s then XAF_UNREGISTER else 0)
      else if m_opcode (msg s m) = XF_FILL_THIS_BUFFER \<and> xf_output_port_routed (mi_output s i) then Some (s, 0)
      else refuse)"

fun ins_destroy :: "u32 list \<Rightarrow> mimo \<Rightarrow> mimo option" where
  "ins_destroy [] s = Some s"
| "ins_destroy (i # js) s = do {
     (io, p) \<leftarrow> xf_input_port_destroy (io_of s) (mi_input s i) (pool_type s XAF_MEM_POOL_TYPE_COMP_INPUT);
     ins_destroy js (put_in i io p s) }"

fun outs_destroy :: "u32 list \<Rightarrow> mimo \<Rightarrow> mimo option" where
  "outs_destroy [] s = Some s"
| "outs_destroy (i # js) s = do {
     (io, p) \<leftarrow> xf_output_port_destroy (io_of s) (mi_output s i) (mi_output_type s);
     outs_destroy js (put_out i io p s) }"

definition xa_mimo_proc_destroy :: "u32 \<Rightarrow> mimo \<Rightarrow> mimo result" where
  "xa_mimo_proc_destroy sz s =
     (let m = mi_response s in do {
        s \<leftarrow> ins_destroy (upto_port XA_MIMO_PROC_MAX_IN_PORTS) s;
        s \<leftarrow> outs_destroy (upto_port XA_MIMO_PROC_MAX_OUT_PORTS) s;
        s \<leftarrow> (if mi_probe_enabled s \<noteq> 0 then do {
                (io, p) \<leftarrow> xf_output_port_destroy (io_of s) (mi_probe s) (mi_output_type s);
                Some (mi_put_probe io p s) }
              else Some s);
        s \<leftarrow> xa_base_destroy sz s;
        Some (if m \<noteq> NULL then on_io (xf_response_err m) s else s, 0) })"

definition xa_mimo_proc_cleanup :: "u32 \<Rightarrow> addr \<Rightarrow> mimo \<Rightarrow> mimo result" where
  "xa_mimo_proc_cleanup sz m s = do {
     s \<leftarrow> xa_base_cancel s;
     s \<leftarrow> ins_purge (upto_port (mi_num_in s)) s;
     s \<leftarrow> outs_flush XF_FLUSH (upto_port (mi_num_out s)) s;
     let s = s\<lparr>mi_response := m\<rparr>;
     if xa_mimo_proc_output_port_flush_done s then do {
       s \<leftarrow> (if mi_probe_enabled s \<noteq> 0 then do { (s, _) \<leftarrow> mi_probe_flush XF_FLUSH s; Some s } else Some s);
       xa_mimo_proc_destroy sz s }
     else Some (s\<lparr>mi_terminating := True\<rparr>, 1) }"

definition mimo_entry :: "mimo klass \<Rightarrow> addr \<Rightarrow> mimo \<Rightarrow> mimo result" where
  "mimo_entry K m s = (if mi_terminating s then xa_mimo_proc_terminate m s else xa_base_command K m s)"

definition mimo_exit :: "u32 \<Rightarrow> addr \<Rightarrow> mimo \<Rightarrow> mimo result" where
  "mimo_exit sz m s = (if mi_terminating s then xa_mimo_proc_destroy sz s else xa_mimo_proc_cleanup sz m s)"

definition xa_mimo_proc_factory :: "mimo plugin \<Rightarrow> addr \<Rightarrow> u32 \<Rightarrow> u32 \<Rightarrow> u32 \<Rightarrow> mimo \<Rightarrow> (mimo \<times> addr) option" where
  "xa_mimo_proc_factory P sp sizeof_base sz comp_type s = do {
     (s, a) \<leftarrow> xa_base_factory (mimo_class P sp sizeof_base) sz s;
     if a = NULL then Some (s, NULL)
     else
       let (n, k) = xf_io_ports ! unat comp_type
       in Some (s\<lparr>b_type := comp_type, mi_relax_sched := 0, mi_num_in := n, mi_num_out := k\<rparr>, a) }"

end
