(* ===== verification/Mimo_Thms.thy ===== *)
theory Mimo_Thms
  imports Codec_Thms Mimo Class_Results
begin

text \<open>
  The class of multi-port processing: when the output ports count as flushed, and what the cleanup does
  after an end of stream that reached an idle port.
\<close>

section \<open>Flushed output ports\<close>

lemma length_filter_all: "length (filter P xs) = length xs \<longleftrightarrow> list_all P xs"
  by (metis filter_True length_filter_less less_irrefl list_all_iff)

lemma unat_port:
  fixes n :: u32
  assumes "k \<le> unat n"
  shows "unat (word_of_nat k :: u32) = k"
proof -
  have "k < 2 ^ 32" using assms unsigned_less [of n, where 'a = nat] by simp
  then show ?thesis by (simp add: unat_of_nat)
qed

lemma port_count: "k \<le> unat n \<Longrightarrow> word_of_nat k = n \<longleftrightarrow> k = unat (n :: u32)"
  using unat_port [of k n] by auto

lemma upto_port_length: "length (upto_port n) = unat n"
  by (simp add: upto_port_def)

lemma upto_port_set: "i \<in> set (upto_port n) \<longleftrightarrow> i < n"
proof
  assume "i < n"
  then have "unat i < unat n" by (simp add: word_less_nat_alt)
  then show "i \<in> set (upto_port n)" unfolding upto_port_def by (auto intro!: image_eqI [of _ _ "unat i"])
next
  assume "i \<in> set (upto_port n)"
  then show "i < n" by (auto simp: upto_port_def word_less_nat_alt unat_port [of _ n])
qed

lemma upto_port_distinct: "distinct (upto_port n)"
  unfolding upto_port_def distinct_map using unat_port [of _ n]
  by (simp, intro inj_on_inverseI [where g = unat]) simp

text \<open>The counter of the code: all output ports are marked.\<close>

lemma flush_done_all:
  "xa_mimo_proc_output_port_flush_done s \<longleftrightarrow> (\<forall>i < mi_num_out s. xa_out_track_test_flags i XA_MIMO_OUT_FLUSHING_DONE s)"
proof -
  let ?f = "\<lambda>i. xa_out_track_test_flags i XA_MIMO_OUT_FLUSHING_DONE s"
  let ?n = "length (filter ?f (upto_port (mi_num_out s)))"
  have "?n \<le> unat (mi_num_out s)" using length_filter_le [of ?f "upto_port (mi_num_out s)"] by (simp add: upto_port_length)
  then have "of_nat ?n = mi_num_out s \<longleftrightarrow> ?n = unat (mi_num_out s)"
    using port_count by blast
  also have "\<dots> \<longleftrightarrow> list_all ?f (upto_port (mi_num_out s))"
    using length_filter_all [of ?f "upto_port (mi_num_out s)"] by (simp add: upto_port_length)
  finally show ?thesis by (simp add: xa_mimo_proc_output_port_flush_done_def list_all_iff upto_port_set Ball_def)
qed

section \<open>Cleanup after the end of the stream\<close>

lemma out_fields [simp]:
  "mi_num_out (put_out i io p s) = mi_num_out s" "mi_num_out (xa_out_track_set_flags i f s) = mi_num_out s"
  "mi_num_out (out_flush_done i s) = mi_num_out s" "mi_num_out (put_in i io q s) = mi_num_out s"
  "mi_num_in (put_out i io p s) = mi_num_in s" "mi_num_in (xa_out_track_set_flags i f s) = mi_num_in s"
  "mi_num_in (out_flush_done i s) = mi_num_in s" "b_state (put_out i io p s) = b_state s"
  "mi_out (put_in i io q s) = mi_out s" "b_state (xa_out_track_set_flags i f s) = b_state s"
  "b_state (out_flush_done i s) = b_state s" "mi_probe_enabled (put_out i io p s) = mi_probe_enabled s"
  "mi_probe_enabled (xa_out_track_set_flags i f s) = mi_probe_enabled s" "mi_probe_enabled (out_flush_done i s) = mi_probe_enabled s"
  "mi_output (put_out i io p s) j = (if j = i then p else mi_output s j)"
  "op_flags (mi_output (xa_out_track_set_flags i f s) j) = (if j = i then op_flags (mi_output s i) OR f else op_flags (mi_output s j))"
  "mi_output (out_flush_done i s) j = (if j = i then xf_output_port_flush_done (mi_output s i) else mi_output s j)"
  by (simp_all add: put_out_def put_in_def with_io_def upd_out_def upd_in_def xa_out_track_set_flags_def upd_out_flags_def
      out_flush_done_def mi_output_def)

text \<open>What a flush of a port keeps.\<close>

definition marked :: "mimo \<Rightarrow> bool" where
  "marked s \<longleftrightarrow> (\<forall>i < mi_num_out s. op_flags (mi_output s i) AND XA_MIMO_OUT_FLUSHING_DONE \<noteq> 0)"

lemma flush_toggles_flag:
  assumes "xf_output_port_flush io p opc = Some (io', p', r)"
  shows "op_flags p' = op_flags p \<or> op_flags p' = op_flags p XOR XF_OUTPUT_FLAG_FLUSHING"
  using assms by (auto simp: xf_output_port_flush_def Let_def split: if_splits option.splits)

lemma routed_flush: "xf_output_port_routed (mi_output s i) \<Longrightarrow> \<exists>t r. out_flush i opc s = Some (t, r)"
  by (cases "xf_output_port_flush (io_of s) (mi_output s i) opc") (auto simp: out_flush_def xf_output_port_flush_def Let_def split: if_splits)

lemma out_flush_keeps:
  assumes "out_flush i opc s = Some (s', r)"
  shows "mi_num_out s' = mi_num_out s" "mi_probe_enabled s' = mi_probe_enabled s"
    "op_flags (mi_output s' j) AND XA_MIMO_OUT_FLUSHING_DONE = op_flags (mi_output s j) AND XA_MIMO_OUT_FLUSHING_DONE"
    "j \<noteq> i \<Longrightarrow> mi_output s' j = mi_output s j"
proof -
  obtain io p where f: "xf_output_port_flush (io_of s) (mi_output s i) opc = Some (io, p, r)" "s' = put_out i io p s"
    using assms by (auto simp: out_flush_def bind_eq_Some_conv)
  show "mi_num_out s' = mi_num_out s" "mi_probe_enabled s' = mi_probe_enabled s"
    "j \<noteq> i \<Longrightarrow> mi_output s' j = mi_output s j" using f(2) by simp_all
  have "(x XOR XF_OUTPUT_FLAG_FLUSHING) AND XA_MIMO_OUT_FLUSHING_DONE = x AND XA_MIMO_OUT_FLUSHING_DONE" for x
    by (simp add: bit.conj_xor_distrib2 out_flags XA_MIMO_OUT_FLUSHING_DONE_def)
  then show "op_flags (mi_output s' j) AND XA_MIMO_OUT_FLUSHING_DONE = op_flags (mi_output s j) AND XA_MIMO_OUT_FLUSHING_DONE"
    using flush_toggles_flag [OF f(1)] f(2) by auto
qed

lemma outs_flush_keeps:
  assumes "outs_flush opc js s = Some s'"
  shows "mi_num_out s' = mi_num_out s \<and> mi_probe_enabled s' = mi_probe_enabled s \<and> (marked s \<longrightarrow> marked s') \<and>
    (\<forall>i. i \<notin> set js \<longrightarrow> mi_output s' i = mi_output s i)"
  using assms
proof (induction js arbitrary: s)
  case (Cons j js)
  obtain t r where t: "out_flush j opc s = Some (t, r)"
    "outs_flush opc js (xa_out_track_set_flags j (if r then XA_MIMO_OUT_FLUSHING_DONE else XA_MIMO_OUT_FLUSHING) t) = Some s'"
    using Cons.prems by (auto simp: bind_eq_Some_conv)
  let ?u = "xa_out_track_set_flags j (if r then XA_MIMO_OUT_FLUSHING_DONE else XA_MIMO_OUT_FLUSHING) t"
  have "marked s \<longrightarrow> marked ?u" using out_flush_keeps(1,3) [OF t(1)]
    by (auto simp: marked_def bit.conj_disj_distrib2 XA_MIMO_OUT_FLUSHING_DONE_def XA_MIMO_OUT_FLUSHING_def)
  moreover have "i \<noteq> j \<Longrightarrow> mi_output ?u i = mi_output s i" for i
    using out_flush_keeps(4) [OF t(1)] by (simp add: xa_out_track_set_flags_def upd_out_flags_def upd_out_def mi_output_def)
  ultimately show ?case using Cons.IH [OF t(2)] out_flush_keeps(1,2) [OF t(1)] by auto
qed simp

lemma outs_flush_starts:
  assumes "outs_flush XF_FLUSH js s = Some s'" and "distinct js" and "i \<in> set js"
    and "xf_output_port_routed (mi_output s i)" "op_flags (mi_output s i) AND XF_OUTPUT_FLAG_IDLE = 0"
    and "op_flags (mi_output s i) AND XF_OUTPUT_FLAG_FLUSHING = 0"
  shows "xf_output_port_flushing (mi_output s' i)"
  using assms
proof (induction js arbitrary: s)
  case (Cons j js)
  obtain t r where t: "out_flush j XF_FLUSH s = Some (t, r)"
    "outs_flush XF_FLUSH js (xa_out_track_set_flags j (if r then XA_MIMO_OUT_FLUSHING_DONE else XA_MIMO_OUT_FLUSHING) t) = Some s'"
    using Cons.prems(1) by (auto simp: bind_eq_Some_conv)
  let ?u = "xa_out_track_set_flags j (if r then XA_MIMO_OUT_FLUSHING_DONE else XA_MIMO_OUT_FLUSHING) t"
  show ?case
  proof (cases "i = j")
    case True
    have "op_flags (mi_output t j) AND XF_OUTPUT_FLAG_FLUSHING \<noteq> 0"
      using t(1) Cons.prems(4-6) True by (auto simp: out_flush_def xf_output_port_flush_def bit.conj_xor_distrib2 out_flags Let_def)
    then have "op_flags (mi_output ?u i) AND XF_OUTPUT_FLAG_FLUSHING \<noteq> 0"
      using True by (simp add: bit.conj_disj_distrib2 out_flags XA_MIMO_OUT_FLUSHING_DONE_def XA_MIMO_OUT_FLUSHING_def)
    moreover have "mi_output s' i = mi_output ?u i" using outs_flush_keeps [OF t(2)] Cons.prems(2) True by simp
    ultimately show ?thesis by (simp add: xf_output_port_flushing_def)
  next
    case False
    have "mi_output ?u i = mi_output s i" using out_flush_keeps(4) [OF t(1) False] False
      by (simp add: xa_out_track_set_flags_def upd_out_flags_def upd_out_def mi_output_def)
    then show ?thesis using Cons.prems False by (intro Cons.IH [OF t(2)]) simp_all
  qed
qed simp

lemma ins_purge_keeps:
  "ins_purge js s = Some s' \<Longrightarrow> mi_num_out s' = mi_num_out s \<and> mi_out s' = mi_out s \<and> mi_probe_enabled s' = mi_probe_enabled s"
proof (induction js arbitrary: s)
  case (Cons j js)
  then obtain io p where "ins_purge js (put_in j io p s) = Some s'" by (auto simp: in_purge_def bind_eq_Some_conv)
  from Cons.IH [OF this] show ?case by (simp add: put_in_def with_io_def upd_in_def)
qed simp

lemma eos_flags:
  assumes "xf_output_port_routed p" and "op_flags p AND XF_OUTPUT_FLAG_IDLE \<noteq> 0" and "op_flags p AND XF_OUTPUT_FLAG_FLUSHING = 0"
    and "xf_output_port_flush io p XF_FILL_THIS_BUFFER = Some (io', p', r)"
  shows "\<not> r" "op_flags (xf_output_port_flush_done p') = op_flags p XOR XF_OUTPUT_FLAG_IDLE"
  using assms by (auto simp: xf_output_port_flush_def xf_output_port_flush_done_def Let_def xor.assoc)
    (simp_all add: out_flags)

lemma and_bits:
  "x AND 2 = 0 \<longleftrightarrow> \<not> bit (x :: u32) 1" "x AND 16 = 0 \<longleftrightarrow> \<not> bit x 4" "x AND 32 = 0 \<longleftrightarrow> \<not> bit x 5" "x AND 16384 = 0 \<longleftrightarrow> \<not> bit x 14"
  using and_exp_eq_0_iff_not_bit [of x 1] and_exp_eq_0_iff_not_bit [of x 4] and_exp_eq_0_iff_not_bit [of x 5]
    and_exp_eq_0_iff_not_bit [of x 14] by simp_all

lemma no_longer_idle:
  fixes f :: u32
  assumes "f AND XF_OUTPUT_FLAG_ROUTED \<noteq> 0" and "f AND XF_OUTPUT_FLAG_IDLE \<noteq> 0" and "f AND XF_OUTPUT_FLAG_FLUSHING = 0"
  defines "g \<equiv> (f XOR XF_OUTPUT_FLAG_IDLE) OR XA_MIMO_OUT_FLUSHING_DONE"
  shows "g AND XF_OUTPUT_FLAG_IDLE = 0" "g AND XF_OUTPUT_FLAG_FLUSHING = 0" "g AND XF_OUTPUT_FLAG_ROUTED \<noteq> 0"
    "g AND XA_MIMO_OUT_FLUSHING_DONE \<noteq> 0"
proof -
  have v: "XF_OUTPUT_FLAG_IDLE = 32" "XF_OUTPUT_FLAG_FLUSHING = 16" "XF_OUTPUT_FLAG_ROUTED = 2" "XA_MIMO_OUT_FLUSHING_DONE = 16384"
    by (simp_all add: out_flags XA_MIMO_OUT_FLUSHING_DONE_def)
  show "g AND XF_OUTPUT_FLAG_IDLE = 0" "g AND XF_OUTPUT_FLAG_FLUSHING = 0" "g AND XF_OUTPUT_FLAG_ROUTED \<noteq> 0"
    "g AND XA_MIMO_OUT_FLUSHING_DONE \<noteq> 0"
    using assms(1-3) unfolding g_def v and_bits by (simp_all add: bit_or_iff bit_xor_iff)
qed

lemma cleanup_destroys:
  assumes "\<not> has XA_BASE_FLAG_SCHEDULE s" and "marked s" and "mi_probe_enabled s = 0" and "i < mi_num_out s"
    and "xf_output_port_routed (mi_output s i)" "op_flags (mi_output s i) AND XF_OUTPUT_FLAG_IDLE = 0"
    and "op_flags (mi_output s i) AND XF_OUTPUT_FLAG_FLUSHING = 0"
    and "ins_purge (upto_port (mi_num_in s)) s = Some a" and "outs_flush XF_FLUSH (upto_port (mi_num_out a)) a = Some b"
  shows "xa_mimo_proc_cleanup sz m s = xa_mimo_proc_destroy sz (b\<lparr>mi_response := m\<rparr>)" "xf_output_port_flushing (mi_output b i)"
proof -
  have a: "mi_num_out a = mi_num_out s" "mi_output a j = mi_output s j" "mi_probe_enabled a = 0" for j
    using ins_purge_keeps [OF assms(8)] assms(3) by (simp_all add: mi_output_def)
  show "xf_output_port_flushing (mi_output b i)"
    using outs_flush_starts [OF assms(9) upto_port_distinct] assms(4-7) by (simp add: a upto_port_set)
  have "marked a" using assms(2) by (simp add: marked_def a)
  then have "marked b" "mi_probe_enabled b = 0" using outs_flush_keeps [OF assms(9)] a(3) by auto
  then have "xa_mimo_proc_output_port_flush_done (b\<lparr>mi_response := m\<rparr>)"
    by (simp add: flush_done_all marked_def xa_out_track_test_flags_def mi_output_def)
  then show "xa_mimo_proc_cleanup sz m s = xa_mimo_proc_destroy sz (b\<lparr>mi_response := m\<rparr>)"
    using assms(1,8,9) \<open>mi_probe_enabled b = 0\<close> by (simp add: xa_mimo_proc_cleanup_def xa_base_cancel_def Let_def)
qed

section \<open>Properties\<close>

text \<open>
  C16. The end of a stream that reaches an idle output port: the flush that the end of the stream starts
  comes back, and the port is marked as flushed but no longer idle. A cleanup that follows starts
  another flush of this port, and destroys the component without waiting for it: the mark is the old
  one.
\<close>

theorem cleanup_destroys_waiting_port:
  assumes "xf_output_port_routed (mi_output s i)" and "op_flags (mi_output s i) AND XF_OUTPUT_FLAG_IDLE \<noteq> 0"
    and "op_flags (mi_output s i) AND XF_OUTPUT_FLAG_FLUSHING = 0" and "i < mi_num_out s" and "mi_probe_enabled s = 0"
    and "\<And>j. j < mi_num_out s \<Longrightarrow> j \<noteq> i \<Longrightarrow> xa_out_track_test_flags j XA_MIMO_OUT_FLUSHING_DONE s"
    and "out_flush i XF_FILL_THIS_BUFFER s = Some (s1, r)"
    and "s2 = xa_out_track_set_flags i XA_MIMO_OUT_FLUSHING_DONE (out_flush_done i s1)" and "\<not> has XA_BASE_FLAG_SCHEDULE s2"
    and "ins_purge (upto_port (mi_num_in s2)) s2 = Some a" and "outs_flush XF_FLUSH (upto_port (mi_num_out a)) a = Some b"
  shows "xa_mimo_proc_cleanup sz m s2 = xa_mimo_proc_destroy sz (b\<lparr>mi_response := m\<rparr>) \<and> xf_output_port_flushing (mi_output b i)"
proof -
  obtain io p where f: "xf_output_port_flush (io_of s) (mi_output s i) XF_FILL_THIS_BUFFER = Some (io, p, r)" "s1 = put_out i io p s"
    using assms(7) by (auto simp: out_flush_def bind_eq_Some_conv)
  have "op_flags (mi_output s2 i) = (op_flags (mi_output s i) XOR XF_OUTPUT_FLAG_IDLE) OR XA_MIMO_OUT_FLUSHING_DONE"
    using eos_flags(2) [OF assms(1-3) f(1)] f(2) assms(8) by simp
  note i = no_longer_idle [OF assms(1) [unfolded xf_output_port_routed_def] assms(2,3), folded this]
  have "op_flags (mi_output s2 i) AND XF_OUTPUT_FLAG_IDLE = 0" "op_flags (mi_output s2 i) AND XF_OUTPUT_FLAG_FLUSHING = 0"
    "xf_output_port_routed (mi_output s2 i)" "op_flags (mi_output s2 i) AND XA_MIMO_OUT_FLUSHING_DONE \<noteq> 0"
    using i by (simp_all add: xf_output_port_routed_def)
  moreover have n: "mi_num_out s2 = mi_num_out s" "mi_probe_enabled s2 = 0" using assms(5,8) f(2) by simp_all
  moreover have "marked s2" unfolding marked_def
  proof (intro allI impI)
    fix j assume j: "j < mi_num_out s2"
    show "op_flags (mi_output s2 j) AND XA_MIMO_OUT_FLUSHING_DONE \<noteq> 0"
    proof (cases "j = i")
      case False
      then have "op_flags (mi_output s2 j) = op_flags (mi_output s j)" using assms(8) f(2) by simp
      then show ?thesis using assms(6) [of j] j n(1) False by (simp add: xa_out_track_test_flags_def)
    qed (use i(4) in simp)
  qed
  ultimately show ?thesis using cleanup_destroys(1) [where s = s2 and i = i and a = a and b = b and sz = sz and m = m]
      cleanup_destroys(2) [where s = s2 and i = i and a = a and b = b] assms(4,9-11) by simp
qed

text \<open>One output port, connected and idle, and no input.\<close>

definition demo_mimo :: mimo where
  "demo_mimo = base.extend demo_base
     (mimo.fields (\<lambda>_. \<lparr>it_input = demo_in, it_idx = 0, it_consumed = 0\<rparr>)
       (\<lambda>_. \<lparr>ot_output = demo_out\<lparr>op_pool := \<lparr>pl_p = 320, pl_head = 0, pl_n = 1\<rparr>, op_flags := 35\<rparr>, ot_idx = 0, ot_produced = 0\<rparr>)
       0 0 0 1 0 0 no_out_port NULL (\<lambda>_. NULL) NULL False)"

theorem cleanup_destroys_waiting_port_witness:
  "\<exists>s1 r b. out_flush 0 XF_FILL_THIS_BUFFER demo_mimo = Some (s1, r) \<and>
    xa_mimo_proc_cleanup 64 192 (xa_out_track_set_flags 0 XA_MIMO_OUT_FLUSHING_DONE (out_flush_done 0 s1)) = xa_mimo_proc_destroy 64 b \<and>
    xf_output_port_flushing (mi_output b 0)"
proof -
  have d: "mi_output demo_mimo i = demo_out\<lparr>op_pool := \<lparr>pl_p = 320, pl_head = 0, pl_n = 1\<rparr>, op_flags := 35\<rparr>"
    "mi_num_out demo_mimo = 1" "mi_num_in demo_mimo = 0" "mi_probe_enabled demo_mimo = 0" "b_state demo_mimo = 0" for i
    by (simp_all add: demo_mimo_def mimo.defs base.defs demo_base_def mi_output_def)
  have "\<exists>io p. xf_output_port_flush (io_of demo_mimo) (mi_output demo_mimo 0) XF_FILL_THIS_BUFFER = Some (io, p, False)"
    by (simp add: d xf_output_port_flush_def xf_output_port_routed_def out_flags Let_def)
  then obtain io p r where f: "xf_output_port_flush (io_of demo_mimo) (mi_output demo_mimo 0) XF_FILL_THIS_BUFFER = Some (io, p, r)"
    by blast
  let ?s1 = "put_out 0 io p demo_mimo"
  let ?s2 = "xa_out_track_set_flags 0 XA_MIMO_OUT_FLUSHING_DONE (out_flush_done 0 ?s1)"
  have f': "out_flush 0 XF_FILL_THIS_BUFFER demo_mimo = Some (?s1, r)" using f by (simp add: out_flush_def)
  have "op_flags (xf_output_port_flush_done p) = 3"
    using eos_flags(2) [OF _ _ _ f] by (simp add: d xf_output_port_routed_def out_flags)
  then have "xf_output_port_routed (mi_output ?s2 0)" by (simp add: xf_output_port_routed_def out_flags XA_MIMO_OUT_FLUSHING_DONE_def)
  from routed_flush [OF this] obtain t q where "out_flush 0 XF_FLUSH ?s2 = Some (t, q)" by blast
  then obtain b where b: "outs_flush XF_FLUSH (upto_port (mi_num_out ?s2)) ?s2 = Some b" by (auto simp: d upto_port_def)
  have "ins_purge (upto_port (mi_num_in ?s2)) ?s2 = Some ?s2" by (simp add: d upto_port_def)
  from cleanup_destroys_waiting_port [OF _ _ _ _ _ _ f' refl _ this b, of 64 192]
  have "xa_mimo_proc_cleanup 64 192 ?s2 = xa_mimo_proc_destroy 64 (b\<lparr>mi_response := 192\<rparr>) \<and> xf_output_port_flushing (mi_output b 0)"
    by (simp add: d xf_output_port_routed_def out_flags has_def)
  moreover have "mi_output (b\<lparr>mi_response := 192\<rparr>) 0 = mi_output b 0" by (simp add: mi_output_def)
  ultimately show ?thesis using f' by metis
qed

end
