(* ===== verification/Renderer.thy ===== *)
theory Renderer
  imports Audio_Codec
begin

text \<open>
  The class of renderers (\<^verbatim>\<open>xa-class-renderer.c\<close>): one input port, an optional output port, and a message
  inside of the component that the interrupt handler of the device puts into the queue of the core. Its
  address is a field; the offsets in the structure are parameters of the factory.
\<close>

section \<open>State\<close>

record renderer = base +
  rd_input :: in_port
  rd_in_idx :: u32
  rd_output :: out_port
  rd_out_idx :: u32
  rd_msg :: addr
  rd_sample_size :: u32
  rd_factor :: u64
  rd_schedule :: u32
  rd_response :: addr
  rd_terminating :: bool

definition XA_RENDERER_FLAG_RUNNING :: u32 where "XA_RENDERER_FLAG_RUNNING = XA_BASE_FLAG (push_bit 0 1)"
definition XA_RENDERER_FLAG_OUTPUT_READY :: u32 where "XA_RENDERER_FLAG_OUTPUT_READY = XA_BASE_FLAG (push_bit 1 1)"
definition XA_RENDERER_FLAG_OUTPUT_SETUP :: u32 where "XA_RENDERER_FLAG_OUTPUT_SETUP = XA_BASE_FLAG (push_bit 2 1)"

definition XA_RENDERER_CONFIG_PARAM_CB :: u32 where "XA_RENDERER_CONFIG_PARAM_CB = 0"
definition XA_RENDERER_CONFIG_PARAM_STATE :: u32 where "XA_RENDERER_CONFIG_PARAM_STATE = 1"
definition XA_RENDERER_CONFIG_PARAM_PCM_WIDTH :: u32 where "XA_RENDERER_CONFIG_PARAM_PCM_WIDTH = 2"
definition XA_RENDERER_CONFIG_PARAM_CHANNELS :: u32 where "XA_RENDERER_CONFIG_PARAM_CHANNELS = 3"
definition XA_RENDERER_CONFIG_PARAM_SAMPLE_RATE :: u32 where "XA_RENDERER_CONFIG_PARAM_SAMPLE_RATE = 4"
definition XA_RENDERER_STATE_IDLE :: u32 where "XA_RENDERER_STATE_IDLE = 1"
definition XA_RENDERER_CONFIG_FATAL_RANGE :: int where "XA_RENDERER_CONFIG_FATAL_RANGE = XA_ERROR_CODE (- 1) 1 6 2"
definition XA_RENDERER_EXEC_NONFATAL_INPUT :: int where "XA_RENDERER_EXEC_NONFATAL_INPUT = XA_ERROR_CODE 0 2 6 1"
definition XA_RENDERER_EXEC_NONFATAL_OUTPUT :: int where "XA_RENDERER_EXEC_NONFATAL_OUTPUT = XA_ERROR_CODE 0 2 6 2"

section \<open>Ports\<close>

definition rd_put_input :: "io \<Rightarrow> in_port \<Rightarrow> renderer \<Rightarrow> renderer" where
  "rd_put_input io p s = (with_io io s)\<lparr>rd_input := p\<rparr>"

definition rd_put_output :: "io \<Rightarrow> out_port \<Rightarrow> renderer \<Rightarrow> renderer" where
  "rd_put_output io p s = (with_io io s)\<lparr>rd_output := p\<rparr>"

definition rd_input_purge :: "renderer \<Rightarrow> renderer option" where
  "rd_input_purge s = do { (io, p) \<leftarrow> xf_input_port_purge (io_of s) (rd_input s); Some (rd_put_input io p s) }"

definition rd_input_fill :: "renderer \<Rightarrow> renderer \<times> bool" where
  "rd_input_fill s = (case xf_input_port_fill (io_of s) (rd_input s) of (io, p, r) \<Rightarrow> (rd_put_input io p s, r))"

definition rd_output_put :: "addr \<Rightarrow> renderer \<Rightarrow> renderer" where
  "rd_output_put m s = (case xf_output_port_put (io_of s) (rd_output s) m of (io, p, _) \<Rightarrow> rd_put_output io p s)"

definition rd_output_flush :: "u32 \<Rightarrow> renderer \<Rightarrow> (renderer \<times> bool) option" where
  "rd_output_flush opcode s =
     do { (io, p, r) \<leftarrow> xf_output_port_flush (io_of s) (rd_output s) opcode; Some (rd_put_output io p s, r) }"

definition rd_output_produce :: "u32 \<Rightarrow> renderer \<Rightarrow> renderer" where
  "rd_output_produce n s = (case xf_output_port_produce (io_of s) (rd_output s) n of (io, p, _) \<Rightarrow> rd_put_output io p s)"

definition rd_output_type :: "renderer \<Rightarrow> u32" where
  "rd_output_type s = pool_type s XAF_MEM_POOL_TYPE_COMP_OUTPUT"

definition rd_output_unroute :: "renderer \<Rightarrow> renderer option" where
  "rd_output_unroute s =
     do { (io, p) \<leftarrow> xf_output_port_unroute (io_of s) (rd_output s) (rd_output_type s); Some (rd_put_output io p s) }"

definition rd_output_unroute_done :: "renderer \<Rightarrow> renderer option" where
  "rd_output_unroute_done s =
     do { (io, p) \<leftarrow> xf_output_port_unroute_done (io_of s) (rd_output s) (rd_output_type s); Some (rd_put_output io p s) }"

definition rd_output_flush_done :: "renderer \<Rightarrow> renderer" where
  "rd_output_flush_done s = s\<lparr>rd_output := xf_output_port_flush_done (rd_output s)\<rparr>"

section \<open>The interrupt handler\<close>

text \<open>
  Operations on a word that are atomic against interrupts: the new value and the result of the test.
\<close>

definition xf_atomic_test_and_set :: "u32 \<Rightarrow> u32 \<Rightarrow> u32 \<times> bool" where
  "xf_atomic_test_and_set bitmap v = (bitmap OR v, bitmap AND v = 0)"

definition xf_atomic_test_and_clear :: "u32 \<Rightarrow> u32 \<Rightarrow> u32 \<times> bool" where
  "xf_atomic_test_and_clear bitmap v = (bitmap AND NOT v, bitmap AND v \<noteq> 0)"

definition xf_atomic_clear :: "u32 \<Rightarrow> u32 \<Rightarrow> u32" where
  "xf_atomic_clear bitmap v = bitmap AND NOT v"

definition xf_msg_schedule_isr :: "addr \<Rightarrow> 'z base_scheme \<Rightarrow> 'z base_scheme" where
  "xf_msg_schedule_isr m = on_core (\<lambda>c.
     let (h, q, _) = xf_msg_enqueue (c_msg c) (c_queue c) m in xf_ipi_resume_dsp (c\<lparr>c_msg := h, c_queue := q\<rparr>))"

definition xa_renderer_callback :: "renderer \<Rightarrow> renderer" where
  "xa_renderer_callback s =
     (let (v, first) = xf_atomic_test_and_set (rd_schedule s) 1; s = s\<lparr>rd_schedule := v\<rparr>
      in if first then xf_msg_schedule_isr (rd_msg s) s else s)"

section \<open>Runtime initialisation\<close>

definition xa_renderer_prepare_runtime :: "renderer plugin \<Rightarrow> renderer \<Rightarrow> renderer result" where
  "xa_renderer_prepare_runtime P s =
     (let m = xf_msg_queue_head (op_queue (rd_output s)); b = m_buffer (msg s m) in
      if m = NULL then None
      else
        XA_API P XA_API_CMD_GET_CONFIG_PARAM XA_RENDERER_CONFIG_PARAM_SAMPLE_RATE (Ptr b) s (\<lambda>s _ _.
        XA_API P XA_API_CMD_GET_CONFIG_PARAM XA_RENDERER_CONFIG_PARAM_CHANNELS (Ptr (b + 4)) s (\<lambda>s _ _.
        XA_API P XA_API_CMD_GET_CONFIG_PARAM XA_RENDERER_CONFIG_PARAM_PCM_WIDTH (Ptr (b + 8)) s (\<lambda>s _ _.
          let s = s\<lparr>rd_sample_size := get32 s (b + 4) * bytes_per_sample (get32 s (b + 8))\<rparr>;
              sz = rd_sample_size s; factor = xf_timebase_factor (get32 s b)
          in if factor = 0 then Some (s, XA_RENDERER_CONFIG_FATAL_RANGE)
             else if \<not> 0 < sz then Some (s, XA_API_FATAL_INVALID_CMD_TYPE)
             else
               let s = s\<lparr>rd_factor := factor div ucast sz\<rparr> in
               if rd_factor s * ucast sz \<noteq> factor then Some (s, XA_RENDERER_CONFIG_FATAL_RANGE)
               else
                 XA_API P XA_API_CMD_GET_MEM_INFO_SIZE 0 (Ptr (b + 12)) s (\<lambda>s _ _.
                 XA_API P XA_API_CMD_GET_MEM_INFO_SIZE (rd_out_idx s) (Ptr (b + 28)) s (\<lambda>s _ _. do {
                   (io, p, _) \<leftarrow> xf_output_port_route_alloc (io_of s) (rd_output s) (get32 s (b + 28)) (rd_output_type s);
                   Some (rd_output_produce start_msg_size (rd_put_output io p s), 0) }))))))"

section \<open>Commands\<close>

definition xa_renderer_empty_this_buffer :: "addr \<Rightarrow> renderer \<Rightarrow> renderer result" where
  "xa_renderer_empty_this_buffer m s =
     (if XF_MSG_DST_PORT (m_id (msg s m)) \<noteq> 0 then Some (s, XA_API_FATAL_INVALID_CMD_TYPE)
      else if \<not> has XA_BASE_FLAG_POSTINIT s then Some (s, XA_API_FATAL_INVALID_CMD)
      else
        let (io, p, first) = xf_input_port_put (io_of s) (rd_input s) m; s = rd_put_input io p s in
        if \<not> first then Some (s, 0)
        else if has XA_BASE_FLAG_RUNTIME_INIT s \<and> \<not> has XA_RENDERER_FLAG_OUTPUT_READY s then Some (s, 0)
        else do { s \<leftarrow> xa_base_schedule 0 s; Some (s, 0) })"

text \<open>The end of the handler: the device wants data, or the initialisation starts.\<close>

definition rd_output_ready :: "renderer \<Rightarrow> renderer result" where
  "rd_output_ready s =
     (let s = s\<lparr>rd_schedule := xf_atomic_clear (rd_schedule s) 1\<rparr> in
      if \<not> has XA_RENDERER_FLAG_OUTPUT_READY s
      then do { s \<leftarrow> xa_base_schedule 0 (toggle_flags XA_RENDERER_FLAG_OUTPUT_READY s); Some (s, 0) }
      else Some (s, 0))"

definition rd_fill_control :: "addr \<Rightarrow> renderer \<Rightarrow> renderer result" where
  "rd_fill_control m s =
     (let s = rd_output_flush_done s in do {
        s \<leftarrow> (if xf_output_port_unrouting (rd_output s) then rd_output_unroute_done s
              else if m_length (msg s m) = XF_MSG_LENGTH_INVALID then rd_output_unroute s
              else Some s);
        s \<leftarrow> rd_input_purge s;
        Some (s, 0) })"

definition rd_fill_drop :: "addr \<Rightarrow> renderer \<Rightarrow> renderer result" where
  "rd_fill_drop m s =
     (let s = on_core (upd_msg m (m_length_update (\<lambda>_. op_length (rd_output s)))) s in
      if \<not> xf_output_port_flushing (rd_output s) then do {
        (s, _) \<leftarrow> rd_output_flush XF_FILL_THIS_BUFFER s;
        Some (clear_flags XA_RENDERER_FLAG_OUTPUT_SETUP s, 0) }
      else Some (s, 0))"

definition xa_renderer_fill_this_buffer :: "addr \<Rightarrow> renderer \<Rightarrow> renderer result" where
  "xa_renderer_fill_this_buffer m s =
     (if m \<noteq> rd_msg s then
        if XF_MSG_DST_PORT (m_id (msg s m)) \<noteq> 1 then Some (s, XA_API_FATAL_INVALID_CMD)
        else if has XA_BASE_FLAG_RUNTIME_INIT s then rd_output_ready (rd_output_put m s)
        else if m = xf_output_port_control_msg (rd_output s) then rd_fill_control m s
        else if m_length (msg s m) = XF_MSG_LENGTH_INVALID \<and> xf_output_port_routed (rd_output s) then rd_fill_drop m s
        else Some (rd_output_put m (on_core (upd_msg m (m_length_update (\<lambda>_. op_length (rd_output s)))) s), 0)
      else
        rd_output_ready
          (if \<not> has XA_RENDERER_FLAG_RUNNING s then toggle_flags XA_RENDERER_FLAG_RUNNING s else s))"

definition rd_flush_output :: "addr \<Rightarrow> renderer \<Rightarrow> renderer result" where
  "rd_flush_output m s =
     (if \<not> xf_output_port_routed (rd_output s) then do {
        (s, _) \<leftarrow> rd_output_flush XF_FLUSH s;
        Some (clear_flags XA_RENDERER_FLAG_OUTPUT_SETUP (on_io (xf_response m) s), 0) }
      else
        let s = rd_output_flush_done s; (io, p) = xf_input_port_purge_done (io_of s) (rd_input s)
        in Some (clear_flags XA_RENDERER_FLAG_OUTPUT_SETUP (rd_put_input io p s), 0))"

definition xa_renderer_flush :: "addr \<Rightarrow> renderer \<Rightarrow> renderer result" where
  "xa_renderer_flush m s =
     (if \<not> has XA_BASE_FLAG_EXECUTION s then Some (s, XA_API_FATAL_INVALID_CMD)
      else if m_length (msg s m) \<noteq> 0 \<and> m_length (msg s m) \<noteq> XF_MSG_LENGTH_INVALID
      then Some (s, XA_API_FATAL_INVALID_CMD_TYPE)
      else if XF_MSG_DST_PORT (m_id (msg s m)) = 0 then do {
        s \<leftarrow> xa_base_cancel s;
        s \<leftarrow> rd_input_purge s;
        Some (on_io (xf_response m) s, 0) }
      else if xf_output_port_unrouting (rd_output s) then do {
        s \<leftarrow> rd_output_unroute_done s;
        Some (clear_flags XA_RENDERER_FLAG_OUTPUT_SETUP s, 0) }
      else rd_flush_output m s)"

definition xa_renderer_port_route :: "addr \<Rightarrow> renderer \<Rightarrow> renderer result" where
  "xa_renderer_port_route m s =
     (let cmd = m_buffer (msg s m); src = XF_MSG_DST (m_id (msg s m)); dst = ucast (get64 s (cmd + 8)) :: u32 in
      if \<not> has XA_BASE_FLAG_POSTINIT s then Some (s, XA_API_FATAL_INVALID_CMD)
      else if XF_MSG_DST_PORT (m_id (msg s m)) \<noteq> 1 then Some (s, XA_API_FATAL_INVALID_CMD_TYPE)
      else if xf_output_port_routed (rd_output s) then Some (s, XA_API_FATAL_INVALID_CMD_TYPE)
      else do {
        (io, p, r) \<leftarrow> xf_output_port_route (io_of s) (rd_output s) (XF_MSG_ID (ucast dst) (ucast src))
          (get32 s (cmd + 16)) (get32 s (cmd + 20)) (get32 s (cmd + 24)) (rd_output_type s);
        let s = rd_put_output io p s;
        if r \<noteq> 0 then Some (s, XA_API_FATAL_MEM_ALLOC) else Some (respond_ok m s, 0) })"

definition xa_renderer_port_unroute :: "renderer plugin \<Rightarrow> addr \<Rightarrow> renderer \<Rightarrow> renderer result" where
  "xa_renderer_port_unroute P m s =
     (if \<not> has XA_BASE_FLAG_POSTINIT s then Some (s, XA_API_FATAL_INVALID_CMD)
      else if XF_MSG_DST_PORT (m_id (msg s m)) \<noteq> 1 then Some (s, XA_API_FATAL_INVALID_CMD_TYPE)
      else if \<not> xf_output_port_routed (rd_output s) then Some (respond_ok m s, 0)
      else
        XA_API P XA_API_CMD_SET_MEM_PTR (rd_out_idx s) (Ptr NULL) (clear_flags XA_RENDERER_FLAG_OUTPUT_SETUP s) (\<lambda>s _ _. do {
          (s, idle) \<leftarrow> rd_output_flush XF_FLUSH s;
          if idle then do { s \<leftarrow> rd_output_unroute s; Some (respond_ok m s, 0) }
          else Some (s\<lparr>rd_output := xf_output_port_unroute_start (rd_output s) m\<rparr>, 0) }))"

section \<open>Memory tables and processing\<close>

text \<open>After each table the message of the interrupt handler is set up.\<close>

definition rd_setup_msg :: "renderer \<Rightarrow> renderer" where
  "rd_setup_msg s = clear_flags XA_RENDERER_FLAG_OUTPUT_READY
     (on_core (upd_msg (rd_msg s) (\<lambda>x. x\<lparr>m_id := XF_MSG_ID 0 (co_id (component_of s)), m_opcode := XF_FILL_THIS_BUFFER,
        m_length := 0, m_buffer := NULL\<rparr>)) s)"

definition xa_renderer_memtab :: "renderer plugin \<Rightarrow> u32 \<Rightarrow> u32 \<Rightarrow> u32 \<Rightarrow> u32 \<Rightarrow> renderer \<Rightarrow> renderer result" where
  "xa_renderer_memtab P idx t sz align s =
     (if t = XA_MEMTYPE_INPUT then
        if idx \<noteq> 0 then Some (s, XA_API_FATAL_INVALID_CMD_TYPE)
        else do {
          (io, p, r) \<leftarrow> xf_input_port_init (io_of s) (rd_input s) sz align (pool_type s XAF_MEM_POOL_TYPE_COMP_INPUT);
          let s = rd_put_input io p s;
          if r \<noteq> 0 then Some (s, XA_API_FATAL_MEM_ALLOC)
          else if sz \<noteq> 0
          then XA_API P XA_API_CMD_SET_MEM_PTR idx (Ptr (ip_buffer (rd_input s))) s (\<lambda>s _ _.
                 Some (rd_setup_msg (s\<lparr>rd_in_idx := idx\<rparr>), 0))
          else Some (rd_setup_msg (s\<lparr>rd_in_idx := idx\<rparr>), 0) }
      else if t \<noteq> XA_MEMTYPE_OUTPUT then Some (s, XA_API_FATAL_INVALID_CMD_TYPE)
      else if idx \<noteq> 1 then Some (s, XA_API_FATAL_INVALID_CMD_TYPE)
      else Some (rd_setup_msg (s\<lparr>rd_output := xf_output_port_init (rd_output s) sz, rd_out_idx := idx\<rparr>), 0))"

text \<open>
  The input for the device: \<open>k\<close> receives the number of bytes. The device may take less than it wants
  when it is ready, and is not fed before it is ready again once it runs.
\<close>

definition rd_preprocess_input :: "renderer plugin \<Rightarrow> renderer \<Rightarrow> (renderer \<Rightarrow> u32 \<Rightarrow> renderer result) \<Rightarrow> renderer result" where
  "rd_preprocess_input P s k =
     (let busy = (\<lambda>s. \<not> has XA_RENDERER_FLAG_OUTPUT_READY s \<and> has XA_RENDERER_FLAG_RUNNING s) in
      if xf_input_port_bypass (rd_input s) then
        let (s, _) = rd_input_fill s; input = xf_input_port_data (rd_input s) in
        if input \<noteq> NULL
        then XA_API P XA_API_CMD_SET_MEM_PTR 0 (Ptr input) s (\<lambda>s _ _. k s (xf_input_port_length (rd_input s)))
        else if \<not> xf_input_port_done (rd_input s) then
          if \<not> has XA_RENDERER_FLAG_OUTPUT_READY s then Some (s, XA_RENDERER_EXEC_NONFATAL_INPUT) else k s 0
        else if busy s then Some (s, XA_RENDERER_EXEC_NONFATAL_OUTPUT)
        else k s 0
      else
        let (s, full) = (if xf_input_port_done (rd_input s) then (s, True) else rd_input_fill s) in
        if full then
          if busy s then Some (s, XA_RENDERER_EXEC_NONFATAL_OUTPUT) else k s (xf_input_port_level (rd_input s))
        else if \<not> has XA_RENDERER_FLAG_OUTPUT_READY s then Some (s, XA_RENDERER_EXEC_NONFATAL_INPUT)
        else k s (xf_input_port_level (rd_input s)))"

definition rd_preprocess_output :: "renderer plugin \<Rightarrow> renderer \<Rightarrow> renderer result" where
  "rd_preprocess_output P s =
     (if \<not> has XA_RENDERER_FLAG_OUTPUT_SETUP s \<and> xf_output_port_routed (rd_output s) then
        let output = xf_output_port_data (io_of s) (rd_output s) in
        if output \<noteq> NULL
        then XA_API P XA_API_CMD_SET_MEM_PTR (rd_out_idx s) (Ptr output) s (\<lambda>s _ _.
               Some (toggle_flags XA_RENDERER_FLAG_OUTPUT_SETUP s, 0))
        else XA_API P XA_API_CMD_SET_MEM_PTR (rd_out_idx s) (Ptr NULL) s (\<lambda>s _ _. Some (s, 0))
      else Some (s, 0))"

definition xa_renderer_preprocess :: "renderer plugin \<Rightarrow> renderer \<Rightarrow> renderer result" where
  "xa_renderer_preprocess P s =
     (if has XA_BASE_FLAG_RUNTIME_INIT s then Some (s, 0)
      else rd_preprocess_input P s (\<lambda>s filled.
        XA_API P XA_API_CMD_SET_INPUT_BYTES 0 (Local filled) s (\<lambda>s _ _.
          if xf_input_port_done (rd_input s)
          then XA_API P XA_API_CMD_INPUT_OVER 0 (Ptr NULL) s (\<lambda>s _ _. rd_preprocess_output P s)
          else rd_preprocess_output P s)))"

definition rd_post_output :: "u32 \<Rightarrow> renderer \<Rightarrow> renderer" where
  "rd_post_output produced s =
     (if rd_sample_size s \<noteq> 0 \<and> has XA_RENDERER_FLAG_OUTPUT_SETUP s \<and> produced \<noteq> 0
      then toggle_flags XA_RENDERER_FLAG_OUTPUT_SETUP (rd_output_produce produced s) else s)"

definition rd_post_input :: "u32 \<Rightarrow> renderer \<Rightarrow> renderer" where
  "rd_post_input consumed s =
     (if consumed \<noteq> 0
      then (case xf_input_port_consume (io_of s) (rd_input s) consumed of (io, p) \<Rightarrow> rd_put_input io p s) else s)"

definition rd_post_done :: "renderer plugin \<Rightarrow> renderer \<Rightarrow> renderer result" where
  "rd_post_done P s =
     (if has XA_BASE_FLAG_RUNTIME_INIT s then Some (s, 0)
      else if has XA_BASE_FLAG_EXECUTION s then
        CODEC_API (xa_renderer_prepare_runtime P) s (\<lambda>s _. do {
          s \<leftarrow> xa_base_schedule 0 (clear_flags XA_RENDERER_FLAG_OUTPUT_READY s); Some (s, 0) })
      else do {
        (s, idle) \<leftarrow> rd_output_flush XF_FILL_THIS_BUFFER s;
        if idle then do { s \<leftarrow> rd_input_purge s; Some (clear_flags XA_RENDERER_FLAG_RUNNING s, 0) }
        else Some (s, 0) })"

definition renderer_postprocess :: "renderer plugin \<Rightarrow> u32 \<Rightarrow> u32 \<Rightarrow> u32 \<Rightarrow> renderer \<Rightarrow> renderer result" where
  "renderer_postprocess P done consumed produced s =
     (let s = rd_post_input consumed (rd_post_output produced s);
          s = (if produced \<noteq> 0 then clear_flags XA_RENDERER_FLAG_OUTPUT_READY s else s)
      in if done \<noteq> 0 then rd_post_done P s
         else do {
           s \<leftarrow> (if xf_input_port_ready (rd_input s) \<and> consumed \<noteq> 0
                 then xa_base_schedule (ucast consumed * rd_factor s) s else Some s);
           Some (s, 0) })"

definition xa_renderer_postprocess :: "renderer plugin \<Rightarrow> u32 \<Rightarrow> renderer \<Rightarrow> renderer result" where
  "xa_renderer_postprocess P done s =
     (if \<not> xf_input_port_bypass (rd_input s) \<or> \<not> (done \<noteq> 0 \<and> has XA_BASE_FLAG_EXECUTION s)
      then XA_API P XA_API_CMD_GET_CURIDX_INPUT_BUF 0 (Local 0) s (\<lambda>s _ consumed.
           XA_API P XA_API_CMD_GET_OUTPUT_BYTES (rd_out_idx s) (Local 0) s (\<lambda>s _ produced.
             renderer_postprocess P done consumed produced s))
      else renderer_postprocess P done 0 0 s)"

section \<open>The class and its entry points\<close>

definition renderer_clear :: "u32 \<Rightarrow> addr \<Rightarrow> renderer \<Rightarrow> renderer" where
  "renderer_clear off a s = on_core (upd_msg (a + off) (\<lambda>_. \<lparr>m_next = NULL, m_id = 0, m_opcode = 0, m_length = 0, m_buffer = NULL, m_error = 0\<rparr>))
     ((base_clear a s)\<lparr>rd_input := no_in_port, rd_in_idx := 0, rd_output := no_out_port, rd_out_idx := 0, rd_msg := a + off,
        rd_sample_size := 0, rd_factor := 0, rd_schedule := 0, rd_response := NULL, rd_terminating := False\<rparr>)"

definition renderer_methods :: "renderer plugin \<Rightarrow> u32 \<Rightarrow> u32 \<Rightarrow> renderer klass" where
  "renderer_methods P off sizeof_base =
     \<lparr>k_process = P, k_memtab = xa_renderer_memtab P, k_preprocess = xa_renderer_preprocess P,
      k_postprocess = xa_renderer_postprocess P, k_setparam = None, k_getparam = None,
      k_command = (\<lambda>_. None), k_command_num = 0, k_clear = renderer_clear off, k_sizeof_base = sizeof_base\<rparr>"

definition xa_renderer_cmd :: "renderer klass \<Rightarrow> u32 \<Rightarrow> (addr \<Rightarrow> renderer \<Rightarrow> renderer result) option" where
  "xa_renderer_cmd K t =
     (let P = k_process K in
      if t = XF_OPCODE_TYPE XF_SET_PARAM then Some (xa_base_set_param K)
      else if t = XF_OPCODE_TYPE XF_GET_PARAM then Some (xa_base_get_param K)
      else if t = XF_OPCODE_TYPE XF_SET_PARAM_EXT then Some (xa_base_set_param_ext K)
      else if t = XF_OPCODE_TYPE XF_GET_PARAM_EXT then Some (xa_base_get_param_ext K)
      else if t = XF_OPCODE_TYPE XF_EMPTY_THIS_BUFFER then Some xa_renderer_empty_this_buffer
      else if t = XF_OPCODE_TYPE XF_FILL_THIS_BUFFER then Some xa_renderer_fill_this_buffer
      else if t = XF_OPCODE_TYPE XF_FLUSH then Some xa_renderer_flush
      else if t = XF_OPCODE_TYPE XF_ROUTE then Some xa_renderer_port_route
      else if t = XF_OPCODE_TYPE XF_UNROUTE then Some (xa_renderer_port_unroute P)
      else None)"

definition XA_RENDERER_CMD_NUM :: u32 where
  "XA_RENDERER_CMD_NUM = 17"

definition renderer_class :: "renderer plugin \<Rightarrow> u32 \<Rightarrow> u32 \<Rightarrow> renderer klass" where
  "renderer_class P off sizeof_base =
     (renderer_methods P off sizeof_base)\<lparr>k_command := xa_renderer_cmd (renderer_methods P off sizeof_base),
        k_command_num := XA_RENDERER_CMD_NUM\<rparr>"

definition xa_renderer_terminate :: "addr \<Rightarrow> renderer \<Rightarrow> renderer result" where
  "xa_renderer_terminate m s =
     (if m = NULL then Some (s, 0)
      else if m = rd_msg s then Some (s, XAF_UNREGISTER)
      else if XF_MSG_SRC_PROXY (m_id (msg s m)) then Some (on_io (xf_response_err m) s, 0)
      else Some (on_io (xf_response_failure m) s, 0))"

text \<open>The output port is not released here.\<close>

definition xa_renderer_destroy :: "u32 \<Rightarrow> renderer \<Rightarrow> renderer result" where
  "xa_renderer_destroy sz s =
     (let m = rd_response s in do {
        (io, p) \<leftarrow> xf_input_port_destroy (io_of s) (rd_input s) (pool_type s XAF_MEM_POOL_TYPE_COMP_INPUT);
        s \<leftarrow> xa_base_destroy sz (rd_put_input io p s);
        Some (if m \<noteq> NULL then on_io (xf_response_err m) s else s, 0) })"

definition xa_renderer_cleanup :: "renderer plugin \<Rightarrow> u32 \<Rightarrow> addr \<Rightarrow> renderer \<Rightarrow> renderer result" where
  "xa_renderer_cleanup P sz m s = do {
     s \<leftarrow> xa_base_cancel s;
     let (s, _) = XA_API_NORET P XA_API_CMD_SET_CONFIG_PARAM XA_RENDERER_CONFIG_PARAM_STATE (Local XA_RENDERER_STATE_IDLE) s;
     s \<leftarrow> rd_input_purge s;
     let s = s\<lparr>rd_response := m\<rparr>;
     let (v, pending) = xf_atomic_test_and_clear (rd_schedule s) 1;
     let s = s\<lparr>rd_schedule := v\<rparr>;
     if pending then Some (s\<lparr>rd_terminating := True\<rparr>, 1) else xa_renderer_destroy sz s }"

definition renderer_entry :: "renderer klass \<Rightarrow> addr \<Rightarrow> renderer \<Rightarrow> renderer result" where
  "renderer_entry K m s = (if rd_terminating s then xa_renderer_terminate m s else xa_base_command K m s)"

definition renderer_exit :: "renderer plugin \<Rightarrow> u32 \<Rightarrow> addr \<Rightarrow> renderer \<Rightarrow> renderer result" where
  "renderer_exit P sz m s = (if rd_terminating s then xa_renderer_destroy sz s else xa_renderer_cleanup P sz m s)"

definition xa_renderer_factory :: "renderer plugin \<Rightarrow> u32 \<Rightarrow> u32 \<Rightarrow> u32 \<Rightarrow> u32 \<Rightarrow> u32 \<Rightarrow> renderer \<Rightarrow> (renderer \<times> addr) option" where
  "xa_renderer_factory P off cdata sizeof_base sz comp_type s = do {
     (s, a) \<leftarrow> xa_base_factory (renderer_class P off sizeof_base) sz s;
     if a = NULL then Some (s, NULL)
     else
       let (s, _) = XA_API_NORET P XA_API_CMD_SET_CONFIG_PARAM XA_RENDERER_CONFIG_PARAM_CB (Ptr (a + cdata)) (s\<lparr>b_type := comp_type\<rparr>)
       in Some (s, a) }"

end
