(* ===== verification/Capturer.thy ===== *)
theory Capturer
  imports Renderer
begin

text \<open>
  The class of capturers (\<^verbatim>\<open>xa-class-capturer.c\<close>): one output port, and a message inside of the component
  that the interrupt handler of the device puts into the queue of the core.
\<close>

section \<open>State\<close>

record capturer = base +
  cp_output :: out_port
  cp_msg :: addr
  cp_sample_size :: u32
  cp_factor :: u64
  cp_schedule :: u32
  cp_response :: addr
  cp_terminating :: bool

definition XA_CAPTURER_CONFIG_PARAM_CB :: u32 where "XA_CAPTURER_CONFIG_PARAM_CB = 0"
definition XA_CAPTURER_CONFIG_PARAM_STATE :: u32 where "XA_CAPTURER_CONFIG_PARAM_STATE = 1"
definition XA_CAPTURER_CONFIG_PARAM_PCM_WIDTH :: u32 where "XA_CAPTURER_CONFIG_PARAM_PCM_WIDTH = 2"
definition XA_CAPTURER_CONFIG_PARAM_CHANNELS :: u32 where "XA_CAPTURER_CONFIG_PARAM_CHANNELS = 3"
definition XA_CAPTURER_CONFIG_PARAM_SAMPLE_RATE :: u32 where "XA_CAPTURER_CONFIG_PARAM_SAMPLE_RATE = 4"
definition XA_CAPTURER_STATE_IDLE :: u32 where "XA_CAPTURER_STATE_IDLE = 1"
definition XA_CAPTURER_CONFIG_FATAL_RANGE :: int where "XA_CAPTURER_CONFIG_FATAL_RANGE = XA_ERROR_CODE (- 1) 1 7 2"

section \<open>The output port\<close>

definition cp_put_output :: "io \<Rightarrow> out_port \<Rightarrow> capturer \<Rightarrow> capturer" where
  "cp_put_output io p s = (with_io io s)\<lparr>cp_output := p\<rparr>"

definition cp_output_flush :: "u32 \<Rightarrow> capturer \<Rightarrow> (capturer \<times> bool) option" where
  "cp_output_flush opcode s =
     do { (io, p, r) \<leftarrow> xf_output_port_flush (io_of s) (cp_output s) opcode; Some (cp_put_output io p s, r) }"

definition cp_output_produce :: "u32 \<Rightarrow> capturer \<Rightarrow> capturer" where
  "cp_output_produce n s = (case xf_output_port_produce (io_of s) (cp_output s) n of (io, p, _) \<Rightarrow> cp_put_output io p s)"

definition cp_output_type :: "capturer \<Rightarrow> u32" where
  "cp_output_type s = pool_type s XAF_MEM_POOL_TYPE_COMP_OUTPUT"

definition cp_output_unroute :: "capturer \<Rightarrow> capturer option" where
  "cp_output_unroute s =
     do { (io, p) \<leftarrow> xf_output_port_unroute (io_of s) (cp_output s) (cp_output_type s); Some (cp_put_output io p s) }"

definition cp_output_unroute_done :: "capturer \<Rightarrow> capturer option" where
  "cp_output_unroute_done s =
     do { (io, p) \<leftarrow> xf_output_port_unroute_done (io_of s) (cp_output s) (cp_output_type s); Some (cp_put_output io p s) }"

definition cp_output_flush_done :: "capturer \<Rightarrow> capturer" where
  "cp_output_flush_done s = s\<lparr>cp_output := xf_output_port_flush_done (cp_output s)\<rparr>"

section \<open>Runtime initialisation and the interrupt handler\<close>

definition xa_capturer_prepare_runtime :: "capturer plugin \<Rightarrow> capturer \<Rightarrow> capturer result" where
  "xa_capturer_prepare_runtime P s =
     (let m = xf_msg_queue_head (op_queue (cp_output s)); b = m_buffer (msg s m) in
      if m = NULL then None
      else
        XA_API P XA_API_CMD_GET_CONFIG_PARAM XA_CAPTURER_CONFIG_PARAM_SAMPLE_RATE (Ptr b) s (\<lambda>s _ _.
        XA_API P XA_API_CMD_GET_CONFIG_PARAM XA_CAPTURER_CONFIG_PARAM_CHANNELS (Ptr (b + 4)) s (\<lambda>s _ _.
        XA_API P XA_API_CMD_GET_CONFIG_PARAM XA_CAPTURER_CONFIG_PARAM_PCM_WIDTH (Ptr (b + 8)) s (\<lambda>s _ _.
        XA_API P XA_API_CMD_GET_MEM_INFO_SIZE 0 (Ptr (b + 28)) s (\<lambda>s _ _.
          let s = s\<lparr>cp_sample_size := get32 s (b + 4) * bytes_per_sample (get32 s (b + 8))\<rparr>;
              sz = cp_sample_size s; factor = xf_timebase_factor (get32 s b)
          in if factor = 0 then Some (s, XA_API_FATAL_INVALID_CMD_TYPE)
             else if \<not> 0 < sz then Some (s, XA_API_FATAL_INVALID_CMD_TYPE)
             else
               let s = s\<lparr>cp_factor := factor div ucast sz\<rparr> in
               if cp_factor s * ucast sz \<noteq> factor then Some (s, XA_CAPTURER_CONFIG_FATAL_RANGE)
               else do {
                 (io, p, _) \<leftarrow> xf_output_port_route_alloc (io_of s) (cp_output s) (get32 s (b + 28)) (cp_output_type s);
                 Some (cp_output_produce start_msg_size (cp_put_output io p s), 0) })))))"

definition xa_capturer_callback :: "capturer \<Rightarrow> capturer" where
  "xa_capturer_callback s =
     (let (v, first) = xf_atomic_test_and_set (cp_schedule s) 1; s = s\<lparr>cp_schedule := v\<rparr>
      in if first then xf_msg_schedule_isr (cp_msg s) s else s)"

section \<open>Commands\<close>

definition xa_capturer_empty_this_buffer :: "addr \<Rightarrow> capturer \<Rightarrow> capturer result" where
  "xa_capturer_empty_this_buffer m s =
     (if m \<noteq> cp_msg s then Some (s, XA_API_FATAL_INVALID_CMD)
      else if \<not> has XA_BASE_FLAG_POSTINIT s then Some (s, XA_API_FATAL_INVALID_CMD)
      else if \<not> has (XA_BASE_FLAG_RUNTIME_INIT OR XA_BASE_FLAG_EXECUTION) s then Some (s, XA_API_FATAL_INVALID_CMD)
      else do {
        s \<leftarrow> xa_base_schedule 0 (s\<lparr>cp_schedule := xf_atomic_clear (cp_schedule s) 1\<rparr>);
        Some (s, 0) })"

definition cp_fill_put :: "addr \<Rightarrow> capturer \<Rightarrow> capturer result" where
  "cp_fill_put m s =
     (let (io, p, first) = xf_output_port_put (io_of s) (cp_output s) m; s = cp_put_output io p s in do {
        s \<leftarrow> schedule_if (first \<and> has XA_BASE_FLAG_RUNTIME_INIT s) s;
        Some (s, 0) })"

definition cp_fill_control :: "addr \<Rightarrow> capturer \<Rightarrow> capturer result" where
  "cp_fill_control m s =
     (let s = cp_output_flush_done s in do {
        s \<leftarrow> (if xf_output_port_unrouting (cp_output s) then cp_output_unroute_done s
              else if m_length (msg s m) = XF_MSG_LENGTH_INVALID then cp_output_unroute s
              else Some s);
        Some (s, 0) })"

definition cp_fill_drop :: "addr \<Rightarrow> capturer \<Rightarrow> capturer result" where
  "cp_fill_drop m s =
     (let s = on_core (upd_msg m (m_length_update (\<lambda>_. op_length (cp_output s)))) s in
      if \<not> xf_output_port_flushing (cp_output s) then do {
        s \<leftarrow> xa_base_cancel s;
        (s, _) \<leftarrow> cp_output_flush XF_FILL_THIS_BUFFER s;
        Some (s, 0) }
      else Some (s, 0))"

definition xa_capturer_fill_this_buffer :: "addr \<Rightarrow> capturer \<Rightarrow> capturer result" where
  "xa_capturer_fill_this_buffer m s =
     (if XF_MSG_DST_PORT (m_id (msg s m)) \<noteq> 0 then Some (s, XA_API_FATAL_INVALID_CMD)
      else if \<not> has XA_BASE_FLAG_POSTINIT s then Some (s, XA_API_FATAL_INVALID_CMD)
      else if has XA_BASE_FLAG_RUNTIME_INIT s then cp_fill_put m s
      else if m = xf_output_port_control_msg (cp_output s) then cp_fill_control m s
      else if has XA_BASE_FLAG_COMPLETED s \<and> \<not> xf_output_port_routed (cp_output s) then Some (respond_ok m s, 0)
      else if m_length (msg s m) = XF_MSG_LENGTH_INVALID \<and> xf_output_port_routed (cp_output s) then cp_fill_drop m s
      else cp_fill_put m (on_core (upd_msg m (m_length_update (\<lambda>_. op_length (cp_output s)))) s))"

definition xa_capturer_port_route :: "addr \<Rightarrow> capturer \<Rightarrow> capturer result" where
  "xa_capturer_port_route m s =
     (let cmd = m_buffer (msg s m); src = XF_MSG_DST (m_id (msg s m)); dst = ucast (get64 s (cmd + 8)) :: u32 in
      if \<not> has XA_BASE_FLAG_POSTINIT s then Some (s, XA_API_FATAL_INVALID_CMD)
      else if XF_MSG_DST_PORT (m_id (msg s m)) \<noteq> 0 then Some (s, XA_API_FATAL_INVALID_CMD_TYPE)
      else if xf_output_port_routed (cp_output s) then Some (s, XA_API_FATAL_INVALID_CMD_TYPE)
      else do {
        (io, p, r) \<leftarrow> xf_output_port_route (io_of s) (cp_output s) (XF_MSG_ID (ucast dst) (ucast src))
          (get32 s (cmd + 16)) (get32 s (cmd + 20)) (get32 s (cmd + 24)) (cp_output_type s);
        let s = cp_put_output io p s;
        if r \<noteq> 0 then Some (s, XA_API_FATAL_MEM_ALLOC) else Some (respond_ok m s, 0) })"

definition xa_capturer_port_unroute :: "addr \<Rightarrow> capturer \<Rightarrow> capturer result" where
  "xa_capturer_port_unroute m s =
     (if \<not> has XA_BASE_FLAG_POSTINIT s then Some (s, XA_API_FATAL_INVALID_CMD)
      else if XF_MSG_DST_PORT (m_id (msg s m)) \<noteq> 0 then Some (s, XA_API_FATAL_INVALID_CMD_TYPE)
      else if \<not> xf_output_port_routed (cp_output s) then Some (respond_ok m s, 0)
      else do {
        s \<leftarrow> xa_base_cancel s;
        (s, idle) \<leftarrow> cp_output_flush XF_FLUSH s;
        if idle then do { s \<leftarrow> cp_output_unroute s; Some (respond_ok m s, 0) }
        else Some (s\<lparr>cp_output := xf_output_port_unroute_start (cp_output s) m\<rparr>, 0) })"

definition xa_capturer_flush :: "addr \<Rightarrow> capturer \<Rightarrow> capturer result" where
  "xa_capturer_flush m s =
     (if \<not> has XA_BASE_FLAG_POSTINIT s then Some (s, XA_API_FATAL_INVALID_CMD)
      else if m_length (msg s m) \<noteq> 0 \<and> m_length (msg s m) \<noteq> XF_MSG_LENGTH_INVALID
      then Some (s, XA_API_FATAL_INVALID_CMD_TYPE)
      else if xf_output_port_unrouting (cp_output s) then do { s \<leftarrow> cp_output_unroute_done s; Some (s, 0) }
      else if \<not> xf_output_port_routed (cp_output s) then do {
        (s, _) \<leftarrow> cp_output_flush XF_FLUSH s;
        Some (on_io (xf_response m) s, 0) }
      else Some (cp_output_flush_done s, 0))"

section \<open>Memory tables and processing\<close>

definition xa_capturer_memtab :: "u32 \<Rightarrow> u32 \<Rightarrow> u32 \<Rightarrow> u32 \<Rightarrow> capturer \<Rightarrow> capturer result" where
  "xa_capturer_memtab idx t sz align s =
     (if t \<noteq> XA_MEMTYPE_OUTPUT then Some (s, XA_API_FATAL_INVALID_CMD_TYPE)
      else if idx \<noteq> 0 then Some (s, XA_API_FATAL_INVALID_CMD_TYPE)
      else
        let s = s\<lparr>cp_output := xf_output_port_init (cp_output s) sz\<rparr>
        in Some (on_core (upd_msg (cp_msg s) (\<lambda>x. x\<lparr>m_id := XF_MSG_ID 0 (co_id (component_of s)),
                   m_opcode := XF_EMPTY_THIS_BUFFER, m_length := 0, m_buffer := NULL\<rparr>)) s, 0))"

definition xa_capturer_preprocess :: "capturer plugin \<Rightarrow> capturer \<Rightarrow> capturer result" where
  "xa_capturer_preprocess P s =
     (if has XA_BASE_FLAG_RUNTIME_INIT s then Some (s, 0)
      else XA_API P XA_API_CMD_SET_MEM_PTR 0 (Ptr (xf_output_port_data (io_of s) (cp_output s))) s (\<lambda>s _ _. Some (s, 0)))"

definition xa_capturer_postprocess :: "capturer plugin \<Rightarrow> u32 \<Rightarrow> capturer \<Rightarrow> capturer result" where
  "xa_capturer_postprocess P done s =
     (let produce = (\<lambda>produced s. Some (if produced \<noteq> 0 then cp_output_produce produced s else s, 0)) in
      if done \<noteq> 0 then
        if has XA_BASE_FLAG_RUNTIME_INIT s then Some (s, 0)
        else if has XA_BASE_FLAG_EXECUTION s
        then CODEC_API (xa_capturer_prepare_runtime P) s (\<lambda>s _. Some (s, 0))
        else do { (s, _) \<leftarrow> cp_output_flush XF_FILL_THIS_BUFFER s; Some (s, 0) }
      else if cp_sample_size s \<noteq> 0
      then XA_API P XA_API_CMD_GET_OUTPUT_BYTES 0 (Local 0) s (\<lambda>s _ produced. produce produced s)
      else Some (s, 0))"

section \<open>The class and its entry points\<close>

definition capturer_clear :: "u32 \<Rightarrow> addr \<Rightarrow> capturer \<Rightarrow> capturer" where
  "capturer_clear off a s = on_core (upd_msg (a + off) (\<lambda>_. \<lparr>m_next = NULL, m_id = 0, m_opcode = 0, m_length = 0, m_buffer = NULL, m_error = 0\<rparr>))
     ((base_clear a s)\<lparr>cp_output := no_out_port, cp_msg := a + off, cp_sample_size := 0, cp_factor := 0,
        cp_schedule := 0, cp_response := NULL, cp_terminating := False\<rparr>)"

definition capturer_methods :: "capturer plugin \<Rightarrow> u32 \<Rightarrow> u32 \<Rightarrow> capturer klass" where
  "capturer_methods P off sizeof_base =
     \<lparr>k_process = P, k_memtab = xa_capturer_memtab, k_preprocess = xa_capturer_preprocess P,
      k_postprocess = xa_capturer_postprocess P, k_setparam = None, k_getparam = None,
      k_command = (\<lambda>_. None), k_command_num = 0, k_clear = capturer_clear off, k_sizeof_base = sizeof_base\<rparr>"

definition xa_capturer_cmd :: "capturer klass \<Rightarrow> u32 \<Rightarrow> (addr \<Rightarrow> capturer \<Rightarrow> capturer result) option" where
  "xa_capturer_cmd K t =
     (if t = XF_OPCODE_TYPE XF_SET_PARAM then Some (xa_base_set_param K)
      else if t = XF_OPCODE_TYPE XF_GET_PARAM then Some (xa_base_get_param K)
      else if t = XF_OPCODE_TYPE XF_ROUTE then Some xa_capturer_port_route
      else if t = XF_OPCODE_TYPE XF_UNROUTE then Some xa_capturer_port_unroute
      else if t = XF_OPCODE_TYPE XF_EMPTY_THIS_BUFFER then Some xa_capturer_empty_this_buffer
      else if t = XF_OPCODE_TYPE XF_FILL_THIS_BUFFER then Some xa_capturer_fill_this_buffer
      else if t = XF_OPCODE_TYPE XF_FLUSH then Some xa_capturer_flush
      else if t = XF_OPCODE_TYPE XF_SET_PARAM_EXT then Some (xa_base_set_param_ext K)
      else if t = XF_OPCODE_TYPE XF_GET_PARAM_EXT then Some (xa_base_get_param_ext K)
      else None)"

definition XA_CAPTURER_CMD_NUM :: u32 where
  "XA_CAPTURER_CMD_NUM = 17"

definition capturer_class :: "capturer plugin \<Rightarrow> u32 \<Rightarrow> u32 \<Rightarrow> capturer klass" where
  "capturer_class P off sizeof_base =
     (capturer_methods P off sizeof_base)\<lparr>k_command := xa_capturer_cmd (capturer_methods P off sizeof_base),
        k_command_num := XA_CAPTURER_CMD_NUM\<rparr>"

definition xa_capturer_terminate :: "addr \<Rightarrow> capturer \<Rightarrow> capturer result" where
  "xa_capturer_terminate m s =
     (if m = NULL then Some (s, 0)
      else if m = xf_output_port_control_msg (cp_output s) then Some (cp_output_flush_done s, XAF_UNREGISTER)
      else if m_opcode (msg s m) = XF_FILL_THIS_BUFFER then Some (s, 0)
      else if XF_MSG_SRC_PROXY (m_id (msg s m)) then Some (on_io (xf_response_err m) s, 0)
      else Some (on_io (xf_response_failure m) s, 0))"

definition xa_capturer_destroy :: "u32 \<Rightarrow> capturer \<Rightarrow> capturer result" where
  "xa_capturer_destroy sz s =
     (let m = cp_response s in do {
        (io, p) \<leftarrow> xf_output_port_destroy (io_of s) (cp_output s) (cp_output_type s);
        s \<leftarrow> xa_base_destroy sz (cp_put_output io p s);
        Some (if m \<noteq> NULL then on_io (xf_response_err m) s else s, 0) })"

text \<open>The message of the interrupt handler may still wait in the queue of the core here.\<close>

definition xa_capturer_cleanup :: "capturer plugin \<Rightarrow> u32 \<Rightarrow> addr \<Rightarrow> capturer \<Rightarrow> capturer result" where
  "xa_capturer_cleanup P sz m s =
     (let (s, _) = XA_API_NORET P XA_API_CMD_SET_CONFIG_PARAM XA_CAPTURER_CONFIG_PARAM_STATE (Local XA_CAPTURER_STATE_IDLE) s in do {
        s \<leftarrow> xa_base_cancel s;
        (s, idle) \<leftarrow> cp_output_flush XF_FLUSH (s\<lparr>cp_response := m\<rparr>);
        if idle then xa_capturer_destroy sz s else Some (s\<lparr>cp_terminating := True\<rparr>, 1) })"

definition capturer_entry :: "capturer klass \<Rightarrow> addr \<Rightarrow> capturer \<Rightarrow> capturer result" where
  "capturer_entry K m s = (if cp_terminating s then xa_capturer_terminate m s else xa_base_command K m s)"

definition capturer_exit :: "capturer plugin \<Rightarrow> u32 \<Rightarrow> addr \<Rightarrow> capturer \<Rightarrow> capturer result" where
  "capturer_exit P sz m s = (if cp_terminating s then xa_capturer_destroy sz s else xa_capturer_cleanup P sz m s)"

definition xa_capturer_factory :: "capturer plugin \<Rightarrow> u32 \<Rightarrow> u32 \<Rightarrow> u32 \<Rightarrow> u32 \<Rightarrow> u32 \<Rightarrow> capturer \<Rightarrow> (capturer \<times> addr) option" where
  "xa_capturer_factory P off cdata sizeof_base sz comp_type s = do {
     (s, a) \<leftarrow> xa_base_factory (capturer_class P off sizeof_base) sz s;
     if a = NULL then Some (s, NULL)
     else
       let (s, _) = XA_API_NORET P XA_API_CMD_SET_CONFIG_PARAM XA_CAPTURER_CONFIG_PARAM_CB (Ptr (a + cdata)) (s\<lparr>b_type := comp_type\<rparr>)
       in Some (s, a) }"

end
