(* ===== verification/Device_Thms.thy ===== *)
theory Device_Thms
  imports Codec_Thms Renderer Capturer Class_Results
begin

text \<open>
  The classes of audio devices: the message by which the interrupt handler of a renderer wakes its
  component is in the queue of the core at most once, when that fails, and what the cleanup of a
  renderer and of a capturer does with a message that is still on its way.
\<close>

section \<open>The message of the interrupt handler\<close>

definition isr_pending :: "renderer \<Rightarrow> bool" where
  "isr_pending s \<longleftrightarrow> rd_schedule s AND 1 \<noteq> 0"

definition core_messages :: "'z base_scheme \<Rightarrow> addr list \<Rightarrow> bool" where
  "core_messages s ms \<longleftrightarrow> msg_queue_rel (c_msg (b_core s)) (c_queue (b_core s)) ms"

definition core_take :: "'z base_scheme \<Rightarrow> 'z base_scheme \<times> addr" where
  "core_take s = (let (h, q, m) = xf_msg_dequeue (c_msg (b_core s)) (c_queue (b_core s))
     in (on_core (\<lambda>c. c\<lparr>c_msg := h, c_queue := q\<rparr>) s, m))"

definition plugin_ignores_message :: "renderer plugin \<Rightarrow> bool" where
  "plugin_ignores_message P \<longleftrightarrow> (\<forall>cmd idx pv s. isr_pending (fst (P cmd idx pv s)) = isr_pending s \<and> rd_msg (fst (P cmd idx pv s)) = rd_msg s)"

text \<open>A plug-in that leaves the fields of the message alone.\<close>

definition plugin_ignores_fields :: "renderer plugin \<Rightarrow> bool" where
  "plugin_ignores_fields P \<longleftrightarrow> plugin_ignores_message P \<and> (\<forall>cmd idx pv s. rd_terminating (fst (P cmd idx pv s)) = rd_terminating s)"

text \<open>
  The steps of a core that concern a renderer. The state has the renderer and whether the service loop
  holds the message of the interrupt handler. The device interrupts; the loop takes the first message of
  the queue of the core; the renderer handles its own message, a command of a client, or the command that
  destroys it, of which only the case that waits for the message leaves a renderer. Everything else,
  other components and the parameters, event channels and data processing of this one, is the rule \<open>other\<close>:
  it leaves the fields of the message and its membership in the queue alone. The messages of ports are not in the queue of the core,
  so the commands keep it.
\<close>

definition renderer_commands :: "u32 set" where
  "renderer_commands = XF_OPCODE_TYPE ` {XF_EMPTY_THIS_BUFFER, XF_FILL_THIS_BUFFER, XF_FLUSH, XF_ROUTE, XF_UNROUTE}"

inductive device_step :: "renderer plugin \<Rightarrow> renderer \<times> bool \<Rightarrow> renderer \<times> bool \<Rightarrow> bool" for P where
  interrupt: "device_step P (s, held) (xa_renderer_callback s, held)"
| take_message: "core_take s = (s', m) \<Longrightarrow> m \<noteq> NULL \<Longrightarrow> device_step P (s, False) (s', m = rd_msg s)"
| handle: "\<not> rd_terminating s \<Longrightarrow> xa_renderer_fill_this_buffer (rd_msg s) s = Some (s', e) \<Longrightarrow> device_step P (s, True) (s', False)"
| command: "t \<in> renderer_commands \<Longrightarrow> xa_renderer_cmd (renderer_class P off n) t = Some f \<Longrightarrow> \<not> rd_terminating s \<Longrightarrow>
    m \<noteq> rd_msg s \<Longrightarrow> f m s = Some (s', e) \<Longrightarrow> core_messages s ms \<Longrightarrow> core_messages s' ms \<Longrightarrow>
    device_step P (s, False) (s', False)"
| cleanup: "\<not> rd_terminating s \<Longrightarrow> xa_renderer_cleanup P sz m s = Some (s', 1) \<Longrightarrow> core_messages s ms \<Longrightarrow> core_messages s' ms \<Longrightarrow>
    device_step P (s, False) (s', False)"
| other: "rd_msg s' = rd_msg s \<Longrightarrow> rd_schedule s' = rd_schedule s \<Longrightarrow> rd_terminating s' = rd_terminating s \<Longrightarrow>
    core_messages s ms \<Longrightarrow> core_messages s' ms' \<Longrightarrow> rd_msg s \<in> set ms' \<longleftrightarrow> rd_msg s \<in> set ms \<Longrightarrow>
    device_step P (s, held) (s', held)"

text \<open>
  The two steps that spoil it: in the run-time initialisation the renderer takes a buffer of a client for
  its own message and clears the flag of the handler; and an interrupt comes after the cleanup has stopped the
  device.
\<close>

definition spoils :: "renderer \<Rightarrow> renderer \<Rightarrow> bool" where
  "spoils s s' \<longleftrightarrow>
     (\<exists>m e. has XA_BASE_FLAG_RUNTIME_INIT s \<and> isr_pending s \<and> m \<noteq> rd_msg s \<and> XF_MSG_DST_PORT (m_id (msg s m)) = 1 \<and>
        xa_renderer_fill_this_buffer m s = Some (s', e)) \<or>
     rd_terminating s \<and> s' = xa_renderer_callback s"

text \<open>
  The flag is set while the message waits or is held, so the handler does not send it again; a renderer
  that waits for it has cleared the flag.
\<close>

definition device_inv :: "renderer \<times> bool \<Rightarrow> bool" where
  "device_inv = (\<lambda>(s, held). rd_msg s \<noteq> NULL \<and> (\<exists>ms. core_messages s ms \<and>
     (held \<longrightarrow> rd_msg s \<notin> set ms) \<and>
     (if rd_terminating s then \<not> isr_pending s \<and> (held \<or> rd_msg s \<in> set ms)
      else isr_pending s \<longleftrightarrow> held \<or> rd_msg s \<in> set ms)))"

lemma core_messages_unique: "core_messages s ms \<Longrightarrow> core_messages s ns \<Longrightarrow> ns = ms"
  by (auto simp: core_messages_def msg_queue_rel_def intro: msg_list_unique)

lemma schedule_isr_queue:
  assumes "core_messages s ms" and "m \<noteq> NULL" and "m \<notin> set ms"
  shows "core_messages (xf_msg_schedule_isr m s) (ms @ [m])"
  using enqueue_rel [of "c_msg (b_core s)" "c_queue (b_core s)" ms m] assms
  by (auto simp: core_messages_def xf_msg_schedule_isr_def on_core_def xf_ipi_resume_dsp_def Let_def)

lemma schedule_isr_fields [simp]:
  "rd_msg (xf_msg_schedule_isr m s) = rd_msg s" "isr_pending (xf_msg_schedule_isr m s) = isr_pending s"
  "rd_terminating (xf_msg_schedule_isr m s) = rd_terminating s"
  by (simp_all add: xf_msg_schedule_isr_def on_core_def isr_pending_def)

lemma core_take_queue:
  assumes "core_messages s (m # ms)"
  shows "\<exists>s'. core_take s = (s', m) \<and> core_messages s' ms"
  using dequeue_rel(2) [of "c_msg (b_core s)" "c_queue (b_core s)" "m # ms" m ms] assms
  by (auto simp: core_messages_def core_take_def on_core_def)

lemma core_take_fields:
  "core_take s = (s', m) \<Longrightarrow> rd_msg s' = rd_msg s \<and> isr_pending s' = isr_pending s \<and> rd_terminating s' = rd_terminating s"
  by (auto simp: core_take_def on_core_def isr_pending_def split: prod.splits)

text \<open>What handling the message leaves: the queue, and no pending flag.\<close>

definition handled :: "renderer \<Rightarrow> renderer \<Rightarrow> bool" where
  "handled s s' \<longleftrightarrow> rd_msg s' = rd_msg s \<and> \<not> isr_pending s' \<and> c_msg (b_core s') = c_msg (b_core s) \<and>
     c_queue (b_core s') = c_queue (b_core s) \<and> rd_terminating s' = rd_terminating s"

lemma schedule_handled: "handled s t \<Longrightarrow> gives_state (handled s) (xa_base_schedule d t)"
  unfolding xa_base_schedule_def xf_component_schedule_def Let_def
  by (intro gives gives_bind_free; simp add: handled_def on_core_def isr_pending_def xf_ipi_resume_dsp_def)

lemma handle_message: "gives (handled s) (xa_renderer_fill_this_buffer (rd_msg s) s)"
proof -
  have "handled s (t\<lparr>rd_schedule := xf_atomic_clear (rd_schedule t) 1\<rparr>)"
    "handled s (toggle_flags f (t\<lparr>rd_schedule := xf_atomic_clear (rd_schedule t) 1\<rparr>))"
    if "rd_msg t = rd_msg s" "c_msg (b_core t) = c_msg (b_core s)" "c_queue (b_core t) = c_queue (b_core s)"
      "rd_terminating t = rd_terminating s" for t f
    using that by (simp_all add: handled_def isr_pending_def xf_atomic_clear_def toggle_flags_def set_state_def and.assoc)
  then show ?thesis unfolding xa_renderer_fill_this_buffer_def rd_output_ready_def Let_def
    by (intro gives schedule_handled; simp add: toggle_flags_def set_state_def)
qed

subsection \<open>The commands of clients\<close>

text \<open>The fields of the message; \<open>v\<close> is the state of the flag.\<close>

definition msg_fields :: "addr \<Rightarrow> bool \<Rightarrow> bool \<Rightarrow> renderer \<Rightarrow> bool" where
  "msg_fields a v b s \<longleftrightarrow> rd_msg s = a \<and> isr_pending s = v \<and> rd_terminating s = b"

lemma msg_fields_simps [simp]:
  "msg_fields a v b (with_io io s) = msg_fields a v b s" "msg_fields a v b (on_core f s) = msg_fields a v b s"
  "msg_fields a v b (on_io g s) = msg_fields a v b s" "msg_fields a v b (respond_ok m s) = msg_fields a v b s"
  "msg_fields a v b (set_state x s) = msg_fields a v b s" "msg_fields a v b (clear_flags x s) = msg_fields a v b s"
  "msg_fields a v b (toggle_flags x s) = msg_fields a v b s" "msg_fields a v b (s\<lparr>b_state := x\<rparr>) = msg_fields a v b s"
  "msg_fields a v b (rd_put_input io p s) = msg_fields a v b s" "msg_fields a v b (rd_put_output io q s) = msg_fields a v b s"
  "msg_fields a v b (rd_output_flush_done s) = msg_fields a v b s" "msg_fields a v b (s\<lparr>rd_output := q\<rparr>) = msg_fields a v b s"
  by (simp_all add: msg_fields_def isr_pending_def with_io_def on_core_def on_io_def respond_ok_def set_state_def clear_flags_def
      toggle_flags_def rd_put_input_def rd_put_output_def rd_output_flush_done_def)

lemma msg_fields_put [simp]: "msg_fields a v b (rd_output_put m s) = msg_fields a v b s"
  by (simp add: rd_output_put_def split: prod.splits)

lemma msg_fields_ops [gives]:
  "msg_fields a v b s \<Longrightarrow> gives_state (msg_fields a v b) (xa_base_schedule d s)"
  "msg_fields a v b s \<Longrightarrow> gives_state (msg_fields a v b) (xa_base_cancel s)"
  "msg_fields a v b s \<Longrightarrow> gives_state (msg_fields a v b) (rd_input_purge s)"
  "msg_fields a v b s \<Longrightarrow> gives_state (msg_fields a v b) (rd_output_unroute s)"
  "msg_fields a v b s \<Longrightarrow> gives_state (msg_fields a v b) (rd_output_unroute_done s)"
  "msg_fields a v b s \<Longrightarrow> gives (msg_fields a v b) (rd_output_flush op s)"
  unfolding xa_base_schedule_def xf_component_schedule_def xa_base_cancel_def rd_input_purge_def rd_output_unroute_def
    rd_output_unroute_done_def rd_output_flush_def Let_def
  by (intro gives gives_bind_free; simp)+

lemma fill_fields:
  assumes s: "msg_fields a v b s" and m: "m \<noteq> a"
    and init: "has XA_BASE_FLAG_RUNTIME_INIT s \<Longrightarrow> XF_MSG_DST_PORT (m_id (msg s m)) = 1 \<Longrightarrow> \<not> v"
  shows "gives (msg_fields a v b) (xa_renderer_fill_this_buffer m s)"
proof (cases v)
  case True
  have rd: "rd_msg s = a" using s by (simp add: msg_fields_def)
  have i: "\<not> (has XA_BASE_FLAG_RUNTIME_INIT s \<and> XF_MSG_DST_PORT (m_id (msg s m)) = 1)" using init True by blast
  show ?thesis
    unfolding xa_renderer_fill_this_buffer_def rd_fill_control_def rd_fill_drop_def Let_def rd
    by (intro gives; use i in \<open>simp add: s m\<close>)
next
  case False
  then have s': "msg_fields a False b s" using s by simp
  have rd: "rd_msg s = a" using s by (simp add: msg_fields_def)
  have clear: "msg_fields a False b (t\<lparr>rd_schedule := xf_atomic_clear (rd_schedule t) 1\<rparr>)" if "msg_fields a False b t" for t
    using that by (simp add: msg_fields_def isr_pending_def xf_atomic_clear_def and.assoc)
  have "gives (msg_fields a False b) (xa_renderer_fill_this_buffer m s)"
    unfolding xa_renderer_fill_this_buffer_def rd_fill_control_def rd_fill_drop_def rd_output_ready_def Let_def rd
    by (intro gives; simp add: s' m clear)
  then show ?thesis using False by simp
qed

lemma command_fields:
  assumes "plugin_keeps (msg_fields a v b) P" and "msg_fields a v b s"
  shows "gives (msg_fields a v b) (xa_renderer_empty_this_buffer m s)" "gives (msg_fields a v b) (xa_renderer_flush m s)"
    "gives (msg_fields a v b) (xa_renderer_port_route m s)" "gives (msg_fields a v b) (xa_renderer_port_unroute P m s)"
  unfolding xa_renderer_empty_this_buffer_def xa_renderer_flush_def rd_flush_output_def xa_renderer_port_route_def
    xa_renderer_port_unroute_def Let_def
  by (intro gives gives_bind_free(1) [where a = "xf_output_port_route _ _ _ _ _ _ _"] assms(1); simp add: assms(2))+

lemma renderer_own_command:
  assumes "t \<in> renderer_commands" and "xa_renderer_cmd (renderer_class P off n) t = Some f"
  shows "f \<in> {xa_renderer_empty_this_buffer, xa_renderer_fill_this_buffer, xa_renderer_flush, xa_renderer_port_route,
    xa_renderer_port_unroute P}"
  using assms by (auto simp: renderer_commands_def xa_renderer_cmd_def renderer_class_def renderer_methods_def opcode_types)

lemma command_keeps_fields:
  assumes "plugin_ignores_fields P" and "t \<in> renderer_commands" and "xa_renderer_cmd (renderer_class P off n) t = Some f"
    and "\<not> rd_terminating s" and "m \<noteq> rd_msg s" and "f m s = Some (s', e)"
  shows "msg_fields (rd_msg s) (isr_pending s) False s' \<or> spoils s s'"
proof -
  let ?Q = "msg_fields (rd_msg s) (isr_pending s) False"
  have P: "plugin_keeps ?Q P"
    using assms(1) by (simp add: plugin_keeps_def plugin_ignores_fields_def plugin_ignores_message_def msg_fields_def)
  have s: "?Q s" using assms(4) by (simp add: msg_fields_def)
  show ?thesis
  proof (cases "f = xa_renderer_fill_this_buffer")
    case True
    show ?thesis
    proof (cases "has XA_BASE_FLAG_RUNTIME_INIT s \<and> XF_MSG_DST_PORT (m_id (msg s m)) = 1 \<and> isr_pending s")
      case False
      then have "gives ?Q (xa_renderer_fill_this_buffer m s)" by (intro fill_fields [OF s assms(5)]) blast
      then show ?thesis using assms(6) True by (blast dest: givesD)
    next
      case pend: True
      then show ?thesis using assms(5,6) True by (auto simp: spoils_def)
    qed
  next
    case False
    then have "gives ?Q (f m s)" using renderer_own_command [OF assms(2,3)] command_fields [OF P s] by auto
    then show ?thesis using assms(6) by (blast dest: givesD)
  qed
qed

lemma callback_unfold:
  "xa_renderer_callback s =
     (let s' = s\<lparr>rd_schedule := rd_schedule s OR 1\<rparr> in if isr_pending s then s' else xf_msg_schedule_isr (rd_msg s) s')"
  "isr_pending (s\<lparr>rd_schedule := rd_schedule s OR 1\<rparr>)" "core_messages (s\<lparr>rd_schedule := v\<rparr>) ms = core_messages s ms"
  by (simp_all add: xa_renderer_callback_def xf_atomic_test_and_set_def isr_pending_def core_messages_def bit.conj_disj_distrib2 Let_def)

subsection \<open>The cleanup\<close>

lemma cancel_pending [gives]:
  "isr_pending s \<and> rd_msg s = a \<Longrightarrow> gives_state (\<lambda>s. isr_pending s \<and> rd_msg s = a) (xa_base_cancel s)"
  "isr_pending s \<and> rd_msg s = a \<Longrightarrow> gives_state (\<lambda>s. isr_pending s \<and> rd_msg s = a) (rd_input_purge s)"
  unfolding xa_base_cancel_def rd_input_purge_def Let_def
  by (intro gives gives_bind_free; simp add: on_core_def isr_pending_def rd_put_input_def with_io_def)+

text \<open>With a message on its way the renderer is not destroyed: it waits for the message.\<close>

definition waits_for_message :: "addr \<Rightarrow> addr \<Rightarrow> renderer \<times> int \<Rightarrow> bool" where
  "waits_for_message a m = (\<lambda>(s, e). e = 1 \<and> rd_terminating s \<and> rd_response s = m \<and> rd_msg s = a \<and> \<not> isr_pending s)"

lemma cleanup_waits:
  assumes "plugin_ignores_message P" and "isr_pending s" and "xa_renderer_cleanup P sz m s = Some r"
  shows "waits_for_message (rd_msg s) m r"
proof -
  let ?Q = "\<lambda>t. isr_pending t \<and> rd_msg t = rd_msg s"
  obtain t where t: "xa_base_cancel s = Some t" using assms(3) by (auto simp: xa_renderer_cleanup_def bind_eq_Some_conv)
  then have "?Q t" using cancel_pending(1) [of s "rd_msg s"] assms(2) by (auto dest: givesD)
  moreover obtain u e where u: "XA_API_NORET P XA_API_CMD_SET_CONFIG_PARAM XA_RENDERER_CONFIG_PARAM_STATE (Local XA_RENDERER_STATE_IDLE) t = (u, e)"
    by (metis surj_pair)
  moreover have "u = fst (P XA_API_CMD_SET_CONFIG_PARAM XA_RENDERER_CONFIG_PARAM_STATE (Local XA_RENDERER_STATE_IDLE) t)"
    using u by (auto simp: XA_API_NORET_def split: prod.splits)
  ultimately have "?Q u" using assms(1) by (simp add: plugin_ignores_message_def)
  moreover obtain v where v: "rd_input_purge u = Some v"
    using assms(3) t u by (auto simp: xa_renderer_cleanup_def bind_eq_Some_conv)
  ultimately have "?Q v" using cancel_pending(2) [of u "rd_msg s"] by (auto dest: givesD)
  then show ?thesis using assms(3) t u v
    by (auto simp: xa_renderer_cleanup_def xf_atomic_test_and_clear_def isr_pending_def waits_for_message_def and.assoc)
qed

text \<open>Without the message under way the renderer is destroyed at once.\<close>

lemma cleanup_at_once:
  assumes "plugin_ignores_message P" and "\<not> isr_pending s" and "xa_renderer_cleanup P sz m s = Some (s', e)"
  shows "e = 0"
proof -
  let ?Q = "\<lambda>t. \<not> isr_pending t"
  obtain t where t: "xa_base_cancel s = Some t" using assms(3) by (auto simp: xa_renderer_cleanup_def bind_eq_Some_conv)
  then have "?Q t" using msg_fields_ops(2) [of "rd_msg s" False "rd_terminating s" s] assms(2)
    by (auto simp: msg_fields_def dest: givesD)
  moreover obtain u e' where u: "XA_API_NORET P XA_API_CMD_SET_CONFIG_PARAM XA_RENDERER_CONFIG_PARAM_STATE (Local XA_RENDERER_STATE_IDLE) t = (u, e')"
    by (metis surj_pair)
  moreover have "u = fst (P XA_API_CMD_SET_CONFIG_PARAM XA_RENDERER_CONFIG_PARAM_STATE (Local XA_RENDERER_STATE_IDLE) t)"
    using u by (auto simp: XA_API_NORET_def split: prod.splits)
  ultimately have "?Q u" using assms(1) by (simp add: plugin_ignores_message_def)
  moreover obtain v where v: "rd_input_purge u = Some v"
    using assms(3) t u by (auto simp: xa_renderer_cleanup_def bind_eq_Some_conv)
  ultimately have "?Q v" using msg_fields_ops(3) [of "rd_msg u" False "rd_terminating u" u]
    by (auto simp: msg_fields_def dest: givesD)
  then show ?thesis using assms(3) t u v
    by (auto simp: xa_renderer_cleanup_def xf_atomic_test_and_clear_def isr_pending_def xa_renderer_destroy_def
        bind_eq_Some_conv Let_def and.assoc split: if_splits)
qed

subsection \<open>The invariant\<close>

lemma interrupt_inv:
  assumes "device_inv (s, held)" and "\<not> rd_terminating s"
  shows "device_inv (xa_renderer_callback s, held)"
proof -
  obtain ms where ms: "rd_msg s \<noteq> NULL" "core_messages s ms" "held \<longrightarrow> rd_msg s \<notin> set ms"
    "isr_pending s \<longleftrightarrow> held \<or> rd_msg s \<in> set ms" using assms by (auto simp: device_inv_def)
  show ?thesis
  proof (cases "isr_pending s")
    case True
    then show ?thesis using assms(2) ms by (auto simp: callback_unfold device_inv_def)
  next
    case False
    let ?t = "s\<lparr>rd_schedule := rd_schedule s OR 1\<rparr>"
    have "core_messages (xf_msg_schedule_isr (rd_msg s) ?t) (ms @ [rd_msg s])"
      using ms False by (intro schedule_isr_queue) (simp_all add: callback_unfold)
    then show ?thesis using ms(1) False ms(4) assms(2) by (auto simp: callback_unfold device_inv_def)
  qed
qed

lemma take_inv:
  assumes "device_inv (s, False)" and "core_take s = (s', m)" and "m \<noteq> NULL"
  shows "device_inv (s', m = rd_msg s)"
proof -
  obtain ms where ms: "core_messages s ms" "rd_msg s \<noteq> NULL"
    "if rd_terminating s then \<not> isr_pending s \<and> rd_msg s \<in> set ms else isr_pending s \<longleftrightarrow> rd_msg s \<in> set ms"
    using assms(1) by (auto simp: device_inv_def split: if_splits)
  have "ms \<noteq> []" using dequeue_rel(1) [of "c_msg (b_core s)" "c_queue (b_core s)" ms] ms(1) assms(2,3)
    by (auto simp: core_messages_def core_take_def)
  then obtain n ns where n: "ms = n # ns" by (cases ms) auto
  then have "core_messages s' ns" "n = m" using core_take_queue [of s n ns] ms(1) assms(2) by auto
  moreover have "distinct ms" using ms(1) by (simp add: core_messages_def msg_queue_rel_def)
  ultimately have "core_messages s' ns" "rd_msg s = m \<longrightarrow> rd_msg s \<notin> set ns" "rd_msg s \<in> set ms \<longleftrightarrow> m = rd_msg s \<or> rd_msg s \<in> set ns"
    using n by auto
  moreover have "rd_msg s' = rd_msg s" "isr_pending s' = isr_pending s" "rd_terminating s' = rd_terminating s"
    using core_take_fields [OF assms(2)] by simp_all
  ultimately show ?thesis using ms(2,3) by (simp add: device_inv_def split: if_splits) blast+
qed

lemma cleanup_inv:
  assumes "plugin_ignores_message P" and "device_inv (s, False)" and "\<not> rd_terminating s"
    and "xa_renderer_cleanup P sz m s = Some (s', 1)" and "core_messages s ms" and "core_messages s' ms"
  shows "device_inv (s', False)"
proof -
  have "isr_pending s"
  proof (rule ccontr)
    assume "\<not> isr_pending s"
    from cleanup_at_once [OF assms(1) this assms(4)] show False by simp
  qed
  note w = cleanup_waits [OF assms(1) this assms(4)]
  have "rd_msg s \<in> set ms" using assms(2,3) \<open>isr_pending s\<close> core_messages_unique [OF assms(5)]
    by (auto simp: device_inv_def)
  with w assms(2,6) show ?thesis by (auto simp: waits_for_message_def device_inv_def)
qed

lemma same_inv:
  assumes "device_inv (s, held)" and "core_messages s ms" and "core_messages s' ms'" and "rd_msg s \<in> set ms' \<longleftrightarrow> rd_msg s \<in> set ms"
    and "msg_fields (rd_msg s) (isr_pending s) (rd_terminating s) s'"
  shows "device_inv (s', held)"
proof -
  obtain ns where "core_messages s ns" and inv: "rd_msg s \<noteq> NULL" "held \<longrightarrow> rd_msg s \<notin> set ns"
    "if rd_terminating s then \<not> isr_pending s \<and> (held \<or> rd_msg s \<in> set ns) else isr_pending s \<longleftrightarrow> held \<or> rd_msg s \<in> set ns"
    using assms(1) unfolding device_inv_def prod.case by blast
  then have "ns = ms" using core_messages_unique [OF assms(2)] by simp
  moreover have "rd_msg s' = rd_msg s" "isr_pending s' = isr_pending s" "rd_terminating s' = rd_terminating s"
    using assms(5) by (simp_all add: msg_fields_def)
  ultimately show ?thesis using inv assms(3,4) unfolding device_inv_def prod.case
    by (intro conjI exI [of _ ms']) (simp_all split: if_splits)
qed

lemma device_step_inv:
  assumes "plugin_ignores_fields P" and "device_step P (s, held) (s', held')" and "device_inv (s, held)"
  shows "device_inv (s', held') \<or> spoils s s'"
  using assms(2)
proof cases
  case interrupt
  then show ?thesis using interrupt_inv [of s held] assms(3) by (auto simp: spoils_def)
next
  case (take_message m)
  then show ?thesis using take_inv [of s s' m] assms(3) by simp
next
  case (handle e)
  have "handled s s'" using handle_message handle(4) by (rule givesD)
  then show ?thesis using assms(3) handle(1-3) by (auto simp: device_inv_def handled_def core_messages_def)
next
  case (command t off n f m e ms)
  have "msg_fields (rd_msg s) (isr_pending s) False s' \<or> spoils s s'"
    by (rule command_keeps_fields [OF assms(1) command(3-7)])
  then show ?thesis
  proof
    assume "msg_fields (rd_msg s) (isr_pending s) False s'"
    then show ?thesis using same_inv [OF _ command(8,9) refl, of held'] assms(3) command(1,2,5) by simp
  qed simp
next
  case (cleanup sz m ms)
  have P: "plugin_ignores_message P" using assms(1) by (simp add: plugin_ignores_fields_def)
  from cleanup_inv [OF P _ cleanup(3-6)] show ?thesis using assms(3) cleanup(1,2) by simp
next
  case (other ms ms')
  have "msg_fields (rd_msg s) (isr_pending s) (rd_terminating s) s'"
    using other(2-4) by (simp add: msg_fields_def isr_pending_def)
  from same_inv [OF _ other(5,6,7) this] show ?thesis using assms(3) other(1) by simp
qed

text \<open>The steps that do not spoil it.\<close>

definition kept_step :: "renderer plugin \<Rightarrow> renderer \<times> bool \<Rightarrow> renderer \<times> bool \<Rightarrow> bool" where
  "kept_step P x y \<longleftrightarrow> device_step P x y \<and> \<not> spoils (fst x) (fst y)"

lemma kept_steps_inv:
  assumes "(kept_step P)\<^sup>*\<^sup>* x y" and "plugin_ignores_fields P" and "device_inv x"
  shows "device_inv y"
  using assms(1)
proof (induction rule: rtranclp_induct)
  case (step y z)
  then have "device_step P (fst y, snd y) (fst z, snd z)" "\<not> spoils (fst y) (fst z)" by (simp_all add: kept_step_def)
  then show ?case using device_step_inv [OF assms(2)] step.IH by fastforce
qed (rule assms(3))

text \<open>
  What a spoiled flag does: the second time the message is put in front of others, its link is reset and the
  others are lost.
\<close>

lemma enqueue_again:
  assumes "msg_queue_rel h q (m # ms)" and "ms \<noteq> []"
  shows "\<exists>h' q'. xf_msg_enqueue h q m = (h', q', False) \<and> msg_queue_rel h' q' [m]"
proof -
  have "q_tail q \<in> set ms" "m \<notin> set ms" "q_head q = m" "m \<noteq> NULL"
    using assms by (auto simp: msg_queue_rel_def)
  then show ?thesis by (auto simp: xf_msg_enqueue_def msg_queue_rel_def Let_def)
qed

lemma init_fill_loses_messages:
  assumes "has XA_BASE_FLAG_RUNTIME_INIT s" and "m \<noteq> rd_msg s" and "XF_MSG_DST_PORT (m_id (msg s m)) = 1"
    and "xa_renderer_fill_this_buffer m s = Some (s', e)" and "core_messages s' (rd_msg s' # ms)" and "ms \<noteq> []"
  shows "core_messages (xa_renderer_callback s') [rd_msg s']"
proof -
  have "gives (\<lambda>t. \<not> isr_pending t) (xa_renderer_fill_this_buffer m s)"
  proof -
    have "\<not> isr_pending (t\<lparr>rd_schedule := xf_atomic_clear (rd_schedule t) 1\<rparr>)" for t
      by (simp add: isr_pending_def xf_atomic_clear_def and.assoc)
    then have "msg_fields (rd_msg s) False (rd_terminating s) (rd_output_put m s\<lparr>rd_schedule := xf_atomic_clear (rd_schedule (rd_output_put m s)) 1\<rparr>)"
      by (simp add: msg_fields_def rd_output_put_def rd_put_output_def with_io_def split: prod.splits)
    then have "gives (msg_fields (rd_msg s) False (rd_terminating s)) (rd_output_ready (rd_output_put m s))"
      unfolding rd_output_ready_def Let_def by (intro gives; simp)
    then have "gives (\<lambda>t. \<not> isr_pending t) (rd_output_ready (rd_output_put m s))" by (auto simp: gives_def msg_fields_def)
    then show ?thesis using assms(1-3) by (simp add: xa_renderer_fill_this_buffer_def)
  qed
  then have "\<not> isr_pending s'" using assms(4) by (rule givesD)
  then show ?thesis using enqueue_again [of "c_msg (b_core s')" "c_queue (b_core s')" "rd_msg s'" ms] assms(5,6)
    by (auto simp: callback_unfold core_messages_def xf_msg_schedule_isr_def on_core_def xf_ipi_resume_dsp_def Let_def)
qed

section \<open>The cleanup of a capturer\<close>

text \<open>A capturer does not look at the flag.\<close>

lemma capturer_cleanup_destroys:
  assumes "\<not> xf_output_port_routed (cp_output s)" and "\<not> has XA_BASE_FLAG_SCHEDULE s"
    and "msg_queue_rel (c_msg (b_core s)) (op_queue (cp_output s)) outs"
    and "core_messages s ms" and "set ms \<inter> set outs = {}"
    and "P XA_API_CMD_SET_CONFIG_PARAM XA_CAPTURER_CONFIG_PARAM_STATE (Local XA_CAPTURER_STATE_IDLE) s = (s, 0, 0)"
  shows "\<exists>t. xa_capturer_cleanup P sz m s = xa_capturer_destroy sz t \<and> core_messages t ms \<and> cp_msg t = cp_msg s \<and>
    cp_schedule t = cp_schedule s \<and> cp_response t = m"
proof -
  have "msg_queue_rel (io_msg (io_of s)) (op_queue (cp_output s)) outs" using assms(3) by (simp add: io_of_def)
  from flush_unrouted [OF assms(1) this] obtain i q where
    flush: "xf_output_port_flush (io_of s) (cp_output s) XF_FLUSH = Some (i, (cp_output s)\<lparr>op_queue := q\<rparr>, True)"
    "\<forall>x. x \<notin> set outs \<longrightarrow> io_msg i x = io_msg (io_of s) x" by blast
  let ?t = "cp_put_output i ((cp_output s)\<lparr>op_queue := q\<rparr>) (s\<lparr>cp_response := m\<rparr>)"
  have io: "io_of (s\<lparr>cp_response := m\<rparr>) = io_of s" by (simp add: io_of_def)
  have "xa_capturer_cleanup P sz m s = xa_capturer_destroy sz ?t"
    using assms(2,6) flush(1) by (simp add: xa_capturer_cleanup_def XA_API_NORET_def xa_base_cancel_def cp_output_flush_def io)
  moreover have "core_messages ?t ms"
  proof -
    have "msg_queue_rel (io_msg i) (c_queue (b_core s)) ms"
      by (rule queue_rel_frame [OF assms(4) [unfolded core_messages_def]])
        (use assms(5) flush(2) in \<open>simp add: io_of_def disjoint_iff\<close>)
    then show ?thesis by (simp add: core_messages_def cp_put_output_def with_io_def)
  qed
  moreover have "cp_msg ?t = cp_msg s" "cp_schedule ?t = cp_schedule s" "cp_response ?t = m"
    by (simp_all add: cp_put_output_def with_io_def)
  ultimately show ?thesis by blast
qed

section \<open>Properties\<close>

text \<open>
  A renderer and a capturer on the component at address 7, with the message of the interrupt handler at
  address 256; the queue of the core is empty, and the output port is not connected.
\<close>

definition demo_renderer :: "u32 \<Rightarrow> renderer" where
  "demo_renderer v = base.extend demo_base
     (renderer.fields (demo_in\<lparr>ip_queue := xf_msg_queue_init\<rparr>) 0 demo_out 1 256 0 0 v NULL False)"

definition demo_capturer :: capturer where
  "demo_capturer = base.extend demo_base (capturer.fields demo_out 256 0 0 0 NULL False)"

lemma demo_renderer_simps [simp]:
  "rd_msg (demo_renderer v) = 256" "rd_schedule (demo_renderer v) = v" "b_core (demo_renderer v) = b_core demo_base"
  "b_state (demo_renderer v) = 0" "rd_input (demo_renderer v) = demo_in\<lparr>ip_queue := xf_msg_queue_init\<rparr>"
  by (simp_all add: demo_renderer_def renderer.defs base.defs demo_base_def)

lemma demo_queue: "core_messages (demo_renderer v) []"
  by (simp add: core_messages_def demo_base_def demo_core_def)

text \<open>
  C12. The message of a renderer's interrupt handler: from a state in which it is not under way, however
  interrupts, the service loop, the commands of clients, the cleanup and the rest of the core interleave, the
  queue of the core is well-formed, the message is in it at most once and never while it is being
  handled, and the flag of the handler is set exactly while the message waits or is handled; after a
  cleanup that waits for it the flag is clear and the message is still to come. Two steps are excluded, as
  both would let the handler send the message while it is under way (\<open>spoils\<close>): a buffer of a client that
  comes during the run-time initialisation, which clears the flag as if it were the message
  (\<open>init_fill_loses_messages\<close> shows the damage), and an interrupt after the cleanup has stopped the device.
\<close>

theorem interrupt_message_once:
  assumes "(kept_step P)\<^sup>*\<^sup>* (s, False) (s', held)" and "plugin_ignores_fields P" and "rd_msg s \<noteq> NULL" and "core_messages s ms"
    and "rd_msg s \<notin> set ms" and "\<not> isr_pending s" and "\<not> rd_terminating s"
  shows "\<exists>ms'. core_messages s' ms' \<and> distinct ms' \<and> (held \<longrightarrow> rd_msg s' \<notin> set ms') \<and>
    (if rd_terminating s' then \<not> isr_pending s' \<and> (held \<or> rd_msg s' \<in> set ms')
     else isr_pending s' \<longleftrightarrow> held \<or> rd_msg s' \<in> set ms')"
proof -
  have "device_inv (s, False)" using assms by (auto simp: device_inv_def)
  from kept_steps_inv [OF assms(1,2) this] show ?thesis
    unfolding device_inv_def prod.case core_messages_def msg_queue_rel_def by blast
qed

theorem interrupt_message_once_witness:
  "\<exists>s' ms'. (kept_step (\<lambda>_ _ _ s. (s, 0, 0)))\<^sup>*\<^sup>* (demo_renderer 0, False) (s', False) \<and> core_messages s' ms' \<and> distinct ms' \<and>
    256 \<in> set ms' \<and> s' = xa_renderer_callback (xa_renderer_callback (demo_renderer 0))"
proof -
  let ?P = "\<lambda>_ _ _ s. (s, 0, 0) :: renderer \<times> int \<times> u32"
  let ?s = "xa_renderer_callback (xa_renderer_callback (demo_renderer 0))"
  have fields: "\<not> has XA_BASE_FLAG_RUNTIME_INIT s \<and> \<not> rd_terminating s \<Longrightarrow>
      \<not> has XA_BASE_FLAG_RUNTIME_INIT (xa_renderer_callback s) \<and> \<not> rd_terminating (xa_renderer_callback s)" for s
    by (simp add: xa_renderer_callback_def xf_atomic_test_and_set_def xf_msg_schedule_isr_def on_core_def has_def Let_def)
  then have "kept_step ?P (s, False) (xa_renderer_callback s, False)"
    if "\<not> has XA_BASE_FLAG_RUNTIME_INIT s \<and> \<not> rd_terminating s" for s
    using that by (auto simp: kept_step_def spoils_def device_step.interrupt)
  moreover have start: "\<not> has XA_BASE_FLAG_RUNTIME_INIT (demo_renderer 0) \<and> \<not> rd_terminating (demo_renderer 0)"
    by (simp add: has_def demo_renderer_def renderer.defs base.defs demo_base_def)
  ultimately have steps: "(kept_step ?P)\<^sup>*\<^sup>* (demo_renderer 0, False) (?s, False)"
    using fields [OF start] by (blast intro: r_into_rtranclp rtranclp_trans)
  have s: "isr_pending ?s" "rd_msg ?s = 256" "\<not> rd_terminating ?s"
    using fields [OF fields [OF start]]
    by (simp_all add: xa_renderer_callback_def xf_atomic_test_and_set_def xf_msg_schedule_isr_def on_core_def isr_pending_def Let_def)
  have "plugin_ignores_fields ?P" by (simp add: plugin_ignores_fields_def plugin_ignores_message_def)
  from interrupt_message_once [OF steps this _ demo_queue] start obtain ms where
    "core_messages ?s ms" "distinct ms" "isr_pending ?s \<longleftrightarrow> False \<or> rd_msg ?s \<in> set ms"
    using s(3) by (auto simp: isr_pending_def)
  with steps s show ?thesis by auto
qed

text \<open>
  C23. Cleanup of a renderer whose message is still under way: the renderer is not destroyed; it asks for
  a second stage, keeps the command to answer, and the message, when it arrives, unregisters it.
\<close>

theorem renderer_cleanup_waits:
  assumes "plugin_ignores_message P" and "isr_pending s" and "rd_msg s \<noteq> NULL"
    and "xa_renderer_cleanup P sz m s = Some (s', e)"
  shows "e = 1 \<and> rd_terminating s' \<and> rd_response s' = m \<and>
    renderer_entry K (rd_msg s) s' = Some (s', XAF_UNREGISTER)"
  using cleanup_waits [OF assms(1,2,4)] assms(3)
  by (auto simp: waits_for_message_def renderer_entry_def xa_renderer_terminate_def)

theorem renderer_cleanup_waits_witness:
  "\<exists>s'. xa_renderer_cleanup (\<lambda>_ _ _ s. (s, 0, 0)) 64 192 (demo_renderer 1) = Some (s', 1) \<and> rd_terminating s' \<and>
    renderer_entry (renderer_class (\<lambda>_ _ _ s. (s, 0, 0)) 64 64) 256 s' = Some (s', XAF_UNREGISTER)"
proof -
  let ?P = "\<lambda>_ _ _ s. (s, 0, 0) :: renderer \<times> int \<times> u32"
  have "xf_input_port_created (rd_input (demo_renderer 1))"
    by (simp add: xf_input_port_created_def demo_in_def XF_INPUT_FLAG_CREATED_def)
  then have "\<exists>s' e. xa_renderer_cleanup ?P 64 192 (demo_renderer 1) = Some (s', e)"
    by (simp add: xa_renderer_cleanup_def xa_base_cancel_def has_def XA_API_NORET_def rd_input_purge_def purge_empty
        rd_put_input_def with_io_def xf_atomic_test_and_clear_def)
  then obtain s' e where run: "xa_renderer_cleanup ?P 64 192 (demo_renderer 1) = Some (s', e)" by blast
  have "e = 1 \<and> rd_terminating s' \<and> rd_response s' = 192 \<and>
      renderer_entry (renderer_class ?P 64 64) (rd_msg (demo_renderer 1)) s' = Some (s', XAF_UNREGISTER)"
    by (rule renderer_cleanup_waits [OF _ _ _ run]) (simp_all add: plugin_ignores_message_def isr_pending_def)
  with run show ?thesis by auto
qed

text \<open>
  C40. Cleanup of a capturer whose message is still under way, with an output port that is not
  connected: the capturer is destroyed at once, although the queue of the core still holds its message,
  which is a part of its memory, and the flag of its interrupt handler is still set.
\<close>

theorem capturer_frees_pending:
  assumes "\<not> xf_output_port_routed (cp_output s)" and "\<not> has XA_BASE_FLAG_SCHEDULE s"
    and "msg_queue_rel (c_msg (b_core s)) (op_queue (cp_output s)) outs"
    and "core_messages s ms" and "set ms \<inter> set outs = {}" and "cp_msg s \<in> set ms" and "cp_schedule s AND 1 \<noteq> 0"
    and "P XA_API_CMD_SET_CONFIG_PARAM XA_CAPTURER_CONFIG_PARAM_STATE (Local XA_CAPTURER_STATE_IDLE) s = (s, 0, 0)"
  shows "\<exists>t. xa_capturer_cleanup P sz m s = xa_capturer_destroy sz t \<and> core_messages t ms \<and>
    cp_msg t \<in> set ms \<and> cp_schedule t AND 1 \<noteq> 0"
  using capturer_cleanup_destroys [where P = P and sz = sz and m = m, OF assms(1-5,8)] assms(6,7) by force

theorem capturer_frees_pending_witness:
  "\<exists>t. xa_capturer_cleanup (\<lambda>_ _ _ s. (s, 0, 0)) 64 192 (xa_capturer_callback demo_capturer) = xa_capturer_destroy 64 t \<and>
    core_messages t [256] \<and> cp_msg t \<in> set [256 :: addr] \<and> cp_schedule t AND 1 \<noteq> 0"
proof -
  let ?s = "xa_capturer_callback demo_capturer"
  let ?t = "demo_capturer\<lparr>cp_schedule := 1\<rparr>"
  have d: "cp_msg ?t = 256" "cp_output ?t = demo_out" "b_state ?t = 0" "b_core ?t = b_core demo_base" "cp_schedule demo_capturer = 0"
    "cp_msg demo_capturer = 256"
    by (simp_all add: demo_capturer_def capturer.defs base.defs demo_base_def)
  then have s: "?s = xf_msg_schedule_isr 256 ?t" by (simp add: xa_capturer_callback_def xf_atomic_test_and_set_def)
  have "core_messages ?t []" using d(4) by (simp add: core_messages_def demo_base_def demo_core_def)
  from schedule_isr_queue [OF this, of 256] have "core_messages ?s [256]" by (simp add: s)
  moreover have "cp_output ?s = demo_out" "\<not> has XA_BASE_FLAG_SCHEDULE ?s" "cp_msg ?s = 256" "cp_schedule ?s = 1"
    unfolding s using d by (simp_all add: xf_msg_schedule_isr_def on_core_def has_def)
  ultimately show ?thesis using demo_ports(2,4)
    by (intro capturer_frees_pending [where outs = "[]"]) simp_all
qed

end
