(* ===== verification/Driver.thy ===== *)
theory Driver
  imports Shmem
begin

text \<open>
  The host end of the rings in shared memory: the proxy of the kernel driver
  (\<^verbatim>\<open>xf_kernel_driver/src/xf-proxy.c\<close>, \<^verbatim>\<open>xf-opcode.h\<close>, \<^verbatim>\<open>sys/xt-shmem/xf-shmem.h\<close>), for a kernel with 32-bit
  pointers and one core. The functions that touch shared memory take the state of the core as well,
  whose record holds that memory. Messages of the driver live in a heap of their own. \<^verbatim>\<open>None\<close> is a wait for an
  event, or \<^verbatim>\<open>BUG_ON\<close>; one call is one step, as the lock of the proxy makes it. Kernel threads, the registers of
  the handshake, mapping of memory, the synchronous commands and the registration of the device are left out.
\<close>

section \<open>State\<close>

text \<open>\<open>cl_bound\<close> says that the client refers to the proxy; \<open>dr_map\<close> is an array of unions of a free list and pointers.\<close>

record client =
  cl_bound :: bool
  cl_id :: u64
  cl_queue :: msg_queue

record driver =
  dr_msg :: msg_heap
  dr_command :: msg_queue
  dr_response :: msg_queue
  dr_free :: addr
  dr_map :: "u64 \<Rightarrow> u32"
  dr_client :: "addr \<Rightarrow> client"
  dr_buffer :: addr
  dr_work :: bool
  dr_asserted :: bool
  dr_sync_from_dsp :: bool
  dr_sync_to_dsp :: bool

definition XF_CFG_MAX_IPC_CLIENTS :: u32 where "XF_CFG_MAX_IPC_CLIENTS = 2"
definition XF_CFG_MAX_CORES :: u32 where "XF_CFG_MAX_CORES = 1"
definition DRV_MESSAGE_POOL_SIZE :: nat where "DRV_MESSAGE_POOL_SIZE = 256"

definition EPERM :: int where "EPERM = 1"
definition EBADF :: int where "EBADF = 9"
definition EAGAIN :: int where "EAGAIN = 11"
definition ENOMEM :: int where "ENOMEM = 12"
definition EFAULT :: int where "EFAULT = 14"
definition EBUSY :: int where "EBUSY = 16"
definition EINVAL :: int where "EINVAL = 22"
definition ENOIOCTLCMD :: int where "ENOIOCTLCMD = 515"
definition sizeof_proxy_msg :: nat where "sizeof_proxy_msg = 24"

text \<open>The number of the client of the driver in an identifier, in its source and in its destination.\<close>

definition XF_MSG_AP_FROM_USER :: "u64 \<Rightarrow> u64 \<Rightarrow> u64" where
  "XF_MSG_AP_FROM_USER i c = (i AND NOT (push_bit 8 (push_bit 4 1 - 1))) OR push_bit 8 c"

definition XF_MSG_AP_TO_USER :: "u64 \<Rightarrow> u64" where
  "XF_MSG_AP_TO_USER i = i AND NOT (push_bit (8 + 32) (push_bit 4 1 - 1))"

definition XF_AP_IPC_CLIENT :: "u64 \<Rightarrow> u32" where
  "XF_AP_IPC_CLIENT i = ucast (drop_bit (32 + 8) i AND (push_bit 4 1 - 1))"

section \<open>Addresses\<close>

definition drv_b2a :: "driver \<Rightarrow> addr \<Rightarrow> u32" where
  "drv_b2a d b =
     (if b = NULL then XF_PROXY_NULL
      else if b - dr_buffer d < XF_CFG_REMOTE_IPC_POOL_SIZE then b - dr_buffer d
      else XF_PROXY_BADADDR)"

definition drv_a2b :: "driver \<Rightarrow> u32 \<Rightarrow> addr" where
  "drv_a2b d address =
     (if address < XF_CFG_REMOTE_IPC_POOL_SIZE then dr_buffer d + address
      else if address = XF_PROXY_NULL then NULL
      else NOT 0)"

section \<open>Clients\<close>

text \<open>\<open>a\<close> is the result of \<^verbatim>\<open>kmalloc\<close>.\<close>

definition drv_client_alloc :: "addr \<Rightarrow> driver \<Rightarrow> driver \<times> (int + addr)" where
  "drv_client_alloc a d =
     (let i = ucast (dr_map d 0) :: u64 in
      if i \<noteq> 0 then
        if a = NULL then (d, Inl (- ENOMEM))
        else
          let d = d\<lparr>dr_map := (dr_map d)(0 := dr_map d i)\<rparr>;
              d = d\<lparr>dr_map := (dr_map d)(i := a)\<rparr>
          in (d\<lparr>dr_client := (dr_client d)(a := (dr_client d a)\<lparr>cl_bound := False, cl_id := i\<rparr>)\<rparr>, Inr a)
      else (d, Inl (- EBUSY)))"

definition drv_client_free :: "addr \<Rightarrow> driver \<Rightarrow> driver" where
  "drv_client_free c d =
     (let i = cl_id (dr_client d c);
          d = d\<lparr>dr_map := (dr_map d)(i := dr_map d 0)\<rparr>
      in d\<lparr>dr_map := (dr_map d)(0 := ucast i)\<rparr>)"

definition drv_client_lookup :: "u64 \<Rightarrow> driver \<Rightarrow> addr" where
  "drv_client_lookup i d =
     (if i \<ge> ucast XF_CFG_MAX_IPC_CLIENTS \<or> dr_map d i < XF_CFG_MAX_IPC_CLIENTS then NULL else dr_map d i)"

section \<open>Messages\<close>

definition drv_msg_alloc :: "driver \<Rightarrow> driver \<times> addr" where
  "drv_msg_alloc d =
     (let m = dr_free d in
      (if m \<noteq> NULL then d\<lparr>dr_free := m_next (dr_msg d m), dr_msg := (dr_msg d)(m := (dr_msg d m)\<lparr>m_next := NULL\<rparr>)\<rparr> else d, m))"

definition drv_msg_dequeue :: "msg_heap \<Rightarrow> msg_queue \<Rightarrow> msg_queue \<times> addr" where
  "drv_msg_dequeue h q =
     (let m = q_head q in
      if m \<noteq> NULL then
        let q = q\<lparr>q_head := m_next (h m)\<rparr> in (if q_head q = NULL then q\<lparr>q_tail := NULL\<rparr> else q, m)
      else (q, m))"

definition drv_msg_free :: "addr \<Rightarrow> driver \<Rightarrow> driver" where
  "drv_msg_free m d = d\<lparr>dr_msg := (dr_msg d)(m := (dr_msg d m)\<lparr>m_next := dr_free d\<rparr>), dr_free := m\<rparr>"

definition drv_msg_free_all :: "addr \<Rightarrow> driver \<Rightarrow> driver" where
  "drv_msg_free_all c d =
     (let q = cl_queue (dr_client d c) in
      if q_head q \<noteq> NULL then
        d\<lparr>dr_msg := (dr_msg d)(q_tail q := (dr_msg d (q_tail q))\<lparr>m_next := dr_free d\<rparr>), dr_free := q_head q,
          dr_client := (dr_client d)(c := (dr_client d c)\<lparr>cl_queue := xf_msg_queue_init\<rparr>)\<rparr>
      else d)"

definition drv_put_command :: "addr \<Rightarrow> driver \<Rightarrow> driver \<times> bool" where
  "drv_put_command m d =
     (let (h, q, first) = xf_msg_enqueue (dr_msg d) (dr_command d) m in (d\<lparr>dr_msg := h, dr_command := q\<rparr>, first))"

definition xf_cmap :: "addr \<Rightarrow> driver \<Rightarrow> driver" where
  "xf_cmap m d =
     (let i = ucast (XF_AP_IPC_CLIENT (m_id (dr_msg d m))) :: u64 in
      if i = 0 then
        let (h, q, _) = xf_msg_enqueue (dr_msg d) (dr_response d) m in d\<lparr>dr_msg := h, dr_response := q\<rparr>
      else
        let c = drv_client_lookup i d in
        if c = NULL then drv_msg_free m d
        else if \<not> cl_bound (dr_client d c) then drv_msg_free m d
        else
          let (h, q, _) = xf_msg_enqueue (dr_msg d) (cl_queue (dr_client d c)) m
          in d\<lparr>dr_msg := h, dr_client := (dr_client d)(c := (dr_client d c)\<lparr>cl_queue := q\<rparr>)\<rparr>)"

section \<open>The rings\<close>

definition command_of :: "driver \<Rightarrow> xf_message \<Rightarrow> proxy_message \<Rightarrow> proxy_message" where
  "command_of d m c = c\<lparr>pm_session_id := m_id m, pm_opcode := m_opcode m, pm_length := m_length m,
     pm_address := drv_b2a d (m_buffer m)\<rparr>"

text \<open>The loop that puts pending commands into the ring; the field \<open>error\<close> of an entry is not written.\<close>

partial_function (option) drv_commands_loop :: "u32 \<Rightarrow> u32 \<Rightarrow> u32 \<Rightarrow> driver \<Rightarrow> core \<Rightarrow> (driver \<times> core \<times> u32) option" where
  "drv_commands_loop status read_idx write_idx d s =
     (if XF_QUEUE_FULL read_idx write_idx then Some (d, s, status)
      else case drv_msg_dequeue (dr_msg d) (dr_command d) of (q, m) \<Rightarrow>
        let d = d\<lparr>dr_command := q\<rparr> in
        if m = NULL then Some (d, s, status)
        else
          let status = status OR 3;
              i = XF_QUEUE_IDX write_idx;
              s = s\<lparr>c_command := (c_command s)(i := command_of d (dr_msg d m) (c_command s i))\<rparr>;
              d = drv_msg_free m d;
              write_idx = XF_QUEUE_ADVANCE_IDX write_idx;
              s = s\<lparr>c_cmd_write_idx := write_idx\<rparr>
          in drv_commands_loop status read_idx write_idx d s)"

definition drv_process_commands :: "driver \<Rightarrow> core \<Rightarrow> (driver \<times> core \<times> u32) option" where
  "drv_process_commands d s = drv_commands_loop 0 (c_cmd_read_idx s) (c_cmd_write_idx s) d s"

definition take_response :: "addr \<Rightarrow> proxy_message \<Rightarrow> driver \<Rightarrow> driver" where
  "take_response m r d = d\<lparr>dr_msg := (dr_msg d)(m := (dr_msg d m)\<lparr>m_id := pm_session_id r, m_opcode := pm_opcode r,
     m_length := pm_length r, m_buffer := drv_a2b d (pm_address r), m_error := pm_error r\<rparr>)\<rparr>"

definition response_sane :: "proxy_message \<Rightarrow> driver \<Rightarrow> bool" where
  "response_sane r d \<longleftrightarrow> drv_a2b d (pm_address r) \<noteq> NOT 0 \<and>
     (drv_a2b d (pm_address r) \<noteq> NULL \<and> pm_length r \<noteq> 0 \<longrightarrow> drv_a2b d (pm_address r + pm_length r - 1) \<noteq> NOT 0)"

partial_function (option) drv_responses_loop :: "u32 \<Rightarrow> u32 \<Rightarrow> u32 \<Rightarrow> driver \<Rightarrow> core \<Rightarrow> (driver \<times> core \<times> u32) option" where
  "drv_responses_loop status read_idx write_idx d s =
     (if XF_QUEUE_EMPTY read_idx write_idx then Some (d, s, status)
      else case drv_msg_alloc d of (d, m) \<Rightarrow>
        if m = NULL then Some (d, s, status)
        else
          let status = status OR (if XF_QUEUE_FULL read_idx write_idx then 3 else 1);
              r = c_response s (XF_QUEUE_IDX read_idx)
          in if \<not> response_sane r d then None
             else
               let d = take_response m r d;
                   read_idx = XF_QUEUE_ADVANCE_IDX read_idx;
                   s = s\<lparr>c_rsp_read_idx := read_idx\<rparr>
               in drv_responses_loop status read_idx write_idx (xf_cmap m d) s)"

definition drv_process_responses :: "driver \<Rightarrow> core \<Rightarrow> (driver \<times> core \<times> u32) option" where
  "drv_process_responses d s = drv_responses_loop 0 (c_rsp_read_idx s) (c_rsp_write_idx s) d s"

definition drv_round :: "driver \<Rightarrow> core \<Rightarrow> (driver \<times> core \<times> u32) option" where
  "drv_round d s = do {
     (d, s, a) \<leftarrow> drv_process_commands d s;
     (d, s, b) \<leftarrow> drv_process_responses d s;
     let status = a OR b;
     Some (if status AND 2 \<noteq> 0 then d\<lparr>dr_asserted := True\<rparr> else d, s, status) }"

partial_function (option) drv_rounds :: "driver \<Rightarrow> core \<Rightarrow> (driver \<times> core) option" where
  "drv_rounds d s = Option.bind (drv_round d s) (\<lambda>(d, s, status). if status \<noteq> 0 then drv_rounds d s else Some (d, s))"

definition xf_proxy_process :: "driver \<Rightarrow> core \<Rightarrow> (driver \<times> core) option" where
  "xf_proxy_process d s = (if \<not> dr_sync_from_dsp d then Some (d, s) else drv_rounds d s)"

definition drv_notify :: "driver \<Rightarrow> driver" where
  "drv_notify d = d\<lparr>dr_work := True\<rparr>"

definition drv_proxy_command :: "addr \<Rightarrow> driver \<Rightarrow> driver" where
  "drv_proxy_command m d = (let (d, first) = drv_put_command m d in if first then drv_notify d else d)"

section \<open>Initialisation\<close>

text \<open>The pool is an array at \<open>p\<close> of messages of \<open>sz\<close> bytes; the map of clients is set up when the module is loaded.\<close>

fun link_pool :: "nat \<Rightarrow> addr \<Rightarrow> u32 \<Rightarrow> msg_heap \<Rightarrow> msg_heap" where
  "link_pool 0 m sz h = h(m := (h m)\<lparr>m_next := NULL\<rparr>)"
| "link_pool (Suc k) m sz h = link_pool k (m + sz) sz (h(m := (h m)\<lparr>m_next := m + sz\<rparr>))"

definition rings_reset :: "core \<Rightarrow> core" where
  "rings_reset s = s\<lparr>c_cmd_read_idx := 0, c_cmd_write_idx := 0, c_rsp_read_idx := 0, c_rsp_write_idx := 0\<rparr>"

definition drv_proxy_init :: "addr \<Rightarrow> u32 \<Rightarrow> driver \<Rightarrow> core \<Rightarrow> driver \<times> core" where
  "drv_proxy_init p sz d s =
     (d\<lparr>dr_free := p, dr_msg := link_pool (DRV_MESSAGE_POOL_SIZE - 1) p sz (dr_msg d),
        dr_command := xf_msg_queue_init, dr_response := xf_msg_queue_init,
        dr_sync_from_dsp := False, dr_sync_to_dsp := False\<rparr>, rings_reset s)"

definition client_map_init :: "driver \<Rightarrow> driver" where
  "client_map_init d = d\<lparr>dr_map := (\<lambda>i. if i < ucast XF_CFG_MAX_IPC_CLIENTS - 1 then ucast i + 1
     else if i = ucast XF_CFG_MAX_IPC_CLIENTS - 1 then 0 else dr_map d i)\<rparr>"

section \<open>File operations\<close>

definition xf_get_client :: "addr \<Rightarrow> driver \<Rightarrow> int + addr" where
  "xf_get_client fp d =
     (if fp = NULL then Inl (- EINVAL)
      else if cl_id (dr_client d fp) \<ge> ucast XF_CFG_MAX_IPC_CLIENTS then Inl (- EINVAL)
      else if dr_map d (cl_id (dr_client d fp)) \<noteq> fp then Inl (- EBADF)
      else Inr fp)"

definition xf_cmd_send :: "u64 \<Rightarrow> u32 \<Rightarrow> addr \<Rightarrow> u32 \<Rightarrow> driver \<Rightarrow> driver option" where
  "xf_cmd_send i opcode buffer len d =
     (let (d, m) = drv_msg_alloc d in
      if m = NULL then None
      else Some (drv_proxy_command m
        (d\<lparr>dr_msg := (dr_msg d)(m := (dr_msg d m)\<lparr>m_id := i, m_opcode := opcode, m_length := len, m_buffer := buffer\<rparr>)\<rparr>)))"

definition drv_client_register :: "addr \<Rightarrow> u32 \<Rightarrow> driver \<Rightarrow> core \<Rightarrow> driver \<times> core \<times> int" where
  "drv_client_register c core d s =
     (if core \<ge> XF_CFG_MAX_CORES then (d, s, - EINVAL)
      else if cl_bound (dr_client d c) then (d, s, - EBUSY)
      else
        (d\<lparr>dr_client := (dr_client d)(c := (dr_client d c)\<lparr>cl_bound := True\<rparr>),
           dr_command := xf_msg_queue_init, dr_response := xf_msg_queue_init\<rparr>, rings_reset s, 0))"

definition xf_open :: "addr \<Rightarrow> driver \<Rightarrow> driver \<times> (int + addr)" where
  "xf_open a d =
     (case drv_client_alloc a d of
        (d, Inl e) \<Rightarrow> (d, Inl e)
      | (d, Inr c) \<Rightarrow> (d\<lparr>dr_client := (dr_client d)(c := (dr_client d c)\<lparr>cl_queue := xf_msg_queue_init\<rparr>)\<rparr>, Inr c))"

text \<open>The requests of \<^verbatim>\<open>ioctl\<close>; the numbers of the two that are known are macros of the kernel. \<open>fp\<close> is \<^verbatim>\<open>private_data\<close>.\<close>

datatype drv_request = Proxy_Setup u32 | Proxy_Close | Other_Request

definition xf_ioctl :: "addr \<Rightarrow> drv_request \<Rightarrow> driver \<Rightarrow> core \<Rightarrow> driver \<times> core \<times> int" where
  "xf_ioctl fp cmd d s =
     (case xf_get_client fp d of
        Inl e \<Rightarrow> (d, s, e)
      | Inr c \<Rightarrow> (case cmd of
            Proxy_Setup core \<Rightarrow> drv_client_register c core d s
          | Proxy_Close \<Rightarrow> (d, s, 0)
          | Other_Request \<Rightarrow> (d, s, - ENOIOCTLCMD)))"

text \<open>\<open>user\<close> is the message in user space, if it can be read, \<open>n_bytes\<close> the size that the caller gives.\<close>

definition xf_write :: "addr \<Rightarrow> addr \<Rightarrow> proxy_message option \<Rightarrow> nat \<Rightarrow> driver \<Rightarrow> (driver \<times> int) option" where
  "xf_write fp buf user n_bytes d =
     (case xf_get_client fp d of
        Inl e \<Rightarrow> Some (d, e)
      | Inr c \<Rightarrow>
          if \<not> cl_bound (dr_client d c) then Some (d, - EBADF)
          else if buf = NULL \<or> n_bytes \<noteq> sizeof_proxy_msg then Some (d, - EINVAL)
          else (case user of
            None \<Rightarrow> Some (d, - EFAULT)
          | Some u \<Rightarrow>
              let b = drv_a2b d (pm_address u) in
              if b = NOT 0 then Some (d, - EFAULT)
              else do {
                d \<leftarrow> xf_cmd_send (XF_MSG_AP_FROM_USER (pm_session_id u) (cl_id (dr_client d c))) (pm_opcode u) b (pm_length u) d;
                Some (d, int sizeof_proxy_msg) }))"

text \<open>The response that goes to user space; \<open>fault\<close> says that it cannot be written there.\<close>

definition user_response :: "driver \<Rightarrow> xf_message \<Rightarrow> proxy_message" where
  "user_response d m = \<lparr>pm_session_id = XF_MSG_AP_TO_USER (m_id m), pm_opcode = m_opcode m, pm_length = m_length m,
     pm_address = drv_b2a d (m_buffer m), pm_error = m_error m\<rparr>"

definition xf_read :: "addr \<Rightarrow> addr \<Rightarrow> bool \<Rightarrow> nat \<Rightarrow> driver \<Rightarrow> driver \<times> int \<times> proxy_message option" where
  "xf_read fp buf fault n_bytes d =
     (case xf_get_client fp d of
        Inl e \<Rightarrow> (d, e, None)
      | Inr c \<Rightarrow>
          if \<not> cl_bound (dr_client d c) then (d, - EPERM, None)
          else if buf = NULL \<or> n_bytes < sizeof_proxy_msg then (d, - EINVAL, None)
          else
            let (q, m) = drv_msg_dequeue (dr_msg d) (cl_queue (dr_client d c));
                d = d\<lparr>dr_client := (dr_client d)(c := (dr_client d c)\<lparr>cl_queue := q\<rparr>)\<rparr>
            in if m = NULL then (d, - EAGAIN, None)
               else
                 let u = user_response d (dr_msg d m); d = drv_msg_free m d
                 in if fault then (d, - EFAULT, None) else (d, int sizeof_proxy_msg, Some u))"

text \<open>The mask \<^verbatim>\<open>POLLIN | POLLRDNORM\<close> is 65.\<close>

definition xf_poll :: "addr \<Rightarrow> driver \<Rightarrow> driver \<times> int" where
  "xf_poll fp d =
     (case xf_get_client fp d of
        Inl e \<Rightarrow> (d, e)
      | Inr c \<Rightarrow>
          if \<not> cl_bound (dr_client d c) then (d, - EPERM)
          else (drv_notify d, if xf_msg_queue_head (cl_queue (dr_client d c)) \<noteq> NULL then 65 else 0))"

definition xf_release :: "addr \<Rightarrow> driver \<Rightarrow> driver \<times> int" where
  "xf_release fp d =
     (case xf_get_client fp d of
        Inl e \<Rightarrow> (d, e)
      | Inr c \<Rightarrow>
          if cl_bound (dr_client d c)
          then (drv_client_free c (drv_msg_free_all c (d\<lparr>dr_sync_to_dsp := False, dr_sync_from_dsp := False\<rparr>)), 0)
          else (d, 0))"

end
