(* ===== verification/Driver_Thms.thy ===== *)
theory Driver_Thms
  imports Msg_Rings Driver
begin

text \<open>
  Driver and core together: commands go from the driver through its queue and the ring in shared memory to
  the messages of the core in order, none is lost, repeated or changed, however the two sides interleave;
  and the identifiers by which a response finds its client.
\<close>

section \<open>Commands on their way\<close>

type_synonym cmd_entry = "u64 \<times> u32 \<times> u32 \<times> u32"

definition ring_entry :: "proxy_message \<Rightarrow> cmd_entry" where
  "ring_entry c = (pm_session_id c, pm_opcode c, pm_length c, pm_address c)"

definition sent_entry :: "driver \<Rightarrow> addr \<Rightarrow> cmd_entry" where
  "sent_entry d m = (m_id (dr_msg d m), m_opcode (dr_msg d m), m_length (dr_msg d m), drv_b2a d (m_buffer (dr_msg d m)))"

text \<open>The message of the core that a command becomes.\<close>

definition arrives :: "cmd_entry \<Rightarrow> xf_message" where
  "arrives = (\<lambda>(i, opc, len, a). \<lparr>m_next = NULL, m_id = i, m_opcode = opc, m_length = len, m_buffer = xf_ipc_a2b a, m_error = 0\<rparr>)"

text \<open>The ring holds the positions from \<open>r\<close> to \<open>w\<close>, the queue of the driver \<open>ms\<close>; \<open>es\<close> are the commands in both.\<close>

definition link :: "driver \<Rightarrow> core \<Rightarrow> nat \<Rightarrow> nat \<Rightarrow> addr list \<Rightarrow> addr list \<Rightarrow> cmd_entry list \<Rightarrow> bool" where
  "link d s r w ms fs es \<longleftrightarrow> c_cmd_read_idx s = ring_idx r \<and> c_cmd_write_idx s = ring_idx w \<and> r \<le> w \<and> w \<le> r + 256 \<and>
     msg_queue_rel (dr_msg d) (dr_command d) ms \<and> msg_list (dr_msg d) (dr_free d) fs \<and> distinct (ms @ fs) \<and>
     es = map (\<lambda>i. ring_entry (c_command s (ring_pos i))) [r ..< w] @ map (sent_entry d) ms"

lemma entry_payload: "command_payload c = arrives (ring_entry c)"
  by (simp add: command_payload_def arrives_def ring_entry_def)

lemma drv_dequeue_rel:
  assumes "msg_queue_rel h q ms"
  shows "ms = [] \<Longrightarrow> drv_msg_dequeue h q = (q, NULL)"
    and "ms = m # ms' \<Longrightarrow> \<exists>q'. drv_msg_dequeue h q = (q', m) \<and> msg_queue_rel h q' ms'"
proof -
  show "ms = [] \<Longrightarrow> drv_msg_dequeue h q = (q, NULL)"
    using assms by (simp add: drv_msg_dequeue_def msg_queue_rel_def)
  assume ms: "ms = m # ms'"
  then have "m_next (h m) = NULL \<longleftrightarrow> ms' = []"
    using assms msg_list_null [of h "m_next (h m)" ms'] by (simp add: msg_queue_rel_def)
  with ms assms show "\<exists>q'. drv_msg_dequeue h q = (q', m) \<and> msg_queue_rel h q' ms'"
    by (auto simp: drv_msg_dequeue_def msg_queue_rel_def Let_def)
qed

lemma sent_entry_cong:
  "(dr_msg d' x)\<lparr>m_next := NULL\<rparr> = (dr_msg d x)\<lparr>m_next := NULL\<rparr> \<Longrightarrow> dr_buffer d' = dr_buffer d \<Longrightarrow> sent_entry d' x = sent_entry d x"
  by (cases "dr_msg d' x"; cases "dr_msg d x") (simp add: sent_entry_def drv_b2a_def)

text \<open>One turn of the loop of the driver moves the head of the queue into the ring.\<close>

lemma commands_turn:
  assumes l: "link d s r w (m # ms) fs es" and "w < r + 256" and q: "drv_msg_dequeue (dr_msg d) (dr_command d) = (q, m)"
    "msg_queue_rel (dr_msg d) q ms"
  defines "d' \<equiv> drv_msg_free m (d\<lparr>dr_command := q\<rparr>)"
    and "s' \<equiv> s\<lparr>c_command := (c_command s)(ring_pos w := command_of d (dr_msg d m) (c_command s (ring_pos w))), c_cmd_write_idx := ring_idx (Suc w)\<rparr>"
  shows "link d' s' r (Suc w) ms (m # fs) es" "m \<noteq> NULL"
proof -
  have m: "m \<noteq> NULL" "m \<notin> set ms" "m \<notin> set fs" "distinct (ms @ fs)"
    using l msg_list_not_null by (fastforce simp: link_def msg_queue_rel_def)+
  then show "m \<noteq> NULL" by simp
  have "msg_queue_rel (dr_msg d') (dr_command d') ms"
    using q(2) m(2) by (simp add: d'_def drv_msg_free_def) (rule queue_rel_frame, auto)
  moreover have "msg_list (dr_msg d') (dr_free d') (m # fs)"
    using l m by (simp add: d'_def drv_msg_free_def link_def frame)
  moreover have "map (\<lambda>i. ring_entry (c_command s' (ring_pos i))) [r ..< Suc w] @ map (sent_entry d') ms = es"
  proof -
    have "ring_pos i \<noteq> ring_pos w" if "r \<le> i" "i < w" for i using ring_pos_near [of i w] that assms(2) by simp
    then have "map (\<lambda>i. ring_entry (c_command s' (ring_pos i))) [r ..< w] = map (\<lambda>i. ring_entry (c_command s (ring_pos i))) [r ..< w]"
      by (auto simp: s'_def)
    moreover have "map (sent_entry d') ms = map (sent_entry d) ms"
      using m(2) by (auto intro!: sent_entry_cong simp: d'_def drv_msg_free_def)
    moreover have "ring_entry (c_command s' (ring_pos w)) = sent_entry d m"
      by (simp add: s'_def ring_entry_def command_of_def sent_entry_def)
    ultimately show ?thesis using l by (simp add: link_def)
  qed
  ultimately show "link d' s' r (Suc w) ms (m # fs) es"
    using l m assms(2) by (auto simp: link_def s'_def)
qed

lemma commands_loop_link:
  assumes "link d s r w ms fs es"
  shows "\<exists>d' s' st' w' ms' fs'. drv_commands_loop st (ring_idx r) (ring_idx w) d s = Some (d', s', st') \<and>
    link d' s' r w' ms' fs' es \<and> dr_buffer d' = dr_buffer d \<and>
    s' = s\<lparr>c_command := c_command s', c_cmd_write_idx := c_cmd_write_idx s'\<rparr>"
  using assms
proof (induction ms arbitrary: d s w fs st)
  case Nil
  then have "drv_msg_dequeue (dr_msg d) (dr_command d) = (dr_command d, NULL)" using drv_dequeue_rel(1) by (simp add: link_def)
  with Nil show ?case by (subst drv_commands_loop.simps) auto
next
  case (Cons m ms)
  show ?case
  proof (cases "w = r + 256")
    case True
    then have "XF_QUEUE_FULL (ring_idx r) (ring_idx w)" by (simp add: ring_full)
    with Cons.prems show ?thesis by (subst drv_commands_loop.simps) auto
  next
    case False
    then have w: "w < r + 256" "\<not> XF_QUEUE_FULL (ring_idx r) (ring_idx w)" using Cons.prems by (auto simp: link_def ring_full)
    obtain q where q: "drv_msg_dequeue (dr_msg d) (dr_command d) = (q, m)" "msg_queue_rel (dr_msg d) q ms"
      using drv_dequeue_rel(2) [of "dr_msg d" "dr_command d" "m # ms"] Cons.prems by (auto simp: link_def)
    note turn = commands_turn [OF Cons.prems w(1) q]
    let ?d = "drv_msg_free m (d\<lparr>dr_command := q\<rparr>)"
    let ?s = "s\<lparr>c_command := (c_command s)(ring_pos w := command_of d (dr_msg d m) (c_command s (ring_pos w))), c_cmd_write_idx := ring_idx (Suc w)\<rparr>"
    have co: "command_of (d\<lparr>dr_command := q\<rparr>) = command_of d" by (intro ext) (simp add: command_of_def drv_b2a_def)
    have "drv_commands_loop st (ring_idx r) (ring_idx w) d s = drv_commands_loop (st OR 3) (ring_idx r) (ring_idx (Suc w)) ?d ?s"
      using w(2) q(1) turn(2) by (subst drv_commands_loop.simps) (simp add: Let_def ring_advance ring_pos_def co)
    moreover have "dr_buffer ?d = dr_buffer d" by (simp add: drv_msg_free_def)
    ultimately show ?thesis using Cons.IH [OF turn(1), of "st OR 3"] by auto
  qed
qed

section \<open>The steps of the two sides\<close>

definition linked :: "driver \<Rightarrow> core \<Rightarrow> cmd_entry list \<Rightarrow> bool" where
  "linked d s es \<longleftrightarrow> (\<exists>r w ms fs. link d s r w ms fs es)"

definition core_ok :: "core \<Rightarrow> bool" where
  "core_ok s \<longleftrightarrow> c_n_workers s = 0 \<and>
     (\<exists>qs fs. msg_queue_rel (c_msg s) (c_queue s) qs \<and> pool_rel (c_msg s) (c_pool s) fs \<and> distinct (qs @ fs))"

text \<open>
  The driver, the core, the commands that clients have sent and the messages that the core has received.
  In \<open>core_step\<close> the core does anything else, as long as it keeps its queue, its pool and the ring of commands;
  in \<open>driver_step\<close> the driver does, as long as it keeps its queue of commands, its pool and the ring.
\<close>

type_synonym fifo_state = "driver \<times> core \<times> cmd_entry list \<times> xf_message list"

inductive fifo_step :: "env \<Rightarrow> fifo_state \<Rightarrow> fifo_state \<Rightarrow> bool" for E :: env where
  send: "xf_cmd_send i opc b len d = Some d' \<Longrightarrow> fifo_step E (d, s, xs, ys) (d', s, xs @ [(i, opc, len, drv_b2a d b)], ys)"
| host: "drv_process_commands d s = Some (d', s', st) \<Longrightarrow> fifo_step E (d, s, xs, ys) (d', s', xs, ys)"
| dsp: "xf_shmem_process_input E s = Some (s', st) \<Longrightarrow> msg_queue_rel (c_msg s) (c_queue s) qs \<Longrightarrow>
    msg_queue_rel (c_msg s') (c_queue s') (qs @ ns) \<Longrightarrow>
    fifo_step E (d, s, xs, ys) (d, s', xs, ys @ map (\<lambda>m. payload (c_msg s' m)) ns)"
| core_step: "core_ok s' \<Longrightarrow> c_command s' = c_command s \<Longrightarrow> c_cmd_read_idx s' = c_cmd_read_idx s \<Longrightarrow>
    c_cmd_write_idx s' = c_cmd_write_idx s \<Longrightarrow> fifo_step E (d, s, xs, ys) (d, s', xs, ys)"
| driver_step: "msg_queue_rel (dr_msg d) (dr_command d) ms \<Longrightarrow> dr_command d' = dr_command d \<Longrightarrow> dr_buffer d' = dr_buffer d \<Longrightarrow>
    \<forall>m \<in> set ms. dr_msg d' m = dr_msg d m \<Longrightarrow> msg_list (dr_msg d') (dr_free d') fs \<Longrightarrow> distinct (ms @ fs) \<Longrightarrow>
    fifo_step E (d, s, xs, ys) (d', s, xs, ys)"

lemma queue_rel_unique: "msg_queue_rel h q ms \<Longrightarrow> msg_queue_rel h q ns \<Longrightarrow> ms = ns"
  using msg_list_unique by (auto simp: msg_queue_rel_def)

text \<open>A command that is sent comes last.\<close>

lemma send_linked:
  assumes l: "linked d s es" and snd: "xf_cmd_send i opc b len d = Some d'"
  shows "linked d' s (es @ [(i, opc, len, drv_b2a d b)])"
proof -
  obtain r w ms fs where l: "link d s r w ms fs es" using l by (auto simp: linked_def)
  then have q: "msg_queue_rel (dr_msg d) (dr_command d) ms" "msg_list (dr_msg d) (dr_free d) fs" "distinct (ms @ fs)"
    by (simp_all add: link_def)
  obtain m fs' where fs: "fs = m # fs'" using q(2) snd
    by (cases fs) (simp_all add: xf_cmd_send_def drv_msg_alloc_def)
  then have m: "dr_free d = m" "m \<noteq> NULL" "m \<notin> set ms" "m \<notin> set fs'" "msg_list (dr_msg d) (m_next (dr_msg d m)) fs'"
    using q by auto
  let ?h = "(dr_msg d)(m := (dr_msg d m)\<lparr>m_next := NULL, m_id := i, m_opcode := opc, m_length := len, m_buffer := b\<rparr>)"
  have "msg_queue_rel ?h (dr_command d) ms" using q(1) m(3) by (rule_tac queue_rel_frame) auto
  from enqueue_rel [OF this m(3,2)] obtain h q' where
    e: "xf_msg_enqueue ?h (dr_command d) m = (h, q', ms = [])" "msg_queue_rel h q' (ms @ [m])" "links_only (insert m (set ms)) ?h h"
    by blast
  have d': "d' = d\<lparr>dr_free := m_next (dr_msg d m), dr_msg := h, dr_command := q', dr_work := dr_work d'\<rparr>"
    using snd m e(1) by (auto simp: xf_cmd_send_def drv_msg_alloc_def drv_proxy_command_def drv_put_command_def drv_notify_def Let_def)
  have f: "msg_list h (m_next (dr_msg d m)) fs'"
    using msg_list_links [OF e(3)] m(4,5) q(3) fs by (auto simp: frame)
  have "map (sent_entry d') ms = map (sent_entry d) ms"
  proof (intro map_cong refl sent_entry_cong)
    fix x assume "x \<in> set ms"
    then have "x \<noteq> m" using m(3) by auto
    then show "(dr_msg d' x)\<lparr>m_next := NULL\<rparr> = (dr_msg d x)\<lparr>m_next := NULL\<rparr>"
      using e(3) by (subst d') (simp add: links_only_def)
    show "dr_buffer d' = dr_buffer d" by (subst d') simp
  qed
  moreover have "sent_entry d' m = (i, opc, len, drv_b2a d b)"
    using links_only_fields [OF e(3), of m] by (subst d') (simp add: sent_entry_def drv_b2a_def)
  moreover have "dr_msg d' = h" "dr_command d' = q'" "dr_free d' = m_next (dr_msg d m)" by (subst d', simp)+
  ultimately have "link d' s r w (ms @ [m]) fs' (es @ [(i, opc, len, drv_b2a d b)])"
    using l e(2) f m fs q(3) by (auto simp: link_def)
  then show ?thesis by (auto simp: linked_def)
qed

lemma host_linked:
  assumes "linked d s es"
  shows "\<exists>d' s' st. drv_process_commands d s = Some (d', s', st) \<and> linked d' s' es \<and>
    s' = s\<lparr>c_command := c_command s', c_cmd_write_idx := c_cmd_write_idx s'\<rparr>"
proof -
  obtain r w ms fs where l: "link d s r w ms fs es" using assms by (auto simp: linked_def)
  then have "drv_process_commands d s = drv_commands_loop 0 (ring_idx r) (ring_idx w) d s"
    by (simp add: drv_process_commands_def link_def)
  with commands_loop_link [OF l, of 0] show ?thesis by (fastforce simp: linked_def)
qed

lemma core_ok_cong:
  assumes "core_ok s" and s': "s' = s\<lparr>c_command := c, c_cmd_write_idx := i\<rparr>"
  shows "core_ok s'"
  unfolding s' using assms(1) by (simp add: core_ok_def)

text \<open>The core takes the first commands that are on their way.\<close>

lemma dsp_linked:
  assumes l: "linked d s es" and c: "core_ok s"
  shows "\<exists>s' st n qs ns. xf_shmem_process_input E s = Some (s', st) \<and> linked d s' (drop n es) \<and> core_ok s' \<and>
    msg_queue_rel (c_msg s) (c_queue s) qs \<and> msg_queue_rel (c_msg s') (c_queue s') (qs @ ns) \<and>
    map (\<lambda>m. payload (c_msg s' m)) ns = map arrives (take n es)"
proof -
  obtain r w ms fs where l: "link d s r w ms fs es" using l by (auto simp: linked_def)
  obtain qs ps where q: "msg_queue_rel (c_msg s) (c_queue s) qs" "pool_rel (c_msg s) (c_pool s) ps" "distinct (qs @ ps)" "c_n_workers s = 0"
    using c by (auto simp: core_ok_def)
  define n where "n = min (length ps) (w - r)"
  have i: "c_cmd_read_idx s = ring_idx r" "c_cmd_write_idx s = ring_idx w" "r \<le> w" "w \<le> r + 256" using l by (simp_all add: link_def)
  from input_loop_takes [OF q(1-3) i(3,4) n_def q(4), of "complete E" E 0] obtain h k pl st where
    t: "input_loop (xf_msg_submit (complete E) E) 0 (ring_idx r) (ring_idx w) s =
      Some (s\<lparr>c_msg := h, c_queue := k, c_pool := pl, c_cmd_read_idx := (if n = 0 then c_cmd_read_idx s else ring_idx (r + n)),
          c_msgq_event := (n \<noteq> 0 \<or> c_msgq_event s)\<rparr>, st)"
      "msg_queue_rel h k (qs @ take n ps)" "pool_rel h pl (drop n ps)" "commands_in (c_command s) r (take n ps) (c_msg s) h"
    by blast
  let ?s = "s\<lparr>c_msg := h, c_queue := k, c_pool := pl, c_cmd_read_idx := ring_idx (r + n), c_msgq_event := (n \<noteq> 0 \<or> c_msgq_event s)\<rparr>"
  let ?C = "\<lambda>i. ring_entry (c_command s (ring_pos i))"
  have run: "xf_shmem_process_input E s = Some (?s, st)"
    using t(1) i by (auto simp: xf_shmem_process_input_def)
  have n: "n \<le> w - r" "length (take n ps) = n" by (simp_all add: n_def)
  then have w: "[r ..< w] = [r ..< r + n] @ [r + n ..< w]" using i(3) upt_add_eq_append [of r "r + n" "w - (r + n)"] by simp
  have es: "es = map ?C [r ..< r + n] @ (map ?C [r + n ..< w] @ map (sent_entry d) ms)"
    using l w by (simp add: link_def)
  then have "take n es = map ?C [r ..< r + n]" "drop n es = map ?C [r + n ..< w] @ map (sent_entry d) ms" by simp_all
  moreover have "link d ?s (r + n) w ms fs (map ?C [r + n ..< w] @ map (sent_entry d) ms)" using l n(1) by (auto simp: link_def)
  moreover have "distinct ((qs @ take n ps) @ drop n ps)" using q(3) by (simp add: append.assoc)
  then have "core_ok ?s" unfolding core_ok_def using t(2,3) q(4)
    by (intro conjI exI [of _ "qs @ take n ps"] exI [of _ "drop n ps"]) simp_all
  moreover have "map (\<lambda>m. payload (c_msg ?s m)) (take n ps) = map arrives (map ?C [r ..< r + n])"
    using t(4) n(2) by (intro nth_equalityI) (auto simp: commands_in_def entry_payload)
  ultimately show ?thesis using run q(1) t(2) unfolding linked_def
    by (intro exI [of _ ?s] exI [of _ st] exI [of _ n] exI [of _ qs] exI [of _ "take n ps"]) auto
qed

definition fifo_inv :: "fifo_state \<Rightarrow> bool" where
  "fifo_inv = (\<lambda>(d, s, xs, ys). core_ok s \<and> (\<exists>es. linked d s es \<and> map arrives xs = ys @ map arrives es))"

lemma fifo_inv_step: "fifo_step E x y \<Longrightarrow> fifo_inv x \<Longrightarrow> fifo_inv y"
proof (induction rule: fifo_step.induct)
  case (send i opc b len d d' s xs ys)
  then show ?case using send_linked [OF _ send.hyps] by (fastforce simp: fifo_inv_def)
next
  case (host d s d' s' st xs ys)
  then obtain es where es: "core_ok s" "linked d s es" "map arrives xs = ys @ map arrives es" by (auto simp: fifo_inv_def)
  from host_linked [OF es(2)] host.hyps have "linked d' s' es" "s' = s\<lparr>c_command := c_command s', c_cmd_write_idx := c_cmd_write_idx s'\<rparr>"
    by auto
  moreover from this(2) have "core_ok s'" by (rule core_ok_cong [OF es(1)])
  ultimately show ?case using es(3) by (auto simp: fifo_inv_def)
next
  case (dsp s s' st qs ns d xs ys)
  then obtain es where es: "core_ok s" "linked d s es" "map arrives xs = ys @ map arrives es" by (auto simp: fifo_inv_def)
  from dsp_linked [OF es(2,1), of E] dsp.hyps(1) obtain n qs' ns' where n: "linked d s' (drop n es)" "core_ok s'"
    "msg_queue_rel (c_msg s) (c_queue s) qs'" "msg_queue_rel (c_msg s') (c_queue s') (qs' @ ns')"
    "map (\<lambda>m. payload (c_msg s' m)) ns' = map arrives (take n es)" by auto
  have "qs' = qs" using n(3) dsp.hyps(2) by (rule queue_rel_unique)
  moreover have "qs' @ ns' = qs @ ns" using n(4) dsp.hyps(3) by (rule queue_rel_unique)
  moreover have "map arrives es = map arrives (take n es) @ map arrives (drop n es)" by (metis append_take_drop_id map_append)
  ultimately show ?case using n es(3) unfolding fifo_inv_def by auto
next
  case (core_step s' s d xs ys)
  then show ?case by (fastforce simp: fifo_inv_def linked_def link_def)
next
  case (driver_step d ms d' fs s xs ys)
  then obtain es r w ms' fs' where l: "link d s r w ms' fs' es" "core_ok s" "map arrives xs = ys @ map arrives es"
    by (auto simp: fifo_inv_def linked_def)
  have ms: "ms' = ms" using l(1) driver_step.hyps(1) queue_rel_unique by (auto simp: link_def)
  have "msg_queue_rel (dr_msg d') (dr_command d') ms"
    using driver_step.hyps(1,2,4) queue_rel_frame [of "dr_msg d" "dr_command d" ms "dr_msg d'"] by simp
  moreover have "map (sent_entry d') ms = map (sent_entry d) ms" using driver_step.hyps(3,4) by (auto intro!: sent_entry_cong)
  ultimately have "link d' s r w ms fs es" using l(1) driver_step.hyps(5,6) unfolding ms by (simp add: link_def)
  then have "linked d' s es" by (auto simp: linked_def)
  with l(2,3) show ?case by (auto simp: fifo_inv_def)
qed

lemma fifo_inv_steps: "(fifo_step E)\<^sup>*\<^sup>* x y \<Longrightarrow> fifo_inv x \<Longrightarrow> fifo_inv y"
  by (induction rule: rtranclp_induct) (auto dest: fifo_inv_step)

section \<open>Identifiers of clients\<close>

lemma small_bits64:
  assumes "unat (w :: u64) < 2 ^ k" and "bit w n"
  shows "n < k"
proof -
  have "take_bit k w = w"
    using assms(1) by (simp add: word_unat_eq_iff unsigned_take_bit_eq take_bit_nat_eq_self)
  then show ?thesis using assms(2) bit_take_bit_iff [of k w n] by simp
qed

lemma four_bits: "push_bit 4 1 - 1 = (mask 4 :: u64)"
  by (simp add: mask_eq_exp_minus_1 push_bit_eq_mult)

lemma ipc_client_of_response:
  assumes "unat c < 2 ^ 4"
  shows "XF_AP_IPC_CLIENT (swap_id (XF_MSG_AP_FROM_USER i c)) = ucast c"
    and "XF_MSG_AP_TO_USER (swap_id (XF_MSG_AP_FROM_USER i c)) = swap_id (XF_MSG_AP_FROM_USER i 0)"
  unfolding swap_id_def id_defs low_field four_bits XF_AP_IPC_CLIENT_def XF_MSG_AP_FROM_USER_def XF_MSG_AP_TO_USER_def
  by (rule bit_word_eqI; use small_bits64 [OF assms] in \<open>fastforce simp: bit_simps\<close>)+

section \<open>Properties of the driver\<close>

text \<open>
  C19. However the driver and the core interleave, before the workers of the core are started: the
  messages that the core has received are, in their order, the first of the commands that the clients
  have sent, each with its identifier, code, length and the address that the driver gave its buffer.
  The others, in order and unchanged, are in the ring or in the queue of the driver. Both
  sides always return, even if the ring is full or the core has no free message.
\<close>

theorem commands_fifo:
  assumes "linked d s []" and "core_ok s" and "(fifo_step E)\<^sup>*\<^sup>* (d, s, [], []) (d', s', xs, ys)"
  shows "\<exists>es. linked d' s' es \<and> map arrives xs = ys @ map arrives es \<and>
    (\<exists>x. drv_process_commands d' s' = Some x) \<and> (\<exists>x. xf_shmem_process_input E s' = Some x)"
proof -
  have "fifo_inv (d, s, [], [])" using assms(1,2) by (auto simp: fifo_inv_def)
  with fifo_inv_steps [OF assms(3)] obtain es where es: "core_ok s'" "linked d' s' es" "map arrives xs = ys @ map arrives es"
    by (auto simp: fifo_inv_def)
  from host_linked [OF es(2)] dsp_linked [OF es(2,1), of E] es(2,3) show ?thesis by blast
qed

text \<open>A driver with two free messages, and the core of the example of the rings with an empty ring of commands.\<close>

definition drv_demo :: driver where
  "drv_demo = \<lparr>dr_msg = (\<lambda>_. no_msg)(8 := no_msg\<lparr>m_next := 16\<rparr>), dr_command = xf_msg_queue_init, dr_response = xf_msg_queue_init,
     dr_free = 8, dr_map = (\<lambda>_. 0)(1 := 64), dr_client = (\<lambda>_. \<lparr>cl_bound = True, cl_id = 1, cl_queue = xf_msg_queue_init\<rparr>),
     dr_buffer = 1024, dr_work = False, dr_asserted = False, dr_sync_from_dsp = True, dr_sync_to_dsp = True\<rparr>"

definition idle_core :: core where
  "idle_core = ring_demo\<lparr>c_cmd_write_idx := ring_idx 0\<rparr>"

lemma demo_linked: "linked drv_demo idle_core []" "core_ok idle_core"
proof -
  have "link drv_demo idle_core 0 0 [] [8, 16] []"
    by (simp add: link_def drv_demo_def idle_core_def ring_demo_def demo_core_def no_msg_def msg_queue_rel_def ring_idx_0 xf_msg_queue_init_def)
  then show "linked drv_demo idle_core []" by (auto simp: linked_def)
  have "msg_queue_rel (c_msg idle_core) (c_queue idle_core) [] \<and> pool_rel (c_msg idle_core) (c_pool idle_core) [32] \<and> c_n_workers idle_core = 0"
    by (simp add: idle_core_def ring_demo_def demo_core_def no_msg_def msg_queue_rel_def pool_rel_def xf_msg_queue_init_def)
  then show "core_ok idle_core" unfolding core_ok_def by (intro conjI exI [of _ "[]"] exI [of _ "[32]"]) simp_all
qed

theorem commands_fifo_witness:
  "\<exists>d es. fifo_step idle_env (drv_demo, idle_core, [], []) (d, idle_core, [(5, 6, 7, 4)], []) \<and>
    linked d idle_core es \<and> map arrives [(5, 6, 7, 4)] = [] @ map arrives es"
proof -
  obtain d where d: "xf_cmd_send 5 6 1028 7 drv_demo = Some d"
    by (simp add: xf_cmd_send_def drv_msg_alloc_def drv_demo_def)
  have "drv_b2a drv_demo 1028 = 4" by (simp add: drv_b2a_def drv_demo_def XF_CFG_REMOTE_IPC_POOL_SIZE_def)
  then have st: "fifo_step idle_env (drv_demo, idle_core, [], []) (d, idle_core, [(5, 6, 7, 4)], [])"
    using fifo_step.send [OF d, of idle_env idle_core "[]" "[]"] by simp
  from commands_fifo [OF demo_linked r_into_rtranclp [of "fifo_step idle_env", OF st]] st show ?thesis by blast
qed

text \<open>The example with a response in the message at 16.\<close>

definition drv_answer :: driver where
  "drv_answer = drv_demo\<lparr>dr_msg := (dr_msg drv_demo)(16 := no_msg\<lparr>m_id := swap_id (XF_MSG_AP_FROM_USER 5 1)\<rparr>)\<rparr>"

text \<open>
  C35. The core answers a command under the identifier with source and destination exchanged. Such
  a response goes to the end of the queue of the client that wrote the command, and to no other client. Reading
  then yields the oldest response of this client, and the identifier that the program sees is the exchange of
  its own, without the number of the client that the driver had put into it.
\<close>

theorem response_reaches_writer:
  assumes "dr_map d (cl_id (dr_client d c)) = c" and "cl_bound (dr_client d c)" and "0 < cl_id (dr_client d c)"
    and "cl_id (dr_client d c) < 2" and "2 \<le> c" and "msg_queue_rel (dr_msg d) (cl_queue (dr_client d c)) qs"
    and "m \<noteq> NULL" and "m \<notin> set qs" and "m_id (dr_msg d m) = swap_id (XF_MSG_AP_FROM_USER i (cl_id (dr_client d c)))"
    and "buf \<noteq> NULL" and "24 \<le> n_bytes"
  shows "msg_queue_rel (dr_msg (xf_cmap m d)) (cl_queue (dr_client (xf_cmap m d) c)) (qs @ [m]) \<and>
    dr_client (xf_cmap m d) = (dr_client d)(c := dr_client (xf_cmap m d) c) \<and> dr_response (xf_cmap m d) = dr_response d \<and>
    pm_session_id (user_response (xf_cmap m d) (dr_msg (xf_cmap m d) m)) = swap_id (XF_MSG_AP_FROM_USER i 0) \<and>
    snd (xf_read c buf False n_bytes (xf_cmap m d)) =
      (24, Some (user_response (xf_cmap m d) (dr_msg (xf_cmap m d) (hd (qs @ [m])))))"
proof -
  have small: "unat (cl_id (dr_client d c)) < 2 ^ 4" using assms(4) by (simp add: word_less_nat_alt)
  note id = ipc_client_of_response [OF small, of i]
  have narrow: "ucast (ucast (cl_id (dr_client d c)) :: u32) = cl_id (dr_client d c)"
    using small_bits64 [OF small] by (intro bit_word_eqI) (fastforce simp: bit_simps)
  have "drv_client_lookup (cl_id (dr_client d c)) d = c" "c \<noteq> NULL"
    using assms(1,4,5) by (auto simp: drv_client_lookup_def XF_CFG_MAX_IPC_CLIENTS_def)
  moreover obtain h q where e: "xf_msg_enqueue (dr_msg d) (cl_queue (dr_client d c)) m = (h, q, qs = [])" "msg_queue_rel h q (qs @ [m])"
    "links_only (insert m (set qs)) (dr_msg d) h"
    using enqueue_rel [OF assms(6,8,7)] by blast
  ultimately have cm: "xf_cmap m d = d\<lparr>dr_msg := h, dr_client := (dr_client d)(c := (dr_client d c)\<lparr>cl_queue := q\<rparr>)\<rparr>"
    using assms(2,3) by (simp add: xf_cmap_def assms(9) id(1) narrow Let_def)
  have "m_id (h m) = m_id (dr_msg d m)" using links_only_fields [OF e(3), of m] by simp
  then have session: "pm_session_id (user_response (xf_cmap m d) (dr_msg (xf_cmap m d) m)) = swap_id (XF_MSG_AP_FROM_USER i 0)"
    by (simp add: cm user_response_def assms(9) id(2))
  have hd: "hd (qs @ [m]) \<noteq> NULL" "snd (drv_msg_dequeue h q) = hd (qs @ [m])"
    using e(2) msg_list_not_null [of h "q_head q" "qs @ [m]"] assms(7)
    by (cases qs; auto simp: msg_queue_rel_def drv_msg_dequeue_def Let_def)+
  then obtain q2 where q2: "drv_msg_dequeue h q = (q2, hd (qs @ [m]))" by (metis prod.collapse)
  have "xf_get_client c (xf_cmap m d) = Inr c"
    using assms(1,4) \<open>c \<noteq> NULL\<close> by (simp add: xf_get_client_def cm XF_CFG_MAX_IPC_CLIENTS_def not_le)
  then have "snd (xf_read c buf False n_bytes (xf_cmap m d)) =
      (24, Some (user_response (xf_cmap m d) (dr_msg (xf_cmap m d) (hd (qs @ [m])))))"
    using assms(2,10,11) hd(1) q2 by (simp add: xf_read_def cm sizeof_proxy_msg_def user_response_def drv_b2a_def Let_def)
  with session e(2) show ?thesis by (simp add: cm)
qed

theorem response_reaches_writer_witness:
  "msg_queue_rel (dr_msg (xf_cmap 16 drv_answer)) (cl_queue (dr_client (xf_cmap 16 drv_answer) 64)) ([] @ [16]) \<and>
    dr_client (xf_cmap 16 drv_answer) = (dr_client drv_answer)(64 := dr_client (xf_cmap 16 drv_answer) 64) \<and>
    dr_response (xf_cmap 16 drv_answer) = dr_response drv_answer \<and>
    pm_session_id (user_response (xf_cmap 16 drv_answer) (dr_msg (xf_cmap 16 drv_answer) 16)) = swap_id (XF_MSG_AP_FROM_USER 5 0) \<and>
    snd (xf_read 64 4 False 24 (xf_cmap 16 drv_answer)) =
      (24, Some (user_response (xf_cmap 16 drv_answer) (dr_msg (xf_cmap 16 drv_answer) (hd ([] @ [16])))))"
  by (rule response_reaches_writer [of drv_answer 64 "[]" 16 5 4 24])
    (simp_all add: drv_answer_def drv_demo_def xf_msg_queue_init_def msg_queue_rel_def)

end
