(* ===== verification/Irq.thy ===== *)
theory Irq
  imports Prelude "HOL-Library.Monad_Syntax"
begin

text \<open>
  The thread of the framework that serves interrupts and timers (\<^verbatim>\<open>xf-core.c\<close>, the part for the operating system
  XOS, and \<^verbatim>\<open>osal-timer.h\<close>). Interrupts are counted and timers marked at interrupt level; the thread waits on a
  semaphore, calls the functions of the marked timers, and the second handler of an interrupt as often as it has
  been counted. Function pointers are addresses, and \<open>H f a\<close> is the effect of the function at \<open>f\<close> on its argument
  \<open>a\<close>, in which further interrupts may arrive. The locks of the table and of the timers make each
  operation one step. The result of a call of XOS is an argument.
\<close>

section \<open>State\<close>

text \<open>\<open>it_world\<close> is what the handlers work on.\<close>

record irq_entry =
  ih_handler :: addr
  ih_threaded :: addr
  ih_arg :: addr
  ih_active :: int

record xf_timer =
  tm_fn :: addr
  tm_arg :: addr
  tm_autoreload :: bool
  tm_next :: addr
  tm_active :: bool

record 'w irqs =
  it_table :: "nat \<Rightarrow> irq_entry"
  it_sem :: nat
  it_timers :: "addr \<Rightarrow> xf_timer"
  it_list :: addr
  it_world :: 'w

type_synonym 'w handlers = "addr \<Rightarrow> addr \<Rightarrow> 'w irqs \<Rightarrow> 'w irqs"

abbreviation set_active :: "nat \<Rightarrow> int \<Rightarrow> 'w irqs \<Rightarrow> 'w irqs" where
  "set_active i k s \<equiv> s\<lparr>it_table := (it_table s)(i := (it_table s i)\<lparr>ih_active := k\<rparr>)\<rparr>"

abbreviation set_timer :: "addr \<Rightarrow> bool \<Rightarrow> 'w irqs \<Rightarrow> 'w irqs" where
  "set_timer t b s \<equiv> s\<lparr>it_timers := (it_timers s)(t := (it_timers s t)\<lparr>tm_active := b\<rparr>)\<rparr>"

section \<open>Interrupts\<close>

definition xf_threaded_irq_handler :: "'w handlers \<Rightarrow> nat \<Rightarrow> 'w irqs \<Rightarrow> 'w irqs" where
  "xf_threaded_irq_handler H i s =
     (let s = (if ih_handler (it_table s i) \<noteq> NULL then H (ih_handler (it_table s i)) (ih_arg (it_table s i)) s else s) in
      if ih_threaded (it_table s i) \<noteq> NULL
      then (set_active i (ih_active (it_table s i) + 1) s)\<lparr>it_sem := it_sem s + 1\<rparr>
      else s)"

text \<open>The loop over one entry of the table, then the loop over the table of \<open>n\<close> interrupts.\<close>

partial_function (option) irq_loop :: "'w handlers \<Rightarrow> nat \<Rightarrow> 'w irqs \<Rightarrow> 'w irqs option" where
  "irq_loop H i s =
     (let active = ih_active (it_table s i);
          s = (if active \<noteq> 0 then set_active i (active - 1) s else s);
          s = (if active \<noteq> 0 then H (ih_threaded (it_table s i)) (ih_arg (it_table s i)) s else s)
      in if active > 1 then irq_loop H i s else Some s)"

fun process_irqs :: "'w handlers \<Rightarrow> nat list \<Rightarrow> 'w irqs \<Rightarrow> 'w irqs option" where
  "process_irqs H [] s = Some s"
| "process_irqs H (i # is) s =
     (if ih_threaded (it_table s i) = NULL then process_irqs H is s
      else Option.bind (irq_loop H i s) (process_irqs H is))"

definition xf_process_irqs :: "'w handlers \<Rightarrow> nat \<Rightarrow> 'w irqs \<Rightarrow> 'w irqs option" where
  "xf_process_irqs H n s = process_irqs H [0 ..< n] s"

definition xf_set_threaded_irq_handler :: "nat \<Rightarrow> addr \<Rightarrow> addr \<Rightarrow> addr \<Rightarrow> bool \<Rightarrow> 'w irqs \<Rightarrow> 'w irqs \<times> bool" where
  "xf_set_threaded_irq_handler i irq_handler threaded_handler arg ok s =
     (s\<lparr>it_table := (it_table s)(i := \<lparr>ih_handler = irq_handler, ih_threaded = threaded_handler, ih_arg = arg, ih_active = 0\<rparr>)\<rparr>, ok)"

definition xf_unset_threaded_irq_handler :: "nat \<Rightarrow> bool \<Rightarrow> 'w irqs \<Rightarrow> 'w irqs \<times> bool" where
  "xf_unset_threaded_irq_handler i ok s =
     (s\<lparr>it_table := (it_table s)(i := \<lparr>ih_handler = NULL, ih_threaded = NULL, ih_arg = NULL, ih_active = 0\<rparr>)\<rparr>, ok)"

section \<open>Timers\<close>

partial_function (option) timers_loop :: "'w handlers \<Rightarrow> addr \<Rightarrow> 'w irqs \<Rightarrow> 'w irqs option" where
  "timers_loop H t s =
     (if t = NULL then Some s
      else
        let s = (if tm_active (it_timers s t)
                 then H (tm_fn (it_timers s t)) (tm_arg (it_timers s t)) (set_timer t False s) else s)
        in timers_loop H (tm_next (it_timers s t)) s)"

definition xf_process_timers :: "'w handlers \<Rightarrow> 'w irqs \<Rightarrow> 'w irqs option" where
  "xf_process_timers H s = timers_loop H (it_list s) s"

text \<open>One turn of the thread; it waits while the semaphore is 0.\<close>

definition xf_irq_thread :: "'w handlers \<Rightarrow> nat \<Rightarrow> 'w irqs \<Rightarrow> 'w irqs option" where
  "xf_irq_thread H n s =
     (if it_sem s = 0 then None
      else do { s \<leftarrow> xf_process_timers H (s\<lparr>it_sem := it_sem s - 1\<rparr>); xf_process_irqs H n s })"

definition xf_timer_callback :: "addr \<Rightarrow> 'w irqs \<Rightarrow> 'w irqs" where
  "xf_timer_callback t s = (set_timer t True s)\<lparr>it_sem := it_sem s + 1\<rparr>"

definition xf_timer_init :: "addr \<Rightarrow> addr \<Rightarrow> addr \<Rightarrow> bool \<Rightarrow> 'w irqs \<Rightarrow> 'w irqs" where
  "xf_timer_init t f a autoreload s =
     s\<lparr>it_timers := (it_timers s)(t := \<lparr>tm_fn = f, tm_arg = a, tm_autoreload = autoreload, tm_next = NULL, tm_active = False\<rparr>)\<rparr>"

partial_function (option) timer_search :: "(addr \<Rightarrow> xf_timer) \<Rightarrow> addr \<Rightarrow> addr \<Rightarrow> addr option" where
  "timer_search tm t x = (if t = NULL \<or> t = x then Some t else timer_search tm (tm_next (tm t)) x)"

definition xf_timer_start :: "addr \<Rightarrow> int \<Rightarrow> 'w irqs \<Rightarrow> ('w irqs \<times> int) option" where
  "xf_timer_start x r s = do {
     t \<leftarrow> timer_search (it_timers s) (it_list s) x;
     let s = (if t \<noteq> x then s\<lparr>it_timers := (it_timers s)(x := (it_timers s x)\<lparr>tm_next := it_list s\<rparr>), it_list := x\<rparr> else s);
     Some (set_timer x False s, r) }"

partial_function (option) timer_unlink :: "(addr \<Rightarrow> xf_timer) \<Rightarrow> addr \<Rightarrow> addr \<Rightarrow> (addr \<Rightarrow> xf_timer) option" where
  "timer_unlink tm t x =
     (if t = NULL then Some tm
      else if tm_next (tm t) = x then Some (tm(t := (tm t)\<lparr>tm_next := tm_next (tm x)\<rparr>))
      else timer_unlink tm (tm_next (tm t)) x)"

definition xf_timer_stop :: "addr \<Rightarrow> int \<Rightarrow> 'w irqs \<Rightarrow> ('w irqs \<times> int) option" where
  "xf_timer_stop x r s = do {
     s \<leftarrow> (if it_list s = x then Some (s\<lparr>it_list := tm_next (it_timers s x)\<rparr>)
          else map_option (\<lambda>tm. s\<lparr>it_timers := tm\<rparr>) (timer_unlink (it_timers s) (it_list s) x));
     let s = s\<lparr>it_timers := (it_timers s)(x := (it_timers s x)\<lparr>tm_next := NULL\<rparr>)\<rparr>;
     Some (set_timer x False s, r) }"

section \<open>The list of timers\<close>

fun timer_list :: "(addr \<Rightarrow> xf_timer) \<Rightarrow> addr \<Rightarrow> addr list \<Rightarrow> bool" where
  "timer_list tm a [] \<longleftrightarrow> a = NULL"
| "timer_list tm a (t # ts) \<longleftrightarrow> a = t \<and> t \<noteq> NULL \<and> t \<notin> set ts \<and> timer_list tm (tm_next (tm t)) ts"

lemma timer_list_cong: "timer_list tm a ts \<Longrightarrow> \<forall>t \<in> set ts. tm_next (tm' t) = tm_next (tm t) \<Longrightarrow> timer_list tm' a ts"
  by (induction ts arbitrary: a) auto

lemma timer_list_not_null: "timer_list tm a ts \<Longrightarrow> NULL \<notin> set ts"
  by (induction ts arbitrary: a) auto

lemma timer_list_distinct: "timer_list tm a ts \<Longrightarrow> distinct ts"
  by (induction ts arbitrary: a) auto

lemma timer_search_finds:
  "timer_list tm a ts \<Longrightarrow> x \<noteq> NULL \<Longrightarrow> timer_search tm a x = Some (if x \<in> set ts then x else NULL)"
proof (induction ts arbitrary: a)
  case (Cons t ts)
  then show ?case by (subst timer_search.simps) auto
qed (simp add: timer_search.simps)

lemma timer_unlink_removes:
  "timer_list tm a ts \<Longrightarrow> a \<noteq> x \<Longrightarrow> x \<noteq> NULL \<Longrightarrow>
    \<exists>tm'. timer_unlink tm a x = Some tm' \<and> timer_list tm' a (remove1 x ts) \<and> (\<forall>t. (tm' t)\<lparr>tm_next := NULL\<rparr> = (tm t)\<lparr>tm_next := NULL\<rparr>) \<and>
      (\<forall>t. t \<notin> set ts \<longrightarrow> tm' t = tm t)"
proof (induction ts arbitrary: a)
  case Nil
  then show ?case by (subst timer_unlink.simps) simp
next
  case (Cons t ts)
  show ?case
  proof (cases "tm_next (tm t) = x")
    case True
    then obtain us where us: "ts = x # us" using Cons.prems by (cases ts) auto
    let ?tm = "tm(t := (tm t)\<lparr>tm_next := tm_next (tm x)\<rparr>)"
    have "timer_list ?tm (tm_next (tm x)) us"
      using Cons.prems us by (rule_tac timer_list_cong [of tm]) auto
    with True Cons.prems us show ?thesis by (subst timer_unlink.simps) auto
  next
    case False
    from Cons.IH [of "tm_next (tm t)"] Cons.prems False obtain tm' where
      tm': "timer_unlink tm (tm_next (tm t)) x = Some tm'" "timer_list tm' (tm_next (tm t)) (remove1 x ts)"
        "\<forall>t. (tm' t)\<lparr>tm_next := NULL\<rparr> = (tm t)\<lparr>tm_next := NULL\<rparr>" "\<forall>t. t \<notin> set ts \<longrightarrow> tm' t = tm t" by auto
    have "timer_unlink tm a x = Some tm'" using Cons.prems False tm'(1) by (subst timer_unlink.simps) auto
    moreover have "timer_list tm' a (remove1 x (t # ts))"
      using Cons.prems tm'(2,4) set_remove1_subset [of x ts] by auto
    ultimately show ?thesis using tm'(3,4) by auto
  qed
qed

text \<open>Starting puts a timer into the list once, stopping takes it out; both leave it unmarked.\<close>

lemma timer_start_lists:
  assumes "timer_list (it_timers s) (it_list s) ts" and "x \<noteq> NULL"
  shows "\<exists>s'. xf_timer_start x r s = Some (s', r) \<and> timer_list (it_timers s') (it_list s') (if x \<in> set ts then ts else x # ts) \<and>
    \<not> tm_active (it_timers s' x)"
proof -
  have "timer_list ((it_timers s)(x := v)) (it_list s) ts" if "x \<notin> set ts" for v
    using assms(1) that by (rule_tac timer_list_cong [of "it_timers s"]) auto
  moreover have "timer_list ((it_timers s)(x := (it_timers s x)\<lparr>tm_active := b\<rparr>)) (it_list s) ts" for b
    using assms(1) by (rule_tac timer_list_cong [of "it_timers s"]) auto
  ultimately show ?thesis using timer_search_finds [OF assms] assms(2) by (simp add: xf_timer_start_def)
qed

lemma timer_stop_unlists:
  assumes l: "timer_list (it_timers s) (it_list s) ts" and x: "x \<noteq> NULL"
  shows "\<exists>s'. xf_timer_stop x r s = Some (s', r) \<and> timer_list (it_timers s') (it_list s') (remove1 x ts) \<and>
    \<not> tm_active (it_timers s' x)"
proof -
  have d: "x \<notin> set (remove1 x ts)" using timer_list_distinct [OF l] by simp
  have upd: "timer_list (tm(x := v)) a (remove1 x ts)" if "timer_list tm a (remove1 x ts)" for tm v a
    using that d by (rule_tac timer_list_cong [of tm]) auto
  show ?thesis
  proof (cases "it_list s = x")
    case True
    then obtain us where "ts = x # us" using l x by (cases ts) auto
    then have "timer_list (it_timers s) (tm_next (it_timers s x)) (remove1 x ts)" using l True by simp
    with True upd show ?thesis by (simp add: xf_timer_stop_def)
  next
    case False
    from timer_unlink_removes [OF l False x] obtain tm' where
      "timer_unlink (it_timers s) (it_list s) x = Some tm'" "timer_list tm' (it_list s) (remove1 x ts)" by blast
    with False upd show ?thesis by (simp add: xf_timer_stop_def)
  qed
qed

end
