(* ===== verification/Irq_Thms.thy ===== *)
theory Irq_Thms
  imports Irq
begin

text \<open>
  No interrupt and no timer is lost: whatever arrives while the thread runs its handlers, each interrupt has been
  handled or is still counted, and each timer that ran out has been called or is still marked.
\<close>

section \<open>A world with interrupts\<close>

text \<open>The calls so far, and what arrives during each of the next calls.\<close>

datatype irq_event = Interrupt nat | Expiry addr

type_synonym calls = "(addr \<times> addr) list \<times> irq_event list list"

definition log_call :: "calls handlers" where
  "log_call f a s = s\<lparr>it_world := (fst (it_world s) @ [(f, a)], snd (it_world s))\<rparr>"

fun arrive :: "irq_event \<Rightarrow> calls irqs \<Rightarrow> calls irqs" where
  "arrive (Interrupt i) s = xf_threaded_irq_handler log_call i s"
| "arrive (Expiry t) s = xf_timer_callback t s"

definition next_events :: "calls \<Rightarrow> irq_event list" where
  "next_events w = (case snd w of [] \<Rightarrow> [] | e # _ \<Rightarrow> e)"

definition noisy :: "calls handlers" where
  "noisy f a s = fold arrive (next_events (it_world s))
     (log_call f a (s\<lparr>it_world := (fst (it_world s), tl (snd (it_world s)))\<rparr>))"

abbreviation arrivals :: "nat \<Rightarrow> irq_event list \<Rightarrow> int" where
  "arrivals i es \<equiv> int (count_list es (Interrupt i))"

definition irq_call :: "'w irqs \<Rightarrow> nat \<Rightarrow> addr \<times> addr" where
  "irq_call s i = (ih_threaded (it_table s i), ih_arg (it_table s i))"

definition timer_call :: "'w irqs \<Rightarrow> addr \<Rightarrow> addr \<times> addr" where
  "timer_call s t = (tm_fn (it_timers s t), tm_arg (it_timers s t))"

text \<open>The event makes the thread run again.\<close>

fun wakes :: "'w irqs \<Rightarrow> irq_event \<Rightarrow> bool" where
  "wakes s (Interrupt i) \<longleftrightarrow> ih_threaded (it_table s i) \<noteq> NULL"
| "wakes s (Expiry t) \<longleftrightarrow> True"

section \<open>The account of a run\<close>

definition same_setup :: "'w irqs \<Rightarrow> 'w irqs \<Rightarrow> bool" where
  "same_setup s s' \<longleftrightarrow> (\<forall>i. (it_table s' i)\<lparr>ih_active := 0\<rparr> = (it_table s i)\<lparr>ih_active := 0\<rparr>) \<and>
     (\<forall>t. (it_timers s' t)\<lparr>tm_active := False\<rparr> = (it_timers s t)\<lparr>tm_active := False\<rparr>) \<and> it_list s' = it_list s"

definition irq_account :: "'w irqs \<Rightarrow> 'w irqs \<Rightarrow> irq_event list \<Rightarrow> (addr \<times> addr) list \<Rightarrow> nat \<Rightarrow> bool" where
  "irq_account s s' es cs i \<longleftrightarrow> ih_active (it_table s' i) \<le> ih_active (it_table s i) + arrivals i es \<and>
     ih_active (it_table s i) + arrivals i es \<le> ih_active (it_table s' i) + int (count_list cs (irq_call s i)) \<and>
     (0 \<le> ih_active (it_table s i) \<longrightarrow> 0 \<le> ih_active (it_table s' i))"

definition timer_account :: "'w irqs \<Rightarrow> 'w irqs \<Rightarrow> irq_event list \<Rightarrow> (addr \<times> addr) list \<Rightarrow> addr \<Rightarrow> bool" where
  "timer_account s s' es cs t \<longleftrightarrow> (tm_active (it_timers s' t) \<longrightarrow> tm_active (it_timers s t) \<or> Expiry t \<in> set es) \<and>
     (tm_active (it_timers s t) \<or> Expiry t \<in> set es \<longrightarrow> tm_active (it_timers s' t) \<or> timer_call s t \<in> set cs)"

definition served :: "'w irqs \<Rightarrow> 'w irqs \<Rightarrow> irq_event list \<Rightarrow> (addr \<times> addr) list \<Rightarrow> bool" where
  "served s s' es cs \<longleftrightarrow> same_setup s s' \<and> it_sem s' = it_sem s + length (filter (wakes s) es) \<and>
     (\<forall>i. ih_threaded (it_table s i) \<noteq> NULL \<longrightarrow> irq_account s s' es cs i) \<and> (\<forall>t. timer_account s s' es cs t)"

definition runs :: "calls irqs \<Rightarrow> calls irqs \<Rightarrow> irq_event list \<Rightarrow> (addr \<times> addr) list \<Rightarrow> bool" where
  "runs s s' es cs \<longleftrightarrow> served s s' es cs \<and> fst (it_world s') = fst (it_world s) @ cs \<and>
     (\<exists>ds. snd (it_world s) = ds @ snd (it_world s') \<and> es = concat ds)"

lemma same_setup_fields:
  assumes "same_setup s s'"
  shows "ih_handler (it_table s' i) = ih_handler (it_table s i)" "ih_threaded (it_table s' i) = ih_threaded (it_table s i)"
    "ih_arg (it_table s' i) = ih_arg (it_table s i)" "tm_fn (it_timers s' t) = tm_fn (it_timers s t)"
    "tm_arg (it_timers s' t) = tm_arg (it_timers s t)" "tm_next (it_timers s' t) = tm_next (it_timers s t)" "it_list s' = it_list s"
proof -
  have i: "(it_table s' i)\<lparr>ih_active := 0\<rparr> = (it_table s i)\<lparr>ih_active := 0\<rparr>"
    and t: "(it_timers s' t)\<lparr>tm_active := False\<rparr> = (it_timers s t)\<lparr>tm_active := False\<rparr>" and "it_list s' = it_list s"
    using assms by (simp_all add: same_setup_def)
  then show "it_list s' = it_list s" by simp
  from i show "ih_handler (it_table s' i) = ih_handler (it_table s i)" "ih_threaded (it_table s' i) = ih_threaded (it_table s i)"
    "ih_arg (it_table s' i) = ih_arg (it_table s i)" by (cases "it_table s' i"; cases "it_table s i"; simp)+
  from t show "tm_fn (it_timers s' t) = tm_fn (it_timers s t)" "tm_arg (it_timers s' t) = tm_arg (it_timers s t)"
    "tm_next (it_timers s' t) = tm_next (it_timers s t)" by (cases "it_timers s' t"; cases "it_timers s t"; simp)+
qed

lemma same_setup_calls:
  assumes f: "same_setup s s'"
  shows "irq_call s' = irq_call s" and "timer_call s' = timer_call s" and "wakes s' = wakes s"
proof -
  show "wakes s' = wakes s"
  proof
    show "wakes s' e = wakes s e" for e by (cases e) (simp_all add: same_setup_fields [OF f])
  qed
qed (simp_all add: irq_call_def timer_call_def fun_eq_iff same_setup_fields [OF f])

lemma served_refl [simp]: "served s s [] []"
  by (simp add: served_def same_setup_def irq_account_def timer_account_def)

lemma served_trans:
  assumes a: "served s s' es cs" and b: "served s' s'' es' cs'"
  shows "served s s'' (es @ es') (cs @ cs')"
proof -
  have f: "same_setup s s'" "same_setup s' s''" using a b by (simp_all add: served_def)
  note c = same_setup_fields [OF f(1)] same_setup_calls [OF f(1)]
  have "same_setup s s''" using f by (simp add: same_setup_def)
  moreover have "irq_account s s'' (es @ es') (cs @ cs') i" if "ih_threaded (it_table s i) \<noteq> NULL" for i
  proof -
    have x: "irq_account s s' es cs i" "irq_account s' s'' es' cs' i" using a b that c by (simp_all add: served_def)
    have n: "arrivals i (es @ es') = arrivals i es + arrivals i es'"
      "int (count_list (cs @ cs') p) = int (count_list cs p) + int (count_list cs' p)" for p by simp_all
    show ?thesis using x unfolding irq_account_def c(8) n by (elim conjE, intro conjI impI) (linarith | blast)+
  qed
  moreover have "timer_account s s'' (es @ es') (cs @ cs') t" for t
    using a b by (auto simp: served_def timer_account_def c)
  ultimately show ?thesis using a b by (simp add: served_def c)
qed

lemma runs_refl [simp]: "runs s s [] []"
  by (simp add: runs_def)

lemma runs_trans: "runs s s' es cs \<Longrightarrow> runs s' s'' es' cs' \<Longrightarrow> runs s s'' (es @ es') (cs @ cs')"
  unfolding runs_def using served_trans by (metis (no_types, lifting) append.assoc concat_append)

section \<open>One call\<close>

lemma arrive_served:
  "\<exists>cs. served s (arrive e s) [e] cs \<and> fst (it_world (arrive e s)) = fst (it_world s) @ cs \<and> snd (it_world (arrive e s)) = snd (it_world s)"
proof (cases e)
  case (Interrupt i)
  let ?cs = "if ih_handler (it_table s i) = NULL then [] else [(ih_handler (it_table s i), ih_arg (it_table s i))]"
  have "served s (arrive e s) [e] ?cs"
    by (auto simp: Interrupt served_def same_setup_def irq_account_def timer_account_def xf_threaded_irq_handler_def log_call_def Let_def)
  then show ?thesis by (intro exI [of _ ?cs]) (simp add: Interrupt xf_threaded_irq_handler_def log_call_def Let_def)
next
  case (Expiry t)
  have "served s (arrive e s) [e] []"
    by (auto simp: Expiry served_def same_setup_def irq_account_def timer_account_def xf_timer_callback_def)
  then show ?thesis by (intro exI [of _ "[]"]) (simp add: Expiry xf_timer_callback_def)
qed

lemma arrive_all_served:
  "\<exists>cs. served s (fold arrive es s) es cs \<and> fst (it_world (fold arrive es s)) = fst (it_world s) @ cs \<and>
    snd (it_world (fold arrive es s)) = snd (it_world s)"
proof (induction es arbitrary: s)
  case (Cons e es)
  obtain cs where a: "served s (arrive e s) [e] cs" "fst (it_world (arrive e s)) = fst (it_world s) @ cs"
    "snd (it_world (arrive e s)) = snd (it_world s)" using arrive_served by blast
  obtain ds where b: "served (arrive e s) (fold arrive es (arrive e s)) es ds"
    "fst (it_world (fold arrive es (arrive e s))) = fst (it_world (arrive e s)) @ ds"
    "snd (it_world (fold arrive es (arrive e s))) = snd (it_world (arrive e s))" using Cons.IH by blast
  from served_trans [OF a(1) b(1)] a b show ?case by (intro exI [of _ "cs @ ds"]) simp
qed (intro exI [of _ "[]"], simp)

lemma served_world: "served (s\<lparr>it_world := w\<rparr>) s' es cs = served s s' es cs"
proof -
  have "wakes (s\<lparr>it_world := w\<rparr>) e = wakes s e" for e by (cases e) simp_all
  then have "wakes (s\<lparr>it_world := w\<rparr>) = wakes s" by (rule ext)
  then show ?thesis
    by (simp add: served_def same_setup_def irq_account_def timer_account_def irq_call_def timer_call_def)
qed

lemma noisy_served:
  "\<exists>es cs ds. served s (noisy f a s) es cs \<and> fst (it_world (noisy f a s)) = fst (it_world s) @ (f, a) # cs \<and>
    snd (it_world s) = ds @ snd (it_world (noisy f a s)) \<and> es = concat ds"
proof -
  define s1 where "s1 = log_call f a (s\<lparr>it_world := (fst (it_world s), tl (snd (it_world s)))\<rparr>)"
  define es where "es = next_events (it_world s)"
  obtain cs where c: "served s1 (fold arrive es s1) es cs" "fst (it_world (fold arrive es s1)) = fst (it_world s1) @ cs"
    "snd (it_world (fold arrive es s1)) = snd (it_world s1)" using arrive_all_served by blast
  have s1: "s1 = s\<lparr>it_world := (fst (it_world s) @ [(f, a)], tl (snd (it_world s)))\<rparr>" by (simp add: s1_def log_call_def)
  have n: "noisy f a s = fold arrive es s1" by (simp add: noisy_def s1_def es_def)
  have "\<exists>ds. snd (it_world s) = ds @ tl (snd (it_world s)) \<and> es = concat ds"
    by (cases "snd (it_world s)") (auto simp: es_def next_events_def intro: exI [of _ "[]"] exI [of _ "[_]"])
  then show ?thesis using c unfolding n by (auto simp: s1 served_world)
qed

text \<open>Taking one count off an interrupt, or the mark off a timer, and calling the handler.\<close>

lemma call_irq:
  fixes s :: "calls irqs"
  assumes i: "ih_threaded (it_table s i) \<noteq> NULL" "0 < ih_active (it_table s i)"
  defines "s1 \<equiv> set_active i (ih_active (it_table s i) - 1) s"
  shows "\<exists>es cs. runs s (noisy (ih_threaded (it_table s i)) (ih_arg (it_table s i)) s1) es cs \<and>
    ih_active (it_table (noisy (ih_threaded (it_table s i)) (ih_arg (it_table s i)) s1) i) \<le> ih_active (it_table s i) - 1 + arrivals i es"
proof -
  let ?s = "noisy (ih_threaded (it_table s i)) (ih_arg (it_table s i)) s1"
  obtain es cs ds where n: "served s1 ?s es cs" "fst (it_world ?s) = fst (it_world s1) @ irq_call s i # cs"
    "snd (it_world s1) = ds @ snd (it_world ?s)" "es = concat ds" using noisy_served unfolding irq_call_def by blast
  have f: "same_setup s s1" by (simp add: s1_def same_setup_def)
  have c: "irq_call s1 = irq_call s" "timer_call s1 = timer_call s" "wakes s1 = wakes s"
    "ih_threaded (it_table s1 k) = ih_threaded (it_table s k)" for k
    by (simp_all add: same_setup_calls [OF f] same_setup_fields [OF f])
  have "same_setup s ?s" using n(1) f by (simp add: served_def same_setup_def)
  moreover have "irq_account s ?s es (irq_call s i # cs) k" if "ih_threaded (it_table s k) \<noteq> NULL" for k
  proof -
    have "irq_account s1 ?s es cs k" using n(1) that c by (simp add: served_def)
    then show ?thesis using i(2) by (cases "k = i") (auto simp: irq_account_def s1_def c [unfolded s1_def])
  qed
  moreover have "timer_account s ?s es (irq_call s i # cs) t" for t
    using n(1) by (auto simp: served_def timer_account_def c [unfolded s1_def] s1_def)
  moreover have "it_sem ?s = it_sem s + length (filter (wakes s) es)" using n(1) c by (simp add: served_def s1_def)
  ultimately have "served s ?s es (irq_call s i # cs)" by (simp add: served_def)
  moreover have "ih_active (it_table ?s i) \<le> ih_active (it_table s i) - 1 + arrivals i es"
    using n(1) i(1) c by (auto simp: served_def irq_account_def s1_def)
  ultimately show ?thesis using n(2-4) by (auto simp: runs_def s1_def)
qed

lemma call_timer:
  fixes s :: "calls irqs"
  assumes "tm_active (it_timers s t)"
  defines "s1 \<equiv> set_timer t False s"
  shows "\<exists>es cs. runs s (noisy (tm_fn (it_timers s t)) (tm_arg (it_timers s t)) s1) es cs \<and>
    (tm_active (it_timers (noisy (tm_fn (it_timers s t)) (tm_arg (it_timers s t)) s1) t) \<longrightarrow> Expiry t \<in> set es)"
proof -
  let ?s = "noisy (tm_fn (it_timers s t)) (tm_arg (it_timers s t)) s1"
  obtain es cs ds where n: "served s1 ?s es cs" "fst (it_world ?s) = fst (it_world s1) @ timer_call s t # cs"
    "snd (it_world s1) = ds @ snd (it_world ?s)" "es = concat ds" using noisy_served unfolding timer_call_def by blast
  have f: "same_setup s s1" by (simp add: s1_def same_setup_def)
  have c: "irq_call s1 = irq_call s" "timer_call s1 = timer_call s" "wakes s1 = wakes s"
    by (simp_all add: same_setup_calls [OF f])
  have "same_setup s ?s" using n(1) f by (simp add: served_def same_setup_def)
  moreover have "irq_account s ?s es (timer_call s t # cs) k" if "ih_threaded (it_table s k) \<noteq> NULL" for k
    using n(1) that by (auto simp: served_def irq_account_def c [unfolded s1_def] s1_def)
  moreover have "timer_account s ?s es (timer_call s t # cs) k" for k
  proof -
    have "timer_account s1 ?s es cs k" using n(1) by (simp add: served_def)
    then show ?thesis using assms(1) by (cases "k = t") (auto simp: timer_account_def s1_def c [unfolded s1_def])
  qed
  moreover have "it_sem ?s = it_sem s + length (filter (wakes s) es)" using n(1) c by (simp add: served_def s1_def)
  ultimately have "served s ?s es (timer_call s t # cs)" by (simp add: served_def)
  moreover have "tm_active (it_timers ?s t) \<longrightarrow> Expiry t \<in> set es"
    using n(1) by (auto simp: served_def timer_account_def s1_def)
  ultimately show ?thesis using n(2-4) by (auto simp: runs_def s1_def)
qed

section \<open>The loops of the thread\<close>

lemma runs_threaded: "runs s s' es cs \<Longrightarrow> ih_threaded (it_table s' i) = ih_threaded (it_table s i)"
  by (simp add: runs_def served_def same_setup_fields)

lemma runs_active:
  assumes "runs s s' es cs" and "ih_threaded (it_table s i) \<noteq> NULL"
  shows "ih_active (it_table s' i) \<le> ih_active (it_table s i) + arrivals i es"
    and "0 \<le> ih_active (it_table s i) \<Longrightarrow> 0 \<le> ih_active (it_table s' i)"
  using assms by (simp_all add: runs_def served_def irq_account_def)

lemma runs_coming:
  assumes "runs s s' es cs"
  shows "length (concat (snd (it_world s))) = length es + length (concat (snd (it_world s')))"
  using assms by (auto simp: runs_def)

lemma arrivals_length: "arrivals i es \<le> int (length es)"
  using count_le_length [of es "Interrupt i"] by simp

lemma irq_loop_runs:
  assumes "ih_threaded (it_table s i) \<noteq> NULL" and "0 \<le> ih_active (it_table s i)"
  shows "\<exists>s' es cs. irq_loop noisy i s = Some s' \<and> runs s s' es cs \<and> ih_active (it_table s' i) \<le> arrivals i es"
  using assms
proof (induction "nat (ih_active (it_table s i)) + length (concat (snd (it_world s)))" arbitrary: s rule: less_induct)
  case less
  let ?a = "ih_active (it_table s i)"
  let ?s = "noisy (ih_threaded (it_table s i)) (ih_arg (it_table s i)) (set_active i (?a - 1) s)"
  have step: "irq_loop noisy i s = (if ?a > 1 then irq_loop noisy i ?s else Some ?s)" if "?a \<noteq> 0"
    using that by (subst irq_loop.simps) (simp add: Let_def)
  show ?case
  proof (cases "?a = 0")
    case True
    then have "irq_loop noisy i s = Some s" by (subst irq_loop.simps) simp
    with True runs_refl show ?thesis by fastforce
  next
    case False
    then have pos: "0 < ?a" using less.prems(2) by simp
    obtain es cs where r: "runs s ?s es cs" "ih_active (it_table ?s i) \<le> ?a - 1 + arrivals i es"
      using call_irq [OF less.prems(1) pos] by blast
    show ?thesis
    proof (cases "?a > 1")
      case False
      with pos have "?a = 1" by simp
      then show ?thesis using step r by auto
    next
      case True
      have "0 \<le> ih_active (it_table ?s i)" using runs_active(2) [OF r(1) less.prems(1)] pos by simp
      moreover have "nat (ih_active (it_table ?s i)) + length (concat (snd (it_world ?s))) <
          nat ?a + length (concat (snd (it_world s)))"
        using runs_coming [OF r(1)] r(2) arrivals_length [of es i] pos calculation by linarith
      moreover have "ih_threaded (it_table ?s i) \<noteq> NULL" using runs_threaded [OF r(1)] less.prems(1) by simp
      ultimately obtain s' es' cs' where l: "irq_loop noisy i ?s = Some s'" "runs ?s s' es' cs'" "ih_active (it_table s' i) \<le> arrivals i es'"
        using less.hyps [of ?s] by blast
      then show ?thesis using step True runs_trans [OF r(1) l(2)] by (intro exI [of _ s'] exI [of _ "es @ es'"]) auto
    qed
  qed
qed

lemma process_irqs_runs:
  assumes "\<forall>i. ih_threaded (it_table s i) \<noteq> NULL \<longrightarrow> 0 \<le> ih_active (it_table s i)"
  shows "\<exists>s' es cs. process_irqs noisy ks s = Some s' \<and> runs s s' es cs \<and>
    (\<forall>i \<in> set ks. ih_threaded (it_table s i) \<noteq> NULL \<longrightarrow> ih_active (it_table s' i) \<le> arrivals i es)"
  using assms
proof (induction ks arbitrary: s)
  case Nil
  then show ?case using runs_refl by fastforce
next
  case (Cons k ks)
  show ?case
  proof (cases "ih_threaded (it_table s k) = NULL")
    case True
    with Cons.IH [OF Cons.prems] show ?thesis by auto
  next
    case False
    then have "0 \<le> ih_active (it_table s k)" using Cons.prems by simp
    from irq_loop_runs [OF False this] obtain s1 es cs where
      l: "irq_loop noisy k s = Some s1" "runs s s1 es cs" "ih_active (it_table s1 k) \<le> arrivals k es" by blast
    have "\<forall>i. ih_threaded (it_table s1 i) \<noteq> NULL \<longrightarrow> 0 \<le> ih_active (it_table s1 i)"
      using Cons.prems runs_active(2) [OF l(2)] runs_threaded [OF l(2)] by simp
    then obtain s' es' cs' where p: "process_irqs noisy ks s1 = Some s'" "runs s1 s' es' cs'"
      "\<forall>i \<in> set ks. ih_threaded (it_table s1 i) \<noteq> NULL \<longrightarrow> ih_active (it_table s' i) \<le> arrivals i es'" using Cons.IH [of s1] by blast
    have "ih_active (it_table s' k) \<le> arrivals k (es @ es')"
      using runs_active(1) [OF p(2), of k] runs_threaded [OF l(2)] False l(3) by simp
    moreover have "ih_active (it_table s' i) \<le> arrivals i (es @ es')" if "i \<in> set ks" "ih_threaded (it_table s i) \<noteq> NULL" for i
      using p(3) that runs_threaded [OF l(2)] by fastforce
    ultimately show ?thesis using False l(1) p(1) runs_trans [OF l(2) p(2)]
      by (intro exI [of _ s'] exI [of _ "es @ es'"]) auto
  qed
qed

lemma timers_loop_runs:
  assumes "timer_list (it_timers s) a ts"
  shows "\<exists>s' es cs. timers_loop noisy a s = Some s' \<and> runs s s' es cs \<and>
    (\<forall>t \<in> set ts. tm_active (it_timers s' t) \<longrightarrow> Expiry t \<in> set es)"
  using assms
proof (induction ts arbitrary: a s)
  case Nil
  then have "timers_loop noisy a s = Some s" by (subst timers_loop.simps) simp
  then show ?case using runs_refl by fastforce
next
  case (Cons t ts)
  define s1 where "s1 = (if tm_active (it_timers s t) then noisy (tm_fn (it_timers s t)) (tm_arg (it_timers s t)) (set_timer t False s) else s)"
  have "timers_loop noisy a s = timers_loop noisy (tm_next (it_timers s1 t)) s1"
    using Cons.prems by (subst timers_loop.simps) (simp add: s1_def Let_def)
  moreover have "\<exists>es cs. runs s s1 es cs \<and> (tm_active (it_timers s1 t) \<longrightarrow> Expiry t \<in> set es)"
  proof (cases "tm_active (it_timers s t)")
    case True
    then show ?thesis using call_timer [of s t] by (simp add: s1_def)
  next
    case False
    then show ?thesis by (intro exI [of _ "[]"]) (simp add: s1_def)
  qed
  then obtain es cs where r: "runs s s1 es cs" "tm_active (it_timers s1 t) \<longrightarrow> Expiry t \<in> set es" by blast
  have f: "same_setup s s1" using r(1) by (simp add: runs_def served_def)
  have "timer_list (it_timers s1) (tm_next (it_timers s1 t)) ts"
    using Cons.prems same_setup_fields(6) [OF f] by (auto intro: timer_list_cong [of "it_timers s"])
  then obtain s' es' cs' where l: "timers_loop noisy (tm_next (it_timers s1 t)) s1 = Some s'" "runs s1 s' es' cs'"
    "\<forall>t \<in> set ts. tm_active (it_timers s' t) \<longrightarrow> Expiry t \<in> set es'" using Cons.IH by blast
  moreover have "tm_active (it_timers s' t) \<longrightarrow> Expiry t \<in> set (es @ es')"
    using l(2) r(2) by (auto simp: runs_def served_def timer_account_def)
  ultimately show ?case using runs_trans [OF r(1) l(2)]
    by (intro exI [of _ s'] exI [of _ "es @ es'"]) auto
qed

section \<open>Property of the thread\<close>

text \<open>
  C24. One turn of the thread, woken by its semaphore, returns, whatever interrupts arrive and timers run out
  while it calls handlers (\<open>es\<close>, a prefix of what is to come). Afterwards every interrupt with a second handler
  that was counted or arrived has been handled or is still counted, and is counted only if it arrived in the meantime. Every marked
  timer has been called or is still marked, and one of the list is marked only if it ran out in the
  meantime. The semaphore has gone up for each of these, so that the thread will run again.
\<close>

theorem irq_thread_serves:
  assumes "0 < it_sem s" and "timer_list (it_timers s) (it_list s) ts"
    and "\<forall>i. ih_threaded (it_table s i) \<noteq> NULL \<longrightarrow> 0 \<le> ih_active (it_table s i)"
  shows "\<exists>s' es cs. xf_irq_thread noisy n s = Some s' \<and> (\<exists>ds. snd (it_world s) = ds @ snd (it_world s') \<and> es = concat ds) \<and>
    fst (it_world s') = fst (it_world s) @ cs \<and> it_sem s' = it_sem s - 1 + length (filter (wakes s) es) \<and>
    (\<forall>i < n. ih_threaded (it_table s i) \<noteq> NULL \<longrightarrow> ih_active (it_table s' i) \<le> arrivals i es \<and>
      ih_active (it_table s i) + arrivals i es \<le> ih_active (it_table s' i) + int (count_list cs (irq_call s i))) \<and>
    (\<forall>t \<in> set ts. (tm_active (it_timers s' t) \<longrightarrow> Expiry t \<in> set es) \<and>
      (tm_active (it_timers s t) \<or> Expiry t \<in> set es \<longrightarrow> tm_active (it_timers s' t) \<or> timer_call s t \<in> set cs))"
proof -
  define s0 where "s0 = s\<lparr>it_sem := it_sem s - 1\<rparr>"
  have "same_setup s s0" by (simp add: s0_def same_setup_def)
  note c = same_setup_calls [OF this]
  obtain s1 es cs where t: "xf_process_timers noisy s0 = Some s1" "runs s0 s1 es cs"
    "\<forall>t \<in> set ts. tm_active (it_timers s1 t) \<longrightarrow> Expiry t \<in> set es"
    using timers_loop_runs [of s0 "it_list s0" ts] assms(2) by (auto simp: xf_process_timers_def s0_def)
  have "\<forall>i. ih_threaded (it_table s1 i) \<noteq> NULL \<longrightarrow> 0 \<le> ih_active (it_table s1 i)"
    using assms(3) runs_active(2) [OF t(2)] runs_threaded [OF t(2)] by (simp add: s0_def)
  from process_irqs_runs [OF this, of "[0 ..< n]"] obtain s' es' cs' where p: "xf_process_irqs noisy n s1 = Some s'" "runs s1 s' es' cs'"
    "\<forall>i \<in> set [0 ..< n]. ih_threaded (it_table s1 i) \<noteq> NULL \<longrightarrow> ih_active (it_table s' i) \<le> arrivals i es'"
    unfolding xf_process_irqs_def by blast
  have run: "xf_irq_thread noisy n s = Some s'" using assms(1) t(1) p(1) by (simp add: xf_irq_thread_def s0_def)
  have r: "runs s0 s' (es @ es') (cs @ cs')" using runs_trans [OF t(2) p(2)] .
  then have a: "served s0 s' (es @ es') (cs @ cs')" "fst (it_world s') = fst (it_world s) @ cs @ cs'"
    "\<exists>ds. snd (it_world s) = ds @ snd (it_world s') \<and> es @ es' = concat ds" by (simp_all add: runs_def s0_def)
  have "ih_active (it_table s' i) \<le> arrivals i (es @ es')" if "i < n" "ih_threaded (it_table s i) \<noteq> NULL" for i
  proof -
    have "ih_threaded (it_table s1 i) \<noteq> NULL" using that(2) runs_threaded [OF t(2), of i] by (simp add: s0_def)
    then have "ih_active (it_table s' i) \<le> arrivals i es'" using p(3) that(1) by simp
    then show ?thesis by simp
  qed
  moreover have "ih_active (it_table s i) + arrivals i (es @ es') \<le> ih_active (it_table s' i) + int (count_list (cs @ cs') (irq_call s i))"
    if "ih_threaded (it_table s i) \<noteq> NULL" for i
    using a(1) that c by (auto simp: served_def irq_account_def s0_def)
  moreover have "tm_active (it_timers s' t) \<longrightarrow> Expiry t \<in> set (es @ es')" if "t \<in> set ts" for t
    using t(3) p(2) that by (auto simp: runs_def served_def timer_account_def)
  moreover have "tm_active (it_timers s t) \<or> Expiry t \<in> set (es @ es') \<longrightarrow> tm_active (it_timers s' t) \<or> timer_call s t \<in> set (cs @ cs')" for t
    using a(1) c unfolding served_def timer_account_def by (simp add: s0_def)
  moreover have "it_sem s' = it_sem s - 1 + length (filter (wakes s) (es @ es'))"
    using a(1) c by (simp add: served_def s0_def)
  ultimately show ?thesis using run a(2,3)
    by (intro exI [of _ s'] exI [of _ "es @ es'"] exI [of _ "cs @ cs'"]) blast
qed

text \<open>Interrupt 0 has been counted twice, one timer is marked, and during the first call the interrupt comes again.\<close>

definition irq_demo :: "calls irqs" where
  "irq_demo = \<lparr>it_table = (\<lambda>_. \<lparr>ih_handler = NULL, ih_threaded = NULL, ih_arg = NULL, ih_active = 0\<rparr>)
       (0 := \<lparr>ih_handler = NULL, ih_threaded = 4, ih_arg = 8, ih_active = 2\<rparr>),
     it_sem = 3, it_timers = (\<lambda>_. \<lparr>tm_fn = 12, tm_arg = 16, tm_autoreload = True, tm_next = NULL, tm_active = True\<rparr>),
     it_list = 64, it_world = ([], [[Interrupt 0]])\<rparr>"

theorem irq_thread_serves_witness:
  "\<exists>s' es cs. xf_irq_thread noisy 1 irq_demo = Some s' \<and> (\<exists>ds. snd (it_world irq_demo) = ds @ snd (it_world s') \<and> es = concat ds) \<and>
    fst (it_world s') = cs \<and> it_sem s' = 2 + length (filter (wakes irq_demo) es) \<and>
    ih_active (it_table s' 0) \<le> arrivals 0 es \<and> 2 + arrivals 0 es \<le> ih_active (it_table s' 0) + int (count_list cs (4, 8)) \<and>
    (tm_active (it_timers s' 64) \<or> (12, 16) \<in> set cs)"
proof -
  have "0 < it_sem irq_demo" "timer_list (it_timers irq_demo) (it_list irq_demo) [64]"
    "\<forall>i. ih_threaded (it_table irq_demo i) \<noteq> NULL \<longrightarrow> 0 \<le> ih_active (it_table irq_demo i)" by (simp_all add: irq_demo_def)
  from irq_thread_serves [OF this, of 1] show ?thesis
    by (auto simp: irq_demo_def irq_call_def timer_call_def)
qed

end
