(* ===== verification/Spec2Isabelle.thy ===== *)
theory Spec2Isabelle
  imports Sched MM_Bytes Io_Ports Msg_Rings Codec_Thms Mixer_Thms Mimo_Thms Device_Thms Driver_Thms Irq_Thms
begin

text \<open>
  Verification library of the DSP framework of hosted XAF (\<^verbatim>\<open>src/algo/hifi-dpf\<close>), the part of the
  Xtensa Audio Framework that runs on the audio processor. Configuration: that of
  \<^verbatim>\<open>src/build/makefile_lib\<close> for the hosted DSP with one core (\<^verbatim>\<open>XF_CFG_CORES_NUM = 1\<close>, \<^verbatim>\<open>LOCAL_SCHED\<close>,
  \<^verbatim>\<open>LOCAL_MSGQ\<close>, \<^verbatim>\<open>XF_MSG_ERR_HANDLING\<close>, \<^verbatim>\<open>XAF_HOSTED_DSP\<close>, the operating system XOS), with 32-bit
  addresses, without traces and debugging (\<^verbatim>\<open>BUG\<close> does nothing).

  \<^bold>\<open>The program.\<close> The host writes commands into a ring in shared memory. The service loop of the core
  takes them into messages and dispatches each by its identifier, to the proxy of the core (creation
  and removal of components, buffers, priorities) or to a component, directly or through the queue of a
  worker thread. A component is a framework class around a plug-in for one codec: it queues the buffers
  that come to its ports, asks a scheduler to be called, moves data between ports and plug-in, and
  completes the buffers, which go back to the host or on to the next component. Everything is allocated
  in pools of the framework.

  \<^bold>\<open>Theories and sources.\<close>
  \<^item> Prelude: machine types, collections of simplification rules, general lemmas.
  \<^item> RB_Heap, RB_Insert, RB_Delete, RB_Rebalance, RB_Remove, RB_Ops: \<^verbatim>\<open>rbtree.c\<close>, \<^verbatim>\<open>rbtree.h\<close>. The nodes are a
    map from addresses to records; \<open>rb_tree_at\<close> relates it to a functional tree.
  \<^item> Sched: \<^verbatim>\<open>xf-sched.c\<close>. A task is a node, its colour word holds the deadline.
  \<^item> MM, MM_Bytes: \<^verbatim>\<open>xf-mem.c\<close>, \<^verbatim>\<open>xf-mm.h\<close>, the best-fit allocator with two trees over the free blocks;
    Mem: \<^verbatim>\<open>sys/xos-msgq/xf-mem.h\<close>, allocation with accounting.
  \<^item> Opcode, Msg: \<^verbatim>\<open>xf-dp_opcode.h\<close>, \<^verbatim>\<open>xf-dp_proxy.h\<close>, \<^verbatim>\<open>xf-msg.h\<close>, \<^verbatim>\<open>xf-msg.c\<close>. A message is a record in a heap of its own, queues
    and pools are linked through it.
  \<^item> Io, Io_Ports: \<^verbatim>\<open>xf-io.c\<close>, \<^verbatim>\<open>xf-io.h\<close>, the input and output ports of components.
  \<^item> Core_State, Clients, Core, Core_Thms: \<^verbatim>\<open>xf-core.c\<close>, \<^verbatim>\<open>xf-core.h\<close>, \<^verbatim>\<open>xf-component.h\<close>; Shmem, Msg_Rings:
    \<^verbatim>\<open>xf-msgq.c\<close>, \<^verbatim>\<open>xf-main.c\<close>, \<^verbatim>\<open>xf-shmem.h\<close>. The record \<open>core\<close> holds the fields of the core, the messages, the trees,
    the pools and the shared memory.
  \<^item> Irq, Irq_Thms: the thread for interrupts and timers in \<^verbatim>\<open>xf-core.c\<close>, with \<^verbatim>\<open>osal-timer.h\<close>.
  \<^item> Class_State, Class_Base, Class_Events, Class_Channels, Class_Sched, Class_Stages: \<^verbatim>\<open>xa-class-base.c\<close>,
    the part that all classes share; the record \<open>base\<close> extends the core by the fields of a component.
  \<^item> Audio_Codec, Codec_Thms: \<^verbatim>\<open>xa-class-audio-codec.c\<close>; Mixer, Mixer_Thms: \<^verbatim>\<open>xa-class-mixer.c\<close>; Renderer,
    Capturer, Device_Thms: \<^verbatim>\<open>xa-class-renderer.c\<close>, \<^verbatim>\<open>xa-class-capturer.c\<close>; Mimo, Mimo_Thms:
    \<^verbatim>\<open>xa-class-mimo-proc.c\<close>. Each record extends \<open>base\<close> as the structure of the class does. Class_Results
    has the judgements by which an invariant is carried through the operations of a class.
  \<^item> Driver, Driver_Thms: the other end of the rings, the proxy of the kernel driver
    (\<^verbatim>\<open>src/xf_kernel_driver/src/xf-proxy.c\<close>), for a kernel with 32-bit pointers. The record \<open>driver\<close> has its messages,
    queues and clients; the functions on the rings take the record \<open>core\<close> too, which holds the shared memory.

  \<^bold>\<open>Conventions.\<close> A C function is a HOL function from the state before to the state after, with its
  result; an error code is part of the result. \<open>None\<close> is a call that does not return, or a use of a
  null pointer. Loops over linked structures are \<open>partial_function (option)\<close>, so that the theorems state
  that they return. A part of a long function has a definition of its own, with the rest of the
  function as an argument where an early return skips it.

  \<^bold>\<open>Parameters.\<close> Plug-ins are libraries outside of the repository: a plug-in is a function on the whole
  state, and a theorem says what it needs of it (\<open>plugin_ignores_tracks\<close>, \<open>plugin_ok\<close>,
  \<open>plugin_ignores_message\<close>, \<open>plugin_ignores_fields\<close>, \<open>keeps_phase\<close>, hypotheses on single calls). In the core, component code, the component
  factory and thread creation are the record \<open>env\<close>. Sizes of structures, offsets of fields and the
  address of the stack are numbers.

  \<^bold>\<open>Bounds and fuel.\<close> A completion may complete another message: \<open>xf_msg_complete\<close> has fuel for the nesting,
  \<open>complete_fuel\<close> is 4, and \<open>complete_delivers\<close> shows that 2 are enough. Moving and purging the messages of a
  component takes the length of the queue of its worker as fuel, which each turn shortens. The loops
  over extended parameters advance by at least 8 bytes and have the length divided by 8, plus one.
  A component records the messages it completes in \<open>b_done\<close>, with their contents; \<open>answer_all_done\<close> hands
  them to the core after the operation, in order.

  \<^bold>\<open>What the lemmas show.\<close>
  \<^item> Trees and scheduler: insertion and deletion refine sorted lists and keep the red-black invariant; the
    scheduler refines a queue in the order of deadlines (locale \<open>edf_queue\<close>). After a task
    was cancelled twice, the next one that is scheduled drops all that wait.
  \<^item> Memory: best fit, coalescing, and that no client is ever handed a byte twice (locales
    \<open>byte_allocator\<close>, \<open>buffer_allocator\<close>).
  \<^item> Messages and ports: first in, first out (locale \<open>message_queue\<close>); an input port is a byte stream; routing,
    unrouting and flushing of output ports with their outcomes, and what a failed routing frees.
  \<^item> Core: the client map refines a finite map (locale \<open>registry\<close>); registration and its failures; a completion
    refines a delivery to at most one queue; buffers return as they were; the rings pass messages in order.
  \<^item> Base class: the scheduling flag and the task queue agree (\<open>task_inv\<close>), change of priority, event
    channels, the stages of a component as a step relation.
  \<^item> Codec, mixer, devices, multi-port class: end of the stream, flush, the states of the tracks of a mixer and
    the message of an interrupt handler as invariants of step relations, each with the steps that break it
    (\<open>paused_outcome\<close>, \<open>spoils\<close>), time base arithmetic, and cleanup. Several of these theorems show
    behaviour that the code does not intend.
  \<^item> Driver and core: a step relation of both sides, by which commands arrive first in, first out and
    unchanged however they interleave; a response finds the client that wrote the command.
  \<^item> Interrupts and timers: none is lost, whatever arrives while the thread runs handlers; the handlers of the
    proof record their calls and do not touch the list of timers.

  \<^bold>\<open>Not modelled.\<close> The host side (\<^verbatim>\<open>src/algo/host-apf\<close>), an application of Linux over the files of the
  driver; threads, devices and memory mapping of the driver, and its synchronous commands, which nothing
  calls; the code for several cores (\<^verbatim>\<open>xf-mem-ipc.c\<close>, inter-processor interrupts and locks): with one
  core every operation is one step, interrupts of devices excepted; threads and their priorities, cache
  maintenance; the start-up of the DSP and \<^verbatim>\<open>xf_core_deinit\<close>; test applications and the plug-ins.
\<close>

section \<open>A concrete tree\<close>

text \<open>
  Three nodes 1, 2, 3 below the sentinel at address 100, the middle one black and the others red;
  the witnesses of the properties of the tree library use it.
\<close>

definition demo_heap :: rb_heap where
  "demo_heap = (\<lambda>_. \<lparr>nd_parent = 0, nd_left = 0, nd_right = 0, nd_color = 0\<rparr>)
     (100 := \<lparr>nd_parent = 100, nd_left = 2, nd_right = 1, nd_color = 0\<rparr>,
      2 := \<lparr>nd_parent = 100, nd_left = 1, nd_right = 3, nd_color = 20\<rparr>,
      1 := \<lparr>nd_parent = 2, nd_left = 100, nd_right = 100, nd_color = 11\<rparr>,
      3 := \<lparr>nd_parent = 2, nd_left = 100, nd_right = 100, nd_color = 31\<rparr>)"

definition demo_tree :: ptree where
  "demo_tree = Bin Blk (Bin Red Tip 1 Tip) 2 (Bin Red Tip 3 Tip)"

lemma demo_tree_at: "rb_tree_at 100 demo_heap demo_tree"
  by (simp add: rb_tree_at_def demo_heap_def demo_tree_def clr_of_def)

lemma demo_rbt: "rbt demo_tree"
  by (simp add: rbt_def demo_tree_def)

section \<open>Properties: red-black trees\<close>

text \<open>
  C1. Deleting a node of a red-black tree: \<^verbatim>\<open>rb_delete\<close> returns; the heap then holds a well-linked
  red-black tree with exactly the other nodes, in the same order. The call returns an in-order
  neighbour of the node, or the null node when the tree held nothing else. No other heap cell but
  the sentinel changes, the user bits of every colour word stay, and the removed node is left
  pointing at the null node.
\<close>

theorem rb_delete_removes:
  assumes "rb_tree_at z h t" and "rbt t" and "NULL \<notin> set (z # inorder t)" and "n \<in> set (inorder t)"
  shows "\<exists>h' m t'. rb_delete z h n = Some (h', m) \<and> rb_tree_at z h' t' \<and> rbt t' \<and>
    inorder t' = [x \<leftarrow> inorder t. x \<noteq> n] \<and>
    (inorder t = [n] \<and> m = z \<or> adjacent (inorder t) m n) \<and>
    rb_keeps z (set (inorder t)) h h' \<and>
    rb_parent h' n = z \<and> rb_left h' n = z \<and> rb_right h' n = z"
  using rb_delete_ordered [OF assms] rb_delete_neighbour [OF assms] by blast

theorem rb_delete_removes_witness:
  "\<exists>h' m t'. rb_delete 100 demo_heap 2 = Some (h', m) \<and> rb_tree_at 100 h' t' \<and> rbt t' \<and>
    inorder t' = [x \<leftarrow> inorder demo_tree. x \<noteq> 2] \<and>
    (inorder demo_tree = [2] \<and> m = 100 \<or> adjacent (inorder demo_tree) m 2) \<and>
    rb_keeps 100 (set (inorder demo_tree)) demo_heap h' \<and>
    rb_parent h' 2 = 100 \<and> rb_left h' 2 = 100 \<and> rb_right h' 2 = 100"
  by (rule rb_delete_removes [OF demo_tree_at demo_rbt]) (simp_all add: demo_tree_def)

text \<open>
  C2. Ordered insertion (the search loop of a client followed by \<^verbatim>\<open>rb_insert\<close>): when the
  direction test \<open>gr\<close> holds of a prefix of the nodes, the call returns, the new node stands
  behind that prefix and before the rest, the tree is again a red-black tree, its depth is at most
  logarithmic, and nothing outside the tree changes.
\<close>

theorem rb_insert_orders:
  assumes "rb_tree_at z h t" and "rbt t" and "n \<notin> set (z # inorder t)"
    and "sorted_wrt (\<lambda>x y. gr y \<longrightarrow> gr x) (inorder t)"
  shows "\<exists>h' t'. rb_insert_by gr z h n = Some h' \<and> rb_tree_at z h' t' \<and> rbt t' \<and>
    inorder t' = [x \<leftarrow> inorder t. gr x] @ n # [x \<leftarrow> inorder t. \<not> gr x] \<and>
    2 ^ depth t' \<le> (length (inorder t) + 2) ^ 2 \<and>
    rb_keeps z (insert n (set (inorder t))) h h'"
proof -
  obtain h' t' where t': "rb_insert_by gr z h n = Some h'" "rb_tree_at z h' t'" "rbt t'"
    "inorder t' = [x \<leftarrow> inorder t. gr x] @ n # [x \<leftarrow> inorder t. \<not> gr x]"
    "rb_keeps z (insert n (set (inorder t))) h h'"
    using rb_insert_by_ok [OF assms] by blast
  have "length (inorder t') = Suc (length (inorder t))"
    using t'(4) sum_length_filter_compl [of gr "inorder t"] by simp
  with depth_bound [OF t'(3)] t' show ?thesis by auto
qed

theorem rb_insert_orders_witness:
  "\<exists>h' t'. rb_insert_by (\<lambda>x. x < 2) 100 demo_heap 7 = Some h' \<and> rb_tree_at 100 h' t' \<and> rbt t' \<and>
    inorder t' = [x \<leftarrow> inorder demo_tree. x < 2] @ 7 # [x \<leftarrow> inorder demo_tree. \<not> x < 2] \<and>
    2 ^ depth t' \<le> (length (inorder demo_tree) + 2) ^ 2 \<and>
    rb_keeps 100 (insert 7 (set (inorder demo_tree))) demo_heap h'"
  by (rule rb_insert_orders [OF demo_tree_at demo_rbt]) (simp_all add: demo_tree_def)

text \<open>
  C3. Cancelling a task a second time. \<^verbatim>\<open>rb_delete\<close> tells nodes outside the tree by a \<^verbatim>\<open>NULL\<close> parent, but
  the links of a removed node are reset to the null node of the tree. So the second call reports success too,
  and cuts the tree of the waiting tasks off its root: the next task that is scheduled, whatever its
  deadline, becomes the only one in the queue, and those that waited are never taken.
\<close>

theorem cancel_twice_drops_all:
  assumes rel: "sched_rel z h (now, q)" and n: "n \<in> fst ` set q" and k: "k \<noteq> z" "k \<noteq> NULL"
  shows "\<exists>h1 h2 h3. xf_sched_cancel z h n = Some (h1, 0) \<and> sched_rel z h1 (now, [x \<leftarrow> q. fst x \<noteq> n]) \<and>
    xf_sched_cancel z h1 n = Some (h2, 0) \<and>
    xf_sched_put z h2 k dts = Some h3 \<and> sched_rel z h3 (now, [(k, (now + dts) AND - 2)])"
proof -
  obtain h1 where h1: "xf_sched_cancel z h n = Some (h1, 0)" "sched_rel z h1 (now, [x \<leftarrow> q. fst x \<noteq> n])"
    and links: "rb_parent h1 n = z" "rb_left h1 n = z" "rb_right h1 n = z"
    using xf_sched_cancel_refines [OF rel, of n] n by (auto simp: spec_cancel_def)
  obtain t where t: "rb_tree_at z h1 t" "NULL \<notin> set (z # inorder t)"
    "[x \<leftarrow> q. fst x \<noteq> n] = map (task_node h1) (inorder t)" "now = xf_sched_timestamp z h1"
    using h1(2) by (rule sched_relE)
  have "n \<notin> fst ` set [x \<leftarrow> q. fst x \<noteq> n]" by auto
  then have "n \<notin> set (inorder t)" unfolding t(3) task_nodes .
  moreover have nz: "n \<noteq> z" "z \<noteq> NULL"
    using rel n by (auto simp: sched_rel_def rb_tree_at_def task_node_def)
  ultimately obtain h0 where h0: "rb_delete z h1 n = Some (h0, z)" "rb_tree_at z h0 Tip"
    using rb_delete_stale [OF t(1), of n] links by auto
  let ?h2 = "if n = rb_cache z h0 then rb_set_cache z h0 z else h0"
  have "xf_sched_cancel z h1 n = Some (?h2, 0)" using h0(1) nz(2) by (simp add: xf_sched_cancel_def)
  moreover have "rb_tree_at z ?h2 Tip" using h0(2) by (auto intro: rb_tree_at_set_cache)
  moreover have "xf_sched_timestamp z ?h2 = now"
    using rb_delete_stale_keeps [OF links nz h0(1)] t(4)
    by (simp add: rb_set_cache_def rb_set_right_def xf_sched_timestamp_def heap_defs)
  ultimately show ?thesis using h1 xf_sched_put_lone [of z ?h2 k dts] k nz(2) by (auto simp: spec_put_def)
qed

text \<open>Two tasks scheduled on a fresh scheduler; the witnesses of its properties start here.\<close>

lemma demo_sched: "sched_rel 100 (xf_sched_init 100 demo_heap) (0, [])"
  using sched_rel_init [of 100 demo_heap] by (simp add: demo_heap_def)

lemma demo_sched_inv: "spec_inv (0, [])"
  by (simp add: spec_inv_def)

theorem cancel_twice_drops_all_witness:
  "\<exists>h0 h1 h2 h3. sched_rel 100 h0 (0, [(7, 40), (8, 42), (9, 44)]) \<and> xf_sched_cancel 100 h0 7 = Some (h1, 0) \<and>
    sched_rel 100 h1 (0, [(8, 42), (9, 44)]) \<and> xf_sched_cancel 100 h1 7 = Some (h2, 0) \<and>
    xf_sched_put 100 h2 10 46 = Some h3 \<and> sched_rel 100 h3 (0, [(10, 46)])"
proof -
  obtain h where h: "sched_rel 100 h (spec_put 7 40 (0, []))"
    using xf_sched_put_refines [OF demo_sched demo_sched_inv, of 7 40] by auto
  have i1: "spec_inv (0, [(7, 40)])" using spec_inv_put [OF demo_sched_inv, of 40 7] by (simp add: spec_put_def)
  obtain h' where h': "sched_rel 100 h' (spec_put 8 42 (0, [(7, 40)]))"
    using xf_sched_put_refines [of 100 h "(0, [(7, 40)])" 8 42] h i1 by (auto simp: spec_put_def)
  have i2: "spec_inv (0, [(7, 40), (8, 42)])" using spec_inv_put [OF i1, of 42 8] by (simp add: spec_put_def xf_timestamp_before_def)
  obtain h0 where "sched_rel 100 h0 (spec_put 9 44 (0, [(7, 40), (8, 42)]))"
    using xf_sched_put_refines [of 100 h' "(0, [(7, 40), (8, 42)])" 9 44] h' i2 by (auto simp: spec_put_def xf_timestamp_before_def)
  then have "sched_rel 100 h0 (0, [(7, 40), (8, 42), (9, 44)])" by (simp add: spec_put_def xf_timestamp_before_def)
  with cancel_twice_drops_all [OF this, of 7 10 46] show ?thesis by auto
qed

text \<open>
  C4. Earliest deadline first: tasks put on an empty scheduler at one time, with distances below
  half the range of the 64-bit timestamps, are taken in the order of their deadlines, and in turn
  when the deadlines are equal (the deadline is the distance without its last bit).
\<close>

theorem sched_runs_earliest_deadline_first:
  assumes "sched_rel z h (now, [])" and "even now" and "distinct (map fst xs)"
    and "\<And>x. x \<in> set xs \<Longrightarrow> (fst x \<noteq> z \<and> fst x \<noteq> NULL) \<and> unat (snd x) < 2 ^ 63" and "length xs < m"
  shows "\<exists>h1 h2. put_all (xf_sched_put z) xs h = Some h1 \<and>
    drain (xf_sched_get z) m h1 = Some (h2, map fst (sort_key (\<lambda>x. unat (snd x AND - 2)) xs))"
  by (rule sched.edf_order [OF assms])

theorem sched_runs_earliest_deadline_first_witness:
  "\<exists>h1 h2. put_all (xf_sched_put 100) [(7, 40), (8, 10), (9, 11)] (xf_sched_init 100 demo_heap) = Some h1 \<and>
    drain (xf_sched_get 100) 4 h1 = Some (h2, [8, 9, 7])"
proof -
  have "\<exists>h1 h2. put_all (xf_sched_put 100) [(7, 40), (8, 10), (9, 11)] (xf_sched_init 100 demo_heap) = Some h1 \<and>
      drain (xf_sched_get 100) 4 h1 =
        Some (h2, map fst (sort_key (\<lambda>x. unat (snd x AND - 2)) [(7 :: addr, 40 :: u64), (8, 10), (9, 11)]))"
    by (rule sched_runs_earliest_deadline_first [OF demo_sched]) auto
  then show ?thesis by simp
qed

text \<open>
  C5. \<^verbatim>\<open>xf_sched_put\<close> implements the specification: it returns, the new task stands behind every
  waiting task that is not later and before every later one, the scheduler's timestamp stays, and
  the invariant of the queue is kept.
\<close>

theorem sched_put_refines:
  assumes "sched_rel z h s" and "spec_inv s" and "n \<notin> fst ` set (snd s)" and "n \<noteq> z \<and> n \<noteq> NULL"
    and "unat dts < 2 ^ 63"
  shows "\<exists>h'. xf_sched_put z h n dts = Some h' \<and> sched_rel z h' (spec_put n dts s) \<and>
    spec_inv (spec_put n dts s)"
  using xf_sched_put_refines [OF assms] spec_inv_put [of "fst s" "snd s" dts n] assms by simp

theorem sched_put_refines_witness:
  "\<exists>h'. xf_sched_put 100 (xf_sched_init 100 demo_heap) 7 40 = Some h' \<and>
    sched_rel 100 h' (spec_put 7 40 (0, [])) \<and> spec_inv (spec_put 7 40 (0, []))"
  by (rule sched_put_refines [OF demo_sched demo_sched_inv]) simp_all

text \<open>
  C6. \<^verbatim>\<open>xf_sched_get\<close> takes the first task of the queue and advances the timestamp to its
  deadline, or returns \<^verbatim>\<open>NULL\<close> and changes nothing when no task waits; the invariant is kept and
  no cell outside the tree changes.
\<close>

theorem sched_get_refines:
  assumes "sched_rel z h s" and "spec_inv s"
  shows "\<exists>h'. xf_sched_get z h = Some (h', snd (spec_get s)) \<and> sched_rel z h' (fst (spec_get s)) \<and>
    spec_inv (fst (spec_get s)) \<and> (\<forall>x. x \<notin> insert z (fst ` set (snd s)) \<longrightarrow> h' x = h x)"
  using xf_sched_get_refines [OF assms(1)] spec_inv_get [OF assms(2)] by blast

theorem sched_get_refines_witness:
  "\<exists>h'. xf_sched_get 100 (xf_sched_init 100 demo_heap) = Some (h', snd (spec_get (0, []))) \<and>
    sched_rel 100 h' (fst (spec_get (0, []))) \<and> spec_inv (fst (spec_get (0, []))) \<and>
    (\<forall>x. x \<notin> insert 100 (fst ` set (snd (0 :: u64, [] :: task_list))) \<longrightarrow>
       h' x = xf_sched_init 100 demo_heap x)"
  by (rule sched_get_refines [OF demo_sched demo_sched_inv])

text \<open>
  Replacing a node by another one (\<^verbatim>\<open>rb_replace\<close>) puts the new node at the place of the old
  one, with its colour and its links.
\<close>

theorem rb_replace_same_place:
  assumes "rb_tree_at z h (plug k (Bin c l n r))" and "t \<noteq> z"
    and "t \<notin> set (inorder (plug k (Bin c l n r)))"
  shows "rb_tree_at z (rb_replace z h n t) (plug k (Bin c l t r))"
  by (rule rb_replace_ok [OF assms])

theorem rb_replace_same_place_witness:
  "rb_tree_at 100 (rb_replace 100 demo_heap 3 9) (plug [RightOf Blk (Bin Red Tip 1 Tip) 2] (Bin Red Tip 9 Tip))"
  by (rule rb_replace_same_place) (use demo_tree_at in \<open>simp_all add: demo_tree_def\<close>)

end
